(* ===== verification/Prelude.thy ===== *)
theory Prelude
  imports Complex_Main "HOL-Library.Char_ord" "HOL-Library.List_Lexorder"
begin

text \<open>
  Shared vocabulary of the development: the errors the services throw, the two computation types
  (a database transaction that is rolled back on a throw, and a request handler whose earlier
  writes stay), a weakest-precondition calculus for both, the list operations that stand for the
  queries of a table, and the number and string helpers of JavaScript the services use
  (\<open>Math.round\<close>, \<open>toFixed(2)\<close>, \<open>padStart\<close>, \<open>String(n)\<close>).
\<close>

section \<open>Errors\<close>

text \<open>
  \<open>AppError\<close> is the class of src/src/common/errors/app-error.js (its status code and code; the
  message is for people and is left out). \<open>DbError\<close> is an error of the database client with its
  \<open>code\<close>, \<open>meta.code\<close> and \<open>message\<close>; \<open>JsError\<close> is a plain \<open>new Error(message)\<close>.
\<close>

datatype error =
    AppError nat string
  | DbError string string string
  | IntegrationError nat string
  | JsError string

text \<open>The two database errors the services look for by code.\<close>

abbreviation uniqueViolation :: error where
  "uniqueViolation \<equiv> DbError ''P2002'' [] ''Unique constraint failed''"

abbreviation recordNotFound :: error where
  "recordNotFound \<equiv> DbError ''P2025'' [] ''Record not found''"

definition isUniqueViolation :: "error \<Rightarrow> bool" where
  "isUniqueViolation e = (case e of DbError c _ _ \<Rightarrow> c = ''P2002'' | _ \<Rightarrow> False)"

lemma isUniqueViolation_simps [simp]:
  "isUniqueViolation uniqueViolation"
  "\<not> isUniqueViolation (AppError n c)"
  "\<not> isUniqueViolation (JsError m)"
  "\<not> isUniqueViolation (IntegrationError n c)"
  by (simp_all add: isUniqueViolation_def)

section \<open>Transactions and handlers\<close>

text \<open>
  A transaction is a function of the database state that throws (the state is then the one before
  the transaction) or returns a value and the new state. A handler always returns a state, since
  what it wrote outside a transaction before a throw stays.
\<close>

type_synonym ('s, 'a) tx = "'s \<Rightarrow> error + 'a \<times> 's"
type_synonym ('s, 'a) io = "'s \<Rightarrow> (error + 'a) \<times> 's"

definition returnT :: "'a \<Rightarrow> ('s, 'a) tx" where
  "returnT x = (\<lambda>s. Inr (x, s))"

definition throwT :: "error \<Rightarrow> ('s, 'a) tx" where
  "throwT e = (\<lambda>s. Inl e)"

definition bindT :: "('s, 'a) tx \<Rightarrow> ('a \<Rightarrow> ('s, 'b) tx) \<Rightarrow> ('s, 'b) tx" where
  "bindT m k = (\<lambda>s. case m s of Inl e \<Rightarrow> Inl e | Inr (x, s') \<Rightarrow> k x s')"

definition thenT :: "('s, 'a) tx \<Rightarrow> ('s, 'b) tx \<Rightarrow> ('s, 'b) tx" where
  "thenT m n = bindT m (\<lambda>_. n)"

definition readT :: "('s \<Rightarrow> 'a) \<Rightarrow> ('s, 'a) tx" where
  "readT f = (\<lambda>s. Inr (f s, s))"

definition writeT :: "('s \<Rightarrow> 's) \<Rightarrow> ('s, unit) tx" where
  "writeT f = (\<lambda>s. Inr ((), f s))"

text \<open>\<open>if (bad) throw e\<close> and \<open>if (!x) throw e\<close>.\<close>

definition throwIfT :: "bool \<Rightarrow> error \<Rightarrow> ('s, unit) tx" where
  "throwIfT b e = (if b then throwT e else returnT ())"

definition orThrowT :: "'a option \<Rightarrow> error \<Rightarrow> ('s, 'a) tx" where
  "orThrowT x e = (case x of None \<Rightarrow> throwT e | Some y \<Rightarrow> returnT y)"

text \<open>\<open>for (const x of xs) body(x)\<close>, and the same collecting the results.\<close>

fun forT :: "'x list \<Rightarrow> ('x \<Rightarrow> ('s, unit) tx) \<Rightarrow> ('s, unit) tx" where
  "forT [] f = returnT ()"
| "forT (x # xs) f = thenT (f x) (forT xs f)"

fun mapT :: "'x list \<Rightarrow> ('x \<Rightarrow> ('s, 'y) tx) \<Rightarrow> ('s, 'y list) tx" where
  "mapT [] f = returnT []"
| "mapT (x # xs) f = bindT (f x) (\<lambda>y. bindT (mapT xs f) (\<lambda>ys. returnT (y # ys)))"

definition returnH :: "'a \<Rightarrow> ('s, 'a) io" where
  "returnH x = (\<lambda>s. (Inr x, s))"

definition throwH :: "error \<Rightarrow> ('s, 'a) io" where
  "throwH e = (\<lambda>s. (Inl e, s))"

definition bindH :: "('s, 'a) io \<Rightarrow> ('a \<Rightarrow> ('s, 'b) io) \<Rightarrow> ('s, 'b) io" where
  "bindH m k = (\<lambda>s. case m s of (Inl e, s') \<Rightarrow> (Inl e, s') | (Inr x, s') \<Rightarrow> k x s')"

definition thenH :: "('s, 'a) io \<Rightarrow> ('s, 'b) io \<Rightarrow> ('s, 'b) io" where
  "thenH m n = bindH m (\<lambda>_. n)"

definition readH :: "('s \<Rightarrow> 'a) \<Rightarrow> ('s, 'a) io" where
  "readH f = (\<lambda>s. (Inr (f s), s))"

definition writeH :: "('s \<Rightarrow> 's) \<Rightarrow> ('s, unit) io" where
  "writeH f = (\<lambda>s. (Inr (), f s))"

definition throwIfH :: "bool \<Rightarrow> error \<Rightarrow> ('s, unit) io" where
  "throwIfH b e = (if b then throwH e else returnH ())"

definition orThrowH :: "'a option \<Rightarrow> error \<Rightarrow> ('s, 'a) io" where
  "orThrowH x e = (case x of None \<Rightarrow> throwH e | Some y \<Rightarrow> returnH y)"

definition liftH :: "error + 'a \<Rightarrow> ('s, 'a) io" where
  "liftH r = (case r of Inl e \<Rightarrow> throwH e | Inr x \<Rightarrow> returnH x)"

text \<open>\<open>try { m } catch (err) { h(err) }\<close>.\<close>

definition catchH :: "('s, 'a) io \<Rightarrow> (error \<Rightarrow> ('s, 'a) io) \<Rightarrow> ('s, 'a) io" where
  "catchH m h = (\<lambda>s. case m s of (Inl e, s') \<Rightarrow> h e s' | (Inr x, s') \<Rightarrow> (Inr x, s'))"

text \<open>\<open>prisma.$transaction(m)\<close>: commits on a return, rolls back on a throw.\<close>

definition transaction :: "('s, 'a) tx \<Rightarrow> ('s, 'a) io" where
  "transaction m = (\<lambda>s. case m s of Inl e \<Rightarrow> (Inl e, s) | Inr (x, s') \<Rightarrow> (Inr x, s'))"

named_theorems monad_defs "definitions of the transaction and handler combinators"

lemmas [monad_defs] = returnT_def throwT_def bindT_def thenT_def readT_def writeT_def
  throwIfT_def orThrowT_def returnH_def throwH_def bindH_def thenH_def readH_def writeH_def
  throwIfH_def orThrowH_def liftH_def catchH_def transaction_def

section \<open>Weakest preconditions\<close>

text \<open>
  \<open>wpT m Q s\<close>: if the transaction \<open>m\<close> commits from \<open>s\<close>, then \<open>Q\<close> holds of its result. \<open>wpH m Q E s\<close>
  is the same for a handler, with \<open>E\<close> for the state it leaves when it throws.
\<close>

definition wpT :: "('s, 'a) tx \<Rightarrow> ('a \<Rightarrow> 's \<Rightarrow> bool) \<Rightarrow> 's \<Rightarrow> bool" where
  "wpT m Q s = (case m s of Inl e \<Rightarrow> True | Inr (x, s') \<Rightarrow> Q x s')"

definition wpH :: "('s, 'a) io \<Rightarrow> ('a \<Rightarrow> 's \<Rightarrow> bool) \<Rightarrow> (error \<Rightarrow> 's \<Rightarrow> bool) \<Rightarrow> 's \<Rightarrow> bool" where
  "wpH m Q E s = (case m s of (Inl e, s') \<Rightarrow> E e s' | (Inr x, s') \<Rightarrow> Q x s')"

named_theorems wp "weakest preconditions of the combinators and of the services' operations"

lemma wpT_returnT [wp]: "wpT (returnT x) Q = Q x"
  by (simp add: wpT_def monad_defs fun_eq_iff)

lemma wpT_throwT [wp]: "wpT (throwT e) Q = (\<lambda>_. True)"
  by (simp add: wpT_def monad_defs fun_eq_iff)

lemma wpT_readT [wp]: "wpT (readT f) Q = (\<lambda>s. Q (f s) s)"
  by (simp add: wpT_def monad_defs fun_eq_iff)

lemma wpT_writeT [wp]: "wpT (writeT g) Q = (\<lambda>s. Q () (g s))"
  by (simp add: wpT_def monad_defs fun_eq_iff)

lemma wpT_throwIfT [wp]: "wpT (throwIfT b e) Q = (\<lambda>s. \<not> b \<longrightarrow> Q () s)"
  by (simp add: wpT_def monad_defs fun_eq_iff)

lemma wpT_orThrowT [wp]: "wpT (orThrowT x e) Q = (\<lambda>s. \<forall>y. x = Some y \<longrightarrow> Q y s)"
  by (simp add: wpT_def monad_defs fun_eq_iff split: option.split)

lemma wpT_bindT [wp]: "wpT (bindT m k) Q = wpT m (\<lambda>x. wpT (k x) Q)"
  by (simp add: wpT_def bindT_def fun_eq_iff split: sum.split prod.split)

lemma wpT_thenT [wp]: "wpT (thenT m n) Q = wpT m (\<lambda>_. wpT n Q)"
  by (simp add: thenT_def wpT_bindT)

lemma wpT_if [wp]: "wpT (if b then m else n) Q = (if b then wpT m Q else wpT n Q)"
  by simp

lemma wpT_mono: "wpT m Q s \<Longrightarrow> (\<And>x s'. Q x s' \<Longrightarrow> R x s') \<Longrightarrow> wpT m R s"
  by (auto simp: wpT_def split: sum.splits)

lemma wpT_conj: "wpT m (\<lambda>x s. Q x s \<and> R x s) s0 = (wpT m Q s0 \<and> wpT m R s0)"
  by (auto simp: wpT_def split: sum.splits)

lemma wpT_D: "wpT m Q s \<Longrightarrow> m s = Inr (x, s') \<Longrightarrow> Q x s'"
  by (simp add: wpT_def)

lemma wpT_I: "(\<And>x s'. m s = Inr (x, s') \<Longrightarrow> Q x s') \<Longrightarrow> wpT m Q s"
  by (simp add: wpT_def split: sum.split)

text \<open>The loop rule: an invariant that every iteration keeps holds after the loop.\<close>

lemma wpT_forT_inv:
  assumes "I s" and "\<And>x s. x \<in> set xs \<Longrightarrow> I s \<Longrightarrow> wpT (f x) (\<lambda>_. I) s"
  shows "wpT (forT xs f) (\<lambda>_. I) s"
  using assms
proof (induction xs arbitrary: s)
  case Nil
  then show ?case by (simp add: wp)
next
  case (Cons x xs)
  have "wpT (f x) (\<lambda>_. I) s" using Cons.prems by simp
  then have "wpT (f x) (\<lambda>_. wpT (forT xs f) (\<lambda>_. I)) s"
    by (rule wpT_mono) (rule Cons.IH, auto intro: Cons.prems)
  then show ?case by (simp add: wp)
qed

lemma wpT_mapT_inv:
  assumes "I s" and "\<And>x s. x \<in> set xs \<Longrightarrow> I s \<Longrightarrow> wpT (f x) (\<lambda>_. I) s"
  shows "wpT (mapT xs f) (\<lambda>_. I) s"
  using assms
proof (induction xs arbitrary: s)
  case Nil
  then show ?case by (simp add: wp)
next
  case (Cons x xs)
  have "wpT (f x) (\<lambda>_. I) s" using Cons.prems by simp
  then have "wpT (f x) (\<lambda>_. wpT (mapT xs f) (\<lambda>_. I)) s"
    by (rule wpT_mono) (rule Cons.IH, auto intro: Cons.prems)
  then show ?case by (simp add: wp)
qed

lemma wpH_returnH [wp]: "wpH (returnH x) Q E = Q x"
  by (simp add: wpH_def monad_defs fun_eq_iff)

lemma wpH_throwH [wp]: "wpH (throwH e) Q E = E e"
  by (simp add: wpH_def monad_defs fun_eq_iff)

lemma wpH_readH [wp]: "wpH (readH f) Q E = (\<lambda>s. Q (f s) s)"
  by (simp add: wpH_def monad_defs fun_eq_iff)

lemma wpH_writeH [wp]: "wpH (writeH g) Q E = (\<lambda>s. Q () (g s))"
  by (simp add: wpH_def monad_defs fun_eq_iff)

lemma wpH_throwIfH [wp]: "wpH (throwIfH b e) Q E = (if b then E e else Q ())"
  by (simp add: wpH_def monad_defs fun_eq_iff)

lemma wpH_orThrowH [wp]:
  "wpH (orThrowH x e) Q E = (case x of None \<Rightarrow> E e | Some y \<Rightarrow> Q y)"
  by (simp add: wpH_def monad_defs fun_eq_iff split: option.split)

lemma wpH_liftH [wp]: "wpH (liftH r) Q E = (case r of Inl e \<Rightarrow> E e | Inr x \<Rightarrow> Q x)"
  by (simp add: wpH_def monad_defs fun_eq_iff split: sum.split)

lemma wpH_bindH [wp]: "wpH (bindH m k) Q E = wpH m (\<lambda>x. wpH (k x) Q E) E"
  by (simp add: wpH_def bindH_def fun_eq_iff split: sum.split prod.split)

lemma wpH_thenH [wp]: "wpH (thenH m n) Q E = wpH m (\<lambda>_. wpH n Q E) E"
  by (simp add: thenH_def wpH_bindH)

lemma wpH_catchH [wp]: "wpH (catchH m h) Q E = wpH m Q (\<lambda>e. wpH (h e) Q E)"
  by (simp add: wpH_def catchH_def fun_eq_iff split: sum.split prod.split)

lemma wpH_if [wp]: "wpH (if b then m else n) Q E = (if b then wpH m Q E else wpH n Q E)"
  by simp

lemma wpH_mono:
  "wpH m Q E s \<Longrightarrow> (\<And>x s'. Q x s' \<Longrightarrow> R x s') \<Longrightarrow> (\<And>e s'. E e s' \<Longrightarrow> F e s') \<Longrightarrow> wpH m R F s"
  by (auto simp: wpH_def split: sum.splits prod.splits)

lemma wpH_D: "wpH m Q E s \<Longrightarrow> m s = (Inr x, s') \<Longrightarrow> Q x s'"
  by (simp add: wpH_def)

lemma wpH_E: "wpH m Q E s \<Longrightarrow> m s = (Inl e, s') \<Longrightarrow> E e s'"
  by (simp add: wpH_def)

text \<open>A rolled-back transaction leaves the state as it was: its throw never shows a partial write.\<close>

lemma wpH_transaction:
  "wpT m Q s \<Longrightarrow> (\<And>e. m s = Inl e \<Longrightarrow> E e s) \<Longrightarrow> wpH (transaction m) Q E s"
  by (auto simp: wpH_def wpT_def transaction_def split: sum.splits)

lemma transaction_Inl: "transaction m s = (Inl e, s') \<longleftrightarrow> m s = Inl e \<and> s' = s"
  by (auto simp: transaction_def split: sum.splits)

lemma transaction_Inr: "transaction m s = (Inr x, s') \<longleftrightarrow> m s = Inr (x, s')"
  by (auto simp: transaction_def split: sum.splits)

section \<open>Outcomes\<close>

text \<open>When a computation returns, and when it throws: one equation per combinator.\<close>

named_theorems outcome "the outcomes of the combinators, as equations"

lemma bindT_Inr [outcome]:
  "bindT m k s = Inr (x, s') \<longleftrightarrow> (\<exists>y s1. m s = Inr (y, s1) \<and> k y s1 = Inr (x, s'))"
  by (auto simp: bindT_def split: sum.splits)

lemma bindT_Inl [outcome]:
  "bindT m k s = Inl e \<longleftrightarrow> m s = Inl e \<or> (\<exists>y s1. m s = Inr (y, s1) \<and> k y s1 = Inl e)"
  by (auto simp: bindT_def split: sum.splits)

lemma thenT_Inr [outcome]:
  "thenT m n s = Inr (x, s') \<longleftrightarrow> (\<exists>y s1. m s = Inr (y, s1) \<and> n s1 = Inr (x, s'))"
  by (simp add: thenT_def outcome)

lemma thenT_Inl [outcome]:
  "thenT m n s = Inl e \<longleftrightarrow> m s = Inl e \<or> (\<exists>y s1. m s = Inr (y, s1) \<and> n s1 = Inl e)"
  by (simp add: thenT_def outcome)

lemma simpleT_outcome [outcome]:
  "returnT y s = Inr (x, s') \<longleftrightarrow> x = y \<and> s' = s" "returnT y s \<noteq> Inl e"
  "throwT e' s \<noteq> Inr (x, s')" "throwT e' s = Inl e \<longleftrightarrow> e = e'"
  by (auto simp: monad_defs)

lemma readT_outcome [outcome]: "readT f s = Inr (x, s') \<longleftrightarrow> x = f s \<and> s' = s" "readT f s \<noteq> Inl e"
  by (auto simp: monad_defs)

lemma writeT_outcome [outcome]: "writeT g s = Inr (u, s') \<longleftrightarrow> s' = g s" "writeT g s \<noteq> Inl e"
  by (auto simp: monad_defs)

lemma throwIfT_outcome [outcome]:
  "throwIfT b e' s = Inr (u, s') \<longleftrightarrow> \<not> b \<and> s' = s" "throwIfT b e' s = Inl e \<longleftrightarrow> b \<and> e = e'"
  by (auto simp: monad_defs)

lemma orThrowT_outcome [outcome]:
  "orThrowT v e' s = Inr (x, s') \<longleftrightarrow> v = Some x \<and> s' = s" "orThrowT v e' s = Inl e \<longleftrightarrow> v = None \<and> e = e'"
  by (auto simp: monad_defs split: option.split)

lemma bindH_Inr [outcome]:
  "bindH m k s = (Inr x, s') \<longleftrightarrow> (\<exists>y s1. m s = (Inr y, s1) \<and> k y s1 = (Inr x, s'))"
  by (auto simp: bindH_def split: sum.splits prod.splits)

lemma bindH_Inl [outcome]:
  "bindH m k s = (Inl e, s') \<longleftrightarrow> m s = (Inl e, s') \<or> (\<exists>y s1. m s = (Inr y, s1) \<and> k y s1 = (Inl e, s'))"
  by (auto simp: bindH_def split: sum.splits prod.splits)

lemma thenH_Inr [outcome]:
  "thenH m n s = (Inr x, s') \<longleftrightarrow> (\<exists>y s1. m s = (Inr y, s1) \<and> n s1 = (Inr x, s'))"
  by (simp add: thenH_def outcome)

lemma thenH_Inl [outcome]:
  "thenH m n s = (Inl e, s') \<longleftrightarrow> m s = (Inl e, s') \<or> (\<exists>y s1. m s = (Inr y, s1) \<and> n s1 = (Inl e, s'))"
  by (simp add: thenH_def outcome)

lemma simpleH_outcome [outcome]:
  "returnH y s = (Inr x, s') \<longleftrightarrow> x = y \<and> s' = s" "returnH y s \<noteq> (Inl e, s')"
  "throwH e' s \<noteq> (Inr x, s')" "throwH e' s = (Inl e, s') \<longleftrightarrow> e = e' \<and> s' = s"
  by (auto simp: monad_defs)

lemma readH_outcome [outcome]:
  "readH f s = (Inr x, s') \<longleftrightarrow> x = f s \<and> s' = s" "readH f s \<noteq> (Inl e, s')"
  by (auto simp: monad_defs)

lemma writeH_outcome [outcome]: "writeH g s = (Inr u, s') \<longleftrightarrow> s' = g s" "writeH g s \<noteq> (Inl e, s')"
  by (auto simp: monad_defs)

lemma throwIfH_outcome [outcome]:
  "throwIfH b e' s = (Inr u, s') \<longleftrightarrow> \<not> b \<and> s' = s"
  "throwIfH b e' s = (Inl e, s') \<longleftrightarrow> b \<and> e = e' \<and> s' = s"
  by (auto simp: monad_defs)

lemma orThrowH_outcome [outcome]:
  "orThrowH v e' s = (Inr x, s') \<longleftrightarrow> v = Some x \<and> s' = s"
  "orThrowH v e' s = (Inl e, s') \<longleftrightarrow> v = None \<and> e = e' \<and> s' = s"
  by (auto simp: monad_defs split: option.split)

lemma catchH_outcome [outcome]:
  "catchH m h s = (Inr x, s') \<longleftrightarrow> m s = (Inr x, s') \<or> (\<exists>e s1. m s = (Inl e, s1) \<and> h e s1 = (Inr x, s'))"
  "catchH m h s = (Inl e', s') \<longleftrightarrow> (\<exists>e s1. m s = (Inl e, s1) \<and> h e s1 = (Inl e', s'))"
  by (auto simp: catchH_def split: sum.splits prod.splits)

lemma liftH_outcome [outcome]:
  "liftH r s = (Inr x, s') \<longleftrightarrow> r = Inr x \<and> s' = s" "liftH r s = (Inl e, s') \<longleftrightarrow> r = Inl e \<and> s' = s"
  by (auto simp: monad_defs split: sum.split)

lemmas [outcome] = transaction_Inr transaction_Inl

lemma if_outcome [outcome]:
  "(if b then m else n) s = r \<longleftrightarrow> (if b then m s = r else n s = r)"
  by simp

text \<open>An invariant of the state kept by both outcomes of a handler.\<close>

definition keepsH :: "('s \<Rightarrow> bool) \<Rightarrow> ('s, 'a) io \<Rightarrow> bool" where
  "keepsH I m \<longleftrightarrow> (\<forall>s. I s \<longrightarrow> I (snd (m s)))"

lemma keepsH_wp:
  assumes "\<And>s. I s \<Longrightarrow> wpH m (\<lambda>_. I) (\<lambda>_. I) s"
  shows "keepsH I m"
  unfolding keepsH_def
proof (intro allI impI)
  fix s
  assume "I s"
  then have "wpH m (\<lambda>_. I) (\<lambda>_. I) s" by (rule assms)
  then show "I (snd (m s))"
    by (cases "m s"; cases "fst (m s)") (auto simp: wpH_def)
qed

named_theorems keeps "the combinators keep an invariant of the state"

lemma keepsH_simple [keeps]:
  "keepsH I (returnH x)" "keepsH I (throwH e)" "keepsH I (readH f)" "keepsH I (throwIfH b e)"
  "keepsH I (orThrowH v e)" "keepsH I (liftH r)"
  by (auto simp: keepsH_def monad_defs split: option.split sum.split)

lemma keepsH_bindH [keeps]: "keepsH I m \<Longrightarrow> (\<And>x. keepsH I (k x)) \<Longrightarrow> keepsH I (bindH m k)"
  by (fastforce simp: keepsH_def bindH_def split: sum.split prod.split)

lemma keepsH_thenH [keeps]: "keepsH I m \<Longrightarrow> keepsH I n \<Longrightarrow> keepsH I (thenH m n)"
  by (simp add: thenH_def keepsH_bindH)

lemma keepsH_catchH [keeps]: "keepsH I m \<Longrightarrow> (\<And>e. keepsH I (h e)) \<Longrightarrow> keepsH I (catchH m h)"
  by (fastforce simp: keepsH_def catchH_def split: sum.split prod.split)

lemma keepsH_if [keeps]: "keepsH I m \<Longrightarrow> keepsH I n \<Longrightarrow> keepsH I (if b then m else n)"
  by simp

lemma keepsH_writeH: "(\<And>s. I s \<Longrightarrow> I (f s)) \<Longrightarrow> keepsH I (writeH f)"
  by (simp add: keepsH_def monad_defs)

lemma keepsH_transaction: "(\<And>s. I s \<Longrightarrow> wpT m (\<lambda>_. I) s) \<Longrightarrow> keepsH I (transaction m)"
  by (auto simp: keepsH_def transaction_def split: sum.split dest: wpT_D)

lemma wpH_transaction_keeps: "wpT m (\<lambda>_. I) s \<Longrightarrow> I s \<Longrightarrow> wpH (transaction m) (\<lambda>_. I) (\<lambda>_. I) s"
  by (rule wpH_transaction)

text \<open>Whether a handler returned; the way a concrete run is turned into its result and state.\<close>

definition succeeded :: "(error + 'a) \<times> 's \<Rightarrow> bool" where
  "succeeded p = (case fst p of Inl e \<Rightarrow> False | Inr x \<Rightarrow> True)"

lemma succeededE: "succeeded p \<Longrightarrow> (\<And>x s. p = (Inr x, s) \<Longrightarrow> thesis) \<Longrightarrow> thesis"
  by (cases p) (auto simp: succeeded_def split: sum.splits)

definition committed :: "error + 'a \<times> 's \<Rightarrow> bool" where
  "committed r = (case r of Inl e \<Rightarrow> False | Inr p \<Rightarrow> True)"

lemma committedE: "committed r \<Longrightarrow> (\<And>x s. r = Inr (x, s) \<Longrightarrow> thesis) \<Longrightarrow> thesis"
  by (auto simp: committed_def split: sum.splits)

section \<open>Tables\<close>

text \<open>
  A table is the list of its rows in insertion order. \<open>findFirst\<close> and \<open>findUnique\<close> read the first
  row that satisfies the \<open>where\<close> clause; \<open>updateMany\<close> and a SQL \<open>UPDATE\<close> change every such row;
  \<open>update\<close> by a unique key fails with P2025 when there is none.
\<close>

definition updateMany :: "('r \<Rightarrow> bool) \<Rightarrow> ('r \<Rightarrow> 'r) \<Rightarrow> 'r list \<Rightarrow> 'r list" where
  "updateMany P f rs = map (\<lambda>r. if P r then f r else r) rs"

definition countWhere :: "('r \<Rightarrow> bool) \<Rightarrow> 'r list \<Rightarrow> nat" where
  "countWhere P rs = length (filter P rs)"

definition deleteMany :: "('r \<Rightarrow> bool) \<Rightarrow> 'r list \<Rightarrow> 'r list" where
  "deleteMany P rs = filter (\<lambda>r. \<not> P r) rs"

lemma find_append: "find P (xs @ ys) = (case find P xs of None \<Rightarrow> find P ys | Some x \<Rightarrow> Some x)"
  by (induction xs) auto

lemma find_cong_pred: "(\<And>x. x \<in> set xs \<Longrightarrow> P x = Q x) \<Longrightarrow> find P xs = find Q xs"
  by (induction xs) auto

lemma find_SomeD: "find P xs = Some x \<Longrightarrow> x \<in> set xs \<and> P x"
  by (induction xs) (auto split: if_splits)

lemma find_Some_ex: "x \<in> set xs \<Longrightarrow> P x \<Longrightarrow> \<exists>y. find P xs = Some y"
  by (induction xs) auto

lemma find_updateMany:
  assumes "\<And>r. r \<in> set rs \<Longrightarrow> P r \<Longrightarrow> Q (f r) = Q r"
  shows "find Q (updateMany P f rs) = map_option (\<lambda>r. if P r then f r else r) (find Q rs)"
  using assms by (induction rs) (auto simp: updateMany_def)

lemma set_updateMany: "set (updateMany P f rs) = (\<lambda>r. if P r then f r else r) ` set rs"
  by (simp add: updateMany_def)

lemma length_updateMany [simp]: "length (updateMany P f rs) = length rs"
  by (simp add: updateMany_def)

lemma updateMany_append [simp]: "updateMany P f (xs @ ys) = updateMany P f xs @ updateMany P f ys"
  by (simp add: updateMany_def)

lemma updateMany_Nil [simp]: "updateMany P f [] = []"
  by (simp add: updateMany_def)

lemma updateMany_Cons [simp]:
  "updateMany P f (r # rs) = (if P r then f r else r) # updateMany P f rs"
  by (simp add: updateMany_def)

lemma updateMany_none: "(\<And>r. r \<in> set rs \<Longrightarrow> \<not> P r) \<Longrightarrow> updateMany P f rs = rs"
  by (induction rs) auto

lemma map_updateMany: "(\<And>r. g (f r) = g r) \<Longrightarrow> map g (updateMany P f rs) = map g rs"
  by (induction rs) auto

section \<open>Numbers and strings of JavaScript\<close>

text \<open>\<open>Math.round\<close>: the nearest integer, halves towards plus infinity.\<close>

definition js_round :: "rat \<Rightarrow> int" where
  "js_round x = \<lfloor>x + 1 / 2\<rfloor>"

lemma js_round_of_int [simp]: "js_round (of_int n) = n"
  unfolding js_round_def by (rule floor_unique) simp_all

lemma js_round_div:
  assumes "0 < d"
  shows "js_round (of_int n / of_int d) = (2 * n + d) div (2 * d)"
proof -
  have "of_int n / of_int d + 1 / 2 = (of_int (2 * n + d) :: rat) / of_int (2 * d)"
    using assms by (simp add: field_simps)
  then show ?thesis by (simp only: js_round_def floor_divide_of_int_eq)
qed

lemma js_round_mono: "x \<le> y \<Longrightarrow> js_round x \<le> js_round y"
  by (simp add: js_round_def floor_mono)

text \<open>\<open>String(n)\<close> for a natural number, and reading the digits back.\<close>

definition digit :: "nat \<Rightarrow> char" where
  "digit d = ''0123456789'' ! d"

definition is_digit :: "char \<Rightarrow> bool" where
  "is_digit c \<longleftrightarrow> c \<in> set ''0123456789''"

definition digit_val :: "char \<Rightarrow> nat" where
  "digit_val c = of_char c - 48"

fun show_nat :: "nat \<Rightarrow> string" where
  "show_nat n = (if n < 10 then [digit n] else show_nat (n div 10) @ [digit (n mod 10)])"

declare show_nat.simps [simp del]

definition show_int :: "int \<Rightarrow> string" where
  "show_int i = (if i < 0 then ''-'' else []) @ show_nat (nat \<bar>i\<bar>)"

definition digits_val :: "string \<Rightarrow> nat" where
  "digits_val s = foldl (\<lambda>n c. 10 * n + digit_val c) 0 s"

lemma less_10_cases:
  "(n::nat) < 10 \<Longrightarrow> n = 0 \<or> n = 1 \<or> n = 2 \<or> n = 3 \<or> n = 4 \<or> n = 5 \<or> n = 6 \<or> n = 7 \<or> n = 8 \<or> n = 9"
  by (simp add: eval_nat_numeral less_Suc_eq)

lemma digit_facts: "d < 10 \<Longrightarrow> is_digit (digit d) \<and> digit_val (digit d) = d"
  by (drule less_10_cases) (auto simp: digit_def is_digit_def digit_val_def)

lemma digits_val_append1 [simp]: "digits_val (s @ [c]) = 10 * digits_val s + digit_val c"
  by (simp add: digits_val_def)

lemma digits_val_show_nat [simp]: "digits_val (show_nat n) = n"
proof (induction n rule: show_nat.induct)
  case (1 n)
  show ?case
  proof (cases "n < 10")
    case True
    then show ?thesis
      by (simp add: show_nat.simps [of n] digits_val_def digit_facts)
  next
    case False
    with "1.IH" show ?thesis
      by (simp add: show_nat.simps [of n] digit_facts)
  qed
qed

lemma show_nat_digits: "\<forall>c \<in> set (show_nat n). is_digit c"
proof (induction n rule: show_nat.induct)
  case (1 n)
  then show ?case
    by (cases "n < 10") (auto simp: show_nat.simps [of n] digit_facts)
qed

lemma show_nat_inject [simp]: "show_nat m = show_nat n \<longleftrightarrow> m = n"
  by (metis digits_val_show_nat)

text \<open>\<open>String(n).padStart(k, '0')\<close>.\<close>

definition padStart0 :: "nat \<Rightarrow> string \<Rightarrow> string" where
  "padStart0 k s = replicate (k - length s) (CHR ''0'') @ s"

lemma digits_val_zeros: "digits_val (replicate k (CHR ''0'') @ s) = digits_val s"
  by (induction k) (simp_all add: digits_val_def digit_val_def)

lemma digits_val_padStart0 [simp]: "digits_val (padStart0 k s) = digits_val s"
  by (simp add: padStart0_def digits_val_zeros)

text \<open>
  Money. The database keeps amounts as \<open>Decimal(12,2)\<close>, which is an integer number of paise here;
  \<open>money\<close> is \<open>(c / 100).toFixed(2)\<close> and \<open>cents\<close> is \<open>Math.round(parseFloat(v) * 100)\<close> on the amounts the
  request validators admit (\<open>digits\<close> or \<open>digits.d\<close> or \<open>digits.dd\<close>) and on what \<open>money\<close> prints. Both
  are exact on doubles for amounts below 2 to the power 46.
\<close>

type_synonym paise = int

definition money :: "paise \<Rightarrow> string" where
  "money c = (if c < 0 then ''-'' else []) @ show_nat (nat \<bar>c\<bar> div 100) @ ''.''
     @ padStart0 2 (show_nat (nat \<bar>c\<bar> mod 100))"

definition unsigned_cents :: "string \<Rightarrow> nat" where
  "unsigned_cents v =
     (let whole = takeWhile is_digit v;
          rest = dropWhile is_digit v;
          frac = (case rest of [] \<Rightarrow> [] | c # r \<Rightarrow> if c = CHR ''.'' then takeWhile is_digit r else [])
      in digits_val whole * 100 + digits_val (take 2 (frac @ ''00'')))"

definition cents :: "string \<Rightarrow> paise" where
  "cents v = (case v of
       [] \<Rightarrow> 0
     | c # r \<Rightarrow> if c = CHR ''-'' then - int (unsigned_cents r) else int (unsigned_cents v))"

text \<open>\<open>Decimal.prototype.toString\<close>: no trailing zeros.\<close>

definition decToString :: "paise \<Rightarrow> string" where
  "decToString c = (if c < 0 then ''-'' else []) @ show_nat (nat \<bar>c\<bar> div 100)
     @ (let f = nat \<bar>c\<bar> mod 100 in
        if f = 0 then [] else if f mod 10 = 0 then ''.'' @ [digit (f div 10)]
        else ''.'' @ padStart0 2 (show_nat f))"

lemma length_pad2: "n < 100 \<Longrightarrow> length (padStart0 2 (show_nat n)) = 2"
proof (cases "n < 10")
  case True
  then show ?thesis by (simp add: padStart0_def show_nat.simps [of n])
next
  case False
  moreover assume "n < 100"
  then have "n div 10 < 10" by simp
  ultimately show ?thesis
    by (simp add: padStart0_def show_nat.simps [of n] show_nat.simps [of "n div 10"])
qed

lemma is_digit_0 [simp]: "is_digit (CHR ''0'')"
  by (simp add: is_digit_def)

lemma pad2_digits: "\<forall>c \<in> set (padStart0 2 (show_nat n)). is_digit c"
proof
  fix c
  assume "c \<in> set (padStart0 2 (show_nat n))"
  then have "c = CHR ''0'' \<or> c \<in> set (show_nat n)"
    unfolding padStart0_def set_append set_replicate_conv_if by (simp split: if_splits)
  then show "is_digit c" using show_nat_digits [of n] is_digit_0 by metis
qed

lemma unsigned_cents_money:
  assumes "n < 100"
  shows "unsigned_cents (show_nat m @ ''.'' @ padStart0 2 (show_nat n)) = m * 100 + n"
proof -
  have dot: "\<not> is_digit (CHR ''.'')" by (simp add: is_digit_def)
  have tw: "takeWhile is_digit (show_nat m @ CHR ''.'' # r) = show_nat m"
    and dw: "dropWhile is_digit (show_nat m @ CHR ''.'' # r) = CHR ''.'' # r" for r
    using show_nat_digits [of m] dot
    by (simp_all add: takeWhile_append2 dropWhile_append2 takeWhile_append dropWhile_append)
  have fr: "takeWhile is_digit (padStart0 2 (show_nat n)) = padStart0 2 (show_nat n)"
    using pad2_digits [of n] by (simp add: takeWhile_eq_all_conv)
  show ?thesis
    using length_pad2 [OF assms] by (simp add: unsigned_cents_def tw dw fr)
qed

lemma show_nat_nonempty: "show_nat n \<noteq> []"
  by (simp add: show_nat.simps [of n])

lemma show_nat_hd: "c # r = show_nat n @ s \<Longrightarrow> c \<noteq> CHR ''-''"
  using show_nat_digits [of n] show_nat_nonempty [of n]
  by (cases "show_nat n") (auto simp: is_digit_def)

lemma cents_unsigned: "cents (show_nat n @ s) = int (unsigned_cents (show_nat n @ s))"
  using show_nat_hd [of _ _ n s] show_nat_nonempty [of n]
  by (cases "show_nat n @ s") (auto simp: cents_def)

lemma cents_money_aux: "cents (money c) = c"
proof -
  let ?u = "show_nat (nat \<bar>c\<bar> div 100) @ ''.'' @ padStart0 2 (show_nat (nat \<bar>c\<bar> mod 100))"
  have u: "unsigned_cents ?u = nat \<bar>c\<bar>"
    by (subst unsigned_cents_money) simp_all
  show ?thesis
  proof (cases "c < 0")
    case True
    then have "cents (money c) = - int (unsigned_cents ?u)"
      by (simp add: money_def cents_def)
    with u True show ?thesis by simp
  next
    case False
    then have "cents (money c) = int (unsigned_cents ?u)"
      by (simp add: money_def cents_unsigned)
    with u False show ?thesis by simp
  qed
qed

lemma unsigned_cents_whole: "unsigned_cents (show_nat m) = m * 100"
proof -
  have tw: "takeWhile is_digit (show_nat m) = show_nat m" and dw: "dropWhile is_digit (show_nat m) = []"
    using show_nat_digits [of m] by (simp_all add: takeWhile_eq_all_conv dropWhile_eq_Nil_conv)
  have "digits_val ''00'' = 0" by (simp add: digits_val_def digit_val_def)
  then show ?thesis by (simp add: unsigned_cents_def tw dw)
qed

lemma unsigned_cents_tenths:
  assumes "d < 10"
  shows "unsigned_cents (show_nat m @ ''.'' @ [digit d]) = m * 100 + 10 * d"
proof -
  have dot: "\<not> is_digit (CHR ''.'')" by (simp add: is_digit_def)
  have tw: "takeWhile is_digit (show_nat m @ CHR ''.'' # r) = show_nat m"
    and dw: "dropWhile is_digit (show_nat m @ CHR ''.'' # r) = CHR ''.'' # r" for r
    using show_nat_digits [of m] dot
    by (simp_all add: takeWhile_append2 dropWhile_append2 takeWhile_append dropWhile_append)
  have "digits_val [digit d, CHR ''0''] = 10 * d"
    using digit_facts [OF assms] by (simp add: digits_val_def digit_val_def [of "CHR ''0''"])
  then show ?thesis
    using digit_facts [OF assms] by (simp add: unsigned_cents_def tw dw)
qed

lemma mult_div_cancel_mod0: "(n::nat) mod k = 0 \<Longrightarrow> k * (n div k) = n"
  by (rule dvd_mult_div_cancel) (rule mod_0_imp_dvd)

lemma cents_decToString_aux: "cents (decToString c) = c"
proof -
  let ?w = "nat \<bar>c\<bar> div 100" and ?f = "nat \<bar>c\<bar> mod 100"
  let ?r = "if ?f = 0 then [] else if ?f mod 10 = 0 then ''.'' @ [digit (?f div 10)] else ''.'' @ padStart0 2 (show_nat ?f)"
  have f: "?f < 100" by simp
  then have f10: "?f div 10 < 10" by (simp add: div_less_dividend less_mult_imp_div_less)
  have tenths: "10 * (?f div 10) = ?f" if "?f mod 10 = 0"
    using that by (rule mult_div_cancel_mod0)
  have u: "unsigned_cents (show_nat ?w @ ?r) = ?w * 100 + ?f"
  proof (cases "?f = 0")
    case True
    then show ?thesis by (simp only: True if_True append_Nil2 unsigned_cents_whole add_0_right)
  next
    case False
    show ?thesis
    proof (cases "?f mod 10 = 0")
      case True
      then show ?thesis
        by (simp only: False True if_True if_False unsigned_cents_tenths [OF f10] tenths [OF True])
    next
      case F2: False
      show ?thesis by (simp only: False F2 if_False unsigned_cents_money [OF f])
    qed
  qed
  have w: "?w * 100 + ?f = nat \<bar>c\<bar>" by simp
  have s: "decToString c = (if c < 0 then ''-'' else []) @ show_nat ?w @ ?r"
    by (simp add: decToString_def Let_def)
  have n: "cents (show_nat ?w @ ?r) = int (unsigned_cents (show_nat ?w @ ?r))"
    by (rule cents_unsigned)
  show ?thesis
  proof (cases "c < 0")
    case True
    then have "cents (decToString c) = - int (unsigned_cents (show_nat ?w @ ?r))"
      by (simp only: s if_True append.simps) (simp add: cents_def)
    then show ?thesis using True unfolding u w by simp
  next
    case False
    then have "cents (decToString c) = int (unsigned_cents (show_nat ?w @ ?r))"
      by (simp only: s if_False append_Nil n)
    then show ?thesis using False unfolding u w by simp
  qed
qed

text \<open>Substring search (\<open>s.includes(t)\<close>) and prefix test, as the code's string tests use them.\<close>

fun startsWith :: "string \<Rightarrow> string \<Rightarrow> bool" where
  "startsWith s [] = True"
| "startsWith [] (t # ts) = False"
| "startsWith (c # s) (t # ts) = (c = t \<and> startsWith s ts)"

fun strIncludes :: "string \<Rightarrow> string \<Rightarrow> bool" where
  "strIncludes [] t = (t = [])"
| "strIncludes (c # s) t = (startsWith (c # s) t \<or> strIncludes s t)"

text \<open>ASCII case mapping, and \<open>trim\<close> on ASCII white space.\<close>

definition lower_char :: "char \<Rightarrow> char" where
  "lower_char c = (let n = (of_char c :: nat) in if 65 \<le> n \<and> n \<le> 90 then char_of (n + 32) else c)"

definition upper_char :: "char \<Rightarrow> char" where
  "upper_char c = (let n = (of_char c :: nat) in if 97 \<le> n \<and> n \<le> 122 then char_of (n - 32) else c)"

abbreviation toLowerCase :: "string \<Rightarrow> string" where
  "toLowerCase \<equiv> map lower_char"

abbreviation toUpperCase :: "string \<Rightarrow> string" where
  "toUpperCase \<equiv> map upper_char"

definition is_space :: "char \<Rightarrow> bool" where
  "is_space c \<longleftrightarrow> (let n = (of_char c :: nat) in n = 32 \<or> 9 \<le> n \<and> n \<le> 13)"

definition trim :: "string \<Rightarrow> string" where
  "trim s = rev (dropWhile is_space (rev (dropWhile is_space s)))"

text \<open>\<open>a || b\<close> on optional strings: an absent or empty left operand gives the right one.\<close>

definition orElse :: "string option \<Rightarrow> string option \<Rightarrow> string option" where
  "orElse a b = (case a of None \<Rightarrow> b | Some x \<Rightarrow> if x = [] then b else a)"

text \<open>\<open>a ?? b\<close>: only an absent left operand gives the right one.\<close>

definition coalesce :: "'a option \<Rightarrow> 'a option \<Rightarrow> 'a option" where
  "coalesce a b = (case a of None \<Rightarrow> b | Some _ \<Rightarrow> a)"

lemma coalesce_simps [simp]: "coalesce None b = b" "coalesce (Some x) b = Some x"
  by (simp_all add: coalesce_def)

text \<open>\<open>String.prototype.split\<close> by one character.\<close>

fun splitOn :: "char \<Rightarrow> string \<Rightarrow> string list" where
  "splitOn d [] = [[]]"
| "splitOn d (c # cs) =
     (if c = d then [] # splitOn d cs
      else (case splitOn d cs of [] \<Rightarrow> [[c]] | w # ws \<Rightarrow> (c # w) # ws))"

lemma splitOn_word: "d \<notin> set w \<Longrightarrow> splitOn d (w @ d # cs) = w # splitOn d cs"
  by (induction w) auto

lemma splitOn_last: "d \<notin> set w \<Longrightarrow> splitOn d w = [w]"
  by (induction w) auto

end
