(* ===== verification/JsValue.thy ===== *)
theory JsValue
  imports Prelude
begin

text \<open>
  The dynamic values the services pass around as metadata, tax profiles, snapshots and log
  payloads: JSON with \<open>undefined\<close> and dates (milliseconds since the epoch). An object is its list of
  properties in insertion order. Database decimals are converted to strings before they get here.
\<close>

datatype jsval =
    JUndef
  | JNull
  | JBool bool
  | JNum rat
  | JStr string
  | JDate int
  | JArr "jsval list"
  | JObj "(string \<times> jsval) list"

text \<open>Truthiness, \<open>a || b\<close>, \<open>a ?? b\<close>, and the property read \<open>v?.k\<close>.\<close>

fun truthy :: "jsval \<Rightarrow> bool" where
  "truthy JUndef = False"
| "truthy JNull = False"
| "truthy (JBool b) = b"
| "truthy (JNum n) = (n \<noteq> 0)"
| "truthy (JStr s) = (s \<noteq> [])"
| "truthy _ = True"

definition jsOr :: "jsval \<Rightarrow> jsval \<Rightarrow> jsval" where
  "jsOr a b = (if truthy a then a else b)"

definition nullish :: "jsval \<Rightarrow> bool" where
  "nullish v \<longleftrightarrow> v = JUndef \<or> v = JNull"

definition jsNullish :: "jsval \<Rightarrow> jsval \<Rightarrow> jsval" where
  "jsNullish a b = (if nullish a then b else a)"

fun jget :: "string \<Rightarrow> jsval \<Rightarrow> jsval" where
  "jget k (JObj kvs) = (case map_of kvs k of None \<Rightarrow> JUndef | Some v \<Rightarrow> v)"
| "jget k _ = JUndef"

text \<open>The object spread \<open>{ ...a, ...b }\<close>: a later property replaces an earlier one in place.\<close>

fun setProp :: "string \<Rightarrow> jsval \<Rightarrow> (string \<times> jsval) list \<Rightarrow> (string \<times> jsval) list" where
  "setProp k v [] = [(k, v)]"
| "setProp k v ((k', v') # kvs) = (if k = k' then (k, v) # kvs else (k', v') # setProp k v kvs)"

definition spread :: "jsval \<Rightarrow> (string \<times> jsval) list \<Rightarrow> jsval" where
  "spread v kvs = JObj (foldl (\<lambda>acc (k, x). setProp k x acc) (case v of JObj ps \<Rightarrow> ps | _ \<Rightarrow> []) kvs)"

text \<open>A nullable column as a value.\<close>

definition jsOfOpt :: "string option \<Rightarrow> jsval" where
  "jsOfOpt x = (case x of None \<Rightarrow> JNull | Some s \<Rightarrow> JStr s)"

definition jsStr :: "jsval \<Rightarrow> string option" where
  "jsStr v = (case v of JStr s \<Rightarrow> Some s | _ \<Rightarrow> None)"

definition jsInt :: "int \<Rightarrow> jsval" where
  "jsInt i = JNum (of_int i)"

lemma map_of_setProp [simp]: "map_of (setProp k v kvs) = (map_of kvs)(k \<mapsto> v)"
  by (induction kvs) (auto simp: fun_eq_iff)

lemma jget_spread_single [simp]:
  "jget k (spread v [(k', x)]) = (if k = k' then x else jget k v)"
  by (cases v) (auto simp: spread_def)

end
