(* ===== verification/Gst.thy ===== *)
theory Gst
  imports JsValue
begin

text \<open>
  Indian GST: src/src/modules/gst/india.js (state codes, GSTIN checksum, financial year) and
  src/src/modules/orders/gst.js (rates, the tax of a line, its split, the place of supply, invoice
  numbers). Amounts are paise, rates are percentages as exact rationals.
\<close>

section \<open>State codes\<close>

record gst_state =
  st_code :: string
  st_name :: string
  st_short :: "string list"

definition mkState :: "string \<Rightarrow> string \<Rightarrow> string list \<Rightarrow> gst_state" where
  "mkState c n sh = \<lparr>st_code = c, st_name = n, st_short = sh\<rparr>"

definition GST_STATES :: "gst_state list" where
  "GST_STATES =
   [mkState ''01'' ''Jammu and Kashmir'' [''JK''],
    mkState ''02'' ''Himachal Pradesh'' [''HP''],
    mkState ''03'' ''Punjab'' [''PB''],
    mkState ''04'' ''Chandigarh'' [''CH''],
    mkState ''05'' ''Uttarakhand'' [''UK'', ''UT''],
    mkState ''06'' ''Haryana'' [''HR''],
    mkState ''07'' ''Delhi'' [''DL''],
    mkState ''08'' ''Rajasthan'' [''RJ''],
    mkState ''09'' ''Uttar Pradesh'' [''UP''],
    mkState ''10'' ''Bihar'' [''BR''],
    mkState ''11'' ''Sikkim'' [''SK''],
    mkState ''12'' ''Arunachal Pradesh'' [''AR''],
    mkState ''13'' ''Nagaland'' [''NL''],
    mkState ''14'' ''Manipur'' [''MN''],
    mkState ''15'' ''Mizoram'' [''MZ''],
    mkState ''16'' ''Tripura'' [''TR''],
    mkState ''17'' ''Meghalaya'' [''ML''],
    mkState ''18'' ''Assam'' [''AS''],
    mkState ''19'' ''West Bengal'' [''WB''],
    mkState ''20'' ''Jharkhand'' [''JH''],
    mkState ''21'' ''Odisha'' [''OD'', ''OR''],
    mkState ''22'' ''Chhattisgarh'' [''CT'', ''CG''],
    mkState ''23'' ''Madhya Pradesh'' [''MP''],
    mkState ''24'' ''Gujarat'' [''GJ''],
    mkState ''26'' ''Dadra and Nagar Haveli and Daman and Diu'' [''DN'', ''DH'', ''DD''],
    mkState ''27'' ''Maharashtra'' [''MH''],
    mkState ''29'' ''Karnataka'' [''KA''],
    mkState ''30'' ''Goa'' [''GA''],
    mkState ''31'' ''Lakshadweep'' [''LD''],
    mkState ''32'' ''Kerala'' [''KL''],
    mkState ''33'' ''Tamil Nadu'' [''TN''],
    mkState ''34'' ''Puducherry'' [''PY''],
    mkState ''35'' ''Andaman and Nicobar Islands'' [''AN''],
    mkState ''36'' ''Telangana'' [''TG'', ''TS''],
    mkState ''37'' ''Andhra Pradesh'' [''AP''],
    mkState ''38'' ''Ladakh'' [''LA''],
    mkState ''97'' ''Other Territory'' [''OT'']]"

definition isStateCode :: "string \<Rightarrow> bool" where
  "isStateCode code \<longleftrightarrow> code \<in> set (map st_code GST_STATES)"

text \<open>The lookup table: every code, lower-case name and lower-case short form; a later entry wins.\<close>

definition stateKeys :: "gst_state \<Rightarrow> (string \<times> string) list" where
  "stateKeys s = (st_code s, st_code s) # (toLowerCase (st_name s), st_code s)
     # map (\<lambda>sh. (toLowerCase sh, st_code s)) (st_short s)"

definition LOOKUP :: "(string \<times> string) list" where
  "LOOKUP = rev (concat (map stateKeys GST_STATES))"

text \<open>\<open>replace(/\s+/g, ' ')\<close> and \<open>replace(/&/g, 'and')\<close>.\<close>

function squashSpaces :: "string \<Rightarrow> string" where
  "squashSpaces [] = []"
| "squashSpaces (c # cs) =
     (if is_space c then CHR '' '' # squashSpaces (dropWhile is_space cs) else c # squashSpaces cs)"
  by pat_completeness auto
termination
  by (relation "measure length") (auto simp: le_imp_less_Suc length_dropWhile_le)

definition spellAmp :: "string \<Rightarrow> string" where
  "spellAmp s = concat (map (\<lambda>c. if c = CHR ''&'' then ''and'' else [c]) s)"

definition toStateCode :: "string option \<Rightarrow> string option" where
  "toStateCode value = (case value of
       None \<Rightarrow> None
     | Some v \<Rightarrow>
         (let key = spellAmp (squashSpaces (toLowerCase (trim v))) in
          if key = [] then None
          else map_of LOOKUP (if length key = 1 \<and> is_digit (hd key) then CHR ''0'' # key else key)))"

definition stateName :: "string \<Rightarrow> string option" where
  "stateName code = map_option st_name (find (\<lambda>s. st_code s = code) GST_STATES)"

lemma map_of_LOOKUP_code: "map_of LOOKUP k = Some c \<Longrightarrow> isStateCode c"
  by (drule map_of_SomeD)
     (auto simp: LOOKUP_def stateKeys_def isStateCode_def)

section \<open>GSTIN\<close>

definition GSTIN_CHARS :: string where
  "GSTIN_CHARS = ''0123456789ABCDEFGHIJKLMNOPQRSTUVWXYZ''"

text \<open>\<open>GSTIN_CHARS.indexOf(c)\<close>: -1 when the character is absent.\<close>

fun index_of :: "'a list \<Rightarrow> 'a \<Rightarrow> int option" where
  "index_of [] c = None"
| "index_of (x # xs) c = (if x = c then Some 0 else map_option (\<lambda>i. i + 1) (index_of xs c))"

definition gstinIndex :: "char \<Rightarrow> int" where
  "gstinIndex c = (case index_of GSTIN_CHARS c of None \<Rightarrow> -1 | Some i \<Rightarrow> i)"

text \<open>\<open>%\<close> on numbers: the remainder has the sign of the dividend.\<close>

definition js_rem :: "int \<Rightarrow> int \<Rightarrow> int" where
  "js_rem a b = sgn a * (\<bar>a\<bar> mod \<bar>b\<bar>)"

definition gstinTerm :: "nat \<Rightarrow> char \<Rightarrow> int" where
  "gstinTerm i c =
     (let product = gstinIndex c * (if i mod 2 = 0 then 1 else 2)
      in product div 36 + js_rem product 36)"

definition gstinSum :: "string \<Rightarrow> int" where
  "gstinSum s = (\<Sum>i<14. gstinTerm i (s ! i))"

text \<open>The loop reads exactly the first fourteen characters, which the callers guarantee.\<close>

definition gstinCheckChar :: "string \<Rightarrow> char" where
  "gstinCheckChar first14 = GSTIN_CHARS ! nat (js_rem (36 - js_rem (gstinSum first14) 36) 36)"

definition is_upper :: "char \<Rightarrow> bool" where
  "is_upper c \<longleftrightarrow> (let n = (of_char c :: nat) in 65 \<le> n \<and> n \<le> 90)"

text \<open>\<open>/^[0-9]{2}[A-Z]{5}[0-9]{4}[A-Z][1-9A-Z]Z[0-9A-Z]$/\<close>.\<close>

definition gstinFormat :: "string \<Rightarrow> bool" where
  "gstinFormat s \<longleftrightarrow>
     length s = 15 \<and> list_all is_digit (take 2 s) \<and> list_all is_upper (take 5 (drop 2 s))
     \<and> list_all is_digit (take 4 (drop 7 s)) \<and> is_upper (s ! 11)
     \<and> (is_upper (s ! 12) \<or> is_digit (s ! 12) \<and> s ! 12 \<noteq> CHR ''0'')
     \<and> s ! 13 = CHR ''Z'' \<and> (is_upper (s ! 14) \<or> is_digit (s ! 14))"

definition isValidGstin :: "string option \<Rightarrow> bool" where
  "isValidGstin value =
     (let gstin = toUpperCase (trim (case value of None \<Rightarrow> [] | Some v \<Rightarrow> v)) in
      gstinFormat gstin \<and> isStateCode (take 2 gstin) \<and> gstinCheckChar (take 14 gstin) = gstin ! 14)"

text \<open>\<open>/^[A-Z]{5}[0-9]{4}[A-Z]$/\<close>.\<close>

definition isValidPan :: "string option \<Rightarrow> bool" where
  "isValidPan value =
     (let pan = toUpperCase (trim (case value of None \<Rightarrow> [] | Some v \<Rightarrow> v)) in
      length pan = 10 \<and> list_all is_upper (take 5 pan) \<and> list_all is_digit (take 4 (drop 5 pan))
      \<and> is_upper (pan ! 9))"

section \<open>The financial year\<close>

text \<open>
  India time is UTC+5:30 without daylight saving. The civil year and month of a day number
  (days since 1 January 1970, proleptic Gregorian) by the usual 400-year eras that start in March.
\<close>

definition marchYear :: "int \<Rightarrow> int" where
  "marchYear days =
     (let z = days + 719468; era = z div 146097; doe = z mod 146097;
          yoe = (doe - doe div 1460 + doe div 36524 - doe div 146096) div 365
      in yoe + era * 400)"

definition marchMonth :: "int \<Rightarrow> int" where
  "marchMonth days =
     (let doe = (days + 719468) mod 146097;
          yoe = (doe - doe div 1460 + doe div 36524 - doe div 146096) div 365;
          doy = doe - (365 * yoe + yoe div 4 - yoe div 100)
      in (5 * doy + 2) div 153)"

definition kolkataDay :: "int \<Rightarrow> int" where
  "kolkataDay ms = (ms + 19800000) div 86400000"

definition kolkataMonth :: "int \<Rightarrow> int" where
  "kolkataMonth ms =
     (let mp = marchMonth (kolkataDay ms) in if mp < 10 then mp + 3 else mp - 9)"

definition kolkataYear :: "int \<Rightarrow> int" where
  "kolkataYear ms = marchYear (kolkataDay ms) + (if kolkataMonth ms \<le> 2 then 1 else 0)"

definition financialYear :: "int \<Rightarrow> string" where
  "financialYear ms =
     (let start = (if kolkataMonth ms \<ge> 4 then kolkataYear ms else kolkataYear ms - 1)
      in show_int start @ ''-'' @ padStart0 2 (show_int (js_rem (start + 1) 100)))"

section \<open>GST on orders\<close>

definition GST_RATES :: "rat list" where
  "GST_RATES = [0, 1 / 4, 3, 5, 12, 18, 28]"

definition TAXABILITY :: "string list" where
  "TAXABILITY = [''TAXABLE'', ''NIL_RATED'', ''EXEMPT'', ''NON_GST'']"

text \<open>GST in paise for a taxable amount, rounded half up.\<close>

definition gstCents :: "paise \<Rightarrow> rat \<Rightarrow> paise" where
  "gstCents taxableCents ratePercent =
     (if taxableCents \<le> 0 \<or> ratePercent \<le> 0 then 0
      else js_round (of_int (taxableCents * js_round (ratePercent * 100)) / 10000))"

text \<open>GST already inside a tax-inclusive amount.\<close>

definition includedGstCents :: "paise \<Rightarrow> rat \<Rightarrow> paise" where
  "includedGstCents grossCents ratePercent =
     (if grossCents \<le> 0 \<or> ratePercent \<le> 0 then 0
      else let r = js_round (ratePercent * 100)
           in js_round (of_int (grossCents * r) / of_int (10000 + r)))"

text \<open>The rate of a line: the product's taxability and own rate, else the default.\<close>

record gst_product =
  gp_gstTaxability :: "string option"
  gp_gstRatePercent :: "rat option"

definition lineRate :: "gst_product option \<Rightarrow> rat \<Rightarrow> rat" where
  "lineRate product defaultRate =
     (case product of
        None \<Rightarrow> defaultRate
      | Some p \<Rightarrow>
          (case gp_gstTaxability p of
             Some t \<Rightarrow> if t \<noteq> [] \<and> t \<noteq> ''TAXABLE'' then 0
               else (case gp_gstRatePercent p of None \<Rightarrow> defaultRate | Some own \<Rightarrow> own)
           | None \<Rightarrow> (case gp_gstRatePercent p of None \<Rightarrow> defaultRate | Some own \<Rightarrow> own)))"

record line_tax =
  lt_taxableCents :: paise
  lt_taxCents :: paise

definition lineTax :: "paise \<Rightarrow> rat \<Rightarrow> bool \<Rightarrow> paise option \<Rightarrow> line_tax" where
  "lineTax grossCents ratePercent inclusive explicitTaxCents =
     (case explicitTaxCents of
        Some t \<Rightarrow> \<lparr>lt_taxableCents = grossCents, lt_taxCents = t\<rparr>
      | None \<Rightarrow>
          if inclusive then
            (let taxCents = includedGstCents grossCents ratePercent
             in \<lparr>lt_taxableCents = grossCents - taxCents, lt_taxCents = taxCents\<rparr>)
          else \<lparr>lt_taxableCents = grossCents, lt_taxCents = gstCents grossCents ratePercent\<rparr>)"

record tax_split =
  ts_cgst :: paise
  ts_sgst :: paise
  ts_igst :: paise

definition splitTax :: "paise \<Rightarrow> bool \<Rightarrow> tax_split" where
  "splitTax taxCents intraState =
     (if \<not> intraState then \<lparr>ts_cgst = 0, ts_sgst = 0, ts_igst = taxCents\<rparr>
      else let cgst = taxCents div 2
           in \<lparr>ts_cgst = cgst, ts_sgst = taxCents - cgst, ts_igst = 0\<rparr>)"

text \<open>Where the goods go: shipping address state, billing address state, the customer's own.\<close>

definition placeOfSupply ::
  "string option \<Rightarrow> string option \<Rightarrow> string option \<Rightarrow> string option \<Rightarrow> string option" where
  "placeOfSupply shippingState billingState customerStateCode customerGstin =
     coalesce (toStateCode shippingState)
       (coalesce (toStateCode billingState)
         (coalesce customerStateCode
           (case customerGstin of None \<Rightarrow> None | Some g \<Rightarrow> if g = [] then None else Some (take 2 g))))"

text \<open>An absent or empty code is unknown.\<close>

definition unknownState :: "string option \<Rightarrow> bool" where
  "unknownState s \<longleftrightarrow> s = None \<or> s = Some []"

definition isIntraState :: "string option \<Rightarrow> string option \<Rightarrow> bool" where
  "isIntraState sellerState supplyState \<longleftrightarrow>
     unknownState sellerState \<or> unknownState supplyState \<or> sellerState = supplyState"

definition is_alnum :: "char \<Rightarrow> bool" where
  "is_alnum c \<longleftrightarrow> is_digit c \<or> is_upper (upper_char c)"

definition invoicePrefix :: "string option \<Rightarrow> string option \<Rightarrow> string" where
  "invoicePrefix own slug =
     (case orElse own None of
        Some p \<Rightarrow> p
      | None \<Rightarrow>
          (let s = (case orElse slug (Some ''INV'') of None \<Rightarrow> [] | Some x \<Rightarrow> x);
               p = toUpperCase (take 6 (filter is_alnum s))
           in if p = [] then ''INV'' else p))"

definition formatInvoiceNumber :: "string \<Rightarrow> string \<Rightarrow> nat \<Rightarrow> string" where
  "formatInvoiceNumber prefix fy n = prefix @ ''/'' @ fy @ ''/'' @ padStart0 4 (show_nat n)"


section \<open>Properties of the tax of a line\<close>

text \<open>The rate in hundredths of a percent, as the code scales it.\<close>

abbreviation scaledRate :: "rat \<Rightarrow> int" where
  "scaledRate rate \<equiv> js_round (rate * 100)"

lemma scaledRate_nonneg: "0 \<le> rate \<Longrightarrow> 0 \<le> scaledRate rate"
  using js_round_mono [of 0 "rate * 100"] js_round_of_int [of 0] by simp

lemma scaledRate_le: "rate \<le> 100 \<Longrightarrow> scaledRate rate \<le> 10000"
  using js_round_mono [of "rate * 100" "of_int 10000"] js_round_of_int [of 10000] by simp

lemma gstCents_eq:
  "0 < t \<Longrightarrow> 0 < rate \<Longrightarrow> gstCents t rate = (2 * (t * scaledRate rate) + 10000) div 20000"
  using js_round_div [of 10000 "t * scaledRate rate"] by (simp add: gstCents_def)

lemma includedGstCents_eq:
  assumes "0 < g" and "0 < rate"
  shows "includedGstCents g rate =
    (2 * (g * scaledRate rate) + (10000 + scaledRate rate)) div (2 * (10000 + scaledRate rate))"
  using assms scaledRate_nonneg [of rate] js_round_div [of "10000 + scaledRate rate" "g * scaledRate rate"]
  by (simp add: includedGstCents_def Let_def)

text \<open>A rounded quotient is within half a unit of the exact one, and a half rounds up.\<close>

lemma half_up_bounds:
  fixes n d :: int
  assumes "0 < d"
  shows "2 * n - d < 2 * d * ((2 * n + d) div (2 * d)) \<and> 2 * d * ((2 * n + d) div (2 * d)) \<le> 2 * n + d"
proof -
  let ?q = "(2 * n + d) div (2 * d)" and ?m = "(2 * n + d) mod (2 * d)"
  have eq: "2 * d * ?q + ?m = 2 * n + d" by (rule mult_div_mod_eq)
  have "0 \<le> ?m" and "?m < 2 * d" using assms by simp_all
  with eq show ?thesis by linarith
qed

lemma gstCents_nearest_aux:
  assumes "0 < t" and "0 < rate"
  shows "2 * (t * scaledRate rate) - 10000 < 20000 * gstCents t rate
       \<and> 20000 * gstCents t rate \<le> 2 * (t * scaledRate rate) + 10000"
  using half_up_bounds [of 10000 "t * scaledRate rate"] assms by (simp add: gstCents_eq)

lemma included_nearest_aux:
  assumes "0 < g" and "0 < rate"
  defines "r \<equiv> scaledRate rate"
  shows "2 * (g * r) - (10000 + r) < 2 * (10000 + r) * includedGstCents g rate
       \<and> 2 * (10000 + r) * includedGstCents g rate \<le> 2 * (g * r) + (10000 + r)"
  using half_up_bounds [of "10000 + r" "g * r"] assms scaledRate_nonneg [of rate]
  by (simp add: includedGstCents_eq r_def)

lemma gstCents_nonneg: "0 \<le> gstCents t rate"
proof (cases "0 < t \<and> 0 < rate")
  case True
  then have "0 \<le> t * scaledRate rate" using scaledRate_nonneg [of rate] by simp
  with True show ?thesis by (simp add: gstCents_eq)
next
  case False
  then show ?thesis by (auto simp: gstCents_def)
qed

lemma includedGstCents_bounds:
  assumes "0 \<le> g"
  shows "0 \<le> includedGstCents g rate \<and> includedGstCents g rate \<le> g"
proof (cases "0 < g \<and> 0 < rate")
  case True
  let ?r = "scaledRate rate"
  have r: "0 \<le> ?r" using True scaledRate_nonneg [of rate] by simp
  have gr: "0 \<le> g * ?r" using True r by simp
  have "0 \<le> includedGstCents g rate"
    using True r gr pos_imp_zdiv_nonneg_iff [of "2 * (10000 + ?r)"]
    by (simp only: includedGstCents_eq) simp
  moreover
  have "2 * (10000 + ?r) * includedGstCents g rate \<le> 2 * (g * ?r) + (10000 + ?r)"
    using included_nearest_aux [of g rate] True by blast
  moreover have "2 * (g * ?r) + (10000 + ?r) < 2 * (10000 + ?r) * (g + 1)"
    using True r by (simp add: algebra_simps)
  ultimately have "2 * (10000 + ?r) * includedGstCents g rate < 2 * (10000 + ?r) * (g + 1)"
    by linarith
  with r have "includedGstCents g rate < g + 1"
    by (subst (asm) mult_less_cancel_left_pos) simp_all
  with \<open>0 \<le> includedGstCents g rate\<close> show ?thesis by simp
next
  case False
  then show ?thesis using assms by (auto simp: includedGstCents_def)
qed

lemma lineTax_total_aux:
  assumes "0 \<le> gross"
  shows "0 \<le> lt_taxableCents (lineTax gross rate incl None)
    \<and> 0 \<le> lt_taxCents (lineTax gross rate incl None)
    \<and> (incl \<longrightarrow> lt_taxableCents (lineTax gross rate incl None) + lt_taxCents (lineTax gross rate incl None) = gross)
    \<and> (\<not> incl \<longrightarrow> lt_taxableCents (lineTax gross rate incl None) = gross)"
  using assms includedGstCents_bounds [OF assms, of rate] gstCents_nonneg [of gross rate]
  by (simp add: lineTax_def Let_def)

text \<open>
  Taking the tax out of a tax-inclusive price and charging it again on the taxable value gives
  the tax back to within one paisa, for every rate up to 100 percent.
\<close>

lemma recharge_aux:
  fixes g r T :: int
  assumes r: "0 \<le> r" "r \<le> 10000"
    and lo: "2 * (g * r) - (10000 + r) < 2 * (10000 + r) * T"
    and hi: "2 * (10000 + r) * T \<le> 2 * (g * r) + (10000 + r)"
  shows "2 * ((g - T) * r) - 20000 * T \<le> 20000" and "- 20000 \<le> 2 * ((g - T) * r) - 20000 * T"
  using r lo hi by (simp_all add: algebra_simps)

section \<open>Properties of the GSTIN checksum\<close>

text \<open>
  The weighted digit sum of one position is a permutation of 0..35: with weight 1 it is the
  character's value, with weight 2 it doubles the value and folds the carry back. So one changed
  character always changes the checksum.
\<close>

lemma gstinIndex_table:
  "map gstinIndex GSTIN_CHARS = map int [0..<36]"
  by code_simp

lemma gstinTerm_table:
  "distinct (map (\<lambda>c. gstinTerm 0 c) GSTIN_CHARS) \<and> distinct (map (\<lambda>c. gstinTerm 1 c) GSTIN_CHARS)
   \<and> list_all (\<lambda>c. 0 \<le> gstinTerm 0 c \<and> gstinTerm 0 c < 36 \<and> 0 \<le> gstinTerm 1 c \<and> gstinTerm 1 c < 36)
       GSTIN_CHARS"
  by code_simp

lemma gstinTerm_parity: "gstinTerm i c = gstinTerm (i mod 2) c"
  by (simp add: gstinTerm_def)

lemma gstinTerm_inj:
  assumes "c \<in> set GSTIN_CHARS" and "d \<in> set GSTIN_CHARS" and "gstinTerm i c = gstinTerm i d"
  shows "c = d"
proof -
  have p: "i mod 2 = 0 \<or> i mod 2 = 1" by arith
  have "inj_on (gstinTerm (i mod 2)) (set GSTIN_CHARS)"
    using p gstinTerm_table by (auto simp: distinct_map)
  moreover have "gstinTerm (i mod 2) c = gstinTerm (i mod 2) d"
    using assms(3) gstinTerm_parity [of i] by simp
  ultimately show ?thesis using assms(1,2) by (auto dest: inj_onD)
qed

lemma gstinTerm_range: "c \<in> set GSTIN_CHARS \<Longrightarrow> 0 \<le> gstinTerm i c \<and> gstinTerm i c < 36"
proof -
  assume c: "c \<in> set GSTIN_CHARS"
  have p: "i mod 2 = 0 \<or> i mod 2 = 1" by arith
  then show ?thesis
    using c gstinTerm_table gstinTerm_parity [of i c] by (auto simp: list_all_iff)
qed

lemma js_rem_nonneg: "0 \<le> a \<Longrightarrow> 0 < b \<Longrightarrow> js_rem a b = a mod b"
  by (cases "a = 0") (simp_all add: js_rem_def)

lemma gstinSum_nonneg:
  assumes "\<forall>i<14. s ! i \<in> set GSTIN_CHARS"
  shows "0 \<le> gstinSum s"
  unfolding gstinSum_def by (rule sum_nonneg) (use assms gstinTerm_range in auto)

lemma gstinCheck_pos:
  assumes "\<forall>i<14. s ! i \<in> set GSTIN_CHARS"
  shows "gstinCheckChar s = GSTIN_CHARS ! nat ((36 - gstinSum s mod 36) mod 36)"
  using gstinSum_nonneg [OF assms] pos_mod_bound [of 36 "gstinSum s"]
  by (simp add: gstinCheckChar_def js_rem_nonneg)

lemma distinct_GSTIN_CHARS: "distinct GSTIN_CHARS" and length_GSTIN_CHARS: "length GSTIN_CHARS = 36"
  by (simp_all add: GSTIN_CHARS_def)

lemma complement_mod: "0 \<le> a \<Longrightarrow> a < 36 \<Longrightarrow> (36 - a) mod 36 = (if a = 0 then 0 else 36 - (a::int))"
  using mod_pos_pos_trivial [of "36 - a" 36] by (cases "a = 0") simp_all

lemma gstinCheck_mod:
  assumes "\<forall>i<14. s ! i \<in> set GSTIN_CHARS" and "\<forall>i<14. t ! i \<in> set GSTIN_CHARS"
    and "gstinCheckChar s = gstinCheckChar t"
  shows "gstinSum s mod 36 = gstinSum t mod 36"
proof -
  have "nat ((36 - gstinSum s mod 36) mod 36) = nat ((36 - gstinSum t mod 36) mod 36)"
    using assms distinct_GSTIN_CHARS length_GSTIN_CHARS
    by (simp add: gstinCheck_pos nth_eq_iff_index_eq nat_less_iff)
  then have eq: "(36 - gstinSum s mod 36) mod 36 = (36 - gstinSum t mod 36) mod 36"
    by (simp add: eq_nat_nat_iff)
  have "0 \<le> gstinSum s mod 36" "gstinSum s mod 36 < 36" "0 \<le> gstinSum t mod 36" "gstinSum t mod 36 < 36"
    by simp_all
  with eq have "(if gstinSum s mod 36 = 0 then 0 else 36 - gstinSum s mod 36)
      = (if gstinSum t mod 36 = 0 then 0 else 36 - gstinSum t mod 36)"
    by (simp only: complement_mod)
  moreover have "gstinSum s mod 36 < 36" "gstinSum t mod 36 < 36" by simp_all
  ultimately show ?thesis by (simp split: if_splits)
qed

lemma gstinSum_update:
  assumes "length s = 14" and "j < 14"
  shows "gstinSum (s[j := d]) = gstinSum s - gstinTerm j (s ! j) + gstinTerm j d"
proof -
  have eq: "(\<Sum>i<14. gstinTerm i (s[j := d] ! i)) = gstinTerm j (s[j := d] ! j) + (\<Sum>i\<in>{..<14} - {j}. gstinTerm i (s[j := d] ! i))"
    using assms by (subst sum.remove [of _ j]) auto
  have eq2: "(\<Sum>i<14. gstinTerm i (s ! i)) = gstinTerm j (s ! j) + (\<Sum>i\<in>{..<14} - {j}. gstinTerm i (s ! i))"
    using assms by (subst sum.remove [of _ j]) auto
  have same: "(\<Sum>i\<in>{..<14} - {j}. gstinTerm i (s[j := d] ! i)) = (\<Sum>i\<in>{..<14} - {j}. gstinTerm i (s ! i))"
    by (rule sum.cong) auto
  show ?thesis using eq eq2 same assms by (simp add: gstinSum_def)
qed

lemma gstin_substitution_aux:
  assumes len: "length s = 14" and j: "j < 14"
    and s: "\<forall>i<14. s ! i \<in> set GSTIN_CHARS" and d: "d \<in> set GSTIN_CHARS" "d \<noteq> s ! j"
  shows "gstinCheckChar (s[j := d]) \<noteq> gstinCheckChar s"
proof
  assume eq: "gstinCheckChar (s[j := d]) = gstinCheckChar s"
  have t: "\<forall>i<14. s[j := d] ! i \<in> set GSTIN_CHARS"
    using s d(1) len j by (auto simp: nth_list_update)
  have "gstinSum (s[j := d]) mod 36 = gstinSum s mod 36"
    by (rule gstinCheck_mod [OF t s eq])
  then have "(gstinTerm j d - gstinTerm j (s ! j)) mod 36 = 0"
    using gstinSum_update [OF len j, of d] by (simp add: mod_eq_dvd_iff mod_0_imp_dvd)
  moreover have "0 \<le> gstinTerm j d" "gstinTerm j d < 36" "0 \<le> gstinTerm j (s ! j)" "gstinTerm j (s ! j) < 36"
    using gstinTerm_range s d(1) j by blast+
  ultimately have "gstinTerm j d = gstinTerm j (s ! j)" by presburger
  then show False using gstinTerm_inj d s j by metis
qed

section \<open>Invoice numbers and state codes\<close>

lemma padStart0_inject: "padStart0 k (show_nat m) = padStart0 k (show_nat n) \<Longrightarrow> m = n"
  by (metis digits_val_padStart0 digits_val_show_nat)

lemma state_codes_clean:
  "list_all (\<lambda>st. spellAmp (squashSpaces (toLowerCase (trim (st_code st)))) = st_code st
      \<and> length (st_code st) = 2 \<and> is_digit (hd (st_code st))) GST_STATES"
  by code_simp

lemma LOOKUP_digits: "list_all (\<lambda>kc. is_digit (hd (fst kc)) \<longrightarrow> fst kc = snd kc) LOOKUP"
  by code_simp

lemma LOOKUP_code:
  assumes "isStateCode c"
  shows "map_of LOOKUP c = Some c"
proof -
  obtain st where st: "st \<in> set GST_STATES" "c = st_code st" using assms by (auto simp: isStateCode_def)
  then have d: "is_digit (hd c)" using state_codes_clean by (auto simp: list_all_iff)
  have "(c, c) \<in> set LOOKUP" using st by (auto simp: LOOKUP_def stateKeys_def)
  then obtain c' where c': "map_of LOOKUP c = Some c'" by (metis weak_map_of_SomeI)
  then have "(c, c') \<in> set LOOKUP" by (rule map_of_SomeD)
  then have "c = c'" using LOOKUP_digits d by (auto simp: list_all_iff)
  then show ?thesis using c' by simp
qed

lemma toStateCode_code: "isStateCode c \<Longrightarrow> toStateCode (Some c) = Some c"
  using state_codes_clean LOOKUP_code [of c]
  by (auto simp: toStateCode_def Let_def list_all_iff isStateCode_def)

lemma js_round_nearest: "x - 1 / 2 < of_int (js_round x) \<and> of_int (js_round x) \<le> x + 1 / (2 :: rat)"
  using floor_correct [of "x + 1 / 2"] by (simp add: js_round_def)

lemma scaledRate_hundredths: "scaledRate (of_int p / 100) = p"
  by (simp add: js_round_of_int)

lemma lineTax_exact_aux:
  fixes gross p :: int
  assumes "0 \<le> gross" and "0 \<le> p"
  defines "rate \<equiv> of_int p / (100 :: rat)"
  shows "lt_taxCents (lineTax gross rate inclusive None) =
    js_round (if inclusive then of_int gross * rate / (100 + rate) else of_int gross * rate / 100)"
proof -
  have r: "scaledRate rate = p" by (simp add: rate_def scaledRate_hundredths)
  have gx: "(of_int gross * rate / (100 + rate) :: rat) = of_int (gross * p) / of_int (10000 + p)"
    using assms(2) by (simp add: rate_def field_simps)
  have ge: "(of_int gross * rate / 100 :: rat) = of_int (gross * p) / 10000"
    by (simp add: rate_def)
  have z: "js_round (0 :: rat) = 0" using js_round_of_int [of 0] by simp
  have c: "gross \<le> 0 \<or> rate \<le> 0 \<longleftrightarrow> gross = 0 \<or> p = 0"
    using assms by (auto simp: rate_def)
  have "gstCents gross rate = js_round (of_int (gross * p) / 10000)"
    and "includedGstCents gross rate = js_round (of_int (gross * p) / of_int (10000 + p))"
    using z by (auto simp: gstCents_def includedGstCents_def r c Let_def)
  then show ?thesis unfolding gx ge by (simp add: lineTax_def Let_def)
qed

section \<open>Properties\<close>

text \<open>Money survives being written and read. Printing an amount in paise with two decimals, or the way the
  database prints a decimal, and parsing it back gives the same amount.\<close>

theorem money_roundtrip: "cents (money c) = c \<and> cents (decToString c) = c"
  by (simp add: cents_money_aux cents_decToString_aux)

text \<open>C9: the tax of a line. Let the gross amount not be negative and the rate have two decimals (as rates in
  the database and the settings have). The exact tax is the rate of the gross, or with tax-inclusive prices
  the part of the gross that is tax, rate over 100 plus rate. The tax of the line is the exact tax rounded to the nearest paisa,
  halves up, and never more than the gross of an inclusive price; the taxable value is the rest of an inclusive price and the
  gross otherwise. The split of the tax is IGST alone across states, and inside the state CGST
  is half of it rounded down and SGST the rest.\<close>

theorem line_tax_is_exact:
  fixes gross hundredths :: int and inclusive intra :: bool
  assumes "0 \<le> gross" and "0 \<le> hundredths"
  defines "rate \<equiv> of_int hundredths / (100 :: rat)"
  defines "exact \<equiv> (if inclusive then of_int gross * rate / (100 + rate) else of_int gross * rate / 100)"
  defines "l \<equiv> lineTax gross rate inclusive None"
  shows "exact - 1 / 2 < of_int (lt_taxCents l) \<and> of_int (lt_taxCents l) \<le> exact + 1 / 2
    \<and> lt_taxableCents l = (if inclusive then gross - lt_taxCents l else gross)
    \<and> 0 \<le> lt_taxCents l \<and> 0 \<le> lt_taxableCents l
    \<and> splitTax (lt_taxCents l) intra =
        (if intra then \<lparr>ts_cgst = lt_taxCents l div 2, ts_sgst = lt_taxCents l - lt_taxCents l div 2, ts_igst = 0\<rparr>
         else \<lparr>ts_cgst = 0, ts_sgst = 0, ts_igst = lt_taxCents l\<rparr>)"
proof -
  have "lt_taxCents l = js_round exact"
    using lineTax_exact_aux [OF assms(1,2)] by (simp add: l_def exact_def rate_def)
  then have "exact - 1 / 2 < of_int (lt_taxCents l) \<and> of_int (lt_taxCents l) \<le> exact + 1 / 2"
    by (simp add: js_round_nearest)
  moreover have "lt_taxableCents l = (if inclusive then gross - lt_taxCents l else gross)"
    by (simp add: l_def lineTax_def Let_def)
  ultimately show ?thesis
    using lineTax_total_aux [OF assms(1), of rate inclusive] by (simp add: l_def splitTax_def Let_def)
qed

text \<open>At 18 percent a price of 99.99 with the tax in it contains 15.25 (exactly 15.2527...), and 118.00 contains 18.00.\<close>

lemma line_tax_is_exact_witness:
  "lineTax 9999 18 True None = \<lparr>lt_taxableCents = 8474, lt_taxCents = 1525\<rparr>
   \<and> lt_taxCents (lineTax 11800 18 True None) = 1800"
proof -
  have r: "of_int 1800 / (100 :: rat) = 18" by simp
  let ?l = "lineTax 9999 18 True None" and ?m = "lineTax 11800 18 True None"
  have "lt_taxCents ?l = 1525" "lt_taxableCents ?l = 9999 - lt_taxCents ?l"
    using line_tax_is_exact [of 9999 1800 True True] by (simp_all add: r)
  moreover have "lt_taxCents ?m = 1800"
    using line_tax_is_exact [of 11800 1800 True True] by (simp add: r)
  ultimately show ?thesis by simp
qed

text \<open>Tax-inclusive prices lose nothing. The tax taken out of a tax-inclusive price, compared with the tax
  charged again on the taxable value that is left, is off by at most one paisa, for every rate up to 100
  percent.\<close>

theorem inclusive_tax_recharged:
  fixes gross :: int and rate :: rat
  assumes "0 < gross" and "0 < rate" and "rate \<le> 100"
  defines "tax \<equiv> includedGstCents gross rate"
  shows "0 \<le> tax \<and> tax \<le> gross \<and> \<bar>gstCents (gross - tax) rate - tax\<bar> \<le> 1"
proof -
  let ?r = "scaledRate rate"
  have r: "0 \<le> ?r" "?r \<le> 10000" using assms(2,3) by (simp_all add: scaledRate_nonneg scaledRate_le)
  note near = included_nearest_aux [OF assms(1,2)]
  have b: "0 \<le> tax \<and> tax \<le> gross" unfolding tax_def by (rule includedGstCents_bounds) (use assms(1) in simp)
  have re: "2 * ((gross - tax) * ?r) - 20000 * tax \<le> 20000" "- 20000 \<le> 2 * ((gross - tax) * ?r) - 20000 * tax"
    using recharge_aux [OF r, of gross tax] near by (auto simp: tax_def)
  show ?thesis
  proof (cases "0 < gross - tax")
    case True
    note n2 = gstCents_nearest_aux [OF True assms(2)]
    have "20000 * gstCents (gross - tax) rate - 20000 * tax < 40000"
      and "- 40000 < 20000 * gstCents (gross - tax) rate - 20000 * tax"
      using n2 re by linarith+
    then show ?thesis using b by linarith
  next
    case False
    then have "gross = tax" using b by simp
    then have "gstCents (gross - tax) rate = 0" by (simp add: gstCents_def)
    moreover have "tax \<le> 1"
    proof -
      have "2 * (10000 + ?r) * tax \<le> 2 * (gross * ?r) + (10000 + ?r)" using near by (simp add: tax_def)
      then have "20000 * tax \<le> 10000 + ?r" using \<open>gross = tax\<close> by (simp add: algebra_simps)
      then show ?thesis using r by linarith
    qed
    ultimately show ?thesis using b by simp
  qed
qed

lemma inclusive_tax_recharged_witness:
  "\<bar>gstCents (9999 - includedGstCents 9999 28) 28 - includedGstCents 9999 28\<bar> \<le> 1"
  using inclusive_tax_recharged [of 9999 28] by simp

text \<open>C10: the GSTIN check digit. Changing any single one of the first fourteen characters of a GSTIN to another
  letter or digit changes its check character, so a valid GSTIN with one such typing error is refused.\<close>

theorem gstin_detects_single_error:
  assumes "length s = 14" and "\<forall>i<14. s ! i \<in> set GSTIN_CHARS"
    and "j < 14" and "d \<in> set GSTIN_CHARS" and "d \<noteq> s ! j"
  shows "gstinCheckChar (s[j := d]) \<noteq> gstinCheckChar s"
  by (rule gstin_substitution_aux [OF assms(1,3,2,4,5)])

lemma gstin_detects_single_error_witness:
  "gstinCheckChar (''29ABCDE1234F1Z''[3 := CHR ''X'']) \<noteq> gstinCheckChar ''29ABCDE1234F1Z''"
proof (rule gstin_detects_single_error)
  show "\<forall>i<14. ''29ABCDE1234F1Z'' ! i \<in> set GSTIN_CHARS"
  proof -
    have "list_all (\<lambda>c. c \<in> set GSTIN_CHARS) ''29ABCDE1234F1Z''" by code_simp
    moreover have "length ''29ABCDE1234F1Z'' = 14" by simp
    ultimately show ?thesis by (metis list_all_length)
  qed
qed (simp_all add: GSTIN_CHARS_def)

text \<open>State codes. Whatever text a caller passes as a state, the code it resolves to, if any, is one of
  the GST state codes, and resolving that code again gives the same code.\<close>

theorem toStateCode_sound:
  assumes "toStateCode v = Some c"
  shows "isStateCode c \<and> toStateCode (Some c) = Some c"
proof -
  have "isStateCode c"
    using assms by (auto simp: toStateCode_def Let_def map_of_LOOKUP_code split: option.splits if_splits)
  then show ?thesis by (simp add: toStateCode_code)
qed

lemma toStateCode_sound_witness: "isStateCode ''29'' \<and> toStateCode (Some ''29'') = Some ''29''"
proof -
  have "toStateCode (Some ''  Karnataka '') = Some ''29''" by code_simp
  then show ?thesis by (rule toStateCode_sound)
qed

end
