(* ===== verification/AccountSchema.thy ===== *)
theory AccountSchema
  imports JsValue
begin

text \<open>
  The rows of the account tables (src/prisma/schema.prisma): people, their login sessions and one-time
  tokens, roles and permissions, and the support sessions of the platform's administrators. They are
  grouped in one record, which is a field of the database of theory Schema, together with the cache of
  user permissions (src/src/common/cache), which is a map and not a table.
\<close>

datatype user_status = U_ACTIVE | U_INACTIVE | U_SUSPENDED

definition user_status_str :: "user_status \<Rightarrow> string" where
  "user_status_str st = (case st of
     U_ACTIVE \<Rightarrow> ''ACTIVE'' | U_INACTIVE \<Rightarrow> ''INACTIVE'' | U_SUSPENDED \<Rightarrow> ''SUSPENDED'')"

record user_row =
  us_id :: string
  us_tenantId :: string
  us_email :: string
  us_passwordHash :: string
  us_firstName :: string
  us_lastName :: string
  us_status :: user_status
  us_emailVerified :: bool
  us_lastLoginAt :: "int option"
  us_createdAt :: int
  us_updatedAt :: int

record refresh_row =
  rt_id :: string
  rt_tenantId :: string
  rt_userId :: string
  rt_tokenHash :: string
  rt_expiresAt :: int
  rt_revokedAt :: "int option"
  rt_createdAt :: int
  rt_sessionId :: "string option"
  rt_userAgent :: "string option"
  rt_ipAddress :: "string option"
  rt_lastUsedAt :: "int option"

text \<open>A row of \<open>password_reset_tokens\<close> and of \<open>email_verification_tokens\<close>.\<close>

record one_time_row =
  ot_id :: string
  ot_tenantId :: string
  ot_userId :: string
  ot_tokenHash :: string
  ot_expiresAt :: int
  ot_usedAt :: "int option"

record role_row =
  ro_id :: string
  ro_tenantId :: string
  ro_name :: string
  ro_description :: "string option"
  ro_isSystem :: bool

record permission_row =
  pe_id :: string
  pe_tenantId :: string
  pe_name :: string
  pe_description :: "string option"
  pe_resource :: string
  pe_action :: string

record role_permission_row =
  rp_tenantId :: string
  rp_roleId :: string
  rp_permissionId :: string

record user_role_row =
  ur_tenantId :: string
  ur_userId :: string
  ur_roleId :: string

text \<open>A platform role and its permissions, joined with the permission table.\<close>

record platform_role_row =
  pf_id :: string
  pf_name :: string
  pf_description :: "string option"
  pf_isSystem :: bool

record platform_permission_row =
  pp_roleId :: string
  pp_name :: string
  pp_resource :: string
  pp_action :: string

record platform_grant_row =
  pg_userId :: string
  pg_roleId :: string

record support_row =
  su_id :: string
  su_tenantId :: string
  su_platformUserId :: string
  su_reason :: string
  su_expiresAt :: int
  su_endedAt :: "int option"

text \<open>What the permission cache holds for a tenant and a user: the permissions of the user's roles.\<close>

record accounts =
  users :: "user_row list"
  refreshTokens :: "refresh_row list"
  resetTokens :: "one_time_row list"
  verifyTokens :: "one_time_row list"
  roles :: "role_row list"
  permissions :: "permission_row list"
  rolePermissions :: "role_permission_row list"
  userRoles :: "user_role_row list"
  platformGrants :: "platform_grant_row list"
  platformRoles :: "platform_role_row list"
  platformPermissions :: "platform_permission_row list"
  supportSessions :: "support_row list"
  permissionCache :: "string \<times> string \<Rightarrow> permission_row list option"

definition emptyAccounts :: accounts where
  "emptyAccounts = \<lparr>users = [], refreshTokens = [], resetTokens = [], verifyTokens = [], roles = [], permissions = [],
     rolePermissions = [], userRoles = [], platformGrants = [], platformRoles = [],
     platformPermissions = [], supportSessions = [],
     permissionCache = (\<lambda>_. None)\<rparr>"

end
