(* ===== verification/Schema.thy ===== *)
theory Schema
  imports Gst AccountSchema
begin

text \<open>
  The rows of the commerce tables (src/prisma/schema.prisma, with the partial unique indexes of the
  migrations), the database state as one record of tables, and the world outside the program: the
  clock, the random identifiers, the configuration and the socket server. A table is the list of
  its rows in insertion order. Columns the modelled code neither reads nor writes are left out.
\<close>

section \<open>Enumerations\<close>

datatype tenant_status = T_ACTIVE | T_SUSPENDED | T_TRIAL | T_CANCELLED

datatype variant_status = V_ACTIVE | V_INACTIVE | V_DRAFT

datatype movement_type =
    M_ADJUSTMENT | M_TRANSFER | M_ORDER_RESERVATION | M_ORDER_RELEASE

datatype product_status = PR_ACTIVE | PR_INACTIVE | PR_DRAFT | PR_ARCHIVED

datatype order_status =
    O_DRAFT | O_PENDING | O_CONFIRMED | O_PROCESSING | O_SHIPPED | O_DELIVERED
  | O_CANCELLED | O_REFUNDED | O_PARTIALLY_REFUNDED

datatype payment_status =
    P_PENDING | P_PROCESSING | P_COMPLETED | P_FAILED | P_REFUNDED | P_PARTIALLY_REFUNDED
  | P_CANCELLED

datatype transaction_type = X_CHARGE | X_REFUND

datatype refund_status = R_PENDING | R_PROCESSING | R_COMPLETED | R_FAILED

datatype address_type = A_SHIPPING | A_BILLING

datatype session_status = S_OPEN | S_CLOSED

datatype cash_type = C_SALE | C_REFUND | C_CASH_IN | C_CASH_OUT

definition order_status_str :: "order_status \<Rightarrow> string" where
  "order_status_str st = (case st of
     O_DRAFT \<Rightarrow> ''DRAFT'' | O_PENDING \<Rightarrow> ''PENDING'' | O_CONFIRMED \<Rightarrow> ''CONFIRMED''
   | O_PROCESSING \<Rightarrow> ''PROCESSING'' | O_SHIPPED \<Rightarrow> ''SHIPPED'' | O_DELIVERED \<Rightarrow> ''DELIVERED''
   | O_CANCELLED \<Rightarrow> ''CANCELLED'' | O_REFUNDED \<Rightarrow> ''REFUNDED''
   | O_PARTIALLY_REFUNDED \<Rightarrow> ''PARTIALLY_REFUNDED'')"

definition payment_status_str :: "payment_status \<Rightarrow> string" where
  "payment_status_str st = (case st of
     P_PENDING \<Rightarrow> ''PENDING'' | P_PROCESSING \<Rightarrow> ''PROCESSING'' | P_COMPLETED \<Rightarrow> ''COMPLETED''
   | P_FAILED \<Rightarrow> ''FAILED'' | P_REFUNDED \<Rightarrow> ''REFUNDED''
   | P_PARTIALLY_REFUNDED \<Rightarrow> ''PARTIALLY_REFUNDED'' | P_CANCELLED \<Rightarrow> ''CANCELLED'')"

section \<open>Rows\<close>

record tenant_row =
  tn_id :: string
  tn_name :: string
  tn_slug :: string
  tn_status :: tenant_status
  tn_plan :: string

record settings_row =
  se_tenantId :: string
  se_metadata :: jsval

record plan_row =
  pl_code :: string
  pl_name :: string
  pl_description :: "string option"
  pl_limits :: jsval
  pl_isActive :: bool

record membership_row =
  mb_tenantId :: string
  mb_userId :: string
  mb_active :: bool

record product_row =
  pr_id :: string
  pr_tenantId :: string
  pr_name :: string
  pr_hsnCode :: "string option"
  pr_gstRatePercent :: "rat option"
  pr_gstTaxability :: string
  pr_status :: product_status
  pr_deletedAt :: "int option"

record variant_row =
  va_id :: string
  va_tenantId :: string
  va_productId :: string
  va_sku :: string
  va_price :: paise
  va_status :: variant_status
  va_deletedAt :: "int option"
  va_attributes :: "(string \<times> string \<times> string) list" \<comment> \<open>definition code, definition name, value\<close>

record warehouse_row =
  wh_id :: string
  wh_tenantId :: string
  wh_name :: string
  wh_code :: string
  wh_isActive :: bool
  wh_isDefault :: bool
  wh_createdAt :: int

record customer_row =
  cu_id :: string
  cu_tenantId :: string
  cu_email :: string
  cu_firstName :: string
  cu_lastName :: string
  cu_phone :: "string option"
  cu_metadata :: jsval
  cu_customerType :: string
  cu_companyName :: "string option"
  cu_gstin :: "string option"
  cu_pan :: "string option"
  cu_stateCode :: "string option"
  cu_deletedAt :: "int option"

record address_row =
  ad_id :: string
  ad_tenantId :: string
  ad_customerId :: string
  ad_type :: address_type
  ad_label :: "string option"
  ad_firstName :: "string option"
  ad_lastName :: "string option"
  ad_company :: "string option"
  ad_line1 :: string
  ad_line2 :: "string option"
  ad_city :: string
  ad_state :: "string option"
  ad_postalCode :: "string option"
  ad_country :: string
  ad_phone :: "string option"
  ad_isDefault :: bool
  ad_createdAt :: int

record inventory_row =
  iv_tenantId :: string
  iv_variantId :: string
  iv_warehouseId :: string
  iv_quantity :: int
  iv_reserved :: int
  iv_updatedAt :: int

record movement_row =
  mv_id :: string
  mv_tenantId :: string
  mv_variantId :: string
  mv_warehouseId :: string
  mv_type :: movement_type
  mv_before :: int
  mv_changed :: int
  mv_after :: int
  mv_reason :: "string option"
  mv_referenceType :: "string option"
  mv_referenceId :: "string option"
  mv_createdBy :: "string option"

record order_row =
  or_id :: string
  or_tenantId :: string
  or_customerId :: string
  or_status :: order_status
  or_subtotal :: paise
  or_discountTotal :: paise
  or_taxTotal :: paise
  or_shippingTotal :: paise
  or_total :: paise
  or_currency :: string
  or_metadata :: jsval
  or_shippingAddress :: jsval
  or_billingAddress :: jsval
  or_invoiceNumber :: "string option"
  or_invoiceDate :: "int option"
  or_placeOfSupply :: "string option"
  or_supplyType :: "string option"
  or_cgstTotal :: paise
  or_sgstTotal :: paise
  or_igstTotal :: paise
  or_buyerSnapshot :: jsval
  or_sellerSnapshot :: jsval
  or_channel :: string
  or_createdAt :: int
  or_updatedAt :: int

record order_item_row =
  oi_tenantId :: string
  oi_orderId :: string
  oi_variantId :: string
  oi_productName :: string
  oi_variantName :: string
  oi_attributes :: jsval
  oi_sku :: string
  oi_unitPrice :: paise
  oi_quantity :: int
  oi_discount :: paise
  oi_tax :: paise
  oi_lineTotal :: paise
  oi_hsnCode :: "string option"
  oi_gstRatePercent :: rat
  oi_taxableValue :: paise
  oi_cgst :: paise
  oi_sgst :: paise
  oi_igst :: paise

record history_row =
  hi_tenantId :: string
  hi_orderId :: string
  hi_from :: "order_status option"
  hi_to :: order_status
  hi_reason :: "string option"
  hi_createdBy :: "string option"

record sequence_row =
  sq_tenantId :: string
  sq_financialYear :: string
  sq_lastNumber :: nat

record payment_row =
  py_id :: string
  py_tenantId :: string
  py_orderId :: string
  py_amount :: paise
  py_currency :: string
  py_status :: payment_status
  py_provider :: string
  py_providerPaymentId :: "string option"
  py_metadata :: jsval
  py_deletedAt :: "int option"

record payment_tx_row =
  pt_tenantId :: string
  pt_paymentId :: string
  pt_type :: transaction_type
  pt_amount :: paise
  pt_currency :: string
  pt_status :: payment_status
  pt_providerTransactionId :: "string option"
  pt_metadata :: jsval

record refund_row =
  rf_id :: string
  rf_tenantId :: string
  rf_paymentId :: string
  rf_amount :: paise
  rf_currency :: string
  rf_status :: refund_status
  rf_reason :: "string option"
  rf_providerRefundId :: string
  rf_metadata :: jsval

record webhook_row =
  we_tenantId :: string
  we_paymentId :: "string option"
  we_eventId :: string
  we_providerEventId :: "string option"
  we_providerPaymentId :: "string option"
  we_type :: string
  we_payload :: jsval

record gateway_row =
  gw_tenantId :: string
  gw_provider :: string
  gw_keyId :: string
  gw_keySecretEncrypted :: string
  gw_webhookSecretEncrypted :: "string option"
  gw_enabled :: bool
  gw_updatedAt :: int

record register_row =
  rg_id :: string
  rg_tenantId :: string
  rg_name :: string
  rg_isActive :: bool
  rg_createdAt :: int

record cash_session_row =
  cs_id :: string
  cs_tenantId :: string
  cs_registerId :: string
  cs_status :: session_status
  cs_openingFloat :: paise
  cs_expectedCash :: "paise option"
  cs_countedCash :: "paise option"
  cs_variance :: "paise option"
  cs_openedBy :: "string option"
  cs_openedAt :: int
  cs_closedBy :: "string option"
  cs_closedAt :: "int option"
  cs_note :: "string option"

record cash_movement_row =
  cm_id :: string
  cm_tenantId :: string
  cm_sessionId :: string
  cm_type :: cash_type
  cm_amount :: paise
  cm_reason :: "string option"
  cm_orderId :: "string option"
  cm_paymentId :: "string option"
  cm_createdBy :: "string option"

record held_row =
  hs_id :: string
  hs_tenantId :: string
  hs_userId :: string
  hs_label :: "string option"
  hs_cart :: jsval

record audit_row =
  au_tenantId :: string
  au_userId :: "string option"
  au_action :: string
  au_resource :: string
  au_resourceId :: "string option"
  au_oldValue :: jsval
  au_newValue :: jsval
  au_ipAddress :: "string option"
  au_userAgent :: "string option"

record activity_row =
  ac_tenantId :: string
  ac_userId :: "string option"
  ac_action :: string
  ac_description :: "string option"
  ac_metadata :: jsval
  ac_ipAddress :: "string option"
  ac_userAgent :: "string option"

record category_row =
  ca_id :: string
  ca_tenantId :: string
  ca_parentId :: "string option"
  ca_name :: string
  ca_slug :: string
  ca_description :: "string option"
  ca_sortOrder :: int
  ca_isActive :: bool
  ca_createdAt :: int
  ca_updatedAt :: int

record product_category_row =
  pc_tenantId :: string
  pc_productId :: string
  pc_categoryId :: string

text \<open>What leaves the program: a socket message (room, event, envelope) and a queued job.\<close>

record message =
  ms_room :: string
  ms_event :: string
  ms_envelope :: jsval

section \<open>The database and the world\<close>

record db =
  tenants :: "tenant_row list"
  settings :: "settings_row list"
  plans :: "plan_row list"
  memberships :: "membership_row list"
  products :: "product_row list"
  variants :: "variant_row list"
  warehouses :: "warehouse_row list"
  customers :: "customer_row list"
  addresses :: "address_row list"
  inventory :: "inventory_row list"
  warehouseInventory :: "inventory_row list"
  movements :: "movement_row list"
  orders :: "order_row list"
  orderItems :: "order_item_row list"
  orderHistory :: "history_row list"
  invoiceSeqs :: "sequence_row list"
  payments :: "payment_row list"
  paymentTxs :: "payment_tx_row list"
  refunds :: "refund_row list"
  webhookEvents :: "webhook_row list"
  gateways :: "gateway_row list"
  registers :: "register_row list"
  cashSessions :: "cash_session_row list"
  cashMovements :: "cash_movement_row list"
  heldSales :: "held_row list"
  auditLogs :: "audit_row list"
  activityLogs :: "activity_row list"
  categories :: "category_row list"
  productCategories :: "product_category_row list"
  accounts :: accounts
  sent :: "message list"
  jobs :: "jsval list"
  drawn :: nat

text \<open>
  The world: \<open>env_now\<close> is the clock (milliseconds), \<open>env_uuid\<close> the stream of random identifiers drawn
  by the database and by \<open>crypto.randomUUID\<close>, \<open>env_iso\<close> is \<open>Date.prototype.toISOString\<close>, \<open>env_ioReady\<close>
  whether a socket server is attached, and the rest are settings of src/src/config/env.js.
\<close>

record env =
  env_now :: int
  env_uuid :: "nat \<Rightarrow> string"
  env_iso :: "int \<Rightarrow> string"
  env_ioReady :: bool
  env_defaultGstRate :: rat
  env_paymentProvider :: string

type_synonym 'a dbtx = "(db, 'a) tx"
type_synonym 'a dbio = "(db, 'a) io"

text \<open>Who makes the request, as the services log it.\<close>

record audit_context =
  cx_userId :: "string option"
  cx_ipAddress :: "string option"
  cx_userAgent :: "string option"

definition emptyDb :: db where
  "emptyDb = \<lparr>tenants = [], settings = [], plans = [], memberships = [], products = [], variants = [],
     warehouses = [], customers = [], addresses = [], inventory = [], warehouseInventory = [],
     movements = [], orders = [], orderItems = [], orderHistory = [], invoiceSeqs = [],
     payments = [], paymentTxs = [], refunds = [], webhookEvents = [], gateways = [],
     registers = [], cashSessions = [], cashMovements = [], heldSales = [], auditLogs = [],
     activityLogs = [], categories = [], productCategories = [], accounts = emptyAccounts,
     sent = [], jobs = [], drawn = 0\<rparr>"

text \<open>A fresh identifier: the next one of the stream.\<close>

definition freshId :: "env \<Rightarrow> string dbtx" where
  "freshId env = bindT (readT (\<lambda>s. env_uuid env (drawn s)))
     (\<lambda>i. thenT (writeT (\<lambda>s. s\<lparr>drawn := Suc (drawn s)\<rparr>)) (returnT i))"

lemma wpT_freshId [wp]:
  "wpT (freshId env) Q = (\<lambda>s. Q (env_uuid env (drawn s)) (s\<lparr>drawn := Suc (drawn s)\<rparr>))"
  by (simp add: freshId_def wp)

text \<open>\<open>`pre_${crypto.randomUUID().replace(/-/g, '').slice(0, 16)}`\<close>.\<close>

definition shortId :: "env \<Rightarrow> string \<Rightarrow> string dbtx" where
  "shortId env pre = bindT (freshId env)
     (\<lambda>u. returnT (pre @ take 16 (filter (\<lambda>c. c \<noteq> CHR ''-'') u)))"

lemma wpT_shortId [wp]:
  "wpT (shortId env pre) Q = (\<lambda>s. Q (pre @ take 16 (filter (\<lambda>c. c \<noteq> CHR ''-'') (env_uuid env (drawn s))))
     (s\<lparr>drawn := Suc (drawn s)\<rparr>))"
  by (simp add: shortId_def wp)

section \<open>A small shop\<close>

text \<open>A world and a database to evaluate the operations on.\<close>

definition demoEnv :: env where
  "demoEnv = \<lparr>env_now = 1000, env_uuid = (\<lambda>n. replicate n (CHR ''i'') @ ''d''), env_iso = (\<lambda>_. ''now''),
     env_ioReady = False, env_defaultGstRate = 18, env_paymentProvider = ''mock''\<rparr>"

definition demoVariant :: "string \<Rightarrow> paise \<Rightarrow> variant_row" where
  "demoVariant i price = \<lparr>va_id = i, va_tenantId = ''t'', va_productId = ''p'', va_sku = i,
     va_price = price, va_status = V_ACTIVE, va_deletedAt = None, va_attributes = []\<rparr>"

definition demoWarehouse :: "string \<Rightarrow> bool \<Rightarrow> warehouse_row" where
  "demoWarehouse i d = \<lparr>wh_id = i, wh_tenantId = ''t'', wh_name = i, wh_code = i, wh_isActive = True,
     wh_isDefault = d, wh_createdAt = 0\<rparr>"

definition demoStock :: "string \<Rightarrow> string \<Rightarrow> int \<Rightarrow> inventory_row" where
  "demoStock v w q = \<lparr>iv_tenantId = ''t'', iv_variantId = v, iv_warehouseId = w, iv_quantity = q,
     iv_reserved = 0, iv_updatedAt = 0\<rparr>"

definition demoCustomer :: customer_row where
  "demoCustomer = \<lparr>cu_id = ''c'', cu_tenantId = ''t'', cu_email = ''a@b.in'', cu_firstName = ''A'',
     cu_lastName = ''B'', cu_phone = None, cu_metadata = JObj [], cu_customerType = ''CONSUMER'',
     cu_companyName = None, cu_gstin = None, cu_pan = None, cu_stateCode = Some ''29'', cu_deletedAt = None\<rparr>"

definition demoDb :: db where
  "demoDb = emptyDb\<lparr>
     tenants := [\<lparr>tn_id = ''t'', tn_name = ''Shop'', tn_slug = ''shop'', tn_status = T_ACTIVE, tn_plan = ''free''\<rparr>],
     products := [\<lparr>pr_id = ''p'', pr_tenantId = ''t'', pr_name = ''Tea'', pr_hsnCode = None,
       pr_gstRatePercent = Some 18, pr_gstTaxability = ''TAXABLE'', pr_status = PR_ACTIVE, pr_deletedAt = None\<rparr>],
     variants := [demoVariant ''v'' 10000, demoVariant ''x'' 2500],
     warehouses := [demoWarehouse ''w1'' True, demoWarehouse ''w2'' False],
     customers := [demoCustomer],
     inventory := [demoStock ''v'' ''w1'' 20, demoStock ''v'' ''w2'' 5, demoStock ''x'' ''w1'' 7],
     warehouseInventory := [demoStock ''v'' ''w1'' 20, demoStock ''v'' ''w2'' 5, demoStock ''x'' ''w1'' 7]\<rparr>"

end
