(* ===== verification/AuditLog.thy ===== *)
theory AuditLog
  imports Schema
begin

text \<open>
  src/src/modules/audit: the redaction of secrets (audit.sanitize.js) and the two log writers of
  audit.service.js and audit.repository.js; src/src/realtime/realtime.service.js: the redaction of
  socket payloads and the emitters.
\<close>

section \<open>audit.sanitize.js\<close>

definition SENSITIVE_KEYS :: "string list" where
  "SENSITIVE_KEYS =
   [''password'', ''passwordhash'', ''password_hash'', ''currentpassword'', ''newpassword'',
    ''confirmpassword'', ''hash'', ''token'', ''refreshtoken'', ''accesstoken'', ''secret'',
    ''apisecret'', ''webhooksecret'', ''providersecret'', ''providercredentials'',
    ''authorization'', ''cookie'', ''credentials'', ''clientsecret'', ''privatekey'', ''seed'',
    ''salt'', ''tokenhash'', ''token_hash'', ''refreshtokenhash'', ''emailverificationtoken'',
    ''passwordresettoken'']"

definition REDACTED :: string where
  "REDACTED = ''[REDACTED]''"

definition isSensitiveKey :: "string \<Rightarrow> bool" where
  "isSensitiveKey key =
     (key \<noteq> [] \<and>
      filter (\<lambda>c. c \<noteq> CHR ''_'' \<and> c \<noteq> CHR ''-'') (toLowerCase key) \<in> set SENSITIVE_KEYS)"

function sanitizeValue :: "env \<Rightarrow> jsval \<Rightarrow> nat \<Rightarrow> jsval" where
  "sanitizeValue env v depth =
     (if depth > 8 then JStr REDACTED
      else case v of
          JDate t \<Rightarrow> JStr (env_iso env t)
        | JArr vs \<Rightarrow> JArr (map (\<lambda>x. sanitizeValue env x (Suc depth)) vs)
        | JObj kvs \<Rightarrow> JObj (map (\<lambda>kv. (fst kv,
              if isSensitiveKey (fst kv) then JStr REDACTED
              else sanitizeValue env (snd kv) (Suc depth))) kvs)
        | _ \<Rightarrow> v)"
  by pat_completeness auto
termination
  by (relation "measure (\<lambda>(env, v, depth). 9 - depth)") auto

declare sanitizeValue.simps [simp del]

definition sanitizeAuditValue :: "env \<Rightarrow> jsval \<Rightarrow> jsval" where
  "sanitizeAuditValue env v = (if truthy v then sanitizeValue env v 0 else JNull)"

definition sanitizeMetadata :: "env \<Rightarrow> jsval \<Rightarrow> jsval" where
  "sanitizeMetadata env v =
     (case v of
        JArr _ \<Rightarrow> sanitizeValue env v 0
      | JObj _ \<Rightarrow> sanitizeValue env v 0
      | JDate _ \<Rightarrow> sanitizeValue env v 0
      | _ \<Rightarrow> if truthy v then sanitizeValue env v 0 else JObj [])"

text \<open>No object inside the value keeps anything but the redaction mark under a sensitive key.\<close>

fun redactedDeep :: "jsval \<Rightarrow> bool" where
  "redactedDeep (JArr vs) = list_all redactedDeep vs"
| "redactedDeep (JObj kvs) =
     list_all (\<lambda>kv. (isSensitiveKey (fst kv) \<longrightarrow> snd kv = JStr REDACTED) \<and> redactedDeep (snd kv)) kvs"
| "redactedDeep _ = True"

lemma redactedDeep_sanitizeValue: "redactedDeep (sanitizeValue env v depth)"
proof (induction env v depth rule: sanitizeValue.induct)
  case (1 env v depth)
  then show ?case
    by (subst sanitizeValue.simps) (auto simp: list_all_iff split: jsval.split)
qed

section \<open>audit.service.js\<close>

definition nonEmpty :: "string option \<Rightarrow> string option" where
  "nonEmpty x = (case x of None \<Rightarrow> None | Some s \<Rightarrow> if s = [] then None else Some s)"

definition logAudit ::
  "env \<Rightarrow> audit_context \<Rightarrow> string \<Rightarrow> string \<Rightarrow> string \<Rightarrow> string option \<Rightarrow> jsval \<Rightarrow> jsval \<Rightarrow> unit dbtx" where
  "logAudit env ctx tenantId action resource resourceId oldValue newValue =
     thenT (throwIfT (tenantId = []) (JsError ''tenantId is required for audit log''))
     (thenT (throwIfT (action = []) (JsError ''action is required for audit log''))
     (thenT (throwIfT (resource = []) (JsError ''resource is required for audit log''))
     (writeT (\<lambda>s. s\<lparr>auditLogs := auditLogs s @
        [\<lparr>au_tenantId = tenantId, au_userId = nonEmpty (cx_userId ctx), au_action = action,
          au_resource = resource, au_resourceId = nonEmpty resourceId,
          au_oldValue = sanitizeAuditValue env oldValue,
          au_newValue = sanitizeAuditValue env newValue,
          au_ipAddress = nonEmpty (cx_ipAddress ctx),
          au_userAgent = nonEmpty (cx_userAgent ctx)\<rparr>]\<rparr>))))"

definition logActivity ::
  "env \<Rightarrow> audit_context \<Rightarrow> string \<Rightarrow> string \<Rightarrow> string \<Rightarrow> jsval \<Rightarrow> unit dbtx" where
  "logActivity env ctx tenantId action description metadata =
     thenT (throwIfT (tenantId = []) (JsError ''tenantId is required for activity log''))
     (thenT (throwIfT (action = []) (JsError ''action is required for activity log''))
     (writeT (\<lambda>s. s\<lparr>activityLogs := activityLogs s @
        [\<lparr>ac_tenantId = tenantId, ac_userId = nonEmpty (cx_userId ctx), ac_action = action,
          ac_description = nonEmpty (Some description),
          ac_metadata = (if truthy metadata then sanitizeMetadata env metadata else JObj []),
          ac_ipAddress = nonEmpty (cx_ipAddress ctx),
          ac_userAgent = nonEmpty (cx_userAgent ctx)\<rparr>]\<rparr>)))"

text \<open>
  What the logs may change: nothing but the log tables. A property that does not read them is kept
  by every logging call, so the proofs about the services step over it.
\<close>

definition logFree :: "(db \<Rightarrow> bool) \<Rightarrow> bool" where
  "logFree I \<longleftrightarrow> (\<forall>s a b. I (s\<lparr>auditLogs := a\<rparr>) = I s \<and> I (s\<lparr>activityLogs := b\<rparr>) = I s)"

lemma wpT_logAudit:
  "(\<And>l. Q () (s\<lparr>auditLogs := l\<rparr>)) \<Longrightarrow> wpT (logAudit env ctx t a r i ov nv) Q s"
  by (simp add: logAudit_def wp)

lemma wpT_logActivity:
  "(\<And>l. Q () (s\<lparr>activityLogs := l\<rparr>)) \<Longrightarrow> wpT (logActivity env ctx t a d m) Q s"
  by (simp add: logActivity_def wp)

lemma logAudit_Inr: "logAudit env ctx t a r i ov nv s = Inr (u, s') \<Longrightarrow> \<exists>l. s' = s\<lparr>auditLogs := l\<rparr>"
  by (auto simp: logAudit_def outcome)

lemma logActivity_Inr: "logActivity env ctx t a d m s = Inr (u, s') \<Longrightarrow> \<exists>l. s' = s\<lparr>activityLogs := l\<rparr>"
  by (auto simp: logActivity_def outcome)

lemma logAudit_ok:
  "t \<noteq> [] \<Longrightarrow> a \<noteq> [] \<Longrightarrow> r \<noteq> [] \<Longrightarrow> \<exists>l. logAudit env ctx t a r i ov nv s = Inr ((), s\<lparr>auditLogs := l\<rparr>)"
  by (auto simp: logAudit_def outcome)

lemma logActivity_ok:
  "t \<noteq> [] \<Longrightarrow> a \<noteq> [] \<Longrightarrow> \<exists>l. logActivity env ctx t a d m s = Inr ((), s\<lparr>activityLogs := l\<rparr>)"
  by (auto simp: logActivity_def outcome)

lemma logAudit_eq:
  assumes "logAudit env ctx t a r i ov nv s = Inr (x, s')"
  shows "s' = s\<lparr>auditLogs := auditLogs s @
        [\<lparr>au_tenantId = t, au_userId = nonEmpty (cx_userId ctx), au_action = a, au_resource = r,
          au_resourceId = nonEmpty i, au_oldValue = sanitizeAuditValue env ov,
          au_newValue = sanitizeAuditValue env nv, au_ipAddress = nonEmpty (cx_ipAddress ctx),
          au_userAgent = nonEmpty (cx_userAgent ctx)\<rparr>]\<rparr>"
  using assms by (auto simp: logAudit_def outcome)

lemma logActivity_eq:
  assumes "logActivity env ctx t a d m s = Inr (x, s')"
  shows "s' = s\<lparr>activityLogs := activityLogs s @
        [\<lparr>ac_tenantId = t, ac_userId = nonEmpty (cx_userId ctx), ac_action = a,
          ac_description = nonEmpty (Some d),
          ac_metadata = (if truthy m then sanitizeMetadata env m else JObj []),
          ac_ipAddress = nonEmpty (cx_ipAddress ctx), ac_userAgent = nonEmpty (cx_userAgent ctx)\<rparr>]\<rparr>"
  using assms by (auto simp: logActivity_def outcome)

text \<open>Every row the audit log gains is redacted.\<close>

definition logsRedacted :: "db \<Rightarrow> bool" where
  "logsRedacted s \<longleftrightarrow>
     (\<forall>r \<in> set (auditLogs s). redactedDeep (au_oldValue r) \<and> redactedDeep (au_newValue r))
     \<and> (\<forall>r \<in> set (activityLogs s). redactedDeep (ac_metadata r))"

lemma redactedDeep_sanitizers:
  "redactedDeep (sanitizeAuditValue env v)" "redactedDeep (sanitizeMetadata env v)"
  by (simp_all add: sanitizeAuditValue_def sanitizeMetadata_def redactedDeep_sanitizeValue
        split: jsval.split)

section \<open>realtime.service.js\<close>

definition FORBIDDEN_KEYS :: "string list" where
  "FORBIDDEN_KEYS =
   [''password'', ''passwordHash'', ''password_hash'', ''hash'', ''refreshToken'',
    ''refresh_token'', ''accessToken'', ''access_token'', ''token'', ''secret'', ''apiSecret'',
    ''api_secret'', ''webhookSecret'', ''webhook_secret'', ''providerSecret'', ''credentials'',
    ''authorization'', ''cookie'', ''cookies'']"

definition FORBIDDEN_PATTERNS :: "string list" where
  "FORBIDDEN_PATTERNS = [''password'', ''secret'', ''credential'', ''authorization'', ''cookie'',
    ''refresh_token'', ''access_token'']"

definition isForbiddenKey :: "string \<Rightarrow> bool" where
  "isForbiddenKey key =
     (let lower = toLowerCase key in
      key \<in> set FORBIDDEN_KEYS \<or> lower \<in> set FORBIDDEN_KEYS
      \<or> list_ex (\<lambda>p. strIncludes lower p) FORBIDDEN_PATTERNS)"

definition isStackKey :: "string \<Rightarrow> bool" where
  "isStackKey k \<longleftrightarrow> k = ''stack'' \<or> k = ''stackTrace'' \<or> k = ''stacktrace''"

text \<open>\<open>v !== null && typeof v === 'object'\<close>.\<close>

fun isObjectValue :: "jsval \<Rightarrow> bool" where
  "isObjectValue (JArr _) = True"
| "isObjectValue (JObj _) = True"
| "isObjectValue (JDate _) = True"
| "isObjectValue _ = False"

text \<open>A date is an object without own enumerable properties, so the copy of it is empty.\<close>

function sanitizePayload :: "jsval \<Rightarrow> jsval" where
  "sanitizePayload (JArr vs) = JArr (map sanitizePayload vs)"
| "sanitizePayload (JObj kvs) =
     JObj (concat (map (\<lambda>kv.
       if isForbiddenKey (fst kv) then []
       else if isObjectValue (snd kv) then [(fst kv, sanitizePayload (snd kv))]
       else if isStackKey (fst kv) then [] else [kv]) kvs))"
| "sanitizePayload (JDate t) = JObj []"
| "sanitizePayload JUndef = JUndef"
| "sanitizePayload JNull = JNull"
| "sanitizePayload (JBool b) = JBool b"
| "sanitizePayload (JNum n) = JNum n"
| "sanitizePayload (JStr x) = JStr x"
  by pat_completeness auto
termination
proof (relation "measure size", goal_cases)
  case 1
  then show ?case by simp
next
  case (2 vs x)
  then show ?case by (simp add: size_list_estimation' le_imp_less_Suc less_Suc_eq_le)
next
  case (3 kvs kv)
  obtain k v where kv: "kv = (k, v)" by (cases kv)
  from 3(1) have "size_prod (\<lambda>_. 0) size kv \<le> size_list (size_prod (\<lambda>_. 0) size) kvs"
    by (intro size_list_estimation') auto
  then show ?case by (simp add: kv)
qed

text \<open>No object of the value has a forbidden key.\<close>

fun forbiddenFree :: "jsval \<Rightarrow> bool" where
  "forbiddenFree (JArr vs) = list_all forbiddenFree vs"
| "forbiddenFree (JObj kvs) = list_all (\<lambda>kv. \<not> isForbiddenKey (fst kv) \<and> forbiddenFree (snd kv)) kvs"
| "forbiddenFree _ = True"

lemma forbiddenFree_simple: "\<not> isObjectValue v \<Longrightarrow> forbiddenFree v"
  by (cases v) simp_all

lemma forbiddenFree_sanitizePayload: "forbiddenFree (sanitizePayload v)"
  by (induction v rule: sanitizePayload.induct)
     (auto simp: list_all_iff forbiddenFree_simple)

definition ALLOWED_EVENTS :: "string list" where
  "ALLOWED_EVENTS = [''order.created'', ''order.updated'', ''inventory.low_stock'',
     ''payment.completed'', ''notification.created'']"

text \<open>Returns whether the message was sent; the message goes to the user's room when one is named.\<close>

definition emitRealtime ::
  "env \<Rightarrow> string \<Rightarrow> jsval \<Rightarrow> string option \<Rightarrow> string option \<Rightarrow> db \<Rightarrow> bool \<times> db" where
  "emitRealtime env event payload tenantId userId s =
     (if event \<notin> set ALLOWED_EVENTS then (False, s)
      else if nonEmpty tenantId = None \<and> nonEmpty userId = None then (False, s)
      else if \<not> env_ioReady env then (False, s)
      else
        (let envelope = JObj [(''event'', JStr event), (''data'', sanitizePayload payload),
               (''tenantId'', jsOfOpt (nonEmpty tenantId)),
               (''timestamp'', JStr (env_iso env (env_now env)))];
             room = (case nonEmpty userId of
                 Some u \<Rightarrow> ''user:'' @ u
               | None \<Rightarrow> ''tenant:'' @ (case tenantId of None \<Rightarrow> [] | Some t \<Rightarrow> t))
         in (True, s\<lparr>sent := sent s @ [\<lparr>ms_room = room, ms_event = event, ms_envelope = envelope\<rparr>]\<rparr>)))"

definition emitOrderCreated :: "env \<Rightarrow> string \<Rightarrow> jsval \<Rightarrow> db \<Rightarrow> bool \<times> db" where
  "emitOrderCreated env tenantId payload = emitRealtime env ''order.created'' payload (Some tenantId) None"

definition emitOrderUpdated :: "env \<Rightarrow> string \<Rightarrow> jsval \<Rightarrow> db \<Rightarrow> bool \<times> db" where
  "emitOrderUpdated env tenantId payload = emitRealtime env ''order.updated'' payload (Some tenantId) None"

definition emitInventoryLowStock :: "env \<Rightarrow> string \<Rightarrow> jsval \<Rightarrow> db \<Rightarrow> bool \<times> db" where
  "emitInventoryLowStock env tenantId payload =
     emitRealtime env ''inventory.low_stock'' payload (Some tenantId) None"

definition emitPaymentCompleted :: "env \<Rightarrow> string \<Rightarrow> jsval \<Rightarrow> db \<Rightarrow> bool \<times> db" where
  "emitPaymentCompleted env tenantId payload =
     emitRealtime env ''payment.completed'' payload (Some tenantId) None"

definition emitNotificationCreated ::
  "env \<Rightarrow> string option \<Rightarrow> string option \<Rightarrow> jsval \<Rightarrow> db \<Rightarrow> bool \<times> db" where
  "emitNotificationCreated env tenantId userId payload =
     (if nonEmpty userId \<noteq> None
      then emitRealtime env ''notification.created'' payload tenantId userId
      else emitRealtime env ''notification.created'' payload tenantId None)"

lemmas emitters = emitOrderCreated_def emitOrderUpdated_def emitInventoryLowStock_def
  emitPaymentCompleted_def emitNotificationCreated_def

text \<open>An emitter only appends to the sent messages.\<close>

lemma sent_self: "s = s\<lparr>sent := sent s @ []\<rparr>"
  by simp

lemma emitRealtime_frame: "\<exists>ms. snd (emitRealtime env e p t u s) = s\<lparr>sent := sent s @ ms\<rparr>"
  unfolding emitRealtime_def Let_def
  by (simp only: snd_conv if_distrib [of snd] split: if_split) (blast intro: sent_self)

lemma emitters_frame:
  "\<exists>ms. snd (emitOrderCreated env t p s) = s\<lparr>sent := sent s @ ms\<rparr>"
  "\<exists>ms. snd (emitOrderUpdated env t p s) = s\<lparr>sent := sent s @ ms\<rparr>"
  "\<exists>ms. snd (emitInventoryLowStock env t p s) = s\<lparr>sent := sent s @ ms\<rparr>"
  "\<exists>ms. snd (emitPaymentCompleted env t p s) = s\<lparr>sent := sent s @ ms\<rparr>"
  by (simp_all add: emitters emitRealtime_frame)

end
