(* ===== verification/Gateway.thy ===== *)
theory Gateway
  imports AuditLog
begin

text \<open>
  The shop's Razorpay account: sealing secrets at rest (src/src/common/crypto/secret-box.js), the
  client's request and signature code (src/src/integrations/payment/razorpay.client.js), the webhook
  signature of the generic provider (src/src/modules/payments/webhook.util.js) and the service that
  keeps each shop's keys (src/src/modules/payments/payment-gateway.service.js).

  Cryptography of node and the HTTP server of Razorpay are not code of the repository: they are the
  fields of the record \<open>remote\<close>. A request carries a drawn identifier, so two equal requests may be
  answered differently.
\<close>

section \<open>The world outside\<close>

datatype http_response = Unreachable | Response nat jsval

record credentials =
  cr_keyId :: string
  cr_keySecret :: string
  cr_webhookSecret :: "string option"

record remote =
  rm_sha256 :: "string \<Rightarrow> string"
  rm_hmac :: "string \<Rightarrow> string \<Rightarrow> string"
  rm_seal :: "string \<Rightarrow> string \<Rightarrow> string \<Rightarrow> string \<times> string"
  rm_open :: "string \<Rightarrow> string \<Rightarrow> string \<Rightarrow> string \<Rightarrow> string option"
  rm_b64 :: "string \<Rightarrow> string"
  rm_unb64 :: "string \<Rightarrow> string"
  rm_fetch :: "string \<Rightarrow> string \<times> string \<Rightarrow> string \<Rightarrow> string \<Rightarrow> jsval \<Rightarrow> http_response"
  rm_encKey :: string
  rm_jwtSecret :: string
  rm_production :: bool
  rm_webhookSecret :: string

section \<open>secret-box.js\<close>

definition boxKey :: "remote \<Rightarrow> error + string" where
  "boxKey rm =
     (if rm_encKey rm \<noteq> [] then Inr (rm_sha256 rm (rm_encKey rm))
      else if rm_production rm then Inl (AppError 503 ''CREDENTIALS_ENCRYPTION_NOT_CONFIGURED'')
      else Inr (rm_hmac rm
        (if rm_jwtSecret rm \<noteq> [] then rm_jwtSecret rm else ''test-credentials-key-min-32-chars-long-for-testing'')
        ''pulseops:credentials-encryption''))"

definition encryptSecret :: "remote \<Rightarrow> string \<Rightarrow> string \<Rightarrow> error + string" where
  "encryptSecret rm iv plain =
     (case boxKey rm of
        Inl e \<Rightarrow> Inl e
      | Inr key \<Rightarrow>
          (let sealed = rm_seal rm key iv plain; tag = fst sealed; body = snd sealed
           in Inr (''v1'' @ '':'' @ rm_b64 rm iv @ '':'' @ rm_b64 rm tag @ '':'' @ rm_b64 rm body)))"

definition decryptSecret :: "remote \<Rightarrow> string option \<Rightarrow> error + string option" where
  "decryptSecret rm stored =
     (case stored of
        None \<Rightarrow> Inr None
      | Some box \<Rightarrow>
          (if box = [] then Inr None
           else (case splitOn (CHR '':'') box of
               version # iv # tag # body # _ \<Rightarrow>
                 (if version \<noteq> ''v1'' \<or> iv = [] \<or> tag = [] then Inr None
                  else (case boxKey rm of
                      Inl e \<Rightarrow> Inl e
                    | Inr key \<Rightarrow> Inr (rm_open rm key (rm_unb64 rm iv) (rm_unb64 rm tag) (rm_unb64 rm body))))
             | _ \<Rightarrow> Inr None)))"

section \<open>webhook.util.js\<close>

text \<open>\<open>Buffer.from(s, 'hex')\<close>: the bytes up to the first pair that is not hexadecimal.\<close>

definition hexVal :: "char \<Rightarrow> nat option" where
  "hexVal c =
     (let n = of_char c :: nat in
      if is_digit c then Some (n - 48)
      else if 97 \<le> n \<and> n \<le> 102 then Some (n - 87)
      else if 65 \<le> n \<and> n \<le> 70 then Some (n - 55) else None)"

fun hexBytes :: "string \<Rightarrow> nat list" where
  "hexBytes (a # b # cs) =
     (case (hexVal a, hexVal b) of (Some x, Some y) \<Rightarrow> (16 * x + y) # hexBytes cs | _ \<Rightarrow> [])"
| "hexBytes _ = []"

definition verifyWebhookSignature :: "remote \<Rightarrow> string \<Rightarrow> string option \<Rightarrow> bool" where
  "verifyWebhookSignature rm rawBody signature =
     (case signature of
        None \<Rightarrow> False
      | Some sig \<Rightarrow>
          sig \<noteq> [] \<and> rm_webhookSecret rm \<noteq> []
          \<and> hexBytes (rm_hmac rm (rm_webhookSecret rm) rawBody) = hexBytes sig)"

section \<open>razorpay.client.js\<close>

text \<open>\<open>/^rzp_(test|live)_[A-Za-z0-9]{6,}$/\<close>.\<close>

definition is_alnum_char :: "char \<Rightarrow> bool" where
  "is_alnum_char c =
     (let n = of_char c :: nat in is_digit c \<or> (65 \<le> n \<and> n \<le> 90) \<or> (97 \<le> n \<and> n \<le> 122))"

definition keyIdOk :: "string \<Rightarrow> bool" where
  "keyIdOk keyId \<longleftrightarrow>
     (startsWith keyId ''rzp_test_'' \<or> startsWith keyId ''rzp_live_'')
     \<and> 6 \<le> length (drop 9 keyId) \<and> list_all is_alnum_char (drop 9 keyId)"

definition modeOf :: "string \<Rightarrow> string" where
  "modeOf keyId = (if startsWith keyId ''rzp_live_'' then ''live'' else ''test'')"

definition minorUnitDigits :: "string \<Rightarrow> nat" where
  "minorUnitDigits currency =
     (let c = toUpperCase currency in
      if c \<in> {''JPY'', ''KRW'', ''VND'', ''CLP'', ''PYG'', ''UGX'', ''ISK''} then 0
      else if c \<in> {''BHD'', ''KWD'', ''OMR'', ''JOD'', ''TND''} then 3 else 2)"

definition toMinorUnits :: "paise \<Rightarrow> string \<Rightarrow> int" where
  "toMinorUnits amount currency = js_round (of_int amount / 100 * 10 ^ minorUnitDigits currency)"

text \<open>The answer of a request: network failures and the statuses Razorpay uses.\<close>

definition callResult :: "http_response \<Rightarrow> error + jsval" where
  "callResult res = (case res of
       Unreachable \<Rightarrow> Inl (AppError 502 ''PAYMENT_PROVIDER_ERROR'')
     | Response status payload \<Rightarrow>
         (if 200 \<le> status \<and> status < 300 then Inr payload
          else if status = 401 then Inl (AppError 502 ''PAYMENT_PROVIDER_AUTH_FAILED'')
          else if status = 400 then Inl (AppError 422 ''PAYMENT_PROVIDER_REJECTED'')
          else Inl (AppError 502 ''PAYMENT_PROVIDER_ERROR'')))"

definition razorpayCall ::
  "env \<Rightarrow> remote \<Rightarrow> credentials \<Rightarrow> string \<Rightarrow> string \<Rightarrow> jsval \<Rightarrow> (error + jsval) dbtx" where
  "razorpayCall env rm cred meth path body =
     bindT (freshId env) (\<lambda>request.
     returnT (callResult (rm_fetch rm request (cr_keyId cred, cr_keySecret cred) meth path body)))"

definition credentialsValid :: "env \<Rightarrow> remote \<Rightarrow> credentials \<Rightarrow> bool dbio" where
  "credentialsValid env rm cred =
     bindH (transaction (razorpayCall env rm cred ''GET'' ''/orders?count=1'' JUndef)) (\<lambda>answer.
     case answer of
       Inr payload \<Rightarrow> returnH True
     | Inl err \<Rightarrow> (if err = AppError 502 ''PAYMENT_PROVIDER_AUTH_FAILED'' then returnH False else throwH err))"

definition razorpayOrder ::
  "env \<Rightarrow> remote \<Rightarrow> credentials \<Rightarrow> int \<Rightarrow> string \<Rightarrow> string \<Rightarrow> jsval \<Rightarrow> jsval dbtx" where
  "razorpayOrder env rm cred amountMinor currency receipt notes =
     bindT (razorpayCall env rm cred ''POST'' ''/orders''
       (JObj [(''amount'', jsInt amountMinor), (''currency'', JStr currency), (''receipt'', JStr (take 40 receipt)),
              (''notes'', notes), (''payment_capture'', jsInt 1)])) (\<lambda>answer.
     case answer of Inl e \<Rightarrow> throwT e | Inr payload \<Rightarrow> returnT payload)"

definition razorpayRefund ::
  "env \<Rightarrow> remote \<Rightarrow> credentials \<Rightarrow> string \<Rightarrow> int \<Rightarrow> jsval \<Rightarrow> jsval dbtx" where
  "razorpayRefund env rm cred razorpayPaymentId amountMinor notes =
     bindT (razorpayCall env rm cred ''POST'' (''/payments/'' @ razorpayPaymentId @ ''/refund'')
       (JObj [(''amount'', jsInt amountMinor), (''notes'', notes), (''speed'', JStr ''normal'')])) (\<lambda>answer.
     case answer of Inl e \<Rightarrow> throwT e | Inr payload \<Rightarrow> returnT payload)"

definition signatureMatches :: "remote \<Rightarrow> string \<Rightarrow> string option \<Rightarrow> string option \<Rightarrow> bool" where
  "signatureMatches rm payload secret signature =
     (case (secret, signature) of
        (Some k, Some sig) \<Rightarrow> k \<noteq> [] \<and> rm_hmac rm k payload = sig
      | _ \<Rightarrow> False)"

definition checkoutSignatureValid :: "remote \<Rightarrow> string \<Rightarrow> string \<Rightarrow> string \<Rightarrow> string option \<Rightarrow> bool" where
  "checkoutSignatureValid rm keySecret orderId paymentId signature =
     signatureMatches rm (orderId @ ''|'' @ paymentId) (Some keySecret) signature"

definition webhookSignatureValid :: "remote \<Rightarrow> string option \<Rightarrow> string \<Rightarrow> string option \<Rightarrow> bool" where
  "webhookSignatureValid rm webhookSecret rawBody signature = signatureMatches rm rawBody webhookSecret signature"

section \<open>payment-gateway.service.js\<close>

definition webhookPathFor :: "string \<Rightarrow> string" where
  "webhookPathFor tenantId = ''/api/v1/payments/webhook/razorpay/'' @ tenantId"

record gateway_view =
  gv_provider :: string
  gv_configured :: bool
  gv_enabled :: bool
  gv_keyId :: "string option"
  gv_mode :: "string option"
  gv_webhookSecretSet :: bool
  gv_webhookUrlPath :: string
  gv_updatedAt :: "int option"

definition isSet :: "string option \<Rightarrow> bool" where
  "isSet x = (case x of None \<Rightarrow> False | Some v \<Rightarrow> v \<noteq> [])"

definition toView :: "string \<Rightarrow> gateway_row option \<Rightarrow> gateway_view" where
  "toView tenantId row = (case row of
       None \<Rightarrow> \<lparr>gv_provider = ''razorpay'', gv_configured = False, gv_enabled = False, gv_keyId = None,
         gv_mode = None, gv_webhookSecretSet = False, gv_webhookUrlPath = webhookPathFor tenantId,
         gv_updatedAt = None\<rparr>
     | Some r \<Rightarrow> \<lparr>gv_provider = gw_provider r, gv_configured = True, gv_enabled = gw_enabled r,
         gv_keyId = Some (gw_keyId r), gv_mode = Some (modeOf (gw_keyId r)),
         gv_webhookSecretSet = isSet (gw_webhookSecretEncrypted r),
         gv_webhookUrlPath = webhookPathFor tenantId, gv_updatedAt = Some (gw_updatedAt r)\<rparr>)"

definition findGateway :: "string \<Rightarrow> db \<Rightarrow> gateway_row option" where
  "findGateway tenantId s = find (\<lambda>g. gw_tenantId g = tenantId) (gateways s)"

definition getGateway :: "string \<Rightarrow> db \<Rightarrow> gateway_view" where
  "getGateway tenantId s = toView tenantId (findGateway tenantId s)"

definition gatewayLog ::
  "env \<Rightarrow> audit_context \<Rightarrow> string \<Rightarrow> string \<Rightarrow> jsval \<Rightarrow> jsval \<Rightarrow> string \<Rightarrow> string \<Rightarrow> unit dbio" where
  "gatewayLog env ctx tenantId action oldValue newValue activity description =
     thenH (transaction (logAudit env ctx tenantId action ''payment_gateway'' (Some tenantId) oldValue newValue))
       (transaction (logActivity env ctx tenantId activity description (JObj [(''resourceId'', JStr tenantId)])))"

record gateway_body =
  gb_keyId :: string
  gb_keySecret :: string
  gb_webhookSecret :: "string option"
  gb_enabled :: "bool option"

text \<open>\<open>safe(v)\<close>: what the audit log keeps of the settings.\<close>

definition safeView :: "gateway_view \<Rightarrow> jsval" where
  "safeView v = JObj [(''keyId'', jsOfOpt (gv_keyId v)), (''mode'', jsOfOpt (gv_mode v)),
     (''enabled'', JBool (gv_enabled v)), (''webhookSecretSet'', JBool (gv_webhookSecretSet v))]"

definition storeGateway :: "gateway_row \<Rightarrow> gateway_row list \<Rightarrow> gateway_row list" where
  "storeGateway g gs =
     (if list_ex (\<lambda>r. gw_tenantId r = gw_tenantId g) gs
      then updateMany (\<lambda>r. gw_tenantId r = gw_tenantId g) (\<lambda>r. g\<lparr>gw_provider := gw_provider r\<rparr>) gs
      else gs @ [g])"

text \<open>\<open>webhookSecret ? encryptSecret(webhookSecret) : null\<close>.\<close>

definition encryptOptional :: "remote \<Rightarrow> string \<Rightarrow> string option \<Rightarrow> error + string option" where
  "encryptOptional rm iv secret =
     (if isSet secret
      then (case encryptSecret rm iv (the secret) of Inl e \<Rightarrow> Inl e | Inr x \<Rightarrow> Inr (Some x))
      else Inr None)"

definition logSave :: "env \<Rightarrow> audit_context \<Rightarrow> string \<Rightarrow> gateway_view \<Rightarrow> gateway_view \<Rightarrow> unit dbio" where
  "logSave env ctx tenantId before after =
     gatewayLog env ctx tenantId (if gv_configured before then ''UPDATE'' else ''CREATE'')
       (if gv_configured before then safeView before else JNull) (safeView after) ''payment_gateway.save''
       (''Razorpay connected ('' @ (case gv_mode after of None \<Rightarrow> [] | Some m \<Rightarrow> m) @ '' keys''
          @ (if gv_webhookSecretSet after then '', webhook secret set'' else []) @ '')'')"

definition saveGateway ::
  "env \<Rightarrow> remote \<Rightarrow> audit_context \<Rightarrow> string \<Rightarrow> gateway_body \<Rightarrow> gateway_view dbio" where
  "saveGateway env rm ctx tenantId body =
     (let enabled = (case gb_enabled body of None \<Rightarrow> True | Some b \<Rightarrow> b) in
      thenH (throwIfH (\<not> keyIdOk (gb_keyId body)) (AppError 400 ''VALIDATION_ERROR''))
     (bindH (transaction (freshId env)) (\<lambda>iv1.
      bindH (liftH (encryptSecret rm iv1 (gb_keySecret body))) (\<lambda>keySecretEncrypted.
      bindH (credentialsValid env rm
        \<lparr>cr_keyId = gb_keyId body, cr_keySecret = gb_keySecret body, cr_webhookSecret = None\<rparr>) (\<lambda>ok.
      thenH (throwIfH (\<not> ok) (AppError 422 ''RAZORPAY_KEYS_INVALID''))
     (bindH (readH (getGateway tenantId)) (\<lambda>before.
      bindH (transaction (freshId env)) (\<lambda>iv2.
      bindH (liftH (encryptOptional rm iv2 (gb_webhookSecret body))) (\<lambda>webhookSecretEncrypted.
      thenH (writeH (\<lambda>s. s\<lparr>gateways := storeGateway
        \<lparr>gw_tenantId = tenantId, gw_provider = ''razorpay'', gw_keyId = gb_keyId body,
          gw_keySecretEncrypted = keySecretEncrypted, gw_webhookSecretEncrypted = webhookSecretEncrypted,
          gw_enabled = enabled, gw_updatedAt = env_now env\<rparr> (gateways s)\<rparr>))
     (bindH (readH (getGateway tenantId)) (\<lambda>after.
      thenH (logSave env ctx tenantId before after)
      (returnH after))))))))))))"

abbreviation gatewayNotFound :: error where
  "gatewayNotFound \<equiv> AppError 404 ''PAYMENT_GATEWAY_NOT_FOUND''"

definition setGatewayEnabled ::
  "env \<Rightarrow> audit_context \<Rightarrow> string \<Rightarrow> bool \<Rightarrow> gateway_view dbio" where
  "setGatewayEnabled env ctx tenantId enabled =
     bindH (readH (findGateway tenantId)) (\<lambda>found.
     bindH (orThrowH found gatewayNotFound) (\<lambda>row.
     thenH (writeH (\<lambda>s. s\<lparr>gateways := updateMany (\<lambda>g. gw_tenantId g = tenantId)
        (\<lambda>g. g\<lparr>gw_enabled := enabled, gw_updatedAt := env_now env\<rparr>) (gateways s)\<rparr>))
    (bindH (readH (getGateway tenantId)) (\<lambda>updated.
     thenH (gatewayLog env ctx tenantId ''UPDATE'' (JObj [(''enabled'', JBool (gw_enabled row))])
        (JObj [(''enabled'', JBool enabled)]) ''payment_gateway.update''
        (''Razorpay '' @ (if enabled then ''enabled'' else ''disabled'')))
      (returnH updated)))))"

definition removeGateway :: "env \<Rightarrow> audit_context \<Rightarrow> string \<Rightarrow> unit dbio" where
  "removeGateway env ctx tenantId =
     bindH (readH (\<lambda>s. countWhere (\<lambda>g. gw_tenantId g = tenantId) (gateways s))) (\<lambda>count.
     thenH (writeH (\<lambda>s. s\<lparr>gateways := deleteMany (\<lambda>g. gw_tenantId g = tenantId) (gateways s)\<rparr>))
    (thenH (throwIfH (count = 0) gatewayNotFound)
      (gatewayLog env ctx tenantId ''DELETE'' (JObj [(''provider'', JStr ''razorpay'')]) JNull
        ''payment_gateway.delete'' ''Razorpay disconnected'')))"

text \<open>The decrypted credentials, or none when the shop has none, disabled them or they cannot be read.\<close>

definition credentialsFor :: "remote \<Rightarrow> string \<Rightarrow> bool \<Rightarrow> db \<Rightarrow> error + credentials option" where
  "credentialsFor rm tenantId includeDisabled s =
     (case findGateway tenantId s of
        None \<Rightarrow> Inr None
      | Some row \<Rightarrow>
          (if \<not> gw_enabled row \<and> \<not> includeDisabled then Inr None
           else (case decryptSecret rm (Some (gw_keySecretEncrypted row)) of
               Inl e \<Rightarrow> Inl e
             | Inr keySecret \<Rightarrow>
                 (if \<not> isSet keySecret then Inr None
                  else (case decryptSecret rm (gw_webhookSecretEncrypted row) of
                      Inl e \<Rightarrow> Inl e
                    | Inr webhookSecret \<Rightarrow>
                        Inr (Some \<lparr>cr_keyId = gw_keyId row, cr_keySecret = the keySecret,
                          cr_webhookSecret = webhookSecret\<rparr>))))))"

section \<open>Secrets at rest\<close>

text \<open>What the documentation of node's crypto and Buffer modules promises of the fields of \<open>remote\<close>.\<close>

definition cipherLaws :: "remote \<Rightarrow> bool" where
  "cipherLaws rm \<longleftrightarrow>
     (\<forall>x. rm_unb64 rm (rm_b64 rm x) = x \<and> CHR '':'' \<notin> set (rm_b64 rm x) \<and> (x \<noteq> [] \<longrightarrow> rm_b64 rm x \<noteq> []))
     \<and> (\<forall>k i p. fst (rm_seal rm k i p) \<noteq> []
          \<and> rm_open rm k i (fst (rm_seal rm k i p)) (snd (rm_seal rm k i p)) = Some p)"

lemma decryptSecret_encryptSecret:
  assumes "cipherLaws rm" and "iv \<noteq> []" and "encryptSecret rm iv plain = Inr box"
  shows "decryptSecret rm (Some box) = Inr (Some plain)" and "box \<noteq> []"
proof -
  obtain key where key: "boxKey rm = Inr key"
    using assms(3) by (auto simp: encryptSecret_def split: sum.splits)
  let ?s = "rm_seal rm key iv plain"
  have box: "box = ''v1'' @ CHR '':'' # rm_b64 rm iv @ CHR '':'' # rm_b64 rm (fst ?s) @ CHR '':'' # rm_b64 rm (snd ?s)"
    using assms(3) key by (simp add: encryptSecret_def Let_def)
  have b64: "CHR '':'' \<notin> set (rm_b64 rm x)" "rm_unb64 rm (rm_b64 rm x) = x" for x
    using assms(1) by (simp_all add: cipherLaws_def)
  have ne: "rm_b64 rm iv \<noteq> []" "rm_b64 rm (fst ?s) \<noteq> []"
    using assms(1,2) by (simp_all add: cipherLaws_def)
  have v1: "CHR '':'' \<notin> set ''v1''" by simp
  have "splitOn (CHR '':'') box = [''v1'', rm_b64 rm iv, rm_b64 rm (fst ?s), rm_b64 rm (snd ?s)]"
    unfolding box splitOn_word [OF v1] splitOn_word [OF b64(1)] splitOn_last [OF b64(1)] by simp
  then show "decryptSecret rm (Some box) = Inr (Some plain)"
    using assms(1) ne by (simp add: decryptSecret_def key b64(2) box) (simp add: cipherLaws_def)
  show "box \<noteq> []" by (simp add: box)
qed

lemma isSet_simps [simp]: "isSet None = False" "isSet (Some v) = (v \<noteq> [])"
  by (simp_all add: isSet_def)

section \<open>The keys of a shop\<close>

lemma findGateway_store:
  "find (\<lambda>r. gw_tenantId r = t) (storeGateway g gs) =
     (if gw_tenantId g = t
      then Some (case find (\<lambda>r. gw_tenantId r = t) gs of None \<Rightarrow> g | Some r \<Rightarrow> g\<lparr>gw_provider := gw_provider r\<rparr>)
      else find (\<lambda>r. gw_tenantId r = t) gs)"
proof -
  have u: "find (\<lambda>r. gw_tenantId r = t) (updateMany (\<lambda>r. gw_tenantId r = gw_tenantId g) (\<lambda>r. g\<lparr>gw_provider := gw_provider r\<rparr>) gs)
      = map_option (\<lambda>r. if gw_tenantId r = gw_tenantId g then g\<lparr>gw_provider := gw_provider r\<rparr> else r)
          (find (\<lambda>r. gw_tenantId r = t) gs)"
    by (rule find_updateMany) simp
  show ?thesis
  proof (cases "find (\<lambda>r. gw_tenantId r = t) gs")
    case None
    then have "\<forall>r \<in> set gs. gw_tenantId r \<noteq> t" by (simp add: find_None_iff)
    then show ?thesis by (auto simp: storeGateway_def u None find_append list_ex_iff)
  next
    case (Some a)
    then have "a \<in> set gs \<and> gw_tenantId a = t" by (auto dest: find_SomeD)
    then show ?thesis
      using u by (cases "gw_tenantId g = t") (auto simp: storeGateway_def Some find_append list_ex_iff)
  qed
qed

text \<open>What a call to Razorpay and the log entries leave of the database.\<close>

lemma razorpayCall_eq:
  "razorpayCall env rm cred meth path body s =
     Inr (callResult (rm_fetch rm (env_uuid env (drawn s)) (cr_keyId cred, cr_keySecret cred) meth path body),
          s\<lparr>drawn := Suc (drawn s)\<rparr>)"
  by (simp add: razorpayCall_def freshId_def monad_defs)

lemma credentialsValid_Inr:
  "credentialsValid env rm cred s = (Inr b, s') \<Longrightarrow> s' = s\<lparr>drawn := Suc (drawn s)\<rparr>"
  by (auto simp: credentialsValid_def outcome razorpayCall_eq split: sum.splits if_splits)

lemma freshId_eq: "freshId env s = Inr (env_uuid env (drawn s), s\<lparr>drawn := Suc (drawn s)\<rparr>)"
  by (simp add: freshId_def monad_defs)

lemma gatewayLog_gateways: "gatewayLog env ctx t a ov nv act d s = (Inr u, s') \<Longrightarrow> gateways s' = gateways s"
  by (auto simp: gatewayLog_def outcome dest!: logAudit_eq logActivity_eq)

lemma saveGateway_Inr:
  assumes "saveGateway env rm ctx t b s = (Inr v, s')"
  obtains k w s1 u where
    "encryptSecret rm (env_uuid env (drawn s)) (gb_keySecret b) = Inr k"
    "encryptOptional rm (env_uuid env (drawn s + 2)) (gb_webhookSecret b) = Inr w"
    "s1 = s\<lparr>drawn := drawn s + 3, gateways := storeGateway \<lparr>gw_tenantId = t, gw_provider = ''razorpay'',
       gw_keyId = gb_keyId b, gw_keySecretEncrypted = k, gw_webhookSecretEncrypted = w,
       gw_enabled = (case gb_enabled b of None \<Rightarrow> True | Some e \<Rightarrow> e), gw_updatedAt = env_now env\<rparr> (gateways s)\<rparr>"
    "v = getGateway t s1"
    "logSave env ctx t (getGateway t s) v s1 = (Inr u, s')"
proof -
  have frame: "getGateway t (s\<lparr>drawn := n\<rparr>) = getGateway t s" for n
    by (simp add: getGateway_def findGateway_def)
  from assms show ?thesis
    unfolding saveGateway_def Let_def
    apply (simp only: outcome freshId_eq sum.inject prod.inject)
    apply (elim exE conjE)
    apply (drule credentialsValid_Inr)
    apply (clarsimp simp: frame)
    apply (rule that)
        apply assumption
       apply (simp add: numeral_2_eq_2)
      apply (rule refl)
     apply (simp_all add: numeral_3_eq_3)
    done
qed


lemma encryptOptional_Inr:
  assumes "cipherLaws rm" and "iv \<noteq> []" and "encryptOptional rm iv secret = Inr w"
  shows "decryptSecret rm w = Inr (if isSet secret then secret else None)" and "isSet w = isSet secret"
  using assms decryptSecret_encryptSecret [OF assms(1,2)]
  by (auto simp: encryptOptional_def decryptSecret_def isSet_def split: if_splits sum.splits option.splits)

lemma logSave_frame:
  assumes "logSave env ctx t before after s = (Inr u, s')"
  shows "gateways s' = gateways s"
    and "\<exists>a b. (\<forall>s0. auditLogs s0 = auditLogs s \<longrightarrow> activityLogs s0 = activityLogs s \<longrightarrow>
           logSave env ctx t before after s0 = (Inr (), s0\<lparr>auditLogs := a, activityLogs := b\<rparr>))
         \<and> auditLogs s' = a \<and> activityLogs s' = b"
  using assms by (auto simp: logSave_def gatewayLog_def logAudit_def logActivity_def outcome)

section \<open>A concrete world\<close>

text \<open>Hexadecimal digits in place of base64 and a cipher that only tags: enough to run the operations.\<close>

definition nibble :: "nat \<Rightarrow> char" where
  "nibble n = ''0123456789abcdef'' ! n"

definition hexEnc :: "string \<Rightarrow> string" where
  "hexEnc x = concat (map (\<lambda>c. [nibble (of_char c div 16), nibble (of_char c mod 16)]) x)"

definition hexDec :: "string \<Rightarrow> string" where
  "hexDec x = map char_of (hexBytes x)"

definition demoRemote :: remote where
  "demoRemote = \<lparr>rm_sha256 = id, rm_hmac = (\<lambda>k p. hexEnc (k @ p)), rm_seal = (\<lambda>k i p. (''t'', p)),
     rm_open = (\<lambda>k i t d. Some d), rm_b64 = hexEnc, rm_unb64 = hexDec,
     rm_fetch = (\<lambda>r c m p b. Response 200 (JObj [(''id'', JStr (''rz'' @ r)), (''status'', JStr ''created'')])),
     rm_encKey = ''k'', rm_jwtSecret = [], rm_production = True, rm_webhookSecret = ''wh''\<rparr>"

lemma nibble_table: "list_all (\<lambda>n. hexVal (nibble n) = Some n \<and> nibble n \<noteq> CHR '':'')
    [0, 1, 2, 3, 4, 5, 6, 7, 8, 9, 10, 11, 12, 13, 14, 15]"
  by (simp add: nibble_def hexVal_def is_digit_def Let_def)

lemma nibble_facts:
  assumes "n < 16"
  shows "hexVal (nibble n) = Some n \<and> nibble n \<noteq> CHR '':''"
proof -
  have "n \<in> set [0, 1, 2, 3, 4, 5, 6, 7, 8, 9, 10, 11, 12, 13, 14, 15]"
    using assms by (simp add: eval_nat_numeral less_Suc_eq)
  then show ?thesis using nibble_table unfolding list_all_iff by blast
qed

lemma hexBytes_hexEnc: "hexBytes (hexEnc x) = map of_char x"
proof (induction x)
  case Nil
  then show ?case by (simp add: hexEnc_def)
next
  case (Cons c x)
  have n: "(of_char c :: nat) < 256" by simp
  then have "of_char c div 16 < (16::nat)" "of_char c mod 16 < (16::nat)" by (simp_all add: less_mult_imp_div_less)
  then show ?case using Cons by (simp add: hexEnc_def nibble_facts)
qed

lemma hexEnc_word: "CHR '':'' \<notin> set (hexEnc x)" "x \<noteq> [] \<Longrightarrow> hexEnc x \<noteq> []"
proof -
  have n: "of_char c div 16 < (16::nat)" "of_char c mod 16 < (16::nat)" for c :: char
  proof -
    have "(of_char c :: nat) < 256" by simp
    then show "of_char c div 16 < (16::nat)" "of_char c mod 16 < (16::nat)" by (simp_all add: less_mult_imp_div_less)
  qed
  show "CHR '':'' \<notin> set (hexEnc x)"
    using nibble_facts [OF n(1)] nibble_facts [OF n(2)] by (auto simp: hexEnc_def) metis+
  show "x \<noteq> [] \<Longrightarrow> hexEnc x \<noteq> []" by (cases x) (simp_all add: hexEnc_def)
qed

lemma demoRemote_laws: "cipherLaws demoRemote"
  by (simp add: cipherLaws_def demoRemote_def hexDec_def hexBytes_hexEnc hexEnc_word comp_def)

definition demoKeys :: gateway_body where
  "demoKeys = \<lparr>gb_keyId = ''rzp_test_abcdef'', gb_keySecret = ''s1'', gb_webhookSecret = Some ''w1'', gb_enabled = None\<rparr>"

definition otherKeys :: gateway_body where
  "otherKeys = \<lparr>gb_keyId = ''rzp_test_abcdef'', gb_keySecret = ''s2'', gb_webhookSecret = Some ''w2'', gb_enabled = None\<rparr>"

definition demoWorld :: env where
  "demoWorld = demoEnv\<lparr>env_uuid := (\<lambda>n. replicate (Suc n) (CHR ''i''))\<rparr>"

section \<open>Properties\<close>

text \<open>Sealing a secret and opening it again gives the secret, whatever the secret is (it may contain the
  separator of the stored form), for every cipher and encoding that undo themselves; and a stored value
  of another version, or one with fewer than four parts, is read as no secret rather than as garbage.\<close>

theorem secret_box_roundtrip:
  assumes "cipherLaws rm" and "iv \<noteq> []" and "encryptSecret rm iv plain = Inr box"
  shows "decryptSecret rm (Some box) = Inr (Some plain)
    \<and> (\<forall>v rest. CHR '':'' \<notin> set v \<longrightarrow> v \<noteq> ''v1'' \<longrightarrow> decryptSecret rm (Some (v @ '':'' @ rest)) = Inr None)"
proof -
  have "decryptSecret rm (Some (v @ '':'' @ rest)) = Inr None" if "CHR '':'' \<notin> set v" "v \<noteq> ''v1''" for v rest
    using that by (auto simp: decryptSecret_def splitOn_word split: list.splits)
  then show ?thesis using decryptSecret_encryptSecret [OF assms] by blast
qed

lemma secret_box_roundtrip_witness:
  "\<exists>box. encryptSecret demoRemote ''iv'' ''a:b'' = Inr box \<and> decryptSecret demoRemote (Some box) = Inr (Some ''a:b'')"
proof -
  obtain box where box: "encryptSecret demoRemote ''iv'' ''a:b'' = Inr box"
    by (simp add: encryptSecret_def boxKey_def demoRemote_def)
  then show ?thesis using secret_box_roundtrip [OF demoRemote_laws _ box] by simp
qed

text \<open>The keys a shop connects are the keys its payments use. After a successful save the credentials read
  back are exactly the ones given, unless the shop switched the gateway off and disabled keys are not
  asked for; the keys of other shops are untouched, and after removing the gateway there are none.\<close>

theorem saved_keys_are_used:
  assumes "cipherLaws rm" and "\<forall>n. env_uuid env n \<noteq> []" and "gb_keySecret b \<noteq> []"
    and "saveGateway env rm ctx t b s = (Inr v, s')"
  shows "credentialsFor rm t True s' = Inr (Some \<lparr>cr_keyId = gb_keyId b, cr_keySecret = gb_keySecret b,
           cr_webhookSecret = (if isSet (gb_webhookSecret b) then gb_webhookSecret b else None)\<rparr>)
    \<and> credentialsFor rm t False s' = (if gb_enabled b = Some False then Inr None else credentialsFor rm t True s')
    \<and> (\<forall>t'. t' \<noteq> t \<longrightarrow> findGateway t' s' = findGateway t' s)
    \<and> (\<forall>ctx r s2. removeGateway env ctx t s' = (r, s2) \<longrightarrow> credentialsFor rm t True s2 = Inr None)"
proof -
  from assms(4) obtain k w s1 u where enc: "encryptSecret rm (env_uuid env (drawn s)) (gb_keySecret b) = Inr k"
    and opt: "encryptOptional rm (env_uuid env (drawn s + 2)) (gb_webhookSecret b) = Inr w"
    and s1: "s1 = s\<lparr>drawn := drawn s + 3, gateways := storeGateway \<lparr>gw_tenantId = t, gw_provider = ''razorpay'',
       gw_keyId = gb_keyId b, gw_keySecretEncrypted = k, gw_webhookSecretEncrypted = w,
       gw_enabled = (case gb_enabled b of None \<Rightarrow> True | Some e \<Rightarrow> e), gw_updatedAt = env_now env\<rparr> (gateways s)\<rparr>"
    and log: "logSave env ctx t (getGateway t s) v s1 = (Inr u, s')"
    by (rule saveGateway_Inr)
  have g: "gateways s' = gateways s1" by (rule logSave_frame(1) [OF log])
  have k: "decryptSecret rm (Some k) = Inr (Some (gb_keySecret b))"
    by (rule decryptSecret_encryptSecret(1) [OF assms(1) _ enc]) (simp add: assms(2))
  have w: "decryptSecret rm w = Inr (if isSet (gb_webhookSecret b) then gb_webhookSecret b else None)"
    by (rule encryptOptional_Inr(1) [OF assms(1) _ opt]) (simp add: assms(2))
  have removed: "credentialsFor rm t True s2 = Inr None" if "removeGateway env ctx' t s' = (r, s2)" for ctx' r s2
  proof -
    have "findGateway t s2 = None"
      using that by (cases r) (auto simp: removeGateway_def gatewayLog_def findGateway_def deleteMany_def find_None_iff
          outcome dest!: logAudit_eq logActivity_eq)
    then show ?thesis by (simp add: credentialsFor_def)
  qed
  show ?thesis
    using assms(3) removed
    by (auto simp: credentialsFor_def findGateway_def g s1 findGateway_store k w split: option.splits)
qed

lemma saved_keys_are_used_witness:
  "\<exists>v s'. saveGateway demoWorld demoRemote \<lparr>cx_userId = None, cx_ipAddress = None, cx_userAgent = None\<rparr> ''t'' demoKeys demoDb
       = (Inr v, s')
     \<and> credentialsFor demoRemote ''t'' True s' = Inr (Some \<lparr>cr_keyId = ''rzp_test_abcdef'', cr_keySecret = ''s1'',
          cr_webhookSecret = Some ''w1''\<rparr>)"
proof -
  let ?ctx = "\<lparr>cx_userId = None, cx_ipAddress = None, cx_userAgent = None\<rparr>"
  have "succeeded (saveGateway demoWorld demoRemote ?ctx ''t'' demoKeys demoDb)" by code_simp
  then obtain v s' where run: "saveGateway demoWorld demoRemote ?ctx ''t'' demoKeys demoDb = (Inr v, s')"
    by (rule succeededE)
  have "\<forall>n. env_uuid demoWorld n \<noteq> []" by (simp add: demoWorld_def)
  from saved_keys_are_used [OF demoRemote_laws this _ run] run show ?thesis by (simp add: demoKeys_def)
qed

text \<open>The secrets of a shop leave no trace outside their sealed columns. Two saves that differ only in the
  secrets answer the caller with the same view and write the same audit and activity rows.\<close>

theorem gateway_secrets_do_not_leak:
  assumes "saveGateway env rm ctx t b s = (Inr v, s1)"
    and "saveGateway env rm ctx t (b\<lparr>gb_keySecret := k', gb_webhookSecret := w'\<rparr>) s = (Inr v', s2)"
    and "isSet w' = isSet (gb_webhookSecret b)"
  shows "v' = v \<and> auditLogs s2 = auditLogs s1 \<and> activityLogs s2 = activityLogs s1"
proof -
  have set: "isSet w = isSet x" if "encryptOptional rm iv x = Inr w" for w x iv
    using that by (auto simp: encryptOptional_def encryptSecret_def Let_def split: if_splits sum.splits)
  from assms(1) obtain k w a u where opt: "encryptOptional rm (env_uuid env (drawn s + 2)) (gb_webhookSecret b) = Inr w"
    and a: "a = s\<lparr>drawn := drawn s + 3, gateways := storeGateway \<lparr>gw_tenantId = t, gw_provider = ''razorpay'',
       gw_keyId = gb_keyId b, gw_keySecretEncrypted = k, gw_webhookSecretEncrypted = w,
       gw_enabled = (case gb_enabled b of None \<Rightarrow> True | Some e \<Rightarrow> e), gw_updatedAt = env_now env\<rparr> (gateways s)\<rparr>"
    and v: "v = getGateway t a" and log: "logSave env ctx t (getGateway t s) v a = (Inr u, s1)"
    by (rule saveGateway_Inr)
  from assms(2) obtain k2 w2 c u2 where opt2: "encryptOptional rm (env_uuid env (drawn s + 2)) w' = Inr w2"
    and c: "c = s\<lparr>drawn := drawn s + 3, gateways := storeGateway \<lparr>gw_tenantId = t, gw_provider = ''razorpay'',
       gw_keyId = gb_keyId b, gw_keySecretEncrypted = k2, gw_webhookSecretEncrypted = w2,
       gw_enabled = (case gb_enabled b of None \<Rightarrow> True | Some e \<Rightarrow> e), gw_updatedAt = env_now env\<rparr> (gateways s)\<rparr>"
    and v2: "v' = getGateway t c" and log2: "logSave env ctx t (getGateway t s) v' c = (Inr u2, s2)"
    by (rule saveGateway_Inr) simp
  have same: "isSet w2 = isSet w" using set [OF opt] set [OF opt2] assms(3) by simp
  have eq: "v' = v"
    by (simp add: v v2 a c getGateway_def findGateway_def findGateway_store toView_def same split: option.split)
  from logSave_frame(2) [OF log] obtain x y where
    "\<forall>s0. auditLogs s0 = auditLogs a \<longrightarrow> activityLogs s0 = activityLogs a \<longrightarrow>
           logSave env ctx t (getGateway t s) v s0 = (Inr (), s0\<lparr>auditLogs := x, activityLogs := y\<rparr>)"
    and "auditLogs s1 = x" "activityLogs s1 = y" by blast
  moreover have "auditLogs c = auditLogs a" "activityLogs c = activityLogs a" by (simp_all add: a c)
  ultimately show ?thesis using log2 eq by auto
qed

lemma gateway_secrets_do_not_leak_witness:
  "\<exists>v v' s1 s2.
     saveGateway demoWorld demoRemote \<lparr>cx_userId = None, cx_ipAddress = None, cx_userAgent = None\<rparr> ''t'' demoKeys demoDb = (Inr v, s1)
   \<and> saveGateway demoWorld demoRemote \<lparr>cx_userId = None, cx_ipAddress = None, cx_userAgent = None\<rparr> ''t'' otherKeys demoDb = (Inr v', s2)
   \<and> v' = v \<and> auditLogs s2 = auditLogs s1"
proof -
  let ?ctx = "\<lparr>cx_userId = None, cx_ipAddress = None, cx_userAgent = None\<rparr>"
  have b: "demoKeys\<lparr>gb_keySecret := ''s2'', gb_webhookSecret := Some ''w2''\<rparr> = otherKeys"
    by (simp add: demoKeys_def otherKeys_def)
  have "succeeded (saveGateway demoWorld demoRemote ?ctx ''t'' demoKeys demoDb)" by code_simp
  then obtain v s1 where r1: "saveGateway demoWorld demoRemote ?ctx ''t'' demoKeys demoDb = (Inr v, s1)"
    by (rule succeededE)
  have "succeeded (saveGateway demoWorld demoRemote ?ctx ''t'' otherKeys demoDb)" by code_simp
  then obtain v' s2 where r2: "saveGateway demoWorld demoRemote ?ctx ''t'' otherKeys demoDb = (Inr v', s2)"
    by (rule succeededE)
  from gateway_secrets_do_not_leak [OF r1 r2 [folded b]] r1 r2 show ?thesis by (simp add: demoKeys_def)
qed

end
