(* ===== verification/Stores.thy ===== *)
theory Stores
  imports AuditLog
begin

text \<open>
  Interfaces two or more components share. \<open>key_store\<close> is a table keyed by a unique column set, with
  a lookup and a store that creates or overwrites one key; the stock tables and the invoice counters
  provide it. \<open>status_machine\<close> is a status column with a table of allowed transitions; orders and
  payments provide it.
\<close>

section \<open>Keyed stores\<close>

locale key_store =
  fixes lookup :: "'s \<Rightarrow> 'k \<Rightarrow> 'v option"
    and store :: "'k \<Rightarrow> 'v \<Rightarrow> 's \<Rightarrow> 's"
  assumes lookup_store: "lookup (store k v s) k' = (if k' = k then Some v else lookup s k')"
begin

lemma lookup_store_same: "lookup (store k v s) k = Some v"
  by (simp add: lookup_store)

lemma lookup_store_other: "k' \<noteq> k \<Longrightarrow> lookup (store k v s) k' = lookup s k'"
  by (simp add: lookup_store)

lemma lookup_store_overwrite: "lookup (store k v (store k u s)) = lookup (store k v s)"
  by (simp add: lookup_store fun_eq_iff)

lemma lookup_store_commute:
  "k \<noteq> k' \<Longrightarrow> lookup (store k v (store k' v' s)) = lookup (store k' v' (store k v s))"
  by (auto simp: lookup_store fun_eq_iff)

lemma lookup_store_pair:
  "a \<noteq> b \<Longrightarrow> lookup (store b y (store a x s)) k
     = (if k = a then Some x else if k = b then Some y else lookup s k)"
  by (simp add: lookup_store)

end

text \<open>A keyed store of integer amounts, where an absent key counts as zero: moving an amount.\<close>

locale amount_store = key_store lookup store
  for lookup :: "'s \<Rightarrow> 'k \<Rightarrow> int option" and store :: "'k \<Rightarrow> int \<Rightarrow> 's \<Rightarrow> 's"
begin

definition amount :: "'s \<Rightarrow> 'k \<Rightarrow> int" where
  "amount s k = (case lookup s k of None \<Rightarrow> 0 | Some q \<Rightarrow> q)"

definition move :: "'k \<Rightarrow> 'k \<Rightarrow> int \<Rightarrow> 's \<Rightarrow> 's" where
  "move a b q s = store b (amount s b + q) (store a (amount s a - q) s)"

lemma amount_store: "amount (store k v s) k' = (if k' = k then v else amount s k')"
  by (simp add: amount_def lookup_store)

lemma amount_move:
  "a \<noteq> b \<Longrightarrow> amount (move a b q s) k =
     (if k = a then amount s a - q else if k = b then amount s b + q else amount s k)"
  by (simp add: move_def amount_store)

lemma move_conserves:
  "a \<noteq> b \<Longrightarrow> finite K \<Longrightarrow> a \<in> K \<Longrightarrow> b \<in> K \<Longrightarrow>
     (\<Sum>k\<in>K. amount (move a b q s) k) = (\<Sum>k\<in>K. amount s k)"
proof -
  assume ab: "a \<noteq> b" and fin: "finite K" and mem: "a \<in> K" "b \<in> K"
  have split: "(\<Sum>k\<in>K. f k) = f a + (f b + (\<Sum>k\<in>K - {a} - {b}. f k))" for f :: "'k \<Rightarrow> int"
    using fin mem ab by (simp add: sum.remove [of K a] sum.remove [of "K - {a}" b])
  have rest: "(\<Sum>k\<in>K - {a} - {b}. amount (move a b q s) k) = (\<Sum>k\<in>K - {a} - {b}. amount s k)"
    by (rule sum.cong) (auto simp: amount_move ab)
  show ?thesis
    unfolding split [of "amount (move a b q s)"] split [of "amount s"] rest
    using ab by (simp add: amount_move)
qed

lemma move_nonneg:
  "a \<noteq> b \<Longrightarrow> 0 \<le> q \<Longrightarrow> q \<le> amount s a \<Longrightarrow> (\<And>k. 0 \<le> amount s k) \<Longrightarrow> 0 \<le> amount (move a b q s) k"
  by (simp add: amount_move)

end

section \<open>Status machines\<close>

text \<open>
  The statuses a row may move to. \<open>rank\<close> is a measure that every allowed step increases, except the
  steps of a status onto itself, which the services refuse.
\<close>

locale status_machine =
  fixes next_of :: "'st \<Rightarrow> 'st list"
    and rank :: "'st \<Rightarrow> nat"
  assumes rank_step: "b \<in> set (next_of a) \<Longrightarrow> a \<noteq> b \<Longrightarrow> rank a < rank b"
begin

definition allowed :: "'st \<Rightarrow> 'st \<Rightarrow> bool" where
  "allowed a b \<longleftrightarrow> a \<noteq> b \<and> b \<in> set (next_of a)"

inductive run :: "'st \<Rightarrow> 'st list \<Rightarrow> 'st \<Rightarrow> bool" where
  run_nil: "run a [] a"
| run_step: "allowed a b \<Longrightarrow> run b bs c \<Longrightarrow> run a (b # bs) c"

definition terminal :: "'st \<Rightarrow> bool" where
  "terminal a \<longleftrightarrow> next_of a = []"

lemma allowed_rank: "allowed a b \<Longrightarrow> rank a < rank b"
  by (simp add: allowed_def rank_step)

lemma run_length: "run a bs c \<Longrightarrow> rank a + length bs \<le> rank c"
  by (induction rule: run.induct) (auto dest: allowed_rank)

lemma run_never_returns: "run a bs a \<Longrightarrow> bs = []"
  using run_length [of a bs a] by simp

lemma run_distinct_aux: "run a bs c \<Longrightarrow> (\<forall>b \<in> set bs. rank a < rank b) \<and> distinct (a # bs)"
proof (induction rule: run.induct)
  case (run_nil a)
  then show ?case by simp
next
  case (run_step a b bs c)
  then show ?case by (fastforce dest: allowed_rank)
qed

lemma run_distinct: "run a bs c \<Longrightarrow> distinct (a # bs)"
  using run_distinct_aux by blast

lemma run_terminal: "run a bs c \<Longrightarrow> terminal a \<Longrightarrow> bs = [] \<and> c = a"
  by (cases rule: run.cases) (auto simp: allowed_def terminal_def)

lemma run_last: "run a bs c \<Longrightarrow> bs \<noteq> [] \<Longrightarrow> c = last bs"
  by (induction rule: run.induct) (auto elim: run.cases)

lemma run_append: "run a bs b \<Longrightarrow> run b cs c \<Longrightarrow> run a (bs @ cs) c"
  by (induction rule: run.induct) (auto intro: run_step)

lemma run_bounded: "run a bs c \<Longrightarrow> (\<And>x. rank x \<le> n) \<Longrightarrow> length bs \<le> n"
  using run_length [of a bs c] by (metis add_leD2 le_trans)

end

end
