(* ===== verification/Inventory.thy ===== *)
theory Inventory
  imports Stores
begin

text \<open>
  Stock: src/src/modules/inventory/inventory.service.js (adjustments and transfers) on the tables
  \<open>inventory\<close>, \<open>warehouse_inventory\<close> and \<open>inventory_movements\<close>. The row locks (\<open>SELECT ... FOR UPDATE\<close>)
  read and change nothing; what they exclude is that another transaction runs between the reads and
  the writes, which a transaction of this model does not do. Serialization failures and deadlocks
  that the database reports are the parameter \<open>faults\<close>: the error of each attempt, if it has one.
\<close>

section \<open>The stock tables\<close>

type_synonym stock_key = "string \<times> string \<times> string"

definition keyOf :: "inventory_row \<Rightarrow> stock_key" where
  "keyOf r = (iv_tenantId r, iv_variantId r, iv_warehouseId r)"

definition stock :: "inventory_row list \<Rightarrow> stock_key \<Rightarrow> int option" where
  "stock rs k = map_option iv_quantity (find (\<lambda>r. keyOf r = k) rs)"

text \<open>\<open>UPDATE "inventory" SET "quantity" = q, "updated_at" = NOW() WHERE key\<close>.\<close>

definition setQuantity :: "int \<Rightarrow> stock_key \<Rightarrow> int \<Rightarrow> inventory_row list \<Rightarrow> inventory_row list" where
  "setQuantity now k q rs =
     updateMany (\<lambda>r. keyOf r = k) (\<lambda>r. r\<lparr>iv_quantity := q, iv_updatedAt := now\<rparr>) rs"

definition newStockRow :: "int \<Rightarrow> stock_key \<Rightarrow> int \<Rightarrow> inventory_row" where
  "newStockRow now k q = \<lparr>iv_tenantId = fst k, iv_variantId = fst (snd k),
     iv_warehouseId = snd (snd k), iv_quantity = q, iv_reserved = 0, iv_updatedAt = now\<rparr>"

text \<open>\<open>INSERT ... ON CONFLICT (key) DO UPDATE SET "quantity" = q\<close>, and \<open>upsert\<close>.\<close>

definition upsertQuantity :: "int \<Rightarrow> stock_key \<Rightarrow> int \<Rightarrow> inventory_row list \<Rightarrow> inventory_row list" where
  "upsertQuantity now k q rs =
     (if list_ex (\<lambda>r. keyOf r = k) rs then setQuantity now k q rs else rs @ [newStockRow now k q])"

text \<open>\<open>inventory.create\<close>: a second row with the key violates the unique index.\<close>

definition createStock :: "int \<Rightarrow> stock_key \<Rightarrow> int \<Rightarrow> unit dbtx" where
  "createStock now k q s =
     (if list_ex (\<lambda>r. keyOf r = k) (inventory s) then Inl uniqueViolation
      else Inr ((), s\<lparr>inventory := inventory s @ [newStockRow now k q]\<rparr>))"

lemma keyOf_newStockRow [simp]: "keyOf (newStockRow now k q) = k"
  by (simp add: keyOf_def newStockRow_def)

lemma keyOf_quantity [simp]: "keyOf (r\<lparr>iv_quantity := q, iv_updatedAt := now\<rparr>) = keyOf r"
  by (simp add: keyOf_def)

lemma stock_None: "stock rs k = None \<longleftrightarrow> \<not> list_ex (\<lambda>r. keyOf r = k) rs"
  by (auto simp: stock_def find_None_iff list_ex_iff)

lemma stock_setQuantity:
  "stock (setQuantity now k q rs) k' = (if k' = k then map_option (\<lambda>_. q) (stock rs k) else stock rs k')"
proof -
  have "find (\<lambda>r. keyOf r = k') (setQuantity now k q rs)
      = map_option (\<lambda>r. if keyOf r = k then r\<lparr>iv_quantity := q, iv_updatedAt := now\<rparr> else r)
          (find (\<lambda>r. keyOf r = k') rs)"
    unfolding setQuantity_def by (rule find_updateMany) simp
  then show ?thesis
    by (cases "find (\<lambda>r. keyOf r = k') rs") (auto simp: stock_def dest: find_SomeD)
qed

lemma stock_append_new:
  "stock (rs @ [newStockRow now k q]) k' =
     (case stock rs k' of Some x \<Rightarrow> Some x | None \<Rightarrow> if k' = k then Some q else None)"
  by (auto simp: stock_def find_append newStockRow_def [of now k q] keyOf_def split: option.split)

lemma stock_upsertQuantity: "stock (upsertQuantity now k q rs) k' = (if k' = k then Some q else stock rs k')"
proof (cases "list_ex (\<lambda>r. keyOf r = k) rs")
  case True
  then have "stock rs k \<noteq> None" by (simp add: stock_None)
  with True show ?thesis by (auto simp: upsertQuantity_def stock_setQuantity)
next
  case False
  then have "stock rs k = None" by (simp add: stock_None)
  with False show ?thesis
    by (auto simp: upsertQuantity_def stock_append_new split: option.split)
qed

interpretation mirror_table: amount_store stock "upsertQuantity now"
  by unfold_locales (rule stock_upsertQuantity)

text \<open>The unique index of a stock table.\<close>

definition uniqueKeys :: "inventory_row list \<Rightarrow> bool" where
  "uniqueKeys rs \<longleftrightarrow> distinct (map keyOf rs)"

lemma map_keyOf_setQuantity [simp]: "map keyOf (setQuantity now k q rs) = map keyOf rs"
  by (simp add: setQuantity_def map_updateMany)

lemma uniqueKeys_upsert: "uniqueKeys rs \<Longrightarrow> uniqueKeys (upsertQuantity now k q rs)"
  by (auto simp: uniqueKeys_def upsertQuantity_def list_ex_iff)

text \<open>
  How the service writes a quantity (lines 70 to 84 of the adjustment, the destination branch of the
  transfer): an existing row is updated, a missing one created; both sync \<open>warehouse_inventory\<close>.
\<close>

definition writeStock :: "env \<Rightarrow> stock_key \<Rightarrow> bool \<Rightarrow> int \<Rightarrow> unit dbtx" where
  "writeStock env k exists q =
     (if exists then
        thenT (writeT (\<lambda>s. s\<lparr>inventory := setQuantity (env_now env) k q (inventory s)\<rparr>))
          (writeT (\<lambda>s. s\<lparr>warehouseInventory := upsertQuantity (env_now env) k q (warehouseInventory s)\<rparr>))
      else
        thenT (createStock (env_now env) k q)
          (writeT (\<lambda>s. s\<lparr>warehouseInventory := upsertQuantity (env_now env) k q (warehouseInventory s)\<rparr>)))"

definition putStock :: "int \<Rightarrow> stock_key \<Rightarrow> int \<Rightarrow> db \<Rightarrow> db" where
  "putStock now k q s = s\<lparr>inventory := upsertQuantity now k q (inventory s),
     warehouseInventory := upsertQuantity now k q (warehouseInventory s)\<rparr>"

lemma writeStock_putStock:
  "exists = (stock (inventory s) k \<noteq> None) \<Longrightarrow> writeStock env k exists q s = Inr ((), putStock (env_now env) k q s)"
  by (auto simp: writeStock_def putStock_def createStock_def monad_defs upsertQuantity_def stock_None)

interpretation stock_db: amount_store "\<lambda>s. stock (inventory s)" "putStock now"
  by unfold_locales (simp add: putStock_def stock_upsertQuantity)

section \<open>Retrying a transaction\<close>

text \<open>
  The wrapper around every stock transaction: at most \<open>maxRetries\<close> attempts, another one only after a
  serialization failure or a deadlock. \<open>faults i\<close> is the error the database reports for attempt \<open>i\<close>
  (the attempt is rolled back), if any; otherwise the transaction runs.
\<close>

definition isRetryable :: "error \<Rightarrow> bool" where
  "isRetryable err = (case err of
       DbError c meta msg \<Rightarrow> c = ''P2010'' \<or> meta = ''40001'' \<or> meta = ''40P01''
         \<or> strIncludes msg ''could not serialize'' \<or> strIncludes msg ''deadlock''
     | JsError msg \<Rightarrow> strIncludes msg ''could not serialize'' \<or> strIncludes msg ''deadlock''
     | _ \<Rightarrow> False)"

fun retryFrom :: "(nat \<Rightarrow> error option) \<Rightarrow> nat \<Rightarrow> nat \<Rightarrow> ('s, 'a) tx \<Rightarrow> ('s, 'a) io" where
  "retryFrom faults 0 attempt m = throwH (JsError ''Max retries exceeded'')"
| "retryFrom faults (Suc left) attempt m =
     catchH (case faults attempt of Some e \<Rightarrow> throwH e | None \<Rightarrow> transaction m)
       (\<lambda>err. if isRetryable err \<and> 0 < left then retryFrom faults left (Suc attempt) m else throwH err)"

definition execute :: "(nat \<Rightarrow> error option) \<Rightarrow> ('s, 'a) tx \<Rightarrow> ('s, 'a) io" where
  "execute faults m = retryFrom faults 3 0 m"

text \<open>Whatever the database reports, the transaction takes effect once or not at all.\<close>

lemma retryFrom_outcome:
  "retryFrom faults n a m s = (r, s') \<Longrightarrow>
     (case r of Inr x \<Rightarrow> m s = Inr (x, s') | Inl e \<Rightarrow> s' = s)"
proof (induction faults n a m arbitrary: r s' rule: retryFrom.induct)
  case (1 faults attempt m)
  then show ?case by (auto simp: throwH_def)
next
  case (2 faults left attempt m)
  show ?case
  proof (cases "faults attempt")
    case None
    then show ?thesis
      using 2 by (cases "m s") (auto simp: catchH_def transaction_def throwH_def split: if_splits)
  next
    case (Some e)
    then show ?thesis
      using 2 by (auto simp: catchH_def throwH_def split: if_splits)
  qed
qed

lemma execute_Inr: "execute faults m s = (Inr x, s') \<Longrightarrow> m s = Inr (x, s')"
  using retryFrom_outcome [of faults 3 0 m s "Inr x" s'] by (simp add: execute_def)

lemma execute_Inl: "execute faults m s = (Inl e, s') \<Longrightarrow> s' = s"
  using retryFrom_outcome [of faults 3 0 m s "Inl e" s'] by (simp add: execute_def)

lemma wpH_execute: "wpT m Q s \<Longrightarrow> (\<And>e. E e s) \<Longrightarrow> wpH (execute faults m) Q E s"
  unfolding wpH_def
  by (cases "execute faults m s"; cases "fst (execute faults m s)")
     (auto dest: execute_Inr execute_Inl wpT_D)

text \<open>The line after the loop is never reached: an error is the fault of some attempt or the transaction's own.\<close>

lemma retryFrom_error:
  "retryFrom faults (Suc n) a m s = (Inl e, s') \<Longrightarrow> (\<exists>i. a \<le> i \<and> i \<le> a + n \<and> faults i = Some e) \<or> m s = Inl e"
proof (induction n arbitrary: a)
  case 0
  then show ?case
    by (cases "faults a"; cases "m s") (auto simp: catchH_def throwH_def transaction_def)
next
  case (Suc n)
  have "retryFrom faults (Suc n) (Suc a) m s = (Inl e, s') \<or> faults a = Some e \<or> m s = Inl e"
    using Suc.prems
    by (cases "faults a"; cases "m s")
       (auto simp: catchH_def throwH_def transaction_def retryFrom.simps(2) [of _ "Suc n"]
          simp del: retryFrom.simps(2) split: if_splits)
  moreover have "\<exists>i. a \<le> i \<and> i \<le> a + Suc n \<and> faults i = Some e"
    if "\<exists>i. Suc a \<le> i \<and> i \<le> Suc a + n \<and> faults i = Some e"
    using that by (metis Suc_leD add_Suc_shift)
  ultimately show ?case using Suc.IH [of "Suc a"] by auto
qed

lemma retryFrom_commits:
  "i < n \<Longrightarrow> (\<And>j. j < i \<Longrightarrow> \<exists>e. faults (a + j) = Some e \<and> isRetryable e) \<Longrightarrow> faults (a + i) = None \<Longrightarrow>
     m s = Inr (x, s') \<Longrightarrow> retryFrom faults n a m s = (Inr x, s')"
proof (induction n arbitrary: i a)
  case 0
  then show ?case by simp
next
  case (Suc n)
  show ?case
  proof (cases i)
    case 0
    then show ?thesis using Suc.prems by (simp add: catchH_def transaction_def)
  next
    case (Suc k)
    from Suc.prems(2) [of 0] Suc obtain e where e: "faults a = Some e" "isRetryable e" by auto
    have "retryFrom faults n (Suc a) m s = (Inr x, s')"
    proof (rule Suc.IH [of k])
      show "k < n" using Suc.prems(1) Suc by simp
      show "\<exists>e. faults (Suc a + j) = Some e \<and> isRetryable e" if "j < k" for j
        using Suc.prems(2) [of "Suc j"] that Suc by simp
      show "faults (Suc a + k) = None" using Suc.prems(3) Suc by simp
      show "m s = Inr (x, s')" by (rule Suc.prems(4))
    qed
    with e show ?thesis using Suc.prems(1) Suc by (auto simp: catchH_def throwH_def)
  qed
qed

section \<open>Adjusting stock\<close>

definition LOW_STOCK_THRESHOLD :: int where
  "LOW_STOCK_THRESHOLD = 10"

definition findVariant :: "string \<Rightarrow> string \<Rightarrow> db \<Rightarrow> variant_row option" where
  "findVariant i tenantId s = find (\<lambda>v. va_id v = i \<and> va_tenantId v = tenantId) (variants s)"

definition findWarehouse :: "string \<Rightarrow> string \<Rightarrow> db \<Rightarrow> warehouse_row option" where
  "findWarehouse i tenantId s = find (\<lambda>w. wh_id w = i \<and> wh_tenantId w = tenantId) (warehouses s)"

text \<open>\<open>inventoryMovement.create\<close>: the row gets the next identifier.\<close>

definition createMovement :: "env \<Rightarrow> movement_row \<Rightarrow> movement_row dbtx" where
  "createMovement env m = bindT (freshId env) (\<lambda>i.
     thenT (writeT (\<lambda>s. s\<lparr>movements := movements s @ [m\<lparr>mv_id := i\<rparr>]\<rparr>)) (returnT (m\<lparr>mv_id := i\<rparr>)))"

definition lockInventory :: "stock_key \<Rightarrow> unit dbtx" where
  "lockInventory k = readT (\<lambda>_. ())"

record adjust_body =
  aj_variantId :: "string option"
  aj_productVariantId :: "string option"
  aj_warehouseId :: "string option"
  aj_quantityChanged :: int
  aj_reason :: "string option"
  aj_referenceType :: "string option"
  aj_referenceId :: "string option"

record adjust_result =
  ar_before :: int
  ar_after :: int
  ar_changed :: int
  ar_movement :: movement_row

definition orEmpty :: "string option \<Rightarrow> string" where
  "orEmpty x = (case x of None \<Rightarrow> [] | Some y \<Rightarrow> y)"

definition resolveVariantId :: "string option \<Rightarrow> string option \<Rightarrow> string" where
  "resolveVariantId variantId productVariantId = orEmpty (orElse variantId productVariantId)"

definition movementOf ::
  "stock_key \<Rightarrow> movement_type \<Rightarrow> int \<Rightarrow> int \<Rightarrow> int \<Rightarrow> string option \<Rightarrow> string option \<Rightarrow> string option
     \<Rightarrow> string option \<Rightarrow> movement_row" where
  "movementOf k ty before changed after reason refType refId userId =
     \<lparr>mv_id = [], mv_tenantId = fst k, mv_variantId = fst (snd k), mv_warehouseId = snd (snd k),
      mv_type = ty, mv_before = before, mv_changed = changed, mv_after = after,
      mv_reason = reason, mv_referenceType = refType, mv_referenceId = refId,
      mv_createdBy = userId\<rparr>"

definition adjustTx ::
  "env \<Rightarrow> stock_key \<Rightarrow> string option \<Rightarrow> int \<Rightarrow> string option \<Rightarrow> string option \<Rightarrow> string option
     \<Rightarrow> adjust_result dbtx" where
  "adjustTx env k userId quantityChanged reason referenceType referenceId =
     bindT (readT (\<lambda>s. stock (inventory s) k)) (\<lambda>locked.
       let before = (case locked of None \<Rightarrow> 0 | Some q \<Rightarrow> q);
           exists = (locked \<noteq> None);
           after = before + quantityChanged
       in thenT (throwIfT (after < 0) (AppError 409 ''INSUFFICIENT_STOCK''))
         (thenT (writeStock env k exists after)
         (bindT (createMovement env (movementOf k M_ADJUSTMENT before quantityChanged after reason
                   referenceType referenceId userId)) (\<lambda>movement.
          returnT \<lparr>ar_before = before, ar_after = after, ar_changed = quantityChanged,
                   ar_movement = movement\<rparr>))))"

definition lowStockPayload :: "stock_key \<Rightarrow> int \<Rightarrow> int \<Rightarrow> jsval" where
  "lowStockPayload k quantity before = JObj
     [(''productVariantId'', JStr (fst (snd k))), (''warehouseId'', JStr (snd (snd k))),
      (''quantity'', jsInt quantity), (''threshold'', jsInt LOW_STOCK_THRESHOLD),
      (''quantityBefore'', jsInt before)]"

definition warnLowStock :: "env \<Rightarrow> stock_key \<Rightarrow> int \<Rightarrow> int \<Rightarrow> unit dbio" where
  "warnLowStock env k after before =
     (if after \<le> LOW_STOCK_THRESHOLD
      then writeH (\<lambda>s. snd (emitInventoryLowStock env (fst k) (lowStockPayload k after before) s))
      else returnH ())"

definition adjust ::
  "env \<Rightarrow> (nat \<Rightarrow> error option) \<Rightarrow> string \<Rightarrow> string option \<Rightarrow> adjust_body \<Rightarrow> adjust_result dbio" where
  "adjust env faults tenantId userId body =
     (let variantId = resolveVariantId (aj_variantId body) (aj_productVariantId body);
          warehouseId = orEmpty (aj_warehouseId body);
          reason = orElse (aj_reason body) (Some ''ADJUSTMENT'');
          referenceType = orElse (aj_referenceType body) None;
          referenceId = orElse (aj_referenceId body) None;
          k = (tenantId, variantId, warehouseId)
      in thenH (throwIfH (variantId = [] \<or> warehouseId = []) (AppError 400 ''VALIDATION_ERROR''))
        (thenH (throwIfH (aj_quantityChanged body = 0) (AppError 400 ''INVALID_QUANTITY''))
        (bindH (readH (findVariant variantId tenantId)) (\<lambda>variant.
         bindH (orThrowH variant (AppError 404 ''VARIANT_NOT_FOUND'')) (\<lambda>_.
         bindH (readH (findWarehouse warehouseId tenantId)) (\<lambda>warehouse.
         bindH (orThrowH warehouse (AppError 404 ''WAREHOUSE_NOT_FOUND'')) (\<lambda>_.
         bindH (execute faults (adjustTx env k userId (aj_quantityChanged body) reason referenceType
                  referenceId)) (\<lambda>result.
         thenH (warnLowStock env k (ar_after result) (ar_before result)) (returnH result)))))))))"

section \<open>Transferring stock\<close>

record transfer_body =
  tr_variantId :: "string option"
  tr_productVariantId :: "string option"
  tr_sourceWarehouseId :: "string option"
  tr_warehouseId :: "string option"
  tr_destinationWarehouseId :: "string option"
  tr_destWarehouseId :: "string option"
  tr_quantity :: int
  tr_reason :: "string option"
  tr_referenceType :: "string option"
  tr_referenceId :: "string option"

record transfer_result =
  tf_sourceBefore :: int
  tf_sourceAfter :: int
  tf_destBefore :: int
  tf_destAfter :: int
  tf_sourceMovement :: movement_row
  tf_destMovement :: movement_row

text \<open>The order in which the two rows are locked: \<open>[source, destination].sort()\<close>.\<close>

definition transferLocks :: "string \<Rightarrow> string \<Rightarrow> string list" where
  "transferLocks source destination = sort [source, destination]"

definition transferReference :: "env \<Rightarrow> string option \<Rightarrow> string dbtx" where
  "transferReference env referenceId =
     (case orElse referenceId None of
        Some r \<Rightarrow> returnT r
      | None \<Rightarrow> bindT (freshId env) (\<lambda>u. returnT (show_int (env_now env) @ ''-'' @ u)))"

definition transferTx ::
  "env \<Rightarrow> string \<Rightarrow> string \<Rightarrow> string \<Rightarrow> string \<Rightarrow> string option \<Rightarrow> int \<Rightarrow> string option \<Rightarrow> string option
     \<Rightarrow> string option \<Rightarrow> transfer_result dbtx" where
  "transferTx env tenantId variantId sourceId destId userId quantity reason referenceType referenceId =
     (let sk = (tenantId, variantId, sourceId); dk = (tenantId, variantId, destId) in
      thenT (forT (transferLocks sourceId destId) (\<lambda>wid. lockInventory (tenantId, variantId, wid)))
      (bindT (readT (\<lambda>s. stock (inventory s) sk)) (\<lambda>sourceRow.
       bindT (readT (\<lambda>s. stock (inventory s) dk)) (\<lambda>destRow.
       let sourceBefore = (case sourceRow of None \<Rightarrow> 0 | Some q \<Rightarrow> q);
           destBefore = (case destRow of None \<Rightarrow> 0 | Some q \<Rightarrow> q);
           sourceAfter = sourceBefore - quantity;
           destAfter = destBefore + quantity
       in thenT (throwIfT (sourceBefore < quantity) (AppError 409 ''INSUFFICIENT_STOCK''))
         (thenT (if sourceRow \<noteq> None then writeStock env sk True sourceAfter
                 else createStock (env_now env) sk sourceAfter)
         (thenT (writeStock env dk (destRow \<noteq> None) destAfter)
         (bindT (transferReference env referenceId) (\<lambda>transferRefId.
          bindT (createMovement env (movementOf sk M_TRANSFER sourceBefore (- quantity) sourceAfter
                   reason referenceType (Some transferRefId) userId)) (\<lambda>sourceMovement.
          bindT (createMovement env (movementOf dk M_TRANSFER destBefore quantity destAfter
                   reason referenceType (Some transferRefId) userId)) (\<lambda>destMovement.
          returnT \<lparr>tf_sourceBefore = sourceBefore, tf_sourceAfter = sourceAfter,
                   tf_destBefore = destBefore, tf_destAfter = destAfter,
                   tf_sourceMovement = sourceMovement, tf_destMovement = destMovement\<rparr>))))))))))"

definition transfer ::
  "env \<Rightarrow> (nat \<Rightarrow> error option) \<Rightarrow> string \<Rightarrow> string option \<Rightarrow> transfer_body \<Rightarrow> transfer_result dbio" where
  "transfer env faults tenantId userId body =
     (let variantId = resolveVariantId (tr_variantId body) (tr_productVariantId body);
          sourceId = orEmpty (orElse (tr_sourceWarehouseId body) (tr_warehouseId body));
          destId = orEmpty (orElse (tr_destinationWarehouseId body) (tr_destWarehouseId body));
          quantity = tr_quantity body;
          reason = orElse (tr_reason body) (Some ''TRANSFER'');
          referenceType = orElse (tr_referenceType body) (Some ''TRANSFER'')
      in thenH (throwIfH (variantId = [] \<or> sourceId = [] \<or> destId = []) (AppError 400 ''VALIDATION_ERROR''))
        (thenH (throwIfH (sourceId = destId) (AppError 400 ''SAME_WAREHOUSE''))
        (thenH (throwIfH (quantity = 0 \<or> quantity \<le> 0) (AppError 400 ''INVALID_QUANTITY''))
        (bindH (readH (findVariant variantId tenantId)) (\<lambda>variant.
         bindH (orThrowH variant (AppError 404 ''VARIANT_NOT_FOUND'')) (\<lambda>_.
         bindH (readH (findWarehouse sourceId tenantId)) (\<lambda>source.
         bindH (orThrowH source (AppError 404 ''WAREHOUSE_NOT_FOUND'')) (\<lambda>_.
         bindH (readH (findWarehouse destId tenantId)) (\<lambda>dest.
         bindH (orThrowH dest (AppError 404 ''WAREHOUSE_NOT_FOUND'')) (\<lambda>_.
         bindH (execute faults (transferTx env tenantId variantId sourceId destId userId quantity
                  reason referenceType (tr_referenceId body))) (\<lambda>result.
         thenH (warnLowStock env (tenantId, variantId, sourceId) (tf_sourceAfter result)
                  (tf_sourceBefore result))
         (thenH (warnLowStock env (tenantId, variantId, destId) (tf_destAfter result)
                  (tf_destBefore result))
         (returnH result)))))))))))))"

section \<open>What the stock operations do\<close>

definition onHand :: "db \<Rightarrow> stock_key \<Rightarrow> int" where
  "onHand s k = (case stock (inventory s) k of None \<Rightarrow> 0 | Some q \<Rightarrow> q)"

lemma onHand_amount: "onHand s k = stock_db.amount s k"
  by (simp add: onHand_def stock_db.amount_def)

lemma onHand_putStock: "onHand (putStock now k q s) k' = (if k' = k then q else onHand s k')"
  unfolding onHand_amount by (rule stock_db.amount_store)

lemma onHand_frame [simp]:
  "onHand (s\<lparr>movements := ms\<rparr>) k = onHand s k" "onHand (s\<lparr>drawn := d\<rparr>) k = onHand s k"
  "onHand (s\<lparr>sent := e\<rparr>) k = onHand s k" "onHand (s\<lparr>auditLogs := a\<rparr>) k = onHand s k"
  "onHand (s\<lparr>activityLogs := b\<rparr>) k = onHand s k"
  by (simp_all add: onHand_def)

lemma createMovement_eq:
  "createMovement env m s = Inr (m\<lparr>mv_id := env_uuid env (drawn s)\<rparr>,
     s\<lparr>drawn := Suc (drawn s), movements := movements s @ [m\<lparr>mv_id := env_uuid env (drawn s)\<rparr>]\<rparr>)"
  by (simp add: createMovement_def freshId_def monad_defs)

lemma wpT_createMovement [wp]:
  "wpT (createMovement env m) Q = (\<lambda>s. Q (m\<lparr>mv_id := env_uuid env (drawn s)\<rparr>)
     (s\<lparr>drawn := Suc (drawn s), movements := movements s @ [m\<lparr>mv_id := env_uuid env (drawn s)\<rparr>]\<rparr>))"
  by (simp add: createMovement_def wp)

lemma wpT_writeStock:
  "exists = (stock (inventory s) k \<noteq> None) \<Longrightarrow>
     wpT (writeStock env k exists q) Q s = Q () (putStock (env_now env) k q s)"
  by (simp add: wpT_def writeStock_putStock)

lemma lockLoop: "forT xs (\<lambda>w. lockInventory (f w)) s = Inr ((), s)"
  by (induction xs) (simp_all add: lockInventory_def monad_defs)

lemma wpT_lockLoop [wp]: "wpT (forT xs (\<lambda>w. lockInventory (f w))) Q = Q ()"
  by (simp add: wpT_def lockLoop fun_eq_iff)

lemma drawn_putStock [simp]: "drawn (putStock now k q s) = drawn s"
  and movements_putStock [simp]: "movements (putStock now k q s) = movements s"
  by (simp_all add: putStock_def)

lemma adjustTx_eq:
  "adjustTx env k userId ch reason rt ri s =
     (let before = onHand s k; after = before + ch;
          m = (movementOf k M_ADJUSTMENT before ch after reason rt ri userId)\<lparr>mv_id := env_uuid env (drawn s)\<rparr>
      in if after < 0 then Inl (AppError 409 ''INSUFFICIENT_STOCK'')
         else Inr (\<lparr>ar_before = before, ar_after = after, ar_changed = ch, ar_movement = m\<rparr>,
           (putStock (env_now env) k after s)\<lparr>drawn := Suc (drawn s), movements := movements s @ [m]\<rparr>))"
  by (simp add: adjustTx_def onHand_def Let_def bindT_def thenT_def readT_def throwIfT_def throwT_def
        returnT_def writeStock_putStock createMovement_eq split: option.split)

text \<open>Emitting the low-stock warning only adds messages.\<close>

lemma warnLowStock_outcome:
  "warnLowStock env k a b s = (Inr u, s') \<Longrightarrow> \<exists>ms. s' = s\<lparr>sent := sent s @ ms\<rparr>"
  "warnLowStock env k a b s \<noteq> (Inl e, s')"
  using emitters_frame(3) [of env "fst k" "lowStockPayload k a b" s] sent_self [of s, symmetric]
  by (auto simp: warnLowStock_def outcome intro: exI [of _ "[]"] split: if_splits)

lemma adjust_Inr:
  assumes "adjust env faults t u body s = (Inr r, s')"
  defines "k \<equiv> (t, resolveVariantId (aj_variantId body) (aj_productVariantId body), orEmpty (aj_warehouseId body))"
  obtains s1 reason rt ri ms where "adjustTx env k u (aj_quantityChanged body) reason rt ri s = Inr (r, s1)"
    and "s' = s1\<lparr>sent := sent s1 @ ms\<rparr>"
  using assms by (auto simp: adjust_def Let_def outcome dest!: execute_Inr warnLowStock_outcome(1))

lemma adjust_Inl: "adjust env faults t u body s = (Inl e, s') \<Longrightarrow> s' = s"
  by (auto simp: adjust_def Let_def outcome warnLowStock_outcome(2) dest: execute_Inl)

text \<open>The transfer, once the guards of the handler hold, is a move of the keyed store.\<close>

lemma transferReference_eq:
  "transferReference env ri s = Inr
     (case orElse ri None of Some r \<Rightarrow> r | None \<Rightarrow> show_int (env_now env) @ ''-'' @ env_uuid env (drawn s),
      s\<lparr>drawn := (case orElse ri None of Some r \<Rightarrow> drawn s | None \<Rightarrow> Suc (drawn s))\<rparr>)"
  by (simp add: transferReference_def freshId_def monad_defs split: option.split)

definition transferMoves ::
  "stock_key \<Rightarrow> stock_key \<Rightarrow> int \<Rightarrow> int \<Rightarrow> int \<Rightarrow> string option \<Rightarrow> string option \<Rightarrow> string \<Rightarrow> string option
     \<Rightarrow> string \<Rightarrow> string \<Rightarrow> movement_row \<times> movement_row" where
  "transferMoves sk dk b b' q reason rt ref u i j =
     ((movementOf sk M_TRANSFER b (- q) (b - q) reason rt (Some ref) u)\<lparr>mv_id := i\<rparr>,
      (movementOf dk M_TRANSFER b' q (b' + q) reason rt (Some ref) u)\<lparr>mv_id := j\<rparr>)"

lemma transferTx_Inr:
  assumes run: "transferTx env t v src dst u q reason rt ri s = Inr (r, s')" and "src \<noteq> dst" and q: "0 < q"
  defines "sk \<equiv> (t, v, src)" and "dk \<equiv> (t, v, dst)"
  obtains ref d i j m m' where "q \<le> onHand s sk"
    and "r = \<lparr>tf_sourceBefore = onHand s sk, tf_sourceAfter = onHand s sk - q,
           tf_destBefore = onHand s dk, tf_destAfter = onHand s dk + q,
           tf_sourceMovement = m, tf_destMovement = m'\<rparr>"
    and "(m, m') = transferMoves sk dk (onHand s sk) (onHand s dk) q reason rt ref u i j"
    and "s' = (putStock (env_now env) dk (onHand s dk + q)
          (putStock (env_now env) sk (onHand s sk - q) s))\<lparr>drawn := d, movements := movements s @ [m, m']\<rparr>"
proof -
  have ne: "sk \<noteq> dk" using assms(2) by (simp add: sk_def dk_def)
  have le: "q \<le> onHand s sk"
  proof (rule ccontr)
    assume "\<not> q \<le> onHand s sk"
    then have "transferTx env t v src dst u q reason rt ri s = Inl (AppError 409 ''INSUFFICIENT_STOCK'')"
      unfolding transferTx_def Let_def sk_def [symmetric]
      by (simp only: bindT_def thenT_def readT_def throwIfT_def throwT_def lockLoop sum.case prod.case
            onHand_def [of s sk, symmetric] if_True not_le)
    with run show False by simp
  qed
  let ?s1 = "putStock (env_now env) sk (onHand s sk - q) s"
  let ?s2 = "putStock (env_now env) dk (onHand s dk + q) ?s1"
  have src: "stock (inventory s) sk = Some (onHand s sk)"
    using le q by (auto simp: onHand_def split: option.splits)
  have not_less_le: "(onHand s sk < q) = False" using le by simp
  have w1: "writeStock env sk True (onHand s sk - q) s = Inr ((), ?s1)"
    by (rule writeStock_putStock) (simp add: src)
  have w2: "writeStock env dk (stock (inventory s) dk \<noteq> None) (onHand s dk + q) ?s1 = Inr ((), ?s2)"
    by (rule writeStock_putStock) (use ne in \<open>simp add: putStock_def stock_upsertQuantity\<close>)
  define ref where "ref = (case orElse ri None of Some r \<Rightarrow> r
     | None \<Rightarrow> show_int (env_now env) @ ''-'' @ env_uuid env (drawn s))"
  define d0 where "d0 = (case orElse ri None of Some r \<Rightarrow> drawn s | None \<Rightarrow> Suc (drawn s))"
  define mm where "mm = transferMoves sk dk (onHand s sk) (onHand s dk) q reason rt ref u
     (env_uuid env d0) (env_uuid env (Suc d0))"
  have tr: "transferReference env ri ?s2 = Inr (ref, ?s2\<lparr>drawn := d0\<rparr>)"
    by (simp add: transferReference_eq ref_def d0_def split: option.split)
  have rest: "transferTx env t v src dst u q reason rt ri s
     = Inr (\<lparr>tf_sourceBefore = onHand s sk, tf_sourceAfter = onHand s sk - q,
           tf_destBefore = onHand s dk, tf_destAfter = onHand s dk + q,
           tf_sourceMovement = fst mm, tf_destMovement = snd mm\<rparr>,
        ?s2\<lparr>drawn := Suc (Suc d0), movements := movements s @ [fst mm, snd mm]\<rparr>)"
    unfolding transferTx_def Let_def sk_def [symmetric] dk_def [symmetric]
    by (simp only: bindT_def thenT_def readT_def throwIfT_def returnT_def lockLoop sum.case prod.case
          src option.case onHand_def [of s dk, symmetric] if_False option.distinct if_True
          not_less_le not_False_eq_True w1 w2 tr createMovement_eq mm_def transferMoves_def fst_conv snd_conv)
       simp
  show thesis
    by (rule that [of "fst mm" "snd mm" ref "env_uuid env d0" "env_uuid env (Suc d0)" "Suc (Suc d0)"])
       (use rest run le in \<open>simp_all add: mm_def\<close>)
qed

lemma transfer_Inr:
  assumes "transfer env faults t u body s = (Inr r, s')"
  defines "v \<equiv> resolveVariantId (tr_variantId body) (tr_productVariantId body)"
    and "src \<equiv> orEmpty (orElse (tr_sourceWarehouseId body) (tr_warehouseId body))"
    and "dst \<equiv> orEmpty (orElse (tr_destinationWarehouseId body) (tr_destWarehouseId body))"
  obtains s1 ms reason rt where "transferTx env t v src dst u (tr_quantity body) reason rt (tr_referenceId body) s = Inr (r, s1)"
    and "s' = s1\<lparr>sent := sent s1 @ ms\<rparr>" and "src \<noteq> dst" and "0 < tr_quantity body"
  using assms
  by (auto simp: transfer_def Let_def outcome dest!: execute_Inr warnLowStock_outcome(1))

lemma transfer_Inl: "transfer env faults t u body s = (Inl e, s') \<Longrightarrow> s' = s"
  by (auto simp: transfer_def Let_def outcome warnLowStock_outcome(2) dest: execute_Inl)

section \<open>The stock invariant\<close>

text \<open>
  One row per key in both stock tables, no negative quantity, the two tables agree, every movement
  adds up, and the quantity of a key is the sum of its movements (the ledger).
\<close>

definition mvKey :: "movement_row \<Rightarrow> stock_key" where
  "mvKey m = (mv_tenantId m, mv_variantId m, mv_warehouseId m)"

definition movementOk :: "movement_row \<Rightarrow> bool" where
  "movementOk m \<longleftrightarrow> mv_after m = mv_before m + mv_changed m \<and> 0 \<le> mv_before m \<and> 0 \<le> mv_after m"

definition ledger :: "movement_row list \<Rightarrow> stock_key \<Rightarrow> int" where
  "ledger ms k = sum_list (map mv_changed (filter (\<lambda>m. mvKey m = k) ms))"

definition inventoryInv :: "db \<Rightarrow> bool" where
  "inventoryInv s \<longleftrightarrow>
     uniqueKeys (inventory s) \<and> uniqueKeys (warehouseInventory s)
     \<and> list_all (\<lambda>r. 0 \<le> iv_quantity r) (inventory s)
     \<and> stock (warehouseInventory s) = stock (inventory s)
     \<and> list_all movementOk (movements s) \<and> ledger (movements s) = onHand s"

lemma ledger_append [simp]: "ledger (ms @ ns) k = ledger ms k + ledger ns k"
  by (simp add: ledger_def)

lemma ledger_single [simp]: "ledger [m] k = (if mvKey m = k then mv_changed m else 0)"
  by (simp add: ledger_def)

lemma mvKey_movementOf [simp]: "mvKey ((movementOf k ty b c a r rt ri u)\<lparr>mv_id := i\<rparr>) = k"
  by (simp add: mvKey_def movementOf_def)

lemma movementOf_fields [simp]:
  "mv_changed ((movementOf k ty b c a r rt ri u)\<lparr>mv_id := i\<rparr>) = c"
  "mv_before ((movementOf k ty b c a r rt ri u)\<lparr>mv_id := i\<rparr>) = b"
  "mv_after ((movementOf k ty b c a r rt ri u)\<lparr>mv_id := i\<rparr>) = a"
  "mv_type ((movementOf k ty b c a r rt ri u)\<lparr>mv_id := i\<rparr>) = ty"
  by (simp_all add: movementOf_def)

lemma nonneg_upsert:
  "list_all (\<lambda>r. 0 \<le> iv_quantity r) rs \<Longrightarrow> 0 \<le> q \<Longrightarrow> list_all (\<lambda>r. 0 \<le> iv_quantity r) (upsertQuantity now k q rs)"
  by (auto simp: upsertQuantity_def setQuantity_def set_updateMany list_all_iff newStockRow_def)

lemma onHand_nonneg: "inventoryInv s \<Longrightarrow> 0 \<le> onHand s k"
  by (auto simp: inventoryInv_def onHand_def stock_def list_all_iff dest: find_SomeD split: option.split)

lemma inventoryInv_frame [simp]:
  "inventoryInv (s\<lparr>sent := e\<rparr>) = inventoryInv s" "inventoryInv (s\<lparr>drawn := d\<rparr>) = inventoryInv s"
  by (simp_all add: inventoryInv_def onHand_def fun_eq_iff)

lemma inventoryInv_putStock:
  assumes inv: "inventoryInv s" and q: "0 \<le> q"
    and m: "mvKey m = k" "mv_changed m = q - onHand s k" "movementOk m"
  shows "inventoryInv ((putStock now k q s)\<lparr>movements := movements s @ [m]\<rparr>)"
proof -
  have "ledger (movements s @ [m]) k' = onHand (putStock now k q s) k'" for k'
    using inv m by (simp add: inventoryInv_def onHand_putStock)
  then show ?thesis
    using inv q m
    by (simp add: inventoryInv_def fun_eq_iff)
       (simp add: putStock_def uniqueKeys_upsert nonneg_upsert stock_upsertQuantity)
qed

lemma inventoryInv_putStock_drawn:
  "inventoryInv s \<Longrightarrow> 0 \<le> q \<Longrightarrow> mvKey m = k \<Longrightarrow> mv_changed m = q - onHand s k \<Longrightarrow> movementOk m \<Longrightarrow>
     inventoryInv ((putStock now k q s)\<lparr>drawn := d, movements := movements s @ [m]\<rparr>)"
  using inventoryInv_putStock [of s q m k now] inventoryInv_frame(2) [where d = d] by fastforce

lemma putStock_pair:
  "(putStock now k' q' (putStock now k q s))\<lparr>drawn := d, movements := movements s @ [m, m']\<rparr>
     = (let s1 = (putStock now k q s)\<lparr>movements := movements s @ [m]\<rparr> in
        (putStock now k' q' s1)\<lparr>movements := movements s1 @ [m']\<rparr>)\<lparr>drawn := d\<rparr>"
  by (simp add: putStock_def Let_def)

lemma adjust_keeps: "keepsH inventoryInv (adjust env faults t u body)"
  unfolding keepsH_def
proof (intro allI impI)
  fix s
  assume inv: "inventoryInv s"
  obtain r s' where res: "adjust env faults t u body s = (r, s')" by force
  show "inventoryInv (snd (adjust env faults t u body s))"
  proof (cases r)
    case (Inl e)
    then show ?thesis using res inv by (auto dest: adjust_Inl)
  next
    case (Inr x)
    let ?k = "(t, resolveVariantId (aj_variantId body) (aj_productVariantId body), orEmpty (aj_warehouseId body))"
    obtain s1 reason rt ri ms where tx: "adjustTx env ?k u (aj_quantityChanged body) reason rt ri s = Inr (x, s1)"
      and s': "s' = s1\<lparr>sent := sent s1 @ ms\<rparr>"
      by (rule adjust_Inr [OF res [unfolded Inr]])
    have "inventoryInv s1"
      using tx inv onHand_nonneg [OF inv, of ?k]
      by (auto simp: adjustTx_eq Let_def movementOk_def inventoryInv_putStock_drawn split: if_splits)
    then show ?thesis using res s' by simp
  qed
qed

lemma transfer_state_inv:
  assumes inv: "inventoryInv s" and le: "q \<le> onHand s sk" and q: "0 < q" and ne: "sk \<noteq> dk"
    and ms: "(m, m') = transferMoves sk dk (onHand s sk) (onHand s dk) q reason rt ref u i j"
  shows "inventoryInv ((putStock now dk (onHand s dk + q) (putStock now sk (onHand s sk - q) s))
     \<lparr>drawn := d, movements := movements s @ [m, m']\<rparr>)"
proof -
  let ?s1 = "(putStock now sk (onHand s sk - q) s)\<lparr>movements := movements s @ [m]\<rparr>"
  have m: "mvKey m = sk" "mv_changed m = onHand s sk - q - onHand s sk" "movementOk m"
    and m': "mvKey m' = dk" "mv_changed m' = onHand s dk + q - onHand ?s1 dk" "movementOk m'"
    using ms le q ne onHand_nonneg [OF inv, of sk] onHand_nonneg [OF inv, of dk]
    by (simp_all add: transferMoves_def movementOk_def onHand_putStock)
  have "inventoryInv ?s1"
    by (rule inventoryInv_putStock) (use inv le m in simp_all)
  then have "inventoryInv ((putStock now dk (onHand s dk + q) ?s1)\<lparr>movements := movements ?s1 @ [m']\<rparr>)"
    by (rule inventoryInv_putStock) (use q m' onHand_nonneg [OF inv, of dk] in simp_all)
  then show ?thesis by (simp only: putStock_pair Let_def inventoryInv_frame)
qed

lemma transfer_keeps: "keepsH inventoryInv (transfer env faults t u body)"
  unfolding keepsH_def
proof (intro allI impI)
  fix s
  assume inv: "inventoryInv s"
  obtain r s' where res: "transfer env faults t u body s = (r, s')" by force
  show "inventoryInv (snd (transfer env faults t u body s))"
  proof (cases r)
    case (Inl e)
    then show ?thesis using res inv by (auto dest: transfer_Inl)
  next
    case (Inr x)
    let ?v = "resolveVariantId (tr_variantId body) (tr_productVariantId body)"
    let ?src = "orEmpty (orElse (tr_sourceWarehouseId body) (tr_warehouseId body))"
    let ?dst = "orEmpty (orElse (tr_destinationWarehouseId body) (tr_destWarehouseId body))"
    let ?q = "tr_quantity body"
    let ?sk = "(t, ?v, ?src)" and ?dk = "(t, ?v, ?dst)"
    obtain s1 ms reason rt where tx: "transferTx env t ?v ?src ?dst u ?q reason rt (tr_referenceId body) s = Inr (x, s1)"
      and s': "s' = s1\<lparr>sent := sent s1 @ ms\<rparr>" and ne: "?src \<noteq> ?dst" and q: "0 < ?q"
      by (rule transfer_Inr [OF res [unfolded Inr]])
    obtain ref d i j m m' where le: "?q \<le> onHand s ?sk"
      and ms: "(m, m') = transferMoves ?sk ?dk (onHand s ?sk) (onHand s ?dk) ?q reason rt ref u i j"
      and s1: "s1 = (putStock (env_now env) ?dk (onHand s ?dk + ?q)
          (putStock (env_now env) ?sk (onHand s ?sk - ?q) s))\<lparr>drawn := d, movements := movements s @ [m, m']\<rparr>"
      by (rule transferTx_Inr [OF tx ne q]) blast
    have "inventoryInv s1"
      unfolding s1 by (rule transfer_state_inv) (use inv le q ms ne in simp_all)
    then show ?thesis using res s' by simp
  qed
qed

section \<open>Properties\<close>

text \<open>Retrying a transaction. Whatever errors the database reports for the attempts, the stock
  transaction takes effect exactly once when the caller sees a result, and not at all when the caller
  sees an error; the error is one the database reported for one of the three attempts or the
  transaction's own, never "Max retries exceeded".\<close>

theorem execute_atomic:
  "execute faults m s = (r, s') \<Longrightarrow>
     (case r of Inr x \<Rightarrow> m s = Inr (x, s')
      | Inl e \<Rightarrow> s' = s \<and> ((\<exists>i < 3. faults i = Some e) \<or> m s = Inl e))"
proof -
  assume run: "execute faults m s = (r, s')"
  show ?thesis
  proof (cases r)
    case (Inl e)
    have "retryFrom faults (Suc 2) 0 m s = (Inl e, s')"
      using run Inl by (simp only: execute_def numeral_3_eq_3 numeral_2_eq_2)
    then have "(\<exists>i < 3. faults i = Some e) \<or> m s = Inl e"
      using retryFrom_error [of faults 2 0 m s e s'] by (auto simp: eval_nat_numeral less_Suc_eq_le simp del: retryFrom.simps)
    then show ?thesis using run Inl by (auto dest: execute_Inl)
  next
    case (Inr x)
    then show ?thesis using run by (auto dest: execute_Inr)
  qed
qed

lemma execute_atomic_witness:
  "case fst (execute (\<lambda>i. if i = 0 then Some (DbError ''P2034'' ''40001'' []) else None) (writeT Suc) 4) of
     Inr x \<Rightarrow> writeT Suc 4 = Inr (x, snd (execute (\<lambda>i. if i = 0 then Some (DbError ''P2034'' ''40001'' []) else None) (writeT Suc) (4::nat)))
   | Inl e \<Rightarrow> False"
proof -
  let ?f = "\<lambda>i::nat. if i = 0 then Some (DbError ''P2034'' ''40001'' []) else None"
  have "execute ?f (writeT Suc) 4 = (Inr (), 5)"
    by (simp add: execute_def numeral_3_eq_3 catchH_def throwH_def isRetryable_def transaction_def writeT_def)
  with execute_atomic [OF this] show ?thesis by simp
qed

text \<open>An adjustment that succeeds adds its change to the quantity of its key and to no other, never
  takes it below zero, reports the quantities before and after, and appends one movement that records
  both.\<close>

theorem adjust_effect:
  assumes "adjust env faults t u body s = (Inr r, s')"
    and "k = (t, resolveVariantId (aj_variantId body) (aj_productVariantId body), orEmpty (aj_warehouseId body))"
  shows "onHand s' = (onHand s)(k := onHand s k + aj_quantityChanged body)
    \<and> 0 \<le> onHand s' k \<and> ar_before r = onHand s k \<and> ar_after r = onHand s' k
    \<and> (\<exists>m. movements s' = movements s @ [m] \<and> mvKey m = k \<and> mv_type m = M_ADJUSTMENT
         \<and> mv_before m = onHand s k \<and> mv_changed m = aj_quantityChanged body \<and> mv_after m = onHand s' k)"
proof -
  obtain s1 reason rt ri ms where tx: "adjustTx env k u (aj_quantityChanged body) reason rt ri s = Inr (r, s1)"
    and s': "s' = s1\<lparr>sent := sent s1 @ ms\<rparr>"
    using assms(2) by (auto intro: adjust_Inr [OF assms(1)])
  let ?q = "onHand s k + aj_quantityChanged body"
  from tx have q: "0 \<le> ?q" and r: "ar_before r = onHand s k" "ar_after r = ?q"
    and s1: "s1 = (putStock (env_now env) k ?q s)\<lparr>drawn := Suc (drawn s), movements := movements s @
      [(movementOf k M_ADJUSTMENT (onHand s k) (aj_quantityChanged body) ?q reason rt ri u)\<lparr>mv_id := env_uuid env (drawn s)\<rparr>]\<rparr>"
    by (auto simp: adjustTx_eq Let_def split: if_splits)
  have "onHand s' = (onHand s)(k := ?q)"
    by (simp add: s' s1 onHand_putStock fun_eq_iff)
  then show ?thesis
    using q r by (simp add: s' s1 onHand_putStock)
qed

lemma adjust_effect_witness:
  "\<exists>r s'. adjust demoEnv (\<lambda>_. None) ''t'' (Some ''u'')
      \<lparr>aj_variantId = Some ''v'', aj_productVariantId = None, aj_warehouseId = Some ''w1'',
       aj_quantityChanged = -4, aj_reason = None, aj_referenceType = None, aj_referenceId = None\<rparr> demoDb = (Inr r, s')
    \<and> onHand s' (''t'', ''v'', ''w1'') = 16"
proof -
  let ?b = "\<lparr>aj_variantId = Some ''v'', aj_productVariantId = None, aj_warehouseId = Some ''w1'',
       aj_quantityChanged = -4, aj_reason = None, aj_referenceType = None, aj_referenceId = None\<rparr>"
  have "succeeded (adjust demoEnv (\<lambda>_. None) ''t'' (Some ''u'') ?b demoDb)"
    by code_simp
  then obtain r s' where run: "adjust demoEnv (\<lambda>_. None) ''t'' (Some ''u'') ?b demoDb = (Inr r, s')"
    by (rule succeededE)
  have "onHand demoDb (''t'', ''v'', ''w1'') = 20" by code_simp
  with adjust_effect [OF run refl] run show ?thesis
    by (simp add: resolveVariantId_def orEmpty_def orElse_def)
qed

text \<open>A transfer that succeeds takes its quantity, which is positive and no more than what the source
  holds, from the source and gives it to the destination, so the total over any set of locations with
  both is unchanged; it appends two movements with opposite changes and the same reference.\<close>

theorem transfer_conserves:
  assumes "transfer env faults t u body s = (Inr r, s')"
    and "v = resolveVariantId (tr_variantId body) (tr_productVariantId body)"
    and "a = (t, v, orEmpty (orElse (tr_sourceWarehouseId body) (tr_warehouseId body)))"
    and "b = (t, v, orEmpty (orElse (tr_destinationWarehouseId body) (tr_destWarehouseId body)))"
  shows "a \<noteq> b \<and> 0 < tr_quantity body \<and> tr_quantity body \<le> onHand s a
    \<and> onHand s' = (onHand s)(a := onHand s a - tr_quantity body, b := onHand s b + tr_quantity body)
    \<and> (finite K \<longrightarrow> a \<in> K \<longrightarrow> b \<in> K \<longrightarrow> (\<Sum>k\<in>K. onHand s' k) = (\<Sum>k\<in>K. onHand s k))
    \<and> (\<exists>m m'. movements s' = movements s @ [m, m'] \<and> mvKey m = a \<and> mvKey m' = b
         \<and> mv_changed m + mv_changed m' = 0 \<and> mv_referenceId m = mv_referenceId m')"
proof -
  let ?q = "tr_quantity body"
  obtain s1 ms reason rt src dst where tx: "transferTx env t v src dst u ?q reason rt (tr_referenceId body) s = Inr (r, s1)"
      and s': "s' = s1\<lparr>sent := sent s1 @ ms\<rparr>" and ne: "src \<noteq> dst" and q: "0 < ?q"
      and ab: "a = (t, v, src)" "b = (t, v, dst)"
    using assms(2-4) by (auto intro: transfer_Inr [OF assms(1)])
  obtain ref d i j m m' where le: "?q \<le> onHand s a"
      and ms: "(m, m') = transferMoves a b (onHand s a) (onHand s b) ?q reason rt ref u i j"
      and s1: "s1 = (putStock (env_now env) b (onHand s b + ?q)
          (putStock (env_now env) a (onHand s a - ?q) s))\<lparr>drawn := d, movements := movements s @ [m, m']\<rparr>"
    unfolding ab by (rule transferTx_Inr [OF tx ne q]) blast
  have anb: "a \<noteq> b" using ne ab by simp
  have mv: "putStock (env_now env) b (onHand s b + ?q) (putStock (env_now env) a (onHand s a - ?q) s)
      = stock_db.move (env_now env) a b ?q s"
    by (simp add: stock_db.move_def onHand_amount)
  have oh: "onHand s' k = stock_db.amount (stock_db.move (env_now env) a b ?q s) k" for k
    by (simp add: s' s1 mv onHand_amount [symmetric])
  have "finite K \<Longrightarrow> a \<in> K \<Longrightarrow> b \<in> K \<Longrightarrow> (\<Sum>k\<in>K. onHand s' k) = (\<Sum>k\<in>K. onHand s k)"
    using stock_db.move_conserves [OF anb, of K "env_now env" ?q s] by (simp only: oh) (simp only: onHand_amount)
  moreover have "onHand s' = (onHand s)(a := onHand s a - ?q, b := onHand s b + ?q)"
    by (rule ext, simp only: oh stock_db.amount_move [OF anb]) (use anb in \<open>simp add: onHand_amount\<close>)
  moreover have "mvKey m = a \<and> mvKey m' = b \<and> mv_changed m + mv_changed m' = 0 \<and> mv_referenceId m = mv_referenceId m'"
    using ms by (simp add: transferMoves_def) (simp add: movementOf_def)
  moreover have "movements s' = movements s @ [m, m']" by (simp add: s' s1)
  ultimately show ?thesis using anb q le by blast
qed

lemma transfer_conserves_witness:
  "\<exists>r s'. transfer demoEnv (\<lambda>_. None) ''t'' None
      \<lparr>tr_variantId = Some ''v'', tr_productVariantId = None, tr_sourceWarehouseId = Some ''w1'',
       tr_warehouseId = None, tr_destinationWarehouseId = Some ''w2'', tr_destWarehouseId = None,
       tr_quantity = 15, tr_reason = None, tr_referenceType = None, tr_referenceId = None\<rparr> demoDb = (Inr r, s')
    \<and> onHand s' (''t'', ''v'', ''w1'') = 5"
proof -
  let ?b = "\<lparr>tr_variantId = Some ''v'', tr_productVariantId = None, tr_sourceWarehouseId = Some ''w1'',
       tr_warehouseId = None, tr_destinationWarehouseId = Some ''w2'', tr_destWarehouseId = None,
       tr_quantity = 15, tr_reason = None, tr_referenceType = None, tr_referenceId = None\<rparr>"
  have "succeeded (transfer demoEnv (\<lambda>_. None) ''t'' None ?b demoDb)"
    by code_simp
  then obtain r s' where run: "transfer demoEnv (\<lambda>_. None) ''t'' None ?b demoDb = (Inr r, s')"
    by (rule succeededE)
  have "onHand demoDb (''t'', ''v'', ''w1'') = 20" by code_simp
  with transfer_conserves [OF run refl refl refl] run show ?thesis
    by (simp add: resolveVariantId_def orEmpty_def orElse_def)
qed

text \<open>C7: the stock invariant (unique rows, no negative quantity, both stock tables equal, quantities equal
  to the sum of their movements) survives every adjustment and transfer, whether it succeeds or
  throws, under any sequence of database faults; and a call that throws changes nothing.\<close>

theorem stock_operations_keep_invariant:
  "keepsH inventoryInv (adjust env faults t u body) \<and> keepsH inventoryInv (transfer env faults t u body')
   \<and> (adjust env faults t u body s = (Inl e, s') \<longrightarrow> s' = s)
   \<and> (transfer env faults t u body' s = (Inl e, s') \<longrightarrow> s' = s)"
  by (intro conjI impI; (rule adjust_keeps transfer_keeps | erule adjust_Inl | erule transfer_Inl))

lemma stock_operations_keep_invariant_witness:
  "inventoryInv (snd (adjust demoEnv (\<lambda>_. None) ''t'' None
      \<lparr>aj_variantId = Some ''v'', aj_productVariantId = None, aj_warehouseId = Some ''w1'', aj_quantityChanged = 4,
       aj_reason = None, aj_referenceType = None, aj_referenceId = None\<rparr>
      (demoDb\<lparr>inventory := [], warehouseInventory := []\<rparr>)))
   \<and> succeeded (adjust demoEnv (\<lambda>_. None) ''t'' None
      \<lparr>aj_variantId = Some ''v'', aj_productVariantId = None, aj_warehouseId = Some ''w1'', aj_quantityChanged = 4,
       aj_reason = None, aj_referenceType = None, aj_referenceId = None\<rparr>
      (demoDb\<lparr>inventory := [], warehouseInventory := []\<rparr>))"
proof -
  let ?b = "\<lparr>aj_variantId = Some ''v'', aj_productVariantId = None, aj_warehouseId = Some ''w1'', aj_quantityChanged = 4,
       aj_reason = None, aj_referenceType = None, aj_referenceId = None\<rparr>"
  let ?s = "demoDb\<lparr>inventory := [], warehouseInventory := []\<rparr>"
  have inv: "inventoryInv ?s"
    by (simp add: inventoryInv_def demoDb_def emptyDb_def uniqueKeys_def ledger_def onHand_def stock_def fun_eq_iff)
  have ok: "succeeded (adjust demoEnv (\<lambda>_. None) ''t'' None ?b ?s)" by code_simp
  note keep = stock_operations_keep_invariant [of demoEnv "\<lambda>_. None" "''t''" None ?b undefined ?s]
  have "keepsH inventoryInv (adjust demoEnv (\<lambda>_. None) ''t'' None ?b)" by (rule keep [THEN conjunct1])
  then show ?thesis using inv ok by (simp only: keepsH_def simp_thms)
qed

end
