(* ===== verification/Plans.thy ===== *)
theory Plans
  imports AuditLog
begin

text \<open>
  Subscription plans: src/src/modules/plans/plans.service.js. The limits of a plan are a JSON object
  whose values the request validators keep to integers and \<open>null\<close>; an absent or \<open>null\<close> limit means
  unlimited.
\<close>

section \<open>Limits\<close>

definition LIMIT_KEYS :: "string list" where
  "LIMIT_KEYS = [''users'', ''products'', ''warehouses'', ''ordersPerMonth'']"

definition RESERVED_PLAN :: string where
  "RESERVED_PLAN = ''platform''"

record plan_view =
  pv_code :: string
  pv_name :: string
  pv_description :: "string option"
  pv_limits :: "(string \<times> jsval) list"
  pv_isActive :: bool

definition toPlan :: "plan_row \<Rightarrow> plan_view" where
  "toPlan p = \<lparr>pv_code = pl_code p, pv_name = pl_name p, pv_description = pl_description p,
     pv_limits = map (\<lambda>key. (key, jsNullish (jget key (pl_limits p)) JNull)) LIMIT_KEYS,
     pv_isActive = pl_isActive p\<rparr>"

definition findPlan :: "string \<Rightarrow> db \<Rightarrow> plan_row option" where
  "findPlan code s = find (\<lambda>p. pl_code p = code) (plans s)"

definition assertAssignablePlan :: "string option \<Rightarrow> unit dbio" where
  "assertAssignablePlan code = (case code of
       None \<Rightarrow> returnH ()
     | Some c \<Rightarrow>
         thenH (throwIfH (c = RESERVED_PLAN) (AppError 400 ''PLAN_RESERVED''))
        (bindH (readH (findPlan c)) (\<lambda>plan.
         bindH (orThrowH plan (AppError 400 ''PLAN_NOT_FOUND'')) (\<lambda>p.
         throwIfH (\<not> pl_isActive p) (AppError 400 ''PLAN_INACTIVE'')))))"

text \<open>The first day of the current UTC month, in milliseconds.\<close>

definition dayOfMonth0 :: "int \<Rightarrow> int" where
  "dayOfMonth0 days =
     (let doe = (days + 719468) mod 146097;
          yoe = (doe - doe div 1460 + doe div 36524 - doe div 146096) div 365;
          doy = doe - (365 * yoe + yoe div 4 - yoe div 100)
      in doy - (153 * marchMonth days + 2) div 5)"

definition startOfMonthUtc :: "env \<Rightarrow> int" where
  "startOfMonthUtc env =
     (let day = env_now env div 86400000 in (day - dayOfMonth0 day) * 86400000)"

definition COUNTERS :: "env \<Rightarrow> string \<Rightarrow> string \<Rightarrow> db \<Rightarrow> nat" where
  "COUNTERS env resource tenantId s =
     (if resource = ''users'' then countWhere (\<lambda>m. mb_tenantId m = tenantId \<and> mb_active m) (memberships s)
      else if resource = ''products'' then
        countWhere (\<lambda>p. pr_tenantId p = tenantId \<and> pr_deletedAt p = None) (products s)
      else if resource = ''warehouses'' then countWhere (\<lambda>w. wh_tenantId w = tenantId) (warehouses s)
      else countWhere (\<lambda>r. or_tenantId r = tenantId \<and> startOfMonthUtc env \<le> or_createdAt r) (orders s))"

definition usageOf :: "env \<Rightarrow> string \<Rightarrow> db \<Rightarrow> (string \<times> nat) list" where
  "usageOf env tenantId s = map (\<lambda>key. (key, COUNTERS env key tenantId s)) LIMIT_KEYS"

text \<open>\<open>plan?.limits?.[resource]\<close> of the tenant's plan.\<close>

definition planLimit :: "string \<Rightarrow> string \<Rightarrow> db \<Rightarrow> jsval" where
  "planLimit tenantId resource s =
     (case find (\<lambda>t. tn_id t = tenantId) (tenants s) of
        None \<Rightarrow> JUndef
      | Some tenant \<Rightarrow>
          (case findPlan (tn_plan tenant) s of
             None \<Rightarrow> JUndef
           | Some plan \<Rightarrow> jget resource (pl_limits plan)))"

definition reached :: "nat \<Rightarrow> jsval \<Rightarrow> bool" where
  "reached used limit = (case limit of JNum n \<Rightarrow> n \<le> of_nat used | _ \<Rightarrow> False)"

definition assertWithinPlan :: "env \<Rightarrow> string \<Rightarrow> string \<Rightarrow> unit dbio" where
  "assertWithinPlan env tenantId resource =
     bindH (readH (planLimit tenantId resource)) (\<lambda>limit.
       if nullish limit then returnH ()
       else bindH (readH (COUNTERS env resource tenantId)) (\<lambda>used.
         throwIfH (reached used limit) (AppError 403 ''PLAN_LIMIT_REACHED'')))"

section \<open>The plan catalogue\<close>

text \<open>\<open>list\<close>: plans in creation order with the number of tenants on each.\<close>

definition listPlans :: "bool \<Rightarrow> db \<Rightarrow> (plan_view \<times> nat) list" where
  "listPlans includeInactive s =
     map (\<lambda>p. (toPlan p, countWhere (\<lambda>t. tn_slug t \<noteq> ''__platform'' \<and> tn_plan t = pl_code p) (tenants s)))
       (filter (\<lambda>p. pl_code p \<noteq> RESERVED_PLAN \<and> (includeInactive \<or> pl_isActive p)) (plans s))"

record plan_body =
  pb_code :: string
  pb_name :: "string option"
  pb_description :: "string option"
  pb_limits :: "(string \<times> jsval) list option"
  pb_isActive :: "bool option"

definition createPlan :: "plan_body \<Rightarrow> plan_view dbio" where
  "createPlan data =
     thenH (throwIfH (pb_code data = RESERVED_PLAN) (AppError 400 ''PLAN_RESERVED''))
    (bindH (readH (findPlan (pb_code data))) (\<lambda>existing.
     thenH (throwIfH (existing \<noteq> None) (AppError 409 ''PLAN_EXISTS''))
    (let row = \<lparr>pl_code = pb_code data, pl_name = (case pb_name data of None \<Rightarrow> [] | Some n \<Rightarrow> n),
           pl_description = pb_description data,
           pl_limits = JObj (case pb_limits data of None \<Rightarrow> [] | Some l \<Rightarrow> l),
           pl_isActive = (case pb_isActive data of None \<Rightarrow> True | Some b \<Rightarrow> b)\<rparr>
     in thenH (writeH (\<lambda>s. s\<lparr>plans := plans s @ [row]\<rparr>)) (returnH (toPlan row)))))"

text \<open>The update keeps what the request leaves out; new limits are merged over the old ones.\<close>

definition mergePlan :: "plan_body \<Rightarrow> plan_row \<Rightarrow> plan_row" where
  "mergePlan data p = p\<lparr>
     pl_name := (case pb_name data of None \<Rightarrow> pl_name p | Some n \<Rightarrow> n),
     pl_description := (case pb_description data of None \<Rightarrow> pl_description p | Some d \<Rightarrow> Some d),
     pl_isActive := (case pb_isActive data of None \<Rightarrow> pl_isActive p | Some b \<Rightarrow> b),
     pl_limits := (case pb_limits data of None \<Rightarrow> pl_limits p | Some l \<Rightarrow> spread (pl_limits p) l)\<rparr>"

definition updatePlan :: "string \<Rightarrow> plan_body \<Rightarrow> (plan_view \<times> plan_view) dbio" where
  "updatePlan code data =
     bindH (readH (findPlan code)) (\<lambda>existing.
     case existing of
       None \<Rightarrow> throwH (AppError 404 ''PLAN_NOT_FOUND'')
     | Some p \<Rightarrow>
         thenH (throwIfH (code = RESERVED_PLAN) (AppError 404 ''PLAN_NOT_FOUND''))
        (thenH (writeH (\<lambda>s. s\<lparr>plans := updateMany (\<lambda>q. pl_code q = code) (mergePlan data) (plans s)\<rparr>))
        (returnH (toPlan p, toPlan (mergePlan data p)))))"

section \<open>What the plan check guarantees\<close>

lemma assertWithinPlan_outcome:
  "assertWithinPlan env t r s =
     (if \<not> nullish (planLimit t r s) \<and> reached (COUNTERS env r t s) (planLimit t r s)
      then (Inl (AppError 403 ''PLAN_LIMIT_REACHED''), s) else (Inr (), s))"
  by (simp add: assertWithinPlan_def monad_defs)

lemma wpH_assertWithinPlan [wp]:
  "wpH (assertWithinPlan env t r) Q E s =
     (if \<not> nullish (planLimit t r s) \<and> reached (COUNTERS env r t s) (planLimit t r s)
      then E (AppError 403 ''PLAN_LIMIT_REACHED'') s else Q () s)"
  by (simp add: wpH_def assertWithinPlan_outcome)

lemma findPlan_update:
  "findPlan c (s\<lparr>plans := updateMany (\<lambda>q. pl_code q = code) (mergePlan data) (plans s)\<rparr>)
     = (if c = code then map_option (mergePlan data) (findPlan c s) else findPlan c s)"
proof -
  have keep: "pl_code (mergePlan data r) = pl_code r" for r by (simp add: mergePlan_def)
  then have "find (\<lambda>p. pl_code p = c) (updateMany (\<lambda>q. pl_code q = code) (mergePlan data) (plans s))
      = map_option (\<lambda>r. if pl_code r = code then mergePlan data r else r) (find (\<lambda>p. pl_code p = c) (plans s))"
    by (simp add: find_updateMany)
  then show ?thesis
    by (cases "find (\<lambda>p. pl_code p = c) (plans s)") (auto simp: findPlan_def dest: find_SomeD)
qed

lemma jget_spread_list:
  "jget k (spread v l) = (case map_of (rev l) k of Some x \<Rightarrow> x | None \<Rightarrow> jget k v)"
proof (induction l rule: rev_induct)
  case Nil
  then show ?case by (cases v) (auto simp: spread_def)
next
  case (snoc p l)
  then show ?case by (cases p) (auto simp: spread_def)
qed

text \<open>The plan check. It passes exactly when the limit of the resource is absent or above the count, so
  one more row keeps the count within the limit; otherwise it throws 403 and in both cases the
  database is untouched.\<close>

lemma plan_check_guards_limit:
  "(case assertWithinPlan env t r s of
      (Inr _, s') \<Rightarrow> s' = s \<and> (\<forall>n. planLimit t r s = JNum n \<longrightarrow> of_nat (COUNTERS env r t s) < n)
    | (Inl e, s') \<Rightarrow> s' = s \<and> e = AppError 403 ''PLAN_LIMIT_REACHED''
        \<and> (\<exists>n. planLimit t r s = JNum n \<and> n \<le> of_nat (COUNTERS env r t s)))"
  by (auto simp: assertWithinPlan_outcome reached_def nullish_def split: jsval.split)

text \<open>Changing a plan merges the limits: every limit the request names takes its new value, every
  other limit of the plan and every other plan stay as they were.\<close>

theorem updatePlan_merges_limits:
  assumes "updatePlan code data s = (Inr (before, after), s')" and "findPlan code s = Some p"
  shows "findPlan code s' = Some (mergePlan data p)
    \<and> before = toPlan p \<and> after = toPlan (mergePlan data p)
    \<and> (\<forall>c. c \<noteq> code \<longrightarrow> findPlan c s' = findPlan c s)
    \<and> (\<forall>k. jget k (pl_limits (mergePlan data p)) =
         (case pb_limits data of None \<Rightarrow> jget k (pl_limits p)
          | Some l \<Rightarrow> (case map_of (rev l) k of Some x \<Rightarrow> x | None \<Rightarrow> jget k (pl_limits p))))"
proof -
  have s': "s' = s\<lparr>plans := updateMany (\<lambda>q. pl_code q = code) (mergePlan data) (plans s)\<rparr>"
    and b: "before = toPlan p" "after = toPlan (mergePlan data p)"
    using assms by (auto simp: updatePlan_def outcome)
  have l: "jget k (pl_limits (mergePlan data p)) =
         (case pb_limits data of None \<Rightarrow> jget k (pl_limits p)
          | Some l \<Rightarrow> (case map_of (rev l) k of Some x \<Rightarrow> x | None \<Rightarrow> jget k (pl_limits p)))" for k
    by (simp add: mergePlan_def jget_spread_list split: option.split)
  show ?thesis using assms(2) by (simp add: s' b l findPlan_update)
qed

lemma updatePlan_merges_limits_witness:
  "\<exists>b a s'. updatePlan ''pro'' \<lparr>pb_code = [], pb_name = None, pb_description = None,
       pb_limits = Some [(''users'', JNum 5)], pb_isActive = None\<rparr>
     (emptyDb\<lparr>plans := [\<lparr>pl_code = ''pro'', pl_name = ''Pro'', pl_description = None,
        pl_limits = JObj [(''users'', JNum 2), (''products'', JNum 9)], pl_isActive = True\<rparr>]\<rparr>) = (Inr (b, a), s')
     \<and> jget ''products'' (pl_limits (the (findPlan ''pro'' s'))) = JNum 9
     \<and> jget ''users'' (pl_limits (the (findPlan ''pro'' s'))) = JNum 5"
proof -
  let ?d = "\<lparr>pb_code = [], pb_name = None, pb_description = None,
       pb_limits = Some [(''users'', JNum 5)], pb_isActive = None\<rparr>"
  let ?p = "\<lparr>pl_code = ''pro'', pl_name = ''Pro'', pl_description = None,
        pl_limits = JObj [(''users'', JNum 2), (''products'', JNum 9)], pl_isActive = True\<rparr>"
  let ?s = "emptyDb\<lparr>plans := [?p]\<rparr>"
  have f: "findPlan ''pro'' ?s = Some ?p" by (simp add: findPlan_def)
  have "succeeded (updatePlan ''pro'' ?d ?s)" by (simp add: updatePlan_def f monad_defs RESERVED_PLAN_def succeeded_def)
  then obtain r s' where "updatePlan ''pro'' ?d ?s = (Inr r, s')" by (rule succeededE)
  then obtain b a where run: "updatePlan ''pro'' ?d ?s = (Inr (b, a), s')" by (cases r) simp
  from updatePlan_merges_limits [OF run f] run show ?thesis by simp
qed

end
