(* ===== verification/Customers.thy ===== *)
theory Customers
  imports AuditLog
begin

text \<open>
  Customers and their addresses: src/src/modules/customers/customers.service.js and
  customers.repository.js. A request body is its JSON object (the validators have checked it), a field
  left out reads as \<open>undefined\<close>. The unique indexes of the two tables are the checks of
  \<open>insertCustomer\<close>, \<open>saveCustomers\<close> and \<open>saveAddresses\<close>.
\<close>

section \<open>Columns\<close>

definition address_type_str :: "address_type \<Rightarrow> string" where
  "address_type_str ty = (case ty of A_SHIPPING \<Rightarrow> ''SHIPPING'' | A_BILLING \<Rightarrow> ''BILLING'')"

text \<open>What a body field writes into a required column, a nullable column, a boolean and the type column.\<close>

definition putStr :: "jsval \<Rightarrow> string \<Rightarrow> string" where
  "putStr v old = (case v of JStr x \<Rightarrow> x | _ \<Rightarrow> old)"

definition putOpt :: "jsval \<Rightarrow> string option \<Rightarrow> string option" where
  "putOpt v old = (case v of JUndef \<Rightarrow> old | JStr x \<Rightarrow> Some x | _ \<Rightarrow> None)"

definition putBool :: "jsval \<Rightarrow> bool \<Rightarrow> bool" where
  "putBool v old = (case v of JBool b \<Rightarrow> b | _ \<Rightarrow> old)"

definition putJson :: "jsval \<Rightarrow> jsval \<Rightarrow> jsval" where
  "putJson v old = (if v = JUndef then old else v)"

definition putType :: "jsval \<Rightarrow> address_type \<Rightarrow> address_type" where
  "putType v old = (case v of
     JStr x \<Rightarrow> if x = ''SHIPPING'' then A_SHIPPING else if x = ''BILLING'' then A_BILLING else old
   | _ \<Rightarrow> old)"

section \<open>The repository\<close>

text \<open>The unique indexes: ids; the email of an active customer within a tenant; one default per customer and type.\<close>

definition customerIndexOk :: "customer_row list \<Rightarrow> bool" where
  "customerIndexOk rs \<longleftrightarrow> distinct (map cu_id rs)
     \<and> distinct (map (\<lambda>r. (cu_tenantId r, cu_email r)) (filter (\<lambda>r. cu_deletedAt r = None) rs))"

type_synonym address_group = "string \<times> address_type"

definition groupOf :: "address_row \<Rightarrow> address_group" where
  "groupOf a = (ad_customerId a, ad_type a)"

definition addressIndexOk :: "address_row list \<Rightarrow> bool" where
  "addressIndexOk rs \<longleftrightarrow> distinct (map ad_id rs) \<and> distinct (map groupOf (filter ad_isDefault rs))"

definition saveCustomers :: "(customer_row list \<Rightarrow> customer_row list) \<Rightarrow> unit dbtx" where
  "saveCustomers f = (\<lambda>s. if customerIndexOk (f (customers s)) then Inr ((), s\<lparr>customers := f (customers s)\<rparr>)
     else Inl uniqueViolation)"

definition saveAddresses :: "(address_row list \<Rightarrow> address_row list) \<Rightarrow> unit dbtx" where
  "saveAddresses f = (\<lambda>s. if addressIndexOk (f (addresses s)) then Inr ((), s\<lparr>addresses := f (addresses s)\<rparr>)
     else Inl uniqueViolation)"

text \<open>\<open>data.pan ?? (data.gstin ? data.gstin.slice(2, 12) : null)\<close> and the state code likewise.\<close>

definition fromGstin :: "jsval \<Rightarrow> jsval \<Rightarrow> nat \<Rightarrow> nat \<Rightarrow> string option" where
  "fromGstin own gstin from n =
     (if nullish own then (case gstin of JStr g \<Rightarrow> if g = [] then None else Some (take n (drop from g)) | _ \<Rightarrow> None)
      else jsStr own)"

definition newCustomer :: "string \<Rightarrow> jsval \<Rightarrow> string \<Rightarrow> customer_row" where
  "newCustomer tenantId data i = \<lparr>cu_id = i, cu_tenantId = tenantId,
     cu_email = putStr (jget ''email'' data) [], cu_firstName = putStr (jget ''firstName'' data) [],
     cu_lastName = putStr (jget ''lastName'' data) [], cu_phone = putOpt (jget ''phone'' data) None,
     cu_metadata = jsNullish (jget ''metadata'' data) (JObj []),
     cu_customerType = putStr (jget ''customerType'' data) ''CONSUMER'',
     cu_companyName = putOpt (jget ''companyName'' data) None,
     cu_gstin = putOpt (jget ''gstin'' data) None,
     cu_pan = fromGstin (jget ''pan'' data) (jget ''gstin'' data) 2 10,
     cu_stateCode = fromGstin (jget ''stateCode'' data) (jget ''gstin'' data) 0 2,
     cu_deletedAt = None\<rparr>"

definition repoCreate :: "env \<Rightarrow> jsval \<Rightarrow> string \<Rightarrow> customer_row dbtx" where
  "repoCreate env data tenantId = bindT (freshId env) (\<lambda>i.
     thenT (saveCustomers (\<lambda>rs. rs @ [newCustomer tenantId data i])) (returnT (newCustomer tenantId data i)))"

definition findCustomer :: "string \<Rightarrow> string \<Rightarrow> db \<Rightarrow> customer_row option" where
  "findCustomer i tenantId s =
     find (\<lambda>c. cu_id c = i \<and> cu_tenantId c = tenantId \<and> cu_deletedAt c = None) (customers s)"

definition findByEmail :: "string \<Rightarrow> string \<Rightarrow> db \<Rightarrow> customer_row option" where
  "findByEmail email tenantId s =
     find (\<lambda>c. cu_email c = email \<and> cu_tenantId c = tenantId \<and> cu_deletedAt c = None) (customers s)"

definition patchCustomer :: "jsval \<Rightarrow> customer_row \<Rightarrow> customer_row" where
  "patchCustomer data c = c\<lparr>
     cu_email := putStr (jget ''email'' data) (cu_email c),
     cu_firstName := putStr (jget ''firstName'' data) (cu_firstName c),
     cu_lastName := putStr (jget ''lastName'' data) (cu_lastName c),
     cu_phone := putOpt (jget ''phone'' data) (cu_phone c),
     cu_metadata := putJson (jget ''metadata'' data) (cu_metadata c),
     cu_customerType := putStr (jget ''customerType'' data) (cu_customerType c),
     cu_companyName := putOpt (jget ''companyName'' data) (cu_companyName c),
     cu_gstin := putOpt (jget ''gstin'' data) (cu_gstin c),
     cu_pan := putOpt (jget ''pan'' data) (cu_pan c),
     cu_stateCode := putOpt (jget ''stateCode'' data) (cu_stateCode c)\<rparr>"

text \<open>\<open>update({ where: { id } })\<close> and \<open>delete({ where: { id } })\<close> fail with P2025 on a missing row.\<close>

definition repoUpdate :: "string \<Rightarrow> jsval \<Rightarrow> unit dbtx" where
  "repoUpdate i data = bindT (readT (\<lambda>s. list_ex (\<lambda>c. cu_id c = i) (customers s))) (\<lambda>found.
     thenT (throwIfT (\<not> found) recordNotFound)
       (saveCustomers (updateMany (\<lambda>c. cu_id c = i) (patchCustomer data))))"

definition repoSoftDelete :: "env \<Rightarrow> string \<Rightarrow> unit dbtx" where
  "repoSoftDelete env i = bindT (readT (\<lambda>s. list_ex (\<lambda>c. cu_id c = i) (customers s))) (\<lambda>found.
     thenT (throwIfT (\<not> found) recordNotFound)
       (saveCustomers (updateMany (\<lambda>c. cu_id c = i) (\<lambda>c. c\<lparr>cu_deletedAt := Some (env_now env)\<rparr>))))"

definition findAddress :: "string \<Rightarrow> string \<Rightarrow> string \<Rightarrow> db \<Rightarrow> address_row option" where
  "findAddress addressId customerId tenantId s =
     find (\<lambda>a. ad_id a = addressId \<and> ad_customerId a = customerId \<and> ad_tenantId a = tenantId) (addresses s)"

definition inGroup :: "string \<Rightarrow> string \<Rightarrow> address_type \<Rightarrow> address_row \<Rightarrow> bool" where
  "inGroup customerId tenantId ty a \<longleftrightarrow>
     ad_tenantId a = tenantId \<and> ad_customerId a = customerId \<and> ad_type a = ty"

definition findDefaultAddress :: "string \<Rightarrow> string \<Rightarrow> address_type \<Rightarrow> db \<Rightarrow> address_row option" where
  "findDefaultAddress customerId tenantId ty s =
     find (\<lambda>a. inGroup customerId tenantId ty a \<and> ad_isDefault a) (addresses s)"

text \<open>The address columns of a body (\<open>addressData\<close>), over a row.\<close>

definition addressData :: "jsval \<Rightarrow> address_row \<Rightarrow> address_row" where
  "addressData data a = a\<lparr>
     ad_label := putOpt (jget ''label'' data) (ad_label a),
     ad_firstName := putOpt (jget ''firstName'' data) (ad_firstName a),
     ad_lastName := putOpt (jget ''lastName'' data) (ad_lastName a),
     ad_company := putOpt (jget ''company'' data) (ad_company a),
     ad_line1 := putStr (jget ''line1'' data) (ad_line1 a),
     ad_line2 := putOpt (jget ''line2'' data) (ad_line2 a),
     ad_city := putStr (jget ''city'' data) (ad_city a),
     ad_state := putOpt (jget ''state'' data) (ad_state a),
     ad_postalCode := putOpt (jget ''postalCode'' data) (ad_postalCode a),
     ad_country := putStr (jget ''country'' data) (ad_country a),
     ad_phone := putOpt (jget ''phone'' data) (ad_phone a)\<rparr>"

definition blankAddress :: "string \<Rightarrow> string \<Rightarrow> string \<Rightarrow> address_type \<Rightarrow> bool \<Rightarrow> int \<Rightarrow> address_row" where
  "blankAddress i tenantId customerId ty isDefault now = \<lparr>ad_id = i, ad_tenantId = tenantId,
     ad_customerId = customerId, ad_type = ty, ad_label = None, ad_firstName = None,
     ad_lastName = None, ad_company = None, ad_line1 = [], ad_line2 = None, ad_city = [],
     ad_state = None, ad_postalCode = None, ad_country = [], ad_phone = None,
     ad_isDefault = isDefault, ad_createdAt = now\<rparr>"

definition repoCreateAddress :: "env \<Rightarrow> jsval \<Rightarrow> address_type \<Rightarrow> string \<Rightarrow> string \<Rightarrow> address_row dbtx" where
  "repoCreateAddress env data ty customerId tenantId = bindT (freshId env) (\<lambda>i.
     let row = addressData data (blankAddress i tenantId customerId ty
           (putBool (jget ''isDefault'' data) False) (env_now env))
     in thenT (saveAddresses (\<lambda>rs. rs @ [row])) (returnT row))"

definition patchAddress :: "jsval \<Rightarrow> address_row \<Rightarrow> address_row" where
  "patchAddress data a = (addressData data a)\<lparr>ad_type := putType (jget ''type'' data) (ad_type a),
     ad_isDefault := putBool (jget ''isDefault'' data) (ad_isDefault a)\<rparr>"

definition repoUpdateAddress :: "string \<Rightarrow> jsval \<Rightarrow> unit dbtx" where
  "repoUpdateAddress addressId data =
     bindT (readT (\<lambda>s. list_ex (\<lambda>a. ad_id a = addressId) (addresses s))) (\<lambda>found.
     thenT (throwIfT (\<not> found) recordNotFound)
       (saveAddresses (updateMany (\<lambda>a. ad_id a = addressId) (patchAddress data))))"

definition repoDeleteAddress :: "string \<Rightarrow> unit dbtx" where
  "repoDeleteAddress addressId =
     bindT (readT (\<lambda>s. list_ex (\<lambda>a. ad_id a = addressId) (addresses s))) (\<lambda>found.
     thenT (throwIfT (\<not> found) recordNotFound)
       (saveAddresses (deleteMany (\<lambda>a. ad_id a = addressId))))"

definition setDefault :: "bool \<Rightarrow> address_row \<Rightarrow> address_row" where
  "setDefault b a = a\<lparr>ad_isDefault := b\<rparr>"

definition clearDefault :: "string \<Rightarrow> string \<Rightarrow> address_type \<Rightarrow> unit dbtx" where
  "clearDefault customerId tenantId ty = saveAddresses
     (updateMany (\<lambda>a. inGroup customerId tenantId ty a \<and> ad_isDefault a) (setDefault False))"

text \<open>\<open>orderBy: { createdAt: 'asc' }\<close>, first row.\<close>

definition oldestAddress :: "string \<Rightarrow> string \<Rightarrow> address_type \<Rightarrow> db \<Rightarrow> address_row option" where
  "oldestAddress customerId tenantId ty s =
     (case sort_key ad_createdAt (filter (inGroup customerId tenantId ty) (addresses s)) of
        [] \<Rightarrow> None | a # _ \<Rightarrow> Some a)"

definition ensureDefault :: "string \<Rightarrow> string \<Rightarrow> address_type \<Rightarrow> unit dbtx" where
  "ensureDefault customerId tenantId ty =
     bindT (readT (findDefaultAddress customerId tenantId ty)) (\<lambda>current.
     if current \<noteq> None then returnT ()
     else bindT (readT (oldestAddress customerId tenantId ty)) (\<lambda>oldest.
       case oldest of
         None \<Rightarrow> returnT ()
       | Some o1 \<Rightarrow> saveAddresses (updateMany (\<lambda>a. ad_id a = ad_id o1) (setDefault True))))"

section \<open>The service\<close>

definition toAddressSnapshot :: "address_row option \<Rightarrow> jsval" where
  "toAddressSnapshot address = (case address of
       None \<Rightarrow> JNull
     | Some a \<Rightarrow> JObj
         [(''addressId'', JStr (ad_id a)), (''type'', JStr (address_type_str (ad_type a))),
          (''label'', jsOfOpt (ad_label a)), (''firstName'', jsOfOpt (ad_firstName a)),
          (''lastName'', jsOfOpt (ad_lastName a)), (''company'', jsOfOpt (ad_company a)),
          (''line1'', JStr (ad_line1 a)), (''line2'', jsOfOpt (ad_line2 a)),
          (''city'', JStr (ad_city a)), (''state'', jsOfOpt (ad_state a)),
          (''postalCode'', jsOfOpt (ad_postalCode a)), (''country'', JStr (ad_country a)),
          (''phone'', jsOfOpt (ad_phone a))])"

abbreviation emailExists :: error where
  "emailExists \<equiv> AppError 409 ''CUSTOMER_EMAIL_EXISTS''"

abbreviation customerNotFound :: error where
  "customerNotFound \<equiv> AppError 404 ''CUSTOMER_NOT_FOUND''"

abbreviation addressNotFound :: error where
  "addressNotFound \<equiv> AppError 404 ''ADDRESS_NOT_FOUND''"

definition customerLog ::
  "env \<Rightarrow> audit_context \<Rightarrow> string \<Rightarrow> string \<Rightarrow> string \<Rightarrow> string \<Rightarrow> jsval \<Rightarrow> jsval \<Rightarrow> string \<Rightarrow> string
     \<Rightarrow> unit dbtx" where
  "customerLog env ctx tenantId action resource resourceId oldValue newValue activity description =
     thenT (logAudit env ctx tenantId action resource (Some resourceId) oldValue newValue)
       (logActivity env ctx tenantId activity description (JObj [(''resourceId'', JStr resourceId)]))"

definition addAddress :: "env \<Rightarrow> string \<Rightarrow> string \<Rightarrow> jsval \<Rightarrow> address_row option dbtx" where
  "addAddress env customerId tenantId data =
     (let ty = putType (jget ''type'' data) A_SHIPPING in
      thenT (if truthy (jget ''isDefault'' data) then clearDefault customerId tenantId ty else returnT ())
     (bindT (repoCreateAddress env data ty customerId tenantId) (\<lambda>address.
      thenT (ensureDefault customerId tenantId ty)
        (readT (findAddress (ad_id address) customerId tenantId)))))"

definition customerName :: "customer_row \<Rightarrow> jsval" where
  "customerName c = JObj [(''email'', JStr (cu_email c)), (''firstName'', JStr (cu_firstName c)),
     (''lastName'', JStr (cu_lastName c))]"

definition getCustomer :: "string \<Rightarrow> string \<Rightarrow> customer_row dbio" where
  "getCustomer i tenantId = bindH (readH (findCustomer i tenantId)) (\<lambda>c. orThrowH c customerNotFound)"

definition addressBodies :: "jsval \<Rightarrow> jsval list" where
  "addressBodies data = (case jget ''addresses'' data of JArr vs \<Rightarrow> vs | _ \<Rightarrow> [])"

definition createTx :: "env \<Rightarrow> string \<Rightarrow> jsval \<Rightarrow> audit_context \<Rightarrow> string dbtx" where
  "createTx env tenantId data ctx =
     bindT (repoCreate env data tenantId) (\<lambda>customer.
     thenT (forT (addressBodies data) (\<lambda>a. bindT (addAddress env (cu_id customer) tenantId a) (\<lambda>_. returnT ())))
    (thenT (customerLog env ctx tenantId ''CREATE'' ''customer'' (cu_id customer) JNull (customerName customer)
        ''customer.create'' (''Customer '' @ cu_id customer @ '' created''))
     (returnT (cu_id customer))))"

definition asEmailExists :: "'a dbio \<Rightarrow> 'a dbio" where
  "asEmailExists m = catchH m (\<lambda>err. if isUniqueViolation err then throwH emailExists else throwH err)"

definition createCustomer :: "env \<Rightarrow> string \<Rightarrow> jsval \<Rightarrow> audit_context \<Rightarrow> customer_row dbio" where
  "createCustomer env tenantId data ctx =
     bindH (readH (findByEmail (putStr (jget ''email'' data) []) tenantId)) (\<lambda>taken.
     thenH (throwIfH (taken \<noteq> None) emailExists)
       (bindH (asEmailExists (transaction (createTx env tenantId data ctx)))
         (\<lambda>i. getCustomer i tenantId)))"

definition customerField :: "string \<Rightarrow> customer_row \<Rightarrow> jsval" where
  "customerField key c =
     (if key = ''email'' then JStr (cu_email c) else if key = ''firstName'' then JStr (cu_firstName c)
      else if key = ''lastName'' then JStr (cu_lastName c) else if key = ''phone'' then jsOfOpt (cu_phone c)
      else if key = ''metadata'' then cu_metadata c
      else if key = ''customerType'' then JStr (cu_customerType c)
      else if key = ''companyName'' then jsOfOpt (cu_companyName c)
      else if key = ''gstin'' then jsOfOpt (cu_gstin c) else if key = ''pan'' then jsOfOpt (cu_pan c)
      else if key = ''stateCode'' then jsOfOpt (cu_stateCode c) else JUndef)"

definition jsKeys :: "jsval \<Rightarrow> string list" where
  "jsKeys v = (case v of JObj kvs \<Rightarrow> map fst kvs | _ \<Rightarrow> [])"

definition updateCustomer :: "env \<Rightarrow> string \<Rightarrow> string \<Rightarrow> jsval \<Rightarrow> audit_context \<Rightarrow> customer_row dbio" where
  "updateCustomer env i tenantId data ctx =
     bindH (getCustomer i tenantId) (\<lambda>existing.
     bindH (readH (\<lambda>s. truthy (jget ''email'' data) \<and> jget ''email'' data \<noteq> JStr (cu_email existing)
              \<and> findByEmail (putStr (jget ''email'' data) []) tenantId s \<noteq> None)) (\<lambda>taken.
     thenH (throwIfH taken emailExists)
    (thenH (asEmailExists (transaction
        (thenT (repoUpdate i data)
          (customerLog env ctx tenantId ''UPDATE'' ''customer'' i
             (JObj (map (\<lambda>key. (key, customerField key existing)) (jsKeys data))) data
             ''customer.update'' (''Customer '' @ i @ '' updated'')))))
      (getCustomer i tenantId))))"

definition deleteCustomer :: "env \<Rightarrow> string \<Rightarrow> string \<Rightarrow> audit_context \<Rightarrow> unit dbio" where
  "deleteCustomer env i tenantId ctx =
     bindH (getCustomer i tenantId) (\<lambda>existing.
     transaction (thenT (repoSoftDelete env i)
       (customerLog env ctx tenantId ''DELETE'' ''customer'' i (customerName existing) JNull
          ''customer.delete'' (''Customer '' @ i @ '' deleted''))))"

definition createAddress ::
  "env \<Rightarrow> string \<Rightarrow> string \<Rightarrow> jsval \<Rightarrow> audit_context \<Rightarrow> address_row option dbio" where
  "createAddress env i tenantId data ctx =
     thenH (getCustomer i tenantId)
       (transaction (bindT (addAddress env i tenantId data) (\<lambda>address.
          let aid = (case address of None \<Rightarrow> [] | Some a \<Rightarrow> ad_id a) in
          thenT (customerLog env ctx tenantId ''CREATE'' ''customer_address'' aid JNull (toAddressSnapshot address)
             ''customer.address.create'' (''Address '' @ aid @ '' added to customer '' @ i))
          (returnT address))))"

definition updateAddressTx ::
  "env \<Rightarrow> string \<Rightarrow> string \<Rightarrow> string \<Rightarrow> address_row \<Rightarrow> jsval \<Rightarrow> audit_context \<Rightarrow> address_row option dbtx" where
  "updateAddressTx env i addressId tenantId existing data ctx =
     (let ty = putType (jget ''type'' data) (ad_type existing) in
      thenT (if jget ''isDefault'' data = JBool True then clearDefault i tenantId ty else returnT ())
     (thenT (repoUpdateAddress addressId data)
     (thenT (ensureDefault i tenantId (ad_type existing))
     (thenT (if ty \<noteq> ad_type existing then ensureDefault i tenantId ty else returnT ())
     (bindT (readT (findAddress addressId i tenantId)) (\<lambda>updated.
      thenT (customerLog env ctx tenantId ''UPDATE'' ''customer_address'' addressId
          (toAddressSnapshot (Some existing)) (toAddressSnapshot updated)
          ''customer.address.update'' (''Address '' @ addressId @ '' of customer '' @ i @ '' updated''))
      (returnT updated)))))))"

definition updateAddress ::
  "env \<Rightarrow> string \<Rightarrow> string \<Rightarrow> string \<Rightarrow> jsval \<Rightarrow> audit_context \<Rightarrow> address_row option dbio" where
  "updateAddress env i addressId tenantId data ctx =
     thenH (getCustomer i tenantId)
    (bindH (readH (findAddress addressId i tenantId)) (\<lambda>found.
     bindH (orThrowH found addressNotFound) (\<lambda>existing.
     transaction (updateAddressTx env i addressId tenantId existing data ctx))))"

definition deleteAddress :: "env \<Rightarrow> string \<Rightarrow> string \<Rightarrow> string \<Rightarrow> audit_context \<Rightarrow> unit dbio" where
  "deleteAddress env i addressId tenantId ctx =
     thenH (getCustomer i tenantId)
    (bindH (readH (findAddress addressId i tenantId)) (\<lambda>found.
     bindH (orThrowH found addressNotFound) (\<lambda>existing.
     transaction (thenT (repoDeleteAddress addressId)
       (thenT (ensureDefault i tenantId (ad_type existing))
         (customerLog env ctx tenantId ''DELETE'' ''customer_address'' addressId
            (toAddressSnapshot (Some existing)) JNull
            ''customer.address.delete'' (''Address '' @ addressId @ '' removed from customer '' @ i)))))))"

definition resolveOrderAddress ::
  "string \<Rightarrow> string \<Rightarrow> address_type \<Rightarrow> string option \<Rightarrow> address_row option dbio" where
  "resolveOrderAddress customerId tenantId ty addressId =
     (case orElse addressId None of
        None \<Rightarrow> readH (findDefaultAddress customerId tenantId ty)
      | Some aid \<Rightarrow>
          bindH (readH (findAddress aid customerId tenantId)) (\<lambda>found.
          bindH (orThrowH found addressNotFound) (\<lambda>address.
          thenH (throwIfH (ad_type address \<noteq> ty) (AppError 400 ''ADDRESS_TYPE_MISMATCH''))
            (returnH (Some address)))))"

section \<open>Exactly one default\<close>

text \<open>
  The invariant the repository's comment promises: a customer with addresses of a type has exactly
  one default of that type. The index gives at most one; \<open>groupOk\<close> is at least one. \<open>addressesOkBut G\<close>
  is the invariant while the groups in \<open>G\<close> are being changed.
\<close>

definition groupOk :: "address_row list \<Rightarrow> address_group \<Rightarrow> bool" where
  "groupOk rs g \<longleftrightarrow> (list_ex (\<lambda>a. groupOf a = g) rs \<longrightarrow> list_ex (\<lambda>a. groupOf a = g \<and> ad_isDefault a) rs)"

definition linked :: "customer_row list \<Rightarrow> address_row list \<Rightarrow> bool" where
  "linked cs rs \<longleftrightarrow>
     list_all (\<lambda>a. list_ex (\<lambda>c. cu_id c = ad_customerId a \<and> cu_tenantId c = ad_tenantId a) cs) rs"

definition addressesOkBut :: "address_group set \<Rightarrow> db \<Rightarrow> bool" where
  "addressesOkBut G s \<longleftrightarrow> customerIndexOk (customers s) \<and> addressIndexOk (addresses s)
     \<and> linked (customers s) (addresses s) \<and> (\<forall>g. g \<notin> G \<longrightarrow> groupOk (addresses s) g)"

abbreviation addressesOk :: "db \<Rightarrow> bool" where
  "addressesOk \<equiv> addressesOkBut {}"

definition hasCustomer :: "string \<Rightarrow> string \<Rightarrow> db \<Rightarrow> bool" where
  "hasCustomer i t s \<longleftrightarrow> list_ex (\<lambda>c. cu_id c = i \<and> cu_tenantId c = t) (customers s)"

lemma findCustomer_has: "findCustomer i t s = Some c \<Longrightarrow> hasCustomer i t s"
  by (auto simp: findCustomer_def hasCustomer_def list_ex_iff dest: find_SomeD)

lemma wpT_saveAddresses [wp]:
  "wpT (saveAddresses f) Q = (\<lambda>s. addressIndexOk (f (addresses s)) \<longrightarrow> Q () (s\<lparr>addresses := f (addresses s)\<rparr>))"
  by (simp add: wpT_def saveAddresses_def fun_eq_iff)

lemma wpT_saveCustomers [wp]:
  "wpT (saveCustomers f) Q = (\<lambda>s. customerIndexOk (f (customers s)) \<longrightarrow> Q () (s\<lparr>customers := f (customers s)\<rparr>))"
  by (simp add: wpT_def saveCustomers_def fun_eq_iff)

lemma tenant_of_customer:
  assumes "customerIndexOk cs" and "linked cs rs" and "list_ex (\<lambda>c. cu_id c = i \<and> cu_tenantId c = t) cs"
    and "a \<in> set rs" and "ad_customerId a = i"
  shows "ad_tenantId a = t"
proof -
  obtain c where c: "c \<in> set cs" "cu_id c = i" "cu_tenantId c = t"
    using assms(3) by (auto simp: list_ex_iff)
  obtain c' where c': "c' \<in> set cs" "cu_id c' = i" "cu_tenantId c' = ad_tenantId a"
    using assms(2,4,5) by (auto simp: linked_def list_all_iff list_ex_iff)
  have "inj_on cu_id (set cs)" using assms(1) by (simp add: customerIndexOk_def distinct_map)
  with c c' have "c = c'" by (auto dest: inj_onD)
  with c c' show ?thesis by simp
qed

lemma setDefault_simps [simp]:
  "groupOf (setDefault b a) = groupOf a" "ad_id (setDefault b a) = ad_id a"
  "ad_customerId (setDefault b a) = ad_customerId a" "ad_tenantId (setDefault b a) = ad_tenantId a"
  "ad_isDefault (setDefault b a) = b" "ad_type (setDefault b a) = ad_type a"
  by (simp_all add: setDefault_def groupOf_def)

lemma linked_updateMany:
  "linked cs rs \<Longrightarrow> (\<And>a. ad_customerId (f a) = ad_customerId a \<and> ad_tenantId (f a) = ad_tenantId a) \<Longrightarrow>
     linked cs (updateMany P f rs)"
  by (auto simp: linked_def list_all_iff set_updateMany)

lemma list_ex_updateMany_same:
  "(\<And>a. a \<in> set rs \<Longrightarrow> P a \<Longrightarrow> \<not> Q a \<and> \<not> Q (f a)) \<Longrightarrow> list_ex Q (updateMany P f rs) = list_ex Q rs"
  by (induction rs) auto

lemma list_ex_updateMany_mono:
  "list_ex Q rs \<Longrightarrow> (\<And>a. Q a \<Longrightarrow> R a \<and> R (f a)) \<Longrightarrow> list_ex R (updateMany P f rs)"
  by (induction rs) auto

lemma list_ex_updateMany_invar:
  "(\<And>a. Q (f a) = Q a) \<Longrightarrow> list_ex Q (updateMany P f rs) = list_ex Q rs"
  by (induction rs) auto

text \<open>A write that touches no row of a group, and one that only sets defaults.\<close>

lemma groupOk_untouched:
  "(\<And>a. a \<in> set rs \<Longrightarrow> P a \<Longrightarrow> groupOf a \<noteq> g \<and> groupOf (f a) \<noteq> g) \<Longrightarrow>
     groupOk (updateMany P f rs) g = groupOk rs g"
  unfolding groupOk_def
  by (subst list_ex_updateMany_same, blast, subst list_ex_updateMany_same, blast, rule refl)

lemma groupOk_setDefault: "groupOk rs g \<Longrightarrow> groupOk (updateMany P (setDefault True) rs) g"
  unfolding groupOk_def
  by (subst list_ex_updateMany_invar, simp, rule impI, drule mp, assumption,
      erule list_ex_updateMany_mono, simp)

lemma clearDefault_ok:
  assumes "addressesOkBut G s"
  shows "wpT (clearDefault i t ty) (\<lambda>_ s'. addressesOkBut (insert (i, ty) G) s' \<and> customers s' = customers s
     \<and> (\<forall>x g. (\<forall>a \<in> set (addresses s). ad_id a = x \<longrightarrow> groupOf a = g) \<longrightarrow> (\<forall>a \<in> set (addresses s'). ad_id a = x \<longrightarrow> groupOf a = g))) s"
proof -
  let ?rs = "updateMany (\<lambda>a. inGroup i t ty a \<and> ad_isDefault a) (setDefault False) (addresses s)"
  have "groupOk ?rs g" if "g \<noteq> (i, ty)" "groupOk (addresses s) g" for g
    using that by (subst groupOk_untouched) (auto simp: inGroup_def groupOf_def)
  moreover have "linked (customers s) ?rs"
    using assms by (auto simp: addressesOkBut_def intro: linked_updateMany)
  ultimately show ?thesis
    using assms by (auto simp: clearDefault_def wp addressesOkBut_def set_updateMany)
qed

lemma patch_simps [simp]:
  "ad_id (patchAddress data a) = ad_id a" "ad_customerId (patchAddress data a) = ad_customerId a"
  "ad_tenantId (patchAddress data a) = ad_tenantId a"
  "ad_type (patchAddress data a) = putType (jget ''type'' data) (ad_type a)"
  "ad_isDefault (patchAddress data a) = putBool (jget ''isDefault'' data) (ad_isDefault a)"
  by (simp_all add: patchAddress_def addressData_def)

lemma addressData_simps [simp]:
  "groupOf (addressData data (blankAddress x t i ty d now)) = (i, ty)"
  "ad_tenantId (addressData data (blankAddress x t i ty d now)) = t"
  "ad_customerId (addressData data (blankAddress x t i ty d now)) = i"
  "ad_isDefault (addressData data (blankAddress x t i ty d now)) = d"
  "ad_id (addressData data (blankAddress x t i ty d now)) = x"
  by (simp_all add: addressData_def blankAddress_def groupOf_def)

lemma repoCreateAddress_ok:
  assumes "addressesOkBut G s" and "hasCustomer i t s"
  shows "wpT (repoCreateAddress env data ty i t)
     (\<lambda>_ s'. addressesOkBut (insert (i, ty) G) s' \<and> customers s' = customers s) s"
proof -
  have "groupOk (addresses s @ [addressData data (blankAddress x t i ty d now)]) g"
    if "g \<noteq> (i, ty)" "groupOk (addresses s) g" for g x d now
    using that by (auto simp: groupOk_def)
  then show ?thesis
    using assms
    by (auto simp: repoCreateAddress_def Let_def wp addressesOkBut_def linked_def hasCustomer_def)
qed

lemma oldestAddress_None: "oldestAddress i t ty s = None \<longleftrightarrow> filter (inGroup i t ty) (addresses s) = []"
proof -
  have e: "(sort_key ad_createdAt xs = []) = (xs = [])" for xs
    using length_sort [of ad_createdAt xs] by (metis length_0_conv)
  let ?fs = "filter (inGroup i t ty) (addresses s)"
  have "oldestAddress i t ty s = None \<longleftrightarrow> sort_key ad_createdAt ?fs = []"
    unfolding oldestAddress_def by (rule list.exhaust [of "sort_key ad_createdAt ?fs"]) simp_all
  then show ?thesis by (simp only: e)
qed

lemma oldestAddress_Some: "oldestAddress i t ty s = Some a \<Longrightarrow> a \<in> set (addresses s) \<and> inGroup i t ty a"
proof -
  assume "oldestAddress i t ty s = Some a"
  then have "a \<in> set (sort_key ad_createdAt (filter (inGroup i t ty) (addresses s)))"
    by (cases "sort_key ad_createdAt (filter (inGroup i t ty) (addresses s))")
       (simp_all only: oldestAddress_def list.case option.distinct option.inject list.set_intros simp_thms)
  then show ?thesis by simp
qed

lemma ensureDefault_ok:
  assumes ok: "addressesOkBut G s" and c: "hasCustomer i t s"
  shows "wpT (ensureDefault i t ty) (\<lambda>_ s'. addressesOkBut (G - {(i, ty)}) s' \<and> customers s' = customers s) s"
proof (cases "findDefaultAddress i t ty s")
  case (Some a)
  then have "groupOk (addresses s) (i, ty)"
    by (auto simp: findDefaultAddress_def groupOk_def groupOf_def inGroup_def list_ex_iff dest!: find_SomeD)
  then show ?thesis using ok Some by (auto simp: ensureDefault_def wp addressesOkBut_def)
next
  case None
  have inG: "inGroup i t ty a" if "a \<in> set (addresses s)" "groupOf a = (i, ty)" for a
    using tenant_of_customer [of "customers s" "addresses s" i t a] ok c that
    by (auto simp: addressesOkBut_def hasCustomer_def groupOf_def inGroup_def)
  show ?thesis
  proof (cases "oldestAddress i t ty s")
    case None
    then have "groupOk (addresses s) (i, ty)"
      using inG by (auto simp: oldestAddress_None groupOk_def list_ex_iff filter_empty_conv)
    then show ?thesis
      using ok None \<open>findDefaultAddress i t ty s = None\<close>
      by (auto simp: ensureDefault_def wp addressesOkBut_def)
  next
    case (Some a)
    let ?rs = "updateMany (\<lambda>b. ad_id b = ad_id a) (setDefault True) (addresses s)"
    have a: "a \<in> set (addresses s)" "inGroup i t ty a" using oldestAddress_Some [OF Some] by auto
    have keep: "groupOk ?rs g" if "groupOk (addresses s) g" for g
      using that by (rule groupOk_setDefault)
    have "setDefault True a \<in> set ?rs"
      using a(1) unfolding set_updateMany by (rule rev_image_eqI) simp
    then have new: "groupOk ?rs (i, ty)"
      using a(2) unfolding groupOk_def list_ex_iff
      by (intro impI bexI [of _ "setDefault True a"]) (auto simp: groupOf_def inGroup_def)
    have "groupOk ?rs g" if "g \<in> G \<longrightarrow> g = (i, ty)" for g
      using keep [of g] new ok that unfolding addressesOkBut_def by blast
    moreover have "linked (customers s) ?rs"
      using ok by (auto simp: addressesOkBut_def intro: linked_updateMany)
    ultimately show ?thesis
      using ok None Some by (auto simp: ensureDefault_def wp addressesOkBut_def)
  qed
qed

lemma repoUpdateAddress_ok:
  assumes ok: "addressesOkBut G s" and x: "\<forall>a \<in> set (addresses s). ad_id a = x \<longrightarrow> groupOf a = (i, ty0)"
  shows "wpT (repoUpdateAddress x data)
     (\<lambda>_ s'. addressesOkBut (insert (i, ty0) (insert (i, putType (jget ''type'' data) ty0) G)) s'
        \<and> customers s' = customers s) s"
proof -
  let ?rs = "updateMany (\<lambda>a. ad_id a = x) (patchAddress data) (addresses s)"
  have "groupOk ?rs g" if "g \<noteq> (i, ty0)" "g \<noteq> (i, putType (jget ''type'' data) ty0)" "groupOk (addresses s) g" for g
    using that x by (subst groupOk_untouched) (auto simp: groupOf_def)
  moreover have "linked (customers s) ?rs"
    using ok by (auto simp: addressesOkBut_def intro: linked_updateMany)
  ultimately show ?thesis
    using ok by (auto simp: repoUpdateAddress_def wp addressesOkBut_def)
qed

lemma repoDeleteAddress_ok:
  assumes ok: "addressesOkBut G s" and x: "\<forall>a \<in> set (addresses s). ad_id a = x \<longrightarrow> groupOf a = g0"
  shows "wpT (repoDeleteAddress x) (\<lambda>_ s'. addressesOkBut (insert g0 G) s' \<and> customers s' = customers s) s"
proof -
  let ?rs = "deleteMany (\<lambda>a. ad_id a = x) (addresses s)"
  have "groupOk ?rs g" if "g \<noteq> g0" "groupOk (addresses s) g" for g
    using that x by (fastforce simp: groupOk_def list_ex_iff deleteMany_def)
  moreover have "linked (customers s) ?rs"
    using ok by (auto simp: addressesOkBut_def linked_def list_all_iff deleteMany_def)
  ultimately show ?thesis
    using ok by (auto simp: repoDeleteAddress_def wp addressesOkBut_def)
qed

lemma addressesOkBut_frame [simp]:
  "addressesOkBut G (s\<lparr>auditLogs := x\<rparr>) = addressesOkBut G s"
  "addressesOkBut G (s\<lparr>activityLogs := y\<rparr>) = addressesOkBut G s"
  by (simp_all add: addressesOkBut_def)

lemma addressesOkBut_weaken: "addressesOkBut G s \<Longrightarrow> G \<subseteq> H \<Longrightarrow> addressesOkBut H s"
  by (auto simp: addressesOkBut_def)

lemma customerLog_ok:
  "addressesOkBut G s \<Longrightarrow> wpT (customerLog env ctx t a r x ov nv act d) (\<lambda>_. addressesOkBut G) s"
  by (auto simp: customerLog_def wp intro!: wpT_logAudit wpT_logActivity)

lemma addAddress_ok:
  assumes "addressesOk s" and "hasCustomer i t s"
  shows "wpT (addAddress env i t data) (\<lambda>_ s'. addressesOk s' \<and> hasCustomer i t s') s"
proof -
  let ?ty = "putType (jget ''type'' data) A_SHIPPING"
  let ?g = "(i, ?ty)"
  let ?R = "\<lambda>s'. addressesOkBut {?g} s' \<and> hasCustomer i t s'"
  have has: "customers s' = customers s \<Longrightarrow> hasCustomer i t s'" for s'
    using assms(2) by (simp add: hasCustomer_def)
  have 1: "wpT (if truthy (jget ''isDefault'' data) then clearDefault i t ?ty else returnT ()) (\<lambda>_. ?R) s"
    using assms wpT_mono [OF clearDefault_ok [OF assms(1), of i t ?ty]] has
    by (auto simp: wp intro: addressesOkBut_weaken)
  have 2: "wpT (repoCreateAddress env data ?ty i t) (\<lambda>_. ?R) s1" if "?R s1" for s1
    by (rule wpT_mono [OF repoCreateAddress_ok]) (use that in \<open>auto simp: hasCustomer_def\<close>)
  have 3: "wpT (ensureDefault i t ?ty) (\<lambda>_ s'. addressesOk s' \<and> hasCustomer i t s') s1" if "?R s1" for s1
    by (rule wpT_mono [OF ensureDefault_ok]) (use that in \<open>auto simp: hasCustomer_def\<close>)
  show ?thesis
    unfolding addAddress_def Let_def wpT_thenT wpT_bindT wpT_readT
    by (rule wpT_mono [OF 1], rule wpT_mono [OF 2], assumption, rule 3)
qed

lemma hasCustomer_frame [simp]:
  "hasCustomer i t (s\<lparr>auditLogs := x\<rparr>) = hasCustomer i t s"
  "hasCustomer i t (s\<lparr>activityLogs := y\<rparr>) = hasCustomer i t s"
  by (simp_all add: hasCustomer_def)

lemma getCustomer_eq:
  "getCustomer i t s = (case findCustomer i t s of None \<Rightarrow> (Inl customerNotFound, s) | Some c \<Rightarrow> (Inr c, s))"
  by (simp add: getCustomer_def monad_defs split: option.split)

lemma wpH_getCustomer [wp]:
  "wpH (getCustomer i t) Q E s =
     (case findCustomer i t s of None \<Rightarrow> E customerNotFound s | Some c \<Rightarrow> Q c s)"
  by (simp add: wpH_def getCustomer_eq split: option.split)

lemma keepsH_getCustomer [keeps]: "keepsH I (getCustomer i t)"
  by (auto simp: keepsH_def getCustomer_eq split: option.split)

lemma linked_customers:
  "linked cs rs \<Longrightarrow> (\<And>c. cu_id (f c) = cu_id c \<and> cu_tenantId (f c) = cu_tenantId c) \<Longrightarrow> linked (updateMany P f cs) rs"
  unfolding linked_def by (subst list_ex_updateMany_invar) simp_all

lemma createTx_ok:
  assumes "addressesOk s"
  shows "wpT (createTx env t data ctx) (\<lambda>_. addressesOk) s"
proof -
  have 1: "wpT (repoCreate env data t) (\<lambda>c s'. addressesOk s' \<and> hasCustomer (cu_id c) t s') s"
    using assms
    by (auto simp: repoCreate_def wp addressesOkBut_def linked_def list_all_iff hasCustomer_def newCustomer_def)
  have 2: "wpT (forT (addressBodies data) (\<lambda>a. bindT (addAddress env i t a) (\<lambda>_. returnT ())))
      (\<lambda>_ s'. addressesOk s' \<and> hasCustomer i t s') s1" if "addressesOk s1 \<and> hasCustomer i t s1" for i s1
    by (rule wpT_forT_inv [where I = "\<lambda>s. addressesOk s \<and> hasCustomer i t s"])
       (use that in \<open>auto simp: wpT_bindT wpT_returnT addAddress_ok\<close>)
  show ?thesis
    unfolding createTx_def wpT_bindT wpT_thenT wpT_returnT
    by (rule wpT_mono [OF 1], rule wpT_mono [OF 2], assumption, rule customerLog_ok, blast)
qed

lemma createCustomer_keeps: "keepsH addressesOk (createCustomer env t data ctx)"
  unfolding createCustomer_def asEmailExists_def
  by (intro keeps keepsH_transaction createTx_ok)

lemma repoUpdate_ok: "addressesOk s \<Longrightarrow> wpT (repoUpdate i data) (\<lambda>_. addressesOk) s"
  by (auto simp: repoUpdate_def wp addressesOkBut_def intro!: linked_customers simp: patchCustomer_def)

lemma repoSoftDelete_ok: "addressesOk s \<Longrightarrow> wpT (repoSoftDelete env i) (\<lambda>_. addressesOk) s"
  by (auto simp: repoSoftDelete_def wp addressesOkBut_def intro!: linked_customers)

lemma thenT_keeps:
  "wpT m (\<lambda>_. I) s \<Longrightarrow> (\<And>s. I s \<Longrightarrow> wpT n (\<lambda>_. J) s) \<Longrightarrow> wpT (thenT m n) (\<lambda>_. J) s"
  unfolding wpT_thenT by (rule wpT_mono)

lemma updateCustomer_keeps: "keepsH addressesOk (updateCustomer env i t data ctx)"
  unfolding updateCustomer_def asEmailExists_def
  by (intro keeps keepsH_transaction thenT_keeps [OF repoUpdate_ok] customerLog_ok)

lemma deleteCustomer_keeps: "keepsH addressesOk (deleteCustomer env i t ctx)"
  unfolding deleteCustomer_def
  by (intro keeps keepsH_transaction thenT_keeps [OF repoSoftDelete_ok] customerLog_ok)

lemma createAddress_keeps: "keepsH addressesOk (createAddress env i t data ctx)"
proof (rule keepsH_wp)
  fix s
  assume ok: "addressesOk s"
  let ?m = "bindT (addAddress env i t data) (\<lambda>address.
          let aid = (case address of None \<Rightarrow> [] | Some a \<Rightarrow> ad_id a) in
          thenT (customerLog env ctx t ''CREATE'' ''customer_address'' aid JNull (toAddressSnapshot address)
             ''customer.address.create'' (''Address '' @ aid @ '' added to customer '' @ i))
          (returnT address))"
  have "wpT ?m (\<lambda>_. addressesOk) s" if "hasCustomer i t s"
    unfolding wpT_bindT Let_def wpT_thenT wpT_returnT
    by (rule wpT_mono [OF addAddress_ok [OF ok that]], rule customerLog_ok, blast)
  then have "wpH (transaction ?m) (\<lambda>_. addressesOk) (\<lambda>_. addressesOk) s" if "hasCustomer i t s"
    using that ok by (intro wpH_transaction_keeps)
  then show "wpH (createAddress env i t data ctx) (\<lambda>_. addressesOk) (\<lambda>_. addressesOk) s"
    using ok by (auto simp: createAddress_def wpH_thenH wpH_getCustomer findCustomer_has split: option.split)
qed

lemma unique_group:
  assumes "addressesOkBut G s" and "findAddress x i t s = Some e"
  shows "\<forall>a \<in> set (addresses s). ad_id a = x \<longrightarrow> groupOf a = (i, ad_type e)"
proof (intro ballI impI)
  fix a
  assume a: "a \<in> set (addresses s)" "ad_id a = x"
  have e: "e \<in> set (addresses s)" "ad_id e = x" "ad_customerId e = i"
    using assms(2) by (auto simp: findAddress_def dest: find_SomeD)
  have "inj_on ad_id (set (addresses s))"
    using assms(1) by (simp add: addressesOkBut_def addressIndexOk_def distinct_map)
  then have "a = e" using a e by (auto dest: inj_onD)
  then show "groupOf a = (i, ad_type e)" using e by (simp add: groupOf_def)
qed

lemma updateAddressTx_ok:
  assumes ok: "addressesOk s" and c: "hasCustomer i t s" and e: "findAddress x i t s = Some e"
  shows "wpT (updateAddressTx env i x t e data ctx) (\<lambda>_. addressesOk) s"
proof -
  let ?new = "putType (jget ''type'' data) (ad_type e)" and ?old = "ad_type e"
  let ?u = "\<lambda>s. \<forall>a \<in> set (addresses s). ad_id a = x \<longrightarrow> groupOf a = (i, ?old)"
  let ?K = "\<lambda>G s'. addressesOkBut G s' \<and> hasCustomer i t s'"
  let ?G = "{(i, ?old), (i, ?new)}"
  have has: "customers s' = customers s1 \<Longrightarrow> hasCustomer i t s1 \<Longrightarrow> hasCustomer i t s'" for s' s1
    by (simp add: hasCustomer_def)
  have u: "?u s" by (rule unique_group [OF ok e])
  have 1: "wpT (if jget ''isDefault'' data = JBool True then clearDefault i t ?new else returnT ())
      (\<lambda>_ s'. ?K {(i, ?new)} s' \<and> ?u s') s"
    using ok c u wpT_mono [OF clearDefault_ok [OF ok, of i t ?new]] has
    by (auto simp: wpT_returnT intro: addressesOkBut_weaken)
  have 2: "wpT (repoUpdateAddress x data) (\<lambda>_. ?K ?G) s1" if "?K {(i, ?new)} s1 \<and> ?u s1" for s1
    by (rule wpT_mono [OF repoUpdateAddress_ok [of "{(i, ?new)}" s1 x i ?old data]])
       (use that in \<open>simp_all add: hasCustomer_def insert_commute\<close>)
  have 3: "wpT (ensureDefault i t ?old) (\<lambda>_. ?K ({(i, ?new)} - {(i, ?old)})) s1" if "?K ?G s1" for s1
    by (rule wpT_mono [OF ensureDefault_ok [of ?G]]) (use that has in \<open>auto simp: insert_Diff_if\<close>)
  have 4: "wpT (if ?new \<noteq> ?old then ensureDefault i t ?new else returnT ()) (\<lambda>_. addressesOk) s1"
    if "?K ({(i, ?new)} - {(i, ?old)}) s1" for s1
    using that wpT_mono [OF ensureDefault_ok [of "{(i, ?new)}" s1 i t ?new], of "\<lambda>_. addressesOk"]
    by (auto simp: wpT_returnT)
  show ?thesis
    unfolding updateAddressTx_def Let_def wpT_thenT wpT_bindT wpT_readT wpT_returnT
    by (rule wpT_mono [OF 1], rule wpT_mono [OF 2], assumption, rule wpT_mono [OF 3], assumption,
        rule wpT_mono [OF 4], assumption, rule customerLog_ok)
qed

lemma updateAddress_keeps: "keepsH addressesOk (updateAddress env i x t data ctx)"
proof (rule keepsH_wp)
  fix s
  assume ok: "addressesOk s"
  have "wpH (transaction (updateAddressTx env i x t e data ctx)) (\<lambda>_. addressesOk) (\<lambda>_. addressesOk) s"
    if "hasCustomer i t s" "findAddress x i t s = Some e" for e
    by (rule wpH_transaction_keeps [OF updateAddressTx_ok [OF ok that] ok])
  then show "wpH (updateAddress env i x t data ctx) (\<lambda>_. addressesOk) (\<lambda>_. addressesOk) s"
    using ok by (auto simp: updateAddress_def wp findCustomer_has split: option.split)
qed

lemma deleteAddress_keeps: "keepsH addressesOk (deleteAddress env i x t ctx)"
proof (rule keepsH_wp)
  fix s
  assume ok: "addressesOk s"
  let ?m = "\<lambda>e. thenT (repoDeleteAddress x)
       (thenT (ensureDefault i t (ad_type e))
         (customerLog env ctx t ''DELETE'' ''customer_address'' x
            (toAddressSnapshot (Some e)) JNull
            ''customer.address.delete'' (''Address '' @ x @ '' removed from customer '' @ i)))"
  have "wpT (?m e) (\<lambda>_. addressesOk) s" if c: "hasCustomer i t s" and e: "findAddress x i t s = Some e" for e
  proof -
    let ?K = "\<lambda>G s'. addressesOkBut G s' \<and> hasCustomer i t s'"
    have 1: "wpT (repoDeleteAddress x) (\<lambda>_. ?K {(i, ad_type e)}) s"
      using wpT_mono [OF repoDeleteAddress_ok [OF ok unique_group [OF ok e]], of "\<lambda>_. ?K {(i, ad_type e)}"] c
      by (auto simp: hasCustomer_def)
    have 2: "wpT (ensureDefault i t (ad_type e)) (\<lambda>_. addressesOk) s1" if "?K {(i, ad_type e)} s1" for s1
      using wpT_mono [OF ensureDefault_ok [of "{(i, ad_type e)}" s1 i t "ad_type e"], of "\<lambda>_. addressesOk"] that
      by auto
    show ?thesis
      unfolding wpT_thenT by (rule wpT_mono [OF 1], rule wpT_mono [OF 2], assumption, rule customerLog_ok)
  qed
  then have "wpH (transaction (?m e)) (\<lambda>_. addressesOk) (\<lambda>_. addressesOk) s"
    if "hasCustomer i t s" "findAddress x i t s = Some e" for e
    using that ok by (intro wpH_transaction_keeps)
  then show "wpH (deleteAddress env i x t ctx) (\<lambda>_. addressesOk) (\<lambda>_. addressesOk) s"
    using ok by (auto simp: deleteAddress_def wpH_thenH wpH_bindH wpH_readH wpH_orThrowH wpH_getCustomer
        findCustomer_has split: option.split)
qed

lemma addressesOk_count:
  assumes "addressesOk s" and "a \<in> set (addresses s)"
  shows "countWhere (\<lambda>b. groupOf b = groupOf a \<and> ad_isDefault b) (addresses s) = 1"
proof -
  let ?ds = "filter ad_isDefault (addresses s)"
  have "groupOk (addresses s) (groupOf a)" and d: "distinct (map groupOf ?ds)"
    using assms(1) unfolding addressesOkBut_def addressIndexOk_def by blast+
  then have "list_ex (\<lambda>b. groupOf b = groupOf a \<and> ad_isDefault b) (addresses s)"
    using assms(2) unfolding groupOk_def list_ex_iff by blast
  then obtain b where b: "b \<in> set ?ds" "groupOf a = groupOf b" by (auto simp: list_ex_iff)
  then have mem: "groupOf a \<in> set (map groupOf ?ds)" unfolding set_map by (intro image_eqI [of _ _ b])
  have "length (filter (\<lambda>b. groupOf b = g) xs) = (if g \<in> set (map groupOf xs) then 1 else 0)"
    if "distinct (map groupOf xs)" for xs g
    using that by (induction xs) auto
  from this [OF d] mem show ?thesis
    by (simp add: countWhere_def filter_filter conj_commute)
qed


definition demoAddress :: "string \<Rightarrow> address_type \<Rightarrow> bool \<Rightarrow> address_row" where
  "demoAddress i ty d = (blankAddress i ''t'' ''c'' ty d 0)\<lparr>ad_line1 := ''1 MG Road'', ad_city := ''Pune'', ad_country := ''IN''\<rparr>"

definition addressDb :: db where
  "addressDb = demoDb\<lparr>addresses := [demoAddress ''s1'' A_SHIPPING True, demoAddress ''s2'' A_SHIPPING False,
     demoAddress ''b1'' A_BILLING True]\<rparr>"

lemma addressDb_ok: "addressesOk addressDb"
proof -
  have a: "customerIndexOk (customers addressDb) \<and> addressIndexOk (addresses addressDb)
      \<and> linked (customers addressDb) (addresses addressDb)" by code_simp
  have g: "groupOk (addresses addressDb) g" for g
    by (auto simp: groupOk_def addressDb_def groupOf_def demoAddress_def blankAddress_def)
  from a g show ?thesis by (simp add: addressesOkBut_def)
qed

definition noCtx :: audit_context where
  "noCtx = \<lparr>cx_userId = None, cx_ipAddress = None, cx_userAgent = None\<rparr>"


lemma updated_clash:
  assumes e: "e \<in> set rs" "ad_id e = x" and d: "d \<in> set rs" "ad_id d \<noteq> x" "ad_isDefault d"
    and f: "ad_isDefault (f e)" "groupOf (f e) = groupOf d" "ad_id (f e) = x"
  shows "\<not> addressIndexOk (updateMany (\<lambda>a. ad_id a = x) f rs)"
proof
  let ?rs = "updateMany (\<lambda>a. ad_id a = x) f rs"
  assume "addressIndexOk ?rs"
  then have inj: "inj_on groupOf (set (filter ad_isDefault ?rs))"
    by (simp add: addressIndexOk_def distinct_map)
  have "f e \<in> set (filter ad_isDefault ?rs)" using e f by (auto simp: set_updateMany)
  moreover have "d \<in> set (filter ad_isDefault ?rs)"
    using d by (auto simp: set_updateMany intro!: rev_image_eqI [of d])
  ultimately have "f e = d" using inj f(2) by (auto dest: inj_onD)
  then show False using d f by simp
qed

text \<open>Moving a customer's default address to the other type, without saying anything about the default,
  fails with the database's unique violation (which the service does not translate) whenever the
  customer has an address of the other type: the patched row keeps its default flag while the other
  type has a default already. Nothing is written.\<close>

theorem moving_default_address_clashes:
  assumes ok: "addressesOk s" and c: "findCustomer i t s = Some c" and e: "findAddress x i t s = Some e"
    and d: "ad_isDefault e" and u: "jget ''isDefault'' data = JUndef"
    and ty: "putType (jget ''type'' data) (ad_type e) = ty" "ty \<noteq> ad_type e"
    and b: "b \<in> set (addresses s)" "groupOf b = (i, ty)"
  shows "updateAddress env i x t data ctx s = (Inl uniqueViolation, s)"
proof -
  have "groupOk (addresses s) (i, ty)" using ok by (simp add: addressesOkBut_def)
  then obtain d1 where d1: "d1 \<in> set (addresses s)" "groupOf d1 = (i, ty)" "ad_isDefault d1"
    using b by (auto simp: groupOk_def list_ex_iff)
  have em: "e \<in> set (addresses s)" "ad_id e = x" "ad_customerId e = i"
    using e by (auto simp: findAddress_def dest: find_SomeD)
  have "ad_id d1 \<noteq> x" using unique_group [OF ok e] d1 ty(2) by auto
  then have "\<not> addressIndexOk (updateMany (\<lambda>a. ad_id a = x) (patchAddress data) (addresses s))"
    using em d1 d u ty by (intro updated_clash [of e _ x d1]) (auto simp: putBool_def groupOf_def)
  moreover have "list_ex (\<lambda>a. ad_id a = x) (addresses s)" using em by (auto simp: list_ex_iff)
  ultimately have "updateAddressTx env i x t e data ctx s = Inl uniqueViolation"
    using u by (simp add: updateAddressTx_def Let_def repoUpdateAddress_def saveAddresses_def monad_defs)
  then show ?thesis
    using c e by (simp add: updateAddress_def thenH_def bindH_def getCustomer_eq readH_def orThrowH_def returnH_def transaction_def)
qed

lemma moving_default_address_clashes_witness:
  "updateAddress demoEnv ''c'' ''s1'' ''t'' (JObj [(''type'', JStr ''BILLING'')]) noCtx addressDb
     = (Inl uniqueViolation, addressDb)"
proof (rule moving_default_address_clashes [OF addressDb_ok])
  show "findCustomer ''c'' ''t'' addressDb = Some demoCustomer" by code_simp
  show "findAddress ''s1'' ''c'' ''t'' addressDb = Some (demoAddress ''s1'' A_SHIPPING True)" by code_simp
  show "demoAddress ''b1'' A_BILLING True \<in> set (addresses addressDb)" by code_simp
qed code_simp+

end
