(* ===== verification/Jobs.thy ===== *)
theory Jobs
  imports AuditLog
begin

text \<open>
  The producer of notification jobs: src/src/jobs/queues/notification.queue.js with the queue
  connected. What \<open>queue.add\<close> is given is a row of \<open>jobs\<close>; the queue itself (its de-duplication by job
  id, its retries, the synchronous fallback when it is down) is a library and is left out.
\<close>

definition JOB_SENSITIVE_KEYS :: "string list" where
  "JOB_SENSITIVE_KEYS = [''password'', ''passwordHash'', ''password_hash'', ''secret'', ''token'',
     ''refreshToken'', ''accessToken'', ''authorization'', ''cookie'']"

definition isJobSensitiveKey :: "string \<Rightarrow> bool" where
  "isJobSensitiveKey k =
     (k \<in> set JOB_SENSITIVE_KEYS \<or> strIncludes (toLowerCase k) ''password''
      \<or> strIncludes (toLowerCase k) ''secret'' \<or> strIncludes (toLowerCase k) ''token''
      \<or> strIncludes (toLowerCase k) ''authorization'' \<or> strIncludes (toLowerCase k) ''cookie'')"

fun containsSensitiveKey :: "jsval \<Rightarrow> bool" where
  "containsSensitiveKey (JObj kvs) =
     list_ex (\<lambda>kv. isJobSensitiveKey (fst kv) \<or> containsSensitiveKey (snd kv)) kvs"
| "containsSensitiveKey (JArr vs) = list_ex containsSensitiveKey vs"
| "containsSensitiveKey _ = False"

record notification_job =
  nj_tenantId :: string
  nj_userId :: "string option"
  nj_type :: string
  nj_title :: string
  nj_message :: string
  nj_channel :: string
  nj_referenceType :: "string option"
  nj_referenceId :: "string option"
  nj_metadata :: jsval
  nj_idempotencyKey :: "string option"
  nj_template :: "string option"
  nj_variables :: jsval

definition jobPayload :: "env \<Rightarrow> notification_job \<Rightarrow> jsval" where
  "jobPayload env j = JObj
     [(''tenantId'', JStr (nj_tenantId j)), (''userId'', jsOfOpt (nj_userId j)), (''type'', JStr (nj_type j)),
      (''title'', JStr (nj_title j)), (''message'', JStr (nj_message j)), (''channel'', JStr (nj_channel j)),
      (''referenceType'', jsOfOpt (nj_referenceType j)), (''referenceId'', jsOfOpt (nj_referenceId j)),
      (''metadata'', nj_metadata j), (''template'', jsOfOpt (nj_template j)),
      (''variables'', nj_variables j), (''enqueuedAt'', JStr (env_iso env (env_now env)))]"

text \<open>The queue's job id: \<open>notif-tenant-key\<close> with every colon a dash.\<close>

definition jobIdOf :: "notification_job \<Rightarrow> string option" where
  "jobIdOf j = (case orElse (nj_idempotencyKey j) None of
       None \<Rightarrow> None
     | Some k \<Rightarrow> Some (map (\<lambda>c. if c = CHR '':'' then CHR ''-'' else c)
                  (''notif-'' @ nj_tenantId j @ ''-'' @ k)))"

definition enqueueNotification :: "env \<Rightarrow> notification_job \<Rightarrow> string option dbio" where
  "enqueueNotification env j =
     thenH (throwIfH (nj_tenantId j = []) (JsError ''tenantId is required for notification job''))
    (thenH (throwIfH (nj_title j = [] \<or> nj_message j = []) (JsError ''title and message are required''))
    (thenH (throwIfH (containsSensitiveKey (nj_metadata j))
              (JsError ''Sensitive data must not be enqueued in job payload''))
    (thenH (throwIfH (containsSensitiveKey (nj_variables j)) (JsError ''Sensitive data must not be enqueued''))
    (thenH (writeH (\<lambda>s. s\<lparr>jobs := jobs s @ [JObj [(''id'', jsOfOpt (jobIdOf j)), (''data'', jobPayload env j)]]\<rparr>))
      (returnH (jobIdOf j))))))"

text \<open>The business services ignore a failed enqueue.\<close>

definition tryEnqueue :: "env \<Rightarrow> notification_job \<Rightarrow> unit dbio" where
  "tryEnqueue env j = catchH (thenH (enqueueNotification env j) (returnH ())) (\<lambda>_. returnH ())"

lemma tryEnqueue_frame: "\<exists>js. tryEnqueue env j s = (Inr (), s\<lparr>jobs := jobs s @ js\<rparr>)"
proof -
  have self: "s = s\<lparr>jobs := jobs s @ []\<rparr>" by simp
  show ?thesis
    unfolding tryEnqueue_def enqueueNotification_def
    by (simp add: monad_defs) (use self in \<open>blast\<close>)
qed

definition jobsClean :: "db \<Rightarrow> bool" where
  "jobsClean s \<longleftrightarrow> list_all (\<lambda>j. \<not> containsSensitiveKey j) (jobs s)"

lemma jobPayload_clean:
  "\<not> containsSensitiveKey (nj_metadata j) \<Longrightarrow> \<not> containsSensitiveKey (nj_variables j) \<Longrightarrow>
     \<not> containsSensitiveKey (JObj [(''id'', jsOfOpt i), (''data'', jobPayload env j)])"
  by (simp add: jobPayload_def isJobSensitiveKey_def JOB_SENSITIVE_KEYS_def jsOfOpt_def lower_char_def
        split: option.split)

text \<open>No secret enters the job queue. Whatever a service asks to enqueue, a job of the queue never has a
  key, at any depth, that names a password, secret, token, authorization or cookie.\<close>

theorem enqueued_jobs_have_no_secrets:
  "keepsH jobsClean (enqueueNotification env j) \<and> keepsH jobsClean (tryEnqueue env j)"
proof -
  have "keepsH jobsClean (enqueueNotification env j)"
    unfolding enqueueNotification_def
    by (rule keepsH_wp) (use jobPayload_clean [of j "jobIdOf j" env] in \<open>auto simp: wp jobsClean_def\<close>)
  then show ?thesis unfolding tryEnqueue_def by (intro conjI keeps)
qed

end
