(* ===== verification/Orders.thy ===== *)
theory Orders
  imports Inventory Plans Customers Jobs
begin

text \<open>
  Orders: src/src/modules/orders/orders.service.js, with \<open>resolveOrderDefaults\<close> of orders/gst.js. An
  order is prepared by reads outside the transaction (\<open>prepareOrder\<close>), then written in one
  transaction (\<open>orderTx\<close>) that is retried like the stock transactions. Amounts travel as strings, as
  in the code; a decimal column holds the paise the string denotes (\<open>cents\<close>).
\<close>

section \<open>Order defaults (gst.js)\<close>

record order_defaults =
  od_gstRatePercent :: rat
  od_currency :: string
  od_taxProfile :: jsval

definition settingsMetadata :: "string \<Rightarrow> db \<Rightarrow> jsval" where
  "settingsMetadata tenantId s =
     (case find (\<lambda>r. se_tenantId r = tenantId) (settings s) of None \<Rightarrow> JUndef | Some r \<Rightarrow> se_metadata r)"

definition resolveOrderDefaults :: "env \<Rightarrow> string \<Rightarrow> db \<Rightarrow> order_defaults" where
  "resolveOrderDefaults env tenantId s =
     (let meta = settingsMetadata tenantId s in
      \<lparr>od_gstRatePercent = (case jget ''gstRatePercent'' meta of JNum n \<Rightarrow> n | _ \<Rightarrow> env_defaultGstRate env),
       od_currency = (case jsStr (jsOr (jget ''currency'' meta) (JStr ''INR'')) of None \<Rightarrow> ''INR'' | Some c \<Rightarrow> c),
       od_taxProfile = jsNullish (jget ''taxProfile'' meta) (JObj [])\<rparr>)"

section \<open>The status machine\<close>

definition ORDER_STATUS_TRANSITIONS :: "order_status \<Rightarrow> order_status list" where
  "ORDER_STATUS_TRANSITIONS st = (case st of
       O_DRAFT \<Rightarrow> [O_PENDING, O_CANCELLED]
     | O_PENDING \<Rightarrow> [O_CONFIRMED, O_CANCELLED]
     | O_CONFIRMED \<Rightarrow> [O_PROCESSING, O_CANCELLED]
     | O_PROCESSING \<Rightarrow> [O_SHIPPED, O_CANCELLED]
     | O_SHIPPED \<Rightarrow> [O_DELIVERED]
     | O_DELIVERED \<Rightarrow> [O_REFUNDED, O_PARTIALLY_REFUNDED]
     | O_CANCELLED \<Rightarrow> []
     | O_REFUNDED \<Rightarrow> []
     | O_PARTIALLY_REFUNDED \<Rightarrow> [O_REFUNDED])"

definition CANCELLABLE_STATUSES :: "order_status list" where
  "CANCELLABLE_STATUSES = [O_DRAFT, O_PENDING, O_CONFIRMED, O_PROCESSING]"

definition isValidTransition :: "order_status option \<Rightarrow> order_status \<Rightarrow> bool" where
  "isValidTransition from to' = (case from of
       None \<Rightarrow> True
     | Some f \<Rightarrow> f \<noteq> to' \<and> to' \<in> set (ORDER_STATUS_TRANSITIONS f))"

fun orderRank :: "order_status \<Rightarrow> nat" where
  "orderRank O_DRAFT = 0"
| "orderRank O_PENDING = 1"
| "orderRank O_CONFIRMED = 2"
| "orderRank O_PROCESSING = 3"
| "orderRank O_SHIPPED = 4"
| "orderRank O_DELIVERED = 5"
| "orderRank O_PARTIALLY_REFUNDED = 6"
| "orderRank O_REFUNDED = 7"
| "orderRank O_CANCELLED = 8"

interpretation order_machine: status_machine ORDER_STATUS_TRANSITIONS orderRank
  by unfold_locales (auto simp: ORDER_STATUS_TRANSITIONS_def split: order_status.splits)

lemma orderRank_inj: "orderRank a = orderRank b \<longleftrightarrow> a = b"
  by (cases a; cases b) simp_all

text \<open>The statuses in the order of their rank.\<close>

instantiation order_status :: linorder
begin

definition less_eq_order_status :: "order_status \<Rightarrow> order_status \<Rightarrow> bool" where
  "less_eq_order_status a b \<longleftrightarrow> orderRank a \<le> orderRank b"

definition less_order_status :: "order_status \<Rightarrow> order_status \<Rightarrow> bool" where
  "less_order_status a b \<longleftrightarrow> orderRank a < orderRank b"

instance
  by standard (auto simp: less_eq_order_status_def less_order_status_def orderRank_inj)

end

section \<open>Snapshots\<close>

definition jsName :: "string option \<Rightarrow> jsval" where
  "jsName x = (case x of None \<Rightarrow> JUndef | Some s \<Rightarrow> JStr s)"

definition orNull :: "string \<Rightarrow> jsval \<Rightarrow> jsval" where
  "orNull k profile = jsOr (jget k profile) JNull"

definition sellerOf :: "string option \<Rightarrow> jsval \<Rightarrow> jsval" where
  "sellerOf tenantName profile = JObj
     [(''name'', jsOr (jget ''legalName'' profile) (jsOr (jsName tenantName) JNull)),
      (''tradeName'', orNull ''tradeName'' profile), (''gstin'', orNull ''gstin'' profile),
      (''pan'', orNull ''pan'' profile), (''registrationType'', orNull ''registrationType'' profile),
      (''stateCode'', orNull ''stateCode'' profile),
      (''stateName'', case jget ''stateCode'' profile of
          JStr c \<Rightarrow> if c = [] then JNull else jsOfOpt (stateName c) | _ \<Rightarrow> JNull),
      (''address'', orNull ''address'' profile), (''phone'', orNull ''phone'' profile),
      (''email'', orNull ''email'' profile),
      (''bank'', if truthy (jget ''bankName'' profile) then JObj
          [(''name'', jget ''bankName'' profile), (''accountNumber'', orNull ''accountNumber'' profile),
           (''ifsc'', orNull ''ifsc'' profile)] else JNull),
      (''upiId'', orNull ''upiId'' profile), (''signatory'', orNull ''signatory'' profile),
      (''terms'', orNull ''invoiceTerms'' profile)]"

text \<open>\<open>[firstName, lastName].filter(Boolean).join(' ')\<close>.\<close>

definition personName :: "customer_row \<Rightarrow> string" where
  "personName c = (if cu_firstName c = [] then cu_lastName c
     else if cu_lastName c = [] then cu_firstName c else cu_firstName c @ '' '' @ cu_lastName c)"

definition buyerOf :: "customer_row \<Rightarrow> jsval" where
  "buyerOf c =
     (let person = personName c;
          business = cu_customerType c = ''BUSINESS''
      in JObj
       [(''type'', JStr (if business then ''BUSINESS'' else ''CONSUMER'')),
        (''name'', JStr (case orElse (cu_companyName c) None of
            Some n \<Rightarrow> if business then n else person | None \<Rightarrow> person)),
        (''contactName'', if business then JStr person else JNull),
        (''gstin'', if business then jsOfOpt (cu_gstin c) else JNull),
        (''pan'', if business then jsOfOpt (cu_pan c) else JNull),
        (''stateCode'', case cu_stateCode c of
            Some x \<Rightarrow> JStr x
          | None \<Rightarrow> (case orElse (cu_gstin c) None of None \<Rightarrow> JNull | Some g \<Rightarrow> JStr (take 2 g))),
        (''email'', JStr (cu_email c)), (''phone'', jsOfOpt (cu_phone c))])"

section \<open>Preparing an order\<close>

record item_body =
  ib_productVariantId :: "string option"
  ib_variantId :: "string option"
  ib_warehouseId :: string
  ib_quantity :: int
  ib_discount :: "string option"
  ib_tax :: "string option"

record order_body =
  ob_customerId :: string
  ob_items :: "item_body list"
  ob_shippingTotal :: "string option"
  ob_currency :: "string option"
  ob_metadata :: jsval
  ob_shippingAddressId :: "string option"
  ob_billingAddressId :: "string option"
  ob_channel :: "string option"

record norm_item =
  ni_productVariantId :: string
  ni_warehouseId :: string
  ni_quantity :: int
  ni_discount :: string
  ni_tax :: "string option"

definition normalizeItem :: "item_body \<Rightarrow> norm_item" where
  "normalizeItem it = \<lparr>
     ni_productVariantId = orEmpty (orElse (ib_productVariantId it) (ib_variantId it)),
     ni_warehouseId = ib_warehouseId it, ni_quantity = ib_quantity it,
     ni_discount = orEmpty (orElse (ib_discount it) (Some ''0'')), ni_tax = ib_tax it\<rparr>"

record item_calc =
  ic_productVariantId :: string
  ic_warehouseId :: string
  ic_quantity :: int
  ic_unitPriceStr :: string
  ic_discountStr :: string
  ic_taxStr :: string
  ic_lineTotalStr :: string
  ic_rate :: rat
  ic_taxable :: string
  ic_cgst :: string
  ic_sgst :: string
  ic_igst :: string
  ic_variant :: variant_row
  ic_product :: product_row

text \<open>The running totals of the loop.\<close>

record totals =
  to_subtotal :: paise
  to_discount :: paise
  to_tax :: paise
  to_cgst :: paise
  to_sgst :: paise
  to_igst :: paise

definition noTotals :: totals where
  "noTotals = \<lparr>to_subtotal = 0, to_discount = 0, to_tax = 0, to_cgst = 0, to_sgst = 0, to_igst = 0\<rparr>"

definition productOf :: "variant_row \<Rightarrow> db \<Rightarrow> product_row" where
  "productOf v s = (case find (\<lambda>p. pr_id p = va_productId v) (products s) of
       Some p \<Rightarrow> p
     | None \<Rightarrow> \<lparr>pr_id = va_productId v, pr_tenantId = va_tenantId v, pr_name = [], pr_hsnCode = None,
         pr_gstRatePercent = None, pr_gstTaxability = ''TAXABLE'', pr_status = PR_DRAFT, pr_deletedAt = None\<rparr>)"

definition gstProduct :: "product_row \<Rightarrow> gst_product" where
  "gstProduct p = \<lparr>gp_gstTaxability = Some (pr_gstTaxability p), gp_gstRatePercent = pr_gstRatePercent p\<rparr>"

text \<open>\<open>for (const item of items)\<close>: every variant exists and is sellable, then every warehouse exists.\<close>

fun checkVariants :: "string \<Rightarrow> db \<Rightarrow> norm_item list \<Rightarrow> error + unit" where
  "checkVariants tenantId s [] = Inr ()"
| "checkVariants tenantId s (it # its) =
     (case findVariant (ni_productVariantId it) tenantId s of
        None \<Rightarrow> Inl (AppError 404 ''VARIANT_NOT_FOUND'')
      | Some v \<Rightarrow> if va_status v \<noteq> V_ACTIVE then Inl (AppError 409 ''VARIANT_NOT_SELLABLE'')
                  else checkVariants tenantId s its)"

fun checkWarehouses :: "string \<Rightarrow> db \<Rightarrow> norm_item list \<Rightarrow> error + unit" where
  "checkWarehouses tenantId s [] = Inr ()"
| "checkWarehouses tenantId s (it # its) =
     (case findWarehouse (ni_warehouseId it) tenantId s of
        None \<Rightarrow> Inl (AppError 404 ''WAREHOUSE_NOT_FOUND'')
      | Some w \<Rightarrow> checkWarehouses tenantId s its)"

record pricing =
  pg_chargesGst :: bool
  pg_gstRatePercent :: rat
  pg_inclusive :: bool
  pg_intraState :: bool

definition calcItem ::
  "pricing \<Rightarrow> variant_row \<Rightarrow> product_row \<Rightarrow> norm_item \<Rightarrow> totals \<Rightarrow> error + item_calc \<times> totals" where
  "calcItem pg variant product item t =
     (let unitPriceStr = decToString (va_price variant);
          unitCents = cents unitPriceStr;
          qty = ni_quantity item;
          discountCents = cents (ni_discount item);
          explicitTaxCents = map_option cents (ni_tax item);
          grossCents = unitCents * qty - discountCents
      in if qty \<le> 0 then Inl (AppError 400 ''INVALID_QUANTITY'')
         else if discountCents < 0 then Inl (AppError 400 ''INVALID_MONEY'')
         else if (case explicitTaxCents of None \<Rightarrow> False | Some x \<Rightarrow> x < 0) then Inl (AppError 400 ''INVALID_MONEY'')
         else if grossCents < 0 then Inl (AppError 400 ''INVALID_LINE_TOTAL'')
         else
           (let rate = (if pg_chargesGst pg then lineRate (Some (gstProduct product)) (pg_gstRatePercent pg) else 0);
                lt = lineTax grossCents rate (pg_inclusive pg) explicitTaxCents;
                taxableCents = lt_taxableCents lt;
                taxCents = lt_taxCents lt;
                split = splitTax taxCents (pg_intraState pg);
                lineTotalCents = taxableCents + taxCents
            in Inr
              (\<lparr>ic_productVariantId = ni_productVariantId item, ic_warehouseId = ni_warehouseId item,
                ic_quantity = qty, ic_unitPriceStr = unitPriceStr, ic_discountStr = money discountCents,
                ic_taxStr = money taxCents, ic_lineTotalStr = money lineTotalCents, ic_rate = rate,
                ic_taxable = money taxableCents, ic_cgst = money (ts_cgst split),
                ic_sgst = money (ts_sgst split), ic_igst = money (ts_igst split),
                ic_variant = variant, ic_product = product\<rparr>,
               \<lparr>to_subtotal = to_subtotal t + (taxableCents + discountCents),
                to_discount = to_discount t + discountCents, to_tax = to_tax t + taxCents,
                to_cgst = to_cgst t + ts_cgst split, to_sgst = to_sgst t + ts_sgst split,
                to_igst = to_igst t + ts_igst split\<rparr>)))"

fun calcItems ::
  "pricing \<Rightarrow> string \<Rightarrow> db \<Rightarrow> norm_item list \<Rightarrow> totals \<Rightarrow> error + item_calc list \<times> totals" where
  "calcItems pg tenantId s [] t = Inr ([], t)"
| "calcItems pg tenantId s (it # its) t =
     (case findVariant (ni_productVariantId it) tenantId s of
        None \<Rightarrow> Inl (JsError ''Cannot read properties of undefined'')
      | Some v \<Rightarrow>
          (case calcItem pg v (productOf v s) it t of
             Inl e \<Rightarrow> Inl e
           | Inr (c, t') \<Rightarrow>
               (case calcItems pg tenantId s its t' of
                  Inl e \<Rightarrow> Inl e
                | Inr (cs, t'') \<Rightarrow> Inr (c # cs, t''))))"

record prepared_order =
  pp_customer :: customer_row
  pp_currency :: string
  pp_metadata :: jsval
  pp_shippingAddress :: jsval
  pp_billingAddress :: jsval
  pp_sellerState :: "string option"
  pp_supplyState :: "string option"
  pp_intraState :: bool
  pp_items :: "item_calc list"
  pp_subtotalStr :: string
  pp_discountTotalStr :: string
  pp_taxTotalStr :: string
  pp_shippingTotalFixed :: string
  pp_totalStr :: string
  pp_cgstTotal :: string
  pp_sgstTotal :: string
  pp_igstTotal :: string
  pp_sellerSnapshot :: jsval
  pp_buyerSnapshot :: jsval
  pp_prefix :: string
  pp_channel :: string

definition NO_GST_REGISTRATIONS :: "string list" where
  "NO_GST_REGISTRATIONS = [''COMPOSITION'', ''UNREGISTERED'']"

definition chargesGst :: "jsval \<Rightarrow> bool" where
  "chargesGst taxProfile =
     (case jsStr (jget ''registrationType'' taxProfile) of
        None \<Rightarrow> True | Some r \<Rightarrow> r \<notin> set NO_GST_REGISTRATIONS)"

text \<open>Lines 203 to 220: the totals of the loop and the parties, as the transaction writes them.\<close>

definition finishOrder ::
  "order_body \<Rightarrow> order_defaults \<Rightarrow> customer_row \<Rightarrow> tenant_row option \<Rightarrow> pricing \<Rightarrow> jsval \<Rightarrow> jsval
     \<Rightarrow> string option \<Rightarrow> string option \<Rightarrow> item_calc list \<Rightarrow> totals \<Rightarrow> prepared_order" where
  "finishOrder body defaults customer tenant pg shipping billing sellerState supplyState items t =
     (let shippingCents = cents (orEmpty (orElse (ob_shippingTotal body) (Some ''0'')));
          totalCents = to_subtotal t - to_discount t + to_tax t + shippingCents
      in \<lparr>pp_customer = customer,
          pp_currency = orEmpty (orElse (ob_currency body) (Some (od_currency defaults))),
          pp_metadata = spread (jsOr (ob_metadata body) (JObj []))
            [(''gstRatePercent'', JNum (pg_gstRatePercent pg)), (''pricesIncludeTax'', JBool (pg_inclusive pg))],
          pp_shippingAddress = shipping, pp_billingAddress = billing,
          pp_sellerState = sellerState, pp_supplyState = supplyState, pp_intraState = pg_intraState pg,
          pp_items = items,
          pp_subtotalStr = money (to_subtotal t), pp_discountTotalStr = money (to_discount t),
          pp_taxTotalStr = money (to_tax t), pp_shippingTotalFixed = money shippingCents,
          pp_totalStr = money totalCents,
          pp_cgstTotal = money (to_cgst t), pp_sgstTotal = money (to_sgst t), pp_igstTotal = money (to_igst t),
          pp_sellerSnapshot = sellerOf (map_option tn_name tenant) (od_taxProfile defaults),
          pp_buyerSnapshot = buyerOf customer,
          pp_prefix = invoicePrefix (jsStr (jget ''invoicePrefix'' (od_taxProfile defaults))) (map_option tn_slug tenant),
          pp_channel = (case ob_channel body of None \<Rightarrow> ''STAFF'' | Some c \<Rightarrow> c)\<rparr>)"

definition prepareOrder :: "env \<Rightarrow> string \<Rightarrow> order_body \<Rightarrow> prepared_order dbio" where
  "prepareOrder env tenantId body =
     bindH (readH (resolveOrderDefaults env tenantId)) (\<lambda>defaults.
     let profile = od_taxProfile defaults;
         charges = chargesGst profile;
         rate = (if charges then od_gstRatePercent defaults else 0);
         inclusive = truthy (jget ''pricesIncludeTax'' profile)
     in bindH (readH (findCustomer (ob_customerId body) tenantId)) (\<lambda>found.
        bindH (orThrowH found (AppError 404 ''CUSTOMER_NOT_FOUND'')) (\<lambda>customer.
        thenH (assertWithinPlan env tenantId ''ordersPerMonth'')
       (bindH (resolveOrderAddress (ob_customerId body) tenantId A_SHIPPING (ob_shippingAddressId body)) (\<lambda>sa.
        bindH (resolveOrderAddress (ob_customerId body) tenantId A_BILLING (ob_billingAddressId body)) (\<lambda>ba.
        let shipping = toAddressSnapshot sa;
            billing = toAddressSnapshot ba;
            sellerState = jsStr (jget ''stateCode'' profile);
            supplyState = placeOfSupply (jsStr (jget ''state'' shipping)) (jsStr (jget ''state'' billing))
              (cu_stateCode customer) (cu_gstin customer);
            pg = \<lparr>pg_chargesGst = charges, pg_gstRatePercent = rate, pg_inclusive = inclusive,
                  pg_intraState = isIntraState sellerState supplyState\<rparr>;
            items = map normalizeItem (ob_items body)
        in bindH (readH (\<lambda>s. checkVariants tenantId s items)) (\<lambda>cv.
           thenH (liftH cv)
          (bindH (readH (\<lambda>s. checkWarehouses tenantId s items)) (\<lambda>cw.
           thenH (liftH cw)
          (bindH (readH (\<lambda>s. calcItems pg tenantId s items noTotals)) (\<lambda>calc.
           bindH (liftH calc) (\<lambda>(cs, t).
           bindH (readH (\<lambda>s. find (\<lambda>r. tn_id r = tenantId) (tenants s))) (\<lambda>tenant.
           returnH (finishOrder body defaults customer tenant pg shipping billing sellerState supplyState
             cs t))))))))))))))"

section \<open>Writing an order\<close>

definition calcKey :: "string \<Rightarrow> item_calc \<Rightarrow> stock_key" where
  "calcKey tenantId it = (tenantId, ic_productVariantId it, ic_warehouseId it)"

text \<open>The lock order sorts by \<open>variant-warehouse\<close>; the locale's collation is the order of character codes here.\<close>

definition lockKeys :: "item_calc list \<Rightarrow> item_calc list" where
  "lockKeys items = sort_key (\<lambda>it. ic_productVariantId it @ ''-'' @ ic_warehouseId it) items"

definition deductItem :: "env \<Rightarrow> string \<Rightarrow> item_calc \<Rightarrow> unit dbtx" where
  "deductItem env tenantId it =
     (let k = calcKey tenantId it in
      bindT (readT (\<lambda>s. stock (inventory s) k)) (\<lambda>row.
      let currentQty = (case row of None \<Rightarrow> 0 | Some q \<Rightarrow> q);
          afterQty = currentQty - ic_quantity it
      in thenT (throwIfT (currentQty < ic_quantity it) (AppError 409 ''INSUFFICIENT_STOCK''))
         (if row \<noteq> None then writeStock env k True afterQty
          else throwT (AppError 409 ''INSUFFICIENT_STOCK''))))"

text \<open>The counter of a financial year: \<open>INSERT ... ON CONFLICT DO UPDATE last_number + 1 RETURNING last_number\<close>.\<close>

type_synonym seq_key = "string \<times> string"

definition seqNumber :: "sequence_row list \<Rightarrow> seq_key \<Rightarrow> nat option" where
  "seqNumber rs k = map_option sq_lastNumber (find (\<lambda>r. (sq_tenantId r, sq_financialYear r) = k) rs)"

definition setSequence :: "seq_key \<Rightarrow> nat \<Rightarrow> sequence_row list \<Rightarrow> sequence_row list" where
  "setSequence k n rs =
     (if list_ex (\<lambda>r. (sq_tenantId r, sq_financialYear r) = k) rs
      then updateMany (\<lambda>r. (sq_tenantId r, sq_financialYear r) = k) (\<lambda>r. r\<lparr>sq_lastNumber := n\<rparr>) rs
      else rs @ [\<lparr>sq_tenantId = fst k, sq_financialYear = snd k, sq_lastNumber = n\<rparr>])"

definition nextSequence :: "string \<Rightarrow> string \<Rightarrow> nat dbtx" where
  "nextSequence tenantId fy =
     bindT (readT (\<lambda>s. case seqNumber (invoiceSeqs s) (tenantId, fy) of None \<Rightarrow> 1 | Some n \<Rightarrow> n + 1)) (\<lambda>n.
     thenT (writeT (\<lambda>s. s\<lparr>invoiceSeqs := setSequence (tenantId, fy) n (invoiceSeqs s)\<rparr>)) (returnT n))"

definition orderRowOf :: "env \<Rightarrow> string \<Rightarrow> prepared_order \<Rightarrow> string \<Rightarrow> nat \<Rightarrow> string \<Rightarrow> order_row" where
  "orderRowOf env tenantId p fy n i = \<lparr>or_id = i, or_tenantId = tenantId, or_customerId = cu_id (pp_customer p),
     or_status = O_PENDING, or_subtotal = cents (pp_subtotalStr p),
     or_discountTotal = cents (pp_discountTotalStr p), or_taxTotal = cents (pp_taxTotalStr p),
     or_shippingTotal = cents (pp_shippingTotalFixed p), or_total = cents (pp_totalStr p),
     or_currency = pp_currency p, or_metadata = pp_metadata p,
     or_shippingAddress = pp_shippingAddress p, or_billingAddress = pp_billingAddress p,
     or_invoiceNumber = Some (formatInvoiceNumber (pp_prefix p) fy n), or_invoiceDate = Some (env_now env),
     or_placeOfSupply = coalesce (pp_supplyState p) (pp_sellerState p),
     or_supplyType = Some (if pp_intraState p then ''INTRA'' else ''INTER''),
     or_cgstTotal = cents (pp_cgstTotal p), or_sgstTotal = cents (pp_sgstTotal p),
     or_igstTotal = cents (pp_igstTotal p),
     or_buyerSnapshot = pp_buyerSnapshot p, or_sellerSnapshot = pp_sellerSnapshot p,
     or_channel = pp_channel p, or_createdAt = env_now env, or_updatedAt = env_now env\<rparr>"

text \<open>\<open>order.create\<close>, with the primary key and the unique index on the tenant's invoice numbers.\<close>

definition insertOrder :: "env \<Rightarrow> string \<Rightarrow> prepared_order \<Rightarrow> string \<Rightarrow> nat \<Rightarrow> order_row dbtx" where
  "insertOrder env tenantId p fy n =
     bindT (freshId env) (\<lambda>i.
     let row = orderRowOf env tenantId p fy n i in
     bindT (readT (\<lambda>s. list_ex (\<lambda>r. or_id r = i
              \<or> or_tenantId r = tenantId \<and> or_invoiceNumber r = or_invoiceNumber row) (orders s))) (\<lambda>taken.
     thenT (throwIfT taken uniqueViolation)
    (thenT (writeT (\<lambda>s. s\<lparr>orders := orders s @ [row]\<rparr>)) (returnT row))))"

text \<open>\<open>parts.join(', ')\<close>.\<close>

fun joinWith :: "string \<Rightarrow> string list \<Rightarrow> string" where
  "joinWith sep [] = []"
| "joinWith sep [x] = x"
| "joinWith sep (x # y # ys) = x @ sep @ joinWith sep (y # ys)"

definition attrSnapshot :: "variant_row \<Rightarrow> jsval" where
  "attrSnapshot v = spread (JObj []) (map (\<lambda>(code, name, x). (code, JStr x)) (va_attributes v))"

definition variantNameSnapshot :: "variant_row \<Rightarrow> string" where
  "variantNameSnapshot v =
     (if va_attributes v = [] then va_sku v
      else joinWith '', '' (map (\<lambda>(code, name, x). name @ ''='' @ x) (va_attributes v)))"

definition itemRowOf :: "string \<Rightarrow> string \<Rightarrow> item_calc \<Rightarrow> order_item_row" where
  "itemRowOf tenantId orderId it = \<lparr>oi_tenantId = tenantId, oi_orderId = orderId,
     oi_variantId = ic_productVariantId it, oi_productName = pr_name (ic_product it),
     oi_variantName = variantNameSnapshot (ic_variant it), oi_attributes = attrSnapshot (ic_variant it),
     oi_sku = va_sku (ic_variant it), oi_unitPrice = cents (ic_unitPriceStr it),
     oi_quantity = ic_quantity it, oi_discount = cents (ic_discountStr it), oi_tax = cents (ic_taxStr it),
     oi_lineTotal = cents (ic_lineTotalStr it), oi_hsnCode = pr_hsnCode (ic_product it),
     oi_gstRatePercent = ic_rate it, oi_taxableValue = cents (ic_taxable it), oi_cgst = cents (ic_cgst it),
     oi_sgst = cents (ic_sgst it), oi_igst = cents (ic_igst it)\<rparr>"

definition insertItem :: "string \<Rightarrow> string \<Rightarrow> item_calc \<Rightarrow> unit dbtx" where
  "insertItem tenantId orderId it = writeT (\<lambda>s. s\<lparr>orderItems := orderItems s @ [itemRowOf tenantId orderId it]\<rparr>)"

definition recordReservation :: "env \<Rightarrow> string \<Rightarrow> string option \<Rightarrow> string \<Rightarrow> item_calc \<Rightarrow> unit dbtx" where
  "recordReservation env tenantId userId orderId it =
     (let k = calcKey tenantId it in
      bindT (readT (\<lambda>s. stock (inventory s) k)) (\<lambda>row.
      bindT (orThrowT row (JsError ''Cannot read properties of undefined'')) (\<lambda>afterQty.
      let beforeQty = afterQty + ic_quantity it
      in bindT (createMovement env (movementOf k M_ORDER_RESERVATION beforeQty (- ic_quantity it) afterQty
                 (Some ''ORDER_CREATED'') (Some ''ORDER'') (Some orderId) userId)) (\<lambda>_. returnT ()))))"

definition insertHistory :: "history_row \<Rightarrow> unit dbtx" where
  "insertHistory h = writeT (\<lambda>s. s\<lparr>orderHistory := orderHistory s @ [h]\<rparr>)"

definition orderSummary :: "prepared_order \<Rightarrow> string \<Rightarrow> jsval" where
  "orderSummary p orderId = JObj [(''orderId'', JStr orderId), (''customerId'', JStr (cu_id (pp_customer p))),
     (''total'', JStr (pp_totalStr p)), (''itemCount'', jsInt (int (length (pp_items p))))]"

definition logOrderCreated ::
  "env \<Rightarrow> string \<Rightarrow> audit_context \<Rightarrow> prepared_order \<Rightarrow> string \<Rightarrow> unit dbtx" where
  "logOrderCreated env tenantId ctx p orderId =
     thenT (logAudit env ctx tenantId ''CREATE'' ''order'' (Some orderId) JNull (orderSummary p orderId))
       (logActivity env ctx tenantId ''order.create'' (''Order '' @ orderId @ '' created'')
          (JObj [(''orderId'', JStr orderId), (''total'', JStr (pp_totalStr p)),
                 (''itemCount'', jsInt (int (length (pp_items p))))]))"

definition findOrder :: "string \<Rightarrow> string \<Rightarrow> db \<Rightarrow> order_row option" where
  "findOrder i tenantId s = find (\<lambda>r. or_id r = i \<and> or_tenantId r = tenantId) (orders s)"

definition orderCore :: "env \<Rightarrow> string \<Rightarrow> audit_context \<Rightarrow> prepared_order \<Rightarrow> order_row dbtx" where
  "orderCore env tenantId ctx p =
     (let items = pp_items p; userId = cx_userId ctx; fy = financialYear (env_now env) in
      thenT (forT (lockKeys items) (\<lambda>it. lockInventory (calcKey tenantId it)))
     (thenT (forT items (deductItem env tenantId))
     (bindT (nextSequence tenantId fy) (\<lambda>n.
      bindT (insertOrder env tenantId p fy n) (\<lambda>order.
      thenT (forT items (insertItem tenantId (or_id order)))
     (thenT (forT items (recordReservation env tenantId userId (or_id order)))
     (thenT (insertHistory \<lparr>hi_tenantId = tenantId, hi_orderId = or_id order, hi_from = None,
               hi_to = O_PENDING, hi_reason = Some ''Order created'', hi_createdBy = userId\<rparr>)
     (thenT (logOrderCreated env tenantId ctx p (or_id order)) (returnT order)))))))))"

text \<open>\<open>inTx\<close> is the hook the counter sale uses to record its payments in the same transaction.\<close>

definition orderTx ::
  "env \<Rightarrow> string \<Rightarrow> audit_context \<Rightarrow> prepared_order \<Rightarrow> (order_row \<Rightarrow> unit dbtx) \<Rightarrow> order_row option dbtx" where
  "orderTx env tenantId ctx p inTx =
     bindT (orderCore env tenantId ctx p) (\<lambda>order.
     thenT (inTx order) (readT (findOrder (or_id order) tenantId)))"

definition orderEvent :: "order_row \<Rightarrow> jsval" where
  "orderEvent r = JObj [(''id'', JStr (or_id r)), (''tenantId'', JStr (or_tenantId r)),
     (''customerId'', JStr (or_customerId r)), (''status'', JStr (order_status_str (or_status r))),
     (''total'', JStr (decToString (or_total r))), (''currency'', JStr (or_currency r)),
     (''createdAt'', JDate (or_createdAt r))]"

definition orderJob :: "string option \<Rightarrow> order_row \<Rightarrow> notification_job" where
  "orderJob userId r = \<lparr>nj_tenantId = or_tenantId r, nj_userId = userId, nj_type = ''SUCCESS'',
     nj_title = ''Order created'',
     nj_message = ''Order '' @ or_id r @ '' created with total '' @ decToString (or_total r),
     nj_channel = ''IN_APP'', nj_referenceType = Some ''ORDER'', nj_referenceId = Some (or_id r),
     nj_metadata = JObj [(''orderId'', JStr (or_id r)), (''total'', JStr (decToString (or_total r)))],
     nj_idempotencyKey = Some (''order:'' @ or_id r), nj_template = Some ''order.created'',
     nj_variables = JObj [(''orderId'', JStr (or_id r)), (''total'', JStr (decToString (or_total r))),
       (''currency'', JStr (or_currency r))]\<rparr>"

definition announceOrder :: "env \<Rightarrow> string \<Rightarrow> string option \<Rightarrow> order_row \<Rightarrow> unit dbio" where
  "announceOrder env tenantId userId r =
     thenH (writeH (\<lambda>s. snd (emitOrderCreated env tenantId (orderEvent r) s)))
       (tryEnqueue env ((orderJob userId r)\<lparr>nj_tenantId := tenantId\<rparr>))"

definition createOrder ::
  "env \<Rightarrow> (nat \<Rightarrow> error option) \<Rightarrow> string \<Rightarrow> audit_context \<Rightarrow> order_body \<Rightarrow> (order_row \<Rightarrow> unit dbtx)
     \<Rightarrow> order_row dbio" where
  "createOrder env faults tenantId ctx body inTx =
     bindH (prepareOrder env tenantId body) (\<lambda>p.
     bindH (execute faults (orderTx env tenantId ctx p inTx)) (\<lambda>result.
     bindH (orThrowH result (JsError ''Cannot read properties of null'')) (\<lambda>order.
     thenH (announceOrder env tenantId (cx_userId ctx) order) (returnH order))))"

section \<open>The amounts of an order\<close>

lemmas cents_simps [simp] = cents_money_aux cents_decToString_aux

text \<open>What holds of every calculated line: paise that add up, and a split that is the tax.\<close>

definition calcOk :: "item_calc \<Rightarrow> bool" where
  "calcOk c \<longleftrightarrow> 0 < ic_quantity c \<and> 0 \<le> cents (ic_discountStr c)
     \<and> cents (ic_unitPriceStr c) * ic_quantity c - cents (ic_discountStr c) \<ge> 0
     \<and> cents (ic_lineTotalStr c) = cents (ic_taxable c) + cents (ic_taxStr c)
     \<and> cents (ic_cgst c) + cents (ic_sgst c) + cents (ic_igst c) = cents (ic_taxStr c)
     \<and> 0 \<le> cents (ic_taxable c) \<and> 0 \<le> cents (ic_taxStr c)"

definition totalsOf :: "item_calc list \<Rightarrow> totals" where
  "totalsOf cs = \<lparr>to_subtotal = sum_list (map (\<lambda>c. cents (ic_taxable c) + cents (ic_discountStr c)) cs),
     to_discount = sum_list (map (\<lambda>c. cents (ic_discountStr c)) cs),
     to_tax = sum_list (map (\<lambda>c. cents (ic_taxStr c)) cs),
     to_cgst = sum_list (map (\<lambda>c. cents (ic_cgst c)) cs),
     to_sgst = sum_list (map (\<lambda>c. cents (ic_sgst c)) cs),
     to_igst = sum_list (map (\<lambda>c. cents (ic_igst c)) cs)\<rparr>"

definition addTotals :: "totals \<Rightarrow> totals \<Rightarrow> totals" where
  "addTotals a b = \<lparr>to_subtotal = to_subtotal a + to_subtotal b, to_discount = to_discount a + to_discount b,
     to_tax = to_tax a + to_tax b, to_cgst = to_cgst a + to_cgst b, to_sgst = to_sgst a + to_sgst b,
     to_igst = to_igst a + to_igst b\<rparr>"

lemma splitTax_sum: "ts_cgst (splitTax x b) + ts_sgst (splitTax x b) + ts_igst (splitTax x b) = x"
  by (simp add: splitTax_def Let_def)

lemma lineTax_nonneg:
  "0 \<le> g \<Longrightarrow> (case e of None \<Rightarrow> True | Some x \<Rightarrow> 0 \<le> x) \<Longrightarrow>
     0 \<le> lt_taxableCents (lineTax g r incl e) \<and> 0 \<le> lt_taxCents (lineTax g r incl e)"
  using lineTax_total_aux [of g r incl] by (cases e) (auto simp: lineTax_def)

lemma calcItem_ok:
  "calcItem pg v pr it t = Inr (c, t') \<Longrightarrow> calcOk c \<and> t' = addTotals t (totalsOf [c])"
  using splitTax_sum lineTax_nonneg [of "va_price v * ni_quantity it - cents (ni_discount it)"
      "map_option cents (ni_tax it)"]
  by (auto simp: calcItem_def Let_def calcOk_def addTotals_def totalsOf_def split: if_splits option.splits)

lemma addTotals_assoc: "addTotals (addTotals a b) c = addTotals a (addTotals b c)"
  by (simp add: addTotals_def)

lemma totalsOf_Cons: "totalsOf (c # cs) = addTotals (totalsOf [c]) (totalsOf cs)"
  by (simp add: totalsOf_def addTotals_def)

lemma addTotals_Nil [simp]: "addTotals t (totalsOf []) = t"
  by (simp add: totalsOf_def addTotals_def)

lemma addTotals_none [simp]: "addTotals noTotals t = t"
  by (simp add: noTotals_def addTotals_def)

lemma calcItems_ok:
  "calcItems pg t s its acc = Inr (cs, acc') \<Longrightarrow>
     list_all calcOk cs \<and> acc' = addTotals acc (totalsOf cs)
     \<and> map ic_productVariantId cs = map ni_productVariantId its
     \<and> map ic_warehouseId cs = map ni_warehouseId its \<and> map ic_quantity cs = map ni_quantity its"
proof (induction its arbitrary: acc cs)
  case Nil
  then show ?case by simp
next
  case (Cons it its)
  from Cons.prems obtain v c acc1 cs1 where
    c: "calcItem pg v (productOf v s) it acc = Inr (c, acc1)"
    and rest: "calcItems pg t s its acc1 = Inr (cs1, acc')" and cs: "cs = c # cs1"
    by (auto split: option.splits sum.splits)
  have m: "ic_productVariantId c = ni_productVariantId it" "ic_warehouseId c = ni_warehouseId it"
    "ic_quantity c = ni_quantity it"
    using c by (auto simp: calcItem_def Let_def split: if_splits option.splits)
  show ?case
    using calcItem_ok [OF c] Cons.IH [OF rest] m
    by (simp add: cs totalsOf_Cons [of c cs1] addTotals_assoc)
qed

text \<open>What a prepared order carries into the transaction.\<close>

definition preparedOk :: "prepared_order \<Rightarrow> bool" where
  "preparedOk p \<longleftrightarrow> list_all calcOk (pp_items p)
     \<and> cents (pp_subtotalStr p) = to_subtotal (totalsOf (pp_items p))
     \<and> cents (pp_discountTotalStr p) = to_discount (totalsOf (pp_items p))
     \<and> cents (pp_taxTotalStr p) = to_tax (totalsOf (pp_items p))
     \<and> cents (pp_cgstTotal p) = to_cgst (totalsOf (pp_items p))
     \<and> cents (pp_sgstTotal p) = to_sgst (totalsOf (pp_items p))
     \<and> cents (pp_igstTotal p) = to_igst (totalsOf (pp_items p))
     \<and> cents (pp_totalStr p) = cents (pp_subtotalStr p) - cents (pp_discountTotalStr p)
          + cents (pp_taxTotalStr p) + cents (pp_shippingTotalFixed p)"

lemma finishOrder_ok:
  "list_all calcOk cs \<Longrightarrow> preparedOk (finishOrder body d c tn pg sa ba ss sp cs (totalsOf cs))"
  by (simp add: preparedOk_def finishOrder_def Let_def)

lemma resolveOrderAddress_state: "snd (resolveOrderAddress c t ty a s) = s"
  by (simp add: resolveOrderAddress_def monad_defs split: option.split)

lemma resolveOrderAddress_Inr: "resolveOrderAddress c t ty a s = (r, s') \<Longrightarrow> s' = s"
  using resolveOrderAddress_state [of c t ty a s] by simp

lemma assertWithinPlan_state: "assertWithinPlan env t r s = (x, s') \<Longrightarrow> s' = s"
  by (auto simp: assertWithinPlan_outcome split: if_splits)

lemma prepareOrder_state: "prepareOrder env t body s = (r, s') \<Longrightarrow> s' = s"
  by (cases r)
     (auto simp: prepareOrder_def Let_def outcome case_prod_beta
        dest!: resolveOrderAddress_Inr assertWithinPlan_state)

lemma prepareOrder_ok: "prepareOrder env t body s = (Inr p, s') \<Longrightarrow> preparedOk p"
  by (auto simp: prepareOrder_def Let_def outcome case_prod_beta intro!: finishOrder_ok
        dest!: resolveOrderAddress_Inr assertWithinPlan_state calcItems_ok)

section \<open>What writing an order does\<close>

text \<open>The quantity an order takes from a key.\<close>

definition reserved :: "string \<Rightarrow> item_calc list \<Rightarrow> stock_key \<Rightarrow> int" where
  "reserved t items k = sum_list (map ic_quantity (filter (\<lambda>it. calcKey t it = k) items))"

lemma reserved_simps [simp]:
  "reserved t [] k = 0"
  "reserved t (it # its) k = (if calcKey t it = k then ic_quantity it else 0) + reserved t its k"
  by (simp_all add: reserved_def)

lemma reserved_nonneg: "list_all calcOk items \<Longrightarrow> 0 \<le> reserved t items k"
  by (induction items) (auto simp: calcOk_def)

text \<open>The part of the stock invariant that does not read the movements.\<close>

definition stockInv :: "db \<Rightarrow> bool" where
  "stockInv s \<longleftrightarrow> uniqueKeys (inventory s) \<and> uniqueKeys (warehouseInventory s)
     \<and> list_all (\<lambda>r. 0 \<le> iv_quantity r) (inventory s) \<and> stock (warehouseInventory s) = stock (inventory s)"

lemma inventoryInv_split:
  "inventoryInv s \<longleftrightarrow> stockInv s \<and> list_all movementOk (movements s) \<and> ledger (movements s) = onHand s"
  by (auto simp: inventoryInv_def stockInv_def)

lemma stockInv_putStock: "stockInv s \<Longrightarrow> 0 \<le> q \<Longrightarrow> stockInv (putStock now k q s)"
  by (simp add: stockInv_def fun_eq_iff)
     (simp add: putStock_def uniqueKeys_upsert nonneg_upsert stock_upsertQuantity)

lemma putStock_fields:
  "\<exists>iv wv. putStock now k q s = s\<lparr>inventory := iv, warehouseInventory := wv\<rparr>"
  by (auto simp: putStock_def)

lemma deductItem_Inr:
  assumes "deductItem env t it s = Inr (u, s')"
  shows "ic_quantity it \<le> onHand s (calcKey t it) \<and> stock (inventory s) (calcKey t it) \<noteq> None
     \<and> s' = putStock (env_now env) (calcKey t it) (onHand s (calcKey t it) - ic_quantity it) s"
proof -
  let ?k = "calcKey t it"
  show ?thesis
  proof (cases "stock (inventory s) ?k")
    case None
    then show ?thesis using assms by (auto simp: deductItem_def Let_def monad_defs split: if_splits)
  next
    case (Some q)
    then have "writeStock env ?k True (q - ic_quantity it) s = Inr ((), putStock (env_now env) ?k (q - ic_quantity it) s)"
      by (intro writeStock_putStock) simp
    then show ?thesis
      using assms Some by (auto simp: deductItem_def Let_def monad_defs onHand_def split: if_splits)
  qed
qed

lemma stock_putStock: "stock (inventory (putStock now k q s)) k' = (if k' = k then Some q else stock (inventory s) k')"
  by (rule stock_db.lookup_store)

lemma deductLoop_Inr:
  assumes "forT items (deductItem env t) s = Inr (u, s')" and "list_all calcOk items"
  shows "onHand s' = (\<lambda>k. onHand s k - reserved t items k)
     \<and> (\<forall>it \<in> set items. stock (inventory s') (calcKey t it) \<noteq> None \<and> 0 \<le> onHand s' (calcKey t it))
     \<and> (\<forall>k. stock (inventory s) k \<noteq> None \<longrightarrow> stock (inventory s') k \<noteq> None)
     \<and> (stockInv s \<longrightarrow> stockInv s')
     \<and> (\<exists>iv wv. s' = s\<lparr>inventory := iv, warehouseInventory := wv\<rparr>)"
  using assms
proof (induction items arbitrary: s)
  case Nil
  then have "s' = s" by (simp add: returnT_def)
  moreover have "\<exists>iv wv. s = s\<lparr>inventory := iv, warehouseInventory := wv\<rparr>"
    by (intro exI [of _ "inventory s"] exI [of _ "warehouseInventory s"]) simp
  ultimately show ?case by simp
next
  case (Cons it its)
  let ?k = "calcKey t it"
  from Cons.prems obtain s1 where d: "deductItem env t it s = Inr ((), s1)"
    and r: "forT its (deductItem env t) s1 = Inr (u, s')"
    by (auto simp: outcome)
  note d' = deductItem_Inr [OF d]
  have q: "0 < ic_quantity it" using Cons.prems(2) by (simp add: calcOk_def)
  have its: "list_all calcOk its" using Cons.prems(2) by simp
  have I1: "onHand s' = (\<lambda>k. onHand s1 k - reserved t its k)"
    and I2: "\<forall>it \<in> set its. stock (inventory s') (calcKey t it) \<noteq> None \<and> 0 \<le> onHand s' (calcKey t it)"
    and I3: "\<forall>k. stock (inventory s1) k \<noteq> None \<longrightarrow> stock (inventory s') k \<noteq> None"
    and I4: "stockInv s1 \<longrightarrow> stockInv s'"
    and I5: "\<exists>iv wv. s' = s1\<lparr>inventory := iv, warehouseInventory := wv\<rparr>"
    using Cons.IH [OF r its] by blast+
  have oh1: "onHand s1 k = onHand s k - (if ?k = k then ic_quantity it else 0)" for k
    using d' by (simp add: onHand_putStock)
  have st1: "stock (inventory s1) k \<noteq> None" if "k = ?k \<or> stock (inventory s) k \<noteq> None" for k
    using d' that by (auto simp: stock_putStock)
  have inv1: "stockInv s1" if "stockInv s"
    using d' that by (auto intro: stockInv_putStock)
  have nn: "0 \<le> onHand s' ?k"
  proof (cases "?k \<in> calcKey t ` set its")
    case True
    then show ?thesis using I2 by auto
  next
    case False
    then have "reserved t its ?k = 0" by (induction its) auto
    then show ?thesis using I1 oh1 [of ?k] d' by simp
  qed
  obtain iv wv where s1: "s1 = s\<lparr>inventory := iv, warehouseInventory := wv\<rparr>"
    using d' putStock_fields by metis
  have "\<exists>iv wv. s' = s\<lparr>inventory := iv, warehouseInventory := wv\<rparr>"
    using I5 by (auto simp: s1)
  moreover have "onHand s' = (\<lambda>k. onHand s k - reserved t (it # its) k)"
    by (simp add: I1 oh1 fun_eq_iff)
  moreover have "stock (inventory s') ?k \<noteq> None" using I3 st1 by blast
  moreover have "\<forall>k. stock (inventory s) k \<noteq> None \<longrightarrow> stock (inventory s') k \<noteq> None" using I3 st1 by blast
  moreover have "stockInv s \<longrightarrow> stockInv s'" using inv1 I4 by blast
  ultimately show ?case using I2 nn unfolding list.set by blast
qed

lemma insertItems_eq:
  "forT items (insertItem t i) s = Inr ((), s\<lparr>orderItems := orderItems s @ map (itemRowOf t i) items\<rparr>)"
  by (induction items arbitrary: s) (simp_all add: insertItem_def monad_defs)

text \<open>The movement of a line, read off the stock left after all the deductions.\<close>

definition reservationRow ::
  "string \<Rightarrow> string option \<Rightarrow> string \<Rightarrow> (stock_key \<Rightarrow> int) \<Rightarrow> item_calc \<Rightarrow> string \<Rightarrow> movement_row" where
  "reservationRow t u orderId left it i =
     (movementOf (calcKey t it) M_ORDER_RESERVATION (left (calcKey t it) + ic_quantity it) (- ic_quantity it)
        (left (calcKey t it)) (Some ''ORDER_CREATED'') (Some ''ORDER'') (Some orderId) u)\<lparr>mv_id := i\<rparr>"

lemma recordReservation_eq:
  "recordReservation env t u oid it s =
     (case stock (inventory s) (calcKey t it) of
        None \<Rightarrow> Inl (JsError ''Cannot read properties of undefined'')
      | Some q \<Rightarrow> Inr ((), s\<lparr>drawn := Suc (drawn s), movements := movements s
          @ [reservationRow t u oid (onHand s) it (env_uuid env (drawn s))]\<rparr>))"
  by (simp add: recordReservation_def Let_def bindT_def readT_def orThrowT_def throwT_def returnT_def
        createMovement_eq reservationRow_def onHand_def split: option.split)

lemma recordLoop_Inr:
  assumes "forT items (recordReservation env t u oid) s = Inr (x, s')"
  shows "\<exists>ids d. length ids = length items
     \<and> s' = s\<lparr>drawn := d, movements := movements s @ map2 (reservationRow t u oid (onHand s)) items ids\<rparr>"
  using assms
proof (induction items arbitrary: s)
  case Nil
  then have "s' = s\<lparr>drawn := drawn s, movements := movements s @ map2 (reservationRow t u oid (onHand s)) [] []\<rparr>"
    by (simp add: returnT_def)
  then show ?case by (intro exI [of _ "[]"] exI [of _ "drawn s"]) simp
next
  case (Cons it its)
  from Cons.prems obtain q s1 where q: "stock (inventory s) (calcKey t it) = Some q"
    and s1: "s1 = s\<lparr>drawn := Suc (drawn s), movements := movements s @ [reservationRow t u oid (onHand s) it (env_uuid env (drawn s))]\<rparr>"
    and r: "forT its (recordReservation env t u oid) s1 = Inr (x, s')"
    by (auto simp: outcome recordReservation_eq [of env t u oid it s] split: option.splits)
  from Cons.IH [OF r] obtain ids d where ids: "length ids = length its"
    and s': "s' = s1\<lparr>drawn := d, movements := movements s1 @ map2 (reservationRow t u oid (onHand s1)) its ids\<rparr>"
    by blast
  have "onHand s1 = onHand s" by (simp add: s1 fun_eq_iff)
  then have "s' = s\<lparr>drawn := d, movements := movements s @
      map2 (reservationRow t u oid (onHand s)) (it # its) (env_uuid env (drawn s) # ids)\<rparr>"
    by (simp add: s' s1)
  then show ?case using ids by (intro exI [of _ "env_uuid env (drawn s) # ids"] exI [of _ d]) simp
qed

lemma ledger_reservations:
  "length ids = length items \<Longrightarrow> ledger (map2 (reservationRow t u oid f) items ids) k = - reserved t items k"
  by (induction ids items rule: list_induct2)
     (simp_all add: ledger_def reservationRow_def)

lemma reservations_ok:
  "length ids = length items \<Longrightarrow> list_all calcOk items \<Longrightarrow> \<forall>it \<in> set items. 0 \<le> f (calcKey t it) \<Longrightarrow>
     list_all movementOk (map2 (reservationRow t u oid f) items ids)"
  by (induction ids items rule: list_induct2) (auto simp: movementOk_def reservationRow_def calcOk_def)

lemma logOrderCreated_Inr:
  "logOrderCreated env t ctx p i s = Inr (u, s') \<Longrightarrow> \<exists>l m. s' = s\<lparr>auditLogs := l, activityLogs := m\<rparr>"
  by (auto simp: logOrderCreated_def outcome dest!: logAudit_Inr logActivity_Inr)

definition nextNumber :: "db \<Rightarrow> seq_key \<Rightarrow> nat" where
  "nextNumber s k = (case seqNumber (invoiceSeqs s) k of None \<Rightarrow> 1 | Some n \<Rightarrow> n + 1)"

lemma seqNumber_setSequence: "seqNumber (setSequence k n rs) k' = (if k' = k then Some n else seqNumber rs k')"
proof (cases "list_ex (\<lambda>r. (sq_tenantId r, sq_financialYear r) = k) rs")
  case True
  have "find (\<lambda>r. (sq_tenantId r, sq_financialYear r) = k')
        (updateMany (\<lambda>r. (sq_tenantId r, sq_financialYear r) = k) (\<lambda>r. r\<lparr>sq_lastNumber := n\<rparr>) rs)
      = map_option (\<lambda>r. if (sq_tenantId r, sq_financialYear r) = k then r\<lparr>sq_lastNumber := n\<rparr> else r)
          (find (\<lambda>r. (sq_tenantId r, sq_financialYear r) = k') rs)"
    by (rule find_updateMany) simp
  moreover have "find (\<lambda>r. (sq_tenantId r, sq_financialYear r) = k) rs \<noteq> None"
    using True by (auto simp: find_None_iff list_ex_iff)
  ultimately show ?thesis
    using True
    by (cases "find (\<lambda>r. (sq_tenantId r, sq_financialYear r) = k') rs")
       (auto simp: seqNumber_def setSequence_def dest: find_SomeD)
next
  case False
  then have "find (\<lambda>r. (sq_tenantId r, sq_financialYear r) = k) rs = None"
    by (auto simp: find_None_iff list_ex_iff)
  with False show ?thesis
    by (cases k) (auto simp: seqNumber_def setSequence_def find_append split: option.split)
qed

interpretation invoice_counters: key_store seqNumber setSequence
  by unfold_locales (rule seqNumber_setSequence)

lemma nextSequence_eq:
  "nextSequence t fy s = Inr (nextNumber s (t, fy),
     s\<lparr>invoiceSeqs := setSequence (t, fy) (nextNumber s (t, fy)) (invoiceSeqs s)\<rparr>)"
  by (simp add: nextSequence_def nextNumber_def monad_defs)

definition orderTaken :: "db \<Rightarrow> string \<Rightarrow> order_row \<Rightarrow> bool" where
  "orderTaken s t row = list_ex (\<lambda>r. or_id r = or_id row
     \<or> or_tenantId r = t \<and> or_invoiceNumber r = or_invoiceNumber row) (orders s)"

lemma or_id_orderRowOf [simp]: "or_id (orderRowOf env t p fy n i) = i"
  by (simp add: orderRowOf_def)

lemma insertOrder_Inr:
  "insertOrder env t p fy n s = Inr (order, s') \<Longrightarrow> \<exists>i d. order = orderRowOf env t p fy n i
     \<and> \<not> orderTaken s t order \<and> s' = s\<lparr>drawn := d, orders := orders s @ [order]\<rparr>"
  by (auto simp: insertOrder_def Let_def freshId_def outcome orderTaken_def)

definition createdHistory :: "string \<Rightarrow> string \<Rightarrow> string option \<Rightarrow> history_row" where
  "createdHistory t orderId u = \<lparr>hi_tenantId = t, hi_orderId = orderId, hi_from = None,
     hi_to = O_PENDING, hi_reason = Some ''Order created'', hi_createdBy = u\<rparr>"

lemma orderCore_Inr:
  assumes run: "orderCore env t ctx p s = Inr (order, s')" and ok: "list_all calcOk (pp_items p)"
    and k: "k = (t, financialYear (env_now env))"
  obtains i iv wv ids d al ac where "order = orderRowOf env t p (snd k) (nextNumber s k) i"
    and "\<not> orderTaken s t order" and "length ids = length (pp_items p)"
    and "onHand s' = (\<lambda>k. onHand s k - reserved t (pp_items p) k)"
    and "\<forall>it \<in> set (pp_items p). 0 \<le> onHand s' (calcKey t it)" and "stockInv s \<longrightarrow> stockInv s'"
    and "s' = s\<lparr>inventory := iv, warehouseInventory := wv,
        movements := movements s @ map2 (reservationRow t (cx_userId ctx) i (onHand s')) (pp_items p) ids,
        orders := orders s @ [order], orderItems := orderItems s @ map (itemRowOf t i) (pp_items p),
        orderHistory := orderHistory s @ [createdHistory t i (cx_userId ctx)],
        invoiceSeqs := setSequence k (nextNumber s k) (invoiceSeqs s),
        auditLogs := al, activityLogs := ac, drawn := d\<rparr>"
proof -
  let ?u = "cx_userId ctx" and ?fy = "financialYear (env_now env)"
  from run obtain s1 s2 s3 s4 s5 n u1 u2 u3 where
    a1: "forT (pp_items p) (deductItem env t) s = Inr (u1, s1)"
    and a2: "nextSequence t ?fy s1 = Inr (n, s2)"
    and a3: "insertOrder env t p ?fy n s2 = Inr (order, s3)"
    and a4: "forT (pp_items p) (insertItem t (or_id order)) s3 = Inr (u2, s4)"
    and a5: "forT (pp_items p) (recordReservation env t ?u (or_id order)) s4 = Inr (u3, s5)"
    and a6: "logOrderCreated env t ctx p (or_id order)
       (s5\<lparr>orderHistory := orderHistory s5 @ [createdHistory t (or_id order) ?u]\<rparr>) = Inr ((), s')"
    unfolding orderCore_def Let_def
    by (auto simp: outcome lockLoop insertHistory_def createdHistory_def)
  from deductLoop_Inr [OF a1 ok] obtain iv wv where
    s1: "s1 = s\<lparr>inventory := iv, warehouseInventory := wv\<rparr>"
    and oh: "onHand s1 = (\<lambda>k. onHand s k - reserved t (pp_items p) k)"
    and nn: "\<forall>it \<in> set (pp_items p). 0 \<le> onHand s1 (calcKey t it)" and inv: "stockInv s \<longrightarrow> stockInv s1"
    by blast
  have nk: "nextNumber s1 k = nextNumber s k" and n: "n = nextNumber s1 k"
    and s2: "s2 = s1\<lparr>invoiceSeqs := setSequence k (nextNumber s1 k) (invoiceSeqs s1)\<rparr>"
    using a2 by (auto simp: nextSequence_eq k s1 nextNumber_def)
  from insertOrder_Inr [OF a3] obtain i d1 where i: "order = orderRowOf env t p ?fy n i"
    and tk: "\<not> orderTaken s2 t order" and s3: "s3 = s2\<lparr>drawn := d1, orders := orders s2 @ [order]\<rparr>"
    by blast
  have s4: "s4 = s3\<lparr>orderItems := orderItems s3 @ map (itemRowOf t i) (pp_items p)\<rparr>"
    using a4 i by (simp add: insertItems_eq)
  from recordLoop_Inr [OF a5] i obtain ids d where ids: "length ids = length (pp_items p)"
    and s5: "s5 = s4\<lparr>drawn := d, movements := movements s4 @ map2 (reservationRow t ?u i (onHand s4)) (pp_items p) ids\<rparr>"
    by auto
  from logOrderCreated_Inr [OF a6] i obtain al ac where
    s': "s' = s5\<lparr>orderHistory := orderHistory s5 @ [createdHistory t i ?u], auditLogs := al, activityLogs := ac\<rparr>"
    by auto
  have iv': "inventory s' = inventory s1" "inventory s4 = inventory s1"
    by (simp_all add: s' s5 s4 s3 s2)
  have oh4: "onHand s4 = onHand s1" and oh': "onHand s' = onHand s1"
    using iv' by (simp_all add: onHand_def fun_eq_iff)
  have "stockInv s1 = stockInv s'" by (simp add: stockInv_def s' s5 s4 s3 s2)
  moreover
  define g where "g = onHand s'"
  have s5': "s5 = s4\<lparr>drawn := d, movements := movements s4 @ map2 (reservationRow t ?u i g) (pp_items p) ids\<rparr>"
    unfolding g_def oh' oh4 [symmetric] by (rule s5)
  have "s' = s\<lparr>inventory := iv, warehouseInventory := wv,
        movements := movements s @ map2 (reservationRow t ?u i g) (pp_items p) ids,
        orders := orders s @ [order], orderItems := orderItems s @ map (itemRowOf t i) (pp_items p),
        orderHistory := orderHistory s @ [createdHistory t i ?u],
        invoiceSeqs := setSequence k (nextNumber s k) (invoiceSeqs s),
        auditLogs := al, activityLogs := ac, drawn := d\<rparr>"
    by (simp add: s' s5' s4 s3 s2 s1 nk [unfolded s1])
  moreover have "\<not> orderTaken s t order" using tk by (simp add: orderTaken_def s2 s1)
  ultimately show thesis
    using that [where i = i and ids = ids and iv = iv and wv = wv and al = al and ac = ac and d = d] i n nk ids oh nn inv k unfolding g_def oh' by auto
qed

lemma orderCore_inventoryInv:
  assumes "orderCore env t ctx p s = Inr (order, s')" and "list_all calcOk (pp_items p)" and "inventoryInv s"
  shows "inventoryInv s'"
proof -
  let ?items = "pp_items p"
  obtain i iv wv ids d al ac where l: "length ids = length ?items"
    and oh: "onHand s' = (\<lambda>k. onHand s k - reserved t ?items k)"
    and nn: "\<forall>it \<in> set ?items. 0 \<le> onHand s' (calcKey t it)" and inv: "stockInv s \<longrightarrow> stockInv s'"
    and s': "s' = s\<lparr>inventory := iv, warehouseInventory := wv,
        movements := movements s @ map2 (reservationRow t (cx_userId ctx) i (onHand s')) ?items ids,
        orders := orders s @ [order], orderItems := orderItems s @ map (itemRowOf t i) ?items,
        orderHistory := orderHistory s @ [createdHistory t i (cx_userId ctx)],
        invoiceSeqs := setSequence (t, financialYear (env_now env)) (nextNumber s (t, financialYear (env_now env))) (invoiceSeqs s),
        auditLogs := al, activityLogs := ac, drawn := d\<rparr>"
    by (rule orderCore_Inr [OF assms(1,2) refl]) blast
  have m: "movements s' = movements s @ map2 (reservationRow t (cx_userId ctx) i (onHand s')) ?items ids"
    by (subst s') simp
  have "ledger (movements s') k = onHand s' k" for k
    using assms(3) unfolding m ledger_append ledger_reservations [OF l] oh by (simp add: inventoryInv_split)
  moreover have "list_all movementOk (movements s')"
    using assms(2,3) nn l unfolding m by (auto simp: inventoryInv_split reservations_ok)
  ultimately show ?thesis using inv assms(3) by (auto simp: inventoryInv_split fun_eq_iff)
qed

definition noHook :: "order_row \<Rightarrow> unit dbtx" where
  "noHook = (\<lambda>_. returnT ())"

lemma announceOrder_outcome:
  "announceOrder env t u r s = (Inr x, s') \<Longrightarrow> \<exists>ms js. s' = s\<lparr>sent := sent s @ ms, jobs := jobs s @ js\<rparr>"
  "announceOrder env t u r s \<noteq> (Inl e, s')"
proof -
  obtain ms where ms: "snd (emitOrderCreated env t (orderEvent r) s) = s\<lparr>sent := sent s @ ms\<rparr>"
    using emitters_frame(1) by blast
  let ?j = "(orderJob u r)\<lparr>nj_tenantId := t\<rparr>"
  obtain js where js: "tryEnqueue env ?j (s\<lparr>sent := sent s @ ms\<rparr>)
      = (Inr (), s\<lparr>sent := sent s @ ms, jobs := jobs s @ js\<rparr>)"
    using tryEnqueue_frame [of env ?j "s\<lparr>sent := sent s @ ms\<rparr>"] by auto
  have "announceOrder env t u r s = (Inr (), s\<lparr>sent := sent s @ ms, jobs := jobs s @ js\<rparr>)"
    by (simp add: announceOrder_def thenH_def bindH_def writeH_def ms js)
  then show "announceOrder env t u r s = (Inr x, s') \<Longrightarrow> \<exists>ms js. s' = s\<lparr>sent := sent s @ ms, jobs := jobs s @ js\<rparr>"
    "announceOrder env t u r s \<noteq> (Inl e, s')" by auto
qed

lemma createOrder_Inr:
  assumes "createOrder env faults t ctx body inTx s = (Inr r, s')"
  obtains p order s1 s2 ms js where "prepareOrder env t body s = (Inr p, s)" and "preparedOk p"
    and "orderCore env t ctx p s = Inr (order, s1)" and "inTx order s1 = Inr ((), s2)"
    and "findOrder (or_id order) t s2 = Some r"
    and "s' = s2\<lparr>sent := sent s2 @ ms, jobs := jobs s2 @ js\<rparr>"
proof -
  from assms obtain p s0 res s3 where prep: "prepareOrder env t body s = (Inr p, s0)"
    and ex: "execute faults (orderTx env t ctx p inTx) s0 = (Inr res, s3)" and res: "res = Some r"
    and ann: "announceOrder env t (cx_userId ctx) r s3 = (Inr (), s')"
    by (auto simp: createOrder_def outcome)
  have s0: "s0 = s" by (rule prepareOrder_state [OF prep])
  from execute_Inr [OF ex] res obtain order s1 where core: "orderCore env t ctx p s0 = Inr (order, s1)"
    and hook: "inTx order s1 = Inr ((), s3)" and found: "findOrder (or_id order) t s3 = Some r"
    by (auto simp: orderTx_def outcome)
  from announceOrder_outcome(1) [OF ann] obtain ms js where "s' = s3\<lparr>sent := sent s3 @ ms, jobs := jobs s3 @ js\<rparr>"
    by blast
  then show thesis
    using that prep prepareOrder_ok [OF prep] core hook found s0 by blast
qed

lemma findOrder_new:
  assumes "\<not> orderTaken s t order" and "orders s' = orders s @ [order]" and "or_tenantId order = t"
  shows "findOrder (or_id order) t s' = Some order"
proof -
  have "find (\<lambda>r. or_id r = or_id order \<and> or_tenantId r = t) (orders s) = None"
    using assms(1) by (auto simp: find_None_iff orderTaken_def list_ex_iff)
  then show ?thesis using assms(2,3) by (simp add: findOrder_def find_append)
qed

lemma orderCore_order:
  assumes "orderCore env t ctx p s = Inr (order, s')" and "list_all calcOk (pp_items p)"
  shows "findOrder (or_id order) t s' = Some order"
proof (rule orderCore_Inr [OF assms refl], goal_cases)
  case (1 i iv wv ids d al ac)
  have "orders s' = orders s @ [order]" by (subst 1(7)) simp
  moreover have "or_tenantId order = t" by (subst 1(1)) (simp add: orderRowOf_def)
  ultimately show ?thesis using findOrder_new [OF 1(2)] by blast
qed

text \<open>A staff order: prepared, written, announced; a throw leaves everything as it was.\<close>

lemma createOrder_plain_Inr:
  assumes "createOrder env faults t ctx body noHook s = (Inr r, s')"
  obtains p s1 ms js where "prepareOrder env t body s = (Inr p, s)" and "preparedOk p"
    and "orderCore env t ctx p s = Inr (r, s1)" and "s' = s1\<lparr>sent := sent s1 @ ms, jobs := jobs s1 @ js\<rparr>"
proof -
  obtain p order s1 s2 ms js where p: "prepareOrder env t body s = (Inr p, s)" and ok: "preparedOk p"
    and core: "orderCore env t ctx p s = Inr (order, s1)" and hook: "noHook order s1 = Inr ((), s2)"
    and found: "findOrder (or_id order) t s2 = Some r"
    and s': "s' = s2\<lparr>sent := sent s2 @ ms, jobs := jobs s2 @ js\<rparr>"
    by (rule createOrder_Inr [OF assms])
  have "s2 = s1" using hook by (simp add: noHook_def returnT_def)
  moreover have "r = order"
    using orderCore_order [OF core] ok found \<open>s2 = s1\<close> by (simp add: preparedOk_def)
  ultimately show thesis using that p ok core s' by blast
qed

lemma createOrder_plain_Inl:
  assumes "createOrder env faults t ctx body noHook s = (Inl e, s')"
  shows "s' = s"
proof (rule ccontr)
  assume ne: "s' \<noteq> s"
  from assms ne obtain p s1 where p: "prepareOrder env t body s = (Inr p, s)"
    and ex: "execute faults (orderTx env t ctx p noHook) s = (Inr None, s1)"
    by (auto simp: createOrder_def outcome announceOrder_outcome(2) dest: prepareOrder_state execute_Inl)
  from execute_Inr [OF ex] obtain order s2 where core: "orderCore env t ctx p s = Inr (order, s2)"
    and "findOrder (or_id order) t s2 = None"
    by (auto simp: orderTx_def outcome noHook_def)
  then show False using orderCore_order [OF core] prepareOrder_ok [OF p] by (simp add: preparedOk_def)
qed

lemma sum_list_rows:
  "sum_list (map f (map (itemRowOf t i) cs)) = sum_list (map (\<lambda>c. f (itemRowOf t i c)) cs)"
  by (simp add: o_def)

lemma prepareOrder_items:
  assumes "prepareOrder env t body s = (Inr p, s')"
  shows "map ic_productVariantId (pp_items p) = map ni_productVariantId (map normalizeItem (ob_items body))
    \<and> map ic_warehouseId (pp_items p) = map ni_warehouseId (map normalizeItem (ob_items body))
    \<and> map ic_quantity (pp_items p) = map ni_quantity (map normalizeItem (ob_items body))"
  using assms
  by (auto simp: prepareOrder_def Let_def outcome case_prod_beta finishOrder_def
        dest!: resolveOrderAddress_Inr assertWithinPlan_state calcItems_ok)

lemma orderCore_rows:
  assumes "orderCore env t ctx p s = Inr (r, s')" and "list_all calcOk (pp_items p)"
  obtains i where "\<exists>n fy. r = orderRowOf env t p fy n i" and "orders s' = orders s @ [r]"
    and "orderItems s' = orderItems s @ map (itemRowOf t i) (pp_items p)"
proof (rule orderCore_Inr [OF assms refl], goal_cases)
  case (1 i iv wv ids d al ac)
  have "orders s' = orders s @ [r]" by (subst 1(8)) simp
  moreover have "orderItems s' = orderItems s @ map (itemRowOf t i) (pp_items p)" by (subst 1(8)) simp
  ultimately show ?case using 1(1) [of i] 1(2) by blast
qed

lemma reservation_rows:
  "length ids = length cs \<Longrightarrow>
     map mvKey (map2 (reservationRow t u i f) cs ids) = map (calcKey t) cs
     \<and> map mv_changed (map2 (reservationRow t u i f) cs ids) = map (\<lambda>c. - ic_quantity c) cs
     \<and> (\<forall>m \<in> set (map2 (reservationRow t u i f) cs ids). mv_type m = M_ORDER_RESERVATION \<and> mv_referenceId m = Some i)"
  by (induction ids cs rule: list_induct2) (simp_all add: reservationRow_def, simp add: movementOf_def)

text \<open>C2: the amounts of a new order. The rows written for its lines add up: the header's subtotal, discount,
  tax and CGST/SGST/IGST totals are the sums over the lines, every line total is its taxable value plus
  its tax, the tax of a line and of the order is exactly its CGST, SGST and IGST, and the order total is
  the sum of the line totals plus shipping, to the paisa.\<close>

theorem order_amounts_add_up:
  assumes "createOrder env faults t ctx body noHook s = (Inr r, s')"
  shows "\<exists>rows. orders s' = orders s @ [r] \<and> orderItems s' = orderItems s @ rows
    \<and> map oi_quantity rows = map ib_quantity (ob_items body)
    \<and> (\<forall>it \<in> set rows. oi_orderId it = or_id r \<and> oi_lineTotal it = oi_taxableValue it + oi_tax it
         \<and> oi_tax it = oi_cgst it + oi_sgst it + oi_igst it \<and> 0 \<le> oi_taxableValue it \<and> 0 \<le> oi_tax it)
    \<and> or_status r = O_PENDING
    \<and> or_subtotal r = sum_list (map (\<lambda>it. oi_taxableValue it + oi_discount it) rows)
    \<and> or_discountTotal r = sum_list (map oi_discount rows)
    \<and> or_taxTotal r = sum_list (map oi_tax rows)
    \<and> or_taxTotal r = or_cgstTotal r + or_sgstTotal r + or_igstTotal r
    \<and> or_total r = sum_list (map oi_lineTotal rows) + or_shippingTotal r"
proof -
  obtain p s1 ms js where p: "prepareOrder env t body s = (Inr p, s)" and ok: "preparedOk p"
    and core: "orderCore env t ctx p s = Inr (r, s1)" and s': "s' = s1\<lparr>sent := sent s1 @ ms, jobs := jobs s1 @ js\<rparr>"
    by (rule createOrder_plain_Inr [OF assms])
  let ?cs = "pp_items p"
  have cok: "list_all calcOk ?cs" using ok by (simp add: preparedOk_def)
  obtain i where r: "\<exists>n fy. r = orderRowOf env t p fy n i" and os: "orders s1 = orders s @ [r]"
    and its: "orderItems s1 = orderItems s @ map (itemRowOf t i) ?cs"
    by (rule orderCore_rows [OF core cok])
  let ?rows = "map (itemRowOf t i) ?cs"
  have q: "map oi_quantity ?rows = map ib_quantity (ob_items body)"
    using prepareOrder_items [OF p] by (simp add: itemRowOf_def normalizeItem_def o_def)
  have lines: "\<forall>it \<in> set ?rows. oi_orderId it = or_id r \<and> oi_lineTotal it = oi_taxableValue it + oi_tax it
         \<and> oi_tax it = oi_cgst it + oi_sgst it + oi_igst it \<and> 0 \<le> oi_taxableValue it \<and> 0 \<le> oi_tax it"
    using cok r by (auto simp: list_all_iff calcOk_def itemRowOf_def)
  have three: "sum_list (map f xs) + sum_list (map g xs) + sum_list (map h xs) = sum_list (map k xs)"
    if "\<forall>x \<in> set xs. f x + g x + h x = k x" for f g h k :: "item_calc \<Rightarrow> int" and xs
    using that by (induction xs) auto
  have split: "to_cgst (totalsOf ?cs) + to_sgst (totalsOf ?cs) + to_igst (totalsOf ?cs) = to_tax (totalsOf ?cs)"
    unfolding totalsOf_def totals.simps by (rule three) (use cok in \<open>auto simp: list_all_iff calcOk_def\<close>)
  have total: "sum_list (map (\<lambda>c. cents (ic_lineTotalStr c)) xs) =
      to_subtotal (totalsOf xs) - to_discount (totalsOf xs) + to_tax (totalsOf xs)"
    if "list_all calcOk xs" for xs
    using that by (induction xs) (auto simp: totalsOf_def calcOk_def)
  have hdr: "or_status r = O_PENDING"
    "or_subtotal r = sum_list (map (\<lambda>it. oi_taxableValue it + oi_discount it) ?rows)"
    "or_discountTotal r = sum_list (map oi_discount ?rows)" "or_taxTotal r = sum_list (map oi_tax ?rows)"
    using r ok by (auto simp: orderRowOf_def preparedOk_def totalsOf_def itemRowOf_def o_def)
  have tax: "or_taxTotal r = or_cgstTotal r + or_sgstTotal r + or_igstTotal r"
    using r ok split by (auto simp: orderRowOf_def preparedOk_def)
  have tot: "or_total r = sum_list (map oi_lineTotal ?rows) + or_shippingTotal r"
    using r ok total [OF cok] by (auto simp: orderRowOf_def preparedOk_def itemRowOf_def o_def)
  show ?thesis
  proof (intro exI [of _ ?rows] conjI)
    show "orders s' = orders s @ [r]" "orderItems s' = orderItems s @ ?rows" using os its by (simp_all add: s')
  qed (fact q lines hdr tax tot)+
qed

text \<open>The location a line of a request asks for, and the quantity a request asks of a location.\<close>

definition lineKey :: "string \<Rightarrow> item_body \<Rightarrow> stock_key" where
  "lineKey t it = (t, orEmpty (orElse (ib_productVariantId it) (ib_variantId it)), ib_warehouseId it)"

definition wanted :: "string \<Rightarrow> order_body \<Rightarrow> stock_key \<Rightarrow> int" where
  "wanted t body k = sum_list (map ib_quantity (filter (\<lambda>it. lineKey t it = k) (ob_items body)))"

lemma reserved_wanted:
  assumes "map (calcKey t) cs = map (lineKey t) its" and "map ic_quantity cs = map ib_quantity its"
  shows "reserved t cs k = sum_list (map ib_quantity (filter (\<lambda>it. lineKey t it = k) its))"
proof -
  have "length cs = length its" using map_eq_imp_length_eq [OF assms(2)] .
  then show ?thesis using assms by (induction cs its rule: list_induct2) auto
qed

lemma map_eq_triple:
  "map f xs = map g ys \<Longrightarrow> map h xs = map k ys \<Longrightarrow> map (\<lambda>x. (t, f x, h x)) xs = map (\<lambda>y. (t, g y, k y)) ys"
  by (induction xs arbitrary: ys) auto

lemma prepareOrder_keys:
  assumes "prepareOrder env t body s = (Inr p, s')"
  shows "map (calcKey t) (pp_items p) = map (lineKey t) (ob_items body)"
    and "map ic_productVariantId (pp_items p) = map (\<lambda>it. orEmpty (orElse (ib_productVariantId it) (ib_variantId it))) (ob_items body)"
    and "map ic_quantity (pp_items p) = map ib_quantity (ob_items body)"
proof -
  let ?cs = "pp_items p" and ?its = "ob_items body"
  have m: "map ic_productVariantId ?cs = map (\<lambda>it. orEmpty (orElse (ib_productVariantId it) (ib_variantId it))) ?its"
    "map ic_warehouseId ?cs = map ib_warehouseId ?its" "map ic_quantity ?cs = map ib_quantity ?its"
    using prepareOrder_items [OF assms] by (simp_all add: normalizeItem_def o_def)
  show "map (calcKey t) ?cs = map (lineKey t) ?its"
    using map_eq_triple [OF m(1,2), of t] by (simp add: calcKey_def [abs_def] lineKey_def [abs_def])
qed (use prepareOrder_items [OF assms] in \<open>simp_all add: normalizeItem_def o_def\<close>)

text \<open>C1: the stock a new order takes. A request that succeeds adds one order whose rows are the lines of the request: their
  variants and quantities, in their order. The stock of every location, a variant in a warehouse of the shop, drops by
  exactly the quantity the request has for it, is not negative at any location the request names, and one
  reservation movement per line is recorded against the order, at the line's location and of its quantity. The stock
  invariant is kept. A request that is refused, whatever the reason and whatever the database reports, changes nothing.\<close>

theorem order_reserves_stock:
  "(createOrder env faults t ctx body noHook s = (Inr r, s') \<longrightarrow>
      orders s' = orders s @ [r]
      \<and> (\<forall>k. onHand s' k = onHand s k - wanted t body k)
      \<and> (\<forall>it \<in> set (ob_items body). 0 \<le> onHand s' (lineKey t it))
      \<and> (\<exists>rows. orderItems s' = orderItems s @ rows \<and> map oi_quantity rows = map ib_quantity (ob_items body)
          \<and> map oi_variantId rows = map (\<lambda>it. orEmpty (orElse (ib_productVariantId it) (ib_variantId it))) (ob_items body)
          \<and> (\<forall>row \<in> set rows. oi_tenantId row = t \<and> oi_orderId row = or_id r))
      \<and> (\<exists>ms. movements s' = movements s @ ms \<and> map mvKey ms = map (lineKey t) (ob_items body)
          \<and> map mv_changed ms = map (\<lambda>it. - ib_quantity it) (ob_items body)
          \<and> (\<forall>m \<in> set ms. mv_type m = M_ORDER_RESERVATION \<and> mv_referenceId m = Some (or_id r)))
      \<and> (inventoryInv s \<longrightarrow> inventoryInv s'))
   \<and> (createOrder env faults t ctx body noHook s = (Inl e, s') \<longrightarrow> s' = s)"
proof (rule conjI; rule impI)
  assume run: "createOrder env faults t ctx body noHook s = (Inr r, s')"
  obtain p s1 es js where p: "prepareOrder env t body s = (Inr p, s)" and ok: "preparedOk p"
    and core: "orderCore env t ctx p s = Inr (r, s1)" and s': "s' = s1\<lparr>sent := sent s1 @ es, jobs := jobs s1 @ js\<rparr>"
    by (rule createOrder_plain_Inr [OF run])
  let ?cs = "pp_items p" and ?its = "ob_items body"
  have cok: "list_all calcOk ?cs" using ok by (simp add: preparedOk_def)
  note keys = prepareOrder_keys [OF p]
  have qs: "map (\<lambda>c. - ic_quantity c) ?cs = map (\<lambda>it. - ib_quantity it) ?its"
    using arg_cong [OF keys(3), of "map uminus"] by (simp add: o_def)
  have same: "onHand s' = onHand s1" by (simp add: s' onHand_def fun_eq_iff)
  have inv: "inventoryInv s' = inventoryInv s1" by (simp add: s' inventoryInv_def onHand_def fun_eq_iff)
  show "orders s' = orders s @ [r] \<and> (\<forall>k. onHand s' k = onHand s k - wanted t body k)
      \<and> (\<forall>it \<in> set ?its. 0 \<le> onHand s' (lineKey t it))
      \<and> (\<exists>rows. orderItems s' = orderItems s @ rows \<and> map oi_quantity rows = map ib_quantity ?its
          \<and> map oi_variantId rows = map (\<lambda>it. orEmpty (orElse (ib_productVariantId it) (ib_variantId it))) ?its
          \<and> (\<forall>row \<in> set rows. oi_tenantId row = t \<and> oi_orderId row = or_id r))
      \<and> (\<exists>ms. movements s' = movements s @ ms \<and> map mvKey ms = map (lineKey t) ?its
          \<and> map mv_changed ms = map (\<lambda>it. - ib_quantity it) ?its
          \<and> (\<forall>m \<in> set ms. mv_type m = M_ORDER_RESERVATION \<and> mv_referenceId m = Some (or_id r)))
      \<and> (inventoryInv s \<longrightarrow> inventoryInv s')"
  proof (rule orderCore_Inr [OF core cok refl], goal_cases)
    case (1 i iv wv ids d al ac)
    let ?ms = "map2 (reservationRow t (cx_userId ctx) i (onHand s1)) ?cs ids" and ?rows = "map (itemRowOf t i) ?cs"
    have s1: "orders s1 = orders s @ [r]" "orderItems s1 = orderItems s @ ?rows" "movements s1 = movements s @ ?ms"
      by (subst 1(7), simp)+
    have i: "or_id r = i" by (subst 1(1)) simp
    have rows: "map oi_quantity ?rows = map ib_quantity ?its"
      "map oi_variantId ?rows = map (\<lambda>it. orEmpty (orElse (ib_productVariantId it) (ib_variantId it))) ?its"
      "\<forall>row \<in> set ?rows. oi_tenantId row = t \<and> oi_orderId row = i"
      using keys(2,3) by (auto simp: itemRowOf_def o_def)
    have moves: "map mvKey ?ms = map (lineKey t) ?its \<and> map mv_changed ?ms = map (\<lambda>it. - ib_quantity it) ?its
       \<and> (\<forall>m \<in> set ?ms. mv_type m = M_ORDER_RESERVATION \<and> mv_referenceId m = Some i)"
      unfolding keys(1) [symmetric] qs [symmetric] by (rule reservation_rows [OF 1(3)])
    have "onHand s' k = onHand s k - wanted t body k" for k
      using 1(4) reserved_wanted [OF keys(1,3), of k] by (simp add: same wanted_def)
    moreover have "\<forall>k \<in> set (map (lineKey t) ?its). 0 \<le> onHand s' k"
      unfolding keys(1) [symmetric] using 1(5) by (simp add: same)
    moreover have "inventoryInv s \<longrightarrow> inventoryInv s'" using orderCore_inventoryInv [OF core cok] inv by blast
    ultimately show ?case
      using rows moves s1 i by (intro conjI exI [of _ ?rows] exI [of _ ?ms]) (simp_all add: s')
  qed
next
  show "s' = s" if "createOrder env faults t ctx body noHook s = (Inl e, s')"
    by (rule createOrder_plain_Inl [OF that])
qed

text \<open>C4: invoice numbers. A new order gets the next number of its shop and financial year, which no other
  order of the shop has; the counter moves by one for that shop and year only, and a refused order does
  not move it, so the numbers of a year have no gaps.\<close>

theorem invoice_numbers_gapless:
  assumes "createOrder env faults t ctx body noHook s = (Inr r, s')"
    and "k = (t, financialYear (env_now env))"
  shows "\<exists>prefix. or_invoiceNumber r = Some (formatInvoiceNumber prefix (snd k) (nextNumber s k))
    \<and> seqNumber (invoiceSeqs s') k = Some (nextNumber s k) \<and> nextNumber s' k = nextNumber s k + 1
    \<and> (\<forall>k'. k' \<noteq> k \<longrightarrow> seqNumber (invoiceSeqs s') k' = seqNumber (invoiceSeqs s) k')
    \<and> (\<forall>q \<in> set (orders s). or_tenantId q = t \<longrightarrow> or_invoiceNumber q \<noteq> or_invoiceNumber r)"
proof -
  obtain p s1 ms js where ok: "preparedOk p"
    and core: "orderCore env t ctx p s = Inr (r, s1)" and s': "s' = s1\<lparr>sent := sent s1 @ ms, jobs := jobs s1 @ js\<rparr>"
    by (rule createOrder_plain_Inr [OF assms(1)])
  have cok: "list_all calcOk (pp_items p)" using ok by (simp add: preparedOk_def)
  show ?thesis
  proof (rule orderCore_Inr [OF core cok assms(2)], goal_cases)
    case (1 i iv wv ids d al ac)
    have sq: "invoiceSeqs s1 = setSequence k (nextNumber s k) (invoiceSeqs s)" by (subst 1(7)) simp
    have "or_invoiceNumber r = Some (formatInvoiceNumber (pp_prefix p) (snd k) (nextNumber s k))"
      by (subst 1(1)) (simp add: orderRowOf_def)
    moreover have "\<forall>q \<in> set (orders s). or_tenantId q = t \<longrightarrow> or_invoiceNumber q \<noteq> or_invoiceNumber r"
      using 1(2) by (auto simp: orderTaken_def list_ex_iff)
    ultimately show ?case
      by (intro exI [of _ "pp_prefix p"])
         (simp add: s' nextNumber_def [of s1] sq invoice_counters.lookup_store nextNumber_def [of "s1\<lparr>sent := x, jobs := y\<rparr>" for x y])
  qed
qed

section \<open>Changing the status\<close>

definition getOrder :: "string \<Rightarrow> string \<Rightarrow> order_row dbio" where
  "getOrder i tenantId = bindH (readH (findOrder i tenantId)) (\<lambda>r. orThrowH r (AppError 404 ''ORDER_NOT_FOUND''))"

definition getHistory :: "string \<Rightarrow> string \<Rightarrow> history_row list dbio" where
  "getHistory i tenantId = thenH (getOrder i tenantId)
     (readH (\<lambda>s. filter (\<lambda>h. hi_orderId h = i \<and> hi_tenantId h = tenantId) (orderHistory s)))"

text \<open>\<open>order.update({ where: { id }, data: { status } })\<close>; every update stamps \<open>updatedAt\<close>.\<close>

definition setStatus :: "env \<Rightarrow> string \<Rightarrow> order_status \<Rightarrow> unit dbtx" where
  "setStatus env i status =
     bindT (readT (\<lambda>s. list_ex (\<lambda>r. or_id r = i) (orders s))) (\<lambda>found.
     thenT (throwIfT (\<not> found) recordNotFound)
       (writeT (\<lambda>s. s\<lparr>orders := updateMany (\<lambda>r. or_id r = i)
          (\<lambda>r. r\<lparr>or_status := status, or_updatedAt := env_now env\<rparr>) (orders s)\<rparr>)))"

definition statusObj :: "order_status \<Rightarrow> jsval" where
  "statusObj st = JObj [(''status'', JStr (order_status_str st))]"

definition updateStatusTx ::
  "env \<Rightarrow> string \<Rightarrow> audit_context \<Rightarrow> order_row \<Rightarrow> order_status \<Rightarrow> string option \<Rightarrow> order_row option dbtx" where
  "updateStatusTx env tenantId ctx order status reason =
     (let i = or_id order; from = or_status order in
      thenT (setStatus env i status)
     (thenT (insertHistory \<lparr>hi_tenantId = tenantId, hi_orderId = i, hi_from = Some from, hi_to = status,
               hi_reason = orElse reason None, hi_createdBy = cx_userId ctx\<rparr>)
     (thenT (logAudit env ctx tenantId ''UPDATE'' ''order'' (Some i) (statusObj from) (statusObj status))
     (thenT (logActivity env ctx tenantId ''order.status_update''
         (''Order '' @ i @ '' status '' @ order_status_str from @ '' -> '' @ order_status_str status)
         (JObj [(''orderId'', JStr i), (''fromStatus'', JStr (order_status_str from)),
                (''toStatus'', JStr (order_status_str status))]))
      (readT (findOrder i tenantId))))))"

definition announceStatus :: "env \<Rightarrow> string \<Rightarrow> order_status \<Rightarrow> order_row \<Rightarrow> unit dbio" where
  "announceStatus env tenantId previous r =
     writeH (\<lambda>s. snd (emitOrderUpdated env tenantId (JObj
       [(''id'', JStr (or_id r)), (''tenantId'', JStr tenantId),
        (''status'', JStr (order_status_str (or_status r))),
        (''previousStatus'', JStr (order_status_str previous)), (''updatedAt'', JDate (or_updatedAt r))]) s))"

definition updateStatus ::
  "env \<Rightarrow> string \<Rightarrow> string \<Rightarrow> audit_context \<Rightarrow> order_status \<Rightarrow> string option \<Rightarrow> order_row dbio" where
  "updateStatus env i tenantId ctx status reason =
     bindH (getOrder i tenantId) (\<lambda>order.
     thenH (throwIfH (\<not> isValidTransition (Some (or_status order)) status)
              (AppError 409 ''INVALID_STATUS_TRANSITION''))
    (bindH (transaction (updateStatusTx env tenantId ctx order status reason)) (\<lambda>updated.
     bindH (orThrowH updated (JsError ''Cannot read properties of null'')) (\<lambda>r.
     thenH (announceStatus env tenantId (or_status order) r) (returnH r)))))"

section \<open>Cancelling\<close>

definition itemsOf :: "string \<Rightarrow> db \<Rightarrow> order_item_row list" where
  "itemsOf orderId s = filter (\<lambda>it. oi_orderId it = orderId) (orderItems s)"

definition reservationsOf :: "string \<Rightarrow> string \<Rightarrow> string \<Rightarrow> db \<Rightarrow> movement_row list" where
  "reservationsOf tenantId variantId orderId s =
     filter (\<lambda>m. mv_tenantId m = tenantId \<and> mv_variantId m = variantId
              \<and> mv_referenceType m = Some ''ORDER'' \<and> mv_referenceId m = Some orderId
              \<and> mv_type m = M_ORDER_RESERVATION) (movements s)"

definition createWarehouseStock :: "int \<Rightarrow> stock_key \<Rightarrow> int \<Rightarrow> unit dbtx" where
  "createWarehouseStock now k q s =
     (if list_ex (\<lambda>r. keyOf r = k) (warehouseInventory s) then Inl uniqueViolation
      else Inr ((), s\<lparr>warehouseInventory := warehouseInventory s @ [newStockRow now k q]\<rparr>))"

definition releaseMovement ::
  "env \<Rightarrow> stock_key \<Rightarrow> int \<Rightarrow> int \<Rightarrow> int \<Rightarrow> string option \<Rightarrow> string \<Rightarrow> string option \<Rightarrow> unit dbtx" where
  "releaseMovement env k before changed after reason orderId userId =
     bindT (createMovement env (movementOf k M_ORDER_RELEASE before changed after
         (orElse reason (Some ''ORDER_CANCELLED'')) (Some ''ORDER'') (Some orderId) userId)) (\<lambda>_. returnT ())"

text \<open>Giving one reservation back to its warehouse.\<close>

definition restoreMovement ::
  "env \<Rightarrow> string \<Rightarrow> string \<Rightarrow> string option \<Rightarrow> string option \<Rightarrow> string \<Rightarrow> movement_row \<Rightarrow> unit dbtx" where
  "restoreMovement env tenantId orderId reason userId variantId mov =
     (let k = (tenantId, variantId, mv_warehouseId mov) in
      thenT (lockInventory k)
     (bindT (readT (\<lambda>s. stock (inventory s) k)) (\<lambda>row.
      let beforeQty = (case row of None \<Rightarrow> 0 | Some q \<Rightarrow> q);
          restoreQty = \<bar>mv_changed mov\<bar>;
          afterQty = beforeQty + restoreQty
      in thenT (if row \<noteq> None then writeStock env k True afterQty
                else thenT (createStock (env_now env) k afterQty) (createWarehouseStock (env_now env) k afterQty))
           (releaseMovement env k beforeQty restoreQty afterQty reason orderId userId))))"

text \<open>An order without reservations: the first stock row of the variant gets the line back.\<close>

definition restoreLegacy ::
  "env \<Rightarrow> string \<Rightarrow> string \<Rightarrow> string option \<Rightarrow> string option \<Rightarrow> order_item_row \<Rightarrow> unit dbtx" where
  "restoreLegacy env tenantId orderId reason userId item =
     bindT (readT (\<lambda>s. find (\<lambda>r. iv_tenantId r = tenantId \<and> iv_variantId r = oi_variantId item) (inventory s)))
     (\<lambda>inv. case inv of
        None \<Rightarrow> returnT ()
      | Some r \<Rightarrow>
          (let beforeQty = iv_quantity r;
               afterQty = beforeQty + oi_quantity item;
               k = (tenantId, oi_variantId item, iv_warehouseId r)
           in thenT (writeT (\<lambda>s. s\<lparr>inventory := setQuantity (env_now env) k afterQty (inventory s)\<rparr>))
                (releaseMovement env k beforeQty (oi_quantity item) afterQty reason orderId userId)))"

definition restoreItem ::
  "env \<Rightarrow> string \<Rightarrow> string \<Rightarrow> string option \<Rightarrow> string option \<Rightarrow> order_item_row \<Rightarrow> unit dbtx" where
  "restoreItem env tenantId orderId reason userId item =
     bindT (readT (reservationsOf tenantId (oi_variantId item) orderId)) (\<lambda>movs.
       if movs \<noteq> [] then forT movs (restoreMovement env tenantId orderId reason userId (oi_variantId item))
       else restoreLegacy env tenantId orderId reason userId item)"

definition cancelTx ::
  "env \<Rightarrow> string \<Rightarrow> audit_context \<Rightarrow> order_row \<Rightarrow> order_item_row list \<Rightarrow> string option \<Rightarrow> order_row option dbtx" where
  "cancelTx env tenantId ctx order items reason =
     (let i = or_id order; from = or_status order in
      thenT (forT items (restoreItem env tenantId i reason (cx_userId ctx)))
     (thenT (setStatus env i O_CANCELLED)
     (thenT (insertHistory \<lparr>hi_tenantId = tenantId, hi_orderId = i, hi_from = Some from, hi_to = O_CANCELLED,
               hi_reason = orElse reason (Some ''Order cancelled''), hi_createdBy = cx_userId ctx\<rparr>)
     (thenT (logAudit env ctx tenantId ''UPDATE'' ''order'' (Some i) (statusObj from) (statusObj O_CANCELLED))
     (thenT (logActivity env ctx tenantId ''order.cancel'' (''Order '' @ i @ '' cancelled'')
         (JObj [(''orderId'', JStr i), (''fromStatus'', JStr (order_status_str from))]))
      (readT (findOrder i tenantId)))))))"

text \<open>The handler reads the order and checks its status before the transaction starts.\<close>

definition readCancellable :: "string \<Rightarrow> string \<Rightarrow> (order_row \<times> order_item_row list) dbio" where
  "readCancellable i tenantId =
     bindH (getOrder i tenantId) (\<lambda>order.
     bindH (readH (itemsOf i)) (\<lambda>items.
     thenH (throwIfH (or_status order \<notin> set CANCELLABLE_STATUSES) (AppError 409 ''CANCELLATION_NOT_ALLOWED''))
    (thenH (throwIfH (or_status order = O_CANCELLED) (AppError 409 ''ALREADY_CANCELLED''))
      (returnH (order, items)))))"

definition commitCancel ::
  "env \<Rightarrow> string \<Rightarrow> audit_context \<Rightarrow> string option \<Rightarrow> order_row \<times> order_item_row list \<Rightarrow> order_row dbio" where
  "commitCancel env tenantId ctx reason p =
     bindH (transaction (cancelTx env tenantId ctx (fst p) (snd p) reason)) (\<lambda>result.
     bindH (orThrowH result (JsError ''Cannot read properties of null'')) (\<lambda>r.
     thenH (announceStatus env tenantId (or_status (fst p)) r) (returnH r)))"

definition cancelOrder ::
  "env \<Rightarrow> string \<Rightarrow> string \<Rightarrow> audit_context \<Rightarrow> string option \<Rightarrow> order_row dbio" where
  "cancelOrder env i tenantId ctx reason =
     bindH (readCancellable i tenantId) (commitCancel env tenantId ctx reason)"

section \<open>What changing the status does\<close>

lemma getOrder_outcome [outcome]:
  "getOrder i t s = (Inr r, s') \<longleftrightarrow> findOrder i t s = Some r \<and> s' = s"
  "getOrder i t s = (Inl e, s') \<longleftrightarrow> findOrder i t s = None \<and> e = AppError 404 ''ORDER_NOT_FOUND'' \<and> s' = s"
  by (auto simp: getOrder_def outcome)

lemma findOrder_id: "findOrder i t s = Some r \<Longrightarrow> or_id r = i \<and> or_tenantId r = t"
  by (auto simp: findOrder_def dest: find_SomeD)

lemma findOrder_mem: "findOrder i t s = Some r \<Longrightarrow> list_ex (\<lambda>r. or_id r = i) (orders s)"
  by (auto simp: findOrder_def list_ex_iff dest: find_SomeD)

definition withStatus :: "env \<Rightarrow> order_status \<Rightarrow> order_row \<Rightarrow> order_row" where
  "withStatus env st r = r\<lparr>or_status := st, or_updatedAt := env_now env\<rparr>"

lemma withStatus_simps [simp]:
  "or_id (withStatus env st r) = or_id r" "or_tenantId (withStatus env st r) = or_tenantId r"
  "or_status (withStatus env st r) = st"
  by (simp_all add: withStatus_def)

definition statusPut :: "env \<Rightarrow> string \<Rightarrow> order_status \<Rightarrow> db \<Rightarrow> db" where
  "statusPut env i st s = s\<lparr>orders := updateMany (\<lambda>r. or_id r = i) (withStatus env st) (orders s)\<rparr>"

lemma setStatus_eq:
  "setStatus env i st s =
     (if list_ex (\<lambda>r. or_id r = i) (orders s) then Inr ((), statusPut env i st s) else Inl recordNotFound)"
  by (simp add: setStatus_def monad_defs statusPut_def withStatus_def [abs_def])

lemma findOrder_statusPut:
  "findOrder j t (statusPut env i st s) =
     (if j = i then map_option (withStatus env st) (findOrder j t s) else findOrder j t s)"
proof -
  have "find (\<lambda>r. or_id r = j \<and> or_tenantId r = t) (updateMany (\<lambda>r. or_id r = i) (withStatus env st) (orders s))
      = map_option (\<lambda>r. if or_id r = i then withStatus env st r else r)
          (find (\<lambda>r. or_id r = j \<and> or_tenantId r = t) (orders s))"
    by (rule find_updateMany) simp
  then show ?thesis
    by (cases "find (\<lambda>r. or_id r = j \<and> or_tenantId r = t) (orders s)")
       (auto simp: findOrder_def statusPut_def dest: find_SomeD)
qed

lemma announceStatus_outcome:
  "announceStatus env t st r s = (Inr u, s') \<Longrightarrow> \<exists>ms. s' = s\<lparr>sent := sent s @ ms\<rparr>"
  "announceStatus env t st r s \<noteq> (Inl e, s')"
  using emitters_frame(2) [of env t _ s] by (auto simp: announceStatus_def outcome)

lemma findOrder_frame [simp]:
  "findOrder i t (s\<lparr>orderHistory := h\<rparr>) = findOrder i t s" "findOrder i t (s\<lparr>auditLogs := a\<rparr>) = findOrder i t s"
  "findOrder i t (s\<lparr>activityLogs := b\<rparr>) = findOrder i t s" "findOrder i t (s\<lparr>sent := e\<rparr>) = findOrder i t s"
  "findOrder i t (s\<lparr>drawn := d\<rparr>) = findOrder i t s" "findOrder i t (s\<lparr>movements := m\<rparr>) = findOrder i t s"
  "findOrder i t (s\<lparr>inventory := iv\<rparr>) = findOrder i t s" "findOrder i t (s\<lparr>warehouseInventory := wv\<rparr>) = findOrder i t s"
  by (simp_all add: findOrder_def)

lemma updateStatusTx_Inr:
  assumes "updateStatusTx env t ctx q st reason s = Inr (r, s')"
  shows "\<exists>al ac. s' = (statusPut env (or_id q) st s)\<lparr>orderHistory := orderHistory s
       @ [\<lparr>hi_tenantId = t, hi_orderId = or_id q, hi_from = Some (or_status q), hi_to = st,
           hi_reason = orElse reason None, hi_createdBy = cx_userId ctx\<rparr>], auditLogs := al, activityLogs := ac\<rparr>
     \<and> r = findOrder (or_id q) t (statusPut env (or_id q) st s)"
  using assms
  by (auto simp: updateStatusTx_def Let_def outcome setStatus_eq insertHistory_def statusPut_def
        dest!: logAudit_Inr logActivity_Inr split: if_splits)

lemma updateStatus_Inr:
  assumes "updateStatus env i t ctx st reason s = (Inr r, s')"
  obtains q al ac ms where "findOrder i t s = Some q" and "order_machine.allowed (or_status q) st"
    and "r = withStatus env st q"
    and "s' = (statusPut env i st s)\<lparr>orderHistory := orderHistory s
       @ [\<lparr>hi_tenantId = t, hi_orderId = i, hi_from = Some (or_status q), hi_to = st,
           hi_reason = orElse reason None, hi_createdBy = cx_userId ctx\<rparr>], auditLogs := al, activityLogs := ac,
           sent := sent s @ ms\<rparr>"
proof -
  from assms obtain q s1 where q: "findOrder i t s = Some q" and v: "isValidTransition (Some (or_status q)) st"
    and tx: "updateStatusTx env t ctx q st reason s = Inr (Some r, s1)"
    and an: "announceStatus env t (or_status q) r s1 = (Inr (), s')"
    by (auto simp: updateStatus_def outcome)
  have i: "or_id q = i" using findOrder_id [OF q] by simp
  from updateStatusTx_Inr [OF tx] i obtain al ac where
    s1: "s1 = (statusPut env i st s)\<lparr>orderHistory := orderHistory s
       @ [\<lparr>hi_tenantId = t, hi_orderId = i, hi_from = Some (or_status q), hi_to = st,
           hi_reason = orElse reason None, hi_createdBy = cx_userId ctx\<rparr>], auditLogs := al, activityLogs := ac\<rparr>"
    and r: "Some r = findOrder i t (statusPut env i st s)" by auto
  have rq: "r = withStatus env st q" using r q by (simp add: findOrder_statusPut)
  from announceStatus_outcome(1) [OF an] obtain ms where ms: "s' = s1\<lparr>sent := sent s1 @ ms\<rparr>" by blast
  have "sent s1 = sent s" by (simp add: s1 statusPut_def)
  then have s': "s' = (statusPut env i st s)\<lparr>orderHistory := orderHistory s
       @ [\<lparr>hi_tenantId = t, hi_orderId = i, hi_from = Some (or_status q), hi_to = st,
           hi_reason = orElse reason None, hi_createdBy = cx_userId ctx\<rparr>], auditLogs := al, activityLogs := ac,
           sent := sent s @ ms\<rparr>"
    by (simp only: ms) (simp add: s1)
  have "order_machine.allowed (or_status q) st"
    using v by (simp add: isValidTransition_def order_machine.allowed_def)
  then show thesis by (rule that [OF q _ rq s'])
qed

section \<open>What cancelling does\<close>

text \<open>The quantity a list of reservations gives back to a key of its variant.\<close>

definition restored :: "string \<Rightarrow> string \<Rightarrow> movement_row list \<Rightarrow> stock_key \<Rightarrow> int" where
  "restored t v ms k = sum_list (map (\<lambda>m. \<bar>mv_changed m\<bar>) (filter (\<lambda>m. (t, v, mv_warehouseId m) = k) ms))"

lemma restored_simps [simp]:
  "restored t v [] k = 0"
  "restored t v (m # ms) k = (if (t, v, mv_warehouseId m) = k then \<bar>mv_changed m\<bar> else 0) + restored t v ms k"
  by (simp_all add: restored_def)

text \<open>Only the stock tables, the movements and the identifier stream change, and no reservation is added.\<close>

definition stockOnly :: "db \<Rightarrow> db \<Rightarrow> bool" where
  "stockOnly s s' \<longleftrightarrow> (\<exists>iv wv ms d. s' = s\<lparr>inventory := iv, warehouseInventory := wv,
       movements := movements s @ ms, drawn := d\<rparr> \<and> list_all (\<lambda>m. mv_type m = M_ORDER_RELEASE) ms)"

lemma stockOnly_refl: "stockOnly s s"
  unfolding stockOnly_def
  by (intro exI [of _ "inventory s"] exI [of _ "warehouseInventory s"] exI [of _ "[]"] exI [of _ "drawn s"]) simp

lemma stockOnly_trans: "stockOnly a b \<Longrightarrow> stockOnly b c \<Longrightarrow> stockOnly a c"
  unfolding stockOnly_def by (elim exE conjE, simp) (metis append.assoc list_all_append)

lemma stockOnly_reservations: "stockOnly s s' \<Longrightarrow> reservationsOf t v i s' = reservationsOf t v i s"
  by (auto simp: stockOnly_def reservationsOf_def filter_empty_conv list_all_iff)

lemma stockOnly_orders: "stockOnly s s' \<Longrightarrow> orders s' = orders s \<and> orderItems s' = orderItems s
    \<and> orderHistory s' = orderHistory s \<and> sent s' = sent s"
  by (auto simp: stockOnly_def)

lemma restoreMovement_ok:
  assumes inv: "inventoryInv s"
  shows "\<exists>s'. restoreMovement env t i reason u v m s = Inr ((), s') \<and> inventoryInv s' \<and> stockOnly s s'
    \<and> (\<forall>k. onHand s' k = onHand s k + (if (t, v, mv_warehouseId m) = k then \<bar>mv_changed m\<bar> else 0))"
proof -
  let ?k = "(t, v, mv_warehouseId m)"
  let ?q = "onHand s ?k + \<bar>mv_changed m\<bar>"
  let ?s1 = "putStock (env_now env) ?k ?q s"
  let ?m = "(movementOf ?k M_ORDER_RELEASE (onHand s ?k) \<bar>mv_changed m\<bar> ?q
     (orElse reason (Some ''ORDER_CANCELLED'')) (Some ''ORDER'') (Some i) u)\<lparr>mv_id := env_uuid env (drawn s)\<rparr>"
  let ?s2 = "?s1\<lparr>drawn := Suc (drawn s), movements := movements s @ [?m]\<rparr>"
  have "restoreMovement env t i reason u v m s = Inr ((), ?s2)"
  proof (cases "stock (inventory s) ?k")
    case None
    then have "stock (warehouseInventory s) ?k = None" using inv by (simp add: inventoryInv_def)
    with None have "thenT (createStock (env_now env) ?k \<bar>mv_changed m\<bar>)
        (createWarehouseStock (env_now env) ?k \<bar>mv_changed m\<bar>) s
        = Inr ((), putStock (env_now env) ?k \<bar>mv_changed m\<bar> s)"
      by (simp add: createStock_def createWarehouseStock_def stock_None thenT_def bindT_def putStock_def upsertQuantity_def)
    then show ?thesis
      by (auto simp: restoreMovement_def Let_def lockInventory_def outcome None releaseMovement_def createMovement_eq onHand_def)
  next
    case (Some q)
    then have "writeStock env ?k True (q + \<bar>mv_changed m\<bar>) s = Inr ((), putStock (env_now env) ?k (q + \<bar>mv_changed m\<bar>) s)"
      by (intro writeStock_putStock) simp
    then show ?thesis
      by (simp add: restoreMovement_def Let_def lockInventory_def outcome Some releaseMovement_def createMovement_eq onHand_def)
  qed
  moreover have "inventoryInv ?s2"
    using onHand_nonneg [OF inv, of ?k] by (intro inventoryInv_putStock_drawn inv) (simp_all add: movementOk_def)
  moreover have "stockOnly s ?s2"
    unfolding stockOnly_def putStock_def
    by (rule exI [of _ "upsertQuantity (env_now env) ?k ?q (inventory s)"],
        rule exI [of _ "upsertQuantity (env_now env) ?k ?q (warehouseInventory s)"], rule exI [of _ "[?m]"],
        rule exI [of _ "Suc (drawn s)"]) simp
  moreover have "onHand ?s2 k = onHand s k + (if ?k = k then \<bar>mv_changed m\<bar> else 0)" for k
    by (simp add: onHand_putStock)
  ultimately show ?thesis by blast
qed

lemma restoreLoop_ok:
  assumes "inventoryInv s"
  shows "\<exists>s'. forT ms (restoreMovement env t i reason u v) s = Inr ((), s') \<and> inventoryInv s' \<and> stockOnly s s'
    \<and> (\<forall>k. onHand s' k = onHand s k + restored t v ms k)"
  using assms
proof (induction ms arbitrary: s)
  case Nil
  then show ?case by (intro exI [of _ s]) (simp add: returnT_def stockOnly_refl)
next
  case (Cons m ms)
  obtain s1 where 1: "restoreMovement env t i reason u v m s = Inr ((), s1)" "inventoryInv s1" "stockOnly s s1"
    "\<forall>k. onHand s1 k = onHand s k + (if (t, v, mv_warehouseId m) = k then \<bar>mv_changed m\<bar> else 0)"
    using restoreMovement_ok [OF Cons.prems] by blast
  obtain s2 where 2: "forT ms (restoreMovement env t i reason u v) s1 = Inr ((), s2)" "inventoryInv s2"
    "stockOnly s1 s2" "\<forall>k. onHand s2 k = onHand s1 k + restored t v ms k"
    using Cons.IH [OF 1(2)] by blast
  show ?case
    using 1 2 stockOnly_trans by (intro exI [of _ s2]) (auto simp: outcome)
qed

text \<open>What all the lines of an order give back: every line restores every reservation of its variant.\<close>

definition restoredAll :: "string \<Rightarrow> string \<Rightarrow> order_item_row list \<Rightarrow> db \<Rightarrow> stock_key \<Rightarrow> int" where
  "restoredAll t i items s k =
     sum_list (map (\<lambda>it. restored t (oi_variantId it) (reservationsOf t (oi_variantId it) i s) k) items)"

definition reservedLines :: "string \<Rightarrow> string \<Rightarrow> order_item_row list \<Rightarrow> db \<Rightarrow> bool" where
  "reservedLines t i items s \<longleftrightarrow> list_all (\<lambda>it. reservationsOf t (oi_variantId it) i s \<noteq> []) items"

lemma restoreItems_ok:
  assumes "inventoryInv s" and "reservedLines t i items s"
  shows "\<exists>s'. forT items (restoreItem env t i reason u) s = Inr ((), s') \<and> inventoryInv s' \<and> stockOnly s s'
    \<and> (\<forall>k. onHand s' k = onHand s k + restoredAll t i items s k)"
  using assms
proof (induction items arbitrary: s)
  case Nil
  then show ?case by (intro exI [of _ s]) (simp add: returnT_def stockOnly_refl restoredAll_def)
next
  case (Cons it items)
  let ?v = "oi_variantId it"
  let ?ms = "reservationsOf t ?v i s"
  obtain s1 where 1: "forT ?ms (restoreMovement env t i reason u ?v) s = Inr ((), s1)" "inventoryInv s1" "stockOnly s s1"
    "\<forall>k. onHand s1 k = onHand s k + restored t ?v ?ms k"
    using restoreLoop_ok [OF Cons.prems(1)] by blast
  have item: "restoreItem env t i reason u it s = Inr ((), s1)"
    using 1(1) Cons.prems(2) by (simp add: restoreItem_def bindT_def readT_def reservedLines_def)
  have same: "reservationsOf t w i s1 = reservationsOf t w i s" for w by (rule stockOnly_reservations [OF 1(3)])
  have "reservedLines t i items s1" using Cons.prems(2) by (simp add: reservedLines_def same)
  then obtain s2 where 2: "forT items (restoreItem env t i reason u) s1 = Inr ((), s2)" "inventoryInv s2" "stockOnly s1 s2"
    "\<forall>k. onHand s2 k = onHand s1 k + restoredAll t i items s1 k"
    using Cons.IH [OF 1(2)] by blast
  have "restoredAll t i items s1 = restoredAll t i items s" by (simp add: restoredAll_def same fun_eq_iff)
  then show ?case
    using 1 2 item stockOnly_trans by (intro exI [of _ s2]) (auto simp: outcome restoredAll_def)
qed

lemma inventoryInv_cong:
  "inventory s' = inventory s \<Longrightarrow> warehouseInventory s' = warehouseInventory s \<Longrightarrow> movements s' = movements s \<Longrightarrow>
     inventoryInv s' = inventoryInv s"
  by (simp add: inventoryInv_def onHand_def fun_eq_iff)

lemma onHand_cong: "inventory s' = inventory s \<Longrightarrow> onHand s' = onHand s"
  by (simp add: onHand_def fun_eq_iff)

text \<open>The cancellation as a whole, on an order whose lines all have reservations: it cannot fail.\<close>

lemma cancelTx_ok:
  assumes inv: "inventoryInv s" and res: "reservedLines t (or_id q) items s"
    and ex: "list_ex (\<lambda>r. or_id r = or_id q) (orders s)" and t: "t \<noteq> []"
  obtains s' h where "cancelTx env t ctx q items reason s
       = Inr (findOrder (or_id q) t (statusPut env (or_id q) O_CANCELLED s), s')"
    and "inventoryInv s'" and "\<And>k. onHand s' k = onHand s k + restoredAll t (or_id q) items s k"
    and "orders s' = orders (statusPut env (or_id q) O_CANCELLED s)" and "orderItems s' = orderItems s"
    and "\<And>v i. reservationsOf t v i s' = reservationsOf t v i s" and "orderHistory s' = orderHistory s @ [h]"
    and "sent s' = sent s"
proof -
  let ?i = "or_id q"
  obtain s1 where 1: "forT items (restoreItem env t ?i reason (cx_userId ctx)) s = Inr ((), s1)"
    "inventoryInv s1" "stockOnly s s1" "\<forall>k. onHand s1 k = onHand s k + restoredAll t ?i items s k"
    using restoreItems_ok [OF inv res] by blast
  note same = stockOnly_orders [OF 1(3)]
  let ?h = "\<lparr>hi_tenantId = t, hi_orderId = ?i, hi_from = Some (or_status q), hi_to = O_CANCELLED,
       hi_reason = orElse reason (Some ''Order cancelled''), hi_createdBy = cx_userId ctx\<rparr>"
  let ?s2 = "(statusPut env ?i O_CANCELLED s1)\<lparr>orderHistory := orderHistory s @ [?h]\<rparr>"
  obtain al where al: "logAudit env ctx t ''UPDATE'' ''order'' (Some ?i) (statusObj (or_status q)) (statusObj O_CANCELLED) ?s2
      = Inr ((), ?s2\<lparr>auditLogs := al\<rparr>)"
    using logAudit_ok [OF t] by blast
  let ?act = "logActivity env ctx t ''order.cancel'' (''Order '' @ ?i @ '' cancelled'')
         (JObj [(''orderId'', JStr ?i), (''fromStatus'', JStr (order_status_str (or_status q)))])"
  obtain ac where ac: "?act (?s2\<lparr>auditLogs := al\<rparr>) = Inr ((), ?s2\<lparr>auditLogs := al, activityLogs := ac\<rparr>)"
    using logActivity_ok [OF t, of "''order.cancel''"] by fastforce
  let ?s' = "?s2\<lparr>auditLogs := al, activityLogs := ac\<rparr>"
  have put: "setStatus env ?i O_CANCELLED s1 = Inr ((), statusPut env ?i O_CANCELLED s1)"
    using ex same by (simp add: setStatus_eq)
  have oh: "orderHistory (statusPut env ?i O_CANCELLED s1) = orderHistory s" using same by (simp add: statusPut_def)
  have os: "orders (statusPut env ?i O_CANCELLED s1) = orders (statusPut env ?i O_CANCELLED s)"
    using same by (simp add: statusPut_def)
  have fo: "findOrder ?i t ?s' = findOrder ?i t (statusPut env ?i O_CANCELLED s)"
    using os by (simp add: findOrder_def)
  have run: "cancelTx env t ctx q items reason s = Inr (findOrder ?i t (statusPut env ?i O_CANCELLED s), ?s')"
    unfolding cancelTx_def Let_def thenT_def bindT_def
    by (simp only: 1(1) sum.case prod.case put insertHistory_def writeT_def oh al ac readT_def fo)
  have iv: "inventory ?s' = inventory s1" "warehouseInventory ?s' = warehouseInventory s1" "movements ?s' = movements s1"
    by (simp_all add: statusPut_def)
  have "inventoryInv ?s'" using inventoryInv_cong [OF iv] 1(2) by simp
  moreover have "onHand ?s' k = onHand s k + restoredAll t ?i items s k" for k
    by (simp only: onHand_cong [OF iv(1)] 1(4) [rule_format, of k])
  moreover have "reservationsOf t v i ?s' = reservationsOf t v i s" for v i
    using stockOnly_reservations [OF 1(3), of t v i] by (simp add: reservationsOf_def statusPut_def)
  ultimately show thesis
    using that [OF run] os same by (simp add: statusPut_def)
qed

lemma readCancellable_outcome:
  "readCancellable i t s = (Inr p, s') \<longleftrightarrow> s' = s \<and> snd p = itemsOf i s \<and> findOrder i t s = Some (fst p)
     \<and> or_status (fst p) \<in> set CANCELLABLE_STATUSES"
  by (cases p) (auto simp: readCancellable_def outcome CANCELLABLE_STATUSES_def)

lemma readCancellable_Inl: "readCancellable i t s = (Inl e, s') \<Longrightarrow> s' = s"
  by (auto simp: readCancellable_def outcome split: if_splits)

lemma commitCancel_Inr:
  assumes run: "commitCancel env t ctx reason p s = (Inr r, s')"
    and inv: "inventoryInv s" and res: "reservedLines t (or_id (fst p)) (snd p) s"
    and ex: "findOrder (or_id (fst p)) t s = Some q" and t: "t \<noteq> []"
  shows "inventoryInv s' \<and> (\<forall>k. onHand s' k = onHand s k + restoredAll t (or_id (fst p)) (snd p) s k)
    \<and> r = withStatus env O_CANCELLED q \<and> orders s' = orders (statusPut env (or_id (fst p)) O_CANCELLED s)
    \<and> orderItems s' = orderItems s \<and> (\<forall>v i. reservationsOf t v i s' = reservationsOf t v i s)"
proof (rule cancelTx_ok [OF inv res findOrder_mem [OF ex] t, of env ctx reason], goal_cases)
  case (1 s1 h)
  from run 1(1) obtain s2 where r: "findOrder (or_id (fst p)) t (statusPut env (or_id (fst p)) O_CANCELLED s) = Some r"
    and an: "announceStatus env t (or_status (fst p)) r s1 = (Inr (), s')"
    by (auto simp: commitCancel_def outcome)
  from announceStatus_outcome(1) [OF an] obtain ms where s': "s' = s1\<lparr>sent := sent s1 @ ms\<rparr>" by blast
  have "r = withStatus env O_CANCELLED q" using r ex by (simp add: findOrder_statusPut)
  moreover have "inventoryInv s' = inventoryInv s1" by (rule inventoryInv_cong) (simp_all add: s')
  moreover have "onHand s' = onHand s1" by (rule onHand_cong) (simp add: s')
  moreover have "reservationsOf t v i s' = reservationsOf t v i s1" for v i by (simp add: reservationsOf_def s')
  ultimately show ?case using 1 by (simp add: s')
qed

lemma commitCancel_succeeds:
  assumes "inventoryInv s" and "reservedLines t (or_id (fst p)) (snd p) s"
    and ex: "findOrder (or_id (fst p)) t s = Some q" and "t \<noteq> []"
  shows "\<exists>r s'. commitCancel env t ctx reason p s = (Inr r, s')"
proof (rule cancelTx_ok [OF assms(1,2) findOrder_mem [OF ex] assms(4), of env ctx reason], goal_cases)
  case (1 s1 h)
  have "findOrder (or_id (fst p)) t (statusPut env (or_id (fst p)) O_CANCELLED s) = Some (withStatus env O_CANCELLED q)"
    using ex by (simp add: findOrder_statusPut)
  then show ?case
    using 1(1) by (auto simp: commitCancel_def bindH_def transaction_def orThrowH_def returnH_def thenH_def
        announceStatus_def writeH_def)
qed

section \<open>The order book\<close>

text \<open>
  Every line belongs to an order of its tenant and has a reservation of that order, and every
  reservation belongs to an order. With the stock invariant this is what creating, moving and
  cancelling orders keep, between stock adjustments and transfers.
\<close>

definition lineOk :: "db \<Rightarrow> order_item_row \<Rightarrow> bool" where
  "lineOk s it \<longleftrightarrow> list_ex (\<lambda>q. or_id q = oi_orderId it) (orders s)
     \<and> list_all (\<lambda>q. or_id q = oi_orderId it \<longrightarrow> or_tenantId q = oi_tenantId it) (orders s)
     \<and> reservationsOf (oi_tenantId it) (oi_variantId it) (oi_orderId it) s \<noteq> []"

definition referenceOk :: "db \<Rightarrow> movement_row \<Rightarrow> bool" where
  "referenceOk s m \<longleftrightarrow>
     (mv_type m = M_ORDER_RESERVATION \<longrightarrow> list_ex (\<lambda>q. mv_referenceId m = Some (or_id q)) (orders s))"

definition ordersInv :: "db \<Rightarrow> bool" where
  "ordersInv s \<longleftrightarrow> inventoryInv s \<and> list_all (lineOk s) (orderItems s) \<and> list_all (referenceOk s) (movements s)"

lemma reservationsOf_append:
  "movements s' = movements s @ ms \<Longrightarrow> reservationsOf t v i s' = reservationsOf t v i s @
     filter (\<lambda>m. mv_tenantId m = t \<and> mv_variantId m = v \<and> mv_referenceType m = Some ''ORDER''
       \<and> mv_referenceId m = Some i \<and> mv_type m = M_ORDER_RESERVATION) ms"
  by (simp add: reservationsOf_def)

text \<open>A step that keeps the orders and only adds other movements keeps the book.\<close>

lemma ordersInv_frame:
  assumes "ordersInv s" and "inventoryInv s'" and "map or_id (orders s') = map or_id (orders s)"
    and "map or_tenantId (orders s') = map or_tenantId (orders s)"
    and "orderItems s' = orderItems s" and "movements s' = movements s @ ms"
    and "list_all (\<lambda>m. mv_type m \<noteq> M_ORDER_RESERVATION) ms"
  shows "ordersInv s'"
proof -
  have ids: "list_ex (\<lambda>q. P (or_id q)) (orders s') = list_ex (\<lambda>q. P (or_id q)) (orders s)" for P
  proof -
    have e: "list_ex (\<lambda>q. P (or_id q)) xs = list_ex P (map or_id xs)" for xs by (simp add: list_ex_iff)
    show ?thesis unfolding e assms(3) by (rule refl)
  qed
  have ten: "list_all (\<lambda>q. or_id q = i \<longrightarrow> or_tenantId q = t) (orders s') =
      list_all (\<lambda>q. or_id q = i \<longrightarrow> or_tenantId q = t) (orders s)" for i t
  proof -
    have e: "list_all (\<lambda>q. or_id q = i \<longrightarrow> or_tenantId q = t) xs =
        list_all (\<lambda>(a, b). a = i \<longrightarrow> b = t) (zip (map or_id xs) (map or_tenantId xs))" for xs
      by (induction xs) simp_all
    show ?thesis unfolding e assms(3,4) by (rule refl)
  qed
  have "lineOk s it \<Longrightarrow> lineOk s' it" for it
    by (simp add: lineOk_def ids [of "\<lambda>x. x = oi_orderId it"] ten reservationsOf_append [OF assms(6)])
  moreover have "referenceOk s' m = referenceOk s m" for m
    by (simp add: referenceOk_def ids [of "\<lambda>x. mv_referenceId m = Some x"])
  moreover have "list_all (referenceOk s') ms" using assms(7) by (auto simp: list_all_iff referenceOk_def)
  ultimately show ?thesis
    using assms(1,2,5,6) by (auto simp: ordersInv_def list_all_iff)
qed

lemma ordersInv_unchanged:
  "ordersInv s \<Longrightarrow> inventory s' = inventory s \<Longrightarrow> warehouseInventory s' = warehouseInventory s \<Longrightarrow>
     movements s' = movements s \<Longrightarrow> map or_id (orders s') = map or_id (orders s) \<Longrightarrow>
     map or_tenantId (orders s') = map or_tenantId (orders s) \<Longrightarrow> orderItems s' = orderItems s \<Longrightarrow> ordersInv s'"
  using inventoryInv_cong [of s' s] by (rule_tac ordersInv_frame [of s s' "[]"]) (auto simp: ordersInv_def)

lemma statusPut_keys:
  "map or_id (orders (statusPut env i st s)) = map or_id (orders s)"
  "map or_tenantId (orders (statusPut env i st s)) = map or_tenantId (orders s)"
  by (simp_all add: statusPut_def map_updateMany)

lemma updateStatus_Inl:
  assumes "updateStatus env i t ctx st reason s = (Inl e, s')"
  shows "s' = s"
proof (rule ccontr)
  assume "s' \<noteq> s"
  with assms obtain q s1 where q: "findOrder i t s = Some q" and tx: "updateStatusTx env t ctx q st reason s = Inr (None, s1)"
    by (auto simp: updateStatus_def outcome announceStatus_outcome(2))
  show False using updateStatusTx_Inr [OF tx] findOrder_id [OF q] q by (auto simp: findOrder_statusPut)
qed

lemma updateStatus_keeps: "updateStatus env i t ctx st reason s = (r, s') \<Longrightarrow> ordersInv s \<Longrightarrow> ordersInv s'"
proof (cases r)
  case (Inl e)
  assume "updateStatus env i t ctx st reason s = (r, s')" "ordersInv s"
  with Inl show ?thesis by (auto dest: updateStatus_Inl)
next
  case (Inr q)
  assume run: "updateStatus env i t ctx st reason s = (r, s')" and inv: "ordersInv s"
  show ?thesis
  proof (rule updateStatus_Inr [OF run [unfolded Inr]], goal_cases)
    case (1 q al ac ms)
    show ?case
      by (rule ordersInv_unchanged [OF inv]) (subst 1(4), simp add: statusPut_def map_updateMany)+
  qed
qed

lemma lines_reserved:
  assumes inv: "ordersInv s" and q: "findOrder i t s = Some q"
  shows "reservedLines t i (itemsOf i s) s"
  unfolding reservedLines_def list_all_iff
proof
  fix it
  assume "it \<in> set (itemsOf i s)"
  then have it: "it \<in> set (orderItems s)" "oi_orderId it = i" by (simp_all add: itemsOf_def)
  then have "lineOk s it" using inv by (simp add: ordersInv_def list_all_iff)
  moreover have "q \<in> set (orders s)" "or_id q = i" "or_tenantId q = t"
    using q by (auto simp: findOrder_def dest: find_SomeD)
  ultimately show "reservationsOf t (oi_variantId it) i s \<noteq> []"
    using it by (auto simp: lineOk_def list_all_iff)
qed

lemma cancelTx_movements:
  assumes "cancelTx env t ctx q items reason s = Inr (x, s')" and "inventoryInv s"
    and "reservedLines t (or_id q) items s"
  shows "\<exists>ms. movements s' = movements s @ ms \<and> list_all (\<lambda>m. mv_type m \<noteq> M_ORDER_RESERVATION) ms"
proof -
  obtain s1 where 1: "forT items (restoreItem env t (or_id q) reason (cx_userId ctx)) s = Inr ((), s1)" "stockOnly s s1"
    using restoreItems_ok [OF assms(2,3)] by blast
  have "movements s' = movements s1"
    using assms(1) 1(1)
    by (auto simp: cancelTx_def Let_def outcome setStatus_eq statusPut_def insertHistory_def
        dest!: logAudit_Inr logActivity_Inr split: if_splits)
  then show ?thesis using 1(2) by (auto simp: stockOnly_def list_all_iff)
qed

lemma cancelOrder_Inr:
  assumes run: "cancelOrder env i t ctx reason s = (Inr r, s')" and inv: "ordersInv s" and t: "t \<noteq> []"
  obtains q where "findOrder i t s = Some q" and "or_status q \<in> set CANCELLABLE_STATUSES"
    and "ordersInv s'" and "\<And>k. onHand s' k = onHand s k + restoredAll t i (itemsOf i s) s k"
    and "r = withStatus env O_CANCELLED q" and "orders s' = orders (statusPut env i O_CANCELLED s)"
proof -
  from run obtain p where rd: "readCancellable i t s = (Inr p, s)" and cm: "commitCancel env t ctx reason p s = (Inr r, s')"
    by (auto simp: cancelOrder_def outcome readCancellable_outcome)
  obtain q where p: "p = (q, itemsOf i s)" and q: "findOrder i t s = Some q"
    and st: "or_status q \<in> set CANCELLABLE_STATUSES"
    using rd by (cases p) (auto simp: readCancellable_outcome)
  have i: "or_id q = i" using findOrder_id [OF q] by simp
  have ii: "inventoryInv s" using inv by (simp add: ordersInv_def)
  have res: "reservedLines t (or_id (fst p)) (snd p) s" using lines_reserved [OF inv q] by (simp add: p i)
  have fo: "findOrder (or_id (fst p)) t s = Some q" using q by (simp add: p i)
  note eff = commitCancel_Inr [OF cm ii res fo t]
  from cm obtain s1 where tx: "cancelTx env t ctx q (itemsOf i s) reason s = Inr (Some r, s1)"
    and an: "announceStatus env t (or_status q) r s1 = (Inr (), s')"
    by (auto simp: commitCancel_def outcome p)
  from cancelTx_movements [OF tx ii] res obtain ms where ms: "movements s1 = movements s @ ms"
    "list_all (\<lambda>m. mv_type m \<noteq> M_ORDER_RESERVATION) ms" by (auto simp: p)
  have "movements s' = movements s @ ms" using announceStatus_outcome(1) [OF an] ms by auto
  then have "ordersInv s'"
    using eff ms(2) by (intro ordersInv_frame [OF inv]) (simp_all add: p i statusPut_keys)
  then show thesis using that [OF q st] eff by (simp add: p i)
qed

lemma cancelOrder_Inl:
  assumes run: "cancelOrder env i t ctx reason s = (Inl e, s')" and inv: "ordersInv s" and t: "t \<noteq> []"
  shows "s' = s"
proof (cases "\<exists>p. readCancellable i t s = (Inr p, s)")
  case True
  then obtain p where rd: "readCancellable i t s = (Inr p, s)" by blast
  then have q: "findOrder i t s = Some (fst p)" and p: "snd p = itemsOf i s" by (simp_all add: readCancellable_outcome)
  have i: "or_id (fst p) = i" using findOrder_id [OF q] by simp
  have "\<exists>r s'. commitCancel env t ctx reason p s = (Inr r, s')"
    by (rule commitCancel_succeeds) (use inv q p i t lines_reserved [OF inv q] in \<open>auto simp: ordersInv_def\<close>)
  then show ?thesis using run rd by (auto simp: cancelOrder_def bindH_def)
next
  case False
  then show ?thesis
    using run by (auto simp: cancelOrder_def outcome dest: readCancellable_Inl) (metis readCancellable_outcome)
qed

lemma reservation_row_of:
  "length ids = length cs \<Longrightarrow> c \<in> set cs \<Longrightarrow>
     \<exists>m \<in> set (map2 (reservationRow t u i f) cs ids). mv_tenantId m = t \<and> mv_variantId m = ic_productVariantId c
      \<and> mv_referenceType m = Some ''ORDER'' \<and> mv_referenceId m = Some i \<and> mv_type m = M_ORDER_RESERVATION"
  by (induction ids cs rule: list_induct2) (auto simp: reservationRow_def movementOf_def calcKey_def)

lemma orderCore_ordersInv:
  assumes run: "orderCore env t ctx p s = Inr (r, s')" and ok: "list_all calcOk (pp_items p)" and inv: "ordersInv s"
  shows "ordersInv s'"
proof (rule orderCore_Inr [OF run ok refl], goal_cases)
  case (1 i iv wv ids d al ac)
  let ?rows = "map2 (reservationRow t (cx_userId ctx) i (onHand s')) (pp_items p) ids"
  have os: "orders s' = orders s @ [r]" and its: "orderItems s' = orderItems s @ map (itemRowOf t i) (pp_items p)"
    and mv: "movements s' = movements s @ ?rows" by (subst 1(7), simp)+
  have i: "or_id r = i" "or_tenantId r = t" by (subst 1(1), simp add: orderRowOf_def)+
  have fresh: "\<not> list_ex (\<lambda>q. or_id q = i) (orders s)"
    using 1(2) i by (auto simp: orderTaken_def list_ex_iff)
  have old: "lineOk s it \<Longrightarrow> lineOk s' it" for it
    using fresh i by (auto simp: lineOk_def os reservationsOf_append [OF mv] list_ex_iff)
  have rows: "\<forall>m \<in> set ?rows. mv_type m = M_ORDER_RESERVATION \<and> mv_referenceId m = Some i"
    using reservation_rows [OF 1(3)] by blast
  have mem: "\<exists>m \<in> set ?rows. mv_tenantId m = t \<and> mv_variantId m = ic_productVariantId c
      \<and> mv_referenceType m = Some ''ORDER'' \<and> mv_referenceId m = Some i \<and> mv_type m = M_ORDER_RESERVATION"
    if "c \<in> set (pp_items p)" for c
    by (rule reservation_row_of [OF 1(3) that])
  have "reservationsOf t (ic_productVariantId c) i s' \<noteq> []" if "c \<in> set (pp_items p)" for c
    using mem [OF that] unfolding reservationsOf_append [OF mv] append_is_Nil_conv filter_empty_conv by blast
  then have "lineOk s' (itemRowOf t i c)" if "c \<in> set (pp_items p)" for c
    using that fresh i by (auto simp: lineOk_def os itemRowOf_def list_all_iff list_ex_iff)
  then have "list_all (lineOk s') (orderItems s')"
    using inv old by (auto simp: its ordersInv_def list_all_iff)
  moreover have "list_all (referenceOk s') (movements s')"
    using inv rows i by (auto simp: mv os ordersInv_def list_all_iff referenceOk_def)
  moreover have "inventoryInv s'"
    using inv by (intro orderCore_inventoryInv [OF run ok]) (simp add: ordersInv_def)
  ultimately show ?case by (simp add: ordersInv_def)
qed

lemma createOrder_keeps:
  "createOrder env faults t ctx body noHook s = (x, s') \<Longrightarrow> ordersInv s \<Longrightarrow> ordersInv s'"
proof (cases x)
  case (Inl e)
  assume "createOrder env faults t ctx body noHook s = (x, s')" "ordersInv s"
  with Inl show ?thesis by (auto dest: createOrder_plain_Inl)
next
  case (Inr r)
  assume run: "createOrder env faults t ctx body noHook s = (x, s')" and inv: "ordersInv s"
  obtain p s1 ms js where ok: "preparedOk p"
    and core: "orderCore env t ctx p s = Inr (r, s1)" and s': "s' = s1\<lparr>sent := sent s1 @ ms, jobs := jobs s1 @ js\<rparr>"
    by (rule createOrder_plain_Inr [OF run [unfolded Inr]])
  have "ordersInv s1" using ok by (intro orderCore_ordersInv [OF core _ inv]) (simp add: preparedOk_def)
  then show ?thesis by (rule ordersInv_unchanged) (simp_all add: s')
qed

lemma adjust_book: "adjust env faults t u body s = (x, s') \<Longrightarrow> ordersInv s
    \<Longrightarrow> ordersInv s' \<and> orders s' = orders s \<and> orderHistory s' = orderHistory s"
proof (cases x)
  case (Inl e)
  assume "adjust env faults t u body s = (x, s')" "ordersInv s"
  with Inl show ?thesis by (auto dest: adjust_Inl)
next
  case (Inr r)
  assume run: "adjust env faults t u body s = (x, s')" and inv: "ordersInv s"
  let ?k = "(t, resolveVariantId (aj_variantId body) (aj_productVariantId body), orEmpty (aj_warehouseId body))"
  obtain s1 reason rt ri ms where tx: "adjustTx env ?k u (aj_quantityChanged body) reason rt ri s = Inr (r, s1)"
    and s': "s' = s1\<lparr>sent := sent s1 @ ms\<rparr>"
    by (rule adjust_Inr [OF run [unfolded Inr]])
  have "inventoryInv s'"
    using adjust_keeps [of env faults t u body] run inv by (auto simp: keepsH_def ordersInv_def dest: spec [of _ s])
  moreover
  define m where "m = (movementOf ?k M_ADJUSTMENT (onHand s ?k) (aj_quantityChanged body)
    (onHand s ?k + aj_quantityChanged body) reason rt ri u)\<lparr>mv_id := env_uuid env (drawn s)\<rparr>"
  have "mv_type m = M_ADJUSTMENT" by (simp add: m_def)
  moreover have "movements s1 = movements s @ [m]" "orders s1 = orders s" "orderItems s1 = orderItems s"
    "orderHistory s1 = orderHistory s"
    using tx by (auto simp: adjustTx_eq Let_def putStock_def m_def split: if_splits)
  ultimately show ?thesis by (intro conjI ordersInv_frame [OF inv, of s' "[m]"]) (simp_all add: s')
qed

lemma transfer_book: "transfer env faults t u body s = (x, s') \<Longrightarrow> ordersInv s
    \<Longrightarrow> ordersInv s' \<and> orders s' = orders s \<and> orderHistory s' = orderHistory s"
proof (cases x)
  case (Inl e)
  assume "transfer env faults t u body s = (x, s')" "ordersInv s"
  with Inl show ?thesis by (auto dest: transfer_Inl)
next
  case (Inr r)
  assume run: "transfer env faults t u body s = (x, s')" and inv: "ordersInv s"
  let ?v = "resolveVariantId (tr_variantId body) (tr_productVariantId body)"
  let ?src = "orEmpty (orElse (tr_sourceWarehouseId body) (tr_warehouseId body))"
  let ?dst = "orEmpty (orElse (tr_destinationWarehouseId body) (tr_destWarehouseId body))"
  obtain s1 ms reason rt where tx: "transferTx env t ?v ?src ?dst u (tr_quantity body) reason rt (tr_referenceId body) s = Inr (r, s1)"
    and s': "s' = s1\<lparr>sent := sent s1 @ ms\<rparr>" and ne: "?src \<noteq> ?dst" and q: "0 < tr_quantity body"
    by (rule transfer_Inr [OF run [unfolded Inr]])
  have "inventoryInv s'"
    using transfer_keeps [of env faults t u body] run inv by (auto simp: keepsH_def ordersInv_def dest: spec [of _ s])
  moreover obtain m m' where "mv_type m = M_TRANSFER" "mv_type m' = M_TRANSFER"
    "movements s1 = movements s @ [m, m']" "orders s1 = orders s" "orderItems s1 = orderItems s" "orderHistory s1 = orderHistory s"
  proof (rule transferTx_Inr [OF tx ne q], goal_cases)
    case (1 ref d i j m m')
    show ?case by (rule 1(1) [of m m']) (use 1(4,5) in \<open>simp_all add: transferMoves_def putStock_def\<close>)
  qed
  ultimately show ?thesis by (intro conjI ordersInv_frame [OF inv, of s' "[m, m']"]) (simp_all add: s')
qed

text \<open>
  The history of an order: every entry belongs to an order of its shop, and the last entry of every order says
  the status it has.
\<close>

definition loggedStatus :: "string \<Rightarrow> history_row list \<Rightarrow> order_status option" where
  "loggedStatus i hs = (case filter (\<lambda>h. hi_orderId h = i) (rev hs) of [] \<Rightarrow> None | h # _ \<Rightarrow> Some (hi_to h))"

lemma loggedStatus_snoc [simp]: "loggedStatus i (hs @ [h]) = (if hi_orderId h = i then Some (hi_to h) else loggedStatus i hs)"
  by (simp add: loggedStatus_def)

definition historyOk :: "db \<Rightarrow> bool" where
  "historyOk s \<longleftrightarrow>
     list_all (\<lambda>h. list_ex (\<lambda>q. or_id q = hi_orderId h \<and> or_tenantId q = hi_tenantId h) (orders s)) (orderHistory s)
     \<and> list_all (\<lambda>q. loggedStatus (or_id q) (orderHistory s) = Some (or_status q)) (orders s)"

lemma historyOk_same: "historyOk s \<Longrightarrow> orders s' = orders s \<Longrightarrow> orderHistory s' = orderHistory s \<Longrightarrow> historyOk s'"
  by (simp add: historyOk_def)

lemma historyOk_new:
  assumes "historyOk s" and "orders s' = orders s @ [r]" and "orderHistory s' = orderHistory s @ [h]"
    and "hi_orderId h = or_id r" "hi_tenantId h = or_tenantId r" "hi_to h = or_status r"
    and "\<not> list_ex (\<lambda>q. or_id q = or_id r) (orders s)"
  shows "historyOk s'"
  using assms by (fastforce simp: historyOk_def list_all_iff list_ex_iff)

lemma historyOk_moved:
  assumes "historyOk s" and os: "orders s' = orders (statusPut env i st s)" and "orderHistory s' = orderHistory s @ [h]"
    and h: "hi_orderId h = i" "hi_to h = st" and q: "findOrder i (hi_tenantId h) s = Some q"
  shows "historyOk s'"
proof -
  have keys: "list_ex (\<lambda>q. or_id q = j \<and> or_tenantId q = t) (orders s')
      = list_ex (\<lambda>q. or_id q = j \<and> or_tenantId q = t) (orders s)" for j t
  proof -
    have "list_ex (\<lambda>q. or_id q = j \<and> or_tenantId q = t) (updateMany (\<lambda>r. or_id r = i) (withStatus env st) xs)
        = list_ex (\<lambda>q. or_id q = j \<and> or_tenantId q = t) xs" for xs
      by (induction xs) auto
    then show ?thesis by (simp add: os statusPut_def)
  qed
  have "list_ex (\<lambda>q. or_id q = hi_orderId h \<and> or_tenantId q = hi_tenantId h) (orders s)"
    using q h by (auto simp: findOrder_def list_ex_iff dest: find_SomeD)
  moreover have "list_all (\<lambda>q. loggedStatus (or_id q) (hs @ [h]) = Some (or_status q)) (updateMany (\<lambda>r. or_id r = i) (withStatus env st) xs)"
    if "list_all (\<lambda>q. loggedStatus (or_id q) hs = Some (or_status q)) xs" for xs hs
    using that by (induction xs) (simp_all add: h)
  ultimately show ?thesis
    using assms(1) unfolding historyOk_def assms(3) keys by (simp add: os statusPut_def)
qed

lemma createOrder_history:
  assumes run: "createOrder env faults t ctx body noHook s = (x, s')" and ok: "historyOk s"
  shows "historyOk s'"
proof (cases x)
  case (Inl e)
  then show ?thesis using run ok by (auto dest: createOrder_plain_Inl)
next
  case (Inr r)
  obtain p s1 ms js where p: "preparedOk p"
    and core: "orderCore env t ctx p s = Inr (r, s1)" and s': "s' = s1\<lparr>sent := sent s1 @ ms, jobs := jobs s1 @ js\<rparr>"
    by (rule createOrder_plain_Inr [OF run [unfolded Inr]])
  have cok: "list_all calcOk (pp_items p)" using p by (simp add: preparedOk_def)
  have "historyOk s1"
  proof (rule orderCore_Inr [OF core cok refl], goal_cases)
    case (1 i iv wv ids d al ac)
    have "or_id r = i" "or_tenantId r = t" "or_status r = O_PENDING" by (subst 1(1), simp add: orderRowOf_def)+
    moreover have "orders s1 = orders s @ [r]" "orderHistory s1 = orderHistory s @ [createdHistory t i (cx_userId ctx)]"
      by (subst 1(7), simp)+
    ultimately show ?case
      using 1(2) by (intro historyOk_new [OF ok]) (auto simp: createdHistory_def orderTaken_def list_ex_iff)
  qed
  then show ?thesis by (rule historyOk_same) (simp_all add: s')
qed

lemma updateStatus_history:
  assumes run: "updateStatus env i t ctx st reason s = (x, s')" and ok: "historyOk s"
  shows "historyOk s'"
proof (cases x)
  case (Inl e)
  then show ?thesis using run ok by (auto dest: updateStatus_Inl)
next
  case (Inr r)
  show ?thesis
  proof (rule updateStatus_Inr [OF run [unfolded Inr]], goal_cases)
    case (1 q al ac ms)
    let ?h = "\<lparr>hi_tenantId = t, hi_orderId = i, hi_from = Some (or_status q), hi_to = st,
        hi_reason = orElse reason None, hi_createdBy = cx_userId ctx\<rparr>"
    have "orders s' = orders (statusPut env i st s)" "orderHistory s' = orderHistory s @ [?h]" by (subst 1(4), simp)+
    then show ?case using 1(1) by (intro historyOk_moved [OF ok, of s' env i st ?h q]) simp_all
  qed
qed

lemma cancelTx_history:
  assumes "cancelTx env t ctx q items reason s = Inr (x, s')" and "inventoryInv s"
    and "reservedLines t (or_id q) items s"
  shows "\<exists>h. orderHistory s' = orderHistory s @ [h] \<and> hi_orderId h = or_id q \<and> hi_tenantId h = t \<and> hi_to h = O_CANCELLED"
proof -
  obtain s1 where 1: "forT items (restoreItem env t (or_id q) reason (cx_userId ctx)) s = Inr ((), s1)" "stockOnly s s1"
    using restoreItems_ok [OF assms(2,3)] by blast
  show ?thesis
    using assms(1) 1(1) stockOnly_orders [OF 1(2)]
    by (auto simp: cancelTx_def Let_def outcome setStatus_eq statusPut_def insertHistory_def
        dest!: logAudit_Inr logActivity_Inr split: if_splits)
qed

lemma cancelOrder_history:
  assumes run: "cancelOrder env i t ctx reason s = (Inr r, s')" and inv: "ordersInv s" and t: "t \<noteq> []" and ok: "historyOk s"
  shows "historyOk s'"
proof -
  from run obtain p where rd: "readCancellable i t s = (Inr p, s)" and cm: "commitCancel env t ctx reason p s = (Inr r, s')"
    by (auto simp: cancelOrder_def outcome readCancellable_outcome)
  obtain q where p: "p = (q, itemsOf i s)" and q: "findOrder i t s = Some q"
    using rd by (cases p) (auto simp: readCancellable_outcome)
  have i: "or_id q = i" using findOrder_id [OF q] by simp
  from cm obtain s1 where tx: "cancelTx env t ctx q (itemsOf i s) reason s = Inr (Some r, s1)"
    and an: "announceStatus env t (or_status q) r s1 = (Inr (), s')"
    by (auto simp: commitCancel_def outcome p)
  have "reservedLines t (or_id q) (itemsOf i s) s" using lines_reserved [OF inv q] by (simp add: i)
  from cancelTx_history [OF tx _ this] inv obtain h where h: "orderHistory s1 = orderHistory s @ [h]" "hi_orderId h = i"
      "hi_tenantId h = t" "hi_to h = O_CANCELLED" by (auto simp: ordersInv_def i)
  have "orderHistory s' = orderHistory s1" using announceStatus_outcome(1) [OF an] by auto
  moreover have "orders s' = orders (statusPut env i O_CANCELLED s)" by (rule cancelOrder_Inr [OF run inv t])
  ultimately show ?thesis using h q by (intro historyOk_moved [OF ok, of s' env i O_CANCELLED h q]) simp_all
qed

abbreviation orderBook :: "db \<Rightarrow> bool" where
  "orderBook s \<equiv> ordersInv s \<and> historyOk s"

text \<open>C3: the order book stays consistent. Whatever is asked of them, and whether they succeed or throw,
  creating an order, changing its status, cancelling it, adjusting stock and transferring stock keep:
  stock quantities that are never negative and equal the sum of their movements, equal stock tables,
  order lines that belong to an order of their shop and have a reservation, reservations that belong to
  an order, and histories: every entry belongs to an order of its shop, and the last entry of an order says the
  status it has. A cancellation that throws changes nothing.\<close>

theorem order_book_invariant:
  assumes "orderBook s" and "t \<noteq> []"
  shows "orderBook (snd (createOrder env faults t ctx body noHook s))
    \<and> orderBook (snd (updateStatus env i t ctx st reason s))
    \<and> orderBook (snd (cancelOrder env i t ctx reason s))
    \<and> orderBook (snd (adjust env faults t u abody s))
    \<and> orderBook (snd (transfer env faults t u tbody s))
    \<and> (\<forall>e s'. cancelOrder env i t ctx reason s = (Inl e, s') \<longrightarrow> s' = s)"
proof (intro conjI)
  have inv: "ordersInv s" and ok: "historyOk s" using assms(1) by simp_all
  have book: "orderBook (snd (cancelOrder env i t ctx reason s))"
  proof (cases "cancelOrder env i t ctx reason s")
    case (Pair x s')
    show ?thesis
    proof (cases x)
      case (Inl e)
      then show ?thesis using cancelOrder_Inl [OF Pair [unfolded Inl] inv assms(2)] assms(1) Pair by simp
    next
      case (Inr r)
      note run = Pair [unfolded Inr]
      have "ordersInv s'" by (rule cancelOrder_Inr [OF run inv assms(2)])
      then show ?thesis using cancelOrder_history [OF run inv assms(2) ok] Pair by simp
    qed
  qed
  then show "ordersInv (snd (cancelOrder env i t ctx reason s))" "historyOk (snd (cancelOrder env i t ctx reason s))"
    by blast+
  show "ordersInv (snd (createOrder env faults t ctx body noHook s))" "historyOk (snd (createOrder env faults t ctx body noHook s))"
    using createOrder_keeps [OF surjective_pairing inv] createOrder_history [OF surjective_pairing ok] by blast+
  show "ordersInv (snd (updateStatus env i t ctx st reason s))" "historyOk (snd (updateStatus env i t ctx st reason s))"
    using updateStatus_keeps [OF surjective_pairing inv] updateStatus_history [OF surjective_pairing ok] by blast+
  show "ordersInv (snd (adjust env faults t u abody s))" "historyOk (snd (adjust env faults t u abody s))"
    using adjust_book [OF surjective_pairing inv] historyOk_same [OF ok] by blast+
  show "ordersInv (snd (transfer env faults t u tbody s))" "historyOk (snd (transfer env faults t u tbody s))"
    using transfer_book [OF surjective_pairing inv] historyOk_same [OF ok] by blast+
  show "\<forall>e s'. cancelOrder env i t ctx reason s = (Inl e, s') \<longrightarrow> s' = s"
    using cancelOrder_Inl inv assms(2) by blast
qed

section \<open>Creating, then cancelling\<close>

definition linesOf :: "order_body \<Rightarrow> string \<Rightarrow> nat" where
  "linesOf body v = length (filter (\<lambda>it. ni_productVariantId (normalizeItem it) = v) (ob_items body))"

definition takenBy :: "order_body \<Rightarrow> string \<Rightarrow> string \<Rightarrow> int" where
  "takenBy body v w = sum_list (map ib_quantity
     (filter (\<lambda>it. ni_productVariantId (normalizeItem it) = v \<and> ib_warehouseId it = w) (ob_items body)))"

lemma reserved_zip:
  "reserved t cs (t, v, w) = sum_list (map (\<lambda>(a, b, c). if a = v \<and> b = w then c else 0)
     (zip (map ic_productVariantId cs) (zip (map ic_warehouseId cs) (map ic_quantity cs))))"
  by (induction cs) (auto simp: calcKey_def)

lemma takenBy_zip:
  "takenBy body v w = sum_list (map (\<lambda>(a, b, c). if a = v \<and> b = w then c else 0)
     (zip (map ni_productVariantId (map normalizeItem (ob_items body)))
        (zip (map ni_warehouseId (map normalizeItem (ob_items body))) (map ni_quantity (map normalizeItem (ob_items body))))))"
proof -
  have "sum_list (map ib_quantity (filter (\<lambda>it. ni_productVariantId (normalizeItem it) = v \<and> ib_warehouseId it = w) xs))
    = sum_list (map (\<lambda>(a, b, c). if a = v \<and> b = w then c else 0)
     (zip (map ni_productVariantId (map normalizeItem xs))
        (zip (map ni_warehouseId (map normalizeItem xs)) (map ni_quantity (map normalizeItem xs)))))" for xs
    by (induction xs) (auto simp: normalizeItem_def)
  then show ?thesis by (simp add: takenBy_def)
qed

lemma restored_other: "v' \<noteq> v \<Longrightarrow> restored t v' ms (t, v, w) = 0"
  by (simp add: restored_def)

lemma restored_rows:
  "length ids = length cs \<Longrightarrow> list_all calcOk cs \<Longrightarrow>
     restored t v (filter (\<lambda>m. mv_tenantId m = t \<and> mv_variantId m = v \<and> mv_referenceType m = Some ''ORDER''
       \<and> mv_referenceId m = Some i \<and> mv_type m = M_ORDER_RESERVATION) (map2 (reservationRow t u i f) cs ids)) (t, v, w)
     = reserved t cs (t, v, w)"
  by (induction ids cs rule: list_induct2)
     (auto simp: reservationRow_def movementOf_def calcKey_def calcOk_def)

lemma sum_list_const_filter: "sum_list (map (\<lambda>c. if P c then x else 0) cs) = int (length (filter P cs)) * x"
  by (induction cs) (auto simp: algebra_simps)

lemma restoredAll_new:
  assumes core: "orderCore env t ctx p s = Inr (r, s1)" and cok: "list_all calcOk (pp_items p)" and inv: "ordersInv s"
  shows "restoredAll t (or_id r) (itemsOf (or_id r) s1) s1 (t, v, w) =
     int (length (filter (\<lambda>c. ic_productVariantId c = v) (pp_items p))) * reserved t (pp_items p) (t, v, w)"
proof (rule orderCore_Inr [OF core cok refl], goal_cases)
  case (1 i iv wv ids d al ac)
  let ?cs = "pp_items p"
  let ?rows = "map2 (reservationRow t (cx_userId ctx) i (onHand s1)) ?cs ids"
  let ?c = "\<lambda>v m. mv_tenantId m = t \<and> mv_variantId m = v \<and> mv_referenceType m = Some ''ORDER''
       \<and> mv_referenceId m = Some i \<and> mv_type m = M_ORDER_RESERVATION"
  have its: "orderItems s1 = orderItems s @ map (itemRowOf t i) ?cs"
    and mv: "movements s1 = movements s @ ?rows" by (subst 1(7), simp)+
  have i: "or_id r = i" by (subst 1(1)) simp
  have fresh: "\<not> list_ex (\<lambda>q. or_id q = i) (orders s)"
    using 1(2) i by (auto simp: orderTaken_def list_ex_iff)
  have "reservationsOf t v i s = []" for v
    using inv fresh
    by (fastforce simp: reservationsOf_def filter_empty_conv ordersInv_def list_all_iff referenceOk_def list_ex_iff)
  then have rs: "reservationsOf t v i s1 = filter (?c v) ?rows" for v
    by (simp add: reservationsOf_append [OF mv])
  have "itemsOf i s = []"
    using inv fresh by (auto simp: itemsOf_def filter_empty_conv ordersInv_def list_all_iff lineOk_def list_ex_iff)
  then have io: "itemsOf i s1 = map (itemRowOf t i) ?cs"
    by (simp add: itemsOf_def its itemRowOf_def filter_map o_def)
  have one: "restored t (ic_productVariantId c) (reservationsOf t (ic_productVariantId c) i s1) (t, v, w)
      = (if ic_productVariantId c = v then reserved t ?cs (t, v, w) else 0)" for c
    using restored_rows [OF 1(3) cok, of t v i "cx_userId ctx" "onHand s1" w] by (auto simp: rs restored_other)
  have "restoredAll t i (map (itemRowOf t i) ?cs) s1 (t, v, w) =
      sum_list (map (\<lambda>c. if ic_productVariantId c = v then reserved t ?cs (t, v, w) else 0) ?cs)"
    unfolding restoredAll_def map_map o_def
    by (rule arg_cong [where f = sum_list], rule map_cong [OF refl]) (simp add: itemRowOf_def one)
  then show ?case by (simp only: i io sum_list_const_filter)
qed

lemma itemsOf_frame [simp]:
  "itemsOf i (s\<lparr>sent := a, jobs := b\<rparr>) = itemsOf i s"
  "restoredAll t i items (s\<lparr>sent := a, jobs := b\<rparr>) = restoredAll t i items s"
  by (simp_all add: itemsOf_def restoredAll_def reservationsOf_def fun_eq_iff)

text \<open>C5: cancelling a new order. Every line gives back all the reservations of its variant, so the stock after
  creating and cancelling an order is the stock before, plus the quantity taken times the number of
  lines of the variant beyond the first: cancelling undoes an order in which every variant has one
  line, and creates stock out of nothing when a variant has two.\<close>

theorem create_then_cancel:
  assumes inv: "ordersInv s" and t: "t \<noteq> []"
    and create: "createOrder env faults t ctx body noHook s = (Inr r, s1)"
    and cancel: "cancelOrder env' (or_id r) t ctx' reason s1 = (Inr r', s2)"
  shows "onHand s2 (t, v, w) = onHand s (t, v, w) + (int (linesOf body v) - 1) * takenBy body v w"
proof -
  obtain p s0 ms js where p: "prepareOrder env t body s = (Inr p, s)" and ok: "preparedOk p"
    and core: "orderCore env t ctx p s = Inr (r, s0)" and s1: "s1 = s0\<lparr>sent := sent s0 @ ms, jobs := jobs s0 @ js\<rparr>"
    by (rule createOrder_plain_Inr [OF create])
  let ?cs = "pp_items p"
  have cok: "list_all calcOk ?cs" using ok by (simp add: preparedOk_def)
  have inv1: "ordersInv s1" by (rule createOrder_keeps [OF create inv])
  have c: "onHand s2 k = onHand s1 k + restoredAll t (or_id r) (itemsOf (or_id r) s1) s1 k" for k
    by (rule cancelOrder_Inr [OF cancel inv1 t])
  have oh: "onHand s1 k = onHand s k - reserved t ?cs k" for k
  proof (rule orderCore_Inr [OF core cok refl], goal_cases)
    case (1 i iv wv ids d al ac)
    have "onHand s1 = onHand s0" by (rule onHand_cong) (simp add: s1)
    then show ?case using 1(4) by simp
  qed
  note items = prepareOrder_items [OF p]
  have tk: "reserved t ?cs (t, v, w) = takenBy body v w"
    unfolding reserved_zip takenBy_zip using items by simp
  have len: "length (filter (\<lambda>c. f c = v) xs) = length (filter (\<lambda>a. a = v) (map f xs))" for f :: "'x \<Rightarrow> string" and xs
    by (induction xs) auto
  have "length (filter (\<lambda>c. ic_productVariantId c = v) ?cs) = linesOf body v"
    unfolding linesOf_def len [of ic_productVariantId]
      len [of "\<lambda>it. ni_productVariantId (normalizeItem it)"] using items by (simp add: o_def)
  then have "restoredAll t (or_id r) (itemsOf (or_id r) s1) s1 (t, v, w) = int (linesOf body v) * takenBy body v w"
    using restoredAll_new [OF core cok inv, of v w] tk by (simp add: s1)
  then show ?thesis by (simp add: c oh tk algebra_simps)
qed

text \<open>Two cancellations of the same order that both read it before either commits both succeed, and the
  second gives the whole reservation back a second time: the status is checked outside the
  transaction and never again inside it.\<close>

theorem concurrent_cancel_restores_twice:
  assumes inv: "ordersInv s" and t: "t \<noteq> []"
    and rd: "readCancellable i t s = (Inr p, s)"
    and first: "commitCancel env t ctx reason p s = (Inr r, s1)"
  shows "\<exists>r' s2. commitCancel env' t ctx' reason' p s1 = (Inr r', s2)
    \<and> (\<forall>k. onHand s1 k = onHand s k + restoredAll t i (itemsOf i s) s k)
    \<and> (\<forall>k. onHand s2 k = onHand s1 k + restoredAll t i (itemsOf i s) s k)"
proof -
  have q: "findOrder i t s = Some (fst p)" and items: "snd p = itemsOf i s"
    using rd by (simp_all add: readCancellable_outcome)
  have i: "or_id (fst p) = i" using findOrder_id [OF q] by simp
  have ii: "inventoryInv s" using inv by (simp add: ordersInv_def)
  have res: "reservedLines t (or_id (fst p)) (snd p) s" using lines_reserved [OF inv q] by (simp add: items i)
  have fo: "findOrder (or_id (fst p)) t s = Some (fst p)" using q by (simp add: i)
  note e1 = commitCancel_Inr [OF first ii res fo t]
  have inv1: "inventoryInv s1" using e1 by blast
  have same: "reservationsOf t v j s1 = reservationsOf t v j s" for v j using e1 by blast
  have res1: "reservedLines t (or_id (fst p)) (snd p) s1" using res by (simp add: reservedLines_def same)
  have "findOrder i t s1 = findOrder i t (statusPut env i O_CANCELLED s)" using e1 by (simp add: findOrder_def i)
  then have fo1: "findOrder (or_id (fst p)) t s1 = Some (withStatus env O_CANCELLED (fst p))"
    using q by (simp add: findOrder_statusPut i)
  obtain r' s2 where second: "commitCancel env' t ctx' reason' p s1 = (Inr r', s2)"
    using commitCancel_succeeds [OF inv1 res1 fo1 t] by blast
  have "restoredAll t (or_id (fst p)) (snd p) s1 = restoredAll t (or_id (fst p)) (snd p) s"
    by (simp add: restoredAll_def same fun_eq_iff)
  then show ?thesis
    using second e1 commitCancel_Inr [OF second inv1 res1 fo1 t] by (auto simp: i items)
qed

section \<open>Orders that are accepted\<close>

definition itemPriced :: "string \<Rightarrow> db \<Rightarrow> norm_item \<Rightarrow> bool" where
  "itemPriced t s it \<longleftrightarrow> 0 < ni_quantity it \<and> 0 \<le> cents (ni_discount it)
     \<and> (case ni_tax it of None \<Rightarrow> True | Some x \<Rightarrow> 0 \<le> cents x)
     \<and> (case findVariant (ni_productVariantId it) t s of
          None \<Rightarrow> False | Some v \<Rightarrow> cents (ni_discount it) \<le> va_price v * ni_quantity it)"

lemma calcItems_total:
  "list_all (itemPriced t s) its \<Longrightarrow> \<exists>cs acc'. calcItems pg t s its acc = Inr (cs, acc')"
proof (induction its arbitrary: acc)
  case Nil
  then show ?case by simp
next
  case (Cons it its)
  from Cons.prems obtain v where v: "findVariant (ni_productVariantId it) t s = Some v"
    by (auto simp: itemPriced_def split: option.splits)
  have "\<exists>c acc1. calcItem pg v (productOf v s) it acc = Inr (c, acc1)"
    using Cons.prems v by (auto simp: itemPriced_def calcItem_def Let_def split: option.splits)
  then obtain c acc1 where c: "calcItem pg v (productOf v s) it acc = Inr (c, acc1)" by blast
  obtain cs acc2 where "calcItems pg t s its acc1 = Inr (cs, acc2)"
    using Cons.IH [of acc1] Cons.prems by auto
  then show ?case by (simp add: v c)
qed

lemma deductLoop_total:
  "list_all calcOk items \<Longrightarrow> \<forall>it \<in> set items. reserved t items (calcKey t it) \<le> onHand s (calcKey t it) \<Longrightarrow>
     \<exists>s'. forT items (deductItem env t) s = Inr ((), s')"
proof (induction items arbitrary: s)
  case Nil
  then show ?case by (simp add: returnT_def)
next
  case (Cons it its)
  let ?k = "calcKey t it"
  have it: "calcOk it" and its: "list_all calcOk its" using Cons.prems(1) by simp_all
  have q: "0 < ic_quantity it" using it by (simp add: calcOk_def)
  have le: "ic_quantity it \<le> onHand s ?k"
    using Cons.prems(2) [rule_format, of it] reserved_nonneg [OF its, of t ?k] by simp
  then obtain q0 where st: "stock (inventory s) ?k = Some q0" using q by (auto simp: onHand_def split: option.splits)
  have "writeStock env ?k True (q0 - ic_quantity it) s = Inr ((), putStock (env_now env) ?k (q0 - ic_quantity it) s)"
    by (intro writeStock_putStock) (simp add: st)
  then have d: "deductItem env t it s = Inr ((), putStock (env_now env) ?k (onHand s ?k - ic_quantity it) s)"
    using le st by (simp add: deductItem_def Let_def monad_defs onHand_def)
  let ?s1 = "putStock (env_now env) ?k (onHand s ?k - ic_quantity it) s"
  have "reserved t its (calcKey t it') \<le> onHand ?s1 (calcKey t it')" if "it' \<in> set its" for it'
    using Cons.prems(2) [rule_format, of it'] that by (simp add: onHand_putStock split: if_splits)
  then obtain s' where "forT its (deductItem env t) ?s1 = Inr ((), s')" using Cons.IH [OF its] by blast
  then show ?case by (auto simp: thenT_def bindT_def d)
qed

lemma recordLoop_total:
  "\<forall>it \<in> set items. stock (inventory s) (calcKey t it) \<noteq> None \<Longrightarrow>
     \<exists>s'. forT items (recordReservation env t u i) s = Inr ((), s')"
proof (induction items arbitrary: s)
  case Nil
  then show ?case by (simp add: returnT_def)
next
  case (Cons it its)
  from Cons.prems obtain q where q: "stock (inventory s) (calcKey t it) = Some q" by auto
  let ?s1 = "s\<lparr>drawn := Suc (drawn s), movements := movements s
          @ [reservationRow t u i (onHand s) it (env_uuid env (drawn s))]\<rparr>"
  have "\<forall>it \<in> set its. stock (inventory ?s1) (calcKey t it) \<noteq> None" using Cons.prems by simp
  then obtain s' where "forT its (recordReservation env t u i) ?s1 = Inr ((), s')" using Cons.IH [of ?s1] by blast
  then show ?case by (auto simp: thenT_def bindT_def recordReservation_eq [of env t u i it s] q)
qed

lemma orderCore_total:
  assumes cok: "list_all calcOk (pp_items p)" and t: "t \<noteq> []"
    and enough: "\<forall>it \<in> set (pp_items p). reserved t (pp_items p) (calcKey t it) \<le> onHand s (calcKey t it)"
    and id: "\<forall>q \<in> set (orders s). or_id q \<noteq> env_uuid env (drawn s)"
    and inv: "\<forall>q \<in> set (orders s). \<forall>prefix. or_invoiceNumber q \<noteq> Some (formatInvoiceNumber prefix
        (financialYear (env_now env)) (nextNumber s (t, financialYear (env_now env))))"
  shows "\<exists>r s'. orderCore env t ctx p s = Inr (r, s')"
proof -
  let ?u = "cx_userId ctx" and ?fy = "financialYear (env_now env)"
  obtain s1 where s1: "forT (pp_items p) (deductItem env t) s = Inr ((), s1)"
    using deductLoop_total [OF cok enough] by blast
  note d = deductLoop_Inr [OF s1 cok]
  have st: "\<forall>it \<in> set (pp_items p). stock (inventory s1) (calcKey t it) \<noteq> None" using d by blast
  obtain iv wv where s1': "s1 = s\<lparr>inventory := iv, warehouseInventory := wv\<rparr>" using d by blast
  let ?n = "nextNumber s1 (t, ?fy)"
  have n: "?n = nextNumber s (t, ?fy)" by (simp add: nextNumber_def s1')
  let ?s2 = "s1\<lparr>invoiceSeqs := setSequence (t, ?fy) ?n (invoiceSeqs s1)\<rparr>"
  let ?r = "orderRowOf env t p ?fy ?n (env_uuid env (drawn s))"
  let ?i = "env_uuid env (drawn s)"
  have free: "\<not> list_ex (\<lambda>q. or_id q = ?i \<or> or_tenantId q = t \<and> or_invoiceNumber q = or_invoiceNumber ?r) (orders s)"
    using id inv by (auto simp: list_ex_iff orderRowOf_def n)
  have "insertOrder env t p ?fy ?n ?s2 = Inr (?r, ?s2\<lparr>drawn := Suc (drawn s), orders := orders s @ [?r]\<rparr>)"
    using free
    by (simp add: insertOrder_def Let_def freshId_def bindT_def thenT_def readT_def writeT_def returnT_def throwIfT_def s1')
  then obtain s3 where s3: "insertOrder env t p ?fy ?n ?s2 = Inr (?r, s3)"
    and iv3: "inventory s3 = inventory s1" by simp
  let ?s4 = "s3\<lparr>orderItems := orderItems s3 @ map (itemRowOf t ?i) (pp_items p)\<rparr>"
  obtain s5 where s5: "forT (pp_items p) (recordReservation env t ?u ?i) ?s4 = Inr ((), s5)"
    using recordLoop_total [of "pp_items p" ?s4 t env ?u ?i] st iv3 by auto
  let ?s6 = "s5\<lparr>orderHistory := orderHistory s5 @ [createdHistory t ?i ?u]\<rparr>"
  obtain s7 where s7: "logOrderCreated env t ctx p ?i ?s6 = Inr ((), s7)"
    using t by (auto simp: logOrderCreated_def outcome logAudit_def logActivity_def)
  have "orderCore env t ctx p s = Inr (?r, s7)"
    unfolding orderCore_def Let_def thenT_def bindT_def
    by (simp only: lockLoop s1 sum.case prod.case nextSequence_eq s3 or_id_orderRowOf insertItems_eq s5
        insertHistory_def writeT_def createdHistory_def [symmetric] s7 returnT_def)
  then show ?thesis by blast
qed

text \<open>Every check of the handler passes on such an order, and the transaction cannot fail.\<close>

lemma createOrder_accepts:
  assumes c: "findCustomer (ob_customerId body) t s = Some c" and t: "t \<noteq> []"
    and plan: "assertWithinPlan env t ''ordersPerMonth'' s = (Inr (), s)"
    and addr: "ob_shippingAddressId body = None" "ob_billingAddressId body = None"
    and v: "checkVariants t s (map normalizeItem (ob_items body)) = Inr ()"
    and w: "checkWarehouses t s (map normalizeItem (ob_items body)) = Inr ()"
    and priced: "list_all (itemPriced t s) (map normalizeItem (ob_items body))"
    and enough: "list_all (\<lambda>it. takenBy body (ni_productVariantId it) (ni_warehouseId it)
        \<le> onHand s (t, ni_productVariantId it, ni_warehouseId it)) (map normalizeItem (ob_items body))"
    and id: "\<forall>q \<in> set (orders s). or_id q \<noteq> env_uuid env (drawn s)"
    and inv: "\<forall>q \<in> set (orders s). \<forall>prefix. or_invoiceNumber q \<noteq> Some (formatInvoiceNumber prefix
        (financialYear (env_now env)) (nextNumber s (t, financialYear (env_now env))))"
  shows "\<exists>r s'. createOrder env (\<lambda>_. None) t ctx body noHook s = (Inr r, s')"
proof -
  have "\<exists>cs acc. calcItems pg t s (map normalizeItem (ob_items body)) noTotals = Inr (cs, acc)" for pg
    by (rule calcItems_total [OF priced])
  then have "\<forall>pg. \<exists>x. calcItems pg t s (map normalizeItem (ob_items body)) noTotals = Inr x" by blast
  from choice [OF this] obtain f where
    f: "\<And>pg. calcItems pg t s (map normalizeItem (ob_items body)) noTotals = Inr (f pg)" by blast
  have "\<exists>p. prepareOrder env t body s = (Inr p, s)"
    using c plan v w addr
    by (simp add: prepareOrder_def Let_def bindH_def thenH_def readH_def orThrowH_def returnH_def liftH_def
        resolveOrderAddress_def orElse_def f split: prod.split)
  then obtain p where p: "prepareOrder env t body s = (Inr p, s)" by blast
  have ok: "list_all calcOk (pp_items p)" using prepareOrder_ok [OF p] by (simp add: preparedOk_def)
  note items = prepareOrder_items [OF p]
  have tk: "reserved t (pp_items p) (t, v, w) = takenBy body v w" for v w
    unfolding reserved_zip takenBy_zip using items by simp
  have "(ic_productVariantId it, ic_warehouseId it) \<in> set (map (\<lambda>it. (ni_productVariantId it, ni_warehouseId it)) (map normalizeItem (ob_items body)))"
    if "it \<in> set (pp_items p)" for it
  proof -
    have z: "map (\<lambda>x. (g x, h x)) xs = zip (map g xs) (map h xs)" for g h :: "'x \<Rightarrow> string" and xs by (induction xs) auto
    have "map (\<lambda>it. (ic_productVariantId it, ic_warehouseId it)) (pp_items p)
        = map (\<lambda>it. (ni_productVariantId it, ni_warehouseId it)) (map normalizeItem (ob_items body))"
      unfolding z using items by (simp only:)
    moreover have "(ic_productVariantId it, ic_warehouseId it) \<in> set (map (\<lambda>it. (ic_productVariantId it, ic_warehouseId it)) (pp_items p))"
      using that by auto
    ultimately show ?thesis by (simp only:)
  qed
  then have "\<forall>it \<in> set (pp_items p). reserved t (pp_items p) (calcKey t it) \<le> onHand s (calcKey t it)"
    using enough by (fastforce simp: calcKey_def tk list_all_iff)
  then obtain r s1 where core: "orderCore env t ctx p s = Inr (r, s1)"
    using orderCore_total [OF ok t _ id inv] by blast
  have "execute (\<lambda>_. None) (orderTx env t ctx p noHook) s = (Inr (Some r), s1)"
    using orderCore_order [OF core ok] core
    by (simp add: execute_def numeral_3_eq_3 catchH_def transaction_def orderTx_def bindT_def thenT_def noHook_def
        returnT_def readT_def)
  then have "createOrder env (\<lambda>_. None) t ctx body noHook s
      = thenH (announceOrder env t (cx_userId ctx) r) (returnH r) s1"
    by (simp add: createOrder_def bindH_def p orThrowH_def returnH_def)
  then show ?thesis
    by (cases "announceOrder env t (cx_userId ctx) r s1"; cases "fst (announceOrder env t (cx_userId ctx) r s1)")
       (auto simp: thenH_def bindH_def returnH_def announceOrder_outcome(2))
qed

definition demoItem :: "string \<Rightarrow> string \<Rightarrow> int \<Rightarrow> item_body" where
  "demoItem v w q = \<lparr>ib_productVariantId = Some v, ib_variantId = None, ib_warehouseId = w,
     ib_quantity = q, ib_discount = None, ib_tax = None\<rparr>"

definition demoOrder :: "item_body list \<Rightarrow> order_body" where
  "demoOrder items = \<lparr>ob_customerId = ''c'', ob_items = items, ob_shippingTotal = Some ''50'',
     ob_currency = None, ob_metadata = JUndef, ob_shippingAddressId = None, ob_billingAddressId = None,
     ob_channel = None\<rparr>"

definition demoOrderRow :: order_row where
  "demoOrderRow = \<lparr>or_id = ''o'', or_tenantId = ''t'', or_customerId = ''c'', or_status = O_PENDING,
     or_subtotal = 10000, or_discountTotal = 0, or_taxTotal = 1800, or_shippingTotal = 0, or_total = 11800,
     or_currency = ''INR'', or_metadata = JObj [], or_shippingAddress = JNull, or_billingAddress = JNull,
     or_invoiceNumber = None, or_invoiceDate = None, or_placeOfSupply = None, or_supplyType = None,
     or_cgstTotal = 900, or_sgstTotal = 900, or_igstTotal = 0, or_buyerSnapshot = JNull,
     or_sellerSnapshot = JNull, or_channel = ''STAFF'', or_createdAt = 0, or_updatedAt = 0\<rparr>"

definition demoMovement :: "string \<Rightarrow> string \<Rightarrow> int \<Rightarrow> movement_row" where
  "demoMovement v w q = movementOf (''t'', v, w) M_ADJUSTMENT 0 q q None None None None"

definition stockedDb :: db where
  "stockedDb = demoDb\<lparr>movements := [demoMovement ''v'' ''w1'' 20, demoMovement ''v'' ''w2'' 5,
     demoMovement ''x'' ''w1'' 7]\<rparr>"

definition twoLines :: order_body where
  "twoLines = demoOrder [demoItem ''v'' ''w1'' 2, demoItem ''v'' ''w1'' 1]"

lemma stockedDb_inv: "ordersInv stockedDb"
proof -
  have "ledger (movements stockedDb) k = onHand stockedDb k" for k
    by (auto simp: stockedDb_def demoDb_def emptyDb_def ledger_def demoMovement_def mvKey_def movementOf_def
        onHand_def stock_def demoStock_def keyOf_def)
  moreover have "stock (warehouseInventory stockedDb) = stock (inventory stockedDb)"
    by (simp add: stockedDb_def demoDb_def)
  moreover have "uniqueKeys (inventory stockedDb) \<and> uniqueKeys (warehouseInventory stockedDb)
     \<and> list_all (\<lambda>r. 0 \<le> iv_quantity r) (inventory stockedDb) \<and> list_all movementOk (movements stockedDb)
     \<and> list_all (lineOk stockedDb) (orderItems stockedDb) \<and> list_all (referenceOk stockedDb) (movements stockedDb)"
    by code_simp
  ultimately show ?thesis by (simp add: ordersInv_def inventoryInv_def fun_eq_iff)
qed


text \<open>C6: a good order is accepted. If the customer exists, the plan allows one more order, every variant is
  active and every warehouse exists, quantities are positive, discounts and explicit taxes are not
  negative and no discount exceeds its line, the locations hold the quantities the whole order takes
  from them, and the next identifier and invoice number are free, then an order without explicit
  addresses succeeds.\<close>

theorem good_order_is_accepted:
  assumes c: "findCustomer (ob_customerId body) t s = Some c" and t: "t \<noteq> []"
    and plan: "assertWithinPlan env t ''ordersPerMonth'' s = (Inr (), s)"
    and addr: "ob_shippingAddressId body = None" "ob_billingAddressId body = None"
    and v: "checkVariants t s (map normalizeItem (ob_items body)) = Inr ()"
    and w: "checkWarehouses t s (map normalizeItem (ob_items body)) = Inr ()"
    and priced: "list_all (itemPriced t s) (map normalizeItem (ob_items body))"
    and enough: "list_all (\<lambda>it. takenBy body (ni_productVariantId it) (ni_warehouseId it)
        \<le> onHand s (t, ni_productVariantId it, ni_warehouseId it)) (map normalizeItem (ob_items body))"
    and id: "\<forall>q \<in> set (orders s). or_id q \<noteq> env_uuid env (drawn s)"
    and inv: "\<forall>q \<in> set (orders s). \<forall>prefix. or_invoiceNumber q \<noteq> Some (formatInvoiceNumber prefix
        (financialYear (env_now env)) (nextNumber s (t, financialYear (env_now env))))"
  shows "\<exists>r s'. createOrder env (\<lambda>_. None) t ctx body noHook s = (Inr r, s')"
  by (rule createOrder_accepts) (fact c t plan addr v w priced enough id inv)+

lemma good_order_is_accepted_witness: "\<exists>r s1. createOrder demoEnv (\<lambda>_. None) ''t'' noCtx twoLines noHook stockedDb = (Inr r, s1)"
proof (rule good_order_is_accepted)
  show "findCustomer (ob_customerId twoLines) ''t'' stockedDb = Some demoCustomer" by code_simp
  show "assertWithinPlan demoEnv ''t'' ''ordersPerMonth'' stockedDb = (Inr (), stockedDb)"
    by (simp add: assertWithinPlan_outcome planLimit_def stockedDb_def demoDb_def emptyDb_def findPlan_def nullish_def)
  show "checkVariants ''t'' stockedDb (map normalizeItem (ob_items twoLines)) = Inr ()" by code_simp
  show "checkWarehouses ''t'' stockedDb (map normalizeItem (ob_items twoLines)) = Inr ()" by code_simp
  show "list_all (itemPriced ''t'' stockedDb) (map normalizeItem (ob_items twoLines))" by code_simp
  show "list_all (\<lambda>it. takenBy twoLines (ni_productVariantId it) (ni_warehouseId it)
        \<le> onHand stockedDb (''t'', ni_productVariantId it, ni_warehouseId it)) (map normalizeItem (ob_items twoLines))"
    by code_simp
qed (simp_all add: twoLines_def demoOrder_def stockedDb_def demoDb_def emptyDb_def)

lemma twoLines_run: "\<exists>r s1. createOrder demoEnv (\<lambda>_. None) ''t'' noCtx twoLines noHook stockedDb = (Inr r, s1)"
proof (rule createOrder_accepts)
  show "findCustomer (ob_customerId twoLines) ''t'' stockedDb = Some demoCustomer" by code_simp
  show "assertWithinPlan demoEnv ''t'' ''ordersPerMonth'' stockedDb = (Inr (), stockedDb)"
    by (simp add: assertWithinPlan_outcome planLimit_def stockedDb_def demoDb_def emptyDb_def findPlan_def nullish_def)
  show "checkVariants ''t'' stockedDb (map normalizeItem (ob_items twoLines)) = Inr ()" by code_simp
  show "checkWarehouses ''t'' stockedDb (map normalizeItem (ob_items twoLines)) = Inr ()" by code_simp
  show "list_all (itemPriced ''t'' stockedDb) (map normalizeItem (ob_items twoLines))" by code_simp
  show "list_all (\<lambda>it. takenBy twoLines (ni_productVariantId it) (ni_warehouseId it)
        \<le> onHand stockedDb (''t'', ni_productVariantId it, ni_warehouseId it)) (map normalizeItem (ob_items twoLines))"
    by code_simp
qed (simp_all add: twoLines_def demoOrder_def stockedDb_def demoDb_def emptyDb_def)

lemma created_cancellable:
  assumes create: "createOrder env faults t ctx body noHook s = (Inr r, s1)"
  shows "readCancellable (or_id r) t s1 = (Inr (r, itemsOf (or_id r) s1), s1)"
proof -
  obtain p s0 ms js where ok: "preparedOk p"
    and core: "orderCore env t ctx p s = Inr (r, s0)" and s1: "s1 = s0\<lparr>sent := sent s0 @ ms, jobs := jobs s0 @ js\<rparr>"
    by (rule createOrder_plain_Inr [OF create])
  have cok: "list_all calcOk (pp_items p)" using ok by (simp add: preparedOk_def)
  have "findOrder (or_id r) t s1 = Some r"
    using orderCore_order [OF core cok] by (simp add: s1 findOrder_def)
  moreover have "or_status r = O_PENDING"
    by (rule orderCore_rows [OF core cok]) (auto simp: orderRowOf_def)
  ultimately show ?thesis by (simp add: readCancellable_outcome CANCELLABLE_STATUSES_def)
qed

lemma created_cancel_commits:
  assumes create: "createOrder env faults t ctx body noHook s = (Inr r, s1)" and inv: "ordersInv s" and t: "t \<noteq> []"
  shows "\<exists>r' s2. commitCancel env' t ctx' reason (r, itemsOf (or_id r) s1) s1 = (Inr r', s2)"
proof -
  have rd: "findOrder (or_id r) t s1 = Some r" using created_cancellable [OF create] by (simp add: readCancellable_outcome)
  have inv1: "ordersInv s1" by (rule createOrder_keeps [OF create inv])
  show ?thesis
    using lines_reserved [OF inv1 rd] inv1 rd t by (intro commitCancel_succeeds) (simp_all add: ordersInv_def)
qed

lemma created_cancel_succeeds:
  assumes "createOrder env faults t ctx body noHook s = (Inr r, s1)" and "ordersInv s" and "t \<noteq> []"
  shows "\<exists>r' s2. cancelOrder env' (or_id r) t ctx' reason s1 = (Inr r', s2)"
  using created_cancellable [OF assms(1)] created_cancel_commits [OF assms, of env' ctx' reason]
  by (simp add: cancelOrder_def bindH_def)

lemma order_amounts_add_up_witness:
  "\<exists>r s1 rows. createOrder demoEnv (\<lambda>_. None) ''t'' noCtx twoLines noHook stockedDb = (Inr r, s1)
    \<and> orderItems s1 = rows \<and> map oi_quantity rows = [2, 1]
    \<and> or_total r = sum_list (map oi_lineTotal rows) + or_shippingTotal r"
proof -
  obtain r s1 where run: "createOrder demoEnv (\<lambda>_. None) ''t'' noCtx twoLines noHook stockedDb = (Inr r, s1)"
    using twoLines_run by blast
  have e: "orderItems stockedDb = []" by (simp add: stockedDb_def demoDb_def emptyDb_def)
  have q: "map ib_quantity (ob_items twoLines) = [2, 1]" by (simp add: twoLines_def demoOrder_def demoItem_def)
  show ?thesis using order_amounts_add_up [OF run] run unfolding e q append_Nil by metis
qed

lemma order_reserves_stock_witness:
  "\<exists>r s1. createOrder demoEnv (\<lambda>_. None) ''t'' noCtx twoLines noHook stockedDb = (Inr r, s1) \<and> inventoryInv s1
    \<and> onHand stockedDb (''t'', ''v'', ''w1'') = 20 \<and> onHand s1 (''t'', ''v'', ''w1'') = 17
    \<and> onHand s1 (''t'', ''v'', ''w2'') = onHand stockedDb (''t'', ''v'', ''w2'')"
proof -
  obtain r s1 where run: "createOrder demoEnv (\<lambda>_. None) ''t'' noCtx twoLines noHook stockedDb = (Inr r, s1)"
    using twoLines_run by blast
  have i: "inventoryInv stockedDb" using stockedDb_inv by (simp add: ordersInv_def)
  have "wanted ''t'' twoLines (''t'', ''v'', ''w1'') = 3" "wanted ''t'' twoLines (''t'', ''v'', ''w2'') = 0"
    "onHand stockedDb (''t'', ''v'', ''w1'') = 20" by code_simp+
  then show ?thesis
    using order_reserves_stock [THEN conjunct1, rule_format, OF run] run i by auto
qed

lemma invoice_numbers_gapless_witness:
  "\<exists>r s1. createOrder demoEnv (\<lambda>_. None) ''t'' noCtx twoLines noHook stockedDb = (Inr r, s1)
    \<and> seqNumber (invoiceSeqs s1) (''t'', financialYear 1000) = Some 1"
proof -
  obtain r s1 where run: "createOrder demoEnv (\<lambda>_. None) ''t'' noCtx twoLines noHook stockedDb = (Inr r, s1)"
    using twoLines_run by blast
  have "nextNumber stockedDb k = 1" for k
    by (simp add: nextNumber_def stockedDb_def demoDb_def emptyDb_def seqNumber_def)
  moreover have "env_now demoEnv = 1000" by (simp add: demoEnv_def)
  ultimately show ?thesis using invoice_numbers_gapless [OF run refl] run by auto
qed

lemma create_then_cancel_witness:
  "\<exists>r s1 r' s2. createOrder demoEnv (\<lambda>_. None) ''t'' noCtx twoLines noHook stockedDb = (Inr r, s1)
    \<and> cancelOrder demoEnv (or_id r) ''t'' noCtx None s1 = (Inr r', s2)
    \<and> onHand stockedDb (''t'', ''v'', ''w1'') = 20 \<and> onHand s2 (''t'', ''v'', ''w1'') = 23"
proof -
  obtain r s1 where run: "createOrder demoEnv (\<lambda>_. None) ''t'' noCtx twoLines noHook stockedDb = (Inr r, s1)"
    using twoLines_run by blast
  have t: "''t'' \<noteq> []" by simp
  obtain r' s2 where can: "cancelOrder demoEnv (or_id r) ''t'' noCtx None s1 = (Inr r', s2)"
    using created_cancel_succeeds [OF run stockedDb_inv t] by blast
  have "linesOf twoLines ''v'' = 2" "takenBy twoLines ''v'' ''w1'' = 3" "onHand stockedDb (''t'', ''v'', ''w1'') = 20"
    by code_simp+
  then show ?thesis using create_then_cancel [OF stockedDb_inv t run can, of "''v''" "''w1''"] run can by auto
qed

text \<open>An order for two lines is created and then cancelled: its history ends with the cancellation.\<close>

lemma order_book_invariant_witness:
  "\<exists>r s1 r' s2. createOrder demoEnv (\<lambda>_. None) ''t'' noCtx twoLines noHook stockedDb = (Inr r, s1)
    \<and> cancelOrder demoEnv (or_id r) ''t'' noCtx None s1 = (Inr r', s2)
    \<and> orderBook s2 \<and> loggedStatus (or_id r) (orderHistory s2) = Some O_CANCELLED"
proof -
  obtain r s1 where run: "createOrder demoEnv (\<lambda>_. None) ''t'' noCtx twoLines noHook stockedDb = (Inr r, s1)"
    using twoLines_run by blast
  have t: "''t'' \<noteq> []" by simp
  have "historyOk stockedDb" by (simp add: historyOk_def stockedDb_def demoDb_def emptyDb_def)
  then have book1: "orderBook s1"
    using order_book_invariant [OF _ t, of stockedDb demoEnv "\<lambda>_. None" noCtx twoLines] run stockedDb_inv by simp
  obtain r' s2 where can: "cancelOrder demoEnv (or_id r) ''t'' noCtx None s1 = (Inr r', s2)"
    using created_cancel_succeeds [OF run stockedDb_inv t] by blast
  have book2: "orderBook s2"
    using order_book_invariant [OF book1 t, of demoEnv "\<lambda>_. None" noCtx undefined "or_id r" undefined None] can by auto
  have inv1: "ordersInv s1" using book1 by simp
  obtain q where q: "findOrder (or_id r) ''t'' s1 = Some q" and "orders s2 = orders (statusPut demoEnv (or_id r) O_CANCELLED s1)"
    by (rule cancelOrder_Inr [OF can inv1 t])
  then have "withStatus demoEnv O_CANCELLED q \<in> set (orders s2)" "or_id q = or_id r"
    by (auto simp: statusPut_def set_updateMany findOrder_def dest!: find_SomeD)
  then have "loggedStatus (or_id r) (orderHistory s2) = Some O_CANCELLED"
    using book2 by (fastforce simp: historyOk_def list_all_iff)
  then show ?thesis using run can book2 by blast
qed

lemma concurrent_cancel_restores_twice_witness:
  "\<exists>r s1 p rA sA rB sB. createOrder demoEnv (\<lambda>_. None) ''t'' noCtx twoLines noHook stockedDb = (Inr r, s1)
    \<and> readCancellable (or_id r) ''t'' s1 = (Inr p, s1)
    \<and> commitCancel demoEnv ''t'' noCtx None p s1 = (Inr rA, sA)
    \<and> commitCancel demoEnv ''t'' noCtx None p sA = (Inr rB, sB)
    \<and> (\<forall>k. onHand sB k - onHand sA k = onHand sA k - onHand s1 k)"
proof -
  obtain r s1 where run: "createOrder demoEnv (\<lambda>_. None) ''t'' noCtx twoLines noHook stockedDb = (Inr r, s1)"
    using twoLines_run by blast
  have t: "''t'' \<noteq> []" by simp
  note rd = created_cancellable [OF run]
  obtain rA sA where first: "commitCancel demoEnv ''t'' noCtx None (r, itemsOf (or_id r) s1) s1 = (Inr rA, sA)"
    using created_cancel_commits [OF run stockedDb_inv t] by blast
  have inv1: "ordersInv s1" by (rule createOrder_keeps [OF run stockedDb_inv])
  obtain rB sB where "commitCancel demoEnv ''t'' noCtx None (r, itemsOf (or_id r) s1) sA = (Inr rB, sB)"
    and "\<forall>k. onHand sB k - onHand sA k = onHand sA k - onHand s1 k"
    using concurrent_cancel_restores_twice [OF inv1 t rd first, of demoEnv noCtx None] by auto
  then show ?thesis using run rd first by blast
qed

section \<open>The life of an order\<close>

text \<open>A sequence of status changes of one order: each element is the status a request asked for and got.\<close>

inductive statusRun :: "string \<Rightarrow> string \<Rightarrow> db \<Rightarrow> order_status list \<Rightarrow> db \<Rightarrow> bool" where
  run_none: "statusRun i t s [] s"
| run_update: "updateStatus env i t ctx st reason s = (Inr r, s1) \<Longrightarrow> statusRun i t s1 sts s2 \<Longrightarrow>
     statusRun i t s (st # sts) s2"

inductive_cases statusRun_ConsE: "statusRun i t s (st # sts) s'"
inductive_simps statusRun_Nil: "statusRun i t s [] s'"

lemma statusRun_machine:
  "statusRun i t s sts s' \<Longrightarrow> findOrder i t s = Some q \<Longrightarrow>
     (\<exists>q'. findOrder i t s' = Some q' \<and> order_machine.run (or_status q) sts (or_status q'))
     \<and> length (orderHistory s') = length (orderHistory s) + length sts"
proof (induction arbitrary: q rule: statusRun.induct)
  case (run_none i t s)
  then show ?case by (auto intro: order_machine.run.run_nil)
next
  case (run_update env i t ctx st reason s r s1 sts s2)
  show ?case
  proof (rule updateStatus_Inr [OF run_update.hyps(1)], goal_cases)
    case (1 q1 al ac ms)
    have q1: "q1 = q" using 1(1) run_update.prems by simp
    have "findOrder i t s1 = findOrder i t (statusPut env i st s)" by (subst 1(4)) simp
    then have f: "findOrder i t s1 = Some (withStatus env st q)"
      using run_update.prems by (simp add: findOrder_statusPut)
    have h: "length (orderHistory s1) = length (orderHistory s) + 1" by (subst 1(4)) simp
    from run_update.IH [OF f] h 1(2) q1 show ?case by (auto intro: order_machine.run.run_step)
  qed
qed

text \<open>The life of an order. However many status changes are asked for and granted, the statuses an order
  goes through follow the table of transitions, none comes twice, there are at most eight of them, a
  cancelled or refunded order never changes again, and every change adds one row to the history.\<close>

theorem order_status_life:
  assumes "statusRun i t s sts s'" and "findOrder i t s = Some q"
  shows "distinct (or_status q # sts) \<and> length sts \<le> 8
    \<and> (or_status q \<in> {O_CANCELLED, O_REFUNDED} \<longrightarrow> sts = [])
    \<and> (\<exists>q'. findOrder i t s' = Some q' \<and> (sts \<noteq> [] \<longrightarrow> or_status q' = last sts \<and> or_status q < or_status q'))
    \<and> length (orderHistory s') = length (orderHistory s) + length sts"
proof -
  obtain q' where q': "findOrder i t s' = Some q'" and run: "order_machine.run (or_status q) sts (or_status q')"
    and len: "length (orderHistory s') = length (orderHistory s) + length sts"
    using statusRun_machine [OF assms] by blast
  have "orderRank x \<le> 8" for x by (cases x) simp_all
  then have "length sts \<le> 8" by (rule order_machine.run_bounded [OF run])
  moreover have "sts = []" if "or_status q \<in> {O_CANCELLED, O_REFUNDED}"
    using order_machine.run_terminal [OF run] that
    by (auto simp: order_machine.terminal_def ORDER_STATUS_TRANSITIONS_def)
  moreover have "or_status q' = last sts \<and> or_status q < or_status q'" if "sts \<noteq> []"
    using run that order_machine.run_last [OF run] order_machine.run_length [OF run]
    by (cases sts) (auto simp: less_order_status_def)
  ultimately show ?thesis using order_machine.run_distinct [OF run] q' len by blast
qed

lemma order_status_life_witness:
  "\<exists>s'. statusRun ''o'' ''t'' (demoDb\<lparr>orders := [demoOrderRow]\<rparr>) [O_CONFIRMED] s' \<and> distinct [O_PENDING, O_CONFIRMED]"
proof -
  let ?s = "demoDb\<lparr>orders := [demoOrderRow]\<rparr>"
  have "succeeded (updateStatus demoEnv ''o'' ''t'' noCtx O_CONFIRMED None ?s)" by code_simp
  then obtain r s1 where "updateStatus demoEnv ''o'' ''t'' noCtx O_CONFIRMED None ?s = (Inr r, s1)"
    by (rule succeededE)
  then have run: "statusRun ''o'' ''t'' ?s [O_CONFIRMED] s1"
    by (rule statusRun.run_update) (rule statusRun.run_none)
  have f: "findOrder ''o'' ''t'' ?s = Some demoOrderRow" and st: "or_status demoOrderRow = O_PENDING"
    by (simp_all add: findOrder_def demoOrderRow_def)
  from order_status_life [OF run f] st run show ?thesis by auto
qed

end
