(* ===== verification/Payments.thy ===== *)
theory Payments
  imports Gateway Orders
begin

text \<open>
  Payments of orders: src/src/modules/payments/payments.service.js (create, confirm, refund and the
  generic webhook), razorpay-payments.service.js (start, verify, markPaid and the Razorpay webhook) and
  the reads of payments.repository.js they use. A payment is a status machine; money given back is a
  refund row. The provider that charges a card is the record \<open>provider\<close>.
\<close>

section \<open>The status of a payment\<close>

definition PAYMENT_TRANSITIONS :: "payment_status \<Rightarrow> payment_status list" where
  "PAYMENT_TRANSITIONS st = (case st of
       P_PENDING \<Rightarrow> [P_PROCESSING, P_COMPLETED, P_FAILED, P_CANCELLED]
     | P_PROCESSING \<Rightarrow> [P_COMPLETED, P_FAILED, P_CANCELLED]
     | P_COMPLETED \<Rightarrow> [P_REFUNDED, P_PARTIALLY_REFUNDED]
     | P_PARTIALLY_REFUNDED \<Rightarrow> [P_REFUNDED, P_PARTIALLY_REFUNDED]
     | P_FAILED \<Rightarrow> []
     | P_CANCELLED \<Rightarrow> []
     | P_REFUNDED \<Rightarrow> [])"

definition isValidPayTransition :: "payment_status \<Rightarrow> payment_status \<Rightarrow> bool" where
  "isValidPayTransition from to = (from \<noteq> to \<and> to \<in> set (PAYMENT_TRANSITIONS from))"

definition ORDER_ELIGIBLE_STATUSES :: "order_status list" where
  "ORDER_ELIGIBLE_STATUSES = [O_PENDING, O_CONFIRMED, O_PROCESSING, O_DRAFT]"

fun paymentRank :: "payment_status \<Rightarrow> nat" where
  "paymentRank P_PENDING = 0"
| "paymentRank P_PROCESSING = 1"
| "paymentRank P_COMPLETED = 2"
| "paymentRank P_PARTIALLY_REFUNDED = 3"
| "paymentRank P_FAILED = 4"
| "paymentRank P_CANCELLED = 4"
| "paymentRank P_REFUNDED = 4"

interpretation payment_machine: status_machine PAYMENT_TRANSITIONS paymentRank
proof
  fix a b
  assume "b \<in> set (PAYMENT_TRANSITIONS a)" "a \<noteq> b"
  then show "paymentRank a < paymentRank b"
    by (cases a) (auto simp: PAYMENT_TRANSITIONS_def)
qed

lemma isValidPayTransition_allowed: "isValidPayTransition = payment_machine.allowed"
  by (simp add: fun_eq_iff isValidPayTransition_def payment_machine.allowed_def)

section \<open>Reads\<close>

definition findPayment :: "string \<Rightarrow> string \<Rightarrow> db \<Rightarrow> payment_row option" where
  "findPayment i tenantId s = find (\<lambda>p. py_id p = i \<and> py_tenantId p = tenantId) (payments s)"

definition findByProviderPaymentId :: "string \<Rightarrow> string \<Rightarrow> db \<Rightarrow> payment_row option" where
  "findByProviderPaymentId providerPaymentId tenantId s =
     (if providerPaymentId = [] then None
      else find (\<lambda>p. py_providerPaymentId p = Some providerPaymentId \<and> py_tenantId p = tenantId) (payments s))"

definition isOpen :: "payment_row \<Rightarrow> bool" where
  "isOpen p \<longleftrightarrow> py_status p \<in> {P_PENDING, P_PROCESSING}"

definition findActiveForOrder :: "string \<Rightarrow> string \<Rightarrow> db \<Rightarrow> payment_row option" where
  "findActiveForOrder orderId tenantId s =
     find (\<lambda>p. py_orderId p = orderId \<and> py_tenantId p = tenantId \<and> isOpen p) (payments s)"

definition completedRefunds :: "string \<Rightarrow> string \<Rightarrow> db \<Rightarrow> refund_row list" where
  "completedRefunds paymentId tenantId s =
     filter (\<lambda>r. rf_paymentId r = paymentId \<and> rf_tenantId r = tenantId \<and> rf_status r = R_COMPLETED) (refunds s)"

text \<open>The loop that adds up \<open>toCents(r.amount.toString())\<close>.\<close>

definition refundedCents :: "string \<Rightarrow> string \<Rightarrow> db \<Rightarrow> paise" where
  "refundedCents paymentId tenantId s =
     foldl (\<lambda>acc r. acc + cents (decToString (rf_amount r))) 0 (completedRefunds paymentId tenantId s)"

abbreviation paymentNotFound :: error where
  "paymentNotFound \<equiv> AppError 404 ''PAYMENT_NOT_FOUND''"

definition getPayment :: "string \<Rightarrow> string \<Rightarrow> payment_row dbio" where
  "getPayment i tenantId = bindH (readH (findPayment i tenantId)) (\<lambda>p. orThrowH p paymentNotFound)"

section \<open>Writes\<close>

text \<open>The unique indexes over a tenant and a provider's id, where there is one.\<close>

definition providerIdTaken :: "('r \<Rightarrow> string) \<Rightarrow> ('r \<Rightarrow> string option) \<Rightarrow> string \<Rightarrow> string option \<Rightarrow> 'r list \<Rightarrow> bool" where
  "providerIdTaken tenantOf idOf tenantId i rows =
     (i \<noteq> None \<and> list_ex (\<lambda>r. tenantOf r = tenantId \<and> idOf r = i) rows)"

text \<open>\<open>payment.create\<close>: the id is the primary key of the table.\<close>

definition insertPayment :: "env \<Rightarrow> payment_row \<Rightarrow> payment_row dbtx" where
  "insertPayment env p = bindT (freshId env) (\<lambda>i.
     bindT (readT (\<lambda>s. list_ex (\<lambda>q. py_id q = i) (payments s)
       \<or> providerIdTaken py_tenantId py_providerPaymentId (py_tenantId p) (py_providerPaymentId p) (payments s))) (\<lambda>clash.
     thenT (throwIfT clash uniqueViolation)
    (thenT (writeT (\<lambda>s. s\<lparr>payments := payments s @ [p\<lparr>py_id := i\<rparr>]\<rparr>)) (returnT (p\<lparr>py_id := i\<rparr>)))))"

definition insertPaymentTx :: "payment_tx_row \<Rightarrow> unit dbtx" where
  "insertPaymentTx t =
     bindT (readT (\<lambda>s. providerIdTaken pt_tenantId pt_providerTransactionId (pt_tenantId t) (pt_providerTransactionId t) (paymentTxs s)))
       (\<lambda>clash. thenT (throwIfT clash uniqueViolation) (writeT (\<lambda>s. s\<lparr>paymentTxs := paymentTxs s @ [t]\<rparr>)))"

definition insertRefund :: "env \<Rightarrow> refund_row \<Rightarrow> refund_row dbtx" where
  "insertRefund env r = bindT (freshId env) (\<lambda>i.
     bindT (readT (\<lambda>s. list_ex (\<lambda>q. rf_tenantId q = rf_tenantId r \<and> rf_providerRefundId q = rf_providerRefundId r) (refunds s))) (\<lambda>clash.
     thenT (throwIfT clash uniqueViolation)
    (thenT (writeT (\<lambda>s. s\<lparr>refunds := refunds s @ [r\<lparr>rf_id := i\<rparr>]\<rparr>)) (returnT (r\<lparr>rf_id := i\<rparr>)))))"

text \<open>\<open>payment.update({ where: { id }, data })\<close>: the row must exist.\<close>

definition newProviderIdTaken :: "string \<Rightarrow> (payment_row \<Rightarrow> payment_row) \<Rightarrow> payment_row list \<Rightarrow> payment_row \<Rightarrow> bool" where
  "newProviderIdTaken i f ps p \<longleftrightarrow> py_id p = i \<and> py_providerPaymentId (f p) \<noteq> py_providerPaymentId p
     \<and> providerIdTaken py_tenantId py_providerPaymentId (py_tenantId p) (py_providerPaymentId (f p)) ps"

definition updatePayment :: "string \<Rightarrow> (payment_row \<Rightarrow> payment_row) \<Rightarrow> unit dbtx" where
  "updatePayment i f =
     bindT (readT (\<lambda>s. list_ex (\<lambda>p. py_id p = i) (payments s))) (\<lambda>found.
     thenT (throwIfT (\<not> found) recordNotFound)
    (bindT (readT (\<lambda>s. list_ex (newProviderIdTaken i f (payments s)) (payments s))) (\<lambda>clash.
     thenT (throwIfT clash uniqueViolation)
       (writeT (\<lambda>s. s\<lparr>payments := updateMany (\<lambda>p. py_id p = i) f (payments s)\<rparr>)))))"

text \<open>The webhook events: \<open>event_id\<close> is unique over all tenants.\<close>

definition insertWebhookEvent :: "webhook_row \<Rightarrow> unit dbtx" where
  "insertWebhookEvent w =
     bindT (readT (\<lambda>s. list_ex (\<lambda>e. we_eventId e = we_eventId w) (webhookEvents s))) (\<lambda>clash.
     thenT (throwIfT clash uniqueViolation) (writeT (\<lambda>s. s\<lparr>webhookEvents := webhookEvents s @ [w]\<rparr>)))"

definition paymentEvent :: "string \<Rightarrow> payment_row \<Rightarrow> bool \<Rightarrow> jsval" where
  "paymentEvent tenantId p withProvider =
     JObj ([(''id'', JStr (py_id p)), (''tenantId'', JStr tenantId), (''orderId'', JStr (py_orderId p)),
       (''amount'', JStr (decToString (py_amount p))), (''currency'', JStr (py_currency p)),
       (''status'', JStr (payment_status_str (py_status p)))]
       @ (if withProvider then [(''providerPaymentId'', jsOfOpt (py_providerPaymentId p))] else []))"

definition announcePayment :: "env \<Rightarrow> string \<Rightarrow> payment_row \<Rightarrow> bool \<Rightarrow> unit dbio" where
  "announcePayment env tenantId p withProvider =
     writeH (\<lambda>s. snd (emitPaymentCompleted env tenantId (paymentEvent tenantId p withProvider) s))"

section \<open>create\<close>

text \<open>The configured charge provider; its answer is the provider's payment id, if it gives one.\<close>

record provider =
  pv_name :: string
  pv_charge :: "string \<Rightarrow> string \<Rightarrow> string \<Rightarrow> string \<Rightarrow> string \<Rightarrow> error + string option"

record create_payment_body =
  cp_orderId :: string
  cp_provider :: "string option"
  cp_currency :: "string option"
  cp_metadata :: jsval

text \<open>\<open>err instanceof IntegrationError ? err : new IntegrationError(...)\<close>.\<close>

definition asIntegrationError :: "error \<Rightarrow> error" where
  "asIntegrationError err = (case err of
       IntegrationError st c \<Rightarrow> err
     | AppError st c \<Rightarrow> IntegrationError st c
     | DbError c _ _ \<Rightarrow> IntegrationError 502 (if c = [] then ''INTEGRATION_ERROR'' else c)
     | JsError _ \<Rightarrow> IntegrationError 502 ''INTEGRATION_ERROR'')"

definition chargeExternally ::
  "provider \<Rightarrow> string \<Rightarrow> string \<Rightarrow> string \<Rightarrow> string \<Rightarrow> string \<Rightarrow> error + string option" where
  "chargeExternally pv amountStr currency orderId tenantId idempotencyKey =
     (if pv_name pv = ''mock'' then Inr None
      else (case pv_charge pv amountStr currency orderId tenantId idempotencyKey of
          Inl err \<Rightarrow> Inl (asIntegrationError err)
        | Inr x \<Rightarrow> Inr x))"

definition createPaymentTx ::
  "env \<Rightarrow> string \<Rightarrow> string option \<Rightarrow> order_row \<Rightarrow> string \<Rightarrow> string \<Rightarrow> string option \<Rightarrow> jsval \<Rightarrow> payment_row option dbtx" where
  "createPaymentTx env tenantId userId order currency provider externalProviderId metadata =
     bindT (case nonEmpty externalProviderId of Some x \<Rightarrow> returnT x | None \<Rightarrow> shortId env ''pay_'') (\<lambda>providerPaymentId.
     bindT (insertPayment env \<lparr>py_id = [], py_tenantId = tenantId, py_orderId = or_id order,
        py_amount = or_total order, py_currency = currency, py_status = P_PENDING, py_provider = provider,
        py_providerPaymentId = Some providerPaymentId, py_metadata = metadata, py_deletedAt = None\<rparr>) (\<lambda>payment.
     bindT (shortId env ''txn_'') (\<lambda>txn.
     thenT (insertPaymentTx \<lparr>pt_tenantId = tenantId, pt_paymentId = py_id payment, pt_type = X_CHARGE,
        pt_amount = or_total order, pt_currency = currency, pt_status = P_PENDING,
        pt_providerTransactionId = Some txn, pt_metadata = JObj [(''initiatedBy'', jsOfOpt userId)]\<rparr>)
     (readT (findPayment (py_id payment) tenantId)))))"

text \<open>Before its transaction the handler reads the order, looks for an open payment and charges the provider. Other requests
  may run between these reads and the transaction, which looks at nothing again.\<close>

record create_check =
  cc_order :: order_row
  cc_currency :: string
  cc_provider :: string
  cc_externalId :: "string option"

definition createPaymentCheck ::
  "env \<Rightarrow> provider \<Rightarrow> string \<Rightarrow> create_payment_body \<Rightarrow> create_check dbio" where
  "createPaymentCheck env pv tenantId body =
     bindH (readH (findOrder (cp_orderId body) tenantId)) (\<lambda>found.
     bindH (orThrowH found (AppError 404 ''ORDER_NOT_FOUND'')) (\<lambda>order.
     thenH (throwIfH (or_status order \<notin> set ORDER_ELIGIBLE_STATUSES) (AppError 409 ''ORDER_NOT_ELIGIBLE''))
    (bindH (readH (findActiveForOrder (cp_orderId body) tenantId)) (\<lambda>existing.
     thenH (throwIfH (existing \<noteq> None) (AppError 409 ''PAYMENT_ALREADY_PENDING''))
    (let provider = orEmpty (orElse (cp_provider body) (orElse (Some (env_paymentProvider env)) (Some ''mock'')));
         amountStr = decToString (or_total order);
         currency = orEmpty (orElse (Some (or_currency order)) (orElse (cp_currency body) (Some ''INR'')));
         amountCents = cents amountStr
     in thenH (throwIfH (amountCents \<le> 0) (AppError 400 ''INVALID_AMOUNT''))
       (bindH (liftH (chargeExternally pv amountStr currency (cp_orderId body) tenantId
           (tenantId @ '':'' @ cp_orderId body @ '':'' @ show_int amountCents))) (\<lambda>externalProviderId.
        returnH \<lparr>cc_order = order, cc_currency = currency, cc_provider = provider,
          cc_externalId = externalProviderId\<rparr>)))))))"

definition createPaymentCommit ::
  "env \<Rightarrow> string \<Rightarrow> string option \<Rightarrow> jsval \<Rightarrow> create_check \<Rightarrow> payment_row option dbio" where
  "createPaymentCommit env tenantId userId metadata c =
     transaction (createPaymentTx env tenantId userId (cc_order c) (cc_currency c) (cc_provider c) (cc_externalId c)
       (jsOr metadata (JObj [])))"

definition createPayment ::
  "env \<Rightarrow> provider \<Rightarrow> string \<Rightarrow> string option \<Rightarrow> create_payment_body \<Rightarrow> payment_row option dbio" where
  "createPayment env pv tenantId userId body =
     bindH (createPaymentCheck env pv tenantId body) (createPaymentCommit env tenantId userId (cp_metadata body))"

section \<open>confirm\<close>

record confirm_body =
  cf_paymentId :: "string option"
  cf_providerPaymentId :: "string option"
  cf_simulateFailure :: bool

abbreviation badState :: error where
  "badState \<equiv> AppError 409 ''INVALID_STATE_TRANSITION''"

definition lookupPayment :: "string option \<Rightarrow> string option \<Rightarrow> string \<Rightarrow> db \<Rightarrow> payment_row option" where
  "lookupPayment paymentId providerPaymentId tenantId s =
     (case nonEmpty paymentId of
        Some i \<Rightarrow> findPayment i tenantId s
      | None \<Rightarrow> (case nonEmpty providerPaymentId of
            Some x \<Rightarrow> findByProviderPaymentId x tenantId s
          | None \<Rightarrow> None))"

definition confirmTx ::
  "env \<Rightarrow> string \<Rightarrow> string option \<Rightarrow> string \<Rightarrow> string option \<Rightarrow> payment_status \<Rightarrow> bool \<Rightarrow> payment_row option dbtx" where
  "confirmTx env tenantId userId paymentId providerPaymentId targetStatus simulateFailure =
     bindT (readT (findPayment paymentId tenantId)) (\<lambda>found.
     case found of
       None \<Rightarrow> throwT badState
     | Some fresh \<Rightarrow>
         thenT (throwIfT (\<not> isOpen fresh) badState)
        (thenT (updatePayment paymentId (\<lambda>p. p\<lparr>py_status := targetStatus,
            py_providerPaymentId := orElse providerPaymentId (py_providerPaymentId fresh)\<rparr>))
        (bindT (case nonEmpty providerPaymentId of
             Some x \<Rightarrow> returnT (''txn_'' @ take 12 x @ ''_'' @ show_int (env_now env))
           | None \<Rightarrow> shortId env ''txn_'') (\<lambda>txn.
         thenT (insertPaymentTx \<lparr>pt_tenantId = tenantId, pt_paymentId = paymentId, pt_type = X_CHARGE,
           pt_amount = py_amount fresh, pt_currency = py_currency fresh, pt_status = targetStatus,
           pt_providerTransactionId = Some txn,
           pt_metadata = JObj [(''confirmedBy'', jsOfOpt userId), (''simulateFailure'', JBool simulateFailure)]\<rparr>)
        (readT (findPayment paymentId tenantId))))))"

definition confirmCommit ::
  "env \<Rightarrow> string \<Rightarrow> string option \<Rightarrow> confirm_body \<Rightarrow> payment_row \<Rightarrow> payment_row dbio" where
  "confirmCommit env tenantId userId body payment =
     bindH (transaction (confirmTx env tenantId userId (py_id payment) (cf_providerPaymentId body)
        (if cf_simulateFailure body then P_FAILED else P_COMPLETED) (cf_simulateFailure body))) (\<lambda>result.
     bindH (orThrowH result (JsError ''Cannot read properties of null'')) (\<lambda>r.
     thenH (if py_status r = P_COMPLETED then announcePayment env tenantId r True else returnH ())
      (returnH r)))"

definition confirmPayment ::
  "env \<Rightarrow> string \<Rightarrow> string option \<Rightarrow> confirm_body \<Rightarrow> payment_row dbio" where
  "confirmPayment env tenantId userId body =
     bindH (readH (lookupPayment (cf_paymentId body) (cf_providerPaymentId body) tenantId)) (\<lambda>found.
     bindH (orThrowH found paymentNotFound) (\<lambda>payment.
     let targetStatus = (if cf_simulateFailure body then P_FAILED else P_COMPLETED) in
     thenH (throwIfH (\<not> isOpen payment) badState)
    (thenH (throwIfH (\<not> isValidPayTransition (py_status payment) targetStatus) badState)
      (confirmCommit env tenantId userId body payment))))"

section \<open>refund\<close>

definition RAZORPAY :: string where
  "RAZORPAY = ''razorpay''"

record refund_body =
  rb_amount :: string
  rb_reason :: "string option"
  rb_metadata :: jsval

text \<open>Razorpay's refund id is a string of its answer.\<close>

definition refundAtProvider ::
  "env \<Rightarrow> remote \<Rightarrow> payment_row \<Rightarrow> string \<Rightarrow> string option \<Rightarrow> string dbtx" where
  "refundAtProvider env rm payment amountStr reason =
     bindT (orThrowT (nonEmpty (jsStr (jget ''razorpayPaymentId'' (py_metadata payment))))
              (AppError 409 ''INVALID_REFUND_STATE'')) (\<lambda>razorpayPaymentId.
     bindT (readT (credentialsFor rm (py_tenantId payment) True)) (\<lambda>c.
     case c of
       Inl e \<Rightarrow> throwT e
     | Inr None \<Rightarrow> throwT (AppError 409 ''PAYMENT_GATEWAY_NOT_CONFIGURED'')
     | Inr (Some cred) \<Rightarrow>
         bindT (razorpayRefund env rm cred razorpayPaymentId (toMinorUnits (cents amountStr) (py_currency payment))
           (JObj ((''paymentId'', JStr (py_id payment))
              # (case nonEmpty reason of None \<Rightarrow> [] | Some r \<Rightarrow> [(''reason'', JStr (take 200 r))])))) (\<lambda>refund.
         returnT (orEmpty (jsStr (jget ''id'' refund))))))"

definition refundTx ::
  "env \<Rightarrow> remote \<Rightarrow> string \<Rightarrow> string option \<Rightarrow> string \<Rightarrow> paise \<Rightarrow> paise \<Rightarrow> string option \<Rightarrow> jsval \<Rightarrow> payment_row option dbtx" where
  "refundTx env rm tenantId userId paymentId requestedCents paymentCents reason metadata =
     bindT (readT (findPayment paymentId tenantId)) (\<lambda>found.
     bindT (readT (refundedCents paymentId tenantId)) (\<lambda>freshRefunded.
     bindT (orThrowT found (JsError ''Cannot read properties of null'')) (\<lambda>fresh.
     let freshRefundable = cents (decToString (py_amount fresh)) - freshRefunded in
     thenT (throwIfT (freshRefundable < requestedCents) (AppError 409 ''EXCESSIVE_REFUND''))
    (thenT (throwIfT (py_status fresh \<noteq> P_COMPLETED \<and> py_status fresh \<noteq> P_PARTIALLY_REFUNDED)
        (AppError 409 ''INVALID_REFUND_STATE''))
    (bindT (shortId env ''ref_'') (\<lambda>ownRefundId.
     bindT (if py_provider fresh = RAZORPAY then refundAtProvider env rm fresh (money requestedCents) reason
            else returnT ownRefundId) (\<lambda>providerRefundId.
     bindT (insertRefund env \<lparr>rf_id = [], rf_tenantId = tenantId, rf_paymentId = paymentId,
        rf_amount = cents (money requestedCents), rf_currency = py_currency fresh, rf_status = R_COMPLETED,
        rf_reason = reason, rf_providerRefundId = providerRefundId, rf_metadata = metadata\<rparr>) (\<lambda>refund.
     thenT (insertPaymentTx \<lparr>pt_tenantId = tenantId, pt_paymentId = paymentId, pt_type = X_REFUND,
        pt_amount = cents (money requestedCents), pt_currency = py_currency fresh, pt_status = P_COMPLETED,
        pt_providerTransactionId = Some (''txn_ref_'' @ providerRefundId),
        pt_metadata = JObj [(''refundId'', JStr (rf_id refund)), (''refundedBy'', jsOfOpt userId)]\<rparr>)
    (let totalAfter = freshRefunded + requestedCents;
         newStatus = (if paymentCents \<le> totalAfter then P_REFUNDED else P_PARTIALLY_REFUNDED)
     in thenT (throwIfT (\<not> isValidPayTransition (py_status fresh) newStatus \<and> py_status fresh \<noteq> newStatus) badState)
       (thenT (updatePayment paymentId (\<lambda>p. p\<lparr>py_status := newStatus\<rparr>))
          (readT (findPayment paymentId tenantId))))))))))))"

text \<open>The handler checks the request first, and again in its transaction after locking the payment's row.\<close>

definition refundCheck :: "string \<Rightarrow> string \<Rightarrow> refund_body \<Rightarrow> paise dbio" where
  "refundCheck tenantId paymentId body =
     bindH (getPayment paymentId tenantId) (\<lambda>payment.
     thenH (throwIfH (py_status payment \<noteq> P_COMPLETED \<and> py_status payment \<noteq> P_PARTIALLY_REFUNDED)
        (AppError 409 ''INVALID_REFUND_STATE''))
    (let requestedCents = cents (rb_amount body) in
     thenH (throwIfH (requestedCents \<le> 0) (AppError 400 ''INVALID_REFUND_AMOUNT''))
    (bindH (readH (refundedCents paymentId tenantId)) (\<lambda>refunded.
     let paymentCents = cents (decToString (py_amount payment)) in
     thenH (throwIfH (paymentCents - refunded < requestedCents) (AppError 409 ''EXCESSIVE_REFUND''))
       (returnH paymentCents)))))"

definition refundCommit ::
  "env \<Rightarrow> remote \<Rightarrow> string \<Rightarrow> string option \<Rightarrow> string \<Rightarrow> refund_body \<Rightarrow> paise \<Rightarrow> payment_row option dbio" where
  "refundCommit env rm tenantId userId paymentId body paymentCents =
     transaction (refundTx env rm tenantId userId paymentId (cents (rb_amount body)) paymentCents
       (nonEmpty (rb_reason body)) (jsOr (rb_metadata body) (JObj [])))"

definition refundPayment ::
  "env \<Rightarrow> remote \<Rightarrow> string \<Rightarrow> string option \<Rightarrow> string \<Rightarrow> refund_body \<Rightarrow> payment_row option dbio" where
  "refundPayment env rm tenantId userId paymentId body =
     bindH (refundCheck tenantId paymentId body) (refundCommit env rm tenantId userId paymentId body)"

section \<open>The generic webhook\<close>

record webhook_payload =
  wp_eventId :: "string option"
  wp_type :: string
  wp_paymentId :: "string option"
  wp_providerPaymentId :: "string option"
  wp_providerTransactionId :: "string option"
  wp_amount :: "string option"
  wp_tenantId :: "string option"
  wp_json :: jsval

record webhook_result =
  wr_payment :: "payment_row option"
  wr_duplicate :: bool

definition targetStatusOf :: "string \<Rightarrow> payment_status option" where
  "targetStatusOf ty =
     (if ty = ''payment.succeeded'' \<or> ty = ''charge.succeeded'' then Some P_COMPLETED
      else if ty = ''payment.failed'' \<or> ty = ''charge.failed'' then Some P_FAILED
      else if ty = ''payment.refunded'' then Some P_REFUNDED else None)"

text \<open>The tenant and the payment an event is about; without a tenant the payment is looked up in all of them.\<close>

definition resolveWebhook :: "webhook_payload \<Rightarrow> db \<Rightarrow> string option \<times> payment_row option" where
  "resolveWebhook w s =
     (let tenantId = nonEmpty (wp_tenantId w) in
      case nonEmpty (wp_paymentId w) of
        Some i \<Rightarrow>
          (case tenantId of
             Some t \<Rightarrow> (tenantId, findPayment i t s)
           | None \<Rightarrow> (let p = find (\<lambda>p. py_id p = i) (payments s) in (map_option py_tenantId p, p)))
      | None \<Rightarrow>
          (case nonEmpty (wp_providerPaymentId w) of
             Some x \<Rightarrow>
               (case tenantId of
                  Some t \<Rightarrow> (tenantId, findByProviderPaymentId x t s)
                | None \<Rightarrow> (let p = find (\<lambda>p. py_providerPaymentId p = Some x) (payments s)
                           in (map_option py_tenantId p, p)))
           | None \<Rightarrow> (tenantId, None)))"

definition applyWebhook ::
  "env \<Rightarrow> string \<Rightarrow> string \<Rightarrow> webhook_payload \<Rightarrow> payment_status \<Rightarrow> string \<Rightarrow> unit dbtx" where
  "applyWebhook env tenantId eventId w targetStatus paymentId =
     bindT (readT (findPayment paymentId tenantId)) (\<lambda>found.
     case found of
       None \<Rightarrow> returnT ()
     | Some fresh \<Rightarrow>
         (if isValidPayTransition (py_status fresh) targetStatus
          then thenT (updatePayment paymentId (\<lambda>p. p\<lparr>py_status := targetStatus\<rparr>))
             (bindT (readT (\<lambda>s. list_ex (\<lambda>x. pt_tenantId x = tenantId
                 \<and> pt_providerTransactionId x = nonEmpty (wp_providerTransactionId w)) (paymentTxs s))) (\<lambda>existingTxn.
              if existingTxn then returnT ()
              else insertPaymentTx \<lparr>pt_tenantId = tenantId, pt_paymentId = paymentId,
                pt_type = (if strIncludes (wp_type w) ''refund'' then X_REFUND else X_CHARGE),
                pt_amount = (case nonEmpty (wp_amount w) of Some a \<Rightarrow> cents a | None \<Rightarrow> py_amount fresh),
                pt_currency = py_currency fresh, pt_status = targetStatus,
                pt_providerTransactionId = orElse (nonEmpty (wp_providerTransactionId w)) (Some (''wh_'' @ eventId)),
                pt_metadata = JObj [(''webhookEventId'', JStr eventId), (''webhookType'', JStr (wp_type w))]\<rparr>))
          else returnT ()))"

definition webhookTx ::
  "env \<Rightarrow> string \<Rightarrow> string \<Rightarrow> webhook_payload \<Rightarrow> payment_row \<Rightarrow> payment_row option dbtx" where
  "webhookTx env tenantId eventId w payment =
     thenT (insertWebhookEvent \<lparr>we_tenantId = tenantId, we_paymentId = Some (py_id payment), we_eventId = eventId,
        we_providerEventId = Some eventId,
        we_providerPaymentId = orElse (nonEmpty (wp_providerPaymentId w)) (py_providerPaymentId payment),
        we_type = wp_type w, we_payload = wp_json w\<rparr>)
    (thenT (case targetStatusOf (wp_type w) of
          None \<Rightarrow> returnT ()
        | Some st \<Rightarrow>
            (if isValidPayTransition (py_status payment) st
             then applyWebhook env tenantId eventId w st (py_id payment) else returnT ()))
      (readT (findPayment (py_id payment) tenantId)))"

definition isDuplicateError :: "error \<Rightarrow> bool" where
  "isDuplicateError err = (case err of
       DbError c _ msg \<Rightarrow> c = ''P2002'' \<or> strIncludes msg ''Unique constraint'' \<or> strIncludes msg ''duplicate key''
     | JsError msg \<Rightarrow> strIncludes msg ''Unique constraint'' \<or> strIncludes msg ''duplicate key''
     | _ \<Rightarrow> False)"

definition processWebhook ::
  "env \<Rightarrow> string \<Rightarrow> string \<Rightarrow> webhook_payload \<Rightarrow> payment_row \<Rightarrow> webhook_result dbio" where
  "processWebhook env tenantId eventId w payment =
     catchH
      (bindH (transaction (webhookTx env tenantId eventId w payment)) (\<lambda>created.
       thenH (case created of
           Some c \<Rightarrow> (if py_status c = P_COMPLETED \<and> py_status payment \<noteq> P_COMPLETED
                      then announcePayment env tenantId c False else returnH ())
         | None \<Rightarrow> returnH ())
        (returnH \<lparr>wr_payment = created, wr_duplicate = False\<rparr>)))
      (\<lambda>err. if isDuplicateError err
        then bindH (readH (findPayment (py_id payment) tenantId)) (\<lambda>current.
             returnH \<lparr>wr_payment = current, wr_duplicate = True\<rparr>)
        else throwH err)"

definition handleWebhook ::
  "env \<Rightarrow> remote \<Rightarrow> string \<Rightarrow> webhook_payload \<Rightarrow> string option \<Rightarrow> webhook_result dbio" where
  "handleWebhook env rm rawBody w headerSig =
     bindH (orThrowH (nonEmpty (wp_eventId w)) (AppError 400 ''INVALID_WEBHOOK'')) (\<lambda>eventId.
     thenH (throwIfH (\<not> verifyWebhookSignature rm rawBody headerSig) (AppError 401 ''INVALID_WEBHOOK_SIGNATURE''))
    (bindH (readH (resolveWebhook w)) (\<lambda>target.
     bindH (orThrowH (fst target) (AppError 400 ''INVALID_WEBHOOK'')) (\<lambda>tenantId.
     bindH (orThrowH (snd target) paymentNotFound) (\<lambda>payment.
     processWebhook env tenantId eventId w payment)))))"

section \<open>The book of payments\<close>

definition refundsFor :: "refund_row list \<Rightarrow> payment_row \<Rightarrow> paise" where
  "refundsFor rs p = sum_list (map rf_amount
     (filter (\<lambda>r. rf_paymentId r = py_id p \<and> rf_tenantId r = py_tenantId p \<and> rf_status r = R_COMPLETED) rs))"

definition paymentOk :: "refund_row list \<Rightarrow> payment_row \<Rightarrow> bool" where
  "paymentOk rs p \<longleftrightarrow>
     0 < py_amount p \<and> py_deletedAt p = None \<and> 0 \<le> refundsFor rs p \<and> refundsFor rs p \<le> py_amount p
     \<and> (py_status p \<noteq> P_REFUNDED \<and> py_status p \<noteq> P_PARTIALLY_REFUNDED \<longrightarrow> refundsFor rs p = 0)
     \<and> (py_status p = P_PARTIALLY_REFUNDED \<longrightarrow> 0 < refundsFor rs p \<and> refundsFor rs p < py_amount p)"

definition openFor :: "string \<Rightarrow> string \<Rightarrow> payment_row list \<Rightarrow> payment_row list" where
  "openFor orderId tenantId ps =
     filter (\<lambda>p. py_orderId p = orderId \<and> py_tenantId p = tenantId \<and> isOpen p) ps"

definition bookOk :: "payment_row list \<Rightarrow> refund_row list \<Rightarrow> bool" where
  "bookOk ps rs \<longleftrightarrow>
     distinct (map py_id ps)
     \<and> (\<forall>p \<in> set ps. paymentOk rs p)
     \<and> (\<forall>r \<in> set rs. \<exists>p \<in> set ps. py_id p = rf_paymentId r)"

definition paymentsInv :: "db \<Rightarrow> bool" where
  "paymentsInv s \<longleftrightarrow> bookOk (payments s) (refunds s)"

text \<open>The same payment later: identity and amount stay, the status moves along allowed transitions.\<close>

definition later :: "payment_row \<Rightarrow> payment_row \<Rightarrow> bool" where
  "later p q \<longleftrightarrow>
     py_id q = py_id p \<and> py_tenantId q = py_tenantId p \<and> py_orderId q = py_orderId p
     \<and> py_amount q = py_amount p \<and> py_currency q = py_currency p
     \<and> (\<exists>sts. payment_machine.run (py_status p) sts (py_status q))"

definition evolves :: "payment_row list \<Rightarrow> payment_row list \<Rightarrow> bool" where
  "evolves ps qs \<longleftrightarrow> (\<forall>p \<in> set ps. \<exists>q \<in> set qs. later p q)"

lemma later_refl [intro]: "later p p"
  by (auto simp: later_def intro: payment_machine.run_nil)

lemma later_trans: "later p q \<Longrightarrow> later q r \<Longrightarrow> later p r"
  unfolding later_def by (metis payment_machine.run_append)

lemma evolves_refl [intro]: "evolves ps ps"
  by (auto simp: evolves_def)

lemma evolves_trans: "evolves ps qs \<Longrightarrow> evolves qs rs \<Longrightarrow> evolves ps rs"
  unfolding evolves_def by (meson later_trans)

lemma run_one: "isValidPayTransition a b \<Longrightarrow> payment_machine.run a [b] b"
  by (simp add: isValidPayTransition_allowed payment_machine.run.intros)

lemma evolves_append: "evolves ps (ps @ qs)"
  by (auto simp: evolves_def)

text \<open>A change of one payment that keeps the book.\<close>

definition goodChange :: "payment_row \<Rightarrow> payment_row \<Rightarrow> bool" where
  "goodChange p q \<longleftrightarrow>
     py_id q = py_id p \<and> py_tenantId q = py_tenantId p \<and> py_orderId q = py_orderId p
     \<and> py_amount q = py_amount p \<and> py_currency q = py_currency p \<and> py_deletedAt q = py_deletedAt p
     \<and> (py_status q = py_status p \<or> isValidPayTransition (py_status p) (py_status q))"

lemma later_goodChange: "goodChange p q \<Longrightarrow> later p q"
  unfolding goodChange_def later_def by (metis payment_machine.run_nil run_one)

lemma map_py_id_updateMany: "(\<And>p. p \<in> set ps \<Longrightarrow> Q p \<Longrightarrow> py_id (f p) = py_id p) \<Longrightarrow> map py_id (updateMany Q f ps) = map py_id ps"
  by (induction ps) (auto simp: updateMany_def)

lemma evolves_updateMany:
  assumes "\<And>p. p \<in> set ps \<Longrightarrow> Q p \<Longrightarrow> goodChange p (f p)"
  shows "evolves ps (updateMany Q f ps)"
  unfolding evolves_def
proof
  fix p
  assume p: "p \<in> set ps"
  let ?q = "if Q p then f p else p"
  have "?q \<in> set (updateMany Q f ps)" using p by (auto simp: set_updateMany)
  moreover have "later p ?q" using assms [OF p] by (auto intro: later_goodChange)
  ultimately show "\<exists>q \<in> set (updateMany Q f ps). later p q" by blast
qed

text \<open>A refund of an amount that is left, or a status change without one.\<close>

lemma refundsFor_append:
  "refundsFor (rs @ [r]) p = refundsFor rs p
     + (if rf_paymentId r = py_id p \<and> rf_tenantId r = py_tenantId p \<and> rf_status r = R_COMPLETED then rf_amount r else 0)"
  by (simp add: refundsFor_def)

lemma refundsFor_same: "py_id q = py_id p \<Longrightarrow> py_tenantId q = py_tenantId p \<Longrightarrow> refundsFor rs q = refundsFor rs p"
  by (simp add: refundsFor_def)

lemma bookOk_update:
  assumes ok: "bookOk ps rs"
    and good: "\<And>p. p \<in> set ps \<Longrightarrow> py_id p = i \<Longrightarrow> goodChange p (f p)"
    and refs: "\<And>p. p \<in> set ps \<Longrightarrow> py_id p = i \<Longrightarrow> paymentOk rs' (f p)"
    and rs': "\<And>p. p \<in> set ps \<Longrightarrow> py_id p \<noteq> i \<Longrightarrow> refundsFor rs' p = refundsFor rs p"
    and orph: "\<And>r. r \<in> set rs' \<Longrightarrow> r \<in> set rs \<or> rf_paymentId r = i \<and> (\<exists>p \<in> set ps. py_id p = i)"
  shows "bookOk (updateMany (\<lambda>p. py_id p = i) f ps) rs'"
proof -
  let ?ps = "updateMany (\<lambda>p. py_id p = i) f ps"
  have ids: "map py_id ?ps = map py_id ps"
    by (rule map_py_id_updateMany) (use good in \<open>auto simp: goodChange_def\<close>)
  then have mem: "(\<exists>p \<in> set ?ps. py_id p = j) = (\<exists>p \<in> set ps. py_id p = j)" for j
    by (metis (no_types, lifting) imageE imageI list.set_map)
  have "\<forall>p \<in> set ?ps. paymentOk rs' p"
    using ok refs rs' by (auto simp: set_updateMany bookOk_def paymentOk_def)
  moreover have "\<forall>r \<in> set rs'. \<exists>p \<in> set ?ps. py_id p = rf_paymentId r"
    using ok orph unfolding mem by (auto simp: bookOk_def)
  ultimately show ?thesis using ok ids by (simp add: bookOk_def)
qed

text \<open>A status change that is not a refund.\<close>

lemma bookOk_status:
  assumes ok: "bookOk ps rs"
    and good: "\<And>p. p \<in> set ps \<Longrightarrow> py_id p = i \<Longrightarrow> goodChange p (f p)"
    and part: "\<And>p. p \<in> set ps \<Longrightarrow> py_id p = i \<Longrightarrow> py_status (f p) = P_PARTIALLY_REFUNDED \<Longrightarrow> py_status p = P_PARTIALLY_REFUNDED"
  shows "bookOk (updateMany (\<lambda>p. py_id p = i) f ps) rs"
proof (rule bookOk_update [OF ok good])
  fix p assume p: "p \<in> set ps" "py_id p = i"
  have "refundsFor rs (f p) = refundsFor rs p"
    using good [OF p] by (intro refundsFor_same) (auto simp: goodChange_def)
  moreover have "paymentOk rs p" using ok p by (auto simp: bookOk_def)
  ultimately show "paymentOk rs (f p)"
    using good [OF p] part [OF p]
    by (cases "py_status p") (auto simp: paymentOk_def goodChange_def isValidPayTransition_def PAYMENT_TRANSITIONS_def)
qed auto

lemma bookOk_insert:
  assumes ok: "bookOk ps rs" and new: "\<forall>q \<in> set ps. py_id q \<noteq> py_id p"
    and p: "0 < py_amount p" "py_deletedAt p = None" "py_status p = P_PENDING"
  shows "bookOk (ps @ [p]) rs"
proof -
  have "refundsFor rs p = 0"
  proof -
    have "filter (\<lambda>r. rf_paymentId r = py_id p \<and> rf_tenantId r = py_tenantId p \<and> rf_status r = R_COMPLETED) rs = []"
      using ok new by (fastforce simp: bookOk_def filter_empty_conv)
    then show ?thesis by (simp add: refundsFor_def)
  qed
  then have "paymentOk rs p" using p by (simp add: paymentOk_def)
  then show ?thesis using ok new by (fastforce simp: bookOk_def)
qed

section \<open>What the operations do to the book\<close>

lemma findPayment_SomeD:
  "findPayment i t s = Some p \<Longrightarrow> p \<in> set (payments s) \<and> py_id p = i \<and> py_tenantId p = t"
  by (auto simp: findPayment_def dest: find_SomeD)

lemma shortId_eq:
  "shortId env pre s = Inr (pre @ take 16 (filter (\<lambda>c. c \<noteq> CHR ''-'') (env_uuid env (drawn s))), s\<lparr>drawn := Suc (drawn s)\<rparr>)"
  by (simp add: shortId_def freshId_eq monad_defs)

lemma updatePayment_Inr:
  "updatePayment i f s = Inr (u, s') \<longleftrightarrow>
     (\<exists>p \<in> set (payments s). py_id p = i) \<and> (\<forall>p \<in> set (payments s). \<not> newProviderIdTaken i f (payments s) p)
     \<and> s' = s\<lparr>payments := updateMany (\<lambda>p. py_id p = i) f (payments s)\<rparr>"
  by (auto simp: updatePayment_def outcome list_ex_iff)

lemma insertPayment_Inr:
  "insertPayment env p s = Inr (q, s') \<longleftrightarrow>
     q = p\<lparr>py_id := env_uuid env (drawn s)\<rparr> \<and> (\<forall>x \<in> set (payments s). py_id x \<noteq> py_id q)
     \<and> \<not> providerIdTaken py_tenantId py_providerPaymentId (py_tenantId p) (py_providerPaymentId p) (payments s)
     \<and> s' = s\<lparr>drawn := Suc (drawn s), payments := payments s @ [q]\<rparr>"
  by (auto simp: insertPayment_def outcome freshId_eq list_ex_iff)

lemma insertPaymentTx_Inr:
  "insertPaymentTx x s = Inr (u, s') \<longleftrightarrow>
     \<not> providerIdTaken pt_tenantId pt_providerTransactionId (pt_tenantId x) (pt_providerTransactionId x) (paymentTxs s)
     \<and> s' = s\<lparr>paymentTxs := paymentTxs s @ [x]\<rparr>"
  by (auto simp: insertPaymentTx_def outcome)

lemma unique_payment:
  "distinct (map py_id ps) \<Longrightarrow> p \<in> set ps \<Longrightarrow> q \<in> set ps \<Longrightarrow> py_id p = py_id q \<Longrightarrow> p = q"
  by (metis distinct_map inj_on_def)

lemma findActive_None: "findActiveForOrder x t s = None \<longleftrightarrow> openFor x t (payments s) = []"
  by (auto simp: findActiveForOrder_def openFor_def find_None_iff filter_empty_conv)

lemma createPaymentTx_Inr:
  assumes "createPaymentTx env t u order cur pv ext meta s = Inr (r, s')"
  shows "\<exists>i x. payments s' = payments s @ [\<lparr>py_id = i, py_tenantId = t, py_orderId = or_id order,
        py_amount = or_total order, py_currency = cur, py_status = P_PENDING, py_provider = pv,
        py_providerPaymentId = Some x, py_metadata = meta, py_deletedAt = None\<rparr>]
      \<and> (\<forall>q \<in> set (payments s). py_id q \<noteq> i) \<and> refunds s' = refunds s"
  using assms
  by (auto simp: createPaymentTx_def outcome shortId_eq insertPayment_Inr insertPaymentTx_Inr split: option.splits)

lemma createPaymentCheck_state: "createPaymentCheck env pv t body s = (r, s') \<Longrightarrow> s' = s"
  by (cases r) (auto simp: createPaymentCheck_def Let_def outcome)

lemma createPaymentCheck_Inr:
  "createPaymentCheck env pv t body s = (Inr c, s') \<Longrightarrow> findOrder (cp_orderId body) t s = Some (cc_order c)
     \<and> 0 < or_total (cc_order c) \<and> openFor (cp_orderId body) t (payments s) = []"
  by (auto simp: createPaymentCheck_def Let_def outcome findActive_None)

lemma createPayment_Inr:
  "createPayment env pv t u body s = (Inr r, s') \<Longrightarrow>
     \<exists>c. createPaymentCheck env pv t body s = (Inr c, s) \<and> createPaymentCommit env t u (cp_metadata body) c s = (Inr r, s')"
  by (auto simp: createPayment_def outcome dest: createPaymentCheck_state)

lemma createPayment_Inl:
  assumes "createPayment env pv t u body s = (Inl e, s')"
  shows "s' = s"
proof -
  obtain r s1 where c: "createPaymentCheck env pv t body s = (r, s1)" by fastforce
  then have "s1 = s" by (rule createPaymentCheck_state)
  then show ?thesis
    using assms c by (cases r) (auto simp: createPayment_def bindH_def createPaymentCommit_def outcome)
qed

text \<open>The commit keeps the book whatever happened since the check.\<close>

lemma createPaymentCommit_book:
  assumes run: "createPaymentCommit env t u m c s = (r, s')" and inv: "paymentsInv s" and pos: "0 < or_total (cc_order c)"
  shows "paymentsInv s' \<and> evolves (payments s) (payments s')"
proof (cases r)
  case (Inl e)
  then have "s' = s" using run by (auto simp: createPaymentCommit_def outcome)
  then show ?thesis using inv by blast
next
  case (Inr x)
  from run[unfolded Inr] have tx: "createPaymentTx env t u (cc_order c) (cc_currency c) (cc_provider c) (cc_externalId c)
      (jsOr m (JObj [])) s = Inr (x, s')" by (simp add: createPaymentCommit_def outcome)
  from createPaymentTx_Inr [OF tx] show ?thesis
    using inv pos by (auto simp: paymentsInv_def bookOk_insert evolves_append)
qed

lemma createPayment_book:
  assumes "createPayment env pv t u body s = (r, s')" and "paymentsInv s"
  shows "paymentsInv s' \<and> evolves (payments s) (payments s')"
proof (cases r)
  case (Inl e)
  then show ?thesis using assms createPayment_Inl by blast
next
  case (Inr x)
  from createPayment_Inr [OF assms(1)[unfolded Inr]] obtain c where
    "createPaymentCheck env pv t body s = (Inr c, s)" and "createPaymentCommit env t u (cp_metadata body) c s = (Inr x, s')"
    by blast
  then show ?thesis using createPaymentCommit_book assms(2) createPaymentCheck_Inr by blast
qed

lemma confirmTx_Inr:
  assumes "confirmTx env t u i pid st sim s = Inr (r, s')"
  shows "\<exists>fresh. findPayment i t s = Some fresh \<and> isOpen fresh \<and> refunds s' = refunds s
     \<and> payments s' = updateMany (\<lambda>p. py_id p = i) (\<lambda>p. p\<lparr>py_status := st,
          py_providerPaymentId := orElse pid (py_providerPaymentId fresh)\<rparr>) (payments s)
     \<and> r = findPayment i t s'
     \<and> (\<exists>txn. paymentTxs s' = paymentTxs s @ [txn] \<and> pt_paymentId txn = i \<and> pt_tenantId txn = t
          \<and> pt_amount txn = py_amount fresh \<and> pt_status txn = st \<and> pt_type txn = X_CHARGE)"
  using assms
  by (auto simp: confirmTx_def outcome shortId_eq updatePayment_Inr insertPaymentTx_Inr findPayment_def
      split: option.splits)

lemma confirmTx_book:
  assumes "confirmTx env t u i pid st sim s = Inr (r, s')" and "paymentsInv s" and "st \<in> {P_COMPLETED, P_FAILED}"
  shows "paymentsInv s' \<and> evolves (payments s) (payments s')"
proof -
  from confirmTx_Inr [OF assms(1)] obtain fresh where fresh: "findPayment i t s = Some fresh" "isOpen fresh"
    and eq: "refunds s' = refunds s" "payments s' = updateMany (\<lambda>p. py_id p = i) (\<lambda>p. p\<lparr>py_status := st,
          py_providerPaymentId := orElse pid (py_providerPaymentId fresh)\<rparr>) (payments s)" by blast
  have only: "p = fresh" if "p \<in> set (payments s)" "py_id p = i" for p
    using unique_payment [of "payments s" p fresh] that assms(2) findPayment_SomeD [OF fresh(1)]
    by (simp add: paymentsInv_def bookOk_def)
  have good: "goodChange p (p\<lparr>py_status := st, py_providerPaymentId := orElse pid (py_providerPaymentId fresh)\<rparr>)"
    if "p \<in> set (payments s)" "py_id p = i" for p
    using only [OF that] fresh(2) assms(3)
    by (auto simp: goodChange_def isOpen_def isValidPayTransition_def PAYMENT_TRANSITIONS_def)
  show ?thesis
    unfolding paymentsInv_def eq
    by (intro conjI bookOk_status evolves_updateMany)
      (use assms(2,3) good in \<open>auto simp: paymentsInv_def\<close>)
qed

lemma announcePayment_frame:
  "announcePayment env t p b s = (Inr x, s') \<Longrightarrow> payments s' = payments s \<and> refunds s' = refunds s \<and> paymentTxs s' = paymentTxs s"
  "announcePayment env t p b s \<noteq> (Inl e, s')"
  using emitters_frame(4) [of env t "paymentEvent t p b" s] by (auto simp: announcePayment_def outcome)

lemma paymentsInv_frame: "payments s' = payments s \<Longrightarrow> refunds s' = refunds s \<Longrightarrow> paymentsInv s' = paymentsInv s"
  by (simp add: paymentsInv_def)

definition bookKept :: "db \<Rightarrow> db \<Rightarrow> bool" where
  "bookKept s s' \<longleftrightarrow> paymentsInv s' \<and> evolves (payments s) (payments s')"

lemma bookKept_refl: "paymentsInv s \<Longrightarrow> bookKept s s"
  by (auto simp: bookKept_def)

lemma bookKept_frame:
  "bookKept s s1 \<Longrightarrow> payments s' = payments s1 \<Longrightarrow> refunds s' = refunds s1 \<Longrightarrow> bookKept s s'"
  by (simp add: bookKept_def paymentsInv_def)

lemma throwing_unit [outcome]: "(if b then m else returnH ()) s = (Inl e, s') \<longleftrightarrow> b \<and> m s = (Inl e, s')"
  by (simp add: outcome)

lemma confirmPayment_Inl:
  assumes "confirmPayment env t u body s = (Inl e, s')"
  shows "s' = s \<or> (\<exists>i pid st sim. confirmTx env t u i pid st sim s = Inr (None, s') \<and> st \<in> {P_COMPLETED, P_FAILED})"
  using assms unfolding confirmPayment_def confirmCommit_def Let_def
  by (simp only: outcome announcePayment_frame(2) if_False simp_thms) (auto split: if_splits)

lemma confirmPayment_Inr:
  assumes "confirmPayment env t u body s = (Inr r, s')"
  obtains payment s1 where
    "lookupPayment (cf_paymentId body) (cf_providerPaymentId body) t s = Some payment" "isOpen payment"
    "confirmTx env t u (py_id payment) (cf_providerPaymentId body)
       (if cf_simulateFailure body then P_FAILED else P_COMPLETED) (cf_simulateFailure body) s = Inr (Some r, s1)"
    "payments s' = payments s1" "refunds s' = refunds s1" "paymentTxs s' = paymentTxs s1"
  using assms
  by (auto simp: confirmPayment_def confirmCommit_def Let_def outcome dest: announcePayment_frame(1) split: if_splits)

lemma confirmPayment_book:
  assumes "confirmPayment env t u body s = (r, s')" and "paymentsInv s"
  shows "bookKept s s'"
proof (cases r)
  case (Inl e)
  from confirmPayment_Inl [OF assms(1)[unfolded Inl]] show ?thesis
    using assms(2) confirmTx_book [folded bookKept_def] bookKept_refl by blast
next
  case (Inr x)
  from assms(1)[unfolded Inr] obtain payment s1 where
    "lookupPayment (cf_paymentId body) (cf_providerPaymentId body) t s = Some payment" "isOpen payment"
    and tx: "confirmTx env t u (py_id payment) (cf_providerPaymentId body)
       (if cf_simulateFailure body then P_FAILED else P_COMPLETED) (cf_simulateFailure body) s = Inr (Some x, s1)"
    and fr: "payments s' = payments s1" "refunds s' = refunds s1" "paymentTxs s' = paymentTxs s1"
    by (rule confirmPayment_Inr)
  from confirmTx_book [OF tx assms(2)] have "bookKept s s1" by (simp add: bookKept_def)
  then show ?thesis by (rule bookKept_frame) (simp_all add: fr)
qed

lemma confirmCommit_book:
  assumes "confirmCommit env t u body p s = (r, s')" and inv: "paymentsInv s"
  shows "bookKept s s'"
proof (cases "confirmTx env t u (py_id p) (cf_providerPaymentId body)
    (if cf_simulateFailure body then P_FAILED else P_COMPLETED) (cf_simulateFailure body) s")
  case (Inl e)
  then show ?thesis using assms by (simp add: confirmCommit_def bindH_def transaction_def bookKept_refl)
next
  case (Inr y)
  obtain res s1 where y: "y = (res, s1)" by (cases y)
  have kept: "bookKept s s1"
    using confirmTx_book [OF Inr [unfolded y] inv] by (simp add: bookKept_def)
  have fr: "payments (snd (emitPaymentCompleted env t ev s1)) = payments s1 \<and> refunds (snd (emitPaymentCompleted env t ev s1)) = refunds s1" for ev
    using emitters_frame(4) [of env t ev s1] by auto
  have "payments s' = payments s1 \<and> refunds s' = refunds s1"
    using assms(1) Inr y
    by (cases res) (auto simp: confirmCommit_def bindH_def transaction_def orThrowH_def throwH_def returnH_def thenH_def
        announcePayment_def writeH_def fr split: if_splits)
  then show ?thesis using kept bookKept_frame by blast
qed

section \<open>Refunds\<close>

lemma refundedCents_sum:
  "refundedCents i t s = sum_list (map rf_amount
     (filter (\<lambda>r. rf_paymentId r = i \<and> rf_tenantId r = t \<and> rf_status r = R_COMPLETED) (refunds s)))"
proof -
  have add: "foldl (\<lambda>acc r. acc + rf_amount r) a xs = a + sum_list (map rf_amount xs)" for a xs
    by (induction xs arbitrary: a) simp_all
  show ?thesis by (simp add: refundedCents_def completedRefunds_def add)
qed

lemma refundedCents_for: "refundedCents (py_id p) (py_tenantId p) s = refundsFor (refunds s) p"
  by (simp add: refundedCents_sum refundsFor_def)

lemma razorpayRefund_Inr:
  "razorpayRefund env rm cred x a n s = Inr (r, s') \<Longrightarrow> s' = s\<lparr>drawn := Suc (drawn s)\<rparr>"
  by (auto simp: razorpayRefund_def outcome razorpayCall_eq split: sum.splits)

lemma refundAtProvider_Inr:
  assumes "refundAtProvider env rm p a reason s = Inr (r, s')"
  shows "s' = s\<lparr>drawn := Suc (drawn s)\<rparr>"
proof (cases "credentialsFor rm (py_tenantId p) True s")
  case (Inl e)
  then show ?thesis using assms by (simp add: refundAtProvider_def outcome)
next
  case (Inr c)
  then show ?thesis using assms
    by (cases c) (auto simp: refundAtProvider_def outcome dest: razorpayRefund_Inr)
qed

lemma providerRefund_Inr:
  "(if c then refundAtProvider env rm p a reason s = Inr (r, s') else r = own \<and> s' = s) \<Longrightarrow> \<exists>n. s' = s\<lparr>drawn := n\<rparr>"
  by (auto dest!: refundAtProvider_Inr split: if_splits intro: exI [of _ "drawn s"])

lemma insertRefund_Inr:
  "insertRefund env row s = Inr (q, s') \<longleftrightarrow>
     q = row\<lparr>rf_id := env_uuid env (drawn s)\<rparr>
     \<and> \<not> list_ex (\<lambda>x. rf_tenantId x = rf_tenantId row \<and> rf_providerRefundId x = rf_providerRefundId row) (refunds s)
     \<and> s' = s\<lparr>drawn := Suc (drawn s), refunds := refunds s @ [q]\<rparr>"
  by (auto simp: insertRefund_def outcome freshId_eq)

lemma refundTx_Inr:
  assumes "refundTx env rm t u i req amt reason meta s = Inr (r, s')"
  obtains fresh row txn where
    "findPayment i t s = Some fresh" "py_status fresh \<in> {P_COMPLETED, P_PARTIALLY_REFUNDED}"
    "req \<le> py_amount fresh - refundedCents i t s"
    "refunds s' = refunds s @ [row]" "rf_paymentId row = i" "rf_tenantId row = t" "rf_status row = R_COMPLETED"
    "rf_amount row = req"
    "payments s' = updateMany (\<lambda>p. py_id p = i) (\<lambda>p. p\<lparr>py_status :=
        (if amt \<le> refundedCents i t s + req then P_REFUNDED else P_PARTIALLY_REFUNDED)\<rparr>) (payments s)"
    "paymentTxs s' = paymentTxs s @ [txn]" "pt_paymentId txn = i" "pt_type txn = X_REFUND" "pt_amount txn = req"
    "r = findPayment i t s'"
  using assms unfolding refundTx_def Let_def
  apply (simp only: outcome shortId_eq insertRefund_Inr insertPaymentTx_Inr updatePayment_Inr sum.inject prod.inject)
  apply (elim exE conjE)
  apply (drule providerRefund_Inr)
  apply (elim exE)
  apply (clarsimp simp: findPayment_def)
  apply (metis linorder_not_less)
  done

lemma refundTx_book:
  assumes run: "refundTx env rm t u i req amt reason meta s = Inr (r, s')" and inv: "paymentsInv s"
    and req: "0 < req" and amt: "\<forall>p. findPayment i t s = Some p \<longrightarrow> py_amount p = amt"
  shows "bookKept s s'"
proof -
  from run obtain fresh row txn where fresh: "findPayment i t s = Some fresh"
      "py_status fresh \<in> {P_COMPLETED, P_PARTIALLY_REFUNDED}" "req \<le> py_amount fresh - refundedCents i t s"
    and rs: "refunds s' = refunds s @ [row]" "rf_paymentId row = i" "rf_tenantId row = t" "rf_status row = R_COMPLETED"
      "rf_amount row = req"
    and ps: "payments s' = updateMany (\<lambda>p. py_id p = i) (\<lambda>p. p\<lparr>py_status :=
        (if amt \<le> refundedCents i t s + req then P_REFUNDED else P_PARTIALLY_REFUNDED)\<rparr>) (payments s)"
    by (rule refundTx_Inr)
  let ?st = "if amt \<le> refundedCents i t s + req then P_REFUNDED else P_PARTIALLY_REFUNDED"
  have mem: "fresh \<in> set (payments s)" "py_id fresh = i" "py_tenantId fresh = t"
    using findPayment_SomeD [OF fresh(1)] by simp_all
  have only: "p = fresh" if "p \<in> set (payments s)" "py_id p = i" for p
    using unique_payment [of "payments s" p fresh] that inv mem by (simp add: paymentsInv_def bookOk_def)
  have sum: "refundedCents i t s = refundsFor (refunds s) fresh"
    using refundedCents_for [of fresh s] mem by simp
  have ok: "paymentOk (refunds s) fresh" using inv mem by (simp add: paymentsInv_def bookOk_def)
  have good: "goodChange p (p\<lparr>py_status := ?st\<rparr>)" if "p \<in> set (payments s)" "py_id p = i" for p
    using only [OF that] fresh(2) by (auto simp: goodChange_def isValidPayTransition_def PAYMENT_TRANSITIONS_def)
  have "bookOk (payments s') (refunds s')"
    unfolding ps
  proof (rule bookOk_update)
    show "bookOk (payments s) (refunds s)" using inv by (simp add: paymentsInv_def)
  next
    fix p assume p: "p \<in> set (payments s)" "py_id p = i"
    have "refundsFor (refunds s') (p\<lparr>py_status := ?st\<rparr>) = refundsFor (refunds s) fresh + req"
      using only [OF p] mem rs by (simp add: refundsFor_append refundsFor_same [of "fresh\<lparr>py_status := ?st\<rparr>" fresh])
    then show "paymentOk (refunds s') (p\<lparr>py_status := ?st\<rparr>)"
      using ok only [OF p] fresh(3) req amt fresh(1) unfolding sum paymentOk_def by auto
  next
    fix p assume "p \<in> set (payments s)" "py_id p \<noteq> i"
    then show "refundsFor (refunds s') p = refundsFor (refunds s) p" by (simp add: rs(1,2) refundsFor_append)
  next
    fix r' assume "r' \<in> set (refunds s')"
    then show "r' \<in> set (refunds s) \<or> rf_paymentId r' = i \<and> (\<exists>p \<in> set (payments s). py_id p = i)"
      using rs(1,2) mem by auto
  qed (rule good)
  moreover have "evolves (payments s) (payments s')" unfolding ps by (rule evolves_updateMany) (rule good)
  ultimately show ?thesis by (simp add: bookKept_def paymentsInv_def)
qed

lemma refundPayment_Inr:
  assumes "refundPayment env rm t u i body s = (Inr r, s')"
  obtains payment where "findPayment i t s = Some payment" "0 < cents (rb_amount body)"
    "refundTx env rm t u i (cents (rb_amount body)) (py_amount payment) (nonEmpty (rb_reason body))
       (jsOr (rb_metadata body) (JObj [])) s = Inr (r, s')"
  using assms by (auto simp: refundPayment_def refundCheck_def refundCommit_def getPayment_def Let_def outcome)

lemma refundPayment_Inl: "refundPayment env rm t u i body s = (Inl e, s') \<Longrightarrow> s' = s"
  by (auto simp: refundPayment_def refundCheck_def refundCommit_def getPayment_def Let_def outcome)

lemma refundPayment_book:
  assumes "refundPayment env rm t u i body s = (r, s')" and "paymentsInv s"
  shows "bookKept s s'"
proof (cases r)
  case (Inl e)
  then show ?thesis using assms refundPayment_Inl bookKept_refl by blast
next
  case (Inr x)
  from assms(1)[unfolded Inr] obtain payment where p: "findPayment i t s = Some payment" "0 < cents (rb_amount body)"
    and tx: "refundTx env rm t u i (cents (rb_amount body)) (py_amount payment) (nonEmpty (rb_reason body))
       (jsOr (rb_metadata body) (JObj [])) s = Inr (x, s')"
    by (rule refundPayment_Inr)
  show ?thesis by (rule refundTx_book [OF tx assms(2) p(2)]) (simp add: p(1))
qed

lemma refundCheck_Inr:
  "refundCheck t i body s = (Inr amt, s') \<Longrightarrow> s' = s \<and> 0 < cents (rb_amount body)
     \<and> (\<exists>p \<in> set (payments s). py_id p = i \<and> py_amount p = amt)"
  by (auto simp: refundCheck_def getPayment_def Let_def outcome dest: findPayment_SomeD)

text \<open>The commit keeps the book whatever happened since the check, as the payment keeps its amount.\<close>

lemma refundCommit_book:
  assumes run: "refundCommit env rm t u i body amt s = (r, s')" and inv: "paymentsInv s"
    and pos: "0 < cents (rb_amount body)" and amt: "\<exists>p \<in> set (payments s). py_id p = i \<and> py_amount p = amt"
  shows "bookKept s s'"
proof (cases r)
  case (Inl e)
  then show ?thesis using run inv by (auto simp: refundCommit_def outcome bookKept_refl)
next
  case (Inr x)
  from run[unfolded Inr] have tx: "refundTx env rm t u i (cents (rb_amount body)) amt (nonEmpty (rb_reason body))
      (jsOr (rb_metadata body) (JObj [])) s = Inr (x, s')" by (simp add: refundCommit_def outcome)
  have "py_amount p = amt" if "findPayment i t s = Some p" for p
    using amt findPayment_SomeD [OF that] inv unique_payment [of "payments s" p]
    by (auto simp: paymentsInv_def bookOk_def)
  then show ?thesis using refundTx_book [OF tx inv pos] by blast
qed

section \<open>Webhook deliveries\<close>

lemma insertWebhookEvent_Inr:
  "insertWebhookEvent w s = Inr (u, s') \<longleftrightarrow>
     \<not> list_ex (\<lambda>e. we_eventId e = we_eventId w) (webhookEvents s) \<and> s' = s\<lparr>webhookEvents := webhookEvents s @ [w]\<rparr>"
  by (auto simp: insertWebhookEvent_def outcome)

lemma applyWebhook_Inr:
  assumes "applyWebhook env t e w st i s = Inr (u, s')" and "paymentsInv s" and "st \<noteq> P_PARTIALLY_REFUNDED"
  shows "bookKept s s' \<and> webhookEvents s' = webhookEvents s"
proof (cases "\<exists>fresh. findPayment i t s = Some fresh \<and> isValidPayTransition (py_status fresh) st")
  case True
  then obtain fresh where fresh: "findPayment i t s = Some fresh" "isValidPayTransition (py_status fresh) st" by blast
  have mem: "fresh \<in> set (payments s)" "py_id fresh = i"
    using findPayment_SomeD [OF fresh(1)] by simp_all
  have only: "p = fresh" if "p \<in> set (payments s)" "py_id p = i" for p
    using unique_payment [of "payments s" p fresh] that assms(2) mem by (simp add: paymentsInv_def bookOk_def)
  have ps: "payments s' = updateMany (\<lambda>p. py_id p = i) (\<lambda>p. p\<lparr>py_status := st\<rparr>) (payments s)"
    and fr: "refunds s' = refunds s" "webhookEvents s' = webhookEvents s"
    using assms(1) fresh by (auto simp: applyWebhook_def outcome updatePayment_Inr insertPaymentTx_Inr split: if_splits)
  have good: "goodChange p (p\<lparr>py_status := st\<rparr>)" if "p \<in> set (payments s)" "py_id p = i" for p
    using only [OF that] fresh(2) by (simp add: goodChange_def)
  have "bookOk (payments s') (refunds s')"
    unfolding ps fr by (rule bookOk_status) (use assms(2,3) good in \<open>auto simp: paymentsInv_def\<close>)
  moreover have "evolves (payments s) (payments s')" unfolding ps by (rule evolves_updateMany) (rule good)
  ultimately show ?thesis by (simp add: bookKept_def paymentsInv_def fr)
next
  case False
  then have "s' = s" using assms(1) by (auto simp: applyWebhook_def outcome split: option.splits)
  then show ?thesis using assms(2) bookKept_refl by blast
qed

lemma targetStatusOf_range: "targetStatusOf ty = Some st \<Longrightarrow> st \<noteq> P_PARTIALLY_REFUNDED"
  by (auto simp: targetStatusOf_def split: if_splits)

lemma webhookTx_Inr:
  assumes "webhookTx env t e w p s = Inr (r, s')" and "paymentsInv s"
  shows "bookKept s s' \<and> (\<exists>row. we_eventId row = e \<and> webhookEvents s' = webhookEvents s @ [row])
    \<and> \<not> list_ex (\<lambda>x. we_eventId x = e) (webhookEvents s)"
proof -
  define row where "row = \<lparr>we_tenantId = t, we_paymentId = Some (py_id p), we_eventId = e,
        we_providerEventId = Some e, we_providerPaymentId = orElse (nonEmpty (wp_providerPaymentId w)) (py_providerPaymentId p),
        we_type = wp_type w, we_payload = wp_json w\<rparr>"
  have row: "we_eventId row = e" "\<not> list_ex (\<lambda>x. we_eventId x = e) (webhookEvents s)"
    and rest: "(case targetStatusOf (wp_type w) of None \<Rightarrow> returnT ()
        | Some st \<Rightarrow> (if isValidPayTransition (py_status p) st then applyWebhook env t e w st (py_id p) else returnT ()))
        (s\<lparr>webhookEvents := webhookEvents s @ [row]\<rparr>) = Inr ((), s')"
    using assms(1) by (auto simp: webhookTx_def outcome insertWebhookEvent_Inr row_def)
  let ?s = "s\<lparr>webhookEvents := webhookEvents s @ [row]\<rparr>"
  have inv: "paymentsInv ?s" using assms(2) by (simp add: paymentsInv_def)
  have "bookKept ?s s' \<and> webhookEvents s' = webhookEvents ?s"
    using rest applyWebhook_Inr [OF _ inv targetStatusOf_range] bookKept_refl [OF inv]
    by (auto simp: outcome split: option.splits if_splits)
  then show ?thesis using row by (auto simp: bookKept_def)
qed

lemma announcePayment_run:
  obtains s1 where "announcePayment env t p b s = (Inr (), s1)" "payments s1 = payments s" "refunds s1 = refunds s"
    "webhookEvents s1 = webhookEvents s" "paymentTxs s1 = paymentTxs s"
  using emitters_frame(4) [of env t "paymentEvent t p b" s] that by (auto simp: announcePayment_def writeH_def)

lemma processWebhook_outcome:
  assumes "processWebhook env t e w p s = (r, s')"
  shows "(\<exists>c s1. webhookTx env t e w p s = Inr (c, s1) \<and> r = Inr \<lparr>wr_payment = c, wr_duplicate = False\<rparr>
            \<and> payments s' = payments s1 \<and> refunds s' = refunds s1 \<and> webhookEvents s' = webhookEvents s1
            \<and> paymentTxs s' = paymentTxs s1)
       \<or> (\<exists>x. webhookTx env t e w p s = Inl x \<and> s' = s
            \<and> r = (if isDuplicateError x then Inr \<lparr>wr_payment = findPayment (py_id p) t s, wr_duplicate = True\<rparr> else Inl x))"
proof (cases "webhookTx env t e w p s")
  case (Inl x)
  then show ?thesis using assms
    by (auto simp: processWebhook_def catchH_def bindH_def transaction_def readH_def returnH_def throwH_def split: if_splits)
next
  case (Inr y)
  obtain c s1 where y: "y = (c, s1)" by (cases y)
  show ?thesis
  proof (cases "\<exists>q. c = Some q \<and> py_status q = P_COMPLETED \<and> py_status p \<noteq> P_COMPLETED")
    case True
    then obtain q where q: "c = Some q" "py_status q = P_COMPLETED" "py_status p \<noteq> P_COMPLETED" by blast
    show ?thesis
      by (rule announcePayment_run [of env t q False s1])
        (use assms Inr y q in \<open>auto simp: processWebhook_def catchH_def bindH_def thenH_def transaction_def returnH_def\<close>)
  next
    case False
    then show ?thesis using assms Inr y
      by (auto simp: processWebhook_def catchH_def bindH_def thenH_def transaction_def returnH_def split: option.splits if_splits)
  qed
qed

lemma processWebhook_book:
  assumes "processWebhook env t e w p s = (r, s')" and "paymentsInv s"
  shows "bookKept s s'"
  using processWebhook_outcome [OF assms(1)]
proof (elim disjE exE conjE)
  fix c s1
  assume tx: "webhookTx env t e w p s = Inr (c, s1)" and fr: "payments s' = payments s1" "refunds s' = refunds s1"
  then show ?thesis using webhookTx_Inr [OF tx assms(2)] by (auto intro: bookKept_frame)
qed (simp add: bookKept_refl assms(2))

lemma handleWebhook_cases:
  assumes "handleWebhook env rm raw w sig s = (r, s')"
  shows "(\<exists>e. r = Inl e) \<and> s' = s
    \<or> (\<exists>e t p. nonEmpty (wp_eventId w) = Some e \<and> verifyWebhookSignature rm raw sig \<and> resolveWebhook w s = (Some t, Some p)
         \<and> processWebhook env t e w p s = (r, s'))"
proof (cases r)
  case (Inl x)
  then show ?thesis using assms by (cases "resolveWebhook w s") (auto simp: handleWebhook_def outcome)
next
  case (Inr x)
  then show ?thesis using assms by (cases "resolveWebhook w s") (auto simp: handleWebhook_def outcome)
qed

lemma handleWebhook_book:
  assumes "handleWebhook env rm raw w sig s = (r, s')" and "paymentsInv s"
  shows "bookKept s s'"
  using handleWebhook_cases [OF assms(1)] processWebhook_book [OF _ assms(2)] bookKept_refl [OF assms(2)] by blast

end
