(* ===== verification/Razorpay.thy ===== *)
theory Razorpay
  imports Payments
begin

text \<open>
  Online payment through the shop's own Razorpay account
  (src/src/modules/payments/razorpay-payments.service.js): starting a payment, the checkout's answer from
  the browser, the webhook, and the one operation both use to mark a payment paid. \<open>JSON.parse\<close> of
  the webhook body is the argument \<open>parse\<close>. The properties of all payment operations are at the end.
\<close>

section \<open>start\<close>

definition PAID_EVENTS :: "string list" where
  "PAID_EVENTS = [''payment.captured'', ''order.paid'']"

record checkout =
  ck_keyId :: string
  ck_orderId :: "string option"
  ck_amount :: jsval
  ck_currency :: string
  ck_details :: jsval

definition checkoutFor :: "payment_row \<Rightarrow> credentials \<Rightarrow> jsval \<Rightarrow> checkout" where
  "checkoutFor payment cred details =
     \<lparr>ck_keyId = cr_keyId cred, ck_orderId = py_providerPaymentId payment,
      ck_amount = jsNullish (jget ''amountMinor'' (py_metadata payment))
        (jsInt (toMinorUnits (py_amount payment) (py_currency payment))),
      ck_currency = py_currency payment, ck_details = details\<rparr>"

definition enabledFor :: "remote \<Rightarrow> string \<Rightarrow> db \<Rightarrow> error + bool" where
  "enabledFor rm tenantId s = (case credentialsFor rm tenantId False s of Inl e \<Rightarrow> Inl e | Inr c \<Rightarrow> Inr (c \<noteq> None))"

text \<open>The new Razorpay order and the pending payment for it.\<close>

definition newAttempt ::
  "env \<Rightarrow> remote \<Rightarrow> credentials \<Rightarrow> string \<Rightarrow> order_row \<Rightarrow> string option \<Rightarrow> string \<Rightarrow> int \<Rightarrow> payment_row dbtx" where
  "newAttempt env rm cred tenantId order userId currency amountMinor =
     bindT (razorpayOrder env rm cred amountMinor currency (or_id order)
       (JObj [(''tenantId'', JStr tenantId), (''orderId'', JStr (or_id order))])) (\<lambda>rzpOrder.
     bindT (insertPayment env \<lparr>py_id = [], py_tenantId = tenantId, py_orderId = or_id order,
        py_amount = or_total order, py_currency = currency, py_status = P_PENDING, py_provider = RAZORPAY,
        py_providerPaymentId = jsStr (jget ''id'' rzpOrder),
        py_metadata = JObj [(''razorpayOrderId'', jget ''id'' rzpOrder), (''amountMinor'', jsInt amountMinor),
          (''keyId'', JStr (cr_keyId cred)), (''mode'', JStr (modeOf (cr_keyId cred)))],
        py_deletedAt = None\<rparr>) (\<lambda>created.
     thenT (insertPaymentTx \<lparr>pt_tenantId = tenantId, pt_paymentId = py_id created, pt_type = X_CHARGE,
        pt_amount = py_amount created, pt_currency = currency, pt_status = P_PENDING,
        pt_providerTransactionId = jsStr (jget ''id'' rzpOrder),
        pt_metadata = JObj [(''initiatedBy'', jsOfOpt userId), (''razorpayOrderId'', jget ''id'' rzpOrder)]\<rparr>)
      (returnT created)))"

definition startTx ::
  "env \<Rightarrow> remote \<Rightarrow> credentials \<Rightarrow> string \<Rightarrow> string \<Rightarrow> string option \<Rightarrow> payment_row dbtx" where
  "startTx env rm cred tenantId orderId userId =
     bindT (readT (findOrder orderId tenantId)) (\<lambda>found.
     bindT (orThrowT found (AppError 404 ''ORDER_NOT_FOUND'')) (\<lambda>order.
     thenT (throwIfT (or_status order \<notin> set ORDER_ELIGIBLE_STATUSES) (AppError 409 ''ORDER_NOT_ELIGIBLE''))
    (bindT (readT (\<lambda>s. list_ex (\<lambda>p. py_orderId p = orderId \<and> py_tenantId p = tenantId
          \<and> py_status p = P_COMPLETED \<and> py_deletedAt p = None) (payments s))) (\<lambda>paid.
     thenT (throwIfT paid (AppError 409 ''ORDER_ALREADY_PAID''))
    (let currency = orEmpty (orElse (Some (or_currency order)) (Some ''INR''));
         amountMinor = toMinorUnits (or_total order) currency
     in thenT (throwIfT (amountMinor \<le> 0) (AppError 400 ''INVALID_AMOUNT''))
       (bindT (readT (\<lambda>s. find (\<lambda>p. py_orderId p = orderId \<and> py_tenantId p = tenantId \<and> isOpen p
            \<and> py_deletedAt p = None) (payments s))) (\<lambda>active.
        case active of
          Some a \<Rightarrow>
            (if py_provider a = RAZORPAY \<and> jget ''amountMinor'' (py_metadata a) = jsInt amountMinor
                \<and> jget ''keyId'' (py_metadata a) = JStr (cr_keyId cred)
             then returnT a
             else thenT (updatePayment (py_id a) (\<lambda>p. p\<lparr>py_status := P_CANCELLED\<rparr>))
               (newAttempt env rm cred tenantId order userId currency amountMinor))
        | None \<Rightarrow> newAttempt env rm cred tenantId order userId currency amountMinor)))))))"

abbreviation gatewayNotConfigured :: error where
  "gatewayNotConfigured \<equiv> AppError 409 ''PAYMENT_GATEWAY_NOT_CONFIGURED''"

definition credentialsOrThrow :: "remote \<Rightarrow> string \<Rightarrow> bool \<Rightarrow> credentials dbio" where
  "credentialsOrThrow rm tenantId includeDisabled =
     bindH (readH (credentialsFor rm tenantId includeDisabled)) (\<lambda>c.
     bindH (liftH c) (\<lambda>found. orThrowH found gatewayNotConfigured))"

definition startPayment ::
  "env \<Rightarrow> remote \<Rightarrow> string \<Rightarrow> string \<Rightarrow> string option \<Rightarrow> jsval \<Rightarrow> (payment_row \<times> checkout) dbio" where
  "startPayment env rm tenantId orderId userId details =
     bindH (credentialsOrThrow rm tenantId False) (\<lambda>cred.
     bindH (transaction (startTx env rm cred tenantId orderId userId)) (\<lambda>payment.
     returnH (payment, checkoutFor payment cred details)))"

section \<open>markPaid and verify\<close>

definition chargeRow ::
  "string \<Rightarrow> payment_row \<Rightarrow> string \<Rightarrow> (string \<times> jsval) list \<Rightarrow> payment_tx_row" where
  "chargeRow tenantId fresh razorpayPaymentId details =
     \<lparr>pt_tenantId = tenantId, pt_paymentId = py_id fresh, pt_type = X_CHARGE, pt_amount = py_amount fresh,
      pt_currency = py_currency fresh, pt_status = P_COMPLETED, pt_providerTransactionId = Some razorpayPaymentId,
      pt_metadata = JObj ((''razorpayOrderId'', jsOfOpt (py_providerPaymentId fresh)) # details)\<rparr>"

definition markPaidTx ::
  "string \<Rightarrow> string \<Rightarrow> string \<Rightarrow> string \<Rightarrow> string option \<Rightarrow> unit dbtx \<Rightarrow> (payment_row option \<times> bool) dbtx" where
  "markPaidTx tenantId paymentId razorpayPaymentId via userId inTx =
     thenT inTx
    (bindT (readT (findPayment paymentId tenantId)) (\<lambda>found.
     bindT (orThrowT found (JsError ''Cannot read properties of null'')) (\<lambda>fresh.
     if isOpen fresh
     then thenT (updatePayment paymentId (\<lambda>p. p\<lparr>py_status := P_COMPLETED,
            py_metadata := spread (py_metadata fresh)
              [(''razorpayPaymentId'', JStr razorpayPaymentId), (''paidVia'', JStr via)]\<rparr>))
         (thenT (insertPaymentTx (chargeRow tenantId fresh razorpayPaymentId
            [(''via'', JStr via), (''confirmedBy'', jsOfOpt userId)]))
         (bindT (readT (findPayment paymentId tenantId)) (\<lambda>r. returnT (r, True))))
     else if jget ''razorpayPaymentId'' (py_metadata fresh) \<noteq> JStr razorpayPaymentId
     then thenT (insertPaymentTx (chargeRow tenantId fresh razorpayPaymentId
            [(''via'', JStr via), (''note'', JStr ''Captured after the payment was closed; refund needed'')]))
         (bindT (readT (findPayment paymentId tenantId)) (\<lambda>r. returnT (r, False)))
     else bindT (readT (findPayment paymentId tenantId)) (\<lambda>r. returnT (r, False)))))"

definition markPaid ::
  "env \<Rightarrow> string \<Rightarrow> string \<Rightarrow> string \<Rightarrow> string \<Rightarrow> string option \<Rightarrow> unit dbtx \<Rightarrow> payment_row option dbio" where
  "markPaid env tenantId paymentId razorpayPaymentId via userId inTx =
     bindH (transaction (markPaidTx tenantId paymentId razorpayPaymentId via userId inTx)) (\<lambda>(result, changed).
     thenH (case result of
         Some r \<Rightarrow> (if changed then announcePayment env tenantId r True else returnH ())
       | None \<Rightarrow> returnH ())
      (returnH result))"

record checkout_answer =
  ca_razorpayOrderId :: string
  ca_razorpayPaymentId :: string
  ca_razorpaySignature :: "string option"

text \<open>\<open>scope\<close> is the further condition on the payment the caller passes (\<open>where\<close>).\<close>

definition verifyPayment ::
  "env \<Rightarrow> remote \<Rightarrow> string \<Rightarrow> string \<Rightarrow> checkout_answer \<Rightarrow> string option \<Rightarrow> (payment_row \<Rightarrow> db \<Rightarrow> bool)
     \<Rightarrow> payment_row option dbio" where
  "verifyPayment env rm tenantId paymentId answer userId scope =
     bindH (readH (\<lambda>s. find (\<lambda>p. py_id p = paymentId \<and> py_tenantId p = tenantId \<and> py_provider p = RAZORPAY
        \<and> py_deletedAt p = None \<and> scope p s) (payments s))) (\<lambda>found.
     bindH (orThrowH found paymentNotFound) (\<lambda>payment.
     bindH (credentialsOrThrow rm tenantId True) (\<lambda>cred.
     thenH (throwIfH (py_providerPaymentId payment \<noteq> Some (ca_razorpayOrderId answer)
        \<or> \<not> checkoutSignatureValid rm (cr_keySecret cred) (ca_razorpayOrderId answer) (ca_razorpayPaymentId answer)
             (ca_razorpaySignature answer)) (AppError 400 ''INVALID_PAYMENT_SIGNATURE''))
       (markPaid env tenantId (py_id payment) (ca_razorpayPaymentId answer) ''checkout'' userId (returnT ())))))"

section \<open>The Razorpay webhook\<close>

record razorpay_result =
  rr_handled :: bool
  rr_duplicate :: bool
  rr_paymentId :: "string option"
  rr_status :: "payment_status option"

text \<open>\<open>Number(v)\<close> for the values JSON can hold; not a number is absent and differs from every number.\<close>

definition jsNumber :: "jsval \<Rightarrow> rat option" where
  "jsNumber v = (case v of
       JNum n \<Rightarrow> Some n
     | JNull \<Rightarrow> Some 0
     | JBool b \<Rightarrow> Some (if b then 1 else 0)
     | JStr x \<Rightarrow> (if x \<noteq> [] \<and> list_all is_digit x then Some (of_nat (digits_val x)) else None)
     | _ \<Rightarrow> None)"

definition sameNumber :: "jsval \<Rightarrow> jsval \<Rightarrow> bool" where
  "sameNumber a b = (case (jsNumber a, jsNumber b) of (Some x, Some y) \<Rightarrow> x = y | _ \<Rightarrow> False)"

definition recordEvent :: "string \<Rightarrow> string \<Rightarrow> string option \<Rightarrow> jsval \<Rightarrow> string option \<Rightarrow> unit dbtx" where
  "recordEvent tenantId eventId eventIdHeader event paymentId =
     insertWebhookEvent \<lparr>we_tenantId = tenantId, we_paymentId = paymentId, we_eventId = eventId,
       we_providerEventId = nonEmpty eventIdHeader,
       we_providerPaymentId = nonEmpty (jsStr (jget ''order_id'' (jget ''entity'' (jget ''payment'' (jget ''payload'' event))))),
       we_type = orEmpty (orElse (jsStr (jget ''event'' event)) (Some ''unknown'')), we_payload = event\<rparr>"

definition keepRecord :: "unit dbtx \<Rightarrow> razorpay_result dbio" where
  "keepRecord record =
     catchH (thenH (transaction record)
        (returnH \<lparr>rr_handled = False, rr_duplicate = False, rr_paymentId = None, rr_status = None\<rparr>))
       (\<lambda>err. if isUniqueViolation err
          then returnH \<lparr>rr_handled = False, rr_duplicate = True, rr_paymentId = None, rr_status = None\<rparr>
          else throwH err)"

definition payFromWebhook ::
  "env \<Rightarrow> string \<Rightarrow> payment_row \<Rightarrow> string \<Rightarrow> unit dbtx \<Rightarrow> razorpay_result dbio" where
  "payFromWebhook env tenantId payment razorpayPaymentId record =
     catchH
      (bindH (markPaid env tenantId (py_id payment) razorpayPaymentId ''webhook'' None record) (\<lambda>updated.
       bindH (orThrowH updated (JsError ''Cannot read properties of null'')) (\<lambda>u.
       returnH \<lparr>rr_handled = True, rr_duplicate = False, rr_paymentId = Some (py_id u), rr_status = Some (py_status u)\<rparr>)))
      (\<lambda>err. if isUniqueViolation err
         then returnH \<lparr>rr_handled = True, rr_duplicate = True, rr_paymentId = Some (py_id payment), rr_status = None\<rparr>
         else throwH err)"

definition expectedAmount :: "payment_row \<Rightarrow> jsval" where
  "expectedAmount payment = jsNullish (jget ''amountMinor'' (py_metadata payment))
     (jsInt (toMinorUnits (py_amount payment) (py_currency payment)))"

definition razorpayWebhook ::
  "env \<Rightarrow> remote \<Rightarrow> (string \<Rightarrow> jsval option) \<Rightarrow> string \<Rightarrow> string \<Rightarrow> string option \<Rightarrow> string option \<Rightarrow> razorpay_result dbio" where
  "razorpayWebhook env rm parse tenantId rawBody signature eventIdHeader =
     bindH (readH (\<lambda>s. case credentialsFor rm tenantId True s of Inl e \<Rightarrow> None | Inr c \<Rightarrow> c)) (\<lambda>cred.
     thenH (throwIfH (\<not> (case cred of
           None \<Rightarrow> False
         | Some c \<Rightarrow> isSet (cr_webhookSecret c) \<and> rawBody \<noteq> []
             \<and> webhookSignatureValid rm (cr_webhookSecret c) rawBody signature)) (AppError 401 ''INVALID_WEBHOOK_SIGNATURE''))
    (bindH (orThrowH (parse rawBody) (AppError 400 ''INVALID_WEBHOOK'')) (\<lambda>event.
     let entity = jget ''entity'' (jget ''payment'' (jget ''payload'' event));
         eventId = ''razorpay:'' @ (case nonEmpty eventIdHeader of Some h \<Rightarrow> h | None \<Rightarrow> rm_sha256 rm rawBody)
     in bindH (readH (\<lambda>s. case nonEmpty (jsStr (jget ''order_id'' entity)) of
             None \<Rightarrow> None
           | Some x \<Rightarrow> find (\<lambda>p. py_tenantId p = tenantId \<and> py_provider p = RAZORPAY
               \<and> py_providerPaymentId p = Some x) (payments s))) (\<lambda>found.
        case found of
          Some payment \<Rightarrow>
            (if (case jsStr (jget ''event'' event) of None \<Rightarrow> False | Some e \<Rightarrow> e \<in> set PAID_EVENTS)
                \<and> sameNumber (jget ''amount'' entity) (expectedAmount payment)
             then payFromWebhook env tenantId payment (orEmpty (jsStr (jget ''id'' entity)))
                    (recordEvent tenantId eventId eventIdHeader event (Some (py_id payment)))
             else keepRecord (recordEvent tenantId eventId eventIdHeader event (Some (py_id payment))))
        | None \<Rightarrow> keepRecord (recordEvent tenantId eventId eventIdHeader event None)))))"

section \<open>The Razorpay operations and the book\<close>

lemma toMinorUnits_pos: "0 < toMinorUnits amount currency \<Longrightarrow> 0 < amount"
proof (rule ccontr)
  assume pos: "0 < toMinorUnits amount currency" and "\<not> 0 < amount"
  then have "(of_int amount :: rat) / 100 * 10 ^ minorUnitDigits currency \<le> of_int 0"
    by (simp add: mult_nonpos_nonneg)
  then have "toMinorUnits amount currency \<le> js_round (of_int 0)" unfolding toMinorUnits_def by (rule js_round_mono)
  then show False using pos by (simp only: js_round_of_int)
qed

lemma razorpayOrder_Inr:
  "razorpayOrder env rm cred a c r n s = Inr (x, s') \<Longrightarrow> s' = s\<lparr>drawn := Suc (drawn s)\<rparr>"
  by (auto simp: razorpayOrder_def outcome razorpayCall_eq split: sum.splits)

lemma newAttempt_Inr:
  assumes "newAttempt env rm cred t order u cur am s = Inr (p, s')"
  shows "payments s' = payments s @ [p] \<and> refunds s' = refunds s \<and> (\<forall>q \<in> set (payments s). py_id q \<noteq> py_id p)
    \<and> py_tenantId p = t \<and> py_orderId p = or_id order \<and> py_amount p = or_total order \<and> py_status p = P_PENDING
    \<and> py_deletedAt p = None \<and> py_provider p = RAZORPAY \<and> jget ''amountMinor'' (py_metadata p) = jsInt am"
  using assms
  by (auto simp: newAttempt_def outcome insertPayment_Inr insertPaymentTx_Inr dest!: razorpayOrder_Inr)

lemma open_status: "isOpen p \<Longrightarrow> isValidPayTransition (py_status p) P_CANCELLED"
  "isOpen p \<Longrightarrow> isValidPayTransition (py_status p) P_COMPLETED"
  by (auto simp: isOpen_def isValidPayTransition_def PAYMENT_TRANSITIONS_def)

lemma startTx_book:
  assumes run: "startTx env rm cred t x u s = Inr (p, s')" and inv: "paymentsInv s"
  shows "bookKept s s' \<and> isOpen p \<and> p \<in> set (payments s') \<and> py_orderId p = x \<and> py_tenantId p = t"
proof -
  let ?new = "\<lambda>order cur am s1. newAttempt env rm cred t order u cur am s1 = Inr (p, s')"
  let ?active = "find (\<lambda>p. py_orderId p = x \<and> py_tenantId p = t \<and> isOpen p \<and> py_deletedAt p = None) (payments s)"
  have "\<exists>order cur am. findOrder x t s = Some order \<and> 0 < am \<and> am = toMinorUnits (or_total order) cur
    \<and> ((\<exists>a. ?active = Some a \<and> (p = a \<and> s' = s
          \<or> (\<exists>s1. updatePayment (py_id a) (\<lambda>p. p\<lparr>py_status := P_CANCELLED\<rparr>) s = Inr ((), s1) \<and> ?new order cur am s1)))
      \<or> ?active = None \<and> ?new order cur am s)"
  proof (cases ?active)
    case None
    then show ?thesis using run by (auto simp: startTx_def Let_def outcome not_le)
  next
    case (Some a)
    then show ?thesis using run
      by (auto simp: startTx_def Let_def outcome not_le split: if_splits)
  qed
  then obtain order cur am where order: "findOrder x t s = Some order" "0 < am" "am = toMinorUnits (or_total order) cur"
    and cases: "(\<exists>a. ?active = Some a \<and> (p = a \<and> s' = s
          \<or> (\<exists>s1. updatePayment (py_id a) (\<lambda>p. p\<lparr>py_status := P_CANCELLED\<rparr>) s = Inr ((), s1) \<and> ?new order cur am s1)))
      \<or> ?active = None \<and> ?new order cur am s"
    by blast
  have oid: "or_id order = x" using order(1) by (auto simp: findOrder_def dest: find_SomeD)
  have pos: "0 < or_total order" using order(2,3) by (simp add: toMinorUnits_pos)
  have insert: "bookKept s s'" "isOpen p \<and> p \<in> set (payments s') \<and> py_orderId p = x \<and> py_tenantId p = t"
    if "?new order cur am s1" "bookKept s s1" for s1
  proof -
    note n = newAttempt_Inr [OF that(1)]
    have "bookOk (payments s1 @ [p]) (refunds s1)"
      using that(2) n pos by (intro bookOk_insert) (auto simp: bookKept_def paymentsInv_def)
    then show "bookKept s s'"
      using that(2) n evolves_append [of "payments s1" "[p]"]
      by (auto simp: bookKept_def paymentsInv_def intro: evolves_trans)
    show "isOpen p \<and> p \<in> set (payments s') \<and> py_orderId p = x \<and> py_tenantId p = t"
      using n oid by (simp add: isOpen_def)
  qed
  show ?thesis
    using cases
  proof (elim disjE exE conjE)
    fix a
    assume "find (\<lambda>p. py_orderId p = x \<and> py_tenantId p = t \<and> isOpen p \<and> py_deletedAt p = None) (payments s) = Some a"
      and "p = a" "s' = s"
    then show ?thesis using inv bookKept_refl by (auto dest: find_SomeD)
  next
    fix a s1
    assume a: "find (\<lambda>p. py_orderId p = x \<and> py_tenantId p = t \<and> isOpen p \<and> py_deletedAt p = None) (payments s) = Some a"
      and up: "updatePayment (py_id a) (\<lambda>p. p\<lparr>py_status := P_CANCELLED\<rparr>) s = Inr ((), s1)" and new: "?new order cur am s1"
    have mem: "a \<in> set (payments s)" "isOpen a" "py_orderId a = x" "py_tenantId a = t"
      using a by (auto dest: find_SomeD)
    have s1: "s1 = s\<lparr>payments := updateMany (\<lambda>p. py_id p = py_id a) (\<lambda>p. p\<lparr>py_status := P_CANCELLED\<rparr>) (payments s)\<rparr>"
      using up by (simp add: updatePayment_Inr)
    have only: "q = a" if "q \<in> set (payments s)" "py_id q = py_id a" for q
      using unique_payment [of "payments s" q a] that inv mem by (simp add: paymentsInv_def bookOk_def)
    have good: "goodChange q (q\<lparr>py_status := P_CANCELLED\<rparr>)" if "q \<in> set (payments s)" "py_id q = py_id a" for q
      using only [OF that] open_status mem by (simp add: goodChange_def)
    have "bookKept s s1"
      unfolding bookKept_def s1 paymentsInv_def
      by (intro conjI) (use inv good in \<open>auto simp: paymentsInv_def intro!: bookOk_status evolves_updateMany\<close>)
    then show ?thesis using insert [OF new] by blast
  next
    assume none: "find (\<lambda>p. py_orderId p = x \<and> py_tenantId p = t \<and> isOpen p \<and> py_deletedAt p = None) (payments s) = None"
      and new: "?new order cur am s"
    show ?thesis using insert [OF new bookKept_refl [OF inv]] by blast
  qed
qed

lemma markPaidTx_book:
  assumes run: "markPaidTx t i rid via u inTx s = Inr ((r, changed), s')" and inv: "paymentsInv s"
    and hook: "\<And>v s1. inTx s = Inr (v, s1) \<Longrightarrow> payments s1 = payments s \<and> refunds s1 = refunds s"
  shows "bookKept s s' \<and> r = findPayment i t s'
    \<and> (changed = (\<exists>fresh. findPayment i t s = Some fresh \<and> isOpen fresh))
    \<and> (\<not> changed \<longrightarrow> payments s' = payments s)"
proof -
  from run obtain v s1 fresh where h: "inTx s = Inr (v, s1)" and fresh: "findPayment i t s1 = Some fresh"
    and rest: "r = findPayment i t s'" "refunds s' = refunds s1" "changed = isOpen fresh"
      "payments s' = (if isOpen fresh then updateMany (\<lambda>p. py_id p = i) (\<lambda>p. p\<lparr>py_status := P_COMPLETED,
          py_metadata := spread (py_metadata fresh) [(''razorpayPaymentId'', JStr rid), (''paidVia'', JStr via)]\<rparr>) (payments s1)
        else payments s1)"
    by (auto simp: markPaidTx_def outcome updatePayment_Inr insertPaymentTx_Inr findPayment_def split: if_splits)
  note fr = hook [OF h]
  have fresh': "findPayment i t s = Some fresh" using fresh fr by (simp add: findPayment_def)
  have mem: "fresh \<in> set (payments s)" "py_id fresh = i" using findPayment_SomeD [OF fresh'] by simp_all
  have only: "q = fresh" if "q \<in> set (payments s)" "py_id q = i" for q
    using unique_payment [of "payments s" q fresh] that inv mem by (simp add: paymentsInv_def bookOk_def)
  show ?thesis
  proof (cases "isOpen fresh")
    case True
    let ?f = "\<lambda>p. p\<lparr>py_status := P_COMPLETED,
          py_metadata := spread (py_metadata fresh) [(''razorpayPaymentId'', JStr rid), (''paidVia'', JStr via)]\<rparr>"
    have good: "goodChange q (?f q)" if "q \<in> set (payments s)" "py_id q = i" for q
      using only [OF that] open_status True by (simp add: goodChange_def)
    have ps: "payments s' = updateMany (\<lambda>p. py_id p = i) ?f (payments s)" using rest True fr by simp
    have "bookOk (payments s') (refunds s')"
      unfolding ps rest(2) fr [THEN conjunct2]
      by (rule bookOk_status) (use inv good in \<open>auto simp: paymentsInv_def\<close>)
    moreover have "evolves (payments s) (payments s')" unfolding ps by (rule evolves_updateMany) (rule good)
    ultimately show ?thesis using rest fresh' True by (simp add: bookKept_def paymentsInv_def)
  next
    case False
    then have "payments s' = payments s" "refunds s' = refunds s" using rest fr by simp_all
    then show ?thesis
      using rest fresh' False bookKept_frame [OF bookKept_refl [OF inv]] by auto
  qed
qed

lemma markPaid_cases:
  assumes "markPaid env t i rid via u inTx s = (r, s')"
  shows "(\<exists>e. r = Inl e \<and> s' = s \<and> markPaidTx t i rid via u inTx s = Inl e)
    \<or> (\<exists>res ch s1. r = Inr res \<and> markPaidTx t i rid via u inTx s = Inr ((res, ch), s1)
        \<and> payments s' = payments s1 \<and> refunds s' = refunds s1 \<and> paymentTxs s' = paymentTxs s1)"
proof (cases "markPaidTx t i rid via u inTx s")
  case (Inl e)
  then show ?thesis using assms by (simp add: markPaid_def bindH_def transaction_def)
next
  case (Inr y)
  obtain res ch s1 where y: "y = ((res, ch), s1)" by (cases y) auto
  show ?thesis
  proof (cases "\<exists>q. res = Some q \<and> ch")
    case True
    then obtain q where q: "res = Some q" "ch" by blast
    show ?thesis
      by (rule announcePayment_run [of env t q True s1])
        (use assms Inr y q in \<open>auto simp: markPaid_def bindH_def thenH_def transaction_def returnH_def\<close>)
  next
    case False
    then show ?thesis using assms Inr y
      by (auto simp: markPaid_def bindH_def thenH_def transaction_def returnH_def split: option.splits if_splits)
  qed
qed

lemma markPaid_book:
  assumes "markPaid env t i rid via u inTx s = (r, s')" and "paymentsInv s"
    and "\<And>v s1. inTx s = Inr (v, s1) \<Longrightarrow> payments s1 = payments s \<and> refunds s1 = refunds s"
  shows "bookKept s s'"
  using markPaid_cases [OF assms(1)]
proof (elim disjE exE conjE)
  fix res ch s1
  assume tx: "markPaidTx t i rid via u inTx s = Inr ((res, ch), s1)" and "payments s' = payments s1" "refunds s' = refunds s1"
  then show ?thesis using markPaidTx_book [OF tx assms(2) assms(3)] by (auto intro: bookKept_frame)
qed (simp add: bookKept_refl assms(2))

lemma credentialsOrThrow_state: "credentialsOrThrow rm t d s = (r, s') \<Longrightarrow> s' = s"
  by (cases r) (auto simp: credentialsOrThrow_def outcome)

lemma startPayment_book:
  assumes "startPayment env rm t x u d s = (r, s')" and "paymentsInv s"
  shows "bookKept s s'"
proof (cases r)
  case (Inl e)
  then have "s' = s" using assms(1) by (auto simp: startPayment_def outcome dest: credentialsOrThrow_state)
  then show ?thesis using assms(2) bookKept_refl by simp
next
  case (Inr y)
  then show ?thesis using assms startTx_book
    by (auto simp: startPayment_def outcome dest!: credentialsOrThrow_state)
qed

lemma verifyPayment_book:
  assumes "verifyPayment env rm t i answer u scope s = (r, s')" and "paymentsInv s"
  shows "bookKept s s'"
proof (cases r)
  case (Inl e)
  have mp: "markPaid env t j rid via u (returnT ()) s = (Inl e, s') \<Longrightarrow> s' = s" for j rid via
    by (drule markPaid_cases) auto
  have "s' = s" using assms(1) Inl
    by (auto simp: verifyPayment_def outcome dest: credentialsOrThrow_state mp)
  then show ?thesis using assms(2) bookKept_refl by simp
next
  case (Inr y)
  then obtain j where "markPaid env t j (ca_razorpayPaymentId answer) ''checkout'' u (returnT ()) s = (Inr y, s')"
    using assms(1) by (auto simp: verifyPayment_def outcome dest!: credentialsOrThrow_state)
  then show ?thesis by (rule markPaid_book) (use assms(2) in \<open>auto simp: outcome\<close>)
qed

lemma recordEvent_Inr:
  "recordEvent t e h ev p s = Inr (v, s1) \<Longrightarrow> payments s1 = payments s \<and> refunds s1 = refunds s \<and> paymentTxs s1 = paymentTxs s"
  by (auto simp: recordEvent_def insertWebhookEvent_Inr)

lemma keepRecord_book:
  assumes "keepRecord (recordEvent t e h ev p) s = (r, s')" and "paymentsInv s"
  shows "bookKept s s'"
proof (cases "recordEvent t e h ev p s")
  case (Inl x)
  then have "s' = s" using assms(1)
    by (auto simp: keepRecord_def catchH_def thenH_def bindH_def transaction_def returnH_def throwH_def split: if_splits)
  then show ?thesis using assms(2) bookKept_refl by simp
next
  case (Inr y)
  obtain v s1 where y: "y = (v, s1)" by (cases y)
  then have "s' = s1" using assms(1) Inr
    by (auto simp: keepRecord_def catchH_def thenH_def bindH_def transaction_def returnH_def)
  then show ?thesis using recordEvent_Inr [of t e h ev p s v s1] Inr y bookKept_frame [OF bookKept_refl [OF assms(2)]] by simp
qed

lemma payFromWebhook_book:
  assumes "payFromWebhook env t p rid (recordEvent t e h ev q) s = (r, s')" and "paymentsInv s"
  shows "bookKept s s'"
proof -
  obtain m s1 where m: "markPaid env t (py_id p) rid ''webhook'' None (recordEvent t e h ev q) s = (m, s1)"
    by (cases "markPaid env t (py_id p) rid ''webhook'' None (recordEvent t e h ev q) s")
  have "s' = s1" using assms(1) m
    by (cases m) (auto simp: payFromWebhook_def catchH_def bindH_def orThrowH_def returnH_def throwH_def
        split: if_splits option.splits)
  moreover have "bookKept s s1" using recordEvent_Inr by (intro markPaid_book [OF m assms(2)]) blast
  ultimately show ?thesis by simp
qed

lemma razorpayWebhook_cases:
  assumes "razorpayWebhook env rm parse t raw sig h s = (r, s')"
  shows "(\<exists>e. r = Inl e) \<and> s' = s
    \<or> (\<exists>cred. credentialsFor rm t True s = Inr (Some cred) \<and> webhookSignatureValid rm (cr_webhookSecret cred) raw sig)
      \<and> (\<exists>e ev p q. keepRecord (recordEvent t e h ev q) s = (r, s')
           \<or> payFromWebhook env t p (orEmpty (jsStr (jget ''id'' (jget ''entity'' (jget ''payment'' (jget ''payload'' ev))))))
                (recordEvent t e h ev q) s = (r, s')
             \<and> sameNumber (jget ''amount'' (jget ''entity'' (jget ''payment'' (jget ''payload'' ev)))) (expectedAmount p))"
proof -
  let ?c = "case credentialsFor rm t True s of Inl e \<Rightarrow> None | Inr c \<Rightarrow> c"
  show ?thesis
  proof (cases "\<exists>cred ev. ?c = Some cred \<and> isSet (cr_webhookSecret cred) \<and> raw \<noteq> []
      \<and> webhookSignatureValid rm (cr_webhookSecret cred) raw sig \<and> parse raw = Some ev")
    case True
    then obtain cred ev where c: "?c = Some cred" "isSet (cr_webhookSecret cred)" "raw \<noteq> []"
      "webhookSignatureValid rm (cr_webhookSecret cred) raw sig" "parse raw = Some ev" by blast
    then have "credentialsFor rm t True s = Inr (Some cred)" by (auto split: sum.splits)
    with c assms show ?thesis
      by (auto simp: razorpayWebhook_def Let_def bindH_def thenH_def readH_def throwIfH_def orThrowH_def returnH_def
          split: option.splits if_splits)
  next
    case False
    then have "(\<exists>e. r = Inl e) \<and> s' = s" using assms
      by (auto simp: razorpayWebhook_def Let_def bindH_def thenH_def readH_def throwIfH_def orThrowH_def returnH_def throwH_def
          split: option.splits if_splits sum.splits)
    then show ?thesis by blast
  qed
qed

lemma razorpayWebhook_book:
  assumes "razorpayWebhook env rm parse t raw sig h s = (r, s')" and "paymentsInv s"
  shows "bookKept s s'"
  using razorpayWebhook_cases [OF assms(1)] bookKept_refl [OF assms(2)] keepRecord_book [OF _ assms(2)]
    payFromWebhook_book [OF _ assms(2)] by blast

lemma isDuplicateError_simps: "isDuplicateError uniqueViolation" "\<not> isDuplicateError recordNotFound"
  "\<not> isDuplicateError (AppError n c)"
  by (simp_all add: isDuplicateError_def)

lemma webhookTx_env: "webhookTx env = webhookTx env'"
proof -
  have same: "applyWebhook env t e w st i = applyWebhook env' t e w st i" for t e w st i
    by (simp add: applyWebhook_def)
  show ?thesis by (intro ext) (simp only: webhookTx_def same)
qed

section \<open>Any sequence of payment operations\<close>

datatype pay_op =
    OpCreate create_payment_body
  | OpConfirm confirm_body
  | OpRefund string refund_body
  | OpWebhook string webhook_payload "string option"
  | OpStart string jsval
  | OpVerify string checkout_answer
  | OpRazorpay string "string option" "string option"

fun perform ::
  "provider \<Rightarrow> remote \<Rightarrow> (string \<Rightarrow> jsval option) \<Rightarrow> env \<times> string \<times> string option \<times> pay_op \<Rightarrow> db \<Rightarrow> db" where
  "perform pv rm parse (env, t, u, OpCreate b) s = snd (createPayment env pv t u b s)"
| "perform pv rm parse (env, t, u, OpConfirm b) s = snd (confirmPayment env t u b s)"
| "perform pv rm parse (env, t, u, OpRefund i b) s = snd (refundPayment env rm t u i b s)"
| "perform pv rm parse (env, t, u, OpWebhook raw w sig) s = snd (handleWebhook env rm raw w sig s)"
| "perform pv rm parse (env, t, u, OpStart x d) s = snd (startPayment env rm t x u d s)"
| "perform pv rm parse (env, t, u, OpVerify i a) s = snd (verifyPayment env rm t i a u (\<lambda>_ _. True) s)"
| "perform pv rm parse (env, t, u, OpRazorpay raw sig h) s = snd (razorpayWebhook env rm parse t raw sig h s)"

fun performAll ::
  "provider \<Rightarrow> remote \<Rightarrow> (string \<Rightarrow> jsval option) \<Rightarrow> (env \<times> string \<times> string option \<times> pay_op) list \<Rightarrow> db \<Rightarrow> db" where
  "performAll pv rm parse [] s = s"
| "performAll pv rm parse (c # cs) s = performAll pv rm parse cs (perform pv rm parse c s)"

lemma perform_book: "paymentsInv s \<Longrightarrow> bookKept s (perform pv rm parse c s)"
proof (induction pv rm parse c s rule: perform.induct)
  case (1 pv rm parse env t u b s)
  then show ?case using createPayment_book [of env pv t u b s] by (cases "createPayment env pv t u b s") (simp add: bookKept_def)
next
  case (2 pv rm parse env t u b s)
  then show ?case using confirmPayment_book [of env t u b s] by (cases "confirmPayment env t u b s") simp
next
  case (3 pv rm parse env t u i b s)
  then show ?case using refundPayment_book [of env rm t u i b s] by (cases "refundPayment env rm t u i b s") simp
next
  case (4 pv rm parse env t u raw w sig s)
  then show ?case using handleWebhook_book [of env rm raw w sig s] by (cases "handleWebhook env rm raw w sig s") simp
next
  case (5 pv rm parse env t u x d s)
  then show ?case using startPayment_book [of env rm t x u d s] by (cases "startPayment env rm t x u d s") simp
next
  case (6 pv rm parse env t u i a s)
  then show ?case using verifyPayment_book [of env rm t i a u "\<lambda>_ _. True" s]
    by (cases "verifyPayment env rm t i a u (\<lambda>_ _. True) s") simp
next
  case (7 pv rm parse env t u raw sig h s)
  then show ?case using razorpayWebhook_book [of env rm parse t raw sig h s]
    by (cases "razorpayWebhook env rm parse t raw sig h s") simp
qed

lemma performAll_book: "paymentsInv s \<Longrightarrow> bookKept s (performAll pv rm parse cs s)"
proof (induction cs arbitrary: s)
  case Nil
  then show ?case by (simp add: bookKept_refl)
next
  case (Cons c cs)
  let ?m = "perform pv rm parse c s"
  have m: "bookKept s ?m" using Cons.prems by (rule perform_book)
  then have "bookKept ?m (performAll pv rm parse cs ?m)" by (intro Cons.IH) (simp add: bookKept_def)
  with m show ?case by (auto simp: bookKept_def intro: evolves_trans)
qed

section \<open>Requests that overlap\<close>

text \<open>
  A request of the payment service reads and checks first and commits in a transaction later; other requests run in
  between. \<open>pay_held\<close> is what such a request knows after its check: nothing in it is read again by a creation. A
  step runs a whole request, lets a request check and wait, or commits one of the requests that wait, whose check may be
  arbitrarily old. (A request may wait and commit more than once here, which the code does not do.) The Razorpay operations
  run whole: they begin their transactions by locking the row and read it again.
\<close>

datatype pay_held =
    HeldCreate string jsval create_check
  | HeldConfirm string confirm_body payment_row
  | HeldRefund string string refund_body paise
  | HeldWebhook string string webhook_payload payment_row

fun checkPay :: "provider \<Rightarrow> remote \<Rightarrow> env \<Rightarrow> string \<Rightarrow> pay_op \<Rightarrow> db \<Rightarrow> pay_held option" where
  "checkPay pv rm env t (OpCreate b) s =
     (case fst (createPaymentCheck env pv t b s) of Inl e \<Rightarrow> None | Inr c \<Rightarrow> Some (HeldCreate t (cp_metadata b) c))"
| "checkPay pv rm env t (OpConfirm b) s =
     (case lookupPayment (cf_paymentId b) (cf_providerPaymentId b) t s of
        None \<Rightarrow> None | Some p \<Rightarrow> if isOpen p then Some (HeldConfirm t b p) else None)"
| "checkPay pv rm env t (OpRefund i b) s =
     (case fst (refundCheck t i b s) of Inl e \<Rightarrow> None | Inr amt \<Rightarrow> Some (HeldRefund t i b amt))"
| "checkPay pv rm env t (OpWebhook raw w sig) s =
     (case (nonEmpty (wp_eventId w), resolveWebhook w s) of
        (Some e, (Some t', Some p)) \<Rightarrow> if verifyWebhookSignature rm raw sig then Some (HeldWebhook t' e w p) else None
      | _ \<Rightarrow> None)"
| "checkPay pv rm env t _ s = None"

fun commitPay :: "remote \<Rightarrow> env \<Rightarrow> string option \<Rightarrow> pay_held \<Rightarrow> db \<Rightarrow> db" where
  "commitPay rm env u (HeldCreate t m c) s = snd (createPaymentCommit env t u m c s)"
| "commitPay rm env u (HeldConfirm t b p) s = snd (confirmCommit env t u b p s)"
| "commitPay rm env u (HeldRefund t i b amt) s = snd (refundCommit env rm t u i b amt s)"
| "commitPay rm env u (HeldWebhook t e w p) s = snd (processWebhook env t e w p s)"

datatype pay_step =
    RunPay "env \<times> string \<times> string option \<times> pay_op"
  | CheckPay env string pay_op
  | CommitPay env "string option" nat

fun payStep ::
  "provider \<Rightarrow> remote \<Rightarrow> (string \<Rightarrow> jsval option) \<Rightarrow> pay_step \<Rightarrow> pay_held list \<times> db \<Rightarrow> pay_held list \<times> db" where
  "payStep pv rm parse (RunPay c) (hs, s) = (hs, perform pv rm parse c s)"
| "payStep pv rm parse (CheckPay env t op) (hs, s) =
     (case checkPay pv rm env t op s of None \<Rightarrow> (hs, s) | Some h \<Rightarrow> (hs @ [h], s))"
| "payStep pv rm parse (CommitPay env u n) (hs, s) =
     (if n < length hs then (hs, commitPay rm env u (hs ! n) s) else (hs, s))"

fun paySteps ::
  "provider \<Rightarrow> remote \<Rightarrow> (string \<Rightarrow> jsval option) \<Rightarrow> pay_step list \<Rightarrow> pay_held list \<times> db \<Rightarrow> pay_held list \<times> db" where
  "paySteps pv rm parse [] w = w"
| "paySteps pv rm parse (c # cs) w = paySteps pv rm parse cs (payStep pv rm parse c w)"

text \<open>What stays true of a check however old it is.\<close>

fun heldOk :: "db \<Rightarrow> pay_held \<Rightarrow> bool" where
  "heldOk s (HeldCreate t m c) = (0 < or_total (cc_order c))"
| "heldOk s (HeldRefund t i b amt) = (0 < cents (rb_amount b) \<and> (\<exists>p \<in> set (payments s). py_id p = i \<and> py_amount p = amt))"
| "heldOk s _ = True"

lemma heldOk_later: "heldOk s h \<Longrightarrow> evolves (payments s) (payments s') \<Longrightarrow> heldOk s' h"
  by (cases h) (force simp: evolves_def later_def)+

lemma checkPay_ok:
  assumes "checkPay pv rm env t op s = Some h"
  shows "heldOk s h"
proof (cases op)
  case (OpCreate b)
  obtain r s1 where "createPaymentCheck env pv t b s = (r, s1)" by fastforce
  then show ?thesis using assms OpCreate createPaymentCheck_Inr by (cases r) auto
next
  case (OpRefund i b)
  obtain r s1 where "refundCheck t i b s = (r, s1)" by fastforce
  then show ?thesis using assms OpRefund refundCheck_Inr by (cases r) auto
qed (use assms in \<open>auto split: option.splits if_splits prod.splits\<close>)

lemma commitPay_book:
  assumes "paymentsInv s" and "heldOk s h"
  shows "bookKept s (commitPay rm env u h s)"
proof (cases h)
  case (HeldCreate t m c)
  then show ?thesis
    using createPaymentCommit_book [OF prod.collapse [symmetric]] assms by (simp add: bookKept_def)
next
  case (HeldConfirm t b p)
  then show ?thesis using confirmCommit_book [OF prod.collapse [symmetric] assms(1)] by simp
next
  case (HeldRefund t i b amt)
  then show ?thesis using refundCommit_book [OF prod.collapse [symmetric] assms(1)] assms(2) by simp
next
  case (HeldWebhook t e w p)
  then show ?thesis using processWebhook_book [OF prod.collapse [symmetric] assms(1)] by simp
qed

lemma payStep_book:
  assumes "paymentsInv s" and "\<forall>h \<in> set hs. heldOk s h" and "payStep pv rm parse c (hs, s) = (hs', s')"
  shows "bookKept s s' \<and> (\<forall>h \<in> set hs'. heldOk s' h)"
proof -
  have kept: "bookKept s s' \<and> (\<forall>h \<in> set hs. heldOk s' h)" if "bookKept s s'"
    using that assms(2) heldOk_later by (auto simp: bookKept_def)
  show ?thesis
  proof (cases c)
    case (RunPay c')
    then show ?thesis using assms(3) kept perform_book [OF assms(1), of pv rm parse c'] by auto
  next
    case (CheckPay env t op)
    then show ?thesis
      using assms checkPay_ok [of pv rm env t op s] bookKept_refl [OF assms(1)] by (auto split: option.splits)
  next
    case (CommitPay env u n)
    then show ?thesis
      using assms(2,3) kept commitPay_book [OF assms(1)] bookKept_refl [OF assms(1)] by (auto split: if_splits)
  qed
qed

lemma paySteps_book:
  "paymentsInv s \<Longrightarrow> \<forall>h \<in> set hs. heldOk s h \<Longrightarrow> bookKept s (snd (paySteps pv rm parse cs (hs, s)))"
proof (induction cs arbitrary: hs s)
  case Nil
  then show ?case by (simp add: bookKept_refl)
next
  case (Cons c cs)
  obtain hs1 s1 where one: "payStep pv rm parse c (hs, s) = (hs1, s1)" by fastforce
  note m = payStep_book [OF Cons.prems one]
  then have "bookKept s1 (snd (paySteps pv rm parse cs (hs1, s1)))" by (intro Cons.IH) (auto simp: bookKept_def)
  with m show ?case by (auto simp: one bookKept_def intro: evolves_trans)
qed

section \<open>A paid order to run the operations on\<close>

definition openPayment :: payment_row where
  "openPayment = \<lparr>py_id = ''pay'', py_tenantId = ''t'', py_orderId = ''o'', py_amount = 11800, py_currency = ''INR'',
     py_status = P_PENDING, py_provider = ''mock'', py_providerPaymentId = Some ''ext'', py_metadata = JObj [],
     py_deletedAt = None\<rparr>"

definition payDb :: db where
  "payDb = demoDb\<lparr>orders := [demoOrderRow], payments := [openPayment]\<rparr>"

definition paidDb :: db where
  "paidDb = demoDb\<lparr>orders := [demoOrderRow], payments := [openPayment\<lparr>py_status := P_COMPLETED\<rparr>]\<rparr>"

lemma payDb_inv: "paymentsInv payDb" "paymentsInv paidDb"
  by (simp_all add: paymentsInv_def bookOk_def payDb_def paidDb_def demoDb_def emptyDb_def openPayment_def paymentOk_def
      refundsFor_def openFor_def)

definition mockProvider :: provider where
  "mockProvider = \<lparr>pv_name = ''mock'', pv_charge = (\<lambda>a c o1 t k. Inr None)\<rparr>"

definition halfRefund :: refund_body where
  "halfRefund = \<lparr>rb_amount = ''59.00'', rb_reason = None, rb_metadata = JNull\<rparr>"

definition paidEvent :: webhook_payload where
  "paidEvent = \<lparr>wp_eventId = Some ''e'', wp_type = ''payment.succeeded'', wp_paymentId = Some ''pay'',
     wp_providerPaymentId = None, wp_providerTransactionId = None, wp_amount = None, wp_tenantId = Some ''t'',
     wp_json = JNull\<rparr>"

definition forged :: checkout_answer where
  "forged = \<lparr>ca_razorpayOrderId = ''o'', ca_razorpayPaymentId = ''p'', ca_razorpaySignature = Some ''x''\<rparr>"

definition demoGateway :: gateway_row where
  "demoGateway = \<lparr>gw_tenantId = ''t'', gw_provider = ''razorpay'', gw_keyId = ''rzp_test_abcdef'',
     gw_keySecretEncrypted = ''v1:30:31:32'', gw_webhookSecretEncrypted = None, gw_enabled = True, gw_updatedAt = 0\<rparr>"

definition paidShop :: db where
  "paidShop = paidDb\<lparr>gateways := [demoGateway]\<rparr>"

definition payBody :: create_payment_body where
  "payBody = \<lparr>cp_orderId = ''o'', cp_provider = None, cp_currency = None, cp_metadata = JNull\<rparr>"

section \<open>Properties\<close>


text \<open>Three refunds of half a payment are all checked before the first is committed: all three are let through by their checks,
  and the third is refused by its transaction.\<close>

definition overlappingRefunds :: "pay_step list" where
  "overlappingRefunds =
     [CheckPay demoEnv ''t'' (OpRefund ''pay'' halfRefund), CheckPay demoEnv ''t'' (OpRefund ''pay'' halfRefund),
      CheckPay demoEnv ''t'' (OpRefund ''pay'' halfRefund), CommitPay demoEnv None 0, CommitPay demoEnv None 1,
      CommitPay demoEnv None 2]"


text \<open>An order can have two open payments. Nothing in the transaction of a creation looks for one again: two creations that
  both checked before either committed both open a payment of the order.\<close>

theorem overlapping_creations_open_two_payments:
  assumes one: "createPaymentCheck env pv t b s = (Inr c, s)" and two: "createPaymentCheck env' pv t b' s = (Inr c', s)"
    and "cp_orderId b' = cp_orderId b"
    and run: "createPaymentCommit env t u m c s = (Inr r, s1)" "createPaymentCommit env' t u' m' c' s1 = (Inr r', s2)"
  shows "openFor (cp_orderId b) t (payments s) = [] \<and> length (openFor (cp_orderId b) t (payments s2)) = 2"
proof -
  let ?x = "cp_orderId b"
  note c = createPaymentCheck_Inr [OF one] createPaymentCheck_Inr [OF two]
  then have oid: "or_id (cc_order c) = ?x" "or_id (cc_order c') = ?x"
    using assms(3) by (auto simp: findOrder_def dest: find_SomeD)
  have adds: "length (openFor ?x t (payments s'')) = Suc (length (openFor ?x t (payments s')))"
    if "createPaymentCommit en t us me ck s' = (Inr re, s'')" "or_id (cc_order ck) = ?x" for en us me ck s' re s''
  proof -
    have "createPaymentTx en t us (cc_order ck) (cc_currency ck) (cc_provider ck) (cc_externalId ck) (jsOr me (JObj [])) s' = Inr (re, s'')"
      using that(1) by (simp add: createPaymentCommit_def outcome)
    from createPaymentTx_Inr [OF this] that(2) show ?thesis by (auto simp: openFor_def isOpen_def)
  qed
  show ?thesis using c(1) adds [OF run(1) oid(1)] adds [OF run(2) oid(2)] by simp
qed

lemma overlapping_creations_open_two_payments_witness:
  "\<exists>c r s1 r' s2. createPaymentCheck demoEnv mockProvider ''t'' payBody paidDb = (Inr c, paidDb)
     \<and> createPaymentCommit demoEnv ''t'' None JNull c paidDb = (Inr r, s1)
     \<and> createPaymentCommit demoEnv ''t'' None JNull c s1 = (Inr r', s2)
     \<and> length (openFor ''o'' ''t'' (payments s2)) = 2"
proof -
  let ?c = "\<lparr>cc_order = demoOrderRow, cc_currency = ''INR'', cc_provider = ''mock'', cc_externalId = None\<rparr>"
  have k: "createPaymentCheck demoEnv mockProvider ''t'' payBody paidDb = (Inr ?c, paidDb)"
    by (simp add: createPaymentCheck_def payBody_def mockProvider_def chargeExternally_def findOrder_def findActiveForOrder_def
        isOpen_def paidDb_def openPayment_def demoOrderRow_def demoEnv_def demoDb_def emptyDb_def ORDER_ELIGIBLE_STATUSES_def
        cents_decToString_aux orElse_def orEmpty_def nonEmpty_def Let_def monad_defs)
  note run = createPaymentCommit_def createPaymentTx_def insertPayment_def insertPaymentTx_def shortId_eq freshId_eq nonEmpty_def
    transaction_def Let_def monad_defs providerIdTaken_def
  let ?a = "createPaymentCommit demoEnv ''t'' None JNull ?c paidDb"
  have ok: "succeeded ?a" "succeeded (createPaymentCommit demoEnv ''t'' None JNull ?c (snd ?a))"
    by (simp_all add: run succeeded_def paidDb_def openPayment_def demoDb_def emptyDb_def demoEnv_def)
  obtain r s1 where a: "?a = (Inr r, s1)" by (rule succeededE [OF ok(1)])
  obtain r' s2 where b: "createPaymentCommit demoEnv ''t'' None JNull ?c s1 = (Inr r', s2)"
    using succeededE [OF ok(2)] by (auto simp: a)
  from overlapping_creations_open_two_payments [OF k k refl a b] k a b show ?thesis by (auto simp: payBody_def)
qed



text \<open>What a refund does. A refund that returns records exactly the requested amount as refunded and as a
  transaction, and the payment becomes refunded when the whole amount is back and partially refunded
  otherwise; a request for more than is left is refused and changes nothing.\<close>

theorem refund_effect:
  assumes "paymentsInv s" and "findPayment i t s = Some p"
  shows "(refundPayment env rm t u i body s = (Inr r, s') \<longrightarrow>
      0 < cents (rb_amount body) \<and> refundsFor (refunds s) p + cents (rb_amount body) \<le> py_amount p
      \<and> refundsFor (refunds s') p = refundsFor (refunds s) p + cents (rb_amount body)
      \<and> (\<exists>q. r = Some q \<and> findPayment i t s' = Some q \<and> py_status q =
           (if refundsFor (refunds s) p + cents (rb_amount body) = py_amount p then P_REFUNDED else P_PARTIALLY_REFUNDED))
      \<and> (\<exists>txn. paymentTxs s' = paymentTxs s @ [txn] \<and> pt_type txn = X_REFUND \<and> pt_amount txn = cents (rb_amount body)))
    \<and> (py_status p \<in> {P_COMPLETED, P_PARTIALLY_REFUNDED} \<longrightarrow> py_amount p - refundsFor (refunds s) p < cents (rb_amount body) \<longrightarrow>
         refundPayment env rm t u i body s = (Inl (AppError 409 ''EXCESSIVE_REFUND''), s))"
proof -
  have mem: "py_id p = i" "py_tenantId p = t" "p \<in> set (payments s)" using findPayment_SomeD [OF assms(2)] by simp_all
  have sum: "refundedCents i t s = refundsFor (refunds s) p" using refundedCents_for [of p s] mem by simp
  have bound: "0 \<le> refundsFor (refunds s) p" "refundsFor (refunds s) p \<le> py_amount p"
    using assms(1) mem by (simp_all add: paymentsInv_def bookOk_def paymentOk_def)
  have returned: "0 < cents (rb_amount body) \<and> refundsFor (refunds s) p + cents (rb_amount body) \<le> py_amount p
      \<and> refundsFor (refunds s') p = refundsFor (refunds s) p + cents (rb_amount body)
      \<and> (\<exists>q. r = Some q \<and> findPayment i t s' = Some q \<and> py_status q =
           (if refundsFor (refunds s) p + cents (rb_amount body) = py_amount p then P_REFUNDED else P_PARTIALLY_REFUNDED))
      \<and> (\<exists>txn. paymentTxs s' = paymentTxs s @ [txn] \<and> pt_type txn = X_REFUND \<and> pt_amount txn = cents (rb_amount body))"
    if run: "refundPayment env rm t u i body s = (Inr r, s')"
  proof -
    from run obtain p' where p': "findPayment i t s = Some p'" "0 < cents (rb_amount body)"
      and tx: "refundTx env rm t u i (cents (rb_amount body)) (py_amount p') (nonEmpty (rb_reason body))
        (jsOr (rb_metadata body) (JObj [])) s = Inr (r, s')" by (rule refundPayment_Inr)
    have "p' = p" using p' assms(2) by simp
    let ?st = "if py_amount p \<le> refundedCents i t s + cents (rb_amount body) then P_REFUNDED else P_PARTIALLY_REFUNDED"
    from tx obtain fresh row txn where f: "findPayment i t s = Some fresh"
        "py_status fresh \<in> {P_COMPLETED, P_PARTIALLY_REFUNDED}"
        "cents (rb_amount body) \<le> py_amount fresh - refundedCents i t s"
      and rs: "refunds s' = refunds s @ [row]" "rf_paymentId row = i" "rf_tenantId row = t" "rf_status row = R_COMPLETED"
        "rf_amount row = cents (rb_amount body)"
      and ps: "payments s' = updateMany (\<lambda>p. py_id p = i) (\<lambda>p. p\<lparr>py_status := ?st\<rparr>) (payments s)"
      and txs: "paymentTxs s' = paymentTxs s @ [txn]" "pt_paymentId txn = i" "pt_type txn = X_REFUND"
        "pt_amount txn = cents (rb_amount body)"
      and r: "r = findPayment i t s'"
      unfolding \<open>p' = p\<close> by (rule refundTx_Inr)
    have "fresh = p" using f(1) assms(2) by simp
    have "findPayment i t s' = map_option (\<lambda>p. if py_id p = i then p\<lparr>py_status := ?st\<rparr> else p) (findPayment i t s)"
      unfolding findPayment_def ps by (rule find_updateMany) simp
    then have "findPayment i t s' = Some (p\<lparr>py_status := ?st\<rparr>)" using assms(2) mem by simp
    then show ?thesis
      using r rs txs f(3) p'(2) mem bound unfolding sum \<open>fresh = p\<close> by (auto simp: refundsFor_append)
  qed
  have refused: "refundPayment env rm t u i body s = (Inl (AppError 409 ''EXCESSIVE_REFUND''), s)"
    if "py_status p \<in> {P_COMPLETED, P_PARTIALLY_REFUNDED}" "py_amount p - refundsFor (refunds s) p < cents (rb_amount body)"
    using that bound assms(2)
    by (auto simp: refundPayment_def refundCheck_def refundCommit_def getPayment_def Let_def sum monad_defs)
  show ?thesis using returned refused by blast
qed

lemma refund_effect_witness:
  "\<exists>r s'. refundPayment demoEnv demoRemote ''t'' None ''pay'' halfRefund paidDb = (Inr r, s')
     \<and> refundsFor (refunds s') (openPayment\<lparr>py_status := P_COMPLETED\<rparr>) = 5900"
proof -
  have c: "cents ''59.00'' = 5900" by code_simp
  have f: "findPayment ''pay'' ''t'' paidDb = Some (openPayment\<lparr>py_status := P_COMPLETED\<rparr>)"
    by (simp add: findPayment_def paidDb_def openPayment_def)
  have z0: "refundedCents ''pay'' ''t'' paidDb = 0"
    by (simp add: refundedCents_sum paidDb_def demoDb_def emptyDb_def)
  have mem: "\<exists>p \<in> set (payments paidDb). py_id p = ''pay''" by (simp add: paidDb_def openPayment_def)
  have none: "refunds paidDb = []" "paymentTxs paidDb = []" by (simp_all add: paidDb_def demoDb_def emptyDb_def)
  have "succeeded (refundPayment demoEnv demoRemote ''t'' None ''pay'' halfRefund paidDb)"
    using f mem none
    by (simp add: refundPayment_def refundCheck_def refundCommit_def getPayment_def refundTx_def Let_def halfRefund_def c z0 monad_defs succeeded_def
        openPayment_def RAZORPAY_def shortId_eq insertRefund_def freshId_eq insertPaymentTx_def updatePayment_def
        newProviderIdTaken_def providerIdTaken_def isValidPayTransition_def PAYMENT_TRANSITIONS_def list_ex_iff)
  then obtain r s' where run: "refundPayment demoEnv demoRemote ''t'' None ''pay'' halfRefund paidDb = (Inr r, s')"
    by (rule succeededE)
  have z: "refundsFor (refunds paidDb) (openPayment\<lparr>py_status := P_COMPLETED\<rparr>) = 0"
    by (simp add: refundsFor_def paidDb_def demoDb_def emptyDb_def)
  from refund_effect [OF payDb_inv(2) f, of demoEnv demoRemote None halfRefund r s'] run show ?thesis
    by (simp add: halfRefund_def c z)
qed

text \<open>An accepted delivery is in the table, or its effects clashed with a unique index and left nothing.\<close>

lemma accepted_cases:
  assumes "handleWebhook env rm raw w sig s = (Inr res, s1)" and "paymentsInv s"
  obtains (seen) e where "nonEmpty (wp_eventId w) = Some e" "list_ex (\<lambda>x. we_eventId x = e) (webhookEvents s1)"
    | (clash) e t p x where "nonEmpty (wp_eventId w) = Some e" "resolveWebhook w s = (Some t, Some p)"
        "webhookTx env t e w p s = Inl x" "isDuplicateError x" "s1 = s" "wr_duplicate res"
proof -
  from handleWebhook_cases [OF assms(1)] obtain e t p where e: "nonEmpty (wp_eventId w) = Some e"
    and r: "resolveWebhook w s = (Some t, Some p)" and run: "processWebhook env t e w p s = (Inr res, s1)" by auto
  show thesis
    using processWebhook_outcome [OF run]
  proof (elim disjE exE conjE)
    fix c s0
    assume tx: "webhookTx env t e w p s = Inr (c, s0)" and "webhookEvents s1 = webhookEvents s0"
    then show thesis using webhookTx_Inr [OF tx assms(2)] seen [OF e] by auto
  next
    fix x
    assume "webhookTx env t e w p s = Inl x" "s1 = s"
      and "Inr res = (if isDuplicateError x then Inr \<lparr>wr_payment = findPayment (py_id p) t s, wr_duplicate = True\<rparr> else Inl x)"
    then show thesis using clash [OF e r] by (auto split: if_splits)
  qed
qed

lemma processWebhook_seen:
  assumes "list_ex (\<lambda>x. we_eventId x = e) (webhookEvents s)"
  shows "processWebhook env t e w p s = (Inr \<lparr>wr_payment = findPayment (py_id p) t s, wr_duplicate = True\<rparr>, s)"
proof -
  have "webhookTx env t e w p s = Inl uniqueViolation"
    using assms by (simp add: webhookTx_def insertWebhookEvent_def monad_defs)
  then show ?thesis
    using processWebhook_outcome [of env t e w p s "fst (processWebhook env t e w p s)" "snd (processWebhook env t e w p s)"]
    by (auto simp: isDuplicateError_def prod_eq_iff)
qed

text \<open>C13: a webhook that is delivered again changes nothing. After a delivery was accepted, delivering an event with the
  same event id again leaves the whole database as it is and is answered as a duplicate.\<close>

theorem webhook_redelivery_is_idle:
  assumes "handleWebhook env rm raw w sig s = (Inr res, s1)" and "paymentsInv s"
    and "handleWebhook env2 rm2 raw2 w sig2 s1 = (Inr res2, s2)"
  shows "s2 = s1 \<and> wr_duplicate res2"
  using assms(1,2)
proof (cases rule: accepted_cases)
  case (seen e)
  with handleWebhook_cases [OF assms(3)] obtain t2 p2 where "processWebhook env2 t2 e w p2 s1 = (Inr res2, s2)" by auto
  then show ?thesis by (auto simp: processWebhook_seen [OF seen(2)])
next
  case (clash e t p x)
  with handleWebhook_cases [OF assms(3)] have run: "processWebhook env2 t e w p s = (Inr res2, s2)" by auto
  have "webhookTx env2 t e w p s = Inl x" using clash(3) webhookTx_env [of env2 env] by simp
  with processWebhook_outcome [OF run] clash(4,5) show ?thesis by auto
qed

lemma webhook_redelivery_is_idle_witness:
  "\<exists>res s1 res2 s2. handleWebhook demoEnv demoRemote ''b'' paidEvent (Some (hexEnc ''whb'')) payDb = (Inr res, s1)
     \<and> handleWebhook demoEnv demoRemote ''b'' paidEvent (Some (hexEnc ''whb'')) s1 = (Inr res2, s2) \<and> s2 = s1"
proof -
  let ?run = "handleWebhook demoEnv demoRemote ''b'' paidEvent (Some (hexEnc ''whb''))"
  have sig: "verifyWebhookSignature demoRemote ''b'' (Some (hexEnc ''whb''))"
    by (simp add: verifyWebhookSignature_def demoRemote_def hexBytes_hexEnc hexEnc_word)
  have step: "?run s = processWebhook demoEnv ''t'' ''e'' paidEvent p s"
    if "findPayment ''pay'' ''t'' s = Some p" for s p
    using sig that by (simp add: handleWebhook_def paidEvent_def resolveWebhook_def nonEmpty_def Let_def monad_defs)
  have f: "findPayment ''pay'' ''t'' payDb = Some openPayment" by (simp add: findPayment_def payDb_def openPayment_def)
  have good: "committed (webhookTx demoEnv ''t'' ''e'' paidEvent openPayment payDb)" by code_simp
  then have "succeeded (processWebhook demoEnv ''t'' ''e'' paidEvent openPayment payDb)"
    using processWebhook_outcome [of demoEnv "''t''" "''e''" paidEvent openPayment payDb
        "fst (processWebhook demoEnv ''t'' ''e'' paidEvent openPayment payDb)"
        "snd (processWebhook demoEnv ''t'' ''e'' paidEvent openPayment payDb)"]
    by (auto simp: committed_def succeeded_def split: sum.splits prod.splits)
  then obtain res s1 where r1: "?run payDb = (Inr res, s1)" unfolding step [OF f, symmetric] by (rule succeededE)
  have "\<exists>q \<in> set (payments s1). later openPayment q"
    using handleWebhook_book [OF r1 payDb_inv(1)] by (auto simp: bookKept_def evolves_def payDb_def)
  then obtain p where p: "findPayment ''pay'' ''t'' s1 = Some p"
    by (cases "findPayment ''pay'' ''t'' s1") (auto simp: findPayment_def later_def openPayment_def find_None_iff)
  have e: "nonEmpty (wp_eventId paidEvent) = Some ''e''" by (simp add: paidEvent_def nonEmpty_def)
  have to: "resolveWebhook paidEvent payDb = (Some ''t'', Some openPayment)"
    using f by (simp add: paidEvent_def resolveWebhook_def nonEmpty_def Let_def)
  have seen: "list_ex (\<lambda>x. we_eventId x = ''e'') (webhookEvents s1)"
    using r1 payDb_inv(1) by (cases rule: accepted_cases) (use e to good in \<open>auto simp: committed_def\<close>)
  have "succeeded (?run s1)" unfolding step [OF p] processWebhook_seen [OF seen] by (simp add: succeeded_def)
  then obtain res2 s2 where r2: "?run s1 = (Inr res2, s2)" by (rule succeededE)
  from webhook_redelivery_is_idle [OF r1 payDb_inv(1) r2] r1 r2 show ?thesis by blast
qed

text \<open>Requests that do not carry a valid signature change nothing: the generic webhook, the Razorpay webhook and the
  browser's checkout answer are refused, whatever they claim, and the database stays as it is.\<close>

theorem unsigned_requests_change_nothing:
  assumes "\<not> verifyWebhookSignature rm raw sig"
    and "\<forall>c. credentialsFor rm t True s = Inr (Some c) \<longrightarrow>
           \<not> webhookSignatureValid rm (cr_webhookSecret c) raw sig
           \<and> \<not> checkoutSignatureValid rm (cr_keySecret c) (ca_razorpayOrderId a) (ca_razorpayPaymentId a) (ca_razorpaySignature a)"
  shows "(\<exists>e. handleWebhook env rm raw w sig s = (Inl e, s))
    \<and> (\<exists>e. razorpayWebhook env rm parse t raw sig h s = (Inl e, s))
    \<and> (\<exists>e. verifyPayment env rm t i a u scope s = (Inl e, s))"
proof (intro conjI)
  show "\<exists>e. handleWebhook env rm raw w sig s = (Inl e, s)"
    using handleWebhook_cases [of env rm raw w sig s] assms(1) by (cases "handleWebhook env rm raw w sig s") auto
  show "\<exists>e. razorpayWebhook env rm parse t raw sig h s = (Inl e, s)"
    using razorpayWebhook_cases [of env rm parse t raw sig h s] assms(2)
    by (cases "razorpayWebhook env rm parse t raw sig h s") auto
  show "\<exists>e. verifyPayment env rm t i a u scope s = (Inl e, s)"
  proof (cases "verifyPayment env rm t i a u scope s")
    case (Pair r s')
    show ?thesis
    proof (cases r)
      case (Inl e)
      then show ?thesis using Pair markPaid_cases [of env t _ "ca_razorpayPaymentId a" "''checkout''" u "returnT ()" s r s']
        by (auto simp: verifyPayment_def credentialsOrThrow_def outcome)
    next
      case (Inr x)
      then show ?thesis using Pair assms(2)
        by (auto simp: verifyPayment_def credentialsOrThrow_def outcome)
    qed
  qed
qed

lemma unsigned_requests_change_nothing_witness:
  "\<exists>e. handleWebhook demoEnv demoRemote ''b'' paidEvent (Some ''00'') payDb = (Inl e, payDb)"
proof -
  have a: "\<not> verifyWebhookSignature demoRemote ''b'' (Some ''00'')" by code_simp
  have "credentialsFor demoRemote ''t'' True payDb = Inr None"
    by (simp add: credentialsFor_def findGateway_def payDb_def demoDb_def emptyDb_def)
  then have "\<forall>c. credentialsFor demoRemote ''t'' True payDb = Inr (Some c) \<longrightarrow>
       \<not> webhookSignatureValid demoRemote (cr_webhookSecret c) ''b'' (Some ''00'')
       \<and> \<not> checkoutSignatureValid demoRemote (cr_keySecret c) (ca_razorpayOrderId forged) (ca_razorpayPaymentId forged)
             (ca_razorpaySignature forged)" by simp
  from unsigned_requests_change_nothing [OF a this] show ?thesis by blast
qed

text \<open>Confirming is safe against a second confirmation that read the payment before the first one committed: the
  status is read again under the row lock, so the second transaction is refused, whatever both ask for.\<close>

theorem concurrent_confirmations_settle_once:
  assumes "confirmTx env t u i pid st sim s = Inr (r, s1)" and "st \<in> {P_COMPLETED, P_FAILED}"
    and "findPayment i t s2 = findPayment i t s1"
  shows "confirmTx env' t u' i pid' st' sim' s2 = Inl (AppError 409 ''INVALID_STATE_TRANSITION'')"
proof -
  from confirmTx_Inr [OF assms(1)] obtain fresh where fresh: "findPayment i t s = Some fresh"
    and ps: "payments s1 = updateMany (\<lambda>p. py_id p = i) (\<lambda>p. p\<lparr>py_status := st,
          py_providerPaymentId := orElse pid (py_providerPaymentId fresh)\<rparr>) (payments s)" by blast
  have "findPayment i t s1 = map_option (\<lambda>p. if py_id p = i then p\<lparr>py_status := st,
          py_providerPaymentId := orElse pid (py_providerPaymentId fresh)\<rparr> else p) (findPayment i t s)"
    unfolding findPayment_def ps by (rule find_updateMany) simp
  then obtain q where "findPayment i t s2 = Some q" "py_status q = st"
    using fresh findPayment_SomeD [OF fresh] assms(3) by auto
  then show ?thesis using assms(2) by (auto simp: confirmTx_def isOpen_def monad_defs)
qed

lemma concurrent_confirmations_settle_once_witness:
  "\<exists>r s1. confirmTx demoEnv ''t'' None ''pay'' None P_COMPLETED False payDb = Inr (r, s1)
     \<and> confirmTx demoEnv ''t'' None ''pay'' None P_FAILED True s1 = Inl (AppError 409 ''INVALID_STATE_TRANSITION'')"
proof -
  have "committed (confirmTx demoEnv ''t'' None ''pay'' None P_COMPLETED False payDb)" by code_simp
  then obtain r s1 where run: "confirmTx demoEnv ''t'' None ''pay'' None P_COMPLETED False payDb = Inr (r, s1)"
    by (rule committedE)
  from concurrent_confirmations_settle_once [OF run _ refl, of demoEnv None None P_FAILED True] run show ?thesis by blast
qed

text \<open>
  The two ways a captured payment is reported: the browser's answer, whose signature was verified, and a webhook delivery, which
  records its event in the same transaction. Both have read the payment before; only its id is used.
\<close>

datatype paid_report =
    FromBrowser "string option"
  | FromWebhook string "string option" jsval

fun reportPaid :: "env \<Rightarrow> string \<Rightarrow> string \<Rightarrow> payment_row \<Rightarrow> paid_report \<Rightarrow> db \<Rightarrow> db" where
  "reportPaid env t rid p (FromBrowser u) s = snd (markPaid env t (py_id p) rid ''checkout'' u (returnT ()) s)"
| "reportPaid env t rid p (FromWebhook e h ev) s =
     snd (payFromWebhook env t p rid (recordEvent t e h ev (Some (py_id p))) s)"

fun reportVia :: "paid_report \<Rightarrow> string" where
  "reportVia (FromBrowser u) = ''checkout''"
| "reportVia (FromWebhook e h ev) = ''webhook''"

fun reportUser :: "paid_report \<Rightarrow> string option" where
  "reportUser (FromBrowser u) = u"
| "reportUser (FromWebhook e h ev) = None"

fun reportHook :: "string \<Rightarrow> string \<Rightarrow> paid_report \<Rightarrow> unit dbtx" where
  "reportHook t i (FromBrowser u) = returnT ()"
| "reportHook t i (FromWebhook e h ev) = recordEvent t e h ev (Some i)"

lemma payFromWebhook_state: "snd (payFromWebhook env t p rid record s) = snd (markPaid env t (py_id p) rid ''webhook'' None record s)"
  by (auto simp: payFromWebhook_def catchH_def bindH_def orThrowH_def returnH_def throwH_def split: prod.splits sum.splits option.splits)

lemma reportPaid_markPaid:
  "reportPaid env t rid p a s = snd (markPaid env t (py_id p) rid (reportVia a) (reportUser a) (reportHook t (py_id p) a) s)"
  by (cases a) (simp_all add: payFromWebhook_state)

lemma reportHook_frame:
  "reportHook t i a s = Inr (v, s1) \<Longrightarrow> payments s1 = payments s \<and> paymentTxs s1 = paymentTxs s \<and> sent s1 = sent s"
  by (cases a) (auto simp: outcome recordEvent_def insertWebhookEvent_Inr)

lemma markPaid_closed:
  assumes q: "findPayment i t s = Some q" "py_status q = P_COMPLETED" "jget ''razorpayPaymentId'' (py_metadata q) = JStr rid"
    and hook: "\<And>v s1. h s = Inr (v, s1) \<Longrightarrow> payments s1 = payments s \<and> paymentTxs s1 = paymentTxs s \<and> sent s1 = sent s"
  shows "payments (snd (markPaid env t i rid via u h s)) = payments s
    \<and> paymentTxs (snd (markPaid env t i rid via u h s)) = paymentTxs s \<and> sent (snd (markPaid env t i rid via u h s)) = sent s"
proof (cases "h s")
  case (Inl e)
  then show ?thesis by (simp add: markPaid_def markPaidTx_def bindH_def transaction_def thenT_def bindT_def)
next
  case (Inr y)
  obtain v s1 where y: "y = (v, s1)" by (cases y)
  note fr = hook [OF Inr [unfolded y]]
  have "findPayment i t s1 = Some q" using q(1) fr by (simp add: findPayment_def)
  then have "markPaid env t i rid via u h s = (Inr (Some q), s1)"
    using Inr y q(2,3)
    by (simp add: markPaid_def markPaidTx_def bindH_def thenH_def transaction_def thenT_def bindT_def readT_def orThrowT_def
        returnT_def returnH_def isOpen_def)
  then show ?thesis using fr by simp
qed

text \<open>C14: a payment is marked paid once. The browser's answer and the webhook, or two of either, report the same
  captured payment; both have read the payment before. When one of them has completed the open payment it has written one transaction, the charge, and
  whatever report comes after it, with whatever outcome, changes neither payments nor transactions and announces
  nothing.\<close>

theorem paid_once:
  fixes s s1 s2 :: db and a b :: paid_report and env env' :: env and t rid :: string and p fresh :: payment_row
  assumes "paymentsInv s" and fresh: "findPayment (py_id p) t s = Some fresh" "isOpen fresh"
  defines "s1 \<equiv> reportPaid env t rid p a s" and "s2 \<equiv> reportPaid env' t rid p b s1"
  assumes paid: "map_option py_status (findPayment (py_id p) t s1) = Some P_COMPLETED"
  shows "paymentTxs s1 = paymentTxs s @ [chargeRow t fresh rid [(''via'', JStr (reportVia a)), (''confirmedBy'', jsOfOpt (reportUser a))]]
    \<and> payments s2 = payments s1 \<and> paymentTxs s2 = paymentTxs s1 \<and> sent s2 = sent s1"
proof -
  let ?i = "py_id p" and ?h = "reportHook t (py_id p) a"
  let ?row = "chargeRow t fresh rid [(''via'', JStr (reportVia a)), (''confirmedBy'', jsOfOpt (reportUser a))]"
  let ?meta = "spread (py_metadata fresh) [(''razorpayPaymentId'', JStr rid), (''paidVia'', JStr (reportVia a))]"
  obtain r0 where run: "markPaid env t ?i rid (reportVia a) (reportUser a) ?h s = (r0, s1)"
    unfolding s1_def reportPaid_markPaid by (metis prod.collapse)
  have "s1 \<noteq> s" using paid fresh by (auto simp: isOpen_def)
  then obtain res ch s0 where tx: "markPaidTx t ?i rid (reportVia a) (reportUser a) ?h s = Inr ((res, ch), s0)"
    and eq: "payments s1 = payments s0" "paymentTxs s1 = paymentTxs s0"
    using markPaid_cases [OF run] by auto
  obtain v sh where hook: "?h s = Inr (v, sh)" and same: "payments sh = payments s" "paymentTxs sh = paymentTxs s"
    using tx reportHook_frame [of t ?i a s] by (auto simp: markPaidTx_def outcome)
  have "findPayment ?i t sh = Some fresh" using fresh(1) same by (simp add: findPayment_def)
  then have ps: "payments s1 = updateMany (\<lambda>p. py_id p = ?i) (\<lambda>p. p\<lparr>py_status := P_COMPLETED, py_metadata := ?meta\<rparr>) (payments s)"
    and txs: "paymentTxs s1 = paymentTxs s @ [?row]"
    using tx hook fresh(2) same by (auto simp: markPaidTx_def outcome updatePayment_Inr insertPaymentTx_Inr eq)
  have "findPayment ?i t s1 = map_option (\<lambda>p. if py_id p = ?i then p\<lparr>py_status := P_COMPLETED, py_metadata := ?meta\<rparr> else p)
      (findPayment ?i t s)"
    unfolding findPayment_def ps by (rule find_updateMany) simp
  then obtain q where q: "findPayment ?i t s1 = Some q" "py_status q = P_COMPLETED" "py_metadata q = ?meta"
    using fresh findPayment_SomeD [OF fresh(1)] by auto
  have "jget ''razorpayPaymentId'' (py_metadata q) = JStr rid"
    unfolding q(3) by (cases "py_metadata fresh") (simp_all add: spread_def)
  from markPaid_closed [OF q(1,2) this] reportHook_frame [of t ?i b s1] txs show ?thesis
    unfolding s2_def reportPaid_markPaid by blast
qed

text \<open>The webhook completes the payment, then the browser's answer arrives; and the other way round.\<close>

lemma paid_once_witness:
  "length (paymentTxs (reportPaid demoEnv ''t'' ''rp'' openPayment (FromBrowser None)
       (reportPaid demoEnv ''t'' ''rp'' openPayment (FromWebhook ''e'' None JNull) payDb))) = 1
   \<and> length (paymentTxs (reportPaid demoEnv ''t'' ''rp'' openPayment (FromWebhook ''e'' None JNull)
       (reportPaid demoEnv ''t'' ''rp'' openPayment (FromBrowser None) payDb))) = 1"
proof -
  have f: "findPayment (py_id openPayment) ''t'' payDb = Some openPayment" "isOpen openPayment" "paymentTxs payDb = []"
    by (simp_all add: findPayment_def payDb_def openPayment_def isOpen_def demoDb_def emptyDb_def)
  have paid: "map_option py_status (findPayment (py_id openPayment) ''t'' (reportPaid demoEnv ''t'' ''rp'' openPayment a payDb)) = Some P_COMPLETED"
    if "a \<in> {FromBrowser None, FromWebhook ''e'' None JNull}" for a
  proof -
    let ?tx = "markPaidTx ''t'' (py_id openPayment) ''rp'' (reportVia a) (reportUser a) (reportHook ''t'' (py_id openPayment) a) payDb"
    have "case ?tx of Inl e \<Rightarrow> False | Inr (_, s0) \<Rightarrow> map_option py_status (findPayment (py_id openPayment) ''t'' s0) = Some P_COMPLETED"
      using that by (elim insertE emptyE; simp only:) code_simp+
    then obtain res ch s0 where tx: "?tx = Inr ((res, ch), s0)"
      and settled: "map_option py_status (findPayment (py_id openPayment) ''t'' s0) = Some P_COMPLETED"
      by (auto split: sum.splits)
    let ?s1 = "reportPaid demoEnv ''t'' ''rp'' openPayment a payDb"
    have "payments ?s1 = payments s0"
      using markPaid_cases [OF prod.collapse [symmetric], of demoEnv "''t''" "py_id openPayment" "''rp''" "reportVia a" "reportUser a"
        "reportHook ''t'' (py_id openPayment) a" payDb] tx by (auto simp: reportPaid_markPaid)
    then show ?thesis using settled by (simp add: findPayment_def)
  qed
  show ?thesis
    using paid_once [OF payDb_inv(1) f(1,2) paid, of "FromWebhook ''e'' None JNull" demoEnv "FromBrowser None"]
      paid_once [OF payDb_inv(1) f(1,2) paid, of "FromBrowser None" demoEnv "FromWebhook ''e'' None JNull"] f(3)
    by (simp del: reportPaid.simps)
qed

text \<open>The two ways to start a payment disagree on an order that is paid. Starting online payment refuses it; the
  general creation checks for open payments only and charges the order a second time.\<close>

theorem paid_order_can_be_charged_again:
  assumes "findOrder x t s = Some order" and "or_status order \<in> set ORDER_ELIGIBLE_STATUSES" and "0 < or_total order"
    and "p \<in> set (payments s)" "py_orderId p = x" "py_tenantId p = t" "py_status p = P_COMPLETED" "py_deletedAt p = None"
    and "openFor x t (payments s) = []" and "pv_name pv = ''mock''"
    and "credentialsFor rm t False s = Inr (Some cred)"
    and "\<forall>q \<in> set (payments s). py_id q \<noteq> env_uuid env (drawn s + 1)"
    and "cp_orderId b = x"
    and "list_all (\<lambda>q. case py_providerPaymentId q of None \<Rightarrow> True | Some i \<Rightarrow> take 4 i \<noteq> ''pay_'') (payments s)"
    and "list_all (\<lambda>q. case pt_providerTransactionId q of None \<Rightarrow> True | Some i \<Rightarrow> take 4 i \<noteq> ''txn_'') (paymentTxs s)"
  shows "startPayment env rm t x u d s = (Inl (AppError 409 ''ORDER_ALREADY_PAID''), s)
    \<and> (\<exists>r s'. createPayment env pv t u b s = (Inr r, s') \<and> openFor x t (payments s') \<noteq> [])"
proof
  have paid: "list_ex (\<lambda>p. py_orderId p = x \<and> py_tenantId p = t \<and> py_status p = P_COMPLETED \<and> py_deletedAt p = None) (payments s)"
    using assms(4-8) by (auto simp: list_ex_iff)
  show "startPayment env rm t x u d s = (Inl (AppError 409 ''ORDER_ALREADY_PAID''), s)"
    using assms(1,2,11) paid by (simp add: startPayment_def credentialsOrThrow_def startTx_def monad_defs)
  have none: "findActiveForOrder x t s = None" using assms(9) by (simp add: findActive_None)
  have oid: "or_id order = x" using assms(1) by (auto simp: findOrder_def dest: find_SomeD)
  have fresh: "\<not> providerIdTaken py_tenantId py_providerPaymentId t (Some (''pay_'' @ y)) (payments s)"
    "\<not> providerIdTaken pt_tenantId pt_providerTransactionId t (Some (''txn_'' @ y)) (paymentTxs s)" for y
    using assms(14,15) by (auto simp: providerIdTaken_def list_ex_iff list_all_iff)
  have "succeeded (createPayment env pv t u b s)"
    using assms(1,2,3,10,12,13) none fresh
    by (simp add: createPayment_def createPaymentCheck_def createPaymentCommit_def chargeExternally_def createPaymentTx_def insertPayment_def insertPaymentTx_def shortId_eq
        freshId_eq nonEmpty_def list_ex_iff Let_def monad_defs succeeded_def)
  then obtain r s' where run: "createPayment env pv t u b s = (Inr r, s')" by (rule succeededE)
  then obtain cur prov ext meta where tx: "createPaymentTx env t u order cur prov ext meta s = Inr (r, s')"
    using assms(1,13) by (auto simp: createPayment_def createPaymentCheck_def createPaymentCommit_def Let_def outcome)
  from createPaymentTx_Inr [OF tx] oid have "openFor x t (payments s') \<noteq> []"
    by (auto simp: openFor_def isOpen_def)
  with run show "\<exists>r s'. createPayment env pv t u b s = (Inr r, s') \<and> openFor x t (payments s') \<noteq> []" by blast
qed

lemma paid_order_can_be_charged_again_witness:
  "\<exists>cred. credentialsFor demoRemote ''t'' False paidShop = Inr (Some cred)
     \<and> startPayment demoEnv demoRemote ''t'' ''o'' None JNull paidShop = (Inl (AppError 409 ''ORDER_ALREADY_PAID''), paidShop)
     \<and> (\<exists>r s'. createPayment demoEnv mockProvider ''t'' None payBody paidShop = (Inr r, s'))"
proof -
  let ?p = "openPayment\<lparr>py_status := P_COMPLETED\<rparr>"
  obtain cred where c: "credentialsFor demoRemote ''t'' False paidShop = Inr (Some cred)"
    by (simp add: credentialsFor_def findGateway_def paidShop_def demoGateway_def decryptSecret_def boxKey_def
        demoRemote_def hexDec_def hexVal_def is_digit_def Let_def)
  have o: "findOrder ''o'' ''t'' paidShop = Some demoOrderRow"
    by (simp add: findOrder_def paidShop_def paidDb_def demoOrderRow_def)
  have e: "openFor ''o'' ''t'' (payments paidShop) = []"
    by (simp add: openFor_def isOpen_def paidShop_def paidDb_def openPayment_def)
  have n: "\<forall>q \<in> set (payments paidShop). py_id q \<noteq> env_uuid demoEnv (drawn paidShop + 1)"
    by (simp add: paidShop_def paidDb_def openPayment_def demoEnv_def demoDb_def emptyDb_def)
  have "startPayment demoEnv demoRemote ''t'' ''o'' None JNull paidShop = (Inl (AppError 409 ''ORDER_ALREADY_PAID''), paidShop)
    \<and> (\<exists>r s'. createPayment demoEnv mockProvider ''t'' None payBody paidShop = (Inr r, s') \<and> openFor ''o'' ''t'' (payments s') \<noteq> [])"
    by (rule paid_order_can_be_charged_again [OF o _ _ _ _ _ _ _ e _ c n, of ?p])
      (simp_all add: ORDER_ELIGIBLE_STATUSES_def demoOrderRow_def paidShop_def paidDb_def openPayment_def mockProvider_def payBody_def
        demoDb_def emptyDb_def)
  with c show ?thesis by blast
qed

end
