(* ===== verification/Auth.thy ===== *)
theory Auth
  imports Plans
begin

text \<open>
  Accounts and sign-in: src/src/modules/auth/auth.service.js with its repository, token-expiry.util.js and
  the mail producer of src/src/jobs/queues/email.queue.js (with its queue connected). SHA-256, argon2 and the
  signing of JSON web tokens are the record \<open>auth_world\<close>; random identifiers and tokens come from the stream
  of theory Schema, and a token is only ever stored as its hash.
\<close>

section \<open>The world of the account service\<close>

record claims =
  cl_sub :: string
  cl_tenantId :: string
  cl_sessionId :: string
  cl_email :: string
  cl_scope :: string

record auth_world =
  aw_sha256 :: "string \<Rightarrow> string"
  aw_hash :: "string \<Rightarrow> string \<Rightarrow> string"     \<comment> \<open>salt, password\<close>
  aw_verify :: "string \<Rightarrow> string \<Rightarrow> bool"     \<comment> \<open>stored hash, password\<close>
  aw_sign :: "int \<Rightarrow> claims \<Rightarrow> string"       \<comment> \<open>time of signing\<close>
  aw_exposeDevTokens :: bool
  aw_appUrl :: string
  aw_encodeURIComponent :: "string \<Rightarrow> string"

definition PLATFORM_TENANT_SLUG :: string where
  "PLATFORM_TENANT_SLUG = ''__platform''"

section \<open>token-expiry.util.js\<close>

definition unitMs :: "char \<Rightarrow> int option" where
  "unitMs c =
     (if c = CHR ''s'' then Some 1000 else if c = CHR ''m'' then Some (60 * 1000)
      else if c = CHR ''h'' then Some (60 * 60 * 1000) else if c = CHR ''d'' then Some (24 * 60 * 60 * 1000)
      else None)"

definition parseExpiry :: "string \<Rightarrow> error + int" where
  "parseExpiry expiry =
     (let value = takeWhile is_digit expiry in
      case dropWhile is_digit expiry of
        [u] \<Rightarrow> (case (value, unitMs u) of
            (_ # _, Some ms) \<Rightarrow> Inr (int (digits_val value) * ms)
          | _ \<Rightarrow> Inl (JsError ''Invalid expiry format''))
      | _ \<Rightarrow> Inl (JsError ''Invalid expiry format''))"

abbreviation hoursMs :: "nat \<Rightarrow> int" where
  "hoursMs n \<equiv> int n * (60 * 60 * 1000)"

lemma parseExpiry_used:
  "parseExpiry ''7d'' = Inr (hoursMs 168)" "parseExpiry ''24h'' = Inr (hoursMs 24)" "parseExpiry ''1h'' = Inr (hoursMs 1)"
  by (simp_all add: parseExpiry_def unitMs_def is_digit_def digits_val_def digit_val_def)

section \<open>The repository\<close>

text \<open>A user as the queries load it: with memberships and the tenant of each.\<close>

record account =
  ac_user :: user_row
  ac_memberships :: "(membership_row \<times> tenant_row option) list"

definition findTenant :: "string \<Rightarrow> db \<Rightarrow> tenant_row option" where
  "findTenant i s = find (\<lambda>t. tn_id t = i) (tenants s)"

definition findTenantBySlug :: "string \<Rightarrow> db \<Rightarrow> tenant_row option" where
  "findTenantBySlug slug s = find (\<lambda>t. tn_slug t = slug) (tenants s)"

definition isMember :: "db \<Rightarrow> string \<Rightarrow> string \<Rightarrow> bool" where
  "isMember s tenantId userId =
     list_ex (\<lambda>m. mb_tenantId m = tenantId \<and> mb_userId m = userId \<and> mb_active m) (memberships s)"

definition loadMemberships :: "(membership_row \<Rightarrow> bool) \<Rightarrow> db \<Rightarrow> user_row \<Rightarrow> account" where
  "loadMemberships P s u =
     \<lparr>ac_user = u, ac_memberships = map (\<lambda>m. (m, findTenant (mb_tenantId m) s))
        (filter (\<lambda>m. mb_userId m = us_id u \<and> P m) (memberships s))\<rparr>"

definition findUserByEmailAndTenant :: "string \<Rightarrow> string \<Rightarrow> db \<Rightarrow> account option" where
  "findUserByEmailAndTenant email tenantId s =
     map_option (loadMemberships (\<lambda>m. mb_tenantId m = tenantId \<and> mb_active m) s)
       (find (\<lambda>u. us_email u = email \<and> isMember s tenantId (us_id u)) (users (accounts s)))"

definition findUserByEmail :: "string \<Rightarrow> db \<Rightarrow> account option" where
  "findUserByEmail email s =
     map_option (loadMemberships (\<lambda>_. True) s) (find (\<lambda>u. us_email u = email) (users (accounts s)))"

definition findUserById :: "string \<Rightarrow> db \<Rightarrow> user_row option" where
  "findUserById i s = find (\<lambda>u. us_id u = i) (users (accounts s))"

definition findUserByIdAndTenant :: "string \<Rightarrow> string \<Rightarrow> db \<Rightarrow> account option" where
  "findUserByIdAndTenant i tenantId s =
     map_option (loadMemberships (\<lambda>m. mb_tenantId m = tenantId \<and> mb_active m) s)
       (find (\<lambda>u. us_id u = i \<and> isMember s tenantId (us_id u)) (users (accounts s)))"

definition hasPlatformRole :: "string \<Rightarrow> db \<Rightarrow> bool" where
  "hasPlatformRole userId s = list_ex (\<lambda>g. pg_userId g = userId) (platformGrants (accounts s))"

text \<open>\<open>prisma.user.create\<close>: the id is drawn, the e-mail is unique on the whole platform, and the membership is
  created with the user. \<open>prisma.user.update\<close> sets \<open>updatedAt\<close>.\<close>

record new_user =
  nu_tenantId :: string
  nu_email :: string
  nu_firstName :: string
  nu_lastName :: string

definition createUser :: "env \<Rightarrow> new_user \<Rightarrow> string \<Rightarrow> account dbtx" where
  "createUser env d passwordHash =
     bindT (freshId env) (\<lambda>i.
     bindT (readT (\<lambda>s. list_ex (\<lambda>u. us_email u = nu_email d \<or> us_id u = i) (users (accounts s)))) (\<lambda>clash.
     thenT (throwIfT clash uniqueViolation)
    (let row = \<lparr>us_id = i, us_tenantId = nu_tenantId d, us_email = nu_email d, us_passwordHash = passwordHash,
         us_firstName = nu_firstName d, us_lastName = nu_lastName d, us_status = U_ACTIVE, us_emailVerified = False,
         us_lastLoginAt = None, us_createdAt = env_now env, us_updatedAt = env_now env\<rparr>
     in thenT (writeT (accounts_update (users_update (\<lambda>us. us @ [row]))))
       (thenT (writeT (memberships_update (\<lambda>ms. ms @ [\<lparr>mb_tenantId = nu_tenantId d, mb_userId = i, mb_active = True\<rparr>])))
         (readT (\<lambda>s. loadMemberships (\<lambda>_. True) s row))))))"

definition updateUser :: "env \<Rightarrow> string \<Rightarrow> (user_row \<Rightarrow> user_row) \<Rightarrow> unit dbio" where
  "updateUser env i f =
     bindH (readH (findUserById i)) (\<lambda>found.
     thenH (throwIfH (found = None) recordNotFound)
       (writeH (accounts_update (users_update (updateMany (\<lambda>u. us_id u = i) (\<lambda>u. f (u\<lparr>us_updatedAt := env_now env\<rparr>)))))))"

definition updateLastLogin :: "env \<Rightarrow> string \<Rightarrow> unit dbio" where
  "updateLastLogin env userId = updateUser env userId (\<lambda>u. u\<lparr>us_lastLoginAt := Some (env_now env)\<rparr>)"

text \<open>\<open>prisma.refreshToken.create\<close>: the id is drawn, \<open>createdAt\<close> and \<open>lastUsedAt\<close> are now.\<close>

definition createRefreshToken :: "env \<Rightarrow> refresh_row \<Rightarrow> unit dbtx" where
  "createRefreshToken env t =
     bindT (freshId env) (\<lambda>i.
     bindT (readT (\<lambda>s. list_ex (\<lambda>r. rt_id r = i) (refreshTokens (accounts s)))) (\<lambda>clash.
     thenT (throwIfT clash uniqueViolation)
       (writeT (accounts_update (refreshTokens_update (\<lambda>ts. ts @
          [t\<lparr>rt_id := i, rt_createdAt := env_now env, rt_lastUsedAt := Some (env_now env), rt_revokedAt := None\<rparr>]))))))"

definition tokenLive :: "env \<Rightarrow> refresh_row \<Rightarrow> bool" where
  "tokenLive env t \<longleftrightarrow> rt_revokedAt t = None \<and> env_now env < rt_expiresAt t"

definition isSessionActive :: "env \<Rightarrow> string \<Rightarrow> string \<Rightarrow> db \<Rightarrow> bool" where
  "isSessionActive env sessionId userId s =
     list_ex (\<lambda>t. rt_sessionId t = Some sessionId \<and> rt_userId t = userId \<and> tokenLive env t) (refreshTokens (accounts s))"

text \<open>\<open>updateMany\<close> with \<open>revokedAt: now\<close> on the unrevoked tokens that match; the result is their number.\<close>

definition revokeWhere :: "env \<Rightarrow> (refresh_row \<Rightarrow> bool) \<Rightarrow> nat dbio" where
  "revokeWhere env P =
     bindH (readH (\<lambda>s. countWhere (\<lambda>t. P t \<and> rt_revokedAt t = None) (refreshTokens (accounts s)))) (\<lambda>count.
     thenH (writeH (accounts_update (refreshTokens_update
         (updateMany (\<lambda>t. P t \<and> rt_revokedAt t = None) (\<lambda>t. t\<lparr>rt_revokedAt := Some (env_now env)\<rparr>)))))
       (returnH count))"

definition revokeSessionRows :: "env \<Rightarrow> string \<Rightarrow> string \<Rightarrow> string \<Rightarrow> nat dbio" where
  "revokeSessionRows env sessionId userId tenantId =
     revokeWhere env (\<lambda>t. rt_sessionId t = Some sessionId \<and> rt_userId t = userId \<and> rt_tenantId t = tenantId)"

definition revokeUserSessions :: "env \<Rightarrow> string \<Rightarrow> string option \<Rightarrow> nat dbio" where
  "revokeUserSessions env userId keepSessionId =
     revokeWhere env (\<lambda>t. rt_userId t = userId
       \<and> (case nonEmpty keepSessionId of None \<Rightarrow> True | Some k \<Rightarrow> rt_sessionId t = None \<or> rt_sessionId t \<noteq> Some k))"

definition revokeAllUserRefreshTokens :: "env \<Rightarrow> string \<Rightarrow> nat dbio" where
  "revokeAllUserRefreshTokens env userId = revokeWhere env (\<lambda>t. rt_userId t = userId)"

definition findRefreshTokenByHash :: "string \<Rightarrow> db \<Rightarrow> refresh_row option" where
  "findRefreshTokenByHash h s = find (\<lambda>t. rt_tokenHash t = h) (refreshTokens (accounts s))"

text \<open>\<open>prisma.refreshToken.update\<close> by id; it writes \<open>revokedAt\<close> even when it was set.\<close>

definition revokeById :: "env \<Rightarrow> string \<Rightarrow> db \<Rightarrow> db" where
  "revokeById env i = accounts_update (refreshTokens_update
     (updateMany (\<lambda>t. rt_id t = i) (\<lambda>t. t\<lparr>rt_revokedAt := Some (env_now env)\<rparr>)))"

definition revokeRefreshToken :: "env \<Rightarrow> string \<Rightarrow> unit dbio" where
  "revokeRefreshToken env h =
     bindH (readH (findRefreshTokenByHash h)) (\<lambda>found.
       case found of None \<Rightarrow> returnH () | Some t \<Rightarrow> writeH (revokeById env (rt_id t)))"

text \<open>The two tables of one-time tokens have the same columns; \<open>kind\<close> says which.\<close>

datatype token_kind = ResetToken | VerifyToken

definition oneTimeTokens :: "token_kind \<Rightarrow> db \<Rightarrow> one_time_row list" where
  "oneTimeTokens kind s = (case kind of ResetToken \<Rightarrow> resetTokens (accounts s) | VerifyToken \<Rightarrow> verifyTokens (accounts s))"

definition onOneTime :: "token_kind \<Rightarrow> (one_time_row list \<Rightarrow> one_time_row list) \<Rightarrow> db \<Rightarrow> db" where
  "onOneTime kind f = (case kind of
     ResetToken \<Rightarrow> accounts_update (resetTokens_update f) | VerifyToken \<Rightarrow> accounts_update (verifyTokens_update f))"

definition createOneTime :: "env \<Rightarrow> token_kind \<Rightarrow> one_time_row \<Rightarrow> unit dbtx" where
  "createOneTime env kind t =
     bindT (freshId env) (\<lambda>i.
     bindT (readT (\<lambda>s. list_ex (\<lambda>r. ot_id r = i) (oneTimeTokens kind s))) (\<lambda>clash.
     thenT (throwIfT clash uniqueViolation) (writeT (onOneTime kind (\<lambda>ts. ts @ [t\<lparr>ot_id := i\<rparr>])))))"

definition findOneTime :: "token_kind \<Rightarrow> string \<Rightarrow> db \<Rightarrow> one_time_row option" where
  "findOneTime kind h s = find (\<lambda>t. ot_tokenHash t = h) (oneTimeTokens kind s)"

definition markOneTimeUsed :: "env \<Rightarrow> token_kind \<Rightarrow> string \<Rightarrow> unit dbio" where
  "markOneTimeUsed env kind h =
     bindH (readH (findOneTime kind h)) (\<lambda>found.
       case found of
         None \<Rightarrow> returnH ()
       | Some t \<Rightarrow> writeH (onOneTime kind (updateMany (\<lambda>r. ot_id r = ot_id t) (\<lambda>r. r\<lparr>ot_usedAt := Some (env_now env)\<rparr>))))"

definition invalidateUnusedVerifyTokens :: "env \<Rightarrow> string \<Rightarrow> unit dbio" where
  "invalidateUnusedVerifyTokens env userId =
     writeH (onOneTime VerifyToken
       (updateMany (\<lambda>t. ot_userId t = userId \<and> ot_usedAt t = None) (\<lambda>t. t\<lparr>ot_usedAt := Some (env_now env)\<rparr>)))"

definition drawH :: "env \<Rightarrow> string dbio" where
  "drawH env = transaction (freshId env)"

section \<open>Mail\<close>

record email_job =
  ej_tenantId :: string
  ej_to :: string
  ej_subject :: string
  ej_text :: "string option"
  ej_template :: "string option"
  ej_variables :: jsval

definition emailPayload :: "env \<Rightarrow> email_job \<Rightarrow> jsval" where
  "emailPayload env j = JObj
     [(''tenantId'', JStr (ej_tenantId j)), (''to'', JStr (ej_to j)), (''subject'', JStr (ej_subject j)),
      (''text'', jsOfOpt (ej_text j)), (''template'', jsOfOpt (ej_template j)), (''variables'', ej_variables j),
      (''enqueuedAt'', JStr (env_iso env (env_now env)))]"

text \<open>Without an idempotency key, as the account service calls it; the queue then chooses the job's id.\<close>

definition enqueueEmail :: "env \<Rightarrow> email_job \<Rightarrow> unit dbio" where
  "enqueueEmail env j =
     thenH (throwIfH (ej_tenantId j = []) (JsError ''tenantId is required''))
    (thenH (throwIfH (ej_to j = []) (JsError ''to is required''))
       (writeH (\<lambda>s. s\<lparr>jobs := jobs s @ [JObj [(''id'', JUndef), (''data'', emailPayload env j)]]\<rparr>)))"

definition NL :: string where
  "NL = [CHR 0x0A]"

definition APOS :: string where
  "APOS = [CHR 0x27]"

definition resetText :: "string \<Rightarrow> string \<Rightarrow> string \<Rightarrow> string" where
  "resetText greeting tenantName link =
     greeting @ NL @ NL @ ''Someone asked to reset the password of your '' @ tenantName
     @ '' account. Choose a new one here (the link works once, for 1 hour):'' @ NL @ link @ NL @ NL
     @ ''If it wasn'' @ APOS @ ''t you, ignore this email; your password stays the same.''"

definition verifyText :: "string \<Rightarrow> string \<Rightarrow> string \<Rightarrow> string" where
  "verifyText greeting tenantName link =
     greeting @ NL @ NL @ ''Confirm your email address for '' @ tenantName @ '' (the link works for 24 hours):''
     @ NL @ link @ NL @ NL @ ''If you didn'' @ APOS @ ''t create this account, ignore this email.''"

text \<open>What goes out for a user with an e-mail address; a failure is swallowed and the token stays valid.\<close>

definition authEmail :: "auth_world \<Rightarrow> string \<Rightarrow> user_row \<Rightarrow> token_kind \<Rightarrow> string \<Rightarrow> db \<Rightarrow> email_job" where
  "authEmail aw tenantId user kind rawToken s =
     (let tenantName = (case findTenant tenantId s of
            Some t \<Rightarrow> (if tn_name t = [] then ''PulseOps'' else tn_name t) | None \<Rightarrow> ''PulseOps'');
          link = aw_appUrl aw @ ''/'' @ (case kind of ResetToken \<Rightarrow> ''reset-password'' | VerifyToken \<Rightarrow> ''verify-email'')
            @ ''?token='' @ aw_encodeURIComponent aw rawToken;
          greeting = (if us_firstName user = [] then ''Hi,'' else ''Hi '' @ us_firstName user @ '','')
      in \<lparr>ej_tenantId = tenantId, ej_to = us_email user,
          ej_subject = (case kind of ResetToken \<Rightarrow> ''Reset your '' @ tenantName @ '' password''
            | VerifyToken \<Rightarrow> ''Verify your email for '' @ tenantName),
          ej_text = Some (case kind of ResetToken \<Rightarrow> resetText greeting tenantName link
            | VerifyToken \<Rightarrow> verifyText greeting tenantName link),
          ej_template = Some (case kind of ResetToken \<Rightarrow> ''auth.reset_password'' | VerifyToken \<Rightarrow> ''auth.verify_email''),
          ej_variables = JObj [(''tenantName'', JStr tenantName), (''firstName'', JStr (us_firstName user)),
            (''link'', JStr link)]\<rparr>)"

definition deliverAuthEmail ::
  "env \<Rightarrow> auth_world \<Rightarrow> string \<Rightarrow> user_row option \<Rightarrow> token_kind \<Rightarrow> string \<Rightarrow> unit dbio" where
  "deliverAuthEmail env aw tenantId user kind rawToken =
     (case user of
        None \<Rightarrow> returnH ()
      | Some u \<Rightarrow>
          if us_email u = [] then returnH ()
          else catchH (bindH (readH (authEmail aw tenantId u kind rawToken)) (enqueueEmail env)) (\<lambda>_. returnH ()))"

section \<open>Tokens and views\<close>

definition newOneTime ::
  "env \<Rightarrow> auth_world \<Rightarrow> token_kind \<Rightarrow> string \<Rightarrow> string \<Rightarrow> string \<Rightarrow> string dbio" where
  "newOneTime env aw kind expiry tenantId userId =
     bindH (drawH env) (\<lambda>rawToken.
     bindH (liftH (parseExpiry expiry)) (\<lambda>ms.
     thenH (transaction (createOneTime env kind \<lparr>ot_id = [], ot_tenantId = tenantId, ot_userId = userId,
         ot_tokenHash = aw_sha256 aw rawToken, ot_expiresAt = env_now env + ms, ot_usedAt = None\<rparr>))
       (returnH rawToken)))"

definition sendEmailVerification :: "env \<Rightarrow> auth_world \<Rightarrow> string \<Rightarrow> string \<Rightarrow> string option dbio" where
  "sendEmailVerification env aw userId tenantId =
     bindH (newOneTime env aw VerifyToken ''24h'' tenantId userId) (\<lambda>rawToken.
     bindH (readH (findUserById userId)) (\<lambda>user.
     thenH (deliverAuthEmail env aw tenantId user VerifyToken rawToken)
       (returnH (if aw_exposeDevTokens aw then Some rawToken else None))))"

definition generateAccessToken :: "env \<Rightarrow> auth_world \<Rightarrow> user_row \<Rightarrow> string \<Rightarrow> string \<Rightarrow> string \<Rightarrow> string" where
  "generateAccessToken env aw user sessionId tenantId scope =
     aw_sign aw (env_now env) \<lparr>cl_sub = us_id user, cl_tenantId = tenantId, cl_sessionId = sessionId,
       cl_email = us_email user, cl_scope = scope\<rparr>"

record client =
  ci_userAgent :: "string option"
  ci_ipAddress :: "string option"

definition refreshRow ::
  "env \<Rightarrow> auth_world \<Rightarrow> string \<Rightarrow> string \<Rightarrow> string \<Rightarrow> string \<Rightarrow> client \<Rightarrow> int \<Rightarrow> refresh_row" where
  "refreshRow env aw tenantId userId sessionId rawToken client ms =
     \<lparr>rt_id = [], rt_tenantId = tenantId, rt_userId = userId, rt_tokenHash = aw_sha256 aw rawToken,
      rt_expiresAt = env_now env + ms, rt_revokedAt = None, rt_createdAt = env_now env, rt_sessionId = Some sessionId,
      rt_userAgent = ci_userAgent client, rt_ipAddress = ci_ipAddress client, rt_lastUsedAt = Some (env_now env)\<rparr>"

definition generateRefreshToken ::
  "env \<Rightarrow> auth_world \<Rightarrow> user_row \<Rightarrow> string \<Rightarrow> string \<Rightarrow> client \<Rightarrow> string dbio" where
  "generateRefreshToken env aw user sessionId tenantId client =
     bindH (drawH env) (\<lambda>rawToken.
     bindH (liftH (parseExpiry ''7d'')) (\<lambda>ms.
     thenH (transaction (createRefreshToken env (refreshRow env aw tenantId (us_id user) sessionId rawToken client ms)))
       (returnH rawToken)))"

record safe_user =
  sa_id :: string
  sa_tenantId :: string
  sa_email :: string
  sa_firstName :: string
  sa_lastName :: string
  sa_status :: user_status
  sa_emailVerified :: bool
  sa_lastLoginAt :: "int option"
  sa_createdAt :: int
  sa_updatedAt :: int
  sa_scope :: "string option"

definition firstTenantId :: "account \<Rightarrow> string option" where
  "firstTenantId a = (case ac_memberships a of [] \<Rightarrow> None | (m, _) # _ \<Rightarrow> Some (mb_tenantId m))"

definition toSafeUser :: "account \<Rightarrow> string option \<Rightarrow> string option \<Rightarrow> safe_user" where
  "toSafeUser a tenantIdOverride scope =
     (let u = ac_user a in
      \<lparr>sa_id = us_id u,
       sa_tenantId = (case tenantIdOverride of Some t \<Rightarrow> t
         | None \<Rightarrow> (case firstTenantId a of Some t \<Rightarrow> t | None \<Rightarrow> us_tenantId u)),
       sa_email = us_email u, sa_firstName = us_firstName u, sa_lastName = us_lastName u, sa_status = us_status u,
       sa_emailVerified = us_emailVerified u, sa_lastLoginAt = us_lastLoginAt u, sa_createdAt = us_createdAt u,
       sa_updatedAt = us_updatedAt u, sa_scope = nonEmpty scope\<rparr>)"

definition tenantOpen :: "tenant_row \<Rightarrow> bool" where
  "tenantOpen t \<longleftrightarrow> tn_status t = T_ACTIVE \<or> tn_status t = T_TRIAL"

definition hasActiveTenant :: "account \<Rightarrow> string \<Rightarrow> bool" where
  "hasActiveTenant a tenantId =
     (case find (\<lambda>(m, _). mb_tenantId m = tenantId) (ac_memberships a) of
        Some (_, Some t) \<Rightarrow> tenantOpen t | _ \<Rightarrow> False)"

section \<open>register and login\<close>

abbreviation invalidCredentials :: error where
  "invalidCredentials \<equiv> AppError 401 ''INVALID_CREDENTIALS''"

abbreviation tenantNotFound :: error where
  "tenantNotFound \<equiv> AppError 404 ''TENANT_NOT_FOUND''"

abbreviation tenantInactive :: error where
  "tenantInactive \<equiv> AppError 403 ''TENANT_INACTIVE''"

abbreviation accountInactive :: error where
  "accountInactive \<equiv> AppError 403 ''ACCOUNT_INACTIVE''"

abbreviation platformForbidden :: error where
  "platformForbidden \<equiv> AppError 403 ''PLATFORM_TENANT_FORBIDDEN''"

abbreviation userInactive :: error where
  "userInactive \<equiv> AppError 401 ''USER_NOT_FOUND''"

abbreviation platformDenied :: error where
  "platformDenied \<equiv> AppError 403 ''PLATFORM_ACCESS_DENIED''"

definition hashPassword :: "env \<Rightarrow> auth_world \<Rightarrow> string \<Rightarrow> string dbio" where
  "hashPassword env aw password = bindH (drawH env) (\<lambda>salt. returnH (aw_hash aw salt password))"

definition register ::
  "env \<Rightarrow> auth_world \<Rightarrow> string option \<Rightarrow> string \<Rightarrow> string \<Rightarrow> string \<Rightarrow> string \<Rightarrow> safe_user dbio" where
  "register env aw tenantId email password firstName lastName =
     bindH (orThrowH (nonEmpty tenantId) (AppError 400 ''TENANT_REQUIRED'')) (\<lambda>tid.
     bindH (readH (findTenant tid)) (\<lambda>found.
     bindH (orThrowH found tenantNotFound) (\<lambda>tenant.
     thenH (throwIfH (\<not> tenantOpen tenant) tenantInactive)
    (thenH (throwIfH (tn_slug tenant = PLATFORM_TENANT_SLUG) platformForbidden)
    (thenH (assertWithinPlan env tid ''users'')
    (bindH (readH (findUserByEmailAndTenant email tid)) (\<lambda>existing.
     thenH (throwIfH (existing \<noteq> None) (AppError 409 ''USER_ALREADY_EXISTS''))
    (bindH (hashPassword env aw password) (\<lambda>passwordHash.
     bindH (transaction (createUser env \<lparr>nu_tenantId = tid, nu_email = email, nu_firstName = firstName,
        nu_lastName = lastName\<rparr> passwordHash)) (\<lambda>user.
     thenH (sendEmailVerification env aw (us_id (ac_user user)) tid)
       (returnH (toSafeUser user None None))))))))))))"

record login_result =
  lr_user :: safe_user
  lr_accessToken :: string
  lr_refreshToken :: string
  lr_sessionId :: string
  lr_scope :: string

text \<open>The end of both logins: the session's first tokens.\<close>

definition openSession ::
  "env \<Rightarrow> auth_world \<Rightarrow> account \<Rightarrow> string \<Rightarrow> string \<Rightarrow> client \<Rightarrow> login_result dbio" where
  "openSession env aw user tenantId scope client =
     thenH (updateLastLogin env (us_id (ac_user user)))
    (bindH (drawH env) (\<lambda>sessionId.
     bindH (generateRefreshToken env aw (ac_user user) sessionId tenantId client) (\<lambda>refreshToken.
     returnH \<lparr>lr_user = toSafeUser user (Some tenantId) (Some scope),
       lr_accessToken = generateAccessToken env aw (ac_user user) sessionId tenantId scope,
       lr_refreshToken = refreshToken, lr_sessionId = sessionId, lr_scope = scope\<rparr>)))"

definition onPlatform :: "membership_row \<times> tenant_row option \<Rightarrow> bool" where
  "onPlatform mt = (case snd mt of Some t \<Rightarrow> tn_slug t = PLATFORM_TENANT_SLUG | None \<Rightarrow> False)"

definition platformTenantOf :: "account \<Rightarrow> db \<Rightarrow> string" where
  "platformTenantOf user s =
     (case nonEmpty (map_option (mb_tenantId \<circ> fst) (find onPlatform (ac_memberships user))) of
        Some t \<Rightarrow> t
      | None \<Rightarrow> (case findTenantBySlug PLATFORM_TENANT_SLUG s of
            Some t \<Rightarrow> tn_id t | None \<Rightarrow> us_tenantId (ac_user user)))"

definition platformLogin :: "env \<Rightarrow> auth_world \<Rightarrow> string \<Rightarrow> string \<Rightarrow> client \<Rightarrow> login_result dbio" where
  "platformLogin env aw email password client =
     bindH (readH (findUserByEmail email)) (\<lambda>found.
     bindH (orThrowH found invalidCredentials) (\<lambda>user.
     thenH (throwIfH (us_status (ac_user user) \<noteq> U_ACTIVE) accountInactive)
    (thenH (throwIfH (\<not> aw_verify aw (us_passwordHash (ac_user user)) password) invalidCredentials)
    (bindH (readH (hasPlatformRole (us_id (ac_user user)))) (\<lambda>hasPlatform.
     thenH (throwIfH (\<not> hasPlatform) platformDenied)
    (bindH (readH (platformTenantOf user)) (\<lambda>platformTenantId.
     bindH (readH (findTenant platformTenantId)) (\<lambda>ptTenant.
     thenH (throwIfH (case ptTenant of Some t \<Rightarrow> \<not> tenantOpen t | None \<Rightarrow> False) tenantInactive)
       (openSession env aw user platformTenantId ''platform'' client)))))))))"

record login_body =
  lb_email :: string
  lb_password :: string
  lb_scope :: "string option"
  lb_tenantId :: "string option"
  lb_tenantSlug :: "string option"

definition resolveSlug :: "login_body \<Rightarrow> (string option \<times> tenant_row option) dbio" where
  "resolveSlug b =
     (case nonEmpty (lb_tenantSlug b) of
        None \<Rightarrow> returnH (nonEmpty (lb_tenantId b), None)
      | Some slug \<Rightarrow>
          bindH (readH (findTenantBySlug slug)) (\<lambda>found.
          bindH (orThrowH found tenantNotFound) (\<lambda>tenant.
          thenH (throwIfH (tn_slug tenant = PLATFORM_TENANT_SLUG) platformForbidden)
            (returnH (nonEmpty (Some (tn_id tenant)), Some tenant)))))"

text \<open>Without a tenant in the request: the user's only business, or an error that says why there is none.\<close>

definition autoResolve :: "auth_world \<Rightarrow> login_body \<Rightarrow> (account \<times> string \<times> tenant_row option) dbio" where
  "autoResolve aw b =
     bindH (readH (findUserByEmail (lb_email b))) (\<lambda>found.
     bindH (orThrowH found invalidCredentials) (\<lambda>globalUser.
     case filter (\<lambda>mt. \<not> onPlatform mt \<and> mb_active (fst mt)) (ac_memberships globalUser) of
       [] \<Rightarrow>
         thenH (throwIfH (\<not> aw_verify aw (us_passwordHash (ac_user globalUser)) (lb_password b)) invalidCredentials)
        (bindH (readH (hasPlatformRole (us_id (ac_user globalUser)))) (\<lambda>hasPlatform.
         thenH (throwIfH hasPlatform (AppError 403 ''USE_PLATFORM_LOGIN'')) (throwH tenantNotFound)))
     | [(m, tenant)] \<Rightarrow>
         bindH (readH (findUserByEmailAndTenant (lb_email b) (mb_tenantId m))) (\<lambda>user.
         bindH (orThrowH user invalidCredentials) (\<lambda>u. returnH (u, mb_tenantId m, tenant)))
     | _ \<Rightarrow> throwH (AppError 400 ''TENANT_REQUIRED'')))"

definition tenantLogin :: "env \<Rightarrow> auth_world \<Rightarrow> login_body \<Rightarrow> client \<Rightarrow> login_result dbio" where
  "tenantLogin env aw b client =
     bindH (resolveSlug b) (\<lambda>(resolvedId, slugTenant).
     bindH (case resolvedId of
         Some t \<Rightarrow>
           bindH (readH (findUserByEmailAndTenant (lb_email b) t)) (\<lambda>found.
           bindH (orThrowH found invalidCredentials) (\<lambda>u. returnH (u, t, slugTenant)))
       | None \<Rightarrow> autoResolve aw b) (\<lambda>(user, tenantId, known).
     bindH (readH (\<lambda>s. case known of Some t \<Rightarrow> Some t | None \<Rightarrow> findTenant tenantId s)) (\<lambda>found.
     bindH (orThrowH found tenantNotFound) (\<lambda>tenant.
     thenH (throwIfH (\<not> tenantOpen tenant) tenantInactive)
    (thenH (throwIfH (\<not> hasActiveTenant user tenantId) tenantInactive)
    (thenH (throwIfH (us_status (ac_user user) \<noteq> U_ACTIVE) accountInactive)
    (thenH (throwIfH (\<not> aw_verify aw (us_passwordHash (ac_user user)) (lb_password b)) invalidCredentials)
       (openSession env aw user tenantId ''tenant'' client))))))))"

definition login :: "env \<Rightarrow> auth_world \<Rightarrow> login_body \<Rightarrow> client \<Rightarrow> login_result dbio" where
  "login env aw b client =
     (if orElse (lb_scope b) (Some ''tenant'') = Some ''platform''
      then platformLogin env aw (lb_email b) (lb_password b) client
      else tenantLogin env aw b client)"

section \<open>refresh and logout\<close>

text \<open>The scope of a session is the one of its tenant; its user must still be allowed to hold it.\<close>

definition sessionUser :: "refresh_row \<Rightarrow> string \<Rightarrow> account dbio" where
  "sessionUser stored scope =
     (if scope = ''platform''
      then bindH (readH (\<lambda>s. case findUserByEmail (case findUserById (rt_userId stored) s of
                 Some u \<Rightarrow> us_email u | None \<Rightarrow> []) s of
               Some a \<Rightarrow> Some a
             | None \<Rightarrow> map_option (loadMemberships (\<lambda>_. True) s) (findUserById (rt_userId stored) s))) (\<lambda>found.
           bindH (orThrowH found userInactive) (\<lambda>user.
           thenH (throwIfH (us_status (ac_user user) \<noteq> U_ACTIVE) userInactive)
          (bindH (readH (hasPlatformRole (us_id (ac_user user)))) (\<lambda>hasPlatform.
           thenH (throwIfH (\<not> hasPlatform) platformDenied) (returnH user)))))
      else bindH (readH (findUserByIdAndTenant (rt_userId stored) (rt_tenantId stored))) (\<lambda>found.
           bindH (orThrowH found userInactive) (\<lambda>user.
           thenH (throwIfH (us_status (ac_user user) \<noteq> U_ACTIVE) userInactive)
          (thenH (throwIfH (\<not> hasActiveTenant user (rt_tenantId stored)) tenantInactive)
             (returnH user)))))"

text \<open>The rotation, in one transaction: the old token is revoked whatever it is by now, the new one stored.\<close>

definition rotateTx ::
  "env \<Rightarrow> auth_world \<Rightarrow> refresh_row \<Rightarrow> string \<Rightarrow> string \<Rightarrow> string \<Rightarrow> client \<Rightarrow> unit dbtx" where
  "rotateTx env aw stored userId sessionId newRaw client =
     bindT (readT (findRefreshTokenByHash (rt_tokenHash stored))) (\<lambda>found.
     bindT (orThrowT found (AppError 401 ''INVALID_REFRESH_TOKEN'')) (\<lambda>oldToken.
     thenT (writeT (revokeById env (rt_id oldToken)))
    (bindT (case parseExpiry ''7d'' of Inl e \<Rightarrow> throwT e | Inr ms \<Rightarrow> returnT ms) (\<lambda>ms.
     createRefreshToken env (refreshRow env aw (rt_tenantId stored) userId sessionId newRaw
       \<lparr>ci_userAgent = (case ci_userAgent client of None \<Rightarrow> rt_userAgent stored | Some a \<Rightarrow> Some a),
        ci_ipAddress = (case ci_ipAddress client of None \<Rightarrow> rt_ipAddress stored | Some a \<Rightarrow> Some a)\<rparr> ms)))))"

definition rejectReplay :: "env \<Rightarrow> refresh_row \<Rightarrow> 'a dbio" where
  "rejectReplay env stored =
     thenH (case nonEmpty (rt_sessionId stored) of
         Some sid \<Rightarrow> revokeSessionRows env sid (rt_userId stored) (rt_tenantId stored)
       | None \<Rightarrow> revokeAllUserRefreshTokens env (rt_userId stored))
       (throwH (AppError 401 ''REFRESH_TOKEN_REVOKED''))"

definition rotate ::
  "env \<Rightarrow> auth_world \<Rightarrow> refresh_row \<Rightarrow> string \<Rightarrow> account \<Rightarrow> client \<Rightarrow> login_result dbio" where
  "rotate env aw stored scope user client =
     bindH (case rt_sessionId stored of Some sid \<Rightarrow> returnH sid | None \<Rightarrow> drawH env) (\<lambda>sessionId.
     bindH (drawH env) (\<lambda>newRaw.
     thenH (transaction (rotateTx env aw stored (us_id (ac_user user)) sessionId newRaw client))
       (returnH \<lparr>lr_user = toSafeUser user (Some (rt_tenantId stored)) (Some scope),
          lr_accessToken = generateAccessToken env aw (ac_user user) sessionId (rt_tenantId stored) scope,
          lr_refreshToken = newRaw, lr_sessionId = sessionId, lr_scope = scope\<rparr>)))"

text \<open>What a refresh reads before its transaction: the token, which must be neither expired nor revoked, the scope
  of its tenant and the user. Other requests may run between these reads and the rotation.\<close>

definition refreshCheck :: "env \<Rightarrow> auth_world \<Rightarrow> string \<Rightarrow> (refresh_row \<times> string \<times> account) dbio" where
  "refreshCheck env aw refreshToken =
     bindH (readH (findRefreshTokenByHash (aw_sha256 aw refreshToken))) (\<lambda>found.
     bindH (orThrowH found (AppError 401 ''INVALID_REFRESH_TOKEN'')) (\<lambda>stored.
     thenH (throwIfH (rt_expiresAt stored < env_now env) (AppError 401 ''REFRESH_TOKEN_EXPIRED''))
    (if rt_revokedAt stored \<noteq> None then rejectReplay env stored
     else bindH (readH (\<lambda>s. case findTenant (rt_tenantId stored) s of
              Some t \<Rightarrow> (if tn_slug t = PLATFORM_TENANT_SLUG then ''platform'' else ''tenant'')
            | None \<Rightarrow> ''tenant'')) (\<lambda>scope.
          bindH (sessionUser stored scope) (\<lambda>user.
          returnH (stored, scope, user))))))"

definition refresh :: "env \<Rightarrow> auth_world \<Rightarrow> string \<Rightarrow> client \<Rightarrow> login_result dbio" where
  "refresh env aw refreshToken client =
     bindH (refreshCheck env aw refreshToken) (\<lambda>(stored, scope, user).
       rotate env aw stored scope user client)"

definition logout :: "env \<Rightarrow> auth_world \<Rightarrow> string option \<Rightarrow> unit dbio" where
  "logout env aw refreshToken =
     (case nonEmpty refreshToken of
        None \<Rightarrow> returnH () | Some t \<Rightarrow> revokeRefreshToken env (aw_sha256 aw t))"

section \<open>The user's own account\<close>

definition findActiveUser :: "string \<Rightarrow> user_row dbio" where
  "findActiveUser userId =
     bindH (readH (findUserById userId)) (\<lambda>found.
     bindH (orThrowH found userInactive) (\<lambda>user.
     thenH (throwIfH (us_status user \<noteq> U_ACTIVE) userInactive) (returnH user)))"

definition changePassword ::
  "env \<Rightarrow> auth_world \<Rightarrow> string \<Rightarrow> string option \<Rightarrow> string \<Rightarrow> string \<Rightarrow> nat dbio" where
  "changePassword env aw userId sessionId currentPassword newPassword =
     bindH (findActiveUser userId) (\<lambda>user.
     thenH (throwIfH (\<not> aw_verify aw (us_passwordHash user) currentPassword) (AppError 400 ''INVALID_CURRENT_PASSWORD''))
    (thenH (throwIfH (aw_verify aw (us_passwordHash user) newPassword) (AppError 400 ''PASSWORD_UNCHANGED''))
    (bindH (hashPassword env aw newPassword) (\<lambda>passwordHash.
     thenH (updateUser env userId (\<lambda>u. u\<lparr>us_passwordHash := passwordHash\<rparr>))
       (revokeUserSessions env userId sessionId)))))"

definition resendVerification :: "env \<Rightarrow> auth_world \<Rightarrow> string \<Rightarrow> string \<Rightarrow> string option dbio" where
  "resendVerification env aw userId tenantId =
     bindH (findActiveUser userId) (\<lambda>user.
     thenH (throwIfH (us_emailVerified user) (AppError 409 ''EMAIL_ALREADY_VERIFIED''))
    (thenH (invalidateUnusedVerifyTokens env userId)
       (sendEmailVerification env aw userId tenantId)))"

record session_view =
  sv_id :: "string option"
  sv_current :: bool
  sv_userAgent :: "string option"
  sv_ipAddress :: "string option"
  sv_createdAt :: int
  sv_lastUsedAt :: int
  sv_expiresAt :: int

text \<open>The live tokens of the user's sessions, newest first, and the start of each session.\<close>

definition activeSessionTokens :: "env \<Rightarrow> string \<Rightarrow> string \<Rightarrow> db \<Rightarrow> refresh_row list" where
  "activeSessionTokens env userId tenantId s =
     sort_key (\<lambda>t. - rt_createdAt t)
       (filter (\<lambda>t. rt_userId t = userId \<and> rt_tenantId t = tenantId \<and> rt_sessionId t \<noteq> None \<and> tokenLive env t)
         (refreshTokens (accounts s)))"

definition startedAt :: "db \<Rightarrow> refresh_row \<Rightarrow> int" where
  "startedAt s t =
     (case map rt_createdAt (filter (\<lambda>r. rt_sessionId r = rt_sessionId t) (refreshTokens (accounts s))) of
        [] \<Rightarrow> rt_createdAt t | c # cs \<Rightarrow> fold min cs c)"

fun firstPerSession :: "string option list \<Rightarrow> refresh_row list \<Rightarrow> refresh_row list" where
  "firstPerSession seen [] = []"
| "firstPerSession seen (t # ts) =
     (if rt_sessionId t \<in> set seen then firstPerSession seen ts
      else t # firstPerSession (rt_sessionId t # seen) ts)"

definition listSessions :: "env \<Rightarrow> string \<Rightarrow> string \<Rightarrow> string option \<Rightarrow> db \<Rightarrow> session_view list" where
  "listSessions env userId tenantId currentSessionId s =
     map (\<lambda>t. \<lparr>sv_id = rt_sessionId t, sv_current = (rt_sessionId t = currentSessionId), sv_userAgent = rt_userAgent t,
        sv_ipAddress = rt_ipAddress t, sv_createdAt = startedAt s t,
        sv_lastUsedAt = (case rt_lastUsedAt t of Some x \<Rightarrow> x | None \<Rightarrow> rt_createdAt t), sv_expiresAt = rt_expiresAt t\<rparr>)
       (firstPerSession [] (activeSessionTokens env userId tenantId s))"

definition revokeSession :: "env \<Rightarrow> string \<Rightarrow> string \<Rightarrow> string \<Rightarrow> unit dbio" where
  "revokeSession env userId tenantId sessionId =
     bindH (revokeSessionRows env sessionId userId tenantId) (\<lambda>count.
     throwIfH (count = 0) (AppError 404 ''SESSION_NOT_FOUND''))"

definition logoutAll :: "env \<Rightarrow> string \<Rightarrow> nat dbio" where
  "logoutAll env userId = revokeUserSessions env userId None"

section \<open>Password reset and e-mail verification\<close>

text \<open>The answer of \<open>forgotPassword\<close> is the same message always; a token is added only in development.\<close>

definition forgotTarget :: "string \<Rightarrow> string option \<Rightarrow> string option \<Rightarrow> db \<Rightarrow> (user_row \<times> string) option" where
  "forgotTarget email tenantId tenantSlug s =
     (let byTenant = (\<lambda>t. map_option (\<lambda>a. (ac_user a, t)) (findUserByEmailAndTenant email t s));
          global = (case findUserByEmail email s of
              None \<Rightarrow> None
            | Some a \<Rightarrow> (case filter (\<lambda>mt. \<not> onPlatform mt \<and> mb_active (fst mt)) (ac_memberships a) of
                  [(m, _)] \<Rightarrow> byTenant (mb_tenantId m) | _ \<Rightarrow> None))
      in case nonEmpty tenantSlug of
           Some slug \<Rightarrow>
             (case findTenantBySlug slug s of
                None \<Rightarrow> None
              | Some t \<Rightarrow> (case nonEmpty (Some (tn_id t)) of Some i \<Rightarrow> byTenant i | None \<Rightarrow> global))
         | None \<Rightarrow> (case nonEmpty tenantId of Some i \<Rightarrow> byTenant i | None \<Rightarrow> global))"

definition forgotPassword ::
  "env \<Rightarrow> auth_world \<Rightarrow> string \<Rightarrow> string option \<Rightarrow> string option \<Rightarrow> string option dbio" where
  "forgotPassword env aw email tenantId tenantSlug =
     bindH (readH (forgotTarget email tenantId tenantSlug)) (\<lambda>target.
     case target of
       None \<Rightarrow> returnH None
     | Some (user, t) \<Rightarrow>
         bindH (newOneTime env aw ResetToken ''1h'' t (us_id user)) (\<lambda>rawToken.
         thenH (deliverAuthEmail env aw t (Some user) ResetToken rawToken)
           (returnH (if aw_exposeDevTokens aw then Some rawToken else None))))"

definition usableOneTime :: "env \<Rightarrow> auth_world \<Rightarrow> token_kind \<Rightarrow> string \<Rightarrow> string \<Rightarrow> one_time_row dbio" where
  "usableOneTime env aw kind label token =
     bindH (readH (findOneTime kind (aw_sha256 aw token))) (\<lambda>found.
     bindH (orThrowH found (AppError 400 (''INVALID_'' @ label @ ''_TOKEN''))) (\<lambda>stored.
     thenH (throwIfH (ot_expiresAt stored < env_now env) (AppError 400 (label @ ''_TOKEN_EXPIRED'')))
    (thenH (throwIfH (ot_usedAt stored \<noteq> None) (AppError 400 (label @ ''_TOKEN_USED'')))
       (returnH stored))))"

definition resetPassword :: "env \<Rightarrow> auth_world \<Rightarrow> string \<Rightarrow> string \<Rightarrow> unit dbio" where
  "resetPassword env aw token password =
     bindH (usableOneTime env aw ResetToken ''RESET'' token) (\<lambda>stored.
     bindH (hashPassword env aw password) (\<lambda>passwordHash.
     thenH (updateUser env (ot_userId stored) (\<lambda>u. u\<lparr>us_passwordHash := passwordHash\<rparr>))
    (thenH (markOneTimeUsed env ResetToken (aw_sha256 aw token))
    (thenH (revokeAllUserRefreshTokens env (ot_userId stored)) (returnH ())))))"

definition verifyEmail :: "env \<Rightarrow> auth_world \<Rightarrow> string \<Rightarrow> unit dbio" where
  "verifyEmail env aw token =
     bindH (usableOneTime env aw VerifyToken ''VERIFICATION'' token) (\<lambda>stored.
     thenH (updateUser env (ot_userId stored) (\<lambda>u. u\<lparr>us_emailVerified := True\<rparr>))
       (markOneTimeUsed env VerifyToken (aw_sha256 aw token)))"

section \<open>Who am I\<close>

record role_view =
  rv_id :: string
  rv_name :: string
  rv_description :: "string option"
  rv_isSystem :: bool

record me_view =
  me_user :: safe_user
  me_tenant :: "tenant_row option"
  me_roles :: "role_view list"
  me_permissions :: "string list"

definition rolePermissionRows :: "string \<Rightarrow> db \<Rightarrow> permission_row list" where
  "rolePermissionRows roleId s =
     List.map_filter (\<lambda>rp. if rp_roleId rp = roleId
         then find (\<lambda>p. pe_id p = rp_permissionId rp) (permissions (accounts s)) else None) (rolePermissions (accounts s))"

definition tenantGrants :: "string \<Rightarrow> string \<Rightarrow> db \<Rightarrow> (role_view \<times> string list) list" where
  "tenantGrants userId tenantId s =
     List.map_filter (\<lambda>ur. if ur_userId ur = userId \<and> ur_tenantId ur = tenantId
         then map_option (\<lambda>r. (\<lparr>rv_id = ro_id r, rv_name = ro_name r, rv_description = ro_description r,
               rv_isSystem = ro_isSystem r\<rparr>, map pe_name (rolePermissionRows (ro_id r) s)))
            (find (\<lambda>r. ro_id r = ur_roleId ur) (roles (accounts s)))
         else None) (userRoles (accounts s))"

definition platformGrantViews :: "string \<Rightarrow> db \<Rightarrow> (role_view \<times> string list) list" where
  "platformGrantViews userId s =
     List.map_filter (\<lambda>g. if pg_userId g = userId
         then map_option (\<lambda>r. (\<lparr>rv_id = pf_id r, rv_name = pf_name r, rv_description = pf_description r,
               rv_isSystem = pf_isSystem r\<rparr>,
               map pp_name (filter (\<lambda>p. pp_roleId p = pf_id r) (platformPermissions (accounts s)))))
            (find (\<lambda>r. pf_id r = pg_roleId g) (platformRoles (accounts s)))
         else None) (platformGrants (accounts s))"

definition toAuthorizationSummary :: "(role_view \<times> string list) list \<Rightarrow> role_view list \<times> string list" where
  "toAuthorizationSummary grants = (map fst grants, sort (remdups (concat (map snd grants))))"

definition getMe :: "string \<Rightarrow> string \<Rightarrow> string \<Rightarrow> me_view dbio" where
  "getMe userId tenantId scope =
     (if scope = ''platform''
      then bindH (readH (\<lambda>s. case findUserByEmail (case findUserById userId s of Some u \<Rightarrow> us_email u | None \<Rightarrow> []) s of
                 Some a \<Rightarrow> Some a
               | None \<Rightarrow> map_option (loadMemberships (\<lambda>_. True) s) (findUserById userId s))) (\<lambda>found.
           bindH (orThrowH found (AppError 404 ''USER_NOT_FOUND'')) (\<lambda>full.
           thenH (throwIfH (us_status (ac_user full) \<noteq> U_ACTIVE) (AppError 404 ''USER_NOT_FOUND''))
          (bindH (readH (platformGrantViews userId)) (\<lambda>grants.
           thenH (throwIfH (grants = []) platformDenied)
             (returnH \<lparr>me_user = toSafeUser full (Some tenantId) (Some ''platform''), me_tenant = None,
                me_roles = fst (toAuthorizationSummary grants), me_permissions = snd (toAuthorizationSummary grants)\<rparr>)))))
      else bindH (readH (findUserByIdAndTenant userId tenantId)) (\<lambda>found.
           bindH (orThrowH found (AppError 404 ''USER_NOT_FOUND'')) (\<lambda>user.
           thenH (throwIfH (us_status (ac_user user) \<noteq> U_ACTIVE) accountInactive)
          (thenH (throwIfH (\<not> hasActiveTenant user tenantId) tenantInactive)
          (bindH (readH (tenantGrants userId tenantId)) (\<lambda>grants.
             returnH \<lparr>me_user = toSafeUser user (Some tenantId) (Some ''tenant''),
                me_tenant = (case find (\<lambda>(m, _). mb_tenantId m = tenantId) (ac_memberships user) of
                    Some (_, t) \<Rightarrow> t | None \<Rightarrow> None),
                me_roles = fst (toAuthorizationSummary grants), me_permissions = snd (toAuthorizationSummary grants)\<rparr>))))))"

definition updateMe :: "env \<Rightarrow> string \<Rightarrow> string \<Rightarrow> string option \<Rightarrow> string option \<Rightarrow> me_view dbio" where
  "updateMe env userId tenantId firstName lastName =
     thenH (findActiveUser userId)
    (thenH (updateUser env userId (\<lambda>u. u\<lparr>us_firstName := (case firstName of Some x \<Rightarrow> x | None \<Rightarrow> us_firstName u),
         us_lastName := (case lastName of Some x \<Rightarrow> x | None \<Rightarrow> us_lastName u)\<rparr>))
       (getMe userId tenantId ''tenant''))"

section \<open>What the basic operations do\<close>

abbreviation tokensOf :: "db \<Rightarrow> refresh_row list" where
  "tokensOf s \<equiv> refreshTokens (accounts s)"

lemma drawH_eq [simp]: "drawH env s = (Inr (env_uuid env (drawn s)), s\<lparr>drawn := Suc (drawn s)\<rparr>)"
  by (simp add: drawH_def freshId_def monad_defs)

lemma createRefreshToken_eq:
  "createRefreshToken env t s =
     (if list_ex (\<lambda>r. rt_id r = env_uuid env (drawn s)) (tokensOf s) then Inl uniqueViolation
      else Inr ((), accounts_update (refreshTokens_update (\<lambda>ts. ts @
          [t\<lparr>rt_id := env_uuid env (drawn s), rt_createdAt := env_now env, rt_lastUsedAt := Some (env_now env),
             rt_revokedAt := None\<rparr>])) (s\<lparr>drawn := Suc (drawn s)\<rparr>)))"
  by (simp add: createRefreshToken_def freshId_def monad_defs)

lemma createOneTime_eq:
  "createOneTime env kind t s =
     (if list_ex (\<lambda>r. ot_id r = env_uuid env (drawn s)) (oneTimeTokens kind s) then Inl uniqueViolation
      else Inr ((), onOneTime kind (\<lambda>ts. ts @ [t\<lparr>ot_id := env_uuid env (drawn s)\<rparr>]) (s\<lparr>drawn := Suc (drawn s)\<rparr>)))"
  by (cases kind) (simp_all add: createOneTime_def freshId_def oneTimeTokens_def monad_defs)

lemma revokeWhere_eq:
  "revokeWhere env P s =
     (Inr (countWhere (\<lambda>t. P t \<and> rt_revokedAt t = None) (tokensOf s)),
      accounts_update (refreshTokens_update
        (updateMany (\<lambda>t. P t \<and> rt_revokedAt t = None) (\<lambda>t. t\<lparr>rt_revokedAt := Some (env_now env)\<rparr>))) s)"
  by (simp add: revokeWhere_def monad_defs)

lemma updateUser_eq:
  "updateUser env i f s =
     (if findUserById i s = None then (Inl recordNotFound, s)
      else (Inr (), accounts_update (users_update
        (updateMany (\<lambda>u. us_id u = i) (\<lambda>u. f (u\<lparr>us_updatedAt := env_now env\<rparr>)))) s))"
  by (simp add: updateUser_def monad_defs)

lemma onOneTime_frame [simp]:
  "tokensOf (onOneTime kind f s) = tokensOf s" "users (accounts (onOneTime kind f s)) = users (accounts s)"
  "drawn (onOneTime kind f s) = drawn s" "oneTimeTokens kind (onOneTime kind f s) = f (oneTimeTokens kind s)"
  by (cases kind; simp add: onOneTime_def oneTimeTokens_def)+

lemma wpH_drawH [wp]:
  "wpH (drawH env) Q E = (\<lambda>s. Q (env_uuid env (drawn s)) (s\<lparr>drawn := Suc (drawn s)\<rparr>))"
  by (simp add: wpH_def fun_eq_iff)

lemma wpH_updateUser [wp]:
  "wpH (updateUser env i f) Q E = (\<lambda>s. if findUserById i s = None then E recordNotFound s
     else Q () (accounts_update (users_update
        (updateMany (\<lambda>u. us_id u = i) (\<lambda>u. f (u\<lparr>us_updatedAt := env_now env\<rparr>)))) s))"
  by (simp add: wpH_def updateUser_eq fun_eq_iff)

lemma wpH_revokeWhere [wp]:
  "wpH (revokeWhere env P) Q E = (\<lambda>s. Q (countWhere (\<lambda>t. P t \<and> rt_revokedAt t = None) (tokensOf s))
     (accounts_update (refreshTokens_update
        (updateMany (\<lambda>t. P t \<and> rt_revokedAt t = None) (\<lambda>t. t\<lparr>rt_revokedAt := Some (env_now env)\<rparr>))) s))"
  by (simp add: wpH_def revokeWhere_eq fun_eq_iff)

lemma wpH_createRefreshToken [wp]:
  "wpH (transaction (createRefreshToken env t)) Q E = (\<lambda>s.
     if list_ex (\<lambda>r. rt_id r = env_uuid env (drawn s)) (tokensOf s) then E uniqueViolation s
     else Q () (accounts_update (refreshTokens_update (\<lambda>ts. ts @
          [t\<lparr>rt_id := env_uuid env (drawn s), rt_createdAt := env_now env, rt_lastUsedAt := Some (env_now env),
             rt_revokedAt := None\<rparr>])) (s\<lparr>drawn := Suc (drawn s)\<rparr>)))"
  by (simp add: wpH_def transaction_def createRefreshToken_eq fun_eq_iff)

lemma wpH_createOneTime [wp]:
  "wpH (transaction (createOneTime env kind t)) Q E = (\<lambda>s.
     if list_ex (\<lambda>r. ot_id r = env_uuid env (drawn s)) (oneTimeTokens kind s) then E uniqueViolation s
     else Q () (onOneTime kind (\<lambda>ts. ts @ [t\<lparr>ot_id := env_uuid env (drawn s)\<rparr>]) (s\<lparr>drawn := Suc (drawn s)\<rparr>)))"
  by (simp add: wpH_def transaction_def createOneTime_eq fun_eq_iff)

text \<open>Mail only adds to the queue, and never fails.\<close>

lemma deliverAuthEmail_frame: "\<exists>js. deliverAuthEmail env aw t u kind raw s = (Inr (), s\<lparr>jobs := jobs s @ js\<rparr>)"
proof -
  have self: "s = s\<lparr>jobs := jobs s @ []\<rparr>" by simp
  show ?thesis
    unfolding deliverAuthEmail_def enqueueEmail_def
    by (cases u) (simp add: monad_defs; use self in \<open>blast\<close>)+
qed

lemma wpH_deliverAuthEmail [wp]:
  "(\<And>js. Q () (s\<lparr>jobs := jobs s @ js\<rparr>)) \<Longrightarrow> wpH (deliverAuthEmail env aw t u kind raw) Q E s"
  using deliverAuthEmail_frame [of env aw t u kind raw s] by (auto simp: wpH_def)

section \<open>One live token per session\<close>

text \<open>
  \<open>sessionsOk u s\<close>: session ids come from the stream \<open>u\<close> of random identifiers, and no session has two
  unrevoked refresh tokens or tokens of two tenants.
\<close>

definition unrevoked :: "string \<Rightarrow> refresh_row list \<Rightarrow> refresh_row list" where
  "unrevoked sid ts = filter (\<lambda>t. rt_sessionId t = Some sid \<and> rt_revokedAt t = None) ts"

definition sessionsOk :: "(nat \<Rightarrow> string) \<Rightarrow> db \<Rightarrow> bool" where
  "sessionsOk u s \<longleftrightarrow>
     (\<forall>t \<in> set (tokensOf s). \<forall>sid. rt_sessionId t = Some sid \<longrightarrow> (\<exists>n < drawn s. u n = sid))
     \<and> (\<forall>sid. length (unrevoked sid (tokensOf s)) \<le> 1)
     \<and> (\<forall>a \<in> set (tokensOf s). \<forall>b \<in> set (tokensOf s).
          rt_sessionId a = rt_sessionId b \<and> rt_sessionId a \<noteq> None \<longrightarrow> rt_tenantId a = rt_tenantId b)"

lemma sessionsOk_I:
  assumes "\<And>t sid. t \<in> set (tokensOf s) \<Longrightarrow> rt_sessionId t = Some sid \<Longrightarrow> \<exists>n < drawn s. u n = sid"
    and "\<And>sid. length (unrevoked sid (tokensOf s)) \<le> 1"
    and "\<And>a b sid. a \<in> set (tokensOf s) \<Longrightarrow> b \<in> set (tokensOf s) \<Longrightarrow> rt_sessionId a = Some sid \<Longrightarrow>
           rt_sessionId b = Some sid \<Longrightarrow> rt_tenantId a = rt_tenantId b"
  shows "sessionsOk u s"
  using assms unfolding sessionsOk_def by fastforce

lemma sessionsOk_D:
  assumes "sessionsOk u s"
  shows "t \<in> set (tokensOf s) \<Longrightarrow> rt_sessionId t = Some sid \<Longrightarrow> \<exists>n < drawn s. u n = sid"
    and "length (unrevoked sid (tokensOf s)) \<le> 1"
    and "a \<in> set (tokensOf s) \<Longrightarrow> b \<in> set (tokensOf s) \<Longrightarrow> rt_sessionId a = Some sid \<Longrightarrow>
           rt_sessionId b = Some sid \<Longrightarrow> rt_tenantId a = rt_tenantId b"
proof -
  show "t \<in> set (tokensOf s) \<Longrightarrow> rt_sessionId t = Some sid \<Longrightarrow> \<exists>n < drawn s. u n = sid"
    using assms unfolding sessionsOk_def by blast
  show "length (unrevoked sid (tokensOf s)) \<le> 1" using assms unfolding sessionsOk_def by blast
  show "rt_tenantId a = rt_tenantId b" if "a \<in> set (tokensOf s)" "b \<in> set (tokensOf s)"
    "rt_sessionId a = Some sid" "rt_sessionId b = Some sid"
  proof -
    have "rt_sessionId a = rt_sessionId b \<and> rt_sessionId a \<noteq> None" using that by simp
    with that(1,2) assms show ?thesis unfolding sessionsOk_def by blast
  qed
qed

lemma unrevoked_append [simp]: "unrevoked sid (xs @ ys) = unrevoked sid xs @ unrevoked sid ys"
  by (simp add: unrevoked_def)

lemma unrevoked_revoke:
  "unrevoked sid (updateMany P (\<lambda>t. t\<lparr>rt_revokedAt := Some now\<rparr>) ts) = filter (\<lambda>t. \<not> P t) (unrevoked sid ts)"
  by (induction ts) (auto simp: unrevoked_def)

lemma sessionsOk_same:
  assumes "sessionsOk u s" and "tokensOf s' = tokensOf s" and "drawn s \<le> drawn s'"
  shows "sessionsOk u s'"
proof (rule sessionsOk_I)
  show "\<exists>n < drawn s'. u n = sid" if "t \<in> set (tokensOf s')" "rt_sessionId t = Some sid" for t sid
  proof -
    have "t \<in> set (tokensOf s)" using that(1) by (simp add: assms(2))
    from sessionsOk_D(1) [OF assms(1) this that(2)] obtain n where "n < drawn s" "u n = sid" by blast
    then show ?thesis using assms(3) by (intro exI [of _ n]) simp
  qed
  show "length (unrevoked sid (tokensOf s')) \<le> 1" for sid
    unfolding assms(2) by (rule sessionsOk_D(2) [OF assms(1)])
  show "rt_tenantId a = rt_tenantId b"
    if "a \<in> set (tokensOf s')" "b \<in> set (tokensOf s')" "rt_sessionId a = Some sid" "rt_sessionId b = Some sid" for a b sid
    using that unfolding assms(2) by (rule sessionsOk_D(3) [OF assms(1)])
qed

lemma sessionsOk_revoke:
  assumes ok: "sessionsOk u s"
    and toks: "tokensOf s' = updateMany P (\<lambda>t. t\<lparr>rt_revokedAt := Some now\<rparr>) (tokensOf s)"
    and "drawn s \<le> drawn s'"
  shows "sessionsOk u s'"
proof (rule sessionsOk_I)
  have old: "\<exists>r \<in> set (tokensOf s). rt_sessionId r = rt_sessionId t \<and> rt_tenantId r = rt_tenantId t"
    if "t \<in> set (tokensOf s')" for t
    using that by (auto simp: toks set_updateMany split: if_splits)
  show "\<exists>n < drawn s'. u n = sid" if "t \<in> set (tokensOf s')" "rt_sessionId t = Some sid" for t sid
  proof -
    from old [OF that(1)] that(2) obtain r where "r \<in> set (tokensOf s)" "rt_sessionId r = Some sid" by auto
    from sessionsOk_D(1) [OF ok this] assms(3) show ?thesis by (blast intro: order_less_le_trans)
  qed
  show "length (unrevoked sid (tokensOf s')) \<le> 1" for sid
    using sessionsOk_D(2) [OF ok] by (auto simp: toks unrevoked_revoke intro: order_trans [OF length_filter_le])
  show "rt_tenantId a = rt_tenantId b"
    if "a \<in> set (tokensOf s')" "b \<in> set (tokensOf s')" "rt_sessionId a = Some sid" "rt_sessionId b = Some sid" for a b sid
  proof -
    from old [OF that(1)] that(3) obtain p where p: "p \<in> set (tokensOf s)" "rt_sessionId p = Some sid" "rt_tenantId p = rt_tenantId a"
      by auto
    from old [OF that(2)] that(4) obtain q where q: "q \<in> set (tokensOf s)" "rt_sessionId q = Some sid" "rt_tenantId q = rt_tenantId b"
      by auto
    show ?thesis using sessionsOk_D(3) [OF ok p(1) q(1) p(2) q(2)] p(3) q(3) by simp
  qed
qed

text \<open>One more token, in a session that has no unrevoked one left.\<close>

lemma sessionsOk_add:
  assumes ok: "sessionsOk u s" and toks: "tokensOf s' = tokensOf s @ [t]" and sid: "rt_sessionId t = Some sid"
    and gone: "unrevoked sid (tokensOf s) = []" and "\<exists>n < drawn s'. u n = sid" and "drawn s \<le> drawn s'"
    and tenant: "\<And>r. r \<in> set (tokensOf s) \<Longrightarrow> rt_sessionId r = Some sid \<Longrightarrow> rt_tenantId r = rt_tenantId t"
  shows "sessionsOk u s'"
proof (rule sessionsOk_I)
  show "\<exists>n < drawn s'. u n = x" if "t' \<in> set (tokensOf s')" "rt_sessionId t' = Some x" for t' x
  proof (cases "t' \<in> set (tokensOf s)")
    case True
    from sessionsOk_D(1) [OF ok True that(2)] assms(6) show ?thesis by (blast intro: order_less_le_trans)
  next
    case False
    then show ?thesis using that assms(5) sid by (simp add: toks)
  qed
  show "length (unrevoked x (tokensOf s')) \<le> 1" for x
  proof (cases "x = sid")
    case True
    then show ?thesis using gone by (simp add: toks) (simp add: unrevoked_def)
  next
    case False
    then have "unrevoked x [t] = []" using sid by (simp add: unrevoked_def)
    then show ?thesis using sessionsOk_D(2) [OF ok] by (simp add: toks)
  qed
  show "rt_tenantId a = rt_tenantId b"
    if "a \<in> set (tokensOf s')" "b \<in> set (tokensOf s')" "rt_sessionId a = Some x" "rt_sessionId b = Some x" for a b x
  proof (cases "a \<in> set (tokensOf s)"; cases "b \<in> set (tokensOf s)")
    assume "a \<in> set (tokensOf s)" "b \<in> set (tokensOf s)"
    then show ?thesis using that(3,4) by (rule sessionsOk_D(3) [OF ok])
  qed (use that sid tenant [of a] tenant [of b] in \<open>simp_all add: toks\<close>)
qed

lemma sessionsOk_open:
  assumes ok: "sessionsOk u s" and "inj u" and "tokensOf s' = tokensOf s @ [t]" and "rt_sessionId t = Some (u (drawn s))"
    and "drawn s < drawn s'"
  shows "sessionsOk u s'"
proof -
  have new: "rt_sessionId r \<noteq> Some (u (drawn s))" if "r \<in> set (tokensOf s)" for r
    using sessionsOk_D(1) [OF ok that] assms(2) by (metis inj_def less_irrefl)
  then have "unrevoked (u (drawn s)) (tokensOf s) = []" by (auto simp: unrevoked_def filter_empty_conv)
  then show ?thesis using new assms(3-5) by (intro sessionsOk_add [OF ok]) auto
qed

lemma sessionsOk_rotate:
  assumes ok: "sessionsOk u s" and mem: "stored \<in> set (tokensOf s)" and "rt_revokedAt stored = None"
    and sid: "rt_sessionId stored = Some sid"
    and toks: "tokensOf s' = updateMany (\<lambda>r. rt_id r = rt_id stored) (\<lambda>r. r\<lparr>rt_revokedAt := Some now\<rparr>) (tokensOf s) @ [t]"
    and new: "rt_sessionId t = Some sid" "rt_tenantId t = rt_tenantId stored" and "drawn s \<le> drawn s'"
  shows "sessionsOk u s'"
proof -
  let ?rev = "updateMany (\<lambda>r. rt_id r = rt_id stored) (\<lambda>r. r\<lparr>rt_revokedAt := Some now\<rparr>) (tokensOf s)"
  define m where "m = accounts_update (refreshTokens_update (\<lambda>_. ?rev)) s"
  have m: "sessionsOk u m" "tokensOf m = ?rev" "drawn m = drawn s"
    using sessionsOk_revoke [OF ok] by (simp_all add: m_def)
  have "stored \<in> set (unrevoked sid (tokensOf s))" using assms by (simp add: unrevoked_def)
  then have "unrevoked sid (tokensOf s) = [stored]"
    using sessionsOk_D(2) [OF ok, of sid] by (cases "unrevoked sid (tokensOf s)") auto
  then have "unrevoked sid (tokensOf m) = []" by (simp add: m unrevoked_revoke)
  moreover have "\<exists>n < drawn s'. u n = sid" using sessionsOk_D(1) [OF ok mem sid] assms(8) by (blast intro: order_less_le_trans)
  moreover have "rt_tenantId r = rt_tenantId t" if "r \<in> set (tokensOf m)" "rt_sessionId r = Some sid" for r
    using that sessionsOk_D(3) [OF ok _ mem _ sid] new(2) by (auto simp: m set_updateMany split: if_splits)
  ultimately show ?thesis using m toks new assms(8) by (intro sessionsOk_add [OF m(1)]) auto
qed

lemma keepsH_cases [keeps]:
  "keepsH I m \<Longrightarrow> (\<And>y. keepsH I (k y)) \<Longrightarrow> keepsH I (case x of None \<Rightarrow> m | Some y \<Rightarrow> k y)"
  "(\<And>a b. keepsH I (h a b)) \<Longrightarrow> keepsH I (case p of (a, b) \<Rightarrow> h a b)"
  "keepsH I m \<Longrightarrow> (\<And>y ys. keepsH I (g y ys)) \<Longrightarrow> keepsH I (case xs of [] \<Rightarrow> m | y # ys \<Rightarrow> g y ys)"
  by (simp_all split: option.split prod.split list.split)

lemma createUser_eq:
  "createUser env d h s =
     (let i = env_uuid env (drawn s);
          row = \<lparr>us_id = i, us_tenantId = nu_tenantId d, us_email = nu_email d, us_passwordHash = h,
            us_firstName = nu_firstName d, us_lastName = nu_lastName d, us_status = U_ACTIVE, us_emailVerified = False,
            us_lastLoginAt = None, us_createdAt = env_now env, us_updatedAt = env_now env\<rparr>;
          s' = memberships_update (\<lambda>ms. ms @ [\<lparr>mb_tenantId = nu_tenantId d, mb_userId = i, mb_active = True\<rparr>])
            (accounts_update (users_update (\<lambda>us. us @ [row])) (s\<lparr>drawn := Suc (drawn s)\<rparr>))
      in if list_ex (\<lambda>u. us_email u = nu_email d \<or> us_id u = i) (users (accounts s)) then Inl uniqueViolation
         else Inr (loadMemberships (\<lambda>_. True) s' row, s'))"
  by (simp add: createUser_def freshId_def monad_defs Let_def)

lemma sessions_base [keeps]:
  "keepsH (sessionsOk u) (drawH env)"
  "keepsH (sessionsOk u) (updateUser env i f)"
  "keepsH (sessionsOk u) (revokeWhere env P)"
  "keepsH (sessionsOk u) (transaction (createOneTime env kind ot))"
  "keepsH (sessionsOk u) (transaction (createUser env d h))"
  "keepsH (sessionsOk u) (assertWithinPlan env t r)"
  "keepsH (sessionsOk u) (deliverAuthEmail env aw t usr kind raw)"
  "keepsH (sessionsOk u) (writeH (onOneTime kind g))"
  "keepsH (sessionsOk u) (writeH (revokeById env i))"
proof -
  have same: "sessionsOk u s \<Longrightarrow> tokensOf s' = tokensOf s \<Longrightarrow> drawn s \<le> drawn s' \<Longrightarrow> sessionsOk u s'" for s s'
    by (rule sessionsOk_same)
  show "keepsH (sessionsOk u) (drawH env)" by (rule keepsH_wp) (auto simp: wp elim: same)
  show "keepsH (sessionsOk u) (updateUser env i f)" by (rule keepsH_wp) (auto simp: wp elim: same)
  show "keepsH (sessionsOk u) (revokeWhere env P)" by (rule keepsH_wp) (auto simp: wp elim: sessionsOk_revoke)
  show "keepsH (sessionsOk u) (transaction (createOneTime env kind ot))"
    by (rule keepsH_wp) (auto simp: wp elim: same)
  show "keepsH (sessionsOk u) (transaction (createUser env d h))"
    by (auto simp: keepsH_def transaction_def createUser_eq Let_def elim: same)
  show "keepsH (sessionsOk u) (assertWithinPlan env t r)" by (rule keepsH_wp) (simp add: wp)
  show "keepsH (sessionsOk u) (deliverAuthEmail env aw t usr kind raw)"
    by (rule keepsH_wp) (auto intro!: wpH_deliverAuthEmail elim: same)
  show "keepsH (sessionsOk u) (writeH (onOneTime kind g))" by (rule keepsH_wp) (auto simp: wp elim: same)
  show "keepsH (sessionsOk u) (writeH (revokeById env i))"
    by (rule keepsH_wp) (auto simp: wp revokeById_def elim: sessionsOk_revoke)
qed

lemmas sessions_ops = updateLastLogin_def revokeSessionRows_def revokeUserSessions_def revokeAllUserRefreshTokens_def
  revokeRefreshToken_def markOneTimeUsed_def invalidateUnusedVerifyTokens_def newOneTime_def sendEmailVerification_def
  hashPassword_def findActiveUser_def usableOneTime_def

lemma openSession_keeps [keeps]:
  assumes "inj (env_uuid env)"
  shows "keepsH (sessionsOk (env_uuid env)) (openSession env aw user t scope c)"
proof (rule keepsH_wp)
  fix s
  assume ok: "sessionsOk (env_uuid env) s"
  show "wpH (openSession env aw user t scope c) (\<lambda>_. sessionsOk (env_uuid env)) (\<lambda>_. sessionsOk (env_uuid env)) s"
    by (auto simp: openSession_def updateLastLogin_def generateRefreshToken_def wp parseExpiry_used refreshRow_def
        intro: sessionsOk_same [OF ok] sessionsOk_open [OF ok assms])
qed

lemma rotateTx_eq:
  "findRefreshTokenByHash (rt_tokenHash stored) s = Some stored \<Longrightarrow>
   rotateTx env aw stored userId sid raw c s =
     createRefreshToken env (refreshRow env aw (rt_tenantId stored) userId sid raw
       \<lparr>ci_userAgent = (case ci_userAgent c of None \<Rightarrow> rt_userAgent stored | Some a \<Rightarrow> Some a),
        ci_ipAddress = (case ci_ipAddress c of None \<Rightarrow> rt_ipAddress stored | Some a \<Rightarrow> Some a)\<rparr> (hoursMs 168))
       (revokeById env (rt_id stored) s)"
  by (simp add: rotateTx_def monad_defs parseExpiry_used)

lemma rotate_keeps:
  assumes "inj (env_uuid env)" and "rt_revokedAt stored = None" and ok: "sessionsOk (env_uuid env) s"
    and found: "findRefreshTokenByHash (rt_tokenHash stored) s = Some stored"
  shows "sessionsOk (env_uuid env) (snd (rotate env aw stored scope user c s))"
proof -
  have mem: "stored \<in> set (tokensOf s)" using found by (auto simp: findRefreshTokenByHash_def dest: find_SomeD)
  have found': "findRefreshTokenByHash (rt_tokenHash stored) (s\<lparr>drawn := n\<rparr>) = Some stored" for n
    using found by (simp add: findRefreshTokenByHash_def)
  show ?thesis
  proof (cases "rt_sessionId stored")
    case None
    have rev: "sessionsOk (env_uuid env) (revokeById env (rt_id stored) s)"
      by (rule sessionsOk_revoke [OF ok]) (auto simp: revokeById_def)
    show ?thesis
      using None
      by (auto simp: rotate_def bindH_def thenH_def transaction_def rotateTx_eq found' createRefreshToken_eq refreshRow_def
          revokeById_def returnH_def intro: sessionsOk_same [OF ok] sessionsOk_open [OF rev assms(1)])
  next
    case (Some sid)
    then show ?thesis
      by (auto simp: rotate_def bindH_def thenH_def transaction_def rotateTx_eq found' createRefreshToken_eq refreshRow_def
          revokeById_def returnH_def intro: sessionsOk_same [OF ok] sessionsOk_rotate [OF ok mem assms(2) Some])
  qed
qed

lemma keepsH_readH_bind:
  "(\<And>s. I s \<Longrightarrow> I (snd (k (f s) s))) \<Longrightarrow> keepsH I (bindH (readH f) k)"
  by (simp add: keepsH_def monad_defs)

lemma sessionUser_reads: "snd (sessionUser stored scope s) = s"
  by (simp add: sessionUser_def monad_defs split: option.split)

lemma rejectReplay_keeps [keeps]: "keepsH (sessionsOk u) (rejectReplay env stored)"
  unfolding rejectReplay_def sessions_ops by (intro keeps)

lemma bindH_assoc: "bindH (bindH m f) g = bindH m (\<lambda>x. bindH (f x) g)"
  by (rule ext) (simp add: bindH_def split: prod.split sum.split)

lemma returnH_bind: "bindH (returnH x) g = g x"
  by (rule ext) (simp add: bindH_def returnH_def)

lemma rejectReplay_bind: "bindH (rejectReplay env stored) g = rejectReplay env stored"
  by (rule ext) (simp add: rejectReplay_def monad_defs split: prod.split sum.split option.split)

lemma refresh_flat:
  "refresh env aw refreshToken client =
     bindH (readH (findRefreshTokenByHash (aw_sha256 aw refreshToken))) (\<lambda>found.
     bindH (orThrowH found (AppError 401 ''INVALID_REFRESH_TOKEN'')) (\<lambda>stored.
     thenH (throwIfH (rt_expiresAt stored < env_now env) (AppError 401 ''REFRESH_TOKEN_EXPIRED''))
    (if rt_revokedAt stored \<noteq> None then rejectReplay env stored
     else bindH (readH (\<lambda>s. case findTenant (rt_tenantId stored) s of
              Some t \<Rightarrow> (if tn_slug t = PLATFORM_TENANT_SLUG then ''platform'' else ''tenant'')
            | None \<Rightarrow> ''tenant'')) (\<lambda>scope.
          bindH (sessionUser stored scope) (\<lambda>user.
          rotate env aw stored scope user client)))))"
  by (simp add: refresh_def refreshCheck_def bindH_assoc thenH_def if_distrib [of "\<lambda>m. bindH m g" for g]
      rejectReplay_bind returnH_bind cong: if_cong)

lemma refresh_keeps [keeps]:
  assumes "inj (env_uuid env)"
  shows "keepsH (sessionsOk (env_uuid env)) (refresh env aw raw c)"
  unfolding refresh_flat
proof (rule keepsH_readH_bind)
  fix s
  assume ok: "sessionsOk (env_uuid env) s"
  let ?scopeOf = "\<lambda>stored s. case findTenant (rt_tenantId stored) s of
              Some t \<Rightarrow> (if tn_slug t = PLATFORM_TENANT_SLUG then ''platform'' else ''tenant'')
            | None \<Rightarrow> ''tenant''"
  let ?rest = "\<lambda>stored. thenH (throwIfH (rt_expiresAt stored < env_now env) (AppError 401 ''REFRESH_TOKEN_EXPIRED''))
    (if rt_revokedAt stored \<noteq> None then rejectReplay env stored
     else bindH (readH (?scopeOf stored)) (\<lambda>scope.
          bindH (sessionUser stored scope) (\<lambda>user. rotate env aw stored scope user c)))"
  have "sessionsOk (env_uuid env) (snd (?rest stored s))" if found: "findRefreshTokenByHash (aw_sha256 aw raw) s = Some stored" for stored
  proof (cases "rt_revokedAt stored = None")
    case False
    have "sessionsOk (env_uuid env) (snd ((rejectReplay env stored :: login_result dbio) s))"
      using rejectReplay_keeps ok unfolding keepsH_def by blast
    then show ?thesis using False ok by (simp add: thenH_def bindH_def throwIfH_def throwH_def returnH_def)
  next
    case True
    have "rt_tokenHash stored = aw_sha256 aw raw"
      using found by (auto simp: findRefreshTokenByHash_def dest: find_SomeD)
    then have rot: "sessionsOk (env_uuid env) (snd (rotate env aw stored scope user c s))" for scope user
      using rotate_keeps [OF assms True ok] found by simp
    obtain r where r: "sessionUser stored (?scopeOf stored s) s = (r, s)"
      using sessionUser_reads [of stored "?scopeOf stored s" s] by (cases "sessionUser stored (?scopeOf stored s) s") simp
    show ?thesis
      using True ok rot r
      by (cases r) (simp_all add: thenH_def bindH_def throwIfH_def throwH_def returnH_def readH_def)
  qed
  then show "sessionsOk (env_uuid env) (snd (bindH (orThrowH (findRefreshTokenByHash (aw_sha256 aw raw) s)
      (AppError 401 ''INVALID_REFRESH_TOKEN'')) ?rest s))"
    using ok by (cases "findRefreshTokenByHash (aw_sha256 aw raw) s") (simp_all add: bindH_def orThrowH_def throwH_def returnH_def)
qed

datatype auth_op =
    OpRegister "string option" string string string string
  | OpLogin login_body client
  | OpRefresh string client
  | OpLogout "string option"
  | OpChangePassword string "string option" string string
  | OpUpdateMe string string "string option" "string option"
  | OpResend string string
  | OpRevokeSession string string string
  | OpLogoutAll string
  | OpForgot string "string option" "string option"
  | OpReset string string
  | OpVerify string

fun performAuth :: "auth_world \<Rightarrow> env \<times> auth_op \<Rightarrow> db \<Rightarrow> db" where
  "performAuth aw (env, OpRegister t e p f l) s = snd (register env aw t e p f l s)"
| "performAuth aw (env, OpLogin b c) s = snd (login env aw b c s)"
| "performAuth aw (env, OpRefresh r c) s = snd (refresh env aw r c s)"
| "performAuth aw (env, OpLogout r) s = snd (logout env aw r s)"
| "performAuth aw (env, OpChangePassword i sid c n) s = snd (changePassword env aw i sid c n s)"
| "performAuth aw (env, OpUpdateMe i t f l) s = snd (updateMe env i t f l s)"
| "performAuth aw (env, OpResend i t) s = snd (resendVerification env aw i t s)"
| "performAuth aw (env, OpRevokeSession i t sid) s = snd (revokeSession env i t sid s)"
| "performAuth aw (env, OpLogoutAll i) s = snd (logoutAll env i s)"
| "performAuth aw (env, OpForgot e t sl) s = snd (forgotPassword env aw e t sl s)"
| "performAuth aw (env, OpReset t p) s = snd (resetPassword env aw t p s)"
| "performAuth aw (env, OpVerify t) s = snd (verifyEmail env aw t s)"

fun performAuths :: "auth_world \<Rightarrow> (env \<times> auth_op) list \<Rightarrow> db \<Rightarrow> db" where
  "performAuths aw [] s = s"
| "performAuths aw (c # cs) s = performAuths aw cs (performAuth aw c s)"

lemma login_keeps [keeps]:
  "inj (env_uuid env) \<Longrightarrow> keepsH (sessionsOk (env_uuid env)) (login env aw b c)"
  unfolding login_def platformLogin_def tenantLogin_def autoResolve_def resolveSlug_def
  by (intro keeps impI | assumption)+

lemma account_keeps [keeps]:
  "keepsH (sessionsOk u) (register env aw t0 e p f l)"
  "keepsH (sessionsOk u) (logout env aw r)"
  "keepsH (sessionsOk u) (changePassword env aw i sid cur new)"
  "keepsH (sessionsOk u) (resendVerification env aw i t)"
  "keepsH (sessionsOk u) (revokeSession env i t sid')"
  "keepsH (sessionsOk u) (logoutAll env i)"
  "keepsH (sessionsOk u) (forgotPassword env aw e t' sl)"
  "keepsH (sessionsOk u) (resetPassword env aw tok p)"
  "keepsH (sessionsOk u) (verifyEmail env aw tok)"
  "keepsH (sessionsOk u) (getMe i t scope)"
  "keepsH (sessionsOk u) (updateMe env i t fn sn)"
  unfolding register_def logout_def changePassword_def resendVerification_def revokeSession_def logoutAll_def
    forgotPassword_def resetPassword_def verifyEmail_def getMe_def updateMe_def sessions_ops
  by (intro keeps)+

lemma keepsH_D: "keepsH I m \<Longrightarrow> I s \<Longrightarrow> I (snd (m s))"
  by (simp add: keepsH_def)

lemma performAuth_keeps:
  assumes "inj u" and "sessionsOk u s" and "env_uuid (fst c) = u"
  shows "sessionsOk u (performAuth aw c s)"
proof -
  obtain env op where c: "c = (env, op)" by (cases c)
  have u: "u = env_uuid env" and inj: "inj (env_uuid env)" using assms(1,3) c by simp_all
  have ok: "sessionsOk (env_uuid env) s" using assms(2) u by simp
  show ?thesis
    unfolding c u
    by (cases op; simp only: performAuth.simps; rule keepsH_D [where I = "sessionsOk (env_uuid env)", OF _ ok];
        intro keeps inj)
qed

text \<open>A login session never has two usable refresh tokens, and all its tokens are of one tenant, as long as
  requests do not overlap: whatever sequence of account operations runs, at most one token of each session is
  unrevoked afterwards. Theory Sessions shows that overlapping refreshes break it.\<close>

theorem one_token_per_session:
  assumes "inj u" and "sessionsOk u s" and "\<forall>c \<in> set cs. env_uuid (fst c) = u"
  shows "(\<forall>sid. length (unrevoked sid (tokensOf (performAuths aw cs s))) \<le> 1)
    \<and> (\<forall>a \<in> set (tokensOf (performAuths aw cs s)). \<forall>b \<in> set (tokensOf (performAuths aw cs s)).
         rt_sessionId a = rt_sessionId b \<and> rt_sessionId a \<noteq> None \<longrightarrow> rt_tenantId a = rt_tenantId b)"
proof -
  have "sessionsOk u (performAuths aw cs s)"
    using assms
  proof (induction cs arbitrary: s)
    case (Cons c cs)
    then show ?case by (simp add: performAuth_keeps)
  qed simp
  then show ?thesis unfolding sessionsOk_def by blast
qed

text \<open>A world with invertible stand-ins for the cryptography, and a shop with one owner.\<close>

definition demoAuth :: auth_world where
  "demoAuth = \<lparr>aw_sha256 = (\<lambda>t. ''h'' @ t), aw_hash = (\<lambda>salt p. p), aw_verify = (\<lambda>h p. h = p),
     aw_sign = (\<lambda>n c. cl_sub c @ '':'' @ cl_sessionId c), aw_exposeDevTokens = False, aw_appUrl = ''app'',
     aw_encodeURIComponent = id\<rparr>"

definition owner :: user_row where
  "owner = \<lparr>us_id = ''u'', us_tenantId = ''t'', us_email = ''e'', us_passwordHash = ''pw'', us_firstName = ''F'',
     us_lastName = ''L'', us_status = U_ACTIVE, us_emailVerified = False, us_lastLoginAt = None, us_createdAt = 0,
     us_updatedAt = 0\<rparr>"

definition authDb :: db where
  "authDb = demoDb\<lparr>memberships := [\<lparr>mb_tenantId = ''t'', mb_userId = ''u'', mb_active = True\<rparr>],
     accounts := emptyAccounts\<lparr>users := [owner]\<rparr>\<rparr>"

definition ownerLogin :: login_body where
  "ownerLogin = \<lparr>lb_email = ''e'', lb_password = ''pw'', lb_scope = None, lb_tenantId = None, lb_tenantSlug = Some ''shop''\<rparr>"

definition noClient :: client where
  "noClient = \<lparr>ci_userAgent = None, ci_ipAddress = None\<rparr>"

lemma demoEnv_inj: "inj (env_uuid demoEnv)"
  by (rule injI) (metis demoEnv_def env.select_convs(2) append_same_eq length_replicate)

lemma authDb_ok: "sessionsOk (env_uuid demoEnv) authDb"
  by (simp add: sessionsOk_def authDb_def emptyAccounts_def unrevoked_def)

lemma one_token_per_session_witness:
  "length (unrevoked ''d'' (tokensOf (performAuths demoAuth
      [(demoEnv, OpLogin ownerLogin noClient), (demoEnv, OpRefresh ''id'' noClient), (demoEnv, OpRefresh ''id'' noClient)]
      authDb))) \<le> 1"
  using one_token_per_session [OF demoEnv_inj authDb_ok,
      of "[(demoEnv, OpLogin ownerLogin noClient), (demoEnv, OpRefresh ''id'' noClient), (demoEnv, OpRefresh ''id'' noClient)]"]
  by auto

end
