(* ===== verification/Sessions.thy ===== *)
theory Sessions
  imports Auth
begin

text \<open>
  What sign-in guarantees: theorems about the operations of theory Auth. A login opens one live session, a
  replayed refresh token ends it, a password reset ends them all and works once, asking for a reset tells a
  stranger nothing; and two gaps, a refresh that races with itself and the platform's tenant addressed by id.
\<close>

section \<open>Logging in\<close>

lemma openSession_Inr:
  assumes "openSession env aw user t scope c s = (Inr r, s')"
  shows "\<exists>tok. tokensOf s' = tokensOf s @ [tok] \<and> rt_sessionId tok = Some (lr_sessionId r)
      \<and> rt_userId tok = us_id (ac_user user) \<and> rt_tenantId tok = t \<and> rt_revokedAt tok = None
      \<and> rt_expiresAt tok = env_now env + hoursMs 168 \<and> rt_tokenHash tok = aw_sha256 aw (lr_refreshToken r)"
    and "lr_scope r = scope" and "lr_user r = toSafeUser user (Some t) (Some scope)"
    and "lr_accessToken r = generateAccessToken env aw (ac_user user) (lr_sessionId r) t scope"
  using assms
  by (auto simp: openSession_def updateLastLogin_def generateRefreshToken_def outcome updateUser_eq createRefreshToken_eq
      parseExpiry_used refreshRow_def split: if_splits)

lemma findUserByEmailAndTenant_SomeD:
  assumes "findUserByEmailAndTenant email t s = Some a"
  shows "ac_user a \<in> set (users (accounts s))" and "us_email (ac_user a) = email" and "isMember s t (us_id (ac_user a))"
    and "ac_memberships a = map (\<lambda>m. (m, findTenant (mb_tenantId m) s))
        (filter (\<lambda>m. mb_userId m = us_id (ac_user a) \<and> mb_tenantId m = t \<and> mb_active m) (memberships s))"
  using assms by (auto simp: findUserByEmailAndTenant_def loadMemberships_def dest: find_SomeD)

lemma hasActiveTenant_open:
  assumes "hasActiveTenant a t"
    and "ac_memberships a = map (\<lambda>m. (m, findTenant (mb_tenantId m) s)) ms"
  shows "\<exists>tn. findTenant t s = Some tn \<and> tenantOpen tn"
  using assms by (auto simp: hasActiveTenant_def split: option.splits dest!: find_SomeD) (metis option.exhaust)

lemma resolveSlug_reads: "resolveSlug b s = (r, s') \<Longrightarrow> s' = s"
  by (auto simp: resolveSlug_def monad_defs split: option.splits if_splits)

lemma autoResolve_Inr:
  assumes "autoResolve aw b s = (Inr (u, t, k), s')"
  shows "s' = s \<and> findUserByEmailAndTenant (lb_email b) t s = Some u"
proof (cases "findUserByEmail (lb_email b) s")
  case None
  then show ?thesis using assms by (simp add: autoResolve_def monad_defs)
next
  case (Some a)
  show ?thesis
  proof (cases "filter (\<lambda>mt. \<not> onPlatform mt \<and> mb_active (fst mt)) (ac_memberships a)")
    case Nil
    then show ?thesis using assms Some by (simp add: autoResolve_def outcome)
  next
    case (Cons mt rest)
    then show ?thesis using assms Some by (cases mt; cases rest) (simp_all add: autoResolve_def outcome)
  qed
qed

lemma tenantLogin_Inr:
  assumes "tenantLogin env aw b c s = (Inr r, s')"
  obtains u t where "findUserByEmailAndTenant (lb_email b) t s = Some u" "hasActiveTenant u t"
    "us_status (ac_user u) = U_ACTIVE" "aw_verify aw (us_passwordHash (ac_user u)) (lb_password b)"
    "openSession env aw u t ''tenant'' c s = (Inr r, s')"
proof -
  from assms obtain rid st s0 where p: "resolveSlug b s = (Inr (rid, st), s0)"
    by (auto simp: tenantLogin_def bindH_def split: sum.splits prod.splits)
  then have s0: "s0 = s" by (rule resolveSlug_reads)
  define pick where "pick = (case rid of
         Some t \<Rightarrow>
           bindH (readH (findUserByEmailAndTenant (lb_email b) t)) (\<lambda>found.
           bindH (orThrowH found invalidCredentials) (\<lambda>u. returnH (u, t, st)))
       | None \<Rightarrow> autoResolve aw b)"
  from assms p s0 obtain u t k s1 where res: "pick s = (Inr (u, t, k), s1)"
    and rest: "bindH (readH (\<lambda>s. case k of Some t \<Rightarrow> Some t | None \<Rightarrow> findTenant t s)) (\<lambda>found.
     bindH (orThrowH found tenantNotFound) (\<lambda>tenant.
     thenH (throwIfH (\<not> tenantOpen tenant) tenantInactive)
    (thenH (throwIfH (\<not> hasActiveTenant u t) tenantInactive)
    (thenH (throwIfH (us_status (ac_user u) \<noteq> U_ACTIVE) accountInactive)
    (thenH (throwIfH (\<not> aw_verify aw (us_passwordHash (ac_user u)) (lb_password b)) invalidCredentials)
       (openSession env aw u t ''tenant'' c)))))) s1 = (Inr r, s')"
    by (auto simp: tenantLogin_def pick_def bindH_def [of "resolveSlug b"] bindH_def [of "case rid of None \<Rightarrow> _ | Some y \<Rightarrow> _ y"]
        split: sum.splits prod.splits)
  have "s1 = s \<and> findUserByEmailAndTenant (lb_email b) t s = Some u"
  proof (cases rid)
    case None
    then show ?thesis using res autoResolve_Inr by (simp add: pick_def)
  next
    case (Some x)
    then show ?thesis using res by (simp add: pick_def outcome)
  qed
  then show thesis using rest by (intro that) (auto simp: outcome)
qed

text \<open>A login that succeeds is one of a user with that e-mail and password. The user and the membership in the
  business are active and so is the business; the new session is live, the access token is signed for
  this user, business and session, and only the hash of the refresh token is stored.\<close>

theorem login_opens_session:
  assumes "tenantLogin env aw b c s = (Inr r, s')"
  shows "\<exists>u t tn tok. u \<in> set (users (accounts s)) \<and> us_email u = lb_email b \<and> us_status u = U_ACTIVE
      \<and> aw_verify aw (us_passwordHash u) (lb_password b) \<and> isMember s t (us_id u)
      \<and> findTenant t s = Some tn \<and> tenantOpen tn
      \<and> tokensOf s' = tokensOf s @ [tok] \<and> rt_tokenHash tok = aw_sha256 aw (lr_refreshToken r)
      \<and> isSessionActive env (lr_sessionId r) (us_id u) s'
      \<and> lr_accessToken r = aw_sign aw (env_now env) \<lparr>cl_sub = us_id u, cl_tenantId = t, cl_sessionId = lr_sessionId r,
           cl_email = us_email u, cl_scope = ''tenant''\<rparr>"
proof -
  from assms obtain u t where u: "findUserByEmailAndTenant (lb_email b) t s = Some u" and "hasActiveTenant u t"
    and active: "us_status (ac_user u) = U_ACTIVE" "aw_verify aw (us_passwordHash (ac_user u)) (lb_password b)"
    and run: "openSession env aw u t ''tenant'' c s = (Inr r, s')" by (rule tenantLogin_Inr)
  obtain tn where "findTenant t s = Some tn" "tenantOpen tn"
    using hasActiveTenant_open [OF \<open>hasActiveTenant u t\<close> findUserByEmailAndTenant_SomeD(4) [OF u]] by blast
  moreover obtain tok where tok: "tokensOf s' = tokensOf s @ [tok]" "rt_sessionId tok = Some (lr_sessionId r)"
      "rt_userId tok = us_id (ac_user u)" "rt_revokedAt tok = None" "rt_expiresAt tok = env_now env + hoursMs 168"
      "rt_tokenHash tok = aw_sha256 aw (lr_refreshToken r)" using openSession_Inr(1) [OF run] by blast
  moreover have "isSessionActive env (lr_sessionId r) (us_id (ac_user u)) s'"
    using tok by (simp add: isSessionActive_def tokenLive_def)
  ultimately show ?thesis
    using findUserByEmailAndTenant_SomeD(1-3) [OF u] active openSession_Inr(4) [OF run]
    unfolding generateAccessToken_def by blast
qed

lemma login_opens_session_witness:
  "\<exists>r s'. tenantLogin demoEnv demoAuth ownerLogin noClient authDb = (Inr r, s')
     \<and> isSessionActive demoEnv (lr_sessionId r) ''u'' s'"
proof -
  have "succeeded (tenantLogin demoEnv demoAuth ownerLogin noClient authDb)" by code_simp
  then obtain r s' where run: "tenantLogin demoEnv demoAuth ownerLogin noClient authDb = (Inr r, s')" by (rule succeededE)
  from login_opens_session [OF run] obtain u where "u \<in> set (users (accounts authDb))"
    "isSessionActive demoEnv (lr_sessionId r) (us_id u) s'" by blast
  then show ?thesis using run by (auto simp: authDb_def owner_def)
qed

text \<open>C19: a stolen refresh token ends its session. Presenting a token that was already exchanged, and has not
  itself expired, is refused and revokes every token of its session, so the session is over for whoever holds it; other
  sessions keep theirs. An exchanged token that is presented after its own expiry is refused as expired and nothing changes: the
  session goes on. The tokens of the session are of one tenant.\<close>

theorem replay_ends_session:
  assumes found: "findRefreshTokenByHash (aw_sha256 aw raw) s = Some stored"
    and "rt_revokedAt stored \<noteq> None" and sid: "rt_sessionId stored = Some sid" "sid \<noteq> []"
    and tenant: "\<forall>t \<in> set (tokensOf s). rt_sessionId t = Some sid \<longrightarrow> rt_tenantId t = rt_tenantId stored"
  shows "(env_now env \<le> rt_expiresAt stored \<longrightarrow>
        fst (refresh env aw raw c s) = Inl (AppError 401 ''REFRESH_TOKEN_REVOKED'')
        \<and> \<not> isSessionActive env' sid (rt_userId stored) (snd (refresh env aw raw c s))
        \<and> filter (\<lambda>t. rt_sessionId t \<noteq> Some sid) (tokensOf (snd (refresh env aw raw c s)))
            = filter (\<lambda>t. rt_sessionId t \<noteq> Some sid) (tokensOf s))
    \<and> (rt_expiresAt stored < env_now env \<longrightarrow>
        refresh env aw raw c s = (Inl (AppError 401 ''REFRESH_TOKEN_EXPIRED''), s))"
proof (intro conjI impI)
  assume live: "env_now env \<le> rt_expiresAt stored"
  let ?hit = "\<lambda>t. rt_sessionId t = Some sid \<and> rt_userId t = rt_userId stored \<and> rt_tenantId t = rt_tenantId stored"
  let ?rev = "updateMany (\<lambda>t. ?hit t \<and> rt_revokedAt t = None) (\<lambda>t. t\<lparr>rt_revokedAt := Some (env_now env)\<rparr>) (tokensOf s)"
  show run: "fst (refresh env aw raw c s) = Inl (AppError 401 ''REFRESH_TOKEN_REVOKED'')"
    using assms(2) live sid found
    by (simp add: refresh_flat rejectReplay_def revokeSessionRows_def monad_defs nonEmpty_def revokeWhere_eq)
  have toks: "tokensOf (snd (refresh env aw raw c s)) = ?rev"
    using assms(2) live sid found
    by (simp add: refresh_flat rejectReplay_def revokeSessionRows_def monad_defs nonEmpty_def revokeWhere_eq conj_assoc)
  show "\<not> isSessionActive env' sid (rt_userId stored) (snd (refresh env aw raw c s))"
    using tenant by (auto simp: isSessionActive_def tokenLive_def toks list_ex_iff set_updateMany split: if_splits)
  have "filter (\<lambda>t. rt_sessionId t \<noteq> Some sid) (updateMany (\<lambda>t. ?hit t \<and> rt_revokedAt t = None)
      (\<lambda>t. t\<lparr>rt_revokedAt := Some (env_now env)\<rparr>) ts) = filter (\<lambda>t. rt_sessionId t \<noteq> Some sid) ts" for ts
    by (induction ts) auto
  then show "filter (\<lambda>t. rt_sessionId t \<noteq> Some sid) (tokensOf (snd (refresh env aw raw c s)))
            = filter (\<lambda>t. rt_sessionId t \<noteq> Some sid) (tokensOf s)" by (simp add: toks)
next
  assume "rt_expiresAt stored < env_now env"
  then show "refresh env aw raw c s = (Inl (AppError 401 ''REFRESH_TOKEN_EXPIRED''), s)"
    using found by (simp add: refresh_flat monad_defs)
qed

definition spentToken :: refresh_row where
  "spentToken = \<lparr>rt_id = ''r1'', rt_tenantId = ''t'', rt_userId = ''u'', rt_tokenHash = ''hA'', rt_expiresAt = 9000,
     rt_revokedAt = Some 500, rt_createdAt = 0, rt_sessionId = Some ''d'', rt_userAgent = None, rt_ipAddress = None,
     rt_lastUsedAt = None\<rparr>"

definition sessionDb :: db where
  "sessionDb = authDb\<lparr>drawn := 1, accounts := emptyAccounts\<lparr>users := [owner],
     refreshTokens := [spentToken, spentToken\<lparr>rt_id := ''r2'', rt_tokenHash := ''hB'', rt_revokedAt := None\<rparr>]\<rparr>\<rparr>"

lemma sessionDb_ok: "sessionsOk (env_uuid demoEnv) sessionDb"
  by (auto simp: sessionsOk_def sessionDb_def spentToken_def unrevoked_def demoEnv_def)

lemma replay_ends_session_witness:
  "fst (refresh demoEnv demoAuth ''A'' noClient sessionDb) = Inl (AppError 401 ''REFRESH_TOKEN_REVOKED'')
   \<and> isSessionActive demoEnv ''d'' ''u'' sessionDb
   \<and> \<not> isSessionActive demoEnv ''d'' ''u'' (snd (refresh demoEnv demoAuth ''A'' noClient sessionDb))"
proof -
  have f: "findRefreshTokenByHash (aw_sha256 demoAuth ''A'') sessionDb = Some spentToken"
    by (simp add: findRefreshTokenByHash_def sessionDb_def spentToken_def demoAuth_def)
  have live: "isSessionActive demoEnv ''d'' ''u'' sessionDb"
    by (simp add: isSessionActive_def sessionDb_def spentToken_def tokenLive_def demoEnv_def)
  show ?thesis
    using replay_ends_session [OF f, of "''d''" demoEnv noClient demoEnv] live
    by (simp add: spentToken_def demoEnv_def sessionDb_def)
qed

lemma rotateTx_Inr:
  assumes "findRefreshTokenByHash (rt_tokenHash stored) s = Some old" and "rotateTx env aw stored uid sid raw c s = Inr ((), s')"
  obtains t where "tokensOf s' = updateMany (\<lambda>r. rt_id r = rt_id old) (\<lambda>r. r\<lparr>rt_revokedAt := Some (env_now env)\<rparr>) (tokensOf s) @ [t]"
    "rt_sessionId t = Some sid" "rt_revokedAt t = None" "\<And>r. r \<in> set (tokensOf s) \<Longrightarrow> rt_id r \<noteq> rt_id t"
proof -
  let ?i = "env_uuid env (drawn s)"
  have run: "createRefreshToken env (refreshRow env aw (rt_tenantId stored) uid sid raw
       \<lparr>ci_userAgent = (case ci_userAgent c of None \<Rightarrow> rt_userAgent stored | Some a \<Rightarrow> Some a),
        ci_ipAddress = (case ci_ipAddress c of None \<Rightarrow> rt_ipAddress stored | Some a \<Rightarrow> Some a)\<rparr> (hoursMs 168))
       (revokeById env (rt_id old) s) = Inr ((), s')"
    using assms by (simp add: rotateTx_def monad_defs parseExpiry_used)
  then have clash: "\<not> list_ex (\<lambda>r. rt_id r = ?i) (tokensOf (revokeById env (rt_id old) s))"
    by (simp add: createRefreshToken_eq revokeById_def split: if_splits)
  have "map rt_id (tokensOf (revokeById env (rt_id old) s)) = map rt_id (tokensOf s)" by (simp add: revokeById_def map_updateMany)
  then have "?i \<notin> rt_id ` set (tokensOf s)" using clash by (simp add: list_ex_iff image_iff flip: set_map) (metis imageE list.set_map)
  then have "rt_id r \<noteq> ?i" if "r \<in> set (tokensOf s)" for r using that by (metis imageI)
  then show thesis using run clash by (intro that) (auto simp: createRefreshToken_eq revokeById_def refreshRow_def)
qed

lemma refreshCheck_Inr:
  assumes "refreshCheck env aw raw s = (Inr (stored, scope, user), s')"
  shows "s' = s \<and> findRefreshTokenByHash (rt_tokenHash stored) s = Some stored \<and> rt_tokenHash stored = aw_sha256 aw raw
    \<and> rt_revokedAt stored = None"
proof -
  from assms have found: "findRefreshTokenByHash (aw_sha256 aw raw) s = Some stored" and st: "s' = s"
    and live: "rt_revokedAt stored = None"
    using sessionUser_reads
    by (auto simp: refreshCheck_def rejectReplay_def monad_defs split: option.splits prod.splits sum.splits if_splits)
      (metis snd_conv)+
  have "rt_tokenHash stored = aw_sha256 aw raw" using found by (auto simp: findRefreshTokenByHash_def dest: find_SomeD)
  then show ?thesis using found st live by simp
qed

lemma rotate_Inr:
  assumes "rotate env aw stored scope user c s = (Inr r, s')" and "rt_sessionId stored = Some sid"
  obtains s1 where "tokensOf s1 = tokensOf s" "lr_sessionId r = sid"
    "findRefreshTokenByHash h s1 = findRefreshTokenByHash h s"
    "rotateTx env aw stored (us_id (ac_user user)) sid (lr_refreshToken r) c s1 = Inr ((), s')"
proof (rule that [of "s\<lparr>drawn := Suc (drawn s)\<rparr>"])
  show "rotateTx env aw stored (us_id (ac_user user)) sid (lr_refreshToken r) c (s\<lparr>drawn := Suc (drawn s)\<rparr>) = Inr ((), s')"
    and "lr_sessionId r = sid"
    using assms by (auto simp: rotate_def monad_defs drawH_def freshId_def transaction_def split: sum.splits prod.splits)
qed (simp_all add: findRefreshTokenByHash_def)



section \<open>One-time tokens\<close>

lemma usableOneTime_Inr:
  "usableOneTime env aw kind label token s = (Inr stored, s') \<longleftrightarrow>
     s' = s \<and> findOneTime kind (aw_sha256 aw token) s = Some stored \<and> env_now env \<le> ot_expiresAt stored
     \<and> ot_usedAt stored = None"
  by (auto simp: usableOneTime_def outcome)

lemma usableOneTime_used:
  assumes "findOneTime kind (aw_sha256 aw token) s = Some stored" and "ot_usedAt stored \<noteq> None"
  shows "\<exists>e. usableOneTime env aw kind label token s = (Inl e, s)"
  using assms by (auto simp: usableOneTime_def monad_defs)

lemma revoked_inactive:
  assumes "tokensOf s' = updateMany (\<lambda>t. P t \<and> rt_revokedAt t = None) (\<lambda>t. t\<lparr>rt_revokedAt := Some now\<rparr>) (tokensOf s)"
    and "\<And>t. t \<in> set (tokensOf s) \<Longrightarrow> rt_userId t = i \<Longrightarrow> rt_sessionId t = Some sid \<Longrightarrow> P t"
  shows "\<not> isSessionActive env sid i s'"
  using assms(2) by (fastforce simp: isSessionActive_def tokenLive_def assms(1) list_ex_iff set_updateMany split: if_splits)

lemma markOneTimeUsed_run:
  assumes "findOneTime kind h s = Some stored"
  obtains s' where "markOneTimeUsed env kind h s = (Inr (), s')" "tokensOf s' = tokensOf s"
    "users (accounts s') = users (accounts s)"
    "findOneTime kind h s' = Some (stored\<lparr>ot_usedAt := Some (env_now env)\<rparr>)"
proof -
  let ?f = "updateMany (\<lambda>r. ot_id r = ot_id stored) (\<lambda>r. r\<lparr>ot_usedAt := Some (env_now env)\<rparr>)"
  have "find (\<lambda>t. ot_tokenHash t = h) (?f (oneTimeTokens kind s)) = Some (stored\<lparr>ot_usedAt := Some (env_now env)\<rparr>)"
    using assms by (subst find_updateMany) (simp_all add: findOneTime_def)
  then show thesis
    using assms by (intro that [of "onOneTime kind ?f s"]) (simp_all add: markOneTimeUsed_def findOneTime_def monad_defs)
qed

text \<open>C20: what a password reset does. A reset that returns used an unexpired, unused token, stores the hash of the new
  password for the token's user and for nobody else, ends every session of the user, and the token works
  no second time, whatever happens to the clock.\<close>

theorem reset_password_effect:
  assumes "resetPassword env aw token pw s = (Inr (), s')"
  shows "\<exists>stored. findOneTime ResetToken (aw_sha256 aw token) s = Some stored \<and> env_now env \<le> ot_expiresAt stored
      \<and> ot_usedAt stored = None
      \<and> users (accounts s') = updateMany (\<lambda>u. us_id u = ot_userId stored)
          (\<lambda>u. u\<lparr>us_updatedAt := env_now env, us_passwordHash := aw_hash aw (env_uuid env (drawn s)) pw\<rparr>) (users (accounts s))
      \<and> (\<forall>env' sid. \<not> isSessionActive env' sid (ot_userId stored) s')
      \<and> (\<forall>env' pw'. \<exists>e. resetPassword env' aw token pw' s' = (Inl e, s'))"
proof -
  from assms obtain stored where stored: "findOneTime ResetToken (aw_sha256 aw token) s = Some stored"
      "env_now env \<le> ot_expiresAt stored" "ot_usedAt stored = None"
    and rest: "bindH (hashPassword env aw pw) (\<lambda>passwordHash.
       thenH (updateUser env (ot_userId stored) (\<lambda>u. u\<lparr>us_passwordHash := passwordHash\<rparr>))
      (thenH (markOneTimeUsed env ResetToken (aw_sha256 aw token))
      (thenH (revokeAllUserRefreshTokens env (ot_userId stored)) (returnH ())))) s = (Inr (), s')"
    by (auto simp: resetPassword_def bindH_Inr [of "usableOneTime env aw ResetToken ''RESET'' token"] usableOneTime_Inr)
  define m where "m = accounts_update (users_update (updateMany (\<lambda>u. us_id u = ot_userId stored)
      (\<lambda>u. u\<lparr>us_updatedAt := env_now env, us_passwordHash := aw_hash aw (env_uuid env (drawn s)) pw\<rparr>))) (s\<lparr>drawn := Suc (drawn s)\<rparr>)"
  have "findOneTime ResetToken (aw_sha256 aw token) m = Some stored"
    using stored(1) by (simp add: m_def findOneTime_def oneTimeTokens_def)
  then obtain m' where m': "markOneTimeUsed env ResetToken (aw_sha256 aw token) m = (Inr (), m')" "tokensOf m' = tokensOf m"
      "users (accounts m') = users (accounts m)"
      "findOneTime ResetToken (aw_sha256 aw token) m' = Some (stored\<lparr>ot_usedAt := Some (env_now env)\<rparr>)"
    by (rule markOneTimeUsed_run)
  have s': "s' = accounts_update (refreshTokens_update (updateMany (\<lambda>t. rt_userId t = ot_userId stored \<and> rt_revokedAt t = None)
      (\<lambda>t. t\<lparr>rt_revokedAt := Some (env_now env)\<rparr>))) m'"
    using rest m'(1)
    by (auto simp: hashPassword_def outcome updateUser_eq revokeAllUserRefreshTokens_def revokeWhere_eq m_def [symmetric]
        split: if_splits)
  have "\<not> isSessionActive env' sid (ot_userId stored) s'" for env' sid
    by (rule revoked_inactive [where P = "\<lambda>t. rt_userId t = ot_userId stored"]) (simp_all add: s')
  moreover have "\<exists>e. resetPassword env' aw token pw' s' = (Inl e, s')" for env' pw'
  proof -
    have "findOneTime ResetToken (aw_sha256 aw token) s' = Some (stored\<lparr>ot_usedAt := Some (env_now env)\<rparr>)"
      using m'(4) by (simp add: s' findOneTime_def oneTimeTokens_def)
    from usableOneTime_used [OF this, of env' "''RESET''"] show ?thesis by (auto simp: resetPassword_def bindH_def)
  qed
  ultimately show ?thesis using stored m'(3) by (intro exI [of _ stored]) (simp add: s' m_def)
qed

definition resetRow :: one_time_row where
  "resetRow = \<lparr>ot_id = ''o1'', ot_tenantId = ''t'', ot_userId = ''u'', ot_tokenHash = ''hR'', ot_expiresAt = 2000, ot_usedAt = None\<rparr>"

definition resetDb :: db where
  "resetDb = sessionDb\<lparr>accounts := (accounts sessionDb)\<lparr>resetTokens := [resetRow], verifyTokens := [resetRow]\<rparr>\<rparr>"

lemma reset_password_effect_witness:
  "\<exists>s'. resetPassword demoEnv demoAuth ''R'' ''new'' resetDb = (Inr (), s')
     \<and> isSessionActive demoEnv ''d'' ''u'' resetDb \<and> \<not> isSessionActive demoEnv ''d'' ''u'' s'"
proof -
  have "succeeded (resetPassword demoEnv demoAuth ''R'' ''new'' resetDb)" by code_simp
  then obtain s' where run: "resetPassword demoEnv demoAuth ''R'' ''new'' resetDb = (Inr (), s')" by (rule succeededE) auto
  have "isSessionActive demoEnv ''d'' ''u'' resetDb" by code_simp
  moreover from reset_password_effect [OF run] obtain stored
    where f: "findOneTime ResetToken (aw_sha256 demoAuth ''R'') resetDb = Some stored"
      and off: "\<not> isSessionActive demoEnv ''d'' (ot_userId stored) s'" by blast
  moreover have "ot_userId stored = ''u''"
    using f by (simp add: findOneTime_def oneTimeTokens_def resetDb_def resetRow_def demoAuth_def) auto
  ultimately show ?thesis using run by auto
qed

text \<open>Asking for a password reset tells a stranger nothing. Whatever the e-mail, and whether or not it belongs to
  anybody, the answer is the same, and neither accounts nor sessions change.\<close>

theorem forgot_password_reveals_nothing:
  assumes "\<not> aw_exposeDevTokens aw" and "\<forall>t \<in> set (resetTokens (accounts s)). ot_id t \<noteq> env_uuid env (Suc (drawn s))"
  shows "\<exists>s'. forgotPassword env aw email tenantId slug s = (Inr None, s') \<and> users (accounts s') = users (accounts s)
    \<and> tokensOf s' = tokensOf s \<and> verifyTokens (accounts s') = verifyTokens (accounts s)"
proof (cases "forgotTarget email tenantId slug s")
  case None
  then show ?thesis by (simp add: forgotPassword_def monad_defs)
next
  case (Some ut)
  obtain u t where ut: "ut = (u, t)" by (cases ut)
  obtain s1 where s1: "newOneTime env aw ResetToken ''1h'' t (us_id u) s = (Inr (env_uuid env (drawn s)), s1)"
      "users (accounts s1) = users (accounts s)" "tokensOf s1 = tokensOf s" "verifyTokens (accounts s1) = verifyTokens (accounts s)"
    using assms(2)
    by (simp add: newOneTime_def bindH_def thenH_def liftH_def returnH_def transaction_def createOneTime_eq parseExpiry_used
        oneTimeTokens_def onOneTime_def list_ex_iff)
  from deliverAuthEmail_frame [of env aw t "Some u" ResetToken "env_uuid env (drawn s)" s1] obtain js
    where "deliverAuthEmail env aw t (Some u) ResetToken (env_uuid env (drawn s)) s1 = (Inr (), s1\<lparr>jobs := jobs s1 @ js\<rparr>)" by blast
  then show ?thesis using Some ut s1 assms(1) by (simp add: forgotPassword_def bindH_def thenH_def readH_def returnH_def)
qed

lemma forgot_password_reveals_nothing_witness:
  "fst (forgotPassword demoEnv demoAuth ''e'' None (Some ''shop'') authDb) = fst (forgotPassword demoEnv demoAuth ''x'' None None authDb)"
proof -
  have "\<not> aw_exposeDevTokens demoAuth" by (simp add: demoAuth_def)
  moreover have "\<forall>t \<in> set (resetTokens (accounts authDb)). ot_id t \<noteq> env_uuid demoEnv (Suc (drawn authDb))"
    by (simp add: authDb_def emptyAccounts_def)
  ultimately show ?thesis
    using forgot_password_reveals_nothing [of demoAuth authDb demoEnv "''e''" None "Some ''shop''"]
      forgot_password_reveals_nothing [of demoAuth authDb demoEnv "''x''" None None] by force
qed

text \<open>Asking for a new verification link makes the older ones useless.\<close>

lemma only_newest_link_verifies:
  assumes "resendVerification env aw i t s = (r, s')" and "s' \<noteq> s"
    and "findOneTime VerifyToken (aw_sha256 aw tok) s = Some old" and "ot_userId old = i"
  shows "\<exists>e. verifyEmail env' aw tok s' = (Inl e, s')"
proof -
  let ?inv = "updateMany (\<lambda>t. ot_userId t = i \<and> ot_usedAt t = None) (\<lambda>t. t\<lparr>ot_usedAt := Some (env_now env)\<rparr>)"
  define m where "m = onOneTime VerifyToken ?inv s"
  have kept: "\<exists>ts. verifyTokens (accounts s') = ?inv (verifyTokens (accounts s)) @ ts"
  proof -
    from assms(1,2) have send: "sendEmailVerification env aw i t m = (r, s')"
      by (auto simp: resendVerification_def findActiveUser_def invalidateUnusedVerifyTokens_def m_def monad_defs
          split: option.splits if_splits)
    have "wpH (sendEmailVerification env aw i t) (\<lambda>_ s'. \<exists>ts. verifyTokens (accounts s') = verifyTokens (accounts m) @ ts)
        (\<lambda>_ s'. \<exists>ts. verifyTokens (accounts s') = verifyTokens (accounts m) @ ts) m"
      by (auto simp: sendEmailVerification_def newOneTime_def wp parseExpiry_used onOneTime_def intro!: wpH_deliverAuthEmail)
    then have "\<exists>ts. verifyTokens (accounts s') = verifyTokens (accounts m) @ ts"
      using send by (auto simp: wpH_def split: sum.splits)
    then show ?thesis by (simp add: m_def onOneTime_def)
  qed
  have "findOneTime VerifyToken (aw_sha256 aw tok) s' = Some (if ot_usedAt old = None then old\<lparr>ot_usedAt := Some (env_now env)\<rparr> else old)"
    using assms(3,4) kept
    by (auto simp: findOneTime_def oneTimeTokens_def find_append find_updateMany)
  then show ?thesis
    using usableOneTime_used [of VerifyToken aw tok s' _ env' "''VERIFICATION''"] by (fastforce simp: verifyEmail_def bindH_def split: if_splits)
qed

section \<open>The platform's own tenant\<close>

definition platformDb :: db where
  "platformDb = authDb\<lparr>
     tenants := [\<lparr>tn_id = ''pt'', tn_name = ''P'', tn_slug = PLATFORM_TENANT_SLUG, tn_status = T_ACTIVE, tn_plan = ''free''\<rparr>],
     memberships := [\<lparr>mb_tenantId = ''pt'', mb_userId = ''u'', mb_active = True\<rparr>],
     accounts := emptyAccounts\<lparr>users := [owner], platformGrants := [\<lparr>pg_userId = ''u'', pg_roleId = ''r''\<rparr>]\<rparr>\<rparr>"

text \<open>The business login refuses the platform's tenant by its slug and accepts it by its id.\<close>

lemma platform_tenant_by_slug_refused:
  "nonEmpty (lb_tenantSlug b) = Some PLATFORM_TENANT_SLUG \<Longrightarrow> findTenantBySlug PLATFORM_TENANT_SLUG s = Some t \<Longrightarrow>
     tenantLogin env aw b c s = (Inl platformForbidden, s)"
  by (auto simp: tenantLogin_def resolveSlug_def findTenantBySlug_def bindH_def thenH_def throwIfH_def orThrowH_def readH_def
      returnH_def throwH_def dest: find_SomeD)

lemma platform_tenant_by_id_accepted:
  "succeeded (tenantLogin demoEnv demoAuth (ownerLogin\<lparr>lb_tenantSlug := None, lb_tenantId := Some ''pt''\<rparr>) noClient platformDb)"
  by code_simp

end
