(* ===== verification/Access.thy ===== *)
theory Access
  imports Sessions
begin

text \<open>
  Who may do what: src/src/modules/auth/auth.middleware.js and authorization.middleware.js, the support
  sessions of src/src/modules/support/support.service.js, and the keys of the permission cache
  (src/src/common/cache/cache.keys.js). The check of a token's signature and expiry (jsonwebtoken) is the
  argument \<open>verify\<close>; \<open>up\<close> says whether the cache answers.
\<close>

section \<open>Tokens\<close>

type_synonym verifier = "string \<Rightarrow> error + claims"

record req_context =
  rc_userId :: string
  rc_tenantId :: string
  rc_sessionId :: string
  rc_email :: string
  rc_scope :: string
  rc_support :: "string option"

definition isHex :: "char \<Rightarrow> bool" where
  "isHex c \<longleftrightarrow> c \<in> set ''0123456789abcdefABCDEF''"

text \<open>\<open>/^[0-9a-f]{8}-[0-9a-f]{4}-[0-9a-f]{4}-[0-9a-f]{4}-[0-9a-f]{12}$/i\<close>.\<close>

definition isUuid :: "string \<Rightarrow> bool" where
  "isUuid x \<longleftrightarrow> map length (splitOn (CHR ''-'') x) = [8, 4, 4, 4, 12]
     \<and> list_all (\<lambda>c. c = CHR ''-'' \<or> isHex c) x"

definition READ_METHODS :: "string list" where
  "READ_METHODS = [''GET'', ''HEAD'', ''OPTIONS'']"

abbreviation invalidClaims :: error where
  "invalidClaims \<equiv> AppError 401 ''INVALID_TOKEN_CLAIMS''"

abbreviation sessionRevoked :: error where
  "sessionRevoked \<equiv> AppError 401 ''SESSION_REVOKED''"

abbreviation unauthorized :: error where
  "unauthorized \<equiv> AppError 401 ''UNAUTHORIZED''"

definition throwIf :: "bool \<Rightarrow> error \<Rightarrow> error + 'a \<Rightarrow> error + 'a" where
  "throwIf b e rest = (if b then Inl e else rest)"

definition assertSessionActive :: "env \<Rightarrow> claims \<Rightarrow> db \<Rightarrow> error + 'a \<Rightarrow> error + 'a" where
  "assertSessionActive env decoded s rest =
     throwIf (\<not> isUuid (cl_sessionId decoded)) invalidClaims
    (throwIf (\<not> isSessionActive env (cl_sessionId decoded) (cl_sub decoded) s) sessionRevoked rest)"

definition contextOf :: "claims \<Rightarrow> string \<Rightarrow> string option \<Rightarrow> req_context" where
  "contextOf decoded scope support =
     \<lparr>rc_userId = cl_sub decoded, rc_tenantId = cl_tenantId decoded, rc_sessionId = cl_sessionId decoded,
      rc_email = cl_email decoded, rc_scope = scope, rc_support = support\<rparr>"

text \<open>\<open>authHeader.startsWith('Bearer ')\<close> and \<open>authHeader.substring(7)\<close>.\<close>

definition bearer :: "string option \<Rightarrow> string option" where
  "bearer header = (case header of
     None \<Rightarrow> None | Some h \<Rightarrow> (if take 7 h = ''Bearer '' then Some (drop 7 h) else None))"

definition scopeOf :: "claims \<Rightarrow> string" where
  "scopeOf decoded = (if cl_scope decoded = [] then ''tenant'' else cl_scope decoded)"

text \<open>The errors of the token library get codes of their own.\<close>

definition translateTokenError :: "error + 'a \<Rightarrow> error + 'a" where
  "translateTokenError r = (case r of
     Inl (JsError n) \<Rightarrow>
       (if n = ''TokenExpiredError'' then Inl (AppError 401 ''TOKEN_EXPIRED'')
        else if n = ''JsonWebTokenError'' then Inl (AppError 401 ''INVALID_TOKEN'') else Inl (JsError n))
   | _ \<Rightarrow> r)"

section \<open>support.service.js\<close>

definition SUPPORT_SESSION_MINUTES :: int where
  "SUPPORT_SESSION_MINUTES = 30"

definition isActiveTenant :: "tenant_row \<Rightarrow> bool" where
  "isActiveTenant t \<longleftrightarrow> tn_slug t \<noteq> PLATFORM_TENANT_SLUG \<and> tenantOpen t"

definition hasPlatformPermission :: "string \<Rightarrow> string \<Rightarrow> string \<Rightarrow> db \<Rightarrow> bool" where
  "hasPlatformPermission userId resource action s =
     list_ex (\<lambda>g. pg_userId g = userId \<and> list_ex (\<lambda>p. pp_roleId p = pg_roleId g \<and> pp_resource p = resource
        \<and> pp_action p = action) (platformPermissions (accounts s))) (platformGrants (accounts s))"

definition findActiveSupport :: "env \<Rightarrow> claims \<Rightarrow> db \<Rightarrow> support_row option" where
  "findActiveSupport env decoded s =
     (case find (\<lambda>x. su_id x = cl_sessionId decoded \<and> su_platformUserId x = cl_sub decoded
          \<and> su_tenantId x = cl_tenantId decoded \<and> su_endedAt x = None \<and> env_now env < su_expiresAt x)
        (supportSessions (accounts s)) of
        None \<Rightarrow> None
      | Some session \<Rightarrow>
          (if (case findTenant (su_tenantId session) s of Some t \<Rightarrow> isActiveTenant t | None \<Rightarrow> False)
              \<and> (case findUserById (su_platformUserId session) s of Some u \<Rightarrow> us_status u = U_ACTIVE | None \<Rightarrow> False)
              \<and> hasPlatformPermission (cl_sub decoded) ''platform:tenant'' ''access'' s
           then Some session else None))"

record platform_user =
  pu_userId :: string
  pu_email :: string

definition supportContext :: "platform_user \<Rightarrow> client \<Rightarrow> audit_context" where
  "supportContext p c = \<lparr>cx_userId = Some (pu_userId p), cx_ipAddress = ci_ipAddress c, cx_userAgent = ci_userAgent c\<rparr>"

definition insertSupport :: "env \<Rightarrow> support_row \<Rightarrow> support_row dbtx" where
  "insertSupport env row = bindT (freshId env) (\<lambda>i.
     bindT (readT (\<lambda>s. list_ex (\<lambda>x. su_id x = i) (supportSessions (accounts s)))) (\<lambda>clash.
     thenT (throwIfT clash uniqueViolation)
    (thenT (writeT (accounts_update (supportSessions_update (\<lambda>xs. xs @ [row\<lparr>su_id := i\<rparr>]))))
       (returnT (row\<lparr>su_id := i\<rparr>)))))"

record support_result =
  sp_sessionId :: string
  sp_accessToken :: string
  sp_expiresAt :: int

definition startSupport ::
  "env \<Rightarrow> auth_world \<Rightarrow> platform_user \<Rightarrow> string \<Rightarrow> string \<Rightarrow> client \<Rightarrow> support_result dbio" where
  "startSupport env aw p tenantId reason c =
     bindH (readH (findTenant tenantId)) (\<lambda>found.
     bindH (orThrowH found tenantNotFound) (\<lambda>tenant.
     thenH (throwIfH (tn_slug tenant = PLATFORM_TENANT_SLUG) tenantNotFound)
    (thenH (throwIfH (\<not> isActiveTenant tenant) (AppError 409 ''TENANT_INACTIVE''))
    (let expiresAt = env_now env + SUPPORT_SESSION_MINUTES * 60 * 1000 in
     bindH (transaction
       (bindT (insertSupport env \<lparr>su_id = [], su_tenantId = tenantId, su_platformUserId = pu_userId p, su_reason = reason,
           su_expiresAt = expiresAt, su_endedAt = None\<rparr>) (\<lambda>created.
        thenT (logAudit env (supportContext p c) tenantId ''LOGIN'' ''support_session'' (Some (su_id created)) JNull
           (JObj [(''platformUser'', JStr (pu_email p)), (''reason'', JStr reason), (''readOnly'', JBool True),
              (''expiresAt'', JDate expiresAt)]))
       (thenT (logActivity env (supportContext p c) tenantId ''support.session.start''
           (''Platform support ('' @ pu_email p @ '') opened a read-only session: '' @ reason)
           (JObj [(''supportSessionId'', JStr (su_id created))]))
          (returnT created))))) (\<lambda>session.
     returnH \<lparr>sp_sessionId = su_id session,
       sp_accessToken = aw_sign aw (env_now env) \<lparr>cl_sub = pu_userId p, cl_tenantId = tenantId,
         cl_sessionId = su_id session, cl_email = pu_email p, cl_scope = ''support''\<rparr>,
       sp_expiresAt = expiresAt\<rparr>)))))"

definition endSupport :: "env \<Rightarrow> platform_user \<Rightarrow> string \<Rightarrow> client \<Rightarrow> unit dbio" where
  "endSupport env p sessionId c =
     bindH (readH (\<lambda>s. find (\<lambda>x. su_id x = sessionId \<and> su_platformUserId x = pu_userId p) (supportSessions (accounts s)))) (\<lambda>found.
     bindH (orThrowH found (AppError 404 ''SUPPORT_SESSION_NOT_FOUND'')) (\<lambda>session.
     if su_endedAt session \<noteq> None then returnH ()
     else transaction
       (thenT (writeT (accounts_update (supportSessions_update
           (updateMany (\<lambda>x. su_id x = sessionId) (\<lambda>x. x\<lparr>su_endedAt := Some (env_now env)\<rparr>)))))
          (logAudit env (supportContext p c) (su_tenantId session) ''LOGOUT'' ''support_session'' (Some sessionId) JNull
             (JObj [(''platformUser'', JStr (pu_email p))])))))"

text \<open>Written when the response is finished; a failure to log is swallowed. The path is without its query.\<close>

definition logSupportRequest ::
  "env \<Rightarrow> req_context \<Rightarrow> string \<Rightarrow> string \<Rightarrow> int \<Rightarrow> client \<Rightarrow> unit dbio" where
  "logSupportRequest env rc method originalUrl statusCode c =
     catchH (transaction (logActivity env
         \<lparr>cx_userId = Some (rc_userId rc), cx_ipAddress = ci_ipAddress c, cx_userAgent = ci_userAgent c\<rparr> (rc_tenantId rc)
         ''support.view'' (method @ '' '' @ hd (splitOn (CHR ''?'') originalUrl))
         (JObj [(''supportSessionId'', jsOfOpt (rc_support rc)), (''statusCode'', jsInt statusCode)])))
       (\<lambda>_. returnH ())"

section \<open>auth.middleware.js\<close>

text \<open>
  \<open>authenticateSupport\<close> answers with the outcome and with the context whose request will be logged when the
  response is finished: refused writes are logged too.
\<close>

definition authenticateSupport ::
  "env \<Rightarrow> string \<Rightarrow> claims \<Rightarrow> db \<Rightarrow> (error + req_context) \<times> req_context option" where
  "authenticateSupport env method decoded s =
     (if \<not> isUuid (cl_sessionId decoded) \<or> cl_tenantId decoded = [] then (Inl invalidClaims, None)
      else (case findActiveSupport env decoded s of
          None \<Rightarrow> (Inl sessionRevoked, None)
        | Some session \<Rightarrow>
            (let rc = contextOf decoded ''support'' (Some (su_id session)) in
             (if method \<notin> set READ_METHODS then Inl (AppError 403 ''SUPPORT_READ_ONLY'') else Inr rc, Some rc))))"

definition authenticateTenant :: "env \<Rightarrow> claims \<Rightarrow> db \<Rightarrow> error + req_context" where
  "authenticateTenant env decoded s =
     throwIf (cl_tenantId decoded = []) invalidClaims
    (assertSessionActive env decoded s
       (case findUserByIdAndTenant (cl_sub decoded) (cl_tenantId decoded) s of
          None \<Rightarrow> Inl userInactive
        | Some user \<Rightarrow>
            throwIf (us_status (ac_user user) \<noteq> U_ACTIVE) userInactive
           (case ac_memberships user of
              (_, Some tenant) # _ \<Rightarrow>
                throwIf (\<not> tenantOpen tenant) tenantInactive
               (throwIf (tn_slug tenant = PLATFORM_TENANT_SLUG) platformForbidden
                  (Inr (contextOf decoded (scopeOf decoded) None)))
            | _ \<Rightarrow> Inl tenantInactive)))"

definition authenticate ::
  "env \<Rightarrow> verifier \<Rightarrow> bool \<Rightarrow> string \<Rightarrow> string option \<Rightarrow> db \<Rightarrow> (error + req_context) \<times> req_context option" where
  "authenticate env verify allowSupport method header s =
     (case bearer header of
        None \<Rightarrow> (Inl unauthorized, None)
      | Some token \<Rightarrow>
          (let (r, logged) =
             (case verify token of
                Inl e \<Rightarrow> (Inl e, None)
              | Inr decoded \<Rightarrow>
                  (if cl_sub decoded = [] \<or> cl_sessionId decoded = [] then (Inl invalidClaims, None)
                   else if scopeOf decoded = ''customer'' then (Inl (AppError 403 ''CUSTOMER_TOKEN_FORBIDDEN''), None)
                   else if scopeOf decoded = ''support'' then
                     (if \<not> allowSupport then (Inl (AppError 403 ''SUPPORT_TOKEN_FORBIDDEN''), None)
                      else authenticateSupport env method decoded s)
                   else if scopeOf decoded = ''platform'' then (Inl (AppError 403 ''PLATFORM_TOKEN_FORBIDDEN''), None)
                   else (authenticateTenant env decoded s, None)))
           in (translateTokenError r, logged)))"

definition authenticatePlatform ::
  "env \<Rightarrow> verifier \<Rightarrow> string option \<Rightarrow> db \<Rightarrow> error + req_context" where
  "authenticatePlatform env verify header s =
     (case bearer header of
        None \<Rightarrow> Inl unauthorized
      | Some token \<Rightarrow> translateTokenError
          (case verify token of
             Inl e \<Rightarrow> Inl e
           | Inr decoded \<Rightarrow>
               throwIf (cl_sub decoded = [] \<or> cl_sessionId decoded = []) invalidClaims
              (throwIf (scopeOf decoded \<noteq> ''platform'') (AppError 403 ''PLATFORM_AUTH_REQUIRED'')
              (throwIf (cl_tenantId decoded = []) invalidClaims
              (assertSessionActive env decoded s
              (throwIf (\<not> hasPlatformRole (cl_sub decoded) s) platformDenied
                 (case findUserById (cl_sub decoded) s of
                    None \<Rightarrow> Inl userInactive
                  | Some user \<Rightarrow> throwIf (us_status user \<noteq> U_ACTIVE) userInactive
                      (Inr (contextOf decoded ''platform'' None)))))))))"

definition authenticateAnyScope ::
  "env \<Rightarrow> verifier \<Rightarrow> string \<Rightarrow> string option \<Rightarrow> db \<Rightarrow> error + req_context" where
  "authenticateAnyScope env verify method header s =
     (if (case bearer header of
            None \<Rightarrow> False
          | Some token \<Rightarrow> (case verify token of Inl _ \<Rightarrow> False | Inr decoded \<Rightarrow> scopeOf decoded = ''platform''))
      then authenticatePlatform env verify header s else fst (authenticate env verify False method header s))"

text \<open>A request without a usable token goes on without a context.\<close>

definition optionalAuthenticate :: "verifier \<Rightarrow> string option \<Rightarrow> db \<Rightarrow> req_context option" where
  "optionalAuthenticate verify header s =
     (case bearer header of
        None \<Rightarrow> None
      | Some token \<Rightarrow> (case verify token of
            Inl _ \<Rightarrow> None
          | Inr decoded \<Rightarrow>
              (if cl_sub decoded = [] \<or> cl_tenantId decoded = [] \<or> cl_sessionId decoded = [] then None
               else if scopeOf decoded = ''platform'' then Some (contextOf decoded ''platform'' None)
               else (case findUserByIdAndTenant (cl_sub decoded) (cl_tenantId decoded) s of
                   None \<Rightarrow> None
                 | Some user \<Rightarrow> (case ac_memberships user of
                       (_, Some tenant) # _ \<Rightarrow>
                         (if us_status (ac_user user) = U_ACTIVE \<and> tenantOpen tenant \<and> tn_slug tenant \<noteq> PLATFORM_TENANT_SLUG
                          then Some (contextOf decoded ''tenant'' None) else None)
                     | _ \<Rightarrow> None)))))"

section \<open>The permission cache\<close>

text \<open>\<open>sanitizeId\<close>: a UUID or a short word; no colon, so two pairs of ids never share a key.\<close>

definition idChar :: "char \<Rightarrow> bool" where
  "idChar c \<longleftrightarrow> c \<in> set ''abcdefghijklmnopqrstuvwxyzABCDEFGHIJKLMNOPQRSTUVWXYZ0123456789_-''"

definition cacheIdOk :: "string \<Rightarrow> bool" where
  "cacheIdOk i \<longleftrightarrow> length i = 36 \<and> list_all (\<lambda>c. isHex c \<or> c = CHR ''-'') i
     \<or> 1 \<le> length i \<and> length i \<le> 64 \<and> list_all idChar i"

definition sanitizeId :: "string \<Rightarrow> error + string" where
  "sanitizeId i = (if cacheIdOk i then Inr i else Inl (JsError ''Invalid cache id''))"

definition userPermissionsKey :: "string \<Rightarrow> string \<Rightarrow> error + string" where
  "userPermissionsKey tenantId userId =
     (case sanitizeId tenantId of
        Inl e \<Rightarrow> Inl e
      | Inr t \<Rightarrow> (case sanitizeId userId of
          Inl e \<Rightarrow> Inl e
        | Inr u \<Rightarrow> Inr (''pulseops:v1:tenant:'' @ t @ '':permissions:user:'' @ u)))"

text \<open>What the cache holds under the key of a tenant and a user; deleting by the tenant's pattern.\<close>

definition cacheStore :: "string \<Rightarrow> string \<Rightarrow> permission_row list option \<Rightarrow> db \<Rightarrow> db" where
  "cacheStore tenantId userId v =
     accounts_update (permissionCache_update (\<lambda>m. m((tenantId, userId) := v)))"

definition cacheDropTenant :: "string \<Rightarrow> db \<Rightarrow> db" where
  "cacheDropTenant tenantId =
     accounts_update (permissionCache_update (\<lambda>m k. if fst k = tenantId then None else m k))"

text \<open>
  The permissions of the user's roles in the tenant. The code's objects are the rows without their tenant id,
  which nobody reads.
\<close>

definition grantedPermissions :: "string \<Rightarrow> string \<Rightarrow> db \<Rightarrow> permission_row list" where
  "grantedPermissions userId tenantId s =
     (let roleIds = map ur_roleId (filter (\<lambda>r. ur_userId r = userId \<and> ur_tenantId r = tenantId) (userRoles (accounts s)))
      in List.map_filter (\<lambda>rp. if rp_tenantId rp = tenantId \<and> rp_roleId rp \<in> set roleIds
           then find (\<lambda>p. pe_id p = rp_permissionId rp) (permissions (accounts s)) else None) (rolePermissions (accounts s)))"

definition getUserPermissions :: "bool \<Rightarrow> string \<Rightarrow> string \<Rightarrow> permission_row list dbio" where
  "getUserPermissions up userId tenantId =
     bindH (liftH (userPermissionsKey tenantId userId)) (\<lambda>_.
     bindH (readH (\<lambda>s. if up then permissionCache (accounts s) (tenantId, userId) else None)) (\<lambda>cached.
     case cached of
       Some ps \<Rightarrow> returnH ps
     | None \<Rightarrow>
         bindH (readH (grantedPermissions userId tenantId)) (\<lambda>result.
         thenH (if up then writeH (cacheStore tenantId userId (Some result)) else returnH ())
           (returnH result))))"

text \<open>The two invalidations swallow every error, an invalid id included.\<close>

definition invalidateUserPermissionsCache :: "bool \<Rightarrow> string \<Rightarrow> string \<Rightarrow> unit dbio" where
  "invalidateUserPermissionsCache up tenantId userId =
     catchH (bindH (liftH (userPermissionsKey tenantId userId)) (\<lambda>_.
         if up then writeH (cacheStore tenantId userId None) else returnH ())) (\<lambda>_. returnH ())"

definition invalidateTenantPermissionsCache :: "bool \<Rightarrow> string \<Rightarrow> unit dbio" where
  "invalidateTenantPermissionsCache up tenantId =
     catchH (bindH (liftH (sanitizeId tenantId)) (\<lambda>_.
         if up then writeH (cacheDropTenant tenantId) else returnH ())) (\<lambda>_. returnH ())"

section \<open>authorization.middleware.js\<close>

abbreviation forbidden :: error where
  "forbidden \<equiv> AppError 403 ''FORBIDDEN''"

definition endsWith :: "string \<Rightarrow> string \<Rightarrow> bool" where
  "endsWith x suffix \<longleftrightarrow> length suffix \<le> length x \<and> drop (length x - length suffix) x = suffix"

text \<open>\<open>permission.split(':')[0]\<close> and \<open>[1]\<close>, which is undefined when there is no colon.\<close>

definition grants :: "string \<Rightarrow> permission_row \<Rightarrow> bool" where
  "grants permission p =
     (case splitOn (CHR '':'') permission of
        resource # action # _ \<Rightarrow> pe_resource p = resource \<and> pe_action p = action
      | _ \<Rightarrow> False)"

definition authorize :: "bool \<Rightarrow> string \<Rightarrow> req_context option \<Rightarrow> unit dbio" where
  "authorize up permission ctx =
     bindH (orThrowH ctx unauthorized) (\<lambda>c.
     thenH (throwIfH (rc_userId c = [] \<or> rc_tenantId c = []) unauthorized)
    (if rc_scope c = ''support''
     then throwIfH (\<not> endsWith permission '':read'') (AppError 403 ''SUPPORT_READ_ONLY'')
     else bindH (readH (\<lambda>s. isMember s (rc_tenantId c) (rc_userId c))) (\<lambda>member.
       thenH (throwIfH (\<not> member) forbidden)
      (bindH (getUserPermissions up (rc_userId c) (rc_tenantId c)) (\<lambda>ps.
         throwIfH (\<not> list_ex (grants permission) ps) forbidden)))))"

text \<open>A platform permission is split at its last colon.\<close>

definition splitLast :: "string \<Rightarrow> string \<times> string" where
  "splitLast permission =
     (if CHR '':'' \<notin> set permission then (butlast permission, permission)
      else let action = rev (takeWhile (\<lambda>c. c \<noteq> CHR '':'') (rev permission))
           in (take (length permission - length action - 1) permission, action))"

definition authorizePlatform :: "string \<Rightarrow> req_context option \<Rightarrow> db \<Rightarrow> error + unit" where
  "authorizePlatform permission ctx s =
     (case ctx of
        None \<Rightarrow> Inl unauthorized
      | Some c \<Rightarrow>
          throwIf (rc_userId c = []) unauthorized
         (throwIf (\<not> hasPlatformPermission (rc_userId c) (fst (splitLast permission)) (snd (splitLast permission)) s)
            forbidden (Inr ())))"

section \<open>Caches that are filled on a miss\<close>

text \<open>A cache is coherent when what it holds under a key that somebody can ask for is the value the database gives.\<close>

definition coherent :: "('db \<Rightarrow> 'k \<Rightarrow> bool) \<Rightarrow> ('db \<Rightarrow> 'k \<Rightarrow> 'v option) \<Rightarrow> ('db \<Rightarrow> 'k \<Rightarrow> 'v) \<Rightarrow> 'db \<Rightarrow> bool" where
  "coherent live peek truth s \<longleftrightarrow> (\<forall>k v. live s k \<longrightarrow> peek s k = Some v \<longrightarrow> v = truth s k)"

locale read_through =
  fixes live :: "'db \<Rightarrow> 'k \<Rightarrow> bool"
    and peek :: "'db \<Rightarrow> 'k \<Rightarrow> 'v option"
    and truth :: "'db \<Rightarrow> 'k \<Rightarrow> 'v"
    and store :: "'k \<Rightarrow> 'v option \<Rightarrow> 'db \<Rightarrow> 'db"
  assumes peek_store: "peek (store k v s) = (peek s)(k := v)"
    and truth_store: "truth (store k v s) = truth s"
    and live_store: "live (store k v s) = live s"
begin

lemma hit: "coherent live peek truth s \<Longrightarrow> live s k \<Longrightarrow> peek s k = Some v \<Longrightarrow> v = truth s k"
  by (simp add: coherent_def)

lemma fill: "coherent live peek truth s \<Longrightarrow> coherent live peek truth (store k (Some (truth s k)) s)"
  by (simp add: coherent_def peek_store truth_store live_store)

text \<open>A write is harmless when every key it changes the value of is then dropped.\<close>

lemma changed:
  assumes "coherent live peek truth s"
    and "\<And>k. live s' k \<Longrightarrow> peek s' k = None \<or> live s k \<and> peek s' k = peek s k \<and> truth s' k = truth s k"
  shows "coherent live peek truth s'"
  using assms unfolding coherent_def by (metis option.distinct(1))

lemma write_and_drop:
  assumes "coherent live peek truth s" and "peek s' = peek s" and "\<And>k'. live s' k' \<Longrightarrow> live s k'"
    and "\<And>k'. k' \<noteq> k \<Longrightarrow> truth s' k' = truth s k'"
  shows "coherent live peek truth (store k None s')"
  using assms(1) by (rule changed) (use assms(2-) in \<open>auto simp: peek_store truth_store live_store\<close>)

end

text \<open>Somebody can ask for a pair of ids only if they can be made a key and the user is a member.\<close>

definition permLive :: "db \<Rightarrow> string \<times> string \<Rightarrow> bool" where
  "permLive s k \<longleftrightarrow> isMember s (fst k) (snd k) \<and> cacheIdOk (fst k) \<and> cacheIdOk (snd k)"

definition permPeek :: "db \<Rightarrow> string \<times> string \<Rightarrow> permission_row list option" where
  "permPeek s = permissionCache (accounts s)"

definition permTruth :: "db \<Rightarrow> string \<times> string \<Rightarrow> permission_row list" where
  "permTruth s k = grantedPermissions (snd k) (fst k) s"

definition permStore :: "string \<times> string \<Rightarrow> permission_row list option \<Rightarrow> db \<Rightarrow> db" where
  "permStore k = cacheStore (fst k) (snd k)"

abbreviation permissionsCoherent :: "db \<Rightarrow> bool" where
  "permissionsCoherent \<equiv> coherent permLive permPeek permTruth"

lemma cacheStore_frame [simp]:
  "userRoles (accounts (cacheStore t u v s)) = userRoles (accounts s)"
  "rolePermissions (accounts (cacheStore t u v s)) = rolePermissions (accounts s)"
  "permissions (accounts (cacheStore t u v s)) = permissions (accounts s)"
  "roles (accounts (cacheStore t u v s)) = roles (accounts s)"
  "users (accounts (cacheStore t u v s)) = users (accounts s)"
  "memberships (cacheStore t u v s) = memberships s"
  "permissionCache (accounts (cacheStore t u v s)) = (permissionCache (accounts s))((t, u) := v)"
  by (simp_all add: cacheStore_def)

lemma grantedPermissions_cong:
  assumes "userRoles (accounts s') = userRoles (accounts s)" "rolePermissions (accounts s') = rolePermissions (accounts s)"
    "permissions (accounts s') = permissions (accounts s)"
  shows "grantedPermissions u t s' = grantedPermissions u t s"
  unfolding grantedPermissions_def assms ..

interpretation permCache: read_through permLive permPeek permTruth permStore
proof
  show "permPeek (permStore k v s) = (permPeek s)(k := v)" for k v s
    by (simp add: permPeek_def permStore_def)
  show "permTruth (permStore k v s) = permTruth s" for k v s
    unfolding permTruth_def permStore_def by (intro ext grantedPermissions_cong) simp_all
  show "permLive (permStore k v s) = permLive s" for k v s
    by (simp add: permLive_def permStore_def isMember_def fun_eq_iff)
qed

lemma permStore_pair: "cacheStore t u v = permStore (t, u) v"
  by (simp add: permStore_def)

text \<open>Two pairs of ids never share a key: an id has no colon.\<close>

lemma cacheIdOk_no_colon: "cacheIdOk i \<Longrightarrow> CHR '':'' \<notin> set i"
proof -
  have "\<not> idChar (CHR '':'')" "\<not> isHex (CHR '':'')" by (simp_all add: idChar_def isHex_def)
  then show "cacheIdOk i \<Longrightarrow> CHR '':'' \<notin> set i" by (auto simp: cacheIdOk_def list_all_iff)
qed

lemma append_colon_inject:
  assumes "c \<notin> set a" "c \<notin> set b" "a @ c # xs = b @ c # ys"
  shows "a = b \<and> xs = ys"
  using assms by (induction a arbitrary: b) (auto simp: Cons_eq_append_conv)

lemma userPermissionsKey_inject:
  assumes "userPermissionsKey t u = Inr k" and "userPermissionsKey t' u' = Inr k"
  shows "t = t' \<and> u = u'"
proof -
  from assms have "cacheIdOk t" "cacheIdOk t'"
    and eq: "t @ '':permissions:user:'' @ u = t' @ '':permissions:user:'' @ u'"
    by (auto simp: userPermissionsKey_def sanitizeId_def split: if_splits)
  from append_colon_inject [OF cacheIdOk_no_colon [OF this(1)] cacheIdOk_no_colon [OF this(2)]] eq show ?thesis by auto
qed

section \<open>What the middleware lets through\<close>

lemma userPermissionsKey_ok: "cacheIdOk t \<Longrightarrow> cacheIdOk u \<Longrightarrow> \<exists>k. userPermissionsKey t u = Inr k"
  by (simp add: userPermissionsKey_def sanitizeId_def)

lemma getUserPermissions_run:
  assumes "permissionsCoherent s" "permLive s (t, u)"
  obtains s' where "getUserPermissions up u t s = (Inr (grantedPermissions u t s), s')" "permissionsCoherent s'"
proof -
  from userPermissionsKey_ok [of t u] assms(2) obtain k where k: "userPermissionsKey t u = Inr k" by (auto simp: permLive_def)
  have miss: "permissionsCoherent (cacheStore t u (Some (grantedPermissions u t s)) s)"
    using permCache.fill [OF assms(1), of "(t, u)"] by (simp add: permStore_pair permTruth_def)
  show thesis
  proof (cases "up \<and> permissionCache (accounts s) (t, u) \<noteq> None")
    case True
    then obtain v where v: "permPeek s (t, u) = Some v" by (auto simp: permPeek_def)
    have "v = grantedPermissions u t s" using permCache.hit [OF assms v] by (simp add: permTruth_def)
    with True v k assms(1) that show ?thesis by (simp add: getUserPermissions_def permPeek_def monad_defs)
  next
    case False
    then have "(if up then permissionCache (accounts s) (t, u) else None) = None" by auto
    with k assms(1) miss that show ?thesis by (cases up) (simp_all add: getUserPermissions_def monad_defs)
  qed
qed

text \<open>The specification: some role of the user in the tenant has the permission.\<close>

definition holdsPermission :: "db \<Rightarrow> string \<Rightarrow> string \<Rightarrow> string \<Rightarrow> string \<Rightarrow> bool" where
  "holdsPermission s tenantId userId resource action \<longleftrightarrow>
     (\<exists>ur \<in> set (userRoles (accounts s)). \<exists>rp \<in> set (rolePermissions (accounts s)). \<exists>p \<in> set (permissions (accounts s)).
        ur_userId ur = userId \<and> ur_tenantId ur = tenantId \<and> rp_tenantId rp = tenantId \<and> rp_roleId rp = ur_roleId ur
        \<and> pe_id p = rp_permissionId rp \<and> pe_resource p = resource \<and> pe_action p = action)"

lemma find_by_key:
  assumes "distinct (map key xs)" "x \<in> set xs"
  shows "find (\<lambda>y. key y = key x) xs = Some x"
  using assms by (induction xs) (auto simp: image_iff)

lemma set_map_filter: "y \<in> set (List.map_filter g xs) \<longleftrightarrow> (\<exists>x \<in> set xs. g x = Some y)"
  by (induction xs) (auto simp: List.map_filter_def)

lemma grantedPermissions_set:
  assumes "distinct (map pe_id (permissions (accounts s)))"
  shows "list_ex Q (grantedPermissions u t s) \<longleftrightarrow>
     (\<exists>ur \<in> set (userRoles (accounts s)). \<exists>rp \<in> set (rolePermissions (accounts s)). \<exists>p \<in> set (permissions (accounts s)).
        ur_userId ur = u \<and> ur_tenantId ur = t \<and> rp_tenantId rp = t \<and> rp_roleId rp = ur_roleId ur
        \<and> pe_id p = rp_permissionId rp \<and> Q p)"
proof -
  let ?ps = "permissions (accounts s)"
  have "find (\<lambda>p. pe_id p = i) ?ps = Some p \<longleftrightarrow> p \<in> set ?ps \<and> pe_id p = i" for p i
    using find_by_key [OF assms, of p] by (auto dest: find_SomeD)
  then have "p \<in> set (grantedPermissions u t s) \<longleftrightarrow>
     (\<exists>ur \<in> set (userRoles (accounts s)). \<exists>rp \<in> set (rolePermissions (accounts s)). p \<in> set ?ps
        \<and> ur_userId ur = u \<and> ur_tenantId ur = t \<and> rp_tenantId rp = t \<and> rp_roleId rp = ur_roleId ur
        \<and> pe_id p = rp_permissionId rp)" for p
    by (auto simp: grantedPermissions_def set_map_filter Let_def)
  then show ?thesis unfolding list_ex_iff by blast
qed

lemma grants_colon:
  "CHR '':'' \<notin> set r \<Longrightarrow> CHR '':'' \<notin> set a \<Longrightarrow> grants (r @ CHR '':'' # a) p \<longleftrightarrow> pe_resource p = r \<and> pe_action p = a"
  using splitOn_word [of "CHR '':''" r a] splitOn_last [of "CHR '':''" a] by (simp add: grants_def)

text \<open>C21: authorisation decides as the role tables say. For a signed-in member's request the middleware lets
  exactly those through who are active members of the tenant and hold the permission through one of their
  roles there, whether the answer comes from the cache or from the database, and whether or not the cache answers.\<close>

theorem authorize_exact:
  assumes "permissionsCoherent s" "distinct (map pe_id (permissions (accounts s)))"
    and "cacheIdOk (rc_tenantId c)" "cacheIdOk (rc_userId c)" "rc_scope c \<noteq> ''support''"
    and "CHR '':'' \<notin> set resource" "CHR '':'' \<notin> set action"
  shows "(fst (authorize up (resource @ '':'' @ action) (Some c) s) = Inr ()) =
     (isMember s (rc_tenantId c) (rc_userId c)
      \<and> holdsPermission s (rc_tenantId c) (rc_userId c) resource action)"
proof -
  have ne: "rc_userId c \<noteq> []" "rc_tenantId c \<noteq> []" using assms(3,4) by (auto simp: cacheIdOk_def)
  show ?thesis
  proof (cases "isMember s (rc_tenantId c) (rc_userId c)")
    case False
    then show ?thesis using ne assms(5) by (simp add: authorize_def monad_defs)
  next
    case True
    with assms(3,4) have "permLive s (rc_tenantId c, rc_userId c)" by (simp add: permLive_def)
    from getUserPermissions_run [OF assms(1) this, of up] obtain s' where run:
      "getUserPermissions up (rc_userId c) (rc_tenantId c) s = (Inr (grantedPermissions (rc_userId c) (rc_tenantId c) s), s')"
      by blast
    have "list_ex (grants (resource @ '':'' @ action)) (grantedPermissions (rc_userId c) (rc_tenantId c) s)
        = holdsPermission s (rc_tenantId c) (rc_userId c) resource action"
      unfolding holdsPermission_def grantedPermissions_set [OF assms(2)] by (simp add: grants_colon [OF assms(6,7)])
    then show ?thesis
      using ne assms(5) run True by (simp add: authorize_def monad_defs)
  qed
qed

lemma throwIf_Inr [simp]: "throwIf b e r = Inr x \<longleftrightarrow> \<not> b \<and> r = Inr x"
  by (simp add: throwIf_def)

lemma translateTokenError_Inr [simp]: "translateTokenError r = Inr x \<longleftrightarrow> r = Inr x"
  by (auto simp: translateTokenError_def split: sum.splits error.splits)

lemma contextOf_fields [simp]:
  "rc_userId (contextOf d sc su) = cl_sub d" "rc_tenantId (contextOf d sc su) = cl_tenantId d"
  "rc_sessionId (contextOf d sc su) = cl_sessionId d" "rc_scope (contextOf d sc su) = sc"
  by (simp_all add: contextOf_def)

lemma assertSessionActive_Inr [simp]:
  "assertSessionActive env d s r = Inr x \<longleftrightarrow>
     isUuid (cl_sessionId d) \<and> isSessionActive env (cl_sessionId d) (cl_sub d) s \<and> r = Inr x"
  by (auto simp: assertSessionActive_def)

lemma authenticateTenant_Inr:
  assumes "authenticateTenant env d s = Inr rc"
  shows "isSessionActive env (cl_sessionId d) (cl_sub d) s \<and> rc = contextOf d (scopeOf d) None"
  using assms unfolding authenticateTenant_def
  by (auto split: option.splits list.splits)

lemma authenticateSupport_Inr:
  assumes "fst (authenticateSupport env method d s) = Inr rc"
  obtains session where "findActiveSupport env d s = Some session" "method \<in> set READ_METHODS"
    "rc = contextOf d ''support'' (Some (su_id session))"
  using assms by (auto simp: authenticateSupport_def Let_def split: option.splits if_splits)

lemma authenticate_Inr:
  assumes "fst (authenticate env verify allow method header s) = Inr rc"
  obtains token d where "bearer header = Some token" "verify token = Inr d"
    "if scopeOf d = ''support'' then fst (authenticateSupport env method d s) = Inr rc
     else authenticateTenant env d s = Inr rc"
  using assms by (auto simp: authenticate_def Let_def case_prod_beta split: option.splits sum.splits if_splits)

lemma authenticatePlatform_Inr:
  assumes "authenticatePlatform env verify header s = Inr rc"
  obtains token d where "bearer header = Some token" "verify token = Inr d"
    "isSessionActive env (cl_sessionId d) (cl_sub d) s" "rc = contextOf d ''platform'' None"
  using assms by (auto simp: authenticatePlatform_def split: option.splits sum.splits if_splits)

text \<open>The session check is the only thing that reads the refresh tokens.\<close>

lemma authenticate_frame:
  fixes g :: "refresh_row list \<Rightarrow> refresh_row list" and s :: db
  defines "s' \<equiv> accounts_update (refreshTokens_update g) s"
  assumes "\<And>token d. bearer header = Some token \<Longrightarrow> verify token = Inr d \<Longrightarrow> scopeOf d \<noteq> ''support'' \<Longrightarrow>
     isSessionActive env (cl_sessionId d) (cl_sub d) s' = isSessionActive env (cl_sessionId d) (cl_sub d) s"
  shows "authenticate env verify allow method header s' = authenticate env verify allow method header s"
    and "\<forall>token d. bearer header = Some token \<longrightarrow> verify token = Inr d \<longrightarrow>
        isSessionActive env (cl_sessionId d) (cl_sub d) s' = isSessionActive env (cl_sessionId d) (cl_sub d) s
      \<Longrightarrow> authenticatePlatform env verify header s' = authenticatePlatform env verify header s"
proof -
  have [simp]: "findTenant i s' = findTenant i s" "findUserById i s' = findUserById i s"
      "hasPlatformRole i s' = hasPlatformRole i s" "hasPlatformPermission i r a s' = hasPlatformPermission i r a s"
      "isMember s' i t = isMember s i t" "supportSessions (accounts s') = supportSessions (accounts s)"
      "users (accounts s') = users (accounts s)" "memberships s' = memberships s" for i t r a
    by (simp_all add: s'_def findTenant_def findUserById_def hasPlatformRole_def hasPlatformPermission_def isMember_def)
  have eq: "findUserByIdAndTenant i t s' = findUserByIdAndTenant i t s"
      "findActiveSupport env d s' = findActiveSupport env d s" for i t d
    by (simp_all add: findUserByIdAndTenant_def loadMemberships_def [abs_def] findActiveSupport_def cong: option.case_cong)
  show "authenticate env verify allow method header s' = authenticate env verify allow method header s"
    using assms(2)
    by (simp add: authenticate_def authenticateSupport_def authenticateTenant_def assertSessionActive_def eq
        split: option.split sum.split)
  show "authenticatePlatform env verify header s' = authenticatePlatform env verify header s"
    if "\<forall>token d. bearer header = Some token \<longrightarrow> verify token = Inr d \<longrightarrow>
        isSessionActive env (cl_sessionId d) (cl_sub d) s' = isSessionActive env (cl_sessionId d) (cl_sub d) s"
    using that
    by (simp add: authenticatePlatform_def assertSessionActive_def eq split: option.split sum.split)
qed

text \<open>C22: signing out everywhere works at once, for every token but those of support sessions. After logoutAll no
  other access token of the user gets past the middlewares, however long it is still valid and whatever the clock says.
  The token of a support session the user opened as a platform administrator is tied to that session and not to a login:
  a request with it is answered as before, and so is a request with anybody else's token.\<close>

theorem sign_out_is_immediate:
  assumes "logoutAll env userId s = (Inr n, s')"
  shows "(fst (authenticate env' verify allow method header s') = Inr rc \<longrightarrow> rc_userId rc \<noteq> userId \<or> rc_scope rc = ''support'')
    \<and> (authenticatePlatform env' verify header s' = Inr rc \<longrightarrow> rc_userId rc \<noteq> userId)
    \<and> ((\<forall>token d. bearer header = Some token \<longrightarrow> verify token = Inr d \<longrightarrow> cl_sub d \<noteq> userId \<or> scopeOf d = ''support'') \<longrightarrow>
        authenticate env' verify allow method header s' = authenticate env' verify allow method header s)
    \<and> ((\<forall>token d. bearer header = Some token \<longrightarrow> verify token = Inr d \<longrightarrow> cl_sub d \<noteq> userId) \<longrightarrow>
        authenticatePlatform env' verify header s' = authenticatePlatform env' verify header s)"
proof (intro conjI impI)
  let ?g = "updateMany (\<lambda>t. rt_userId t = userId \<and> rt_revokedAt t = None) (\<lambda>t. t\<lparr>rt_revokedAt := Some (env_now env)\<rparr>)"
  have s': "s' = accounts_update (refreshTokens_update ?g) s"
    using assms by (simp add: logoutAll_def revokeUserSessions_def revokeWhere_eq nonEmpty_def)
  have dead: "\<not> isSessionActive env' sid userId s'" for sid
    by (rule revoked_inactive [where P = "\<lambda>t. rt_userId t = userId"]) (simp_all add: s')
  have same: "isSessionActive env' sid i s' = isSessionActive env' sid i s" if "i \<noteq> userId" for i sid
    using that by (auto simp: isSessionActive_def list_ex_iff s' set_updateMany)
  show "rc_userId rc \<noteq> userId \<or> rc_scope rc = ''support''"
    if "fst (authenticate env' verify allow method header s') = Inr rc"
    using that dead by (auto elim!: authenticate_Inr authenticateSupport_Inr dest!: authenticateTenant_Inr split: if_splits)
  show "rc_userId rc \<noteq> userId" if "authenticatePlatform env' verify header s' = Inr rc"
    using that dead by (auto elim!: authenticatePlatform_Inr)
  show "authenticate env' verify allow method header s' = authenticate env' verify allow method header s"
    if "\<forall>token d. bearer header = Some token \<longrightarrow> verify token = Inr d \<longrightarrow> cl_sub d \<noteq> userId \<or> scopeOf d = ''support''"
    using that authenticate_frame(1) [of header verify env' ?g s] same unfolding s' [symmetric] by blast
  show "authenticatePlatform env' verify header s' = authenticatePlatform env' verify header s"
    if "\<forall>token d. bearer header = Some token \<longrightarrow> verify token = Inr d \<longrightarrow> cl_sub d \<noteq> userId"
    using that authenticate_frame(2) [of header verify env' ?g s] same unfolding s' [symmetric] by blast
qed

text \<open>C23: support access is read-only, short and revocable. A request that passes as a support session only
  reads, belongs to a session of that platform user for that tenant that was neither ended nor expired, and passes
  no permission check but those of read permissions.\<close>

theorem support_is_read_only:
  assumes "fst (authenticate env verify allow method header s) = Inr rc" and "rc_scope rc = ''support''"
  shows "allow \<and> method \<in> set READ_METHODS
    \<and> (\<exists>x \<in> set (supportSessions (accounts s)). su_id x = rc_sessionId rc \<and> su_platformUserId x = rc_userId rc
         \<and> su_tenantId x = rc_tenantId rc \<and> su_endedAt x = None \<and> env_now env < su_expiresAt x)
    \<and> (fst (authorize up permission (Some rc) s1) = Inr () \<longrightarrow> endsWith permission '':read'')"
proof (intro conjI impI)
  obtain token d where d: "verify token = Inr d" "bearer header = Some token"
    and r: "if scopeOf d = ''support'' then fst (authenticateSupport env method d s) = Inr rc else authenticateTenant env d s = Inr rc"
    by (rule authenticate_Inr [OF assms(1)])
  from r assms(2) have sup: "scopeOf d = ''support''"
    by (auto dest: authenticateTenant_Inr split: if_splits)
  with r have "fst (authenticateSupport env method d s) = Inr rc" by simp
  then obtain x where x: "findActiveSupport env d s = Some x" "method \<in> set READ_METHODS"
      "rc = contextOf d ''support'' (Some (su_id x))" by (rule authenticateSupport_Inr)
  show allow and "method \<in> set READ_METHODS"
    using assms(1) d sup x(2) by (auto simp: authenticate_def Let_def case_prod_beta split: if_splits)
  show "\<exists>x \<in> set (supportSessions (accounts s)). su_id x = rc_sessionId rc \<and> su_platformUserId x = rc_userId rc
       \<and> su_tenantId x = rc_tenantId rc \<and> su_endedAt x = None \<and> env_now env < su_expiresAt x"
    using x(1,3) by (auto simp: findActiveSupport_def split: option.splits if_splits dest!: find_SomeD intro!: bexI [of _ x])
  show "endsWith permission '':read''" if "fst (authorize up permission (Some rc) s1) = Inr ()"
    using that assms(2) by (auto simp: authorize_def monad_defs split: if_splits)
qed

section \<open>A shop with a signed-in owner and an administrator's support session\<close>

definition demoSid :: string where
  "demoSid = ''0b0b0b0b-0000-4000-8000-00000000000a''"

definition demoClaims :: "string \<Rightarrow> claims" where
  "demoClaims scope = \<lparr>cl_sub = ''u'', cl_tenantId = ''t'', cl_sessionId = demoSid, cl_email = ''e'', cl_scope = scope\<rparr>"

definition accessDb :: db where
  "accessDb = authDb\<lparr>accounts := emptyAccounts\<lparr>
     users := [owner],
     refreshTokens := [\<lparr>rt_id = ''r1'', rt_tenantId = ''t'', rt_userId = ''u'', rt_tokenHash = ''h'', rt_expiresAt = 5000,
       rt_revokedAt = None, rt_createdAt = 0, rt_sessionId = Some demoSid, rt_userAgent = None, rt_ipAddress = None,
       rt_lastUsedAt = None\<rparr>],
     roles := [\<lparr>ro_id = ''r'', ro_tenantId = ''t'', ro_name = ''clerk'', ro_description = None, ro_isSystem = False\<rparr>],
     permissions := [\<lparr>pe_id = ''p'', pe_tenantId = ''t'', pe_name = ''read orders'', pe_description = None,
       pe_resource = ''orders'', pe_action = ''read''\<rparr>],
     rolePermissions := [\<lparr>rp_tenantId = ''t'', rp_roleId = ''r'', rp_permissionId = ''p''\<rparr>],
     userRoles := [\<lparr>ur_tenantId = ''t'', ur_userId = ''u'', ur_roleId = ''r''\<rparr>],
     platformGrants := [\<lparr>pg_userId = ''u'', pg_roleId = ''pr''\<rparr>],
     platformPermissions := [\<lparr>pp_roleId = ''pr'', pp_name = ''support'', pp_resource = ''platform:tenant'', pp_action = ''access''\<rparr>],
     supportSessions := [\<lparr>su_id = demoSid, su_tenantId = ''t'', su_platformUserId = ''u'', su_reason = ''help'',
       su_expiresAt = 5000, su_endedAt = None\<rparr>]\<rparr>\<rparr>"

lemma authorize_exact_witness:
  "permissionsCoherent accessDb \<and> distinct (map pe_id (permissions (accounts accessDb))) \<and> cacheIdOk ''t'' \<and> cacheIdOk ''u''
   \<and> fst (authorize True ''orders:read'' (Some (contextOf (demoClaims ''tenant'') ''tenant'' None)) accessDb) = Inr ()"
proof -
  let ?c = "contextOf (demoClaims ''tenant'') ''tenant'' None"
  have hyps: "permissionsCoherent accessDb" "distinct (map pe_id (permissions (accounts accessDb)))" "cacheIdOk ''t''" "cacheIdOk ''u''"
    by (simp_all add: coherent_def permPeek_def accessDb_def emptyAccounts_def cacheIdOk_def idChar_def)
  have "holdsPermission accessDb ''t'' ''u'' ''orders'' ''read'' \<and> isMember accessDb ''t'' ''u''"
    by (simp add: holdsPermission_def accessDb_def emptyAccounts_def isMember_def authDb_def)
  then show ?thesis
    using hyps authorize_exact [OF hyps(1,2), of ?c "''orders''" "''read''" True] by (simp add: demoClaims_def)
qed

lemma demoSid_uuid: "isUuid demoSid"
  by code_simp

lemma sign_out_is_immediate_witness:
  "fst (authenticate demoEnv (\<lambda>_. Inr (demoClaims [])) True ''GET'' (Some ''Bearer x'') accessDb)
     = Inr (contextOf (demoClaims []) ''tenant'' None)
   \<and> fst (authenticate demoEnv (\<lambda>_. Inr (demoClaims [])) True ''GET'' (Some ''Bearer x'') (snd (logoutAll demoEnv ''u'' accessDb)))
     \<noteq> Inr (contextOf (demoClaims []) ''tenant'' None)"
proof -
  obtain n s' where out: "logoutAll demoEnv ''u'' accessDb = (Inr n, s')"
    by (simp add: logoutAll_def revokeUserSessions_def revokeWhere_eq)
  have "fst (authenticate demoEnv (\<lambda>_. Inr (demoClaims [])) True ''GET'' (Some ''Bearer x'') accessDb)
     = Inr (contextOf (demoClaims []) ''tenant'' None)"
    using demoSid_uuid
    by (simp add: authenticate_def bearer_def demoClaims_def scopeOf_def authenticateTenant_def assertSessionActive_def throwIf_def
        isSessionActive_def tokenLive_def findUserByIdAndTenant_def loadMemberships_def isMember_def findTenant_def tenantOpen_def
        accessDb_def authDb_def owner_def demoDb_def demoEnv_def emptyAccounts_def translateTokenError_def demoSid_def
        PLATFORM_TENANT_SLUG_def)
  then show ?thesis
    using sign_out_is_immediate [OF out, of demoEnv "\<lambda>_. Inr (demoClaims [])" True "''GET''" "Some ''Bearer x''"
      "contextOf (demoClaims []) ''tenant'' None"]
    by (simp add: out demoClaims_def)
qed

lemma support_is_read_only_witness:
  "fst (authenticate demoEnv (\<lambda>_. Inr (demoClaims ''support'')) True ''GET'' (Some ''Bearer x'') accessDb)
     = Inr (contextOf (demoClaims ''support'') ''support'' (Some demoSid))
   \<and> fst (authorize True ''orders:create'' (Some (contextOf (demoClaims ''support'') ''support'' (Some demoSid))) accessDb) \<noteq> Inr ()"
proof -
  let ?rc = "contextOf (demoClaims ''support'') ''support'' (Some demoSid)"
  have ok: "fst (authenticate demoEnv (\<lambda>_. Inr (demoClaims ''support'')) True ''GET'' (Some ''Bearer x'') accessDb) = Inr ?rc"
    using demoSid_uuid
    by (simp add: authenticate_def bearer_def demoClaims_def scopeOf_def authenticateSupport_def findActiveSupport_def
        hasPlatformPermission_def findUserById_def findTenant_def tenantOpen_def isActiveTenant_def READ_METHODS_def
        accessDb_def authDb_def owner_def demoDb_def demoEnv_def emptyAccounts_def translateTokenError_def demoSid_def
        PLATFORM_TENANT_SLUG_def Let_def)
  moreover have "\<not> endsWith ''orders:create'' '':read''" by (simp add: endsWith_def)
  ultimately show ?thesis
    using support_is_read_only [OF ok, of True "''orders:create''" accessDb] by auto
qed

end
