(* ===== verification/Roles.thy ===== *)
theory Roles
  imports Access
begin

text \<open>
  Roles and the people who hold them: src/src/modules/roles (service and repository) and src/src/modules/users
  (service and repository). Deleting a row deletes what refers to it the way src/prisma/schema.prisma says
  (\<open>onDelete\<close>). \<open>up\<close> says whether the permission cache answers.
\<close>

section \<open>The role repository\<close>

definition findRole :: "string \<Rightarrow> string \<Rightarrow> db \<Rightarrow> role_row option" where
  "findRole i tenantId s = find (\<lambda>r. ro_id r = i \<and> ro_tenantId r = tenantId) (roles (accounts s))"

definition findRoleByName :: "string \<Rightarrow> string \<Rightarrow> db \<Rightarrow> role_row option" where
  "findRoleByName name tenantId s = find (\<lambda>r. ro_name r = name \<and> ro_tenantId r = tenantId) (roles (accounts s))"

definition isSystemRole :: "string \<Rightarrow> string \<Rightarrow> db \<Rightarrow> bool" where
  "isSystemRole i tenantId s = (case findRole i tenantId s of Some r \<Rightarrow> ro_isSystem r | None \<Rightarrow> False)"

definition insertRole :: "env \<Rightarrow> string \<Rightarrow> string \<Rightarrow> string option \<Rightarrow> role_row dbtx" where
  "insertRole env tenantId name description =
     bindT (freshId env) (\<lambda>i.
     bindT (readT (\<lambda>s. list_ex (\<lambda>r. ro_id r = i \<or> ro_tenantId r = tenantId \<and> ro_name r = name) (roles (accounts s)))) (\<lambda>clash.
     thenT (throwIfT clash uniqueViolation)
    (let row = \<lparr>ro_id = i, ro_tenantId = tenantId, ro_name = name, ro_description = description, ro_isSystem = False\<rparr>
     in thenT (writeT (accounts_update (roles_update (\<lambda>rs. rs @ [row])))) (returnT row))))"

text \<open>A field that is absent keeps its value.\<close>

definition writeRole :: "string \<Rightarrow> string \<Rightarrow> string option \<Rightarrow> string option \<Rightarrow> role_row dbtx" where
  "writeRole i tenantId name description =
     bindT (readT (findRole i tenantId)) (\<lambda>found.
     bindT (orThrowT found recordNotFound) (\<lambda>r.
     let row = r\<lparr>ro_name := (case name of Some n \<Rightarrow> n | None \<Rightarrow> ro_name r),
                 ro_description := coalesce description (ro_description r)\<rparr> in
     bindT (readT (\<lambda>s. list_ex (\<lambda>x. ro_id x \<noteq> i \<and> ro_tenantId x = tenantId \<and> ro_name x = ro_name row) (roles (accounts s)))) (\<lambda>clash.
     thenT (throwIfT clash uniqueViolation)
    (thenT (writeT (accounts_update (roles_update (updateMany (\<lambda>x. ro_id x = i \<and> ro_tenantId x = tenantId) (\<lambda>_. row)))))
       (returnT row)))))"

text \<open>Deleting a role deletes its permissions and takes it from its holders.\<close>

definition removeRoleRows :: "string \<Rightarrow> string \<Rightarrow> db \<Rightarrow> db" where
  "removeRoleRows i tenantId = accounts_update (\<lambda>a. a\<lparr>
     roles := deleteMany (\<lambda>r. ro_id r = i \<and> ro_tenantId r = tenantId) (roles a),
     rolePermissions := deleteMany (\<lambda>rp. rp_roleId rp = i) (rolePermissions a),
     userRoles := deleteMany (\<lambda>ur. ur_roleId ur = i) (userRoles a)\<rparr>)"

definition dropRole :: "string \<Rightarrow> string \<Rightarrow> unit dbtx" where
  "dropRole i tenantId =
     bindT (readT (findRole i tenantId)) (\<lambda>found.
     thenT (throwIfT (found = None) recordNotFound) (writeT (removeRoleRows i tenantId)))"

definition findPermissionsByIds :: "string list \<Rightarrow> string \<Rightarrow> db \<Rightarrow> permission_row list" where
  "findPermissionsByIds ids tenantId s =
     filter (\<lambda>p. pe_id p \<in> set ids \<and> pe_tenantId p = tenantId) (permissions (accounts s))"

text \<open>The permissions of a role in the tenant, joined; \<open>createMany\<close> with \<open>skipDuplicates\<close>.\<close>

definition rolePermissionsOf :: "string \<Rightarrow> string \<Rightarrow> db \<Rightarrow> permission_row list" where
  "rolePermissionsOf roleId tenantId s =
     List.map_filter (\<lambda>rp. if rp_tenantId rp = tenantId \<and> rp_roleId rp = roleId
         then find (\<lambda>p. pe_id p = rp_permissionId rp) (permissions (accounts s)) else None) (rolePermissions (accounts s))"

fun insertMissing :: "'r list \<Rightarrow> 'r list \<Rightarrow> 'r list" where
  "insertMissing [] table = table"
| "insertMissing (r # rs) table = insertMissing rs (if r \<in> set table then table else table @ [r])"

definition grantRow :: "string \<Rightarrow> string \<Rightarrow> string \<Rightarrow> role_permission_row" where
  "grantRow tenantId roleId permissionId = \<lparr>rp_tenantId = tenantId, rp_roleId = roleId, rp_permissionId = permissionId\<rparr>"

definition addGrants :: "string \<Rightarrow> string \<Rightarrow> string list \<Rightarrow> db \<Rightarrow> db" where
  "addGrants tenantId roleId ids =
     accounts_update (rolePermissions_update (insertMissing (map (grantRow tenantId roleId) ids)))"

definition assignPermissionsTx :: "string \<Rightarrow> string \<Rightarrow> string list \<Rightarrow> permission_row list dbtx" where
  "assignPermissionsTx roleId tenantId permissionIds =
     bindT (readT (findPermissionsByIds permissionIds tenantId)) (\<lambda>ps.
     let valid = filter (\<lambda>i. i \<in> set (map pe_id ps)) permissionIds in
     bindT (readT (\<lambda>s. filter (\<lambda>rp. rp_tenantId rp = tenantId \<and> rp_roleId rp = roleId \<and> rp_permissionId rp \<in> set valid)
         (rolePermissions (accounts s)))) (\<lambda>existing.
     let new = filter (\<lambda>i. i \<notin> set (map rp_permissionId existing)) valid in
     thenT (if new \<noteq> [] then writeT (addGrants tenantId roleId new) else returnT ())
       (readT (rolePermissionsOf roleId tenantId))))"

definition replacePermissionsTx :: "string \<Rightarrow> string \<Rightarrow> string list \<Rightarrow> permission_row list dbtx" where
  "replacePermissionsTx roleId tenantId permissionIds =
     thenT (writeT (accounts_update (rolePermissions_update
         (deleteMany (\<lambda>rp. rp_tenantId rp = tenantId \<and> rp_roleId rp = roleId \<and> rp_permissionId rp \<notin> set permissionIds)))))
    (thenT (if permissionIds \<noteq> [] then writeT (addGrants tenantId roleId permissionIds) else returnT ())
       (readT (rolePermissionsOf roleId tenantId)))"

section \<open>The role service\<close>

abbreviation roleNotFound :: error where
  "roleNotFound \<equiv> AppError 404 ''ROLE_NOT_FOUND''"

abbreviation systemRole :: error where
  "systemRole \<equiv> AppError 403 ''SYSTEM_ROLE_IMMUTABLE''"

abbreviation roleNameExists :: error where
  "roleNameExists \<equiv> AppError 409 ''ROLE_NAME_EXISTS''"

record role_response =
  rs_role :: role_row
  rs_permissions :: "permission_row list"
  rs_userCount :: nat

definition toRoleResponse :: "role_row \<Rightarrow> nat \<Rightarrow> db \<Rightarrow> role_response" where
  "toRoleResponse r userCount s =
     \<lparr>rs_role = r, rs_permissions = rolePermissionRows (ro_id r) s, rs_userCount = userCount\<rparr>"

record page_meta =
  pm_page :: int
  pm_limit :: int
  pm_total :: nat
  pm_totalPages :: int

definition pageMeta :: "int \<Rightarrow> int \<Rightarrow> nat \<Rightarrow> page_meta" where
  "pageMeta page perPage count = \<lparr>pm_page = page, pm_limit = perPage, pm_total = count,
     pm_totalPages = \<lceil>rat_of_nat count / of_int perPage\<rceil>\<rparr>"

definition listRoles :: "string \<Rightarrow> int \<Rightarrow> int \<Rightarrow> db \<Rightarrow> role_response list \<times> page_meta" where
  "listRoles tenantId page limit s =
     (let skip = (page - 1) * limit;
          tk = min limit 100;
          rows = filter (\<lambda>r. ro_tenantId r = tenantId) (roles (accounts s))
      in (map (\<lambda>r. toRoleResponse r (countWhere (\<lambda>ur. ur_roleId ur = ro_id r) (userRoles (accounts s))) s)
            (take (nat tk) (drop (nat skip) rows)),
          pageMeta page tk (length rows)))"

definition getRoleById :: "string \<Rightarrow> string \<Rightarrow> role_response dbio" where
  "getRoleById i tenantId =
     bindH (readH (findRole i tenantId)) (\<lambda>found.
     bindH (orThrowH found roleNotFound) (\<lambda>r. readH (toRoleResponse r 0)))"

definition createRole :: "env \<Rightarrow> string \<Rightarrow> string \<Rightarrow> string option \<Rightarrow> role_response dbio" where
  "createRole env tenantId name description =
     bindH (readH (findRoleByName name tenantId)) (\<lambda>existing.
     thenH (throwIfH (existing \<noteq> None) roleNameExists)
    (bindH (transaction (insertRole env tenantId name description)) (\<lambda>r. readH (toRoleResponse r 0))))"

text \<open>\<open>try { \<dots> } catch (error) { if (error.code === 'P2025') throw notFound; throw error; }\<close>.\<close>

definition missingRole :: "error \<Rightarrow> 'a dbio" where
  "missingRole e = throwH (case e of DbError c _ _ \<Rightarrow> if c = ''P2025'' then roleNotFound else e | _ \<Rightarrow> e)"

definition updateRole :: "string \<Rightarrow> string \<Rightarrow> string option \<Rightarrow> string option \<Rightarrow> role_response dbio" where
  "updateRole i tenantId name description =
     bindH (readH (isSystemRole i tenantId)) (\<lambda>isSystem.
     thenH (throwIfH isSystem systemRole)
    (bindH (readH (\<lambda>s. case nonEmpty name of
         Some n \<Rightarrow> (case findRoleByName n tenantId s of Some r \<Rightarrow> ro_id r \<noteq> i | None \<Rightarrow> False) | None \<Rightarrow> False)) (\<lambda>taken.
     thenH (throwIfH taken roleNameExists)
       (catchH (bindH (transaction (writeRole i tenantId name description)) (\<lambda>r. readH (toRoleResponse r 0))) missingRole))))"

definition deleteRole :: "bool \<Rightarrow> string \<Rightarrow> string \<Rightarrow> unit dbio" where
  "deleteRole up i tenantId =
     bindH (readH (isSystemRole i tenantId)) (\<lambda>isSystem.
     thenH (throwIfH isSystem systemRole)
    (bindH (readH (findRole i tenantId)) (\<lambda>found.
     thenH (throwIfH (found = None) roleNotFound)
       (catchH (thenH (transaction (dropRole i tenantId)) (invalidateTenantPermissionsCache up tenantId)) missingRole))))"

definition getMutableRole :: "string \<Rightarrow> string \<Rightarrow> role_row dbio" where
  "getMutableRole i tenantId =
     bindH (readH (findRole i tenantId)) (\<lambda>found.
     bindH (orThrowH found roleNotFound) (\<lambda>r.
     thenH (throwIfH (ro_isSystem r) systemRole) (returnH r)))"

definition assertTenantPermissions :: "string list \<Rightarrow> string \<Rightarrow> unit dbio" where
  "assertTenantPermissions permissionIds tenantId =
     bindH (readH (findPermissionsByIds permissionIds tenantId)) (\<lambda>ps.
     throwIfH (length ps \<noteq> card (set permissionIds)) (AppError 400 ''INVALID_PERMISSION_IDS''))"

definition assignPermissions :: "bool \<Rightarrow> string \<Rightarrow> string \<Rightarrow> string list \<Rightarrow> permission_row list dbio" where
  "assignPermissions up i tenantId permissionIds =
     thenH (getMutableRole i tenantId)
    (thenH (assertTenantPermissions permissionIds tenantId)
    (bindH (transaction (assignPermissionsTx i tenantId permissionIds)) (\<lambda>updated.
     thenH (invalidateTenantPermissionsCache up tenantId) (returnH updated))))"

definition replacePermissions :: "bool \<Rightarrow> string \<Rightarrow> string \<Rightarrow> string list \<Rightarrow> permission_row list dbio" where
  "replacePermissions up i tenantId permissionIds =
     thenH (getMutableRole i tenantId)
    (let uniqueIds = rev (remdups (rev permissionIds)) in
     thenH (assertTenantPermissions uniqueIds tenantId)
    (bindH (transaction (replacePermissionsTx i tenantId uniqueIds)) (\<lambda>updated.
     thenH (invalidateTenantPermissionsCache up tenantId) (returnH updated))))"

definition removePermission :: "bool \<Rightarrow> string \<Rightarrow> string \<Rightarrow> string \<Rightarrow> permission_row list dbio" where
  "removePermission up i tenantId permissionId =
     thenH (getMutableRole i tenantId)
    (bindH (readH (\<lambda>s. filter (\<lambda>rp. rp_roleId rp = i) (rolePermissions (accounts s)))) (\<lambda>rps.
     bindH (readH (rolePermissionRows i)) (\<lambda>ps.
     thenH (throwIfH (permissionId \<notin> set (map rp_permissionId rps)) (AppError 404 ''PERMISSION_NOT_ASSIGNED''))
    (thenH (writeH (accounts_update (rolePermissions_update
         (deleteMany (\<lambda>rp. rp_tenantId rp = tenantId \<and> rp_roleId rp = i \<and> rp_permissionId rp = permissionId)))))
    (thenH (invalidateTenantPermissionsCache up tenantId)
       (returnH (filter (\<lambda>p. pe_id p \<noteq> permissionId) ps)))))))"

section \<open>The user repository\<close>

record user_response =
  ux_user :: user_row
  ux_roles :: "role_row list"

abbreviation userNotFound :: error where
  "userNotFound \<equiv> AppError 404 ''USER_NOT_FOUND''"

definition findMember :: "string \<Rightarrow> string \<Rightarrow> db \<Rightarrow> user_row option" where
  "findMember i tenantId s = find (\<lambda>u. us_id u = i \<and> isMember s tenantId (us_id u)) (users (accounts s))"

definition rolesHeld :: "string \<Rightarrow> string \<Rightarrow> db \<Rightarrow> role_row list" where
  "rolesHeld userId tenantId s =
     List.map_filter (\<lambda>ur. if ur_tenantId ur = tenantId \<and> ur_userId ur = userId
         then find (\<lambda>r. ro_id r = ur_roleId ur) (roles (accounts s)) else None) (userRoles (accounts s))"

definition toUserResponse :: "string \<Rightarrow> db \<Rightarrow> user_row \<Rightarrow> user_response" where
  "toUserResponse tenantId s u = \<lparr>ux_user = u, ux_roles = rolesHeld (us_id u) tenantId s\<rparr>"

definition userRoleResponses :: "string \<Rightarrow> string \<Rightarrow> db \<Rightarrow> role_response list" where
  "userRoleResponses userId tenantId s = map (\<lambda>r. toRoleResponse r 0 s) (rolesHeld userId tenantId s)"

definition holderRow :: "string \<Rightarrow> string \<Rightarrow> string \<Rightarrow> user_role_row" where
  "holderRow tenantId userId roleId = \<lparr>ur_tenantId = tenantId, ur_userId = userId, ur_roleId = roleId\<rparr>"

definition assignRolesTx :: "string \<Rightarrow> string \<Rightarrow> string list \<Rightarrow> role_response list dbtx" where
  "assignRolesTx userId tenantId roleIds =
     bindT (readT (\<lambda>s. isMember s tenantId userId)) (\<lambda>member.
     if \<not> member then returnT []
     else bindT (readT (\<lambda>s. filter (\<lambda>ur. ur_tenantId ur = tenantId \<and> ur_userId ur = userId \<and> ur_roleId ur \<in> set roleIds)
         (userRoles (accounts s)))) (\<lambda>existing.
       let new = filter (\<lambda>i. i \<notin> set (map ur_roleId existing)) roleIds in
       thenT (if new \<noteq> [] then writeT (accounts_update (userRoles_update (insertMissing (map (holderRow tenantId userId) new))))
              else returnT ())
         (readT (userRoleResponses userId tenantId))))"

text \<open>The number of rows removed, or nothing when the last holder of the guarded role would lose it. The holders are
  counted by one statement and the assignment deleted by another, without a lock on the rows counted.\<close>

definition countHolders :: "string \<Rightarrow> string \<Rightarrow> db \<Rightarrow> nat" where
  "countHolders tenantId roleId s =
     countWhere (\<lambda>ur. ur_tenantId ur = tenantId \<and> ur_roleId ur = roleId) (userRoles (accounts s))"

definition deleteHolding :: "nat \<Rightarrow> string \<Rightarrow> string \<Rightarrow> string \<Rightarrow> string \<Rightarrow> string \<Rightarrow> nat option dbtx" where
  "deleteHolding holders userId tenantId roleId guardRoleName roleName =
     (if roleName = guardRoleName \<and> holders \<le> 1 then returnT None
      else let P = (\<lambda>ur. ur_tenantId ur = tenantId \<and> ur_userId ur = userId \<and> ur_roleId ur = roleId) in
        bindT (readT (\<lambda>s. countWhere P (userRoles (accounts s)))) (\<lambda>count.
        thenT (writeT (accounts_update (userRoles_update (deleteMany P)))) (returnT (Some count))))"

definition removeRoleTx :: "string \<Rightarrow> string \<Rightarrow> string \<Rightarrow> string \<Rightarrow> string \<Rightarrow> nat option dbtx" where
  "removeRoleTx userId tenantId roleId guardRoleName roleName =
     bindT (readT (countHolders tenantId roleId)) (\<lambda>holders.
     deleteHolding holders userId tenantId roleId guardRoleName roleName)"

text \<open>\<open>contains\<close> with \<open>mode: 'insensitive'\<close>, and the order of a column.\<close>

definition containsCI :: "string \<Rightarrow> string \<Rightarrow> bool" where
  "containsCI field search = strIncludes (toLowerCase field) (toLowerCase search)"

datatype sort_key = SInt int | SStr string

definition sortKey :: "string \<Rightarrow> user_row \<Rightarrow> sort_key" where
  "sortKey field u =
     (if field = ''updatedAt'' then SInt (us_updatedAt u)
      else if field = ''email'' then SStr (us_email u)
      else if field = ''firstName'' then SStr (us_firstName u)
      else if field = ''lastName'' then SStr (us_lastName u)
      else if field = ''status'' then SInt (case us_status u of U_ACTIVE \<Rightarrow> 0 | U_INACTIVE \<Rightarrow> 1 | U_SUSPENDED \<Rightarrow> 2)
      else SInt (us_createdAt u))"

instantiation sort_key :: linorder
begin

definition less_eq_sort_key :: "sort_key \<Rightarrow> sort_key \<Rightarrow> bool" where
  "less_eq_sort_key a b = (case (a, b) of
     (SInt i, SInt j) \<Rightarrow> i \<le> j | (SStr x, SStr y) \<Rightarrow> x \<le> y | (SInt _, SStr _) \<Rightarrow> True | (SStr _, SInt _) \<Rightarrow> False)"

definition less_sort_key :: "sort_key \<Rightarrow> sort_key \<Rightarrow> bool" where
  "less_sort_key a b \<longleftrightarrow> a \<le> b \<and> \<not> b \<le> (a :: sort_key)"

instance
  by standard (auto simp: less_eq_sort_key_def less_sort_key_def split: sort_key.splits)

end

record user_query =
  uq_page :: int
  uq_limit :: int
  uq_search :: "string option"
  uq_status :: "user_status option"
  uq_roleId :: "string option"
  uq_sortBy :: string
  uq_descending :: bool

definition matchesQuery :: "string \<Rightarrow> user_query \<Rightarrow> db \<Rightarrow> user_row \<Rightarrow> bool" where
  "matchesQuery tenantId q s u \<longleftrightarrow>
     isMember s tenantId (us_id u)
     \<and> (case nonEmpty (uq_search q) of None \<Rightarrow> True
        | Some x \<Rightarrow> containsCI (us_email u) x \<or> containsCI (us_firstName u) x \<or> containsCI (us_lastName u) x)
     \<and> (case uq_status q of None \<Rightarrow> True | Some st \<Rightarrow> us_status u = st)
     \<and> (case nonEmpty (uq_roleId q) of None \<Rightarrow> True
        | Some r \<Rightarrow> list_ex (\<lambda>ur. ur_tenantId ur = tenantId \<and> ur_userId ur = us_id u \<and> ur_roleId ur = r) (userRoles (accounts s)))"

text \<open>The database may return rows with equal keys in any order; here they keep the order of the table.\<close>

definition listUsers :: "string \<Rightarrow> user_query \<Rightarrow> db \<Rightarrow> user_response list \<times> page_meta" where
  "listUsers tenantId q s =
     (let skip = (uq_page q - 1) * uq_limit q;
          tk = min (uq_limit q) 100;
          rows = filter (matchesQuery tenantId q s) (users (accounts s));
          sorted = sort_key (sortKey (uq_sortBy q)) rows;
          ordered = (if uq_descending q then rev (sort_key (sortKey (uq_sortBy q)) (rev rows)) else sorted)
      in (map (toUserResponse tenantId s) (take (nat tk) (drop (nat skip) ordered)),
          pageMeta (uq_page q) tk (length rows)))"

section \<open>The user service\<close>

text \<open>The body of an update: three fields that may change and three that are refused when present.\<close>

record user_update =
  uu_firstName :: "string option"
  uu_lastName :: "string option"
  uu_status :: "string option"
  uu_email :: "string option"
  uu_passwordHash :: "string option"
  uu_tenantId :: "string option"

definition parseUserStatus :: "string \<Rightarrow> user_status option" where
  "parseUserStatus x =
     (if x = ''ACTIVE'' then Some U_ACTIVE else if x = ''INACTIVE'' then Some U_INACTIVE
      else if x = ''SUSPENDED'' then Some U_SUSPENDED else None)"

definition getUserById :: "string \<Rightarrow> string \<Rightarrow> user_response dbio" where
  "getUserById i tenantId =
     bindH (readH (findMember i tenantId)) (\<lambda>found.
     bindH (orThrowH found userNotFound) (\<lambda>u. readH (\<lambda>s. toUserResponse tenantId s u)))"

definition updateFields :: "user_update \<Rightarrow> (string \<times> jsval) list" where
  "updateFields d =
     (case uu_firstName d of Some x \<Rightarrow> [(''firstName'', JStr x)] | None \<Rightarrow> [])
     @ (case uu_lastName d of Some x \<Rightarrow> [(''lastName'', JStr x)] | None \<Rightarrow> [])
     @ (case uu_status d of Some x \<Rightarrow> [(''status'', JStr x)] | None \<Rightarrow> [])"

definition oldFields :: "user_update \<Rightarrow> user_row \<Rightarrow> (string \<times> jsval) list" where
  "oldFields d u =
     (if uu_firstName d \<noteq> None then [(''firstName'', JStr (us_firstName u))] else [])
     @ (if uu_lastName d \<noteq> None then [(''lastName'', JStr (us_lastName u))] else [])
     @ (if uu_status d \<noteq> None then [(''status'', JStr (user_status_str (us_status u)))] else [])"

definition applyUpdate :: "env \<Rightarrow> user_update \<Rightarrow> user_row \<Rightarrow> user_row" where
  "applyUpdate env d u = u\<lparr>
     us_firstName := (case uu_firstName d of Some x \<Rightarrow> x | None \<Rightarrow> us_firstName u),
     us_lastName := (case uu_lastName d of Some x \<Rightarrow> x | None \<Rightarrow> us_lastName u),
     us_status := (case uu_status d of Some x \<Rightarrow> (case parseUserStatus x of Some st \<Rightarrow> st | None \<Rightarrow> us_status u)
       | None \<Rightarrow> us_status u),
     us_updatedAt := env_now env\<rparr>"

definition updateUserTx :: "env \<Rightarrow> string \<Rightarrow> string \<Rightarrow> user_row \<Rightarrow> user_update \<Rightarrow> audit_context \<Rightarrow> user_row dbtx" where
  "updateUserTx env i tenantId u d ctx =
     bindT (readT (findUserById i)) (\<lambda>found.
     thenT (throwIfT (found = None) recordNotFound)
    (thenT (writeT (accounts_update (users_update (updateMany (\<lambda>x. us_id x = i) (applyUpdate env d)))))
    (thenT (logAudit env ctx tenantId ''UPDATE'' ''user'' (Some i) (JObj (oldFields d u)) (JObj (updateFields d)))
    (thenT (logActivity env ctx tenantId ''user.update'' (''User '' @ i @ '' updated'')
          (JObj [(''resourceId'', JStr i), (''changes'', JArr (map (\<lambda>kv. JStr (fst kv)) (updateFields d)))]))
       (readT (\<lambda>s. case findUserById i s of Some x \<Rightarrow> x | None \<Rightarrow> u))))))"

definition updateTenantUser :: "env \<Rightarrow> string \<Rightarrow> string \<Rightarrow> user_update \<Rightarrow> audit_context \<Rightarrow> user_response dbio" where
  "updateTenantUser env i tenantId d ctx =
     bindH (readH (findMember i tenantId)) (\<lambda>found.
     bindH (orThrowH found userNotFound) (\<lambda>u.
     thenH (throwIfH (case uu_status d of Some x \<Rightarrow> parseUserStatus x = None | None \<Rightarrow> False) (AppError 400 ''INVALID_STATUS''))
    (thenH (throwIfH (uu_email d \<noteq> None) (AppError 400 ''EMAIL_MODIFICATION_FORBIDDEN''))
    (thenH (throwIfH (uu_passwordHash d \<noteq> None) (AppError 400 ''PASSWORD_MODIFICATION_FORBIDDEN''))
    (thenH (throwIfH (uu_tenantId d \<noteq> None) (AppError 400 ''TENANT_MODIFICATION_FORBIDDEN''))
    (bindH (if updateFields d = [] then returnH u else transaction (updateUserTx env i tenantId u d ctx)) (\<lambda>updated.
       readH (\<lambda>s. toUserResponse tenantId s (case findMember i tenantId s of Some x \<Rightarrow> x | None \<Rightarrow> updated)))))))))"

text \<open>Deleting a user deletes memberships, roles held, sessions and tokens, and clears the id in the logs.\<close>

definition removeUserRows :: "string \<Rightarrow> db \<Rightarrow> db" where
  "removeUserRows i s = s\<lparr>
     accounts := (accounts s)\<lparr>
       users := deleteMany (\<lambda>u. us_id u = i) (users (accounts s)),
       refreshTokens := deleteMany (\<lambda>t. rt_userId t = i) (refreshTokens (accounts s)),
       resetTokens := deleteMany (\<lambda>t. ot_userId t = i) (resetTokens (accounts s)),
       verifyTokens := deleteMany (\<lambda>t. ot_userId t = i) (verifyTokens (accounts s)),
       userRoles := deleteMany (\<lambda>ur. ur_userId ur = i) (userRoles (accounts s)),
       platformGrants := deleteMany (\<lambda>g. pg_userId g = i) (platformGrants (accounts s)),
       supportSessions := deleteMany (\<lambda>x. su_platformUserId x = i) (supportSessions (accounts s))\<rparr>,
     memberships := deleteMany (\<lambda>m. mb_userId m = i) (memberships s),
     auditLogs := updateMany (\<lambda>r. au_userId r = Some i) (\<lambda>r. r\<lparr>au_userId := None\<rparr>) (auditLogs s),
     activityLogs := updateMany (\<lambda>r. ac_userId r = Some i) (\<lambda>r. r\<lparr>ac_userId := None\<rparr>) (activityLogs s)\<rparr>"

definition deleteTenantUser :: "env \<Rightarrow> string \<Rightarrow> string \<Rightarrow> audit_context \<Rightarrow> unit dbio" where
  "deleteTenantUser env i tenantId ctx =
     bindH (readH (findMember i tenantId)) (\<lambda>found.
     bindH (orThrowH found userNotFound) (\<lambda>u.
     transaction
       (thenT (logAudit env ctx tenantId ''DELETE'' ''user'' (Some i)
           (JObj [(''id'', JStr (us_id u)), (''email'', JStr (us_email u)), (''firstName'', JStr (us_firstName u)),
              (''lastName'', JStr (us_lastName u)), (''status'', JStr (user_status_str (us_status u)))]) JNull)
       (thenT (logActivity env ctx tenantId ''user.delete'' (''User '' @ i @ '' deleted'')
           (JObj [(''resourceId'', JStr i), (''email'', JStr (us_email u))]))
       (bindT (readT (findUserById i)) (\<lambda>still.
        thenT (throwIfT (still = None) recordNotFound) (writeT (removeUserRows i))))))))"

text \<open>The controller refuses the deletion of one's own account.\<close>

definition deleteUserHandler :: "env \<Rightarrow> string \<Rightarrow> req_context \<Rightarrow> client \<Rightarrow> unit dbio" where
  "deleteUserHandler env i c from =
     thenH (throwIfH (i = rc_userId c) (AppError 400 ''SELF_DELETION_FORBIDDEN''))
       (deleteTenantUser env i (rc_tenantId c)
          \<lparr>cx_userId = Some (rc_userId c), cx_ipAddress = ci_ipAddress from, cx_userAgent = ci_userAgent from\<rparr>)"

definition getUserRoles :: "string \<Rightarrow> string \<Rightarrow> role_response list dbio" where
  "getUserRoles userId tenantId =
     bindH (readH (findMember userId tenantId)) (\<lambda>found.
     thenH (throwIfH (found = None) userNotFound) (readH (userRoleResponses userId tenantId)))"

text \<open>\<open>this.cache.del(userPermissionsKey(tenantId, userId))\<close>.\<close>

definition dropUserKey :: "bool \<Rightarrow> string \<Rightarrow> string \<Rightarrow> unit dbio" where
  "dropUserKey up tenantId userId =
     thenH (liftH (userPermissionsKey tenantId userId))
       (if up then writeH (cacheStore tenantId userId None) else returnH ())"

definition assignRoles :: "bool \<Rightarrow> string \<Rightarrow> string \<Rightarrow> string list \<Rightarrow> role_response list dbio" where
  "assignRoles up userId tenantId roleIds =
     bindH (readH (findMember userId tenantId)) (\<lambda>found.
     thenH (throwIfH (found = None) userNotFound)
    (let uniqueRoleIds = rev (remdups (rev roleIds)) in
     bindH (readH (\<lambda>s. filter (\<lambda>r. ro_id r \<in> set uniqueRoleIds \<and> ro_tenantId r = tenantId) (roles (accounts s)))) (\<lambda>rs.
     thenH (throwIfH (length rs \<noteq> length uniqueRoleIds) (AppError 400 ''INVALID_ROLE_IDS''))
    (bindH (transaction (assignRolesTx userId tenantId uniqueRoleIds)) (\<lambda>held.
     thenH (dropUserKey up tenantId userId) (returnH held))))))"

definition TENANT_ADMIN_ROLE :: string where
  "TENANT_ADMIN_ROLE = ''admin''"

text \<open>What a removal answers once its transaction has counted the holders and deleted.\<close>

definition removalAnswer :: "bool \<Rightarrow> string \<Rightarrow> string \<Rightarrow> nat option \<Rightarrow> role_response list dbio" where
  "removalAnswer up userId tenantId result =
     bindH (orThrowH result (AppError 409 ''LAST_ADMIN_ROLE'')) (\<lambda>removed.
     thenH (throwIfH (removed = 0) (AppError 404 ''ROLE_NOT_ASSIGNED''))
    (thenH (dropUserKey up tenantId userId)
       (readH (userRoleResponses userId tenantId))))"

definition removalCheck :: "string \<Rightarrow> string \<Rightarrow> string \<Rightarrow> role_row dbio" where
  "removalCheck userId tenantId roleId =
     bindH (readH (findMember userId tenantId)) (\<lambda>found.
     thenH (throwIfH (found = None) userNotFound)
    (bindH (readH (findRole roleId tenantId)) (\<lambda>foundRole.
     orThrowH foundRole roleNotFound)))"

definition removeRole :: "bool \<Rightarrow> string \<Rightarrow> string \<Rightarrow> string \<Rightarrow> role_response list dbio" where
  "removeRole up userId tenantId roleId =
     bindH (removalCheck userId tenantId roleId) (\<lambda>r.
     bindH (transaction (removeRoleTx userId tenantId roleId TENANT_ADMIN_ROLE (ro_name r)))
       (removalAnswer up userId tenantId))"

record user_overview =
  uo_total :: nat
  uo_byStatus :: "user_status \<Rightarrow> nat"
  uo_recent :: "user_row list"

text \<open>The total counts active members; the numbers by status count former members too.\<close>

definition getUsersOverview :: "string \<Rightarrow> db \<Rightarrow> user_overview" where
  "getUsersOverview tenantId s =
     (let members = filter (\<lambda>u. isMember s tenantId (us_id u)) (users (accounts s));
          everyone = filter (\<lambda>u. list_ex (\<lambda>m. mb_tenantId m = tenantId \<and> mb_userId m = us_id u) (memberships s)) (users (accounts s))
      in \<lparr>uo_total = length members,
          uo_byStatus = (\<lambda>st. countWhere (\<lambda>u. us_status u = st) everyone),
          uo_recent = take 5 (rev (sort_key us_createdAt (rev members)))\<rparr>)"

section \<open>What the operations do\<close>

lemma insertMissing_set: "set (insertMissing rs table) = set rs \<union> set table"
  by (induction rs arbitrary: table) auto

lemma insertMissing_distinct: "distinct table \<Longrightarrow> distinct (insertMissing rs table)"
  by (induction rs arbitrary: table) auto

lemma insertMissing_filter:
  "(\<And>r. r \<in> set rs \<Longrightarrow> \<not> P r) \<Longrightarrow> filter P (insertMissing rs table) = filter P table"
  by (induction rs arbitrary: table) auto

lemma deleteMany_set [simp]: "x \<in> set (deleteMany P xs) \<longleftrightarrow> x \<in> set xs \<and> \<not> P x"
  by (auto simp: deleteMany_def)

lemma deleteMany_distinct: "distinct xs \<Longrightarrow> distinct (deleteMany P xs)"
  by (simp add: deleteMany_def)

lemma deleteMany_filter: "(\<And>x. x \<in> set xs \<Longrightarrow> Q x \<Longrightarrow> \<not> P x) \<Longrightarrow> filter Q (deleteMany P xs) = filter Q xs"
  by (induction xs) (auto simp: deleteMany_def)

lemma deleteMany_none: "countWhere P xs = 0 \<Longrightarrow> deleteMany P xs = xs"
  by (simp add: countWhere_def deleteMany_def filter_empty_conv)

lemma distinct_deleteMany_map: "distinct (map f xs) \<Longrightarrow> distinct (map f (deleteMany P xs))"
  by (induction xs) (auto simp: deleteMany_def)

lemma invalidateTenant_eq:
  "invalidateTenantPermissionsCache up t s = (Inr (), if up \<and> cacheIdOk t then cacheDropTenant t s else s)"
  by (simp add: invalidateTenantPermissionsCache_def sanitizeId_def monad_defs)

lemma wpH_invalidateTenant [wp]:
  "wpH (invalidateTenantPermissionsCache up t) Q E = (\<lambda>s. Q () (if up \<and> cacheIdOk t then cacheDropTenant t s else s))"
  by (simp add: wpH_def invalidateTenant_eq fun_eq_iff)

lemma dropUserKey_eq:
  "dropUserKey up t u s =
     (if cacheIdOk t \<and> cacheIdOk u then (Inr (), if up then cacheStore t u None s else s)
      else (Inl (JsError ''Invalid cache id''), s))"
  by (simp add: dropUserKey_def userPermissionsKey_def sanitizeId_def monad_defs)

lemma wpH_dropUserKey [wp]:
  "wpH (dropUserKey up t u) Q E = (\<lambda>s. if cacheIdOk t \<and> cacheIdOk u then Q () (if up then cacheStore t u None s else s)
     else E (JsError ''Invalid cache id'') s)"
  by (auto simp: wpH_def dropUserKey_eq fun_eq_iff)

section \<open>Well-formed role tables\<close>

text \<open>
  Role, permission and user of every assignment belong to one tenant; no assignment is listed twice, and a
  tenant's roles have different names.
\<close>

definition roleRowOk :: "accounts \<Rightarrow> string \<Rightarrow> string \<Rightarrow> bool" where
  "roleRowOk a roleId tenantId \<longleftrightarrow> (\<exists>r \<in> set (roles a). ro_id r = roleId \<and> ro_tenantId r = tenantId)"

definition roleTablesOk :: "accounts \<Rightarrow> bool" where
  "roleTablesOk a \<longleftrightarrow>
     distinct (map ro_id (roles a)) \<and> distinct (map pe_id (permissions a))
     \<and> distinct (map (\<lambda>r. (ro_tenantId r, ro_name r)) (roles a))
     \<and> distinct (rolePermissions a) \<and> distinct (userRoles a)
     \<and> (\<forall>rp \<in> set (rolePermissions a). roleRowOk a (rp_roleId rp) (rp_tenantId rp)
          \<and> (\<exists>p \<in> set (permissions a). pe_id p = rp_permissionId rp \<and> pe_tenantId p = rp_tenantId rp))
     \<and> (\<forall>ur \<in> set (userRoles a). roleRowOk a (ur_roleId ur) (ur_tenantId ur))"

abbreviation rolesOk :: "db \<Rightarrow> bool" where
  "rolesOk s \<equiv> roleTablesOk (accounts s)"

lemma rolesOk_frame:
  assumes "rolesOk s" "roles (accounts s') = roles (accounts s)" "permissions (accounts s') = permissions (accounts s)"
    "rolePermissions (accounts s') = rolePermissions (accounts s)" "userRoles (accounts s') = userRoles (accounts s)"
  shows "rolesOk s'"
  using assms by (simp add: roleTablesOk_def roleRowOk_def)

lemma rolesOk_cache [simp]:
  "rolesOk (cacheStore t u v s) = rolesOk s" "rolesOk (cacheDropTenant t s) = rolesOk s"
  by (simp_all add: roleTablesOk_def roleRowOk_def cacheStore_def cacheDropTenant_def)

lemma findRole_SomeD: "findRole i t s = Some r \<Longrightarrow> r \<in> set (roles (accounts s)) \<and> ro_id r = i \<and> ro_tenantId r = t"
  unfolding findRole_def by (auto dest: find_SomeD)

lemma same_role:
  assumes "rolesOk s" "roleRowOk (accounts s) i t" "findRole i t' s = Some r"
  shows "t = t'"
  using assms(2,3) distinct_map [of ro_id "roles (accounts s)"] assms(1)
  by (auto simp: roleTablesOk_def Let_def roleRowOk_def inj_on_def dest!: findRole_SomeD)

lemma rolesOk_insertRole:
  assumes "rolesOk s" "\<not> list_ex (\<lambda>r. ro_id r = ro_id row \<or> ro_tenantId r = ro_tenantId row \<and> ro_name r = ro_name row) (roles (accounts s))"
  shows "rolesOk (accounts_update (roles_update (\<lambda>rs. rs @ [row])) s)"
  using assms by (fastforce simp: roleTablesOk_def roleRowOk_def Let_def list_ex_iff)

lemma rolesOk_writeRole:
  assumes "rolesOk s" "ro_id row = i" "ro_tenantId row = t"
    and "\<not> list_ex (\<lambda>x. ro_id x \<noteq> i \<and> ro_tenantId x = t \<and> ro_name x = ro_name row) (roles (accounts s))"
  shows "rolesOk (accounts_update (roles_update (updateMany (\<lambda>x. ro_id x = i \<and> ro_tenantId x = t) (\<lambda>_. row))) s)"
proof -
  let ?f = "updateMany (\<lambda>x. ro_id x = i \<and> ro_tenantId x = t) (\<lambda>_. row)"
  have ids: "map ro_id (?f rs) = map ro_id rs" for rs
    using assms(2) by (induction rs) auto
  have ex: "(\<exists>r \<in> set (?f rs). ro_id r = j \<and> ro_tenantId r = t') \<longleftrightarrow> (\<exists>r \<in> set rs. ro_id r = j \<and> ro_tenantId r = t')" for rs j t'
    using assms(2,3) by (induction rs) auto
  have names: "distinct (map (\<lambda>r. (ro_tenantId r, ro_name r)) (?f rs))"
    if "distinct (map ro_id rs)" "distinct (map (\<lambda>r. (ro_tenantId r, ro_name r)) rs)"
      "\<not> list_ex (\<lambda>x. ro_id x \<noteq> i \<and> ro_tenantId x = t \<and> ro_name x = ro_name row) rs" for rs
    using that assms(2,3) by (induction rs) (auto simp: set_updateMany image_iff list_ex_iff)
  show ?thesis
    using assms(1,4) names by (simp add: roleTablesOk_def roleRowOk_def Let_def ids ex)
qed

lemma rolesOk_removeRoleRows:
  assumes "rolesOk s" "findRole i t s = Some r"
  shows "rolesOk (removeRoleRows i t s)"
  using assms
  by (fastforce simp: roleTablesOk_def removeRoleRows_def roleRowOk_def Let_def intro: distinct_deleteMany_map deleteMany_distinct)

lemma rolesOk_addGrants:
  assumes "rolesOk s" "findRole i t s = Some r"
    and "\<And>j. j \<in> set ids \<Longrightarrow> \<exists>p \<in> set (permissions (accounts s)). pe_id p = j \<and> pe_tenantId p = t"
  shows "rolesOk (addGrants t i ids s)"
proof -
  have "roleRowOk (accounts s) i t" using assms(2) by (auto simp: roleRowOk_def dest: findRole_SomeD)
  then show ?thesis
    using assms(1,3)
    by (auto simp: roleTablesOk_def addGrants_def Let_def insertMissing_set insertMissing_distinct grantRow_def roleRowOk_def)
qed

lemma rolesOk_delete:
  assumes "rolesOk s"
  shows "rolesOk (accounts_update (rolePermissions_update (deleteMany P)) s)"
    and "rolesOk (accounts_update (userRoles_update (deleteMany Q)) s)"
  using assms by (auto simp: roleTablesOk_def roleRowOk_def Let_def intro: deleteMany_distinct)

lemma rolesOk_addHolders:
  assumes "rolesOk s" and "\<And>j. j \<in> set ids \<Longrightarrow> roleRowOk (accounts s) j t"
  shows "rolesOk (accounts_update (userRoles_update (insertMissing (map (holderRow t u) ids))) s)"
  using assms by (auto simp: roleTablesOk_def roleRowOk_def Let_def insertMissing_set insertMissing_distinct holderRow_def)

text \<open>As many rows as different ids were found: every id is a row of the tenant.\<close>

lemma all_found:
  assumes "length (filter (\<lambda>r. key r \<in> set ids \<and> P r) rows) = card (set ids)" "distinct (map key rows)" "i \<in> set ids"
  shows "\<exists>r \<in> set rows. key r = i \<and> P r"
proof -
  let ?ks = "map key (filter (\<lambda>r. key r \<in> set ids \<and> P r) rows)"
  have "distinct ?ks" using assms(2) by (rule distinct_map_filter)
  then have "card (set ?ks) = card (set ids)" using assms(1) by (simp add: distinct_card del: set_map)
  moreover have "set ?ks \<subseteq> set ids" by auto
  ultimately have "set ?ks = set ids" by (simp add: card_subset_eq del: set_map)
  with assms(3) have "i \<in> set ?ks" by simp
  then show ?thesis by auto
qed

section \<open>What an operation can do to the state\<close>

definition changedIn :: "bool \<Rightarrow> string \<Rightarrow> db \<Rightarrow> db" where
  "changedIn up t s = (if up \<and> cacheIdOk t then cacheDropTenant t s else s)"

definition changedFor :: "bool \<Rightarrow> string \<Rightarrow> string \<Rightarrow> db \<Rightarrow> db" where
  "changedFor up t u s = (if up \<and> cacheIdOk t \<and> cacheIdOk u then cacheStore t u None s else s)"

text \<open>One rule per kind of change an operation of tenant \<open>t\<close> makes; refused requests change nothing.\<close>

inductive roleStep :: "bool \<Rightarrow> string \<Rightarrow> db \<Rightarrow> db \<Rightarrow> bool" for up t where
  Refused: "roleStep up t s s"
| RoleCreated: "\<not> list_ex (\<lambda>r. ro_id r = ro_id row \<or> ro_tenantId r = ro_tenantId row \<and> ro_name r = ro_name row) (roles (accounts s))
    \<Longrightarrow> roleStep up t s (accounts_update (roles_update (\<lambda>rs. rs @ [row])) (s\<lparr>drawn := Suc (drawn s)\<rparr>))"
| RoleWritten: "findRole i t s = Some r \<Longrightarrow> \<not> ro_isSystem r \<Longrightarrow> ro_id row = i \<Longrightarrow> ro_tenantId row = t
    \<Longrightarrow> \<not> list_ex (\<lambda>x. ro_id x \<noteq> i \<and> ro_tenantId x = t \<and> ro_name x = ro_name row) (roles (accounts s))
    \<Longrightarrow> roleStep up t s (accounts_update (roles_update (updateMany (\<lambda>x. ro_id x = i \<and> ro_tenantId x = t) (\<lambda>_. row))) s)"
| RoleDeleted: "findRole i t s = Some r \<Longrightarrow> \<not> ro_isSystem r \<Longrightarrow> roleStep up t s (changedIn up t (removeRoleRows i t s))"
| GrantsChanged: "findRole i t s = Some r \<Longrightarrow> \<not> ro_isSystem r
    \<Longrightarrow> (\<And>j. j \<in> set ids \<Longrightarrow> \<exists>p \<in> set (permissions (accounts s)). pe_id p = j \<and> pe_tenantId p = t)
    \<Longrightarrow> (\<And>rp. P rp \<Longrightarrow> rp_tenantId rp = t \<and> rp_roleId rp = i)
    \<Longrightarrow> roleStep up t s (changedIn up t (addGrants t i ids (accounts_update (rolePermissions_update (deleteMany P)) s)))"
| HoldersChanged: "(\<And>j. j \<in> set ids \<Longrightarrow> roleRowOk (accounts s) j t)
    \<Longrightarrow> (\<And>ur. P ur \<Longrightarrow> ur_tenantId ur = t \<and> ur_userId ur = u)
    \<Longrightarrow> ids = [] \<or> isMember s t u
    \<Longrightarrow> roleStep up t s (changedFor up t u (accounts_update (userRoles_update (\<lambda>xs.
          insertMissing (map (holderRow t u) ids) (deleteMany P xs))) s))"
| UserWritten: "accounts s' = users_update g (accounts s) \<Longrightarrow> memberships s' = memberships s \<Longrightarrow> roleStep up t s s'"
| UserDeleted: "accounts s' = accounts s \<Longrightarrow> memberships s' = memberships s \<Longrightarrow> roleStep up t s (removeUserRows i s')"

inductive_cases roleStepE: "roleStep up t s s'"

lemma deleteMany_False [simp]: "deleteMany (\<lambda>_. False) = (\<lambda>xs. xs)"
  by (simp add: deleteMany_def fun_eq_iff)

lemma accounts_update_same [simp]:
  "accounts_update (rolePermissions_update (\<lambda>xs. xs)) s = s" "accounts_update (userRoles_update (\<lambda>xs. xs)) s = s"
  by simp_all

text \<open>The transactions as equations.\<close>

definition newRole :: "env \<Rightarrow> string \<Rightarrow> string \<Rightarrow> string option \<Rightarrow> db \<Rightarrow> role_row" where
  "newRole env t n d s = \<lparr>ro_id = env_uuid env (drawn s), ro_tenantId = t, ro_name = n, ro_description = d, ro_isSystem = False\<rparr>"

lemma insertRole_eq:
  "insertRole env t n d s =
     (if list_ex (\<lambda>r. ro_id r = env_uuid env (drawn s) \<or> ro_tenantId r = t \<and> ro_name r = n) (roles (accounts s)) then Inl uniqueViolation
      else Inr (newRole env t n d s, accounts_update (roles_update (\<lambda>rs. rs @ [newRole env t n d s])) (s\<lparr>drawn := Suc (drawn s)\<rparr>)))"
  by (simp add: insertRole_def freshId_def newRole_def monad_defs Let_def)

definition newFields :: "role_row \<Rightarrow> string option \<Rightarrow> string option \<Rightarrow> role_row" where
  "newFields r n d = r\<lparr>ro_name := (case n of Some n \<Rightarrow> n | None \<Rightarrow> ro_name r), ro_description := coalesce d (ro_description r)\<rparr>"

lemma newFields_id [simp]: "ro_id (newFields r n d) = ro_id r" "ro_tenantId (newFields r n d) = ro_tenantId r"
  by (simp_all add: newFields_def)

lemma writeRole_eq:
  "writeRole i t n d s =
     (case findRole i t s of None \<Rightarrow> Inl recordNotFound
      | Some r \<Rightarrow>
          (if list_ex (\<lambda>x. ro_id x \<noteq> i \<and> ro_tenantId x = t \<and> ro_name x = ro_name (newFields r n d)) (roles (accounts s)) then Inl uniqueViolation
           else Inr (newFields r n d,
             accounts_update (roles_update (updateMany (\<lambda>x. ro_id x = i \<and> ro_tenantId x = t) (\<lambda>_. newFields r n d))) s)))"
  by (simp add: writeRole_def newFields_def monad_defs Let_def split: option.split)

lemma dropRole_eq:
  "dropRole i t s = (if findRole i t s = None then Inl recordNotFound else Inr ((), removeRoleRows i t s))"
  by (simp add: dropRole_def monad_defs)

definition newGrants :: "string list \<Rightarrow> string \<Rightarrow> string \<Rightarrow> db \<Rightarrow> string list" where
  "newGrants ids t i s =
     (let valid = filter (\<lambda>j. j \<in> set (map pe_id (findPermissionsByIds ids t s))) ids
      in filter (\<lambda>j. j \<notin> set (map rp_permissionId (filter (\<lambda>rp. rp_tenantId rp = t \<and> rp_roleId rp = i \<and> rp_permissionId rp \<in> set valid)
           (rolePermissions (accounts s))))) valid)"

lemma addGrants_Nil [simp]: "addGrants t i [] s = s"
  by (simp add: addGrants_def) 

lemma assignPermissionsTx_eq:
  "assignPermissionsTx i t ids s =
     (let s' = addGrants t i (newGrants ids t i s) s in Inr (rolePermissionsOf i t s', s'))"
  by (cases "newGrants ids t i s = []") (simp_all add: assignPermissionsTx_def newGrants_def monad_defs Let_def)

lemma replacePermissionsTx_eq:
  "replacePermissionsTx i t ids s =
     (let s' = addGrants t i ids (accounts_update (rolePermissions_update
         (deleteMany (\<lambda>rp. rp_tenantId rp = t \<and> rp_roleId rp = i \<and> rp_permissionId rp \<notin> set ids))) s)
      in Inr (rolePermissionsOf i t s', s'))"
  by (cases "ids = []") (simp_all add: replacePermissionsTx_def monad_defs Let_def)

definition newHolders :: "string list \<Rightarrow> string \<Rightarrow> string \<Rightarrow> db \<Rightarrow> string list" where
  "newHolders ids t u s = filter (\<lambda>j. j \<notin> set (map ur_roleId (filter (\<lambda>ur. ur_tenantId ur = t \<and> ur_userId ur = u \<and> ur_roleId ur \<in> set ids)
      (userRoles (accounts s))))) ids"

lemma insertMissing_Nil [simp]: "insertMissing [] = (\<lambda>xs. xs)"
  by (simp add: fun_eq_iff)

lemma assignRolesTx_eq:
  "assignRolesTx u t ids s =
     (if isMember s t u then
        let s' = accounts_update (userRoles_update (insertMissing (map (holderRow t u) (newHolders ids t u s)))) s
        in Inr (userRoleResponses u t s', s')
      else Inr ([], s))"
  by (cases "newHolders ids t u s = []") (simp_all add: assignRolesTx_def newHolders_def monad_defs Let_def)

lemma removeRoleTx_eq:
  "removeRoleTx u t i g n s =
     (let P = (\<lambda>ur. ur_tenantId ur = t \<and> ur_userId ur = u \<and> ur_roleId ur = i) in
      if n = g \<and> countWhere (\<lambda>ur. ur_tenantId ur = t \<and> ur_roleId ur = i) (userRoles (accounts s)) \<le> 1 then Inr (None, s)
      else Inr (Some (countWhere P (userRoles (accounts s))), accounts_update (userRoles_update (deleteMany P)) s))"
  by (simp add: removeRoleTx_def deleteHolding_def countHolders_def monad_defs Let_def)

lemma wpH_tx: "wpH (transaction m) Q E s = (case m s of Inl e \<Rightarrow> E e s | Inr (x, s') \<Rightarrow> Q x s')"
  by (simp add: wpH_def transaction_def split: sum.split)

text \<open>An operation does one of the steps.\<close>

lemma stepI:
  assumes "wpH m (\<lambda>_. roleStep up t s) (\<lambda>_. roleStep up t s) s"
  shows "roleStep up t s (snd (m s))"
  using assms by (cases "m s") (auto simp: wpH_def split: sum.splits)

lemma createRole_step: "roleStep up t s (snd (createRole env t name d s))"
  by (rule stepI)
    (auto simp: createRole_def wp wpH_tx insertRole_eq newRole_def intro: roleStep.intros)

lemma updateRole_step: "roleStep up t s (snd (updateRole i t name d s))"
proof -
  have step: "roleStep up t s (accounts_update (roles_update (updateMany (\<lambda>x. ro_id x = j \<and> ro_tenantId x = t) (\<lambda>_. newFields r name d))) s)"
    if "findRole j t s = Some r" "\<not> ro_isSystem r"
      "\<not> list_ex (\<lambda>x. ro_id x \<noteq> j \<and> ro_tenantId x = t \<and> ro_name x = ro_name (newFields r name d)) (roles (accounts s))" for r j
    using that by (intro RoleWritten) (auto dest: findRole_SomeD)
  show ?thesis
    by (rule stepI)
      (auto simp: updateRole_def missingRole_def wp wpH_tx writeRole_eq isSystemRole_def intro: roleStep.Refused step split: option.splits)
qed

lemma deleteRole_step: "roleStep up t s (snd (deleteRole up i t s))"
  by (rule stepI)
    (auto simp: deleteRole_def missingRole_def wp wpH_tx dropRole_eq changedIn_def [symmetric] isSystemRole_def intro: roleStep.intros split: option.splits)

lemma listed_permission: 
  "j \<in> set (map pe_id (findPermissionsByIds ids t s)) \<Longrightarrow> \<exists>p \<in> set (permissions (accounts s)). pe_id p = j \<and> pe_tenantId p = t"
  by (auto simp: findPermissionsByIds_def)

lemma assignPermissions_step: "roleStep up t s (snd (assignPermissions up i t ids s))"
proof -
  have step: "roleStep up t s (changedIn up t (addGrants t i (newGrants ids t i s) s))" if "findRole i t s = Some r" "\<not> ro_isSystem r" for r
    using GrantsChanged [where P = "\<lambda>_. False", OF that, of "newGrants ids t i s"] listed_permission [of _ ids t s]
    by (simp add: newGrants_def)
  show ?thesis
    by (rule stepI)
      (auto simp: assignPermissions_def getMutableRole_def assertTenantPermissions_def wp wpH_tx assignPermissionsTx_eq Let_def
        changedIn_def [symmetric] intro: roleStep.Refused step split: option.split)
qed

lemma replacePermissions_step:
  assumes "rolesOk s"
  shows "roleStep up t s (snd (replacePermissions up i t ids s))"
proof -
  let ?ids = "rev (remdups (rev ids))"
  have step: "roleStep up t s (changedIn up t (addGrants t i ?ids (accounts_update (rolePermissions_update
      (deleteMany (\<lambda>rp. rp_tenantId rp = t \<and> rp_roleId rp = i \<and> rp_permissionId rp \<notin> set ids))) s)))"
    if "rolesOk s" "findRole i t s = Some r" "\<not> ro_isSystem r" "length (findPermissionsByIds ?ids t s) = card (set ids)" for r
    using all_found [where key = pe_id and P = "\<lambda>p. pe_tenantId p = t", of ids "permissions (accounts s)"] that
    by (intro GrantsChanged) (auto simp: findPermissionsByIds_def roleTablesOk_def)
  show ?thesis
    by (rule stepI)
      (auto simp: replacePermissions_def getMutableRole_def assertTenantPermissions_def wp wpH_tx replacePermissionsTx_eq Let_def
        changedIn_def [symmetric] intro: roleStep.Refused step [OF assms] split: option.split)
qed

lemma removePermission_step: "roleStep up t s (snd (removePermission up i t j s))"
proof -
  have step: "roleStep up t s (changedIn up t (accounts_update (rolePermissions_update
      (deleteMany (\<lambda>rp. rp_tenantId rp = t \<and> rp_roleId rp = i' \<and> rp_permissionId rp = j'))) s))"
    if "findRole i' t s = Some r" "\<not> ro_isSystem r" for r i' j'
    using GrantsChanged [OF that, of "[]" "\<lambda>rp. rp_tenantId rp = t \<and> rp_roleId rp = i' \<and> rp_permissionId rp = j'"] by simp
  show ?thesis
    by (rule stepI)
      (auto simp: removePermission_def getMutableRole_def wp changedIn_def [symmetric] intro: roleStep.Refused step split: option.split)
qed

lemma findMember_SomeD: "findMember u t s = Some x \<Longrightarrow> x \<in> set (users (accounts s)) \<and> us_id x = u \<and> isMember s t u"
  unfolding findMember_def by (auto dest: find_SomeD)

lemma assignRoles_step:
  assumes "rolesOk s"
  shows "roleStep up t s (snd (assignRoles up u t ids s))"
proof -
  let ?ids = "rev (remdups (rev ids))"
  let ?s = "accounts_update (userRoles_update (insertMissing (map (holderRow t u) (newHolders ?ids t u s)))) s"
  have step: "roleStep up t s (changedFor up t u ?s)"
    if "isMember s t u" "length (filter (\<lambda>r. ro_id r \<in> set ids \<and> ro_tenantId r = t) (roles (accounts s))) = length (remdups (rev ids))"
  proof -
    have "roleRowOk (accounts s) j t" if "j \<in> set (newHolders ?ids t u s)" for j
      using all_found [where key = ro_id and P = "\<lambda>r. ro_tenantId r = t", of ids "roles (accounts s)" j] that
        \<open>length (filter _ _) = _\<close> assms
      by (auto simp: newHolders_def roleTablesOk_def roleRowOk_def length_remdups_card_conv)
    from HoldersChanged [where P = "\<lambda>_. False", OF this] show ?thesis using \<open>isMember s t u\<close> by simp
  qed
  show ?thesis
    by (rule stepI)
      (use step in \<open>auto simp: assignRoles_def wp wpH_tx assignRolesTx_eq Let_def changedFor_def
        intro: roleStep.Refused split: if_splits dest: findMember_SomeD\<close>)
qed

lemma removeRole_step: "roleStep up t s (snd (removeRole up u t i s))"
proof -
  let ?P = "\<lambda>ur. ur_tenantId ur = t \<and> ur_userId ur = u \<and> ur_roleId ur = i"
  have step: "roleStep up t s (changedFor up t u (accounts_update (userRoles_update (deleteMany ?P)) s))"
    using HoldersChanged [where P = ?P and ids = "[]"] by simp
  have "accounts_update (userRoles_update (deleteMany ?P)) s = s" if "countWhere ?P (userRoles (accounts s)) = 0"
    by (simp add: deleteMany_none [OF that])
  then show ?thesis
    by (intro stepI)
      (use step in \<open>auto simp: removeRole_def removalCheck_def removalAnswer_def wp wpH_tx removeRoleTx_eq Let_def changedFor_def
        intro: roleStep.Refused split: if_splits option.split\<close>)
qed

lemma logged_user_steps:
  "roleStep up t s (accounts_update (users_update g) s\<lparr>auditLogs := l, activityLogs := la\<rparr>)"
  "roleStep up t s (removeUserRows i (s\<lparr>auditLogs := l, activityLogs := la\<rparr>))"
  by (rule roleStep.UserWritten [where g = g], simp_all) (rule roleStep.UserDeleted, simp_all)

lemma updateTenantUser_step: "roleStep up t s (snd (updateTenantUser env i t d ctx s))"
  by (rule stepI)
    (auto simp: updateTenantUser_def updateUserTx_def wp intro!: wpH_transaction wpT_logAudit wpT_logActivity
      intro: roleStep.Refused logged_user_steps split: option.split)

lemma deleteTenantUser_step: "roleStep up t s (snd (deleteTenantUser env i t ctx s))"
  by (rule stepI)
    (auto simp: deleteTenantUser_def wp intro!: wpH_transaction wpT_logAudit wpT_logActivity
      intro: roleStep.Refused logged_user_steps split: option.split)

section \<open>What a step keeps\<close>

lemma changedIn_frame [simp]:
  "rolesOk (changedIn up t s) = rolesOk s" "memberships (changedIn up t s) = memberships s"
  "userRoles (accounts (changedIn up t s)) = userRoles (accounts s)"
  "rolePermissions (accounts (changedIn up t s)) = rolePermissions (accounts s)"
  "permissions (accounts (changedIn up t s)) = permissions (accounts s)"
  "roles (accounts (changedIn up t s)) = roles (accounts s)"
  by (auto simp: changedIn_def) (auto simp: cacheDropTenant_def)

lemma changedFor_frame [simp]:
  "rolesOk (changedFor up t u s) = rolesOk s" "memberships (changedFor up t u s) = memberships s"
  "userRoles (accounts (changedFor up t u s)) = userRoles (accounts s)"
  "rolePermissions (accounts (changedFor up t u s)) = rolePermissions (accounts s)"
  "permissions (accounts (changedFor up t u s)) = permissions (accounts s)"
  "roles (accounts (changedFor up t u s)) = roles (accounts s)"
  by (auto simp: changedFor_def)

lemma roleStep_rolesOk:
  assumes "roleStep up t s s'" "rolesOk s"
  shows "rolesOk s'"
  using assms(1)
proof cases
  case (RoleCreated row)
  then show ?thesis using rolesOk_insertRole [of "s\<lparr>drawn := Suc (drawn s)\<rparr>" row] assms(2) by simp
next
  case (RoleWritten i r row)
  then show ?thesis using rolesOk_writeRole [OF assms(2), of row i t] by simp
next
  case (GrantsChanged i r ids P)
  let ?s = "accounts_update (rolePermissions_update (deleteMany P)) s"
  have "rolesOk (addGrants t i ids ?s)"
    using GrantsChanged by (intro rolesOk_addGrants rolesOk_delete(1) assms(2)) (auto simp: findRole_def)
  then show ?thesis using GrantsChanged by simp
next
  case (HoldersChanged ids P u)
  let ?s = "accounts_update (userRoles_update (deleteMany P)) s"
  have "rolesOk (accounts_update (userRoles_update (insertMissing (map (holderRow t u) ids))) ?s)"
    using HoldersChanged by (intro rolesOk_addHolders rolesOk_delete(2) assms(2)) (auto simp: roleRowOk_def)
  then show ?thesis using HoldersChanged by (simp add: comp_def)
next
  case (UserWritten g)
  then show ?thesis using assms(2) by (simp add: roleTablesOk_def roleRowOk_def)
next
  case (UserDeleted s1 i)
  then show ?thesis using assms(2)
    by (auto simp: roleTablesOk_def roleRowOk_def removeUserRows_def intro: deleteMany_distinct)
qed (use assms(2) in \<open>auto intro: rolesOk_removeRoleRows\<close>)

text \<open>Whoever holds a role in a tenant is an active member of it.\<close>

definition holdersOk :: "db \<Rightarrow> bool" where
  "holdersOk s \<longleftrightarrow> (\<forall>ur \<in> set (userRoles (accounts s)). isMember s (ur_tenantId ur) (ur_userId ur))"

lemma holdersOk_sub:
  assumes "holdersOk s" "set (userRoles (accounts s')) \<subseteq> set (userRoles (accounts s))" "memberships s' = memberships s"
  shows "holdersOk s'"
  using assms by (auto simp: holdersOk_def isMember_def)

lemma holdersOk_cache [simp]:
  "holdersOk (cacheStore t u v s) = holdersOk s" "holdersOk (changedIn up t s) = holdersOk s"
  "holdersOk (changedFor up t u s) = holdersOk s"
  by (auto simp: holdersOk_def isMember_def)

lemma roleStep_holdersOk:
  assumes "roleStep up t s s'" "holdersOk s"
  shows "holdersOk s'"
  using assms(1)
proof cases
  case (HoldersChanged ids P u)
  then show ?thesis
    using assms(2) by (auto simp: holdersOk_def isMember_def insertMissing_set holderRow_def)
next
  case (UserDeleted s1 i)
  then show ?thesis
    using assms(2) by (force simp: holdersOk_def isMember_def removeUserRows_def list_ex_iff)
qed (use assms(2) in \<open>auto simp: removeRoleRows_def addGrants_def intro: holdersOk_sub\<close>)

text \<open>The permissions of a user in a tenant depend on that tenant's rows only.\<close>

lemma map_filter_filter:
  "List.map_filter (\<lambda>x. if P x \<and> Q x then g x else None) xs = List.map_filter (\<lambda>x. if Q x then g x else None) (filter P xs)"
  by (induction xs) (auto simp: List.map_filter_def)

lemma grantedPermissions_filtered:
  "grantedPermissions u t s =
     (let roleIds = map ur_roleId (filter (\<lambda>r. ur_userId r = u) (filter (\<lambda>r. ur_tenantId r = t) (userRoles (accounts s))))
      in List.map_filter (\<lambda>rp. if rp_roleId rp \<in> set roleIds then find (\<lambda>p. pe_id p = rp_permissionId rp) (permissions (accounts s))
           else None) (filter (\<lambda>rp. rp_tenantId rp = t) (rolePermissions (accounts s))))"
  unfolding grantedPermissions_def by (simp add: map_filter_filter conj_commute)

lemma grantedPermissions_tenant:
  assumes "filter (\<lambda>r. ur_tenantId r = t \<and> ur_userId r = u) (userRoles (accounts s')) = filter (\<lambda>r. ur_tenantId r = t \<and> ur_userId r = u) (userRoles (accounts s))"
    and "filter (\<lambda>rp. rp_tenantId rp = t) (rolePermissions (accounts s')) = filter (\<lambda>rp. rp_tenantId rp = t) (rolePermissions (accounts s))"
    and "permissions (accounts s') = permissions (accounts s)"
  shows "grantedPermissions u t s' = grantedPermissions u t s"
  using assms(1) unfolding grantedPermissions_filtered assms(2,3) by (simp add: conj_commute)

text \<open>
  A step of tenant \<open>t\<close> leaves alone what users may do in other tenants (except those of a user it deletes),
  and it makes nobody a member.
\<close>

lemma removeRoleRows_elsewhere:
  assumes "rolesOk s" "findRole i t s = Some r" "t' \<noteq> t"
  shows "grantedPermissions u t' (removeRoleRows i t s) = grantedPermissions u t' s"
proof (rule grantedPermissions_tenant)
  have "ur_roleId ur \<noteq> i" if "ur \<in> set (userRoles (accounts s))" "ur_tenantId ur = t'" for ur
    using that assms same_role [of s i t' t r] by (auto simp: roleTablesOk_def)
  then show "filter (\<lambda>r. ur_tenantId r = t' \<and> ur_userId r = u) (userRoles (accounts (removeRoleRows i t s))) =
      filter (\<lambda>r. ur_tenantId r = t' \<and> ur_userId r = u) (userRoles (accounts s))"
    by (simp add: removeRoleRows_def) (rule deleteMany_filter, auto)
  have "rp_roleId rp \<noteq> i" if "rp \<in> set (rolePermissions (accounts s))" "rp_tenantId rp = t'" for rp
    using that assms same_role [of s i t' t r] by (auto simp: roleTablesOk_def)
  then show "filter (\<lambda>rp. rp_tenantId rp = t') (rolePermissions (accounts (removeRoleRows i t s))) =
      filter (\<lambda>rp. rp_tenantId rp = t') (rolePermissions (accounts s))"
    by (simp add: removeRoleRows_def) (rule deleteMany_filter, auto)
qed (simp add: removeRoleRows_def)

lemma roleStep_elsewhere:
  assumes "roleStep up t s s'" "rolesOk s" "t' \<noteq> t" "isMember s' t' u"
  shows "grantedPermissions u t' s' = grantedPermissions u t' s \<and> isMember s t' u"
  using assms(1)
proof cases
  case (RoleDeleted i r)
  then show ?thesis
    using removeRoleRows_elsewhere [OF assms(2) RoleDeleted(2) assms(3)] assms(4)
      grantedPermissions_cong [of "changedIn up t (removeRoleRows i t s)" "removeRoleRows i t s"]
    by (simp add: isMember_def removeRoleRows_def)
next
  case (GrantsChanged i r ids P)
  have "filter (\<lambda>rp. rp_tenantId rp = t') (insertMissing (map (grantRow t i) ids) (deleteMany P rps))
      = filter (\<lambda>rp. rp_tenantId rp = t') rps" for rps
    using assms(3) GrantsChanged(5)
    by (subst insertMissing_filter) (auto simp: grantRow_def intro!: deleteMany_filter)
  then show ?thesis
    using GrantsChanged assms(4) by (auto simp: isMember_def addGrants_def intro!: grantedPermissions_tenant)
next
  case (HoldersChanged ids P v)
  have "filter (\<lambda>r. ur_tenantId r = t' \<and> ur_userId r = u) (insertMissing (map (holderRow t v) ids) (deleteMany P urs))
      = filter (\<lambda>r. ur_tenantId r = t' \<and> ur_userId r = u) urs" for urs
    using assms(3) HoldersChanged(3)
    by (subst insertMissing_filter) (auto simp: holderRow_def intro!: deleteMany_filter)
  then show ?thesis
    using HoldersChanged assms(4) by (auto simp: isMember_def intro!: grantedPermissions_tenant)
next
  case (UserDeleted s1 i)
  then have "u \<noteq> i" "isMember s t' u" using assms(4) by (auto simp: removeUserRows_def isMember_def list_ex_iff)
  then show ?thesis
    using UserDeleted by (auto simp: removeUserRows_def intro!: grantedPermissions_tenant deleteMany_filter)
qed (use assms(4) in \<open>auto simp: isMember_def intro!: grantedPermissions_cong\<close>)

text \<open>With the cache up, a step leaves it coherent.\<close>

lemma permPeek_drop [simp]: "permPeek (cacheDropTenant t s) k = (if fst k = t then None else permPeek s k)"
  by (simp add: permPeek_def cacheDropTenant_def)

lemma coherent_quiet:
  assumes "permissionsCoherent s" "permissionCache (accounts s') = permissionCache (accounts s)" "memberships s' = memberships s"
    and "userRoles (accounts s') = userRoles (accounts s)" "rolePermissions (accounts s') = rolePermissions (accounts s)"
      "permissions (accounts s') = permissions (accounts s)"
  shows "permissionsCoherent s'"
proof -
  have "permTruth s' = permTruth s" unfolding permTruth_def by (intro ext grantedPermissions_cong assms(4-6))
  then show ?thesis using assms(1) by (simp add: coherent_def permLive_def isMember_def permPeek_def assms(2,3))
qed

lemma coherent_changedIn:
  assumes "permissionsCoherent s" "roleStep True t s (changedIn True t s1)" "rolesOk s"
    and "permPeek s1 = permPeek s" "memberships s1 = memberships s"
  shows "permissionsCoherent (changedIn True t s1)"
  using assms(1)
proof (rule permCache.changed)
  fix k
  assume live: "permLive (changedIn True t s1) k"
  then show "permPeek (changedIn True t s1) k = None \<or> permLive s k \<and> permPeek (changedIn True t s1) k = permPeek s k
      \<and> permTruth (changedIn True t s1) k = permTruth s k"
  proof (cases "fst k = t")
    case True
    with live show ?thesis by (simp add: permLive_def changedIn_def)
  next
    case False
    then have "permTruth (changedIn True t s1) k = permTruth s k"
      using roleStep_elsewhere [OF assms(2,3) False, of "snd k"] live by (simp add: permTruth_def permLive_def)
    moreover have "permLive s k" using live assms(5) by (simp add: permLive_def isMember_def)
    moreover have "permPeek (changedIn True t s1) k = permPeek s k" using False assms(4) by (simp add: changedIn_def)
    ultimately show ?thesis by simp
  qed
qed

lemma roleStep_coherent:
  assumes "roleStep True t s s'" "rolesOk s" "permissionsCoherent s"
  shows "permissionsCoherent s'"
  using assms(1)
proof cases
  case Refused
  then show ?thesis using assms(3) by simp
next
  case (RoleCreated row)
  show ?thesis
    using assms(3) by (rule coherent_quiet) (simp_all add: RoleCreated)
next
  case (RoleWritten i r row)
  show ?thesis
    using assms(3) by (rule coherent_quiet) (simp_all add: RoleWritten)
next
  case (RoleDeleted i r)
  then show ?thesis
    using assms coherent_changedIn [of s t "removeRoleRows i t s"] by (simp add: removeRoleRows_def permPeek_def)
next
  case (GrantsChanged i r ids P)
  let ?s = "addGrants t i ids (accounts_update (rolePermissions_update (deleteMany P)) s)"
  show ?thesis
    using assms coherent_changedIn [of s t ?s] GrantsChanged(1) by (simp add: addGrants_def permPeek_def)
next
  case (HoldersChanged ids P u)
  let ?s = "accounts_update (userRoles_update (\<lambda>xs. insertMissing (map (holderRow t u) ids) (deleteMany P xs))) s"
  have other: "permTruth ?s k = permTruth s k" if "k \<noteq> (t, u)" for k
  proof -
    have "filter (\<lambda>r. ur_tenantId r = fst k \<and> ur_userId r = snd k) (insertMissing (map (holderRow t u) ids) (deleteMany P urs))
      = filter (\<lambda>r. ur_tenantId r = fst k \<and> ur_userId r = snd k) urs" for urs
      using that HoldersChanged(3)
      by (subst insertMissing_filter) (auto simp: holderRow_def prod_eq_iff intro!: deleteMany_filter)
    then show ?thesis by (auto simp: permTruth_def intro!: grantedPermissions_tenant)
  qed
  show ?thesis
  proof (cases "cacheIdOk t \<and> cacheIdOk u")
    case True
    have "permissionsCoherent (permStore (t, u) None ?s)"
      using assms(3) by (rule permCache.write_and_drop) (use other in \<open>auto simp: permPeek_def permLive_def isMember_def\<close>)
    with True show ?thesis by (simp add: HoldersChanged(1) changedFor_def permStore_pair)
  next
    case False
    have "permissionsCoherent ?s"
      using assms(3)
    proof (rule permCache.changed)
      fix k
      assume live: "permLive ?s k"
      then have "k \<noteq> (t, u)" using False by (cases k) (auto simp: permLive_def)
      with live show "permPeek ?s k = None \<or> permLive s k \<and> permPeek ?s k = permPeek s k \<and> permTruth ?s k = permTruth s k"
        using other [of k] by (auto simp: permPeek_def permLive_def isMember_def)
    qed
    with False show ?thesis by (auto simp: HoldersChanged(1) changedFor_def)
  qed
next
  case (UserWritten g)
  show ?thesis
    using assms(3) by (rule coherent_quiet) (simp_all add: UserWritten)
next
  case (UserDeleted s1 i)
  show ?thesis
    using assms(3)
  proof (rule permCache.changed)
    fix k
    assume live: "permLive s' k"
    then have "snd k \<noteq> i" and "permLive s k"
      using UserDeleted by (auto simp: permLive_def removeUserRows_def isMember_def list_ex_iff)
    then show "permPeek s' k = None \<or> permLive s k \<and> permPeek s' k = permPeek s k \<and> permTruth s' k = permTruth s k"
      using UserDeleted by (auto simp: permPeek_def permTruth_def removeUserRows_def intro!: grantedPermissions_tenant deleteMany_filter)
  qed
qed

end
