(* ===== verification/RoleAccess.thy ===== *)
theory RoleAccess
  imports Roles
begin

text \<open>
  Requests that change roles and requests that need a permission, one after the other: the role tables stay
  well-formed, the permission cache is never noticed, one tenant's changes leave the others alone. The
  last administrator of a tenant keeps the role unless removals overlap.
\<close>

section \<open>Requests\<close>

text \<open>A request of tenant \<open>t\<close>, or the check of a permission; and what is answered.\<close>

datatype role_request =
    ReqCreateRole env string "string option"
  | ReqUpdateRole string "string option" "string option"
  | ReqDeleteRole string
  | ReqAssignPermissions string "string list"
  | ReqReplacePermissions string "string list"
  | ReqRemovePermission string string
  | ReqAssignRoles string "string list"
  | ReqRemoveRole string string
  | ReqUpdateUser env string user_update audit_context
  | ReqDeleteUser env string audit_context
  | ReqAuthorize string "req_context option"

datatype role_answer =
    AnsError error
  | AnsRole role_response
  | AnsRoles "role_response list"
  | AnsPermissions "permission_row list"
  | AnsUser user_response
  | AnsDone

definition answer :: "('a \<Rightarrow> role_answer) \<Rightarrow> 'a dbio \<Rightarrow> db \<Rightarrow> role_answer \<times> db" where
  "answer f m s = (case m s of (Inl e, s') \<Rightarrow> (AnsError e, s') | (Inr x, s') \<Rightarrow> (f x, s'))"

fun serve :: "bool \<Rightarrow> string \<times> role_request \<Rightarrow> db \<Rightarrow> role_answer \<times> db" where
  "serve up (t, ReqCreateRole env n d) = answer AnsRole (createRole env t n d)"
| "serve up (t, ReqUpdateRole i n d) = answer AnsRole (updateRole i t n d)"
| "serve up (t, ReqDeleteRole i) = answer (\<lambda>_. AnsDone) (deleteRole up i t)"
| "serve up (t, ReqAssignPermissions i ids) = answer AnsPermissions (assignPermissions up i t ids)"
| "serve up (t, ReqReplacePermissions i ids) = answer AnsPermissions (replacePermissions up i t ids)"
| "serve up (t, ReqRemovePermission i j) = answer AnsPermissions (removePermission up i t j)"
| "serve up (t, ReqAssignRoles u ids) = answer AnsRoles (assignRoles up u t ids)"
| "serve up (t, ReqRemoveRole u i) = answer AnsRoles (removeRole up u t i)"
| "serve up (t, ReqUpdateUser env i d ctx) = answer AnsUser (updateTenantUser env i t d ctx)"
| "serve up (t, ReqDeleteUser env i ctx) = answer (\<lambda>_. AnsDone) (deleteTenantUser env i t ctx)"
| "serve up (t, ReqAuthorize permission c) = answer (\<lambda>_. AnsDone) (authorize up permission c)"

fun serveAll :: "bool \<Rightarrow> (string \<times> role_request) list \<Rightarrow> db \<Rightarrow> role_answer list \<times> db" where
  "serveAll up [] s = ([], s)"
| "serveAll up (r # rs) s =
     (let (a, s1) = serve up r s; (as, s2) = serveAll up rs s1 in (a # as, s2))"

lemma snd_answer [simp]: "snd (answer f m s) = snd (m s)"
  by (simp add: answer_def split: prod.split sum.split)

lemma authorize_reads:
  "\<exists>v t u. snd (authorize up permission c s) = s \<or> snd (authorize up permission c s) = cacheStore t u v s"
  by (auto simp: authorize_def getUserPermissions_def monad_defs split: option.splits sum.splits)

lemma serve_step:
  assumes "rolesOk s" "\<And>p c. snd r \<noteq> ReqAuthorize p c"
  shows "roleStep up (fst r) s (snd (serve up r s))"
proof (cases r)
  case (Pair t q)
  show ?thesis
    by (cases q)
      (use assms Pair in \<open>auto intro: createRole_step updateRole_step deleteRole_step assignPermissions_step replacePermissions_step
        removePermission_step assignRoles_step removeRole_step updateTenantUser_step deleteTenantUser_step\<close>)
qed

lemma authorize_coherent:
  assumes "permissionsCoherent s"
  shows "permissionsCoherent (snd (authorize up permission c s))"
proof -
  have "permissionsCoherent (cacheStore t u (Some (grantedPermissions u t s)) s)" for t u
    using permCache.fill [OF assms, of "(t, u)"] by (simp add: permStore_pair permTruth_def)
  then show ?thesis
    using assms by (auto simp: authorize_def getUserPermissions_def monad_defs split: option.splits sum.splits)
qed

lemma serve_rolesOk:
  assumes "rolesOk s"
  shows "rolesOk (snd (serve up r s))"
proof (cases "\<exists>p c. snd r = ReqAuthorize p c")
  case True
  then obtain t p c where r: "r = (t, ReqAuthorize p c)" by (cases r) auto
  obtain v t' u where "snd (authorize up p c s) = s \<or> snd (authorize up p c s) = cacheStore t' u v s"
    using authorize_reads by blast
  then show ?thesis using assms by (auto simp: r)
next
  case False
  then show ?thesis using roleStep_rolesOk serve_step assms by blast
qed

lemma serve_coherent:
  assumes "rolesOk s" "permissionsCoherent s"
  shows "permissionsCoherent (snd (serve True r s))"
proof (cases "\<exists>p c. snd r = ReqAuthorize p c")
  case True
  then obtain t p c where "r = (t, ReqAuthorize p c)" by (cases r) auto
  then show ?thesis using authorize_coherent assms(2) by simp
next
  case False
  then show ?thesis using roleStep_coherent serve_step assms by blast
qed

lemma serve_holdersOk:
  assumes "rolesOk s" "holdersOk s"
  shows "holdersOk (snd (serve up r s))"
proof (cases "\<exists>p c. snd r = ReqAuthorize p c")
  case True
  then obtain t p c where r: "r = (t, ReqAuthorize p c)" by (cases r) auto
  obtain v t' u where "snd (authorize up p c s) = s \<or> snd (authorize up p c s) = cacheStore t' u v s"
    using authorize_reads by blast
  then show ?thesis using assms(2) by (auto simp: r)
next
  case False
  then show ?thesis using roleStep_holdersOk serve_step assms by blast
qed

text \<open>C24: the role tables stay well-formed. Whatever requests the tenants make, served one after the other in whatever
  order, every permission and every holder of a role belongs to the role's own tenant, every holder is an active member of that
  tenant, nothing is assigned twice, and a tenant's role names differ, with or without the cache.\<close>

theorem role_tables_well_formed:
  assumes "rolesOk s" and "holdersOk s"
  shows "rolesOk (snd (serveAll up rs s)) \<and> holdersOk (snd (serveAll up rs s))"
  using assms
proof (induction rs arbitrary: s)
  case (Cons r rs)
  then show ?case using serve_rolesOk [of s up r] serve_holdersOk [of s up r] by (simp add: case_prod_beta Let_def)
qed simp

section \<open>The cache is not noticed\<close>

text \<open>The state with another content of the cache, and runs that differ in the cache only.\<close>

definition withCache :: "(string \<times> string \<Rightarrow> permission_row list option) \<Rightarrow> db \<Rightarrow> db" where
  "withCache p = accounts_update (permissionCache_update (\<lambda>_. p))"

definition simT :: "'a dbtx \<Rightarrow> bool" where
  "simT m \<longleftrightarrow> (\<forall>s p. m (withCache p s) = (case m s of Inl e \<Rightarrow> Inl e | Inr (x, s') \<Rightarrow> Inr (x, withCache p s')))"

definition simH :: "'a dbio \<Rightarrow> 'a dbio \<Rightarrow> bool" where
  "simH m n \<longleftrightarrow> (\<forall>s p. \<exists>q. n (withCache p s) = (fst (m s), withCache q (snd (m s))))"

named_theorems sim "combinators and operations that do not notice the cache"

lemma simT_simple [sim]:
  "simT (returnT x)" "simT (throwT e)" "simT (throwIfT b e)" "simT (orThrowT v e)"
  by (auto simp: simT_def monad_defs split: option.split)

lemma simT_readT [sim]: "(\<And>s p. f (withCache p s) = f s) \<Longrightarrow> simT (readT f)"
  by (simp add: simT_def monad_defs)

lemma simT_writeT [sim]: "(\<And>s p. f (withCache p s) = withCache p (f s)) \<Longrightarrow> simT (writeT f)"
  by (simp add: simT_def monad_defs)

lemma simT_bindT [sim]: "simT m \<Longrightarrow> (\<And>x. simT (k x)) \<Longrightarrow> simT (bindT m k)"
  by (auto simp: simT_def bindT_def split: sum.split)

lemma simT_thenT [sim]: "simT m \<Longrightarrow> simT n \<Longrightarrow> simT (thenT m n)"
  by (simp add: thenT_def simT_bindT)

lemma simT_if [sim]: "simT m \<Longrightarrow> simT n \<Longrightarrow> simT (if b then m else n)"
  by simp

lemma simH_same: "(\<And>s p. m (withCache p s) = (fst (m s), withCache p (snd (m s)))) \<Longrightarrow> simH m m"
  unfolding simH_def by blast

lemma simH_simple [sim]:
  "simH (returnH x) (returnH x)" "simH (throwH e) (throwH e)" "simH (throwIfH b e) (throwIfH b e)"
  "simH (orThrowH v e) (orThrowH v e)" "simH (liftH r) (liftH r)"
  by (auto simp: monad_defs split: option.split sum.split intro: simH_same)

lemma simH_readH [sim]: "(\<And>s p. f (withCache p s) = f s) \<Longrightarrow> simH (readH f) (readH f)"
  by (auto simp: monad_defs intro: simH_same)

lemma simH_writeH [sim]: "(\<And>s p. f (withCache p s) = withCache p (f s)) \<Longrightarrow> simH (writeH f) (writeH f)"
  by (auto simp: monad_defs intro: simH_same)

lemma simH_transaction [sim]: "simT m \<Longrightarrow> simH (transaction m) (transaction m)"
  by (rule simH_same) (auto simp: simT_def transaction_def split: sum.split)

lemma simH_D: "simH m n \<Longrightarrow> \<exists>q. n (withCache p s) = (fst (m s), withCache q (snd (m s)))"
  by (simp add: simH_def)

lemma simH_bindH [sim]:
  assumes "simH m n" and "\<And>x. simH (k x) (l x)"
  shows "simH (bindH m k) (bindH n l)"
  unfolding simH_def
proof (intro allI)
  fix s p
  obtain q where q: "n (withCache p s) = (fst (m s), withCache q (snd (m s)))" using simH_D [OF assms(1)] by blast
  show "\<exists>q. bindH n l (withCache p s) = (fst (bindH m k s), withCache q (snd (bindH m k s)))"
  proof (cases "m s")
    case (Pair r s')
    then show ?thesis
      using q simH_D [OF assms(2)] by (cases r) (auto simp: bindH_def)
  qed
qed

lemma simH_thenH [sim]: "simH m n \<Longrightarrow> simH m' n' \<Longrightarrow> simH (thenH m m') (thenH n n')"
  by (simp add: thenH_def simH_bindH)

lemma simH_catchH [sim]:
  assumes "simH m n" and "\<And>e. simH (h e) (l e)"
  shows "simH (catchH m h) (catchH n l)"
  unfolding simH_def
proof (intro allI)
  fix s p
  obtain q where q: "n (withCache p s) = (fst (m s), withCache q (snd (m s)))" using simH_D [OF assms(1)] by blast
  show "\<exists>q. catchH n l (withCache p s) = (fst (catchH m h s), withCache q (snd (catchH m h s)))"
  proof (cases "m s")
    case (Pair r s')
    then show ?thesis
      using q simH_D [OF assms(2)] by (cases r) (auto simp: catchH_def)
  qed
qed

lemma simH_if [sim]: "simH m n \<Longrightarrow> simH m' n' \<Longrightarrow> simH (if b then m else m') (if b then n else n')"
  by simp

lemma simH_case_option: "simH m n \<Longrightarrow> (\<And>x. simH (k x) (l x)) \<Longrightarrow>
   simH (case v of None \<Rightarrow> m | Some x \<Rightarrow> k x) (case v of None \<Rightarrow> n | Some x \<Rightarrow> l x)"
  by (cases v) simp_all

text \<open>Operations that touch nothing but the cache, and answer the same.\<close>

lemma withCache_withCache [simp]: "withCache p (withCache q s) = withCache p s"
  by (simp add: withCache_def comp_def)

lemma withCache_own: "withCache (permissionCache (accounts s)) s = s"
  by (simp add: withCache_def)

lemma cacheStore_withCache: "cacheStore t u v s = withCache ((permissionCache (accounts s))((t, u) := v)) s"
  unfolding cacheStore_def withCache_def by (cases s) simp

lemma cacheDropTenant_withCache:
  "cacheDropTenant t s = withCache (\<lambda>k. if fst k = t then None else permissionCache (accounts s) k) s"
  unfolding cacheDropTenant_def withCache_def by (cases s) (simp cong: if_cong)

lemma simH_cacheOnly:
  assumes "\<And>s. \<exists>q. m s = (r, withCache q s)" and "\<And>s. \<exists>q. n s = (r, withCache q s)"
  shows "simH m n"
  unfolding simH_def
proof (intro allI)
  fix s p
  from assms(1) obtain q where "m s = (r, withCache q s)" by blast
  moreover from assms(2) obtain q' where "n (withCache p s) = (r, withCache q' (withCache p s))" by blast
  ultimately show "\<exists>q. n (withCache p s) = (fst (m s), withCache q (snd (m s)))" by auto
qed

lemma unchanged_withCache: "\<exists>q. s = withCache q s" "\<exists>q. cacheStore t u v s = withCache q s" "\<exists>q. cacheDropTenant t s = withCache q s"
  by (metis withCache_own) (metis cacheStore_withCache, metis cacheDropTenant_withCache)

lemma simH_drops [sim]:
  "simH (invalidateTenantPermissionsCache up t) (invalidateTenantPermissionsCache up' t)"
  "simH (dropUserKey up t u) (dropUserKey up' t u)"
proof -
  show "simH (invalidateTenantPermissionsCache up t) (invalidateTenantPermissionsCache up' t)"
    by (rule simH_cacheOnly [where r = "Inr ()"]) (auto simp: invalidateTenant_eq intro: unchanged_withCache)
  show "simH (dropUserKey up t u) (dropUserKey up' t u)"
    by (rule simH_cacheOnly [where r = "if cacheIdOk t \<and> cacheIdOk u then Inr () else Inl (JsError ''Invalid cache id'')"])
      (auto simp: dropUserKey_eq intro: unchanged_withCache)
qed

lemma withCache_frame [simp]:
  "roles (accounts (withCache p s)) = roles (accounts s)" "permissions (accounts (withCache p s)) = permissions (accounts s)"
  "rolePermissions (accounts (withCache p s)) = rolePermissions (accounts s)"
  "userRoles (accounts (withCache p s)) = userRoles (accounts s)" "users (accounts (withCache p s)) = users (accounts s)"
  "memberships (withCache p s) = memberships s" "drawn (withCache p s) = drawn s"
  by (simp_all add: withCache_def)

lemma reads_withCache [simp]:
  "findRole i t (withCache p s) = findRole i t s" "findRoleByName n t (withCache p s) = findRoleByName n t s"
  "isSystemRole i t (withCache p s) = isSystemRole i t s"
  "findPermissionsByIds ids t (withCache p s) = findPermissionsByIds ids t s"
  "rolePermissionsOf i t (withCache p s) = rolePermissionsOf i t s" "rolePermissionRows i (withCache p s) = rolePermissionRows i s"
  "isMember (withCache p s) t u = isMember s t u" "findMember u t (withCache p s) = findMember u t s"
  "rolesHeld u t (withCache p s) = rolesHeld u t s" "findUserById u (withCache p s) = findUserById u s"
  "toRoleResponse r cnt (withCache p s) = toRoleResponse r cnt s" "userRoleResponses u t (withCache p s) = userRoleResponses u t s"
  "toUserResponse t (withCache p s) x = toUserResponse t s x" "countHolders t i (withCache p s) = countHolders t i s"
  by (simp_all add: findRole_def findRoleByName_def isSystemRole_def findPermissionsByIds_def rolePermissionsOf_def
      rolePermissionRows_def isMember_def findMember_def rolesHeld_def findUserById_def toRoleResponse_def
      userRoleResponses_def toUserResponse_def countHolders_def cong: option.case_cong map_cong if_cong)

lemma writes_withCache [simp]:
  "accounts_update (roles_update f) (withCache p s) = withCache p (accounts_update (roles_update f) s)"
  "accounts_update (rolePermissions_update g) (withCache p s) = withCache p (accounts_update (rolePermissions_update g) s)"
  "accounts_update (userRoles_update h) (withCache p s) = withCache p (accounts_update (userRoles_update h) s)"
  "accounts_update (users_update k) (withCache p s) = withCache p (accounts_update (users_update k) s)"
  "addGrants t i ids (withCache p s) = withCache p (addGrants t i ids s)"
  "removeRoleRows i t (withCache p s) = withCache p (removeRoleRows i t s)"
  "removeUserRows i (withCache p s) = withCache p (removeUserRows i s)"
  "(withCache p s)\<lparr>drawn := d\<rparr> = withCache p (s\<lparr>drawn := d\<rparr>)"
  by (simp_all add: withCache_def addGrants_def removeRoleRows_def removeUserRows_def comp_def)

lemma simT_logs [sim]: "simT (logAudit env ctx t a r i ov nv)" "simT (logActivity env ctx t a d m)"
  by (auto simp: logAudit_def logActivity_def withCache_def intro!: sim)

lemma simT_freshId [sim]: "simT (freshId env)"
  by (simp add: freshId_def sim)

lemma simT_transactions [sim]:
  "simT (insertRole env t n d)" "simT (writeRole i t n' d)" "simT (dropRole i t)"
  "simT (assignPermissionsTx i t ids)" "simT (replacePermissionsTx i t ids)"
  "simT (assignRolesTx u t ids)" "simT (removeRoleTx u t i g n)" "simT (updateUserTx env i t x ud ctx)"
  unfolding insertRole_def writeRole_def dropRole_def assignPermissionsTx_def replacePermissionsTx_def assignRolesTx_def
    removeRoleTx_def deleteHolding_def updateUserTx_def Let_def
  by (intro sim; simp add: sim)+

lemma simH_services [sim]:
  "simH (createRole env t nm d) (createRole env t nm d)"
  "simH (updateRole i t n d) (updateRole i t n d)"
  "simH (deleteRole up i t) (deleteRole up' i t)"
  "simH (assignPermissions up i t ids) (assignPermissions up' i t ids)"
  "simH (replacePermissions up i t ids) (replacePermissions up' i t ids)"
  "simH (removePermission up i t j) (removePermission up' i t j)"
  "simH (assignRoles up u t ids) (assignRoles up' u t ids)"
  "simH (removeRole up u t i) (removeRole up' u t i)"
  "simH (updateTenantUser env u t ud ctx) (updateTenantUser env u t ud ctx)"
  "simH (deleteTenantUser env u t ctx) (deleteTenantUser env u t ctx)"
  unfolding createRole_def updateRole_def deleteRole_def assignPermissions_def replacePermissions_def removePermission_def
    assignRoles_def removeRole_def removalCheck_def removalAnswer_def updateTenantUser_def deleteTenantUser_def getMutableRole_def assertTenantPermissions_def
    missingRole_def Let_def
  by (intro sim; simp add: sim cong: option.case_cong)+

lemma authorize_sim:
  assumes "permissionsCoherent s"
  shows "\<exists>q. authorize False permission c (withCache p s) =
     (fst (authorize True permission c s), withCache q (snd (authorize True permission c s)))"
proof (cases "\<exists>k. c = Some k \<and> rc_userId k \<noteq> [] \<and> rc_tenantId k \<noteq> [] \<and> rc_scope k \<noteq> ''support'' \<and> isMember s (rc_tenantId k) (rc_userId k)")
  case False
  then have "authorize True permission c s = (r, s) \<Longrightarrow> authorize False permission c (withCache p s) = (r, withCache p s)" for r
    by (auto simp: authorize_def monad_defs split: option.splits if_splits)
  moreover from False have "snd (authorize True permission c s) = s"
    by (auto simp: authorize_def monad_defs split: option.splits)
  ultimately show ?thesis by (metis prod.collapse)
next
  case True
  then obtain k where k: "c = Some k" "rc_userId k \<noteq> []" "rc_tenantId k \<noteq> []" "rc_scope k \<noteq> ''support''"
    "isMember s (rc_tenantId k) (rc_userId k)" by blast
  let ?u = "rc_userId k" and ?t = "rc_tenantId k"
  have eq: "grantedPermissions ?u ?t (withCache p s) = grantedPermissions ?u ?t s" by (rule grantedPermissions_cong) simp_all
  show ?thesis
  proof (cases "cacheIdOk ?t \<and> cacheIdOk ?u")
    case False
    then have "userPermissionsKey ?t ?u = Inl (JsError ''Invalid cache id'')"
      by (auto simp: userPermissionsKey_def sanitizeId_def)
    then show ?thesis using k by (auto simp: authorize_def getUserPermissions_def monad_defs)
  next
    case ok: True
    then obtain key where key: "userPermissionsKey ?t ?u = Inr key" using userPermissionsKey_ok by blast
    from ok k have "permLive s (?t, ?u)" by (simp add: permLive_def)
    then obtain v where v: "permissionCache (accounts s) (?t, ?u) = None \<or>
        permissionCache (accounts s) (?t, ?u) = Some v \<and> v = grantedPermissions ?u ?t s"
      using permCache.hit [OF assms] by (cases "permissionCache (accounts s) (?t, ?u)") (auto simp: permPeek_def permTruth_def)
    then show ?thesis
      using k key eq by (auto simp: authorize_def getUserPermissions_def monad_defs cacheStore_withCache)
  qed
qed

lemma simH_answer:
  assumes "\<exists>q. n (withCache p s) = (fst (m s), withCache q (snd (m s)))"
  shows "\<exists>q. answer f n (withCache p s) = (fst (answer f m s), withCache q (snd (answer f m s)))"
  using assms by (cases "m s"; cases "fst (m s)") (auto simp: answer_def)

lemma serve_sim:
  assumes "permissionsCoherent s"
  shows "\<exists>q. serve False r (withCache p s) = (fst (serve True r s), withCache q (snd (serve True r s)))"
proof (cases r)
  case (Pair t x)
  show ?thesis
    by (cases x; simp only: Pair serve.simps; rule simH_answer; (rule simH_D, rule sim | rule authorize_sim [OF assms]))
qed


section \<open>System roles\<close>

lemma roleStep_system:
  assumes "roleStep up t s s'" "rolesOk s" "r \<in> set (roles (accounts s))" "ro_isSystem r"
  shows "r \<in> set (roles (accounts s'))
    \<and> filter (\<lambda>rp. rp_roleId rp = ro_id r) (rolePermissions (accounts s')) = filter (\<lambda>rp. rp_roleId rp = ro_id r) (rolePermissions (accounts s))"
proof -
  have other: "i \<noteq> ro_id r" if "findRole i t s = Some x" "\<not> ro_isSystem x" for i x
  proof
    assume "i = ro_id r"
    with that(1) have "x \<in> set (roles (accounts s))" "ro_id x = ro_id r" by (auto dest: findRole_SomeD)
    with assms(2,3) have "x = r" by (auto simp: roleTablesOk_def distinct_map inj_on_def)
    with that(2) assms(4) show False by simp
  qed
  show ?thesis using assms(1)
  proof cases
    case (RoleWritten i x row)
    then show ?thesis using assms(3) other [OF RoleWritten(2,3)] by (force simp: set_updateMany)
  next
    case (RoleDeleted i x)
    then show ?thesis using assms(3) other [OF RoleDeleted(2,3)] by (auto simp: removeRoleRows_def intro!: deleteMany_filter)
  next
    case (GrantsChanged i x ids P)
    have "filter (\<lambda>rp. rp_roleId rp = ro_id r) (insertMissing (map (grantRow t i) ids) (deleteMany P rps))
        = filter (\<lambda>rp. rp_roleId rp = ro_id r) rps" for rps
      using other [OF GrantsChanged(2,3)] GrantsChanged(5)
      by (subst insertMissing_filter) (auto simp: grantRow_def intro!: deleteMany_filter)
    then show ?thesis using assms(3) GrantsChanged(1) by (simp add: addGrants_def)
  qed (use assms(3) in \<open>auto simp: removeUserRows_def\<close>)
qed

text \<open>A request is a step of its tenant or leaves the role tables and the memberships alone.\<close>

lemma serve_cases:
  assumes "rolesOk s"
  obtains "roleStep up (fst r) s (snd (serve up r s))"
  | v t u where "snd (serve up r s) = cacheStore t u v s"
proof (cases "\<exists>p c. snd r = ReqAuthorize p c")
  case True
  then obtain t p c where r: "r = (t, ReqAuthorize p c)" by (cases r) auto
  obtain v t' u where "snd (authorize up p c s) = s \<or> snd (authorize up p c s) = cacheStore t' u v s"
    using authorize_reads by blast
  then show thesis using that roleStep.Refused [of up t s] by (auto simp: r)
next
  case False
  then show thesis using that(1) serve_step [OF assms, of r up] by blast
qed

text \<open>System roles cannot be changed. No request, of any tenant, renames or deletes a system role or changes the
  permissions it grants.\<close>

theorem system_roles_are_immutable:
  assumes "rolesOk s" "r \<in> set (roles (accounts s))" "ro_isSystem r"
  shows "r \<in> set (roles (accounts (snd (serveAll up rs s))))
    \<and> filter (\<lambda>rp. rp_roleId rp = ro_id r) (rolePermissions (accounts (snd (serveAll up rs s))))
      = filter (\<lambda>rp. rp_roleId rp = ro_id r) (rolePermissions (accounts s))"
  using assms
proof (induction rs arbitrary: s)
  case (Cons q rs)
  let ?s = "snd (serve up q s)"
  have "r \<in> set (roles (accounts ?s))
      \<and> filter (\<lambda>rp. rp_roleId rp = ro_id r) (rolePermissions (accounts ?s)) = filter (\<lambda>rp. rp_roleId rp = ro_id r) (rolePermissions (accounts s))"
    by (rule serve_cases [OF Cons.prems(1), of up q]) (use roleStep_system Cons.prems in auto)
  then show ?case using Cons.IH [of ?s] serve_rolesOk [OF Cons.prems(1)] Cons.prems(3) by (simp add: case_prod_beta Let_def)
qed simp

section \<open>One tenant's changes\<close>

lemma serve_elsewhere:
  assumes "rolesOk s" "fst r \<noteq> t" "isMember (snd (serve up r s)) t u"
  shows "grantedPermissions u t (snd (serve up r s)) = grantedPermissions u t s \<and> isMember s t u"
  using assms(1)
proof (rule serve_cases [of s up r])
  assume "roleStep up (fst r) s (snd (serve up r s))"
  then show ?thesis using roleStep_elsewhere assms by metis
next
  fix v t' u'
  assume "snd (serve up r s) = cacheStore t' u' v s"
  then show ?thesis using assms(3) grantedPermissions_cong [of "cacheStore t' u' v s" s] by (simp add: isMember_def)
qed

lemma serveAll_elsewhere:
  assumes "rolesOk s" "\<forall>r \<in> set rs. fst r \<noteq> t" "isMember (snd (serveAll up rs s)) t u"
  shows "grantedPermissions u t (snd (serveAll up rs s)) = grantedPermissions u t s \<and> isMember s t u"
  using assms
proof (induction rs arbitrary: s)
  case (Cons r rs)
  let ?s = "snd (serve up r s)"
  have "grantedPermissions u t (snd (serveAll up rs ?s)) = grantedPermissions u t ?s \<and> isMember ?s t u"
    using Cons.IH [of ?s] Cons.prems serve_rolesOk by (simp add: case_prod_beta Let_def)
  moreover from this have "grantedPermissions u t ?s = grantedPermissions u t s \<and> isMember s t u"
    using serve_elsewhere [of s r t up u] Cons.prems by simp
  ultimately show ?case by (simp add: case_prod_beta Let_def)
qed simp

lemma holdsPermission_granted:
  "rolesOk s \<Longrightarrow> holdsPermission s t u res act =
     list_ex (\<lambda>p. pe_resource p = res \<and> pe_action p = act) (grantedPermissions u t s)"
  by (subst grantedPermissions_set) (simp_all add: roleTablesOk_def holdsPermission_def)

text \<open>C26: tenants administer their own roles only. Whatever the other tenants do to roles, permissions and holders,
  what a member of this tenant may do here stays exactly the same, as long as the person is not deleted.\<close>

theorem roles_stay_in_tenant:
  assumes "rolesOk s" "\<forall>r \<in> set rs. fst r \<noteq> t" "isMember (snd (serveAll up rs s)) t u"
  shows "holdsPermission (snd (serveAll up rs s)) t u res act = holdsPermission s t u res act"
proof -
  have "rolesOk (snd (serveAll up rs s))"
    using assms(1) by (induction rs arbitrary: s) (simp_all add: case_prod_beta Let_def serve_rolesOk)
  then show ?thesis using serveAll_elsewhere [OF assms] assms(1) by (simp add: holdsPermission_granted)
qed

section \<open>The last administrator\<close>

lemma countWhere_pos: "0 < countWhere P xs \<longleftrightarrow> (\<exists>x \<in> set xs. P x)"
  by (simp add: countWhere_def) (metis filter_empty_conv)

lemma another_holder:
  fixes urs :: "user_role_row list"
  assumes "distinct urs" "1 < countWhere (\<lambda>ur. ur_tenantId ur = t \<and> ur_roleId ur = i) urs"
  shows "\<exists>ur \<in> set urs. ur_tenantId ur = t \<and> ur_roleId ur = i \<and> ur_userId ur \<noteq> u"
proof (rule ccontr)
  assume "\<not> ?thesis"
  then have "set (filter (\<lambda>ur. ur_tenantId ur = t \<and> ur_roleId ur = i) urs) \<subseteq> {holderRow t u i}"
    by (auto simp: holderRow_def)
  then have "card (set (filter (\<lambda>ur. ur_tenantId ur = t \<and> ur_roleId ur = i) urs)) \<le> card {holderRow t u i}"
    by (intro card_mono) simp_all
  with assms show False by (simp add: countWhere_def distinct_card del: set_filter)
qed

text \<open>As long as removals do not overlap, taking a role away never leaves a tenant without an administrator. When somebody
  held the admin role before, somebody holds it afterwards.\<close>

theorem admin_role_keeps_a_holder:
  assumes "rolesOk s" "findRole i t s = Some r" "ro_name r = TENANT_ADMIN_ROLE"
    and "\<exists>ur \<in> set (userRoles (accounts s)). ur_tenantId ur = t \<and> ur_roleId ur = i"
  shows "\<exists>ur \<in> set (userRoles (accounts (snd (removeRole up u t j s)))). ur_tenantId ur = t \<and> ur_roleId ur = i"
proof -
  let ?C = "countWhere (\<lambda>ur. ur_tenantId ur = t \<and> ur_roleId ur = i) (userRoles (accounts s))"
  let ?Q = "\<lambda>s'. s' = s \<or> (j = i \<longrightarrow> 1 < ?C)
      \<and> userRoles (accounts s') = deleteMany (\<lambda>ur. ur_tenantId ur = t \<and> ur_userId ur = u \<and> ur_roleId ur = j) (userRoles (accounts s))"
  have "wpH (removeRole up u t j) (\<lambda>_. ?Q) (\<lambda>_. ?Q) s"
    unfolding removeRole_def removalCheck_def removalAnswer_def wp wpH_tx removeRoleTx_eq Let_def
    using assms(2,3) by (simp split: option.split) (auto simp: not_le)
  then have "?Q (snd (removeRole up u t j s))"
    by (cases "removeRole up u t j s"; cases "fst (removeRole up u t j s)") (simp_all add: wpH_def)
  then consider "snd (removeRole up u t j s) = s"
    | "j = i \<longrightarrow> 1 < ?C" "userRoles (accounts (snd (removeRole up u t j s))) =
        deleteMany (\<lambda>ur. ur_tenantId ur = t \<and> ur_userId ur = u \<and> ur_roleId ur = j) (userRoles (accounts s))" by blast
  then show ?thesis
  proof cases
    case 1
    then show ?thesis using assms(4) by simp
  next
    case 2
    then show ?thesis
    proof (cases "j = i")
      case True
      with 2 have "\<exists>ur \<in> set (userRoles (accounts s)). ur_tenantId ur = t \<and> ur_roleId ur = i \<and> ur_userId ur \<noteq> u"
        using assms(1) by (intro another_holder) (simp_all add: roleTablesOk_def)
      then show ?thesis by (auto simp: 2(2))
    next
      case False
      then show ?thesis using assms(4) by (auto simp: 2(2))
    qed
  qed
qed

text \<open>The transaction of a removal that counted \<open>n\<close> holders when it began, with its answer.\<close>

definition removeCounted :: "bool \<Rightarrow> nat \<Rightarrow> string \<Rightarrow> string \<Rightarrow> string \<Rightarrow> role_row \<Rightarrow> role_response list dbio" where
  "removeCounted up n userId tenantId roleId r =
     bindH (transaction (deleteHolding n userId tenantId roleId TENANT_ADMIN_ROLE (ro_name r)))
       (removalAnswer up userId tenantId)"

lemma removeRole_split:
  "removeRole up u t i = bindH (removalCheck u t i) (\<lambda>r. bindH (readH (countHolders t i)) (\<lambda>n. removeCounted up n u t i r))"
  by (rule ext) (simp add: removeRole_def removeCounted_def removeRoleTx_def bindH_def bindT_def readH_def readT_def transaction_def
      split: prod.split sum.split)

lemma removeCounted_eq:
  assumes "cacheIdOk t" "cacheIdOk u" "n > 1" "holderRow t u i \<in> set (userRoles (accounts s))"
  shows "removeCounted up n u t i r s =
    (let s' = changedFor up t u (accounts_update (userRoles_update (deleteMany (\<lambda>ur. ur = holderRow t u i))) s)
     in (Inr (userRoleResponses u t s'), s'))"
proof -
  have P: "(\<lambda>ur. ur_tenantId ur = t \<and> ur_userId ur = u \<and> ur_roleId ur = i) = (\<lambda>ur. ur = holderRow t u i)"
    by (auto simp: holderRow_def)
  have "0 < countWhere (\<lambda>ur. ur = holderRow t u i) (userRoles (accounts s))" using assms(4) by (simp add: countWhere_pos)
  then show ?thesis
    using assms(1-3)
    by (simp add: removeCounted_def deleteHolding_def removalAnswer_def transaction_def monad_defs P Let_def dropUserKey_eq
        changedFor_def)
qed

text \<open>C27: overlapping removals leave a tenant without an administrator. Two people hold the admin role. The removals of both
  are under way, and each has counted two holders before the other deletes (the transactions run at the default level and
  take no lock). Then both are answered with success and nobody holds the role; had the second counted after
  the first deleted, it would have been refused.\<close>

theorem overlapping_removals_leave_no_admin:
  assumes checks: "removalCheck u t i s = (Inr r, s)" "removalCheck v t i s = (Inr r, s)" and "ro_name r = TENANT_ADMIN_ROLE"
    and holders: "filter (\<lambda>ur. ur_tenantId ur = t \<and> ur_roleId ur = i) (userRoles (accounts s)) = [holderRow t u i, holderRow t v i]"
    and "u \<noteq> v" and ids: "cacheIdOk t" "cacheIdOk u" "cacheIdOk v"
  shows "\<exists>a s1 b s2. removeCounted up (countHolders t i s) u t i r s = (Inr a, s1)
    \<and> removeCounted up (countHolders t i s) v t i r s1 = (Inr b, s2)
    \<and> countHolders t i s2 = 0
    \<and> removeRole up v t i s1 = (Inl (AppError 409 ''LAST_ADMIN_ROLE''), s1)"
proof -
  let ?H = "\<lambda>ur. ur_tenantId ur = t \<and> ur_roleId ur = i"
  let ?d = "\<lambda>w s. changedFor up t w (accounts_update (userRoles_update (deleteMany (\<lambda>ur. ur = holderRow t w i))) s)"
  let ?a = "?d u s" let ?b = "?d v ?a"
  have n: "countHolders t i s = 2" using holders by (simp add: countHolders_def countWhere_def)
  have mem: "holderRow t u i \<in> set (userRoles (accounts s))" "holderRow t v i \<in> set (userRoles (accounts s))"
    using arg_cong [OF holders, of set] by auto
  have ne: "holderRow t u i \<noteq> holderRow t v i" using assms(5) by (simp add: holderRow_def)
  have swap: "filter ?H (deleteMany P xs) = deleteMany P (filter ?H xs)" for P xs
    by (simp add: deleteMany_def conj_commute)
  have fa: "filter ?H (userRoles (accounts ?a)) = [holderRow t v i]"
    using ne by (simp add: swap holders) (simp add: deleteMany_def)
  then have fb: "filter ?H (userRoles (accounts ?b)) = []"
    by (simp add: swap) (simp add: deleteMany_def)
  have one: "removeCounted up (countHolders t i s) u t i r s = (Inr (userRoleResponses u t ?a), ?a)"
    using removeCounted_eq [OF ids(1,2) _ mem(1), of 2 up r] by (simp add: n Let_def)
  have "holderRow t v i \<in> set (userRoles (accounts ?a))" using mem(2) ne by simp
  then have two: "removeCounted up (countHolders t i s) v t i r ?a = (Inr (userRoleResponses v t ?b), ?b)"
    using removeCounted_eq [OF ids(1,3), of 2 i ?a up r] by (simp add: n Let_def)
  have same: "findMember v t ?a = findMember v t s" "findRole i t ?a = findRole i t s"
    by (auto simp: findMember_def findRole_def isMember_def changedFor_def cacheStore_def)
  have "removalCheck v t i ?a = (Inr r, ?a)"
    using checks(2) by (auto simp: removalCheck_def monad_defs same split: option.splits if_splits)
  moreover have "countHolders t i ?a = 1" using fa by (simp add: countHolders_def countWhere_def)
  ultimately have "removeRole up v t i ?a = (Inl (AppError 409 ''LAST_ADMIN_ROLE''), ?a)"
    using assms(3) by (simp add: removeRole_split bindH_def readH_def removeCounted_def deleteHolding_def transaction_def
        removalAnswer_def returnT_def orThrowH_def throwH_def)
  moreover have "countHolders t i ?b = 0" using fb by (simp add: countHolders_def countWhere_def)
  ultimately show ?thesis using one two by blast
qed

text \<open>Deleting the account of the last administrator is not refused.\<close>

definition adminDb :: db where
  "adminDb = accessDb\<lparr>accounts := (accounts accessDb)\<lparr>
     users := [owner, owner\<lparr>us_id := ''v'', us_email := ''e2''\<rparr>],
     roles := [\<lparr>ro_id = ''r'', ro_tenantId = ''t'', ro_name = ''clerk'', ro_description = None, ro_isSystem = False\<rparr>,
               \<lparr>ro_id = ''a'', ro_tenantId = ''t'', ro_name = ''admin'', ro_description = None, ro_isSystem = True\<rparr>],
     rolePermissions := [\<lparr>rp_tenantId = ''t'', rp_roleId = ''r'', rp_permissionId = ''p''\<rparr>,
               \<lparr>rp_tenantId = ''t'', rp_roleId = ''a'', rp_permissionId = ''p''\<rparr>],
     userRoles := [holderRow ''t'' ''u'' ''a'', holderRow ''t'' ''v'' ''r'']\<rparr>,
     memberships := [\<lparr>mb_tenantId = ''t'', mb_userId = ''u'', mb_active = True\<rparr>,
                     \<lparr>mb_tenantId = ''t'', mb_userId = ''v'', mb_active = True\<rparr>]\<rparr>"

lemma last_admin_can_be_deleted:
  "fst (deleteTenantUser demoEnv ''u'' ''t'' \<lparr>cx_userId = Some ''v'', cx_ipAddress = None, cx_userAgent = None\<rparr> adminDb) = Inr ()
   \<and> filter (\<lambda>ur. ur_roleId ur = ''a'') (userRoles (accounts (snd
       (deleteTenantUser demoEnv ''u'' ''t'' \<lparr>cx_userId = Some ''v'', cx_ipAddress = None, cx_userAgent = None\<rparr> adminDb)))) = []"
  by code_simp

lemma last_admin_role_cannot_be_removed:
  "fst (removeRole True ''u'' ''t'' ''a'' adminDb) = Inl (AppError 409 ''LAST_ADMIN_ROLE'')
   \<and> fst (removeRole True ''v'' ''t'' ''a'' adminDb) = Inl (AppError 409 ''LAST_ADMIN_ROLE'')"
  by code_simp

section \<open>The theorems on a small shop\<close>

lemma adminDb_ok: "rolesOk adminDb" "permissionsCoherent adminDb"
  by (simp_all add: adminDb_def accessDb_def emptyAccounts_def roleTablesOk_def roleRowOk_def holderRow_def coherent_def permPeek_def)

definition clerk :: req_context where
  "clerk = \<lparr>rc_userId = ''v'', rc_tenantId = ''t'', rc_sessionId = demoSid, rc_email = ''e2'', rc_scope = ''tenant'', rc_support = None\<rparr>"

definition demoRequests :: "(string \<times> role_request) list" where
  "demoRequests = [(''t'', ReqAuthorize ''orders:read'' (Some clerk)), (''t'', ReqRemovePermission ''r'' ''p''),
     (''t'', ReqAuthorize ''orders:read'' (Some clerk)), (''t'', ReqDeleteRole ''a'')]"

lemma adminDb_holders: "holdersOk adminDb"
  by (simp add: holdersOk_def adminDb_def accessDb_def holderRow_def isMember_def)

lemma role_tables_well_formed_witness:
  "rolesOk (snd (serveAll True ((''t'', ReqAssignRoles ''v'' [''a'']) # demoRequests) adminDb))
   \<and> holdersOk (snd (serveAll True ((''t'', ReqAssignRoles ''v'' [''a'']) # demoRequests) adminDb))"
  using role_tables_well_formed [OF adminDb_ok(1) adminDb_holders] by blast


lemma system_roles_are_immutable_witness:
  "\<lparr>ro_id = ''a'', ro_tenantId = ''t'', ro_name = ''admin'', ro_description = None, ro_isSystem = True\<rparr>
     \<in> set (roles (accounts (snd (serveAll True demoRequests adminDb))))"
proof -
  have "\<lparr>ro_id = ''a'', ro_tenantId = ''t'', ro_name = ''admin'', ro_description = None, ro_isSystem = True\<rparr> \<in> set (roles (accounts adminDb))"
    by (simp add: adminDb_def)
  from system_roles_are_immutable [OF adminDb_ok(1) this, of True demoRequests] show ?thesis by simp
qed

lemma roles_stay_in_tenant_witness:
  "holdsPermission (snd (serveAll True [(''t2'', ReqDeleteRole ''r'')] adminDb)) ''t'' ''v'' ''orders'' ''read''"
proof -
  have mem: "isMember (snd (serveAll True [(''t2'', ReqDeleteRole ''r'')] adminDb)) ''t'' ''v''"
    by code_simp
  have "holdsPermission adminDb ''t'' ''v'' ''orders'' ''read''"
    by (simp add: holdsPermission_def adminDb_def accessDb_def holderRow_def)
  then show ?thesis
    using roles_stay_in_tenant [OF adminDb_ok(1) _ mem, of "''orders''" "''read''"] by simp
qed

definition twoAdminsDb :: db where
  "twoAdminsDb = adminDb\<lparr>accounts := (accounts adminDb)\<lparr>userRoles := [holderRow ''t'' ''u'' ''a'', holderRow ''t'' ''v'' ''a'']\<rparr>\<rparr>"

lemma overlapping_removals_leave_no_admin_witness:
  "countHolders ''t'' ''a'' twoAdminsDb = 2
   \<and> (\<exists>r a s1 b s2. removeCounted True 2 ''u'' ''t'' ''a'' r twoAdminsDb = (Inr a, s1)
        \<and> removeCounted True 2 ''v'' ''t'' ''a'' r s1 = (Inr b, s2) \<and> countHolders ''t'' ''a'' s2 = 0)"
proof -
  let ?r = "\<lparr>ro_id = ''a'', ro_tenantId = ''t'', ro_name = ''admin'', ro_description = None, ro_isSystem = True\<rparr>"
  have n: "countHolders ''t'' ''a'' twoAdminsDb = 2"
    by (simp add: countHolders_def countWhere_def twoAdminsDb_def holderRow_def)
  have c: "removalCheck ''u'' ''t'' ''a'' twoAdminsDb = (Inr ?r, twoAdminsDb)"
    "removalCheck ''v'' ''t'' ''a'' twoAdminsDb = (Inr ?r, twoAdminsDb)"
    by (simp_all add: removalCheck_def monad_defs findMember_def findRole_def isMember_def twoAdminsDb_def adminDb_def owner_def)
  have h: "ro_name ?r = TENANT_ADMIN_ROLE" "cacheIdOk ''t''" "cacheIdOk ''u''" "cacheIdOk ''v''"
    "filter (\<lambda>ur. ur_tenantId ur = ''t'' \<and> ur_roleId ur = ''a'') (userRoles (accounts twoAdminsDb))
      = [holderRow ''t'' ''u'' ''a'', holderRow ''t'' ''v'' ''a'']"
    by (simp_all add: TENANT_ADMIN_ROLE_def cacheIdOk_def idChar_def twoAdminsDb_def holderRow_def)
  have "''u'' \<noteq> (''v'' :: string)" by simp
  from overlapping_removals_leave_no_admin [OF c h(1,5) this h(2-4), of True, unfolded n] n show ?thesis by blast
qed

lemma admin_role_keeps_a_holder_witness:
  "\<exists>ur \<in> set (userRoles (accounts (snd (removeRole True ''u'' ''t'' ''a'' adminDb)))). ur_tenantId ur = ''t'' \<and> ur_roleId ur = ''a''"
proof -
  have "findRole ''a'' ''t'' adminDb = Some \<lparr>ro_id = ''a'', ro_tenantId = ''t'', ro_name = ''admin'', ro_description = None, ro_isSystem = True\<rparr>"
    by (simp add: findRole_def adminDb_def)
  moreover have "\<exists>ur \<in> set (userRoles (accounts adminDb)). ur_tenantId ur = ''t'' \<and> ur_roleId ur = ''a''"
    by (simp add: adminDb_def holderRow_def)
  ultimately show ?thesis
    using admin_role_keeps_a_holder [OF adminDb_ok(1)] by (simp add: TENANT_ADMIN_ROLE_def)
qed

end
