(* ===== verification/Categories.thy ===== *)
theory Categories
  imports Roles
begin

text \<open>
  The category tree of a shop: src/src/modules/categories (service and repository). A category may have a
  parent; the walk to the root that guards against cycles is a loop that need not end, so the update is a
  partial function whose value \<open>None\<close> is a request that never returns.
\<close>

section \<open>The repository\<close>

definition findCategory :: "string \<Rightarrow> string \<Rightarrow> db \<Rightarrow> category_row option" where
  "findCategory i tenantId s = find (\<lambda>c. ca_id c = i \<and> ca_tenantId c = tenantId) (categories s)"

definition existsBySlug :: "string \<Rightarrow> string \<Rightarrow> string option \<Rightarrow> db \<Rightarrow> bool" where
  "existsBySlug slug tenantId excludeId s =
     list_ex (\<lambda>c. ca_slug c = slug \<and> ca_tenantId c = tenantId \<and> (case excludeId of None \<Rightarrow> True | Some i \<Rightarrow> ca_id c \<noteq> i)) (categories s)"

definition hasChildren :: "string \<Rightarrow> string \<Rightarrow> db \<Rightarrow> bool" where
  "hasChildren i tenantId s = (0 < countWhere (\<lambda>c. ca_parentId c = Some i \<and> ca_tenantId c = tenantId) (categories s))"

definition hasProducts :: "string \<Rightarrow> string \<Rightarrow> db \<Rightarrow> bool" where
  "hasProducts i tenantId s = (0 < countWhere (\<lambda>pc. pc_categoryId pc = i \<and> pc_tenantId pc = tenantId) (productCategories s))"

record category_body =
  cb_name :: string
  cb_slug :: string
  cb_description :: "string option"
  cb_parentId :: "string option"
  cb_sortOrder :: "int option"
  cb_isActive :: "bool option"

text \<open>The parent is a foreign key, the slug is unique in the tenant.\<close>

abbreviation foreignKeyViolation :: error where
  "foreignKeyViolation \<equiv> DbError ''P2003'' [] ''Foreign key constraint failed''"

definition parentMissing :: "string option \<Rightarrow> db \<Rightarrow> bool" where
  "parentMissing p s = (case p of None \<Rightarrow> False | Some i \<Rightarrow> \<not> list_ex (\<lambda>c. ca_id c = i) (categories s))"

definition slugTaken :: "string \<Rightarrow> string \<Rightarrow> string \<Rightarrow> db \<Rightarrow> bool" where
  "slugTaken i tenantId slug s = list_ex (\<lambda>c. ca_id c \<noteq> i \<and> ca_tenantId c = tenantId \<and> ca_slug c = slug) (categories s)"

definition insertCategory :: "env \<Rightarrow> string \<Rightarrow> category_body \<Rightarrow> category_row dbtx" where
  "insertCategory env tenantId d =
     bindT (freshId env) (\<lambda>i.
     let row = \<lparr>ca_id = i, ca_tenantId = tenantId, ca_parentId = cb_parentId d, ca_name = cb_name d, ca_slug = cb_slug d,
         ca_description = cb_description d, ca_sortOrder = (case cb_sortOrder d of Some n \<Rightarrow> n | None \<Rightarrow> 0),
         ca_isActive = (case cb_isActive d of Some b \<Rightarrow> b | None \<Rightarrow> True), ca_createdAt = env_now env, ca_updatedAt = env_now env\<rparr> in
     bindT (readT (\<lambda>s. list_ex (\<lambda>c. ca_id c = i) (categories s) \<or> slugTaken i tenantId (cb_slug d) s)) (\<lambda>clash.
     thenT (throwIfT clash uniqueViolation)
    (bindT (readT (parentMissing (cb_parentId d))) (\<lambda>missing.
     thenT (throwIfT missing foreignKeyViolation)
    (thenT (writeT (\<lambda>s. s\<lparr>categories := categories s @ [row]\<rparr>)) (returnT row))))))"

text \<open>An absent field is left as it is; \<open>parentId\<close> may be set to \<open>null\<close>.\<close>

record category_update =
  ct_name :: "string option"
  ct_slug :: "string option"
  ct_description :: "string option"
  ct_parentId :: "string option option"
  ct_sortOrder :: "int option"
  ct_isActive :: "bool option"

definition patched :: "env \<Rightarrow> category_update \<Rightarrow> category_row \<Rightarrow> category_row" where
  "patched env d c = c\<lparr>
     ca_name := (case ct_name d of Some x \<Rightarrow> x | None \<Rightarrow> ca_name c),
     ca_slug := (case ct_slug d of Some x \<Rightarrow> x | None \<Rightarrow> ca_slug c),
     ca_description := coalesce (ct_description d) (ca_description c),
     ca_parentId := (case ct_parentId d of Some p \<Rightarrow> p | None \<Rightarrow> ca_parentId c),
     ca_sortOrder := (case ct_sortOrder d of Some n \<Rightarrow> n | None \<Rightarrow> ca_sortOrder c),
     ca_isActive := (case ct_isActive d of Some b \<Rightarrow> b | None \<Rightarrow> ca_isActive c),
     ca_updatedAt := env_now env\<rparr>"

definition writeCategory :: "env \<Rightarrow> string \<Rightarrow> category_update \<Rightarrow> category_row dbtx" where
  "writeCategory env i d =
     bindT (readT (\<lambda>s. find (\<lambda>c. ca_id c = i) (categories s))) (\<lambda>found.
     bindT (orThrowT found recordNotFound) (\<lambda>c.
     let row = patched env d c in
     bindT (readT (slugTaken i (ca_tenantId c) (ca_slug row))) (\<lambda>clash.
     thenT (throwIfT clash uniqueViolation)
    (bindT (readT (parentMissing (ca_parentId row))) (\<lambda>missing.
     thenT (throwIfT missing foreignKeyViolation)
    (thenT (writeT (\<lambda>s. s\<lparr>categories := updateMany (\<lambda>x. ca_id x = i) (\<lambda>_. row) (categories s)\<rparr>)) (returnT row)))))))"

text \<open>Deleting a category clears the parent of its children and takes its products out of it.\<close>

definition removeCategoryRows :: "string \<Rightarrow> db \<Rightarrow> db" where
  "removeCategoryRows i s = s\<lparr>
     categories := updateMany (\<lambda>c. ca_parentId c = Some i) (\<lambda>c. c\<lparr>ca_parentId := None\<rparr>) (deleteMany (\<lambda>c. ca_id c = i) (categories s)),
     productCategories := deleteMany (\<lambda>pc. pc_categoryId pc = i) (productCategories s)\<rparr>"

definition dropCategory :: "string \<Rightarrow> unit dbtx" where
  "dropCategory i =
     bindT (readT (\<lambda>s. list_ex (\<lambda>c. ca_id c = i) (categories s))) (\<lambda>found.
     thenT (throwIfT (\<not> found) recordNotFound) (writeT (removeCategoryRows i)))"

section \<open>The service\<close>

abbreviation categoryNotFound :: error where
  "categoryNotFound \<equiv> AppError 404 ''CATEGORY_NOT_FOUND''"

abbreviation slugExists :: error where
  "slugExists \<equiv> AppError 409 ''CATEGORY_SLUG_EXISTS''"

abbreviation parentNotFound :: error where
  "parentNotFound \<equiv> AppError 404 ''PARENT_CATEGORY_NOT_FOUND''"

definition createCategory :: "env \<Rightarrow> string \<Rightarrow> category_body \<Rightarrow> category_row dbio" where
  "createCategory env tenantId d =
     bindH (readH (existsBySlug (cb_slug d) tenantId None)) (\<lambda>taken.
     thenH (throwIfH taken slugExists)
    (bindH (readH (\<lambda>s. case nonEmpty (cb_parentId d) of None \<Rightarrow> False | Some p \<Rightarrow> findCategory p tenantId s = None)) (\<lambda>orphan.
     thenH (throwIfH orphan parentNotFound) (transaction (insertCategory env tenantId d)))))"

definition getCategoryById :: "string \<Rightarrow> string \<Rightarrow> category_row dbio" where
  "getCategoryById i tenantId =
     bindH (readH (findCategory i tenantId)) (\<lambda>found. orThrowH found categoryNotFound)"

text \<open>The walk from the new parent to the root; it has no value when it never reaches one.\<close>

partial_function (option) wouldCreateCycle :: "db \<Rightarrow> string \<Rightarrow> string \<Rightarrow> string option \<Rightarrow> bool option" where
  "wouldCreateCycle s tenantId categoryId current =
     (case nonEmpty current of
        None \<Rightarrow> Some False
      | Some i \<Rightarrow>
          (if i = categoryId then Some True
           else wouldCreateCycle s tenantId categoryId
             (case findCategory i tenantId s of Some c \<Rightarrow> ca_parentId c | None \<Rightarrow> None)))"

text \<open>The checks of an update, which only read; no value when the walk never ends.\<close>

definition checkUpdate :: "string \<Rightarrow> string \<Rightarrow> category_update \<Rightarrow> db \<Rightarrow> (error + unit) option" where
  "checkUpdate i tenantId d s =
     (if findCategory i tenantId s = None then Some (Inl categoryNotFound)
      else if (case nonEmpty (ct_slug d) of None \<Rightarrow> False | Some slug \<Rightarrow> existsBySlug slug tenantId (Some i) s) then Some (Inl slugExists)
      else (case (case ct_parentId d of Some p \<Rightarrow> nonEmpty p | None \<Rightarrow> None) of
          None \<Rightarrow> Some (Inr ())
        | Some p \<Rightarrow>
            (if p = i then Some (Inl (AppError 400 ''INVALID_PARENT_CATEGORY''))
             else if findCategory p tenantId s = None then Some (Inl parentNotFound)
             else (case wouldCreateCycle s tenantId i (Some p) of
                None \<Rightarrow> None
              | Some b \<Rightarrow> Some (if b then Inl (AppError 400 ''CATEGORY_CYCLE_DETECTED'') else Inr ())))))"

definition updateCategory :: "env \<Rightarrow> string \<Rightarrow> string \<Rightarrow> category_update \<Rightarrow> db \<Rightarrow> ((error + category_row) \<times> db) option" where
  "updateCategory env i tenantId d s =
     map_option (\<lambda>r. case r of Inl e \<Rightarrow> (Inl e, s) | Inr _ \<Rightarrow> transaction (writeCategory env i d) s) (checkUpdate i tenantId d s)"

definition deleteCategory :: "string \<Rightarrow> string \<Rightarrow> unit dbio" where
  "deleteCategory i tenantId =
     thenH (getCategoryById i tenantId)
    (bindH (readH (hasChildren i tenantId)) (\<lambda>parent.
     thenH (throwIfH parent (AppError 409 ''CATEGORY_HAS_CHILDREN''))
    (bindH (readH (hasProducts i tenantId)) (\<lambda>used.
     thenH (throwIfH used (AppError 409 ''CATEGORY_HAS_PRODUCTS''))
       (transaction (dropCategory i))))))"

text \<open>
  \<open>getTree\<close>: two passes over the active categories. The nodes are one object each, so the tree is the ids of the
  roots and, for each node, the ids pushed into its \<open>children\<close>.
\<close>

record category_tree =
  tr_roots :: "string list"
  tr_children :: "string \<Rightarrow> string list"

definition placeNode :: "string set \<Rightarrow> category_row \<Rightarrow> category_tree \<Rightarrow> category_tree" where
  "placeNode ids c t =
     (case nonEmpty (ca_parentId c) of
        None \<Rightarrow> t\<lparr>tr_roots := tr_roots t @ [ca_id c]\<rparr>
      | Some p \<Rightarrow>
          (if p \<in> ids then t\<lparr>tr_children := (tr_children t)(p := tr_children t p @ [ca_id c])\<rparr>
           else t\<lparr>tr_roots := tr_roots t @ [ca_id c]\<rparr>))"

definition activeCategories :: "string \<Rightarrow> db \<Rightarrow> category_row list" where
  "activeCategories tenantId s = sort_key ca_sortOrder (filter (\<lambda>c. ca_tenantId c = tenantId \<and> ca_isActive c) (categories s))"

definition getTree :: "string \<Rightarrow> db \<Rightarrow> category_tree" where
  "getTree tenantId s =
     (let cs = activeCategories tenantId s
      in foldl (\<lambda>t c. placeNode (set (map ca_id cs)) c t) \<lparr>tr_roots = [], tr_children = (\<lambda>_. [])\<rparr> cs)"

record category_query =
  cq_page :: int
  cq_limit :: int
  cq_search :: "string option"
  cq_isActive :: "bool option"
  cq_parentId :: "string option"
  cq_sortBy :: string
  cq_descending :: bool

definition categorySortKey :: "string \<Rightarrow> category_row \<Rightarrow> sort_key" where
  "categorySortKey field c =
     (if field = ''name'' then SStr (ca_name c) else if field = ''slug'' then SStr (ca_slug c)
      else if field = ''createdAt'' then SInt (ca_createdAt c) else if field = ''updatedAt'' then SInt (ca_updatedAt c)
      else if field = ''isActive'' then SInt (if ca_isActive c then 1 else 0) else SInt (ca_sortOrder c))"

definition matchesCategory :: "string \<Rightarrow> category_query \<Rightarrow> category_row \<Rightarrow> bool" where
  "matchesCategory tenantId q c \<longleftrightarrow>
     ca_tenantId c = tenantId
     \<and> (case nonEmpty (cq_search q) of None \<Rightarrow> True
        | Some x \<Rightarrow> containsCI (ca_name c) x \<or> containsCI (ca_slug c) x
            \<or> (case ca_description c of Some d \<Rightarrow> containsCI d x | None \<Rightarrow> False))
     \<and> (case cq_isActive q of None \<Rightarrow> True | Some b \<Rightarrow> ca_isActive c = b)
     \<and> (case cq_parentId q of None \<Rightarrow> True | Some p \<Rightarrow> if p = ''null'' then ca_parentId c = None else ca_parentId c = Some p)"

record category_view =
  cv_row :: category_row
  cv_children :: "category_row list"
  cv_products :: nat

definition listCategories :: "string \<Rightarrow> category_query \<Rightarrow> db \<Rightarrow> category_view list \<times> page_meta" where
  "listCategories tenantId q s =
     (let skip = (cq_page q - 1) * cq_limit q;
          tk = min (cq_limit q) 100;
          rows = filter (matchesCategory tenantId q) (categories s);
          ordered = (if cq_descending q then rev (sort_key (categorySortKey (cq_sortBy q)) (rev rows))
            else sort_key (categorySortKey (cq_sortBy q)) rows)
      in (map (\<lambda>c. \<lparr>cv_row = c, cv_children = filter (\<lambda>x. ca_parentId x = Some (ca_id c)) (categories s),
             cv_products = countWhere (\<lambda>pc. pc_categoryId pc = ca_id c) (productCategories s)\<rparr>)
            (take (nat tk) (drop (nat skip) ordered)),
          pageMeta (cq_page q) tk (length rows)))"

section \<open>Forests\<close>

text \<open>The parent edges of a tenant: \<open>(p, c)\<close> when \<open>p\<close> is the parent of \<open>c\<close>.\<close>

definition parentRel :: "db \<Rightarrow> string \<Rightarrow> (string \<times> string) set" where
  "parentRel s t = {(p, c). \<exists>row. findCategory c t s = Some row \<and> nonEmpty (ca_parentId row) = Some p}"

definition categoriesOk :: "db \<Rightarrow> bool" where
  "categoriesOk s \<longleftrightarrow> distinct (map ca_id (categories s)) \<and> (\<forall>c \<in> set (categories s). ca_id c \<noteq> [])
     \<and> (\<forall>c \<in> set (categories s). \<forall>p. ca_parentId c = Some p \<longrightarrow> (\<exists>x \<in> set (categories s). ca_id x = p \<and> ca_tenantId x = ca_tenantId c))
     \<and> (\<forall>t. acyclic (parentRel s t))"

lemma finite_parentRel: "finite (parentRel s t)"
proof -
  have "parentRel s t \<subseteq> (\<lambda>row. (the (nonEmpty (ca_parentId row)), ca_id row)) ` set (categories s)"
    by (force simp: parentRel_def findCategory_def dest!: find_SomeD)
  then show ?thesis by (rule finite_subset) simp
qed

lemma nonEmpty_Some: "nonEmpty x = Some y \<longleftrightarrow> x = Some y \<and> y \<noteq> []"
  by (auto simp: nonEmpty_def split: option.split)

lemma parentRel_fun: "(p, c) \<in> parentRel s t \<Longrightarrow> (q, c) \<in> parentRel s t \<Longrightarrow> p = q"
  by (auto simp: parentRel_def)

text \<open>In a forest the walk ends, and it finds the category exactly if it is an ancestor.\<close>

lemma wouldCreateCycle_root: "nonEmpty x = None \<Longrightarrow> wouldCreateCycle s t i x = Some False"
  by (subst wouldCreateCycle.simps) simp

lemma wouldCreateCycle_up:
  "p \<noteq> [] \<Longrightarrow> wouldCreateCycle s t i (Some p) =
     (if p = i then Some True
      else wouldCreateCycle s t i (case findCategory p t s of Some c \<Rightarrow> ca_parentId c | None \<Rightarrow> None))"
  by (subst wouldCreateCycle.simps) (simp add: nonEmpty_def)

lemma wouldCreateCycle_eq:
  assumes "acyclic (parentRel s t)"
  shows "p \<noteq> [] \<Longrightarrow> wouldCreateCycle s t i (Some p) = Some ((i, p) \<in> (parentRel s t)\<^sup>*)"
proof -
  have "wf (parentRel s t)" using finite_acyclic_wf [OF finite_parentRel assms] .
  then show "p \<noteq> [] \<Longrightarrow> wouldCreateCycle s t i (Some p) = Some ((i, p) \<in> (parentRel s t)\<^sup>*)"
  proof (induction p rule: wf_induct_rule)
    case (less p)
    let ?next = "case findCategory p t s of Some c \<Rightarrow> ca_parentId c | None \<Rightarrow> None"
    show ?case
    proof (cases "p = i")
      case True
      with less.prems show ?thesis by (simp add: wouldCreateCycle_up)
    next
      case False
      have step: "wouldCreateCycle s t i (Some p) = wouldCreateCycle s t i ?next"
        using False less.prems by (simp add: wouldCreateCycle_up)
      show ?thesis
      proof (cases "nonEmpty ?next")
        case None
        then have "(q, p) \<notin> parentRel s t" for q by (auto simp: parentRel_def)
        with False have "(i, p) \<notin> (parentRel s t)\<^sup>*" by (metis rtranclE)
        with None step show ?thesis by (simp only: wouldCreateCycle_root)
      next
        case (Some q)
        then have q: "q \<noteq> []" "?next = Some q" "(q, p) \<in> parentRel s t"
          by (auto simp: nonEmpty_Some parentRel_def split: option.splits)
        have "(i, p) \<in> (parentRel s t)\<^sup>* \<longleftrightarrow> (i, q) \<in> (parentRel s t)\<^sup>*"
          using False q(3) parentRel_fun [OF q(3)] by (metis rtranclE rtrancl.rtrancl_into_rtrancl)
        then show ?thesis using step less.IH [OF q(3,1)] q(2) by simp
      qed
    qed
  qed
qed

lemma checkUpdate_returns:
  assumes "acyclic (parentRel s t)"
  shows "\<exists>r. checkUpdate i t d s = Some r"
proof (cases "case ct_parentId d of Some p \<Rightarrow> nonEmpty p | None \<Rightarrow> None")
  case None
  then show ?thesis unfolding checkUpdate_def None by simp
next
  case (Some p)
  then have "p \<noteq> []" by (auto simp: nonEmpty_Some split: option.splits)
  then show ?thesis unfolding checkUpdate_def Some by (simp add: wouldCreateCycle_eq [OF assms])
qed

lemma checkUpdate_Inr:
  assumes "acyclic (parentRel s t)" "checkUpdate i t d s = Some (Inr ())"
  shows "findCategory i t s \<noteq> None \<and> (\<forall>p. ct_parentId d = Some (Some p) \<longrightarrow> p \<noteq> [] \<longrightarrow>
     findCategory p t s \<noteq> None \<and> (i, p) \<notin> (parentRel s t)\<^sup>*)"
proof (intro conjI allI impI)
  show "findCategory i t s \<noteq> None" using assms(2) unfolding checkUpdate_def by (cases "findCategory i t s") simp_all
  fix p
  assume "ct_parentId d = Some (Some p)" "p \<noteq> []"
  then have "(case ct_parentId d of Some p \<Rightarrow> nonEmpty p | None \<Rightarrow> None) = Some p" by (simp add: nonEmpty_def)
  with assms(2) \<open>p \<noteq> []\<close> show "findCategory p t s \<noteq> None" "(i, p) \<notin> (parentRel s t)\<^sup>*"
    unfolding checkUpdate_def by (auto simp: wouldCreateCycle_eq [OF assms(1)] split: if_splits)
qed

section \<open>The operations keep the forest\<close>

abbreviation idsOk :: "db \<Rightarrow> bool" where
  "idsOk s \<equiv> distinct (map ca_id (categories s))"

lemma findCategory_iff:
  assumes "idsOk s"
  shows "findCategory i t s = Some c \<longleftrightarrow> c \<in> set (categories s) \<and> ca_id c = i \<and> ca_tenantId c = t"
proof
  assume c: "c \<in> set (categories s) \<and> ca_id c = i \<and> ca_tenantId c = t"
  then obtain c' where c': "findCategory i t s = Some c'"
    using find_Some_ex [of c "categories s" "\<lambda>c. ca_id c = i \<and> ca_tenantId c = t"] by (auto simp: findCategory_def)
  then have "c' \<in> set (categories s)" "ca_id c' = i" unfolding findCategory_def by (auto dest: find_SomeD)
  with c assms have "c' = c" by (auto simp: distinct_map inj_on_def)
  with c' show "findCategory i t s = Some c" by simp
next
  show "findCategory i t s = Some c \<Longrightarrow> c \<in> set (categories s) \<and> ca_id c = i \<and> ca_tenantId c = t"
    unfolding findCategory_def by (auto dest: find_SomeD)
qed

lemma parentRel_iff:
  assumes "idsOk s"
  shows "(p, c) \<in> parentRel s t \<longleftrightarrow>
     (\<exists>row \<in> set (categories s). ca_id row = c \<and> ca_tenantId row = t \<and> ca_parentId row = Some p \<and> p \<noteq> [])"
  by (auto simp: parentRel_def findCategory_iff [OF assms] nonEmpty_Some)

lemma categoriesOk_frame: "categories s' = categories s \<Longrightarrow> categoriesOk s' = categoriesOk s"
  by (simp add: categoriesOk_def parentRel_def findCategory_def)

lemma categoriesOk_ids: "categoriesOk s \<Longrightarrow> idsOk s" and categoriesOk_acyclic: "categoriesOk s \<Longrightarrow> acyclic (parentRel s t)"
  by (simp_all add: categoriesOk_def)

text \<open>Giving one category another parent, or a parent at all: no ancestor may be below it.\<close>

lemma acyclic_new_parent:
  assumes "acyclic r" "r' \<subseteq> r \<union> {(p, i)}" "(i, p) \<notin> r\<^sup>*"
  shows "acyclic r'"
  using acyclic_subset [OF _ assms(2)] assms(1,3) by (simp add: acyclic_insert)

lemma insert_ok:
  assumes ok: "categoriesOk s" and new: "\<forall>c \<in> set (categories s). ca_id c \<noteq> ca_id row" "ca_id row \<noteq> []"
    and parent: "\<And>p. ca_parentId row = Some p \<Longrightarrow> \<exists>x \<in> set (categories s). ca_id x = p \<and> ca_tenantId x = ca_tenantId row"
    and s': "categories s' = categories s @ [row]"
  shows "categoriesOk s'"
proof -
  have ids: "idsOk s'" using categoriesOk_ids [OF ok] new by (auto simp: s')
  have leaf: "(ca_id row, c) \<notin> parentRel s t" for c t
    using ok new unfolding parentRel_iff [OF categoriesOk_ids [OF ok]] categoriesOk_def by metis
  have "acyclic (parentRel s' t)" for t
  proof (cases "ca_parentId row")
    case None
    then have "parentRel s' t \<subseteq> parentRel s t"
      by (auto simp: parentRel_iff [OF ids] parentRel_iff [OF categoriesOk_ids [OF ok]] s')
    then show ?thesis by (rule acyclic_subset [OF categoriesOk_acyclic [OF ok]])
  next
    case (Some p)
    then have "parentRel s' t \<subseteq> parentRel s t \<union> {(p, ca_id row)}"
      by (auto simp: parentRel_iff [OF ids] parentRel_iff [OF categoriesOk_ids [OF ok]] s')
    moreover have "(ca_id row, p) \<notin> (parentRel s t)\<^sup>*"
      using parent [OF Some] new leaf by (metis converse_rtranclE)
    ultimately show ?thesis by (rule acyclic_new_parent [OF categoriesOk_acyclic [OF ok]])
  qed
  moreover have "\<forall>x \<in> set (categories s'). \<forall>p. ca_parentId x = Some p \<longrightarrow> (\<exists>y \<in> set (categories s'). ca_id y = p \<and> ca_tenantId y = ca_tenantId x)"
    using ok parent unfolding categoriesOk_def s' by (metis Un_iff insertE list.set(1,2) set_append empty_iff)
  ultimately show ?thesis using ok new(2) ids by (simp add: categoriesOk_def s')
qed

lemma update_ok:
  assumes ok: "categoriesOk s" and old: "c \<in> set (categories s)" "ca_id c = i" and row: "ca_id row = i" "ca_tenantId row = ca_tenantId c"
    and parent: "\<And>p. ca_parentId row = Some p \<Longrightarrow> (\<exists>x \<in> set (categories s). ca_id x = p \<and> ca_tenantId x = ca_tenantId c)
      \<and> (ca_parentId c = Some p \<or> p = [] \<or> (i, p) \<notin> (parentRel s (ca_tenantId c))\<^sup>*)"
    and s': "categories s' = updateMany (\<lambda>x. ca_id x = i) (\<lambda>_. row) (categories s)"
  shows "categoriesOk s'"
proof -
  have set': "x \<in> set (categories s') \<longleftrightarrow> x = row \<or> x \<in> set (categories s) \<and> ca_id x \<noteq> i" for x
    using old by (auto simp: s' set_updateMany)
  have "map ca_id (updateMany (\<lambda>x. ca_id x = i) (\<lambda>_. row) cs) = map ca_id cs" for cs
    using row(1) by (induction cs) auto
  then have ids: "idsOk s'" using categoriesOk_ids [OF ok] by (simp add: s' del: map_eq_conv)
  note rels = parentRel_iff [OF ids] parentRel_iff [OF categoriesOk_ids [OF ok]]
  have acyclic: "acyclic (parentRel s' t)" for t
  proof (cases "ca_tenantId c = t \<and> (\<exists>p. ca_parentId row = Some p \<and> p \<noteq> [] \<and> ca_parentId c \<noteq> Some p)")
    case True
    then obtain p where p: "ca_tenantId c = t" "ca_parentId row = Some p" "p \<noteq> []" "ca_parentId c \<noteq> Some p" by blast
    then have "parentRel s' t \<subseteq> parentRel s t \<union> {(p, i)}" using row by (auto simp: rels set') blast+
    moreover have "(i, p) \<notin> (parentRel s t)\<^sup>*" using parent [OF p(2)] p by auto
    ultimately show ?thesis by (rule acyclic_new_parent [OF categoriesOk_acyclic [OF ok]])
  next
    case False
    have "parentRel s' t \<subseteq> parentRel s t"
    proof clarify
      fix p x
      assume "(p, x) \<in> parentRel s' t"
      then obtain y where y: "y \<in> set (categories s')" "ca_id y = x" "ca_tenantId y = t" "ca_parentId y = Some p" "p \<noteq> []"
        by (auto simp: rels)
      then consider "y \<in> set (categories s)" | "y = row" using set' by blast
      then show "(p, x) \<in> parentRel s t"
      proof cases
        case 2
        then have "ca_parentId c = Some p" "ca_tenantId c = t" "ca_id c = x" using y False row old by auto
        then show ?thesis using old y by (auto simp: rels)
      qed (use y in \<open>auto simp: rels\<close>)
    qed
    then show ?thesis by (rule acyclic_subset [OF categoriesOk_acyclic [OF ok]])
  qed
  have kept: "\<exists>y \<in> set (categories s'). ca_id y = p \<and> ca_tenantId y = t"
    if "\<exists>x \<in> set (categories s). ca_id x = p \<and> ca_tenantId x = t" for p t
  proof -
    from that obtain x where x: "x \<in> set (categories s)" "ca_id x = p" "ca_tenantId x = t" by blast
    show ?thesis
    proof (cases "p = i")
      case True
      with x old categoriesOk_ids [OF ok] have "x = c" by (auto simp: distinct_map inj_on_def)
      with x row True show ?thesis by (auto simp: set')
    qed (use x in \<open>auto simp: set'\<close>)
  qed
  have "\<exists>y \<in> set (categories s'). ca_id y = p \<and> ca_tenantId y = ca_tenantId x"
    if "x \<in> set (categories s')" "ca_parentId x = Some p" for x p
  proof (cases "x = row")
    case True
    then show ?thesis using parent [of p] that(2) row(2) kept by simp
  next
    case False
    then have "\<exists>y \<in> set (categories s). ca_id y = p \<and> ca_tenantId y = ca_tenantId x"
      using ok that by (simp add: categoriesOk_def set')
    then show ?thesis by (rule kept)
  qed
  moreover have "\<forall>x \<in> set (categories s'). ca_id x \<noteq> []"
  proof -
    have "\<forall>x \<in> set (categories s). ca_id x \<noteq> []" using ok by (simp add: categoriesOk_def)
    moreover from this have "ca_id row \<noteq> []" using old row(1) by metis
    ultimately show ?thesis using set' by metis
  qed
  ultimately show ?thesis using ids acyclic by (simp add: categoriesOk_def)
qed

lemma remove_ok:
  assumes "categoriesOk s"
  shows "categoriesOk (removeCategoryRows i s)"
proof -
  let ?s = "removeCategoryRows i s"
  have mem: "x \<in> set (categories ?s) \<longleftrightarrow> (\<exists>y \<in> set (categories s). ca_id y \<noteq> i
      \<and> x = (if ca_parentId y = Some i then y\<lparr>ca_parentId := None\<rparr> else y))" for x
    by (auto simp: removeCategoryRows_def set_updateMany)
  have "map ca_id (categories ?s) = map ca_id (deleteMany (\<lambda>c. ca_id c = i) (categories s))"
    by (simp add: removeCategoryRows_def map_updateMany)
  then have ids: "idsOk ?s" using categoriesOk_ids [OF assms] by (simp add: distinct_deleteMany_map)
  have "parentRel ?s t \<subseteq> parentRel s t" for t
  proof clarify
    fix p x
    assume "(p, x) \<in> parentRel ?s t"
    then obtain y where "y \<in> set (categories ?s)" "ca_id y = x" "ca_tenantId y = t" "ca_parentId y = Some p" "p \<noteq> []"
      by (auto simp: parentRel_iff [OF ids])
    then show "(p, x) \<in> parentRel s t"
      by (auto simp: parentRel_iff [OF categoriesOk_ids [OF assms]] mem split: if_splits)
  qed
  then have "acyclic (parentRel ?s t)" for t by (rule acyclic_subset [OF categoriesOk_acyclic [OF assms]])
  moreover have "\<exists>y \<in> set (categories ?s). ca_id y = p \<and> ca_tenantId y = ca_tenantId x"
    if x: "x \<in> set (categories ?s)" "ca_parentId x = Some p" for x p
  proof -
    from x(1) obtain y0 where y0: "y0 \<in> set (categories s)" "x = (if ca_parentId y0 = Some i then y0\<lparr>ca_parentId := None\<rparr> else y0)"
      unfolding mem by blast
    have y: "y0 \<in> set (categories s)" "ca_parentId y0 = Some p" "p \<noteq> i" "ca_tenantId y0 = ca_tenantId x"
      using y0 x(2) by (cases "ca_parentId y0 = Some i"; simp)+
    obtain z where z: "z \<in> set (categories s)" "ca_id z = p" "ca_tenantId z = ca_tenantId x"
      using assms y(1,2,4) unfolding categoriesOk_def by metis
    then have "(if ca_parentId z = Some i then z\<lparr>ca_parentId := None\<rparr> else z) \<in> set (categories ?s)"
      using y(3) by (auto simp: mem)
    with z show ?thesis by (intro bexI) auto
  qed
  moreover have "\<forall>x \<in> set (categories ?s). ca_id x \<noteq> []"
    using assms by (auto simp: mem categoriesOk_def split: if_splits)
  ultimately show ?thesis using ids by (simp add: categoriesOk_def)
qed

section \<open>Requests\<close>

datatype category_request =
    ReqCreate env category_body
  | ReqUpdate env string category_update
  | ReqDelete string

text \<open>The state a request of a tenant leaves; no value when it never returns.\<close>

fun serveCategory :: "string \<times> category_request \<Rightarrow> db \<Rightarrow> db option" where
  "serveCategory (t, ReqCreate env d) s = Some (snd (createCategory env t d s))"
| "serveCategory (t, ReqUpdate env i d) s = map_option snd (updateCategory env i t d s)"
| "serveCategory (t, ReqDelete i) s = Some (snd (deleteCategory i t s))"

fun serveCategories :: "(string \<times> category_request) list \<Rightarrow> db \<Rightarrow> db option" where
  "serveCategories [] s = Some s"
| "serveCategories (r # rs) s = (case serveCategory r s of None \<Rightarrow> None | Some s' \<Rightarrow> serveCategories rs s')"

text \<open>Identifiers are not empty.\<close>

fun goodIds :: "category_request \<Rightarrow> bool" where
  "goodIds (ReqCreate env d) = (\<forall>n. env_uuid env n \<noteq> [])"
| "goodIds (ReqUpdate env i d) = True"
| "goodIds (ReqDelete i) = True"

lemma parentMissing_ok:
  assumes "categoriesOk s" "\<not> parentMissing p s"
  shows "p \<noteq> Some []"
  using assms by (auto simp: parentMissing_def categoriesOk_def list_ex_iff)

definition newCategory :: "env \<Rightarrow> string \<Rightarrow> category_body \<Rightarrow> db \<Rightarrow> category_row" where
  "newCategory env t d s = \<lparr>ca_id = env_uuid env (drawn s), ca_tenantId = t, ca_parentId = cb_parentId d, ca_name = cb_name d,
     ca_slug = cb_slug d, ca_description = cb_description d, ca_sortOrder = (case cb_sortOrder d of Some n \<Rightarrow> n | None \<Rightarrow> 0),
     ca_isActive = (case cb_isActive d of Some b \<Rightarrow> b | None \<Rightarrow> True), ca_createdAt = env_now env, ca_updatedAt = env_now env\<rparr>"

lemma insertCategory_eq:
  "insertCategory env t d s =
     (if list_ex (\<lambda>c. ca_id c = env_uuid env (drawn s)) (categories s) \<or> slugTaken (env_uuid env (drawn s)) t (cb_slug d) s
      then Inl uniqueViolation
      else if parentMissing (cb_parentId d) s then Inl foreignKeyViolation
      else Inr (newCategory env t d s, s\<lparr>drawn := Suc (drawn s), categories := categories s @ [newCategory env t d s]\<rparr>))"
  by (simp add: insertCategory_def freshId_def newCategory_def slugTaken_def parentMissing_def monad_defs Let_def split: option.split)

lemma createCategory_keeps:
  assumes "categoriesOk s" "\<forall>n. env_uuid env n \<noteq> []"
  shows "categoriesOk (snd (createCategory env t d s))"
proof -
  have new: "categoriesOk (s\<lparr>drawn := Suc (drawn s), categories := categories s @ [newCategory env t d s]\<rparr>)"
    if "\<not> list_ex (\<lambda>c. ca_id c = env_uuid env (drawn s)) (categories s)" "\<not> parentMissing (cb_parentId d) s"
      "case nonEmpty (cb_parentId d) of None \<Rightarrow> True | Some p \<Rightarrow> findCategory p t s \<noteq> None"
  proof (rule insert_ok [OF assms(1)])
    show "\<exists>x \<in> set (categories s). ca_id x = p \<and> ca_tenantId x = ca_tenantId (newCategory env t d s)"
      if "ca_parentId (newCategory env t d s) = Some p" for p
    proof -
      have p: "cb_parentId d = Some p" using that by (simp add: newCategory_def)
      then have "p \<noteq> []" using parentMissing_ok [OF assms(1)] \<open>\<not> parentMissing _ s\<close> by auto
      then obtain x where "findCategory p t s = Some x" using p \<open>case _ of None \<Rightarrow> True | Some p \<Rightarrow> _\<close> by (auto simp: nonEmpty_def)
      then show ?thesis using findCategory_iff [OF categoriesOk_ids [OF assms(1)]] by (auto simp: newCategory_def)
    qed
  qed (use that assms(2) in \<open>auto simp: newCategory_def list_ex_iff\<close>)
  show ?thesis
    unfolding createCategory_def
    using assms(1) new by (auto simp: monad_defs insertCategory_eq split: option.splits)
qed

lemma updateCategory_keeps:
  assumes "categoriesOk s"
  shows "\<exists>r s'. updateCategory env i t d s = Some (r, s') \<and> categoriesOk s'"
proof -
  obtain r where r: "checkUpdate i t d s = Some r" using checkUpdate_returns [OF categoriesOk_acyclic [OF assms]] by blast
  show ?thesis
  proof (cases "r = Inr ()")
    case False
    then show ?thesis using assms r by (cases r) (auto simp: updateCategory_def)
  next
    case True
    with r checkUpdate_Inr [OF categoriesOk_acyclic [OF assms]] obtain c where c: "findCategory i t s = Some c"
      and p: "\<And>p. ct_parentId d = Some (Some p) \<Longrightarrow> p \<noteq> [] \<Longrightarrow> findCategory p t s \<noteq> None \<and> (i, p) \<notin> (parentRel s t)\<^sup>*"
      by blast
    obtain x s' where tx: "transaction (writeCategory env i d) s = (x, s')" by (cases "transaction (writeCategory env i d) s")
    have "categoriesOk s'"
    proof (cases x)
      case (Inl e)
      then show ?thesis using tx assms by (auto simp: transaction_def split: sum.splits)
    next
      case (Inr row)
      have mem: "c \<in> set (categories s)" "ca_id c = i" "ca_tenantId c = t"
        using c findCategory_iff [OF categoriesOk_ids [OF assms]] by auto
      have "find (\<lambda>c. ca_id c = i) (categories s) = Some c"
        using find_by_key [of ca_id "categories s" c] categoriesOk_ids [OF assms] mem by simp
      with tx Inr have row: "row = patched env d c" "\<not> parentMissing (ca_parentId row) s"
          "categories s' = updateMany (\<lambda>x. ca_id x = i) (\<lambda>_. row) (categories s)"
        by (auto simp: transaction_def writeCategory_def monad_defs Let_def split: sum.splits if_splits)
      have fields: "ca_id row = i" "ca_tenantId row = ca_tenantId c" by (simp_all add: row(1) patched_def mem)
      show ?thesis
      proof (rule update_ok [OF assms mem(1,2) fields _ row(3)])
        fix p
        assume prt: "ca_parentId row = Some p"
        have ne: "p \<noteq> []" using parentMissing_ok [OF assms row(2)] prt by auto
        show "(\<exists>x \<in> set (categories s). ca_id x = p \<and> ca_tenantId x = ca_tenantId c)
            \<and> (ca_parentId c = Some p \<or> p = [] \<or> (i, p) \<notin> (parentRel s (ca_tenantId c))\<^sup>*)"
        proof (cases "ct_parentId d")
          case None
          then show ?thesis using prt assms mem by (auto simp: row(1) patched_def categoriesOk_def)
        next
          case (Some q)
          then have "q = Some p" using prt by (simp add: row(1) patched_def)
          with Some ne p [of p] findCategory_iff [OF categoriesOk_ids [OF assms]] mem(3) show ?thesis by auto
        qed
      qed
    qed
    then show ?thesis using r True tx by (simp add: updateCategory_def)
  qed
qed

lemma deleteCategory_keeps:
  assumes "categoriesOk s"
  shows "categoriesOk (snd (deleteCategory i t s))"
  using assms remove_ok [OF assms, of i]
  by (auto simp: deleteCategory_def getCategoryById_def dropCategory_def monad_defs split: option.split)

lemma serveCategory_keeps:
  assumes "categoriesOk s" "goodIds (snd r)"
  shows "\<exists>s'. serveCategory r s = Some s' \<and> categoriesOk s'"
proof (cases r)
  case (Pair t q)
  then show ?thesis
    using assms createCategory_keeps [OF assms(1), of _ t] updateCategory_keeps [OF assms(1), of _ _ t] deleteCategory_keeps [OF assms(1), of _ t]
    by (cases q) (auto, metis option.map(2) snd_conv)
qed

text \<open>C28: category requests always return. Served one after the other, from a forest of categories (an empty shop, for
  one), every request ends, the walk of the cycle check included, and the categories are a forest again: every
  parent exists in the same tenant, and no category is its own ancestor.\<close>

theorem category_requests_return:
  assumes "categoriesOk s" "\<forall>r \<in> set rs. goodIds (snd r)"
  shows "\<exists>s'. serveCategories rs s = Some s' \<and> categoriesOk s'"
  using assms
proof (induction rs arbitrary: s)
  case (Cons r rs)
  then obtain s1 where "serveCategory r s = Some s1" "categoriesOk s1" using serveCategory_keeps [of s r] by auto
  with Cons show ?case by simp
qed simp

section \<open>Two updates at once\<close>

text \<open>The walk around a cycle has no end.\<close>

lemma wouldCreateCycle_loops:
  assumes "findCategory a t s = Some x" "ca_parentId x = Some b" "findCategory b t s = Some y" "ca_parentId y = Some a"
    and "a \<noteq> []" "b \<noteq> []" "i \<noteq> a" "i \<noteq> b"
  shows "wouldCreateCycle s t i (Some a) = None \<and> wouldCreateCycle s t i (Some b) = None"
proof -
  let ?P = "\<lambda>s' t' i' current (_ :: bool). s' = s \<longrightarrow> t' = t \<longrightarrow> i' = i \<longrightarrow> current \<noteq> Some a \<and> current \<noteq> Some b"
  have step: "?P s' t' i' current r"
    if ih: "\<And>s' t' i' current y. walk s' t' i' current = Some y \<Longrightarrow> ?P s' t' i' current y"
      and body: "(case nonEmpty current of None \<Rightarrow> Some False
        | Some j \<Rightarrow> if j = i' then Some True
            else walk s' t' i' (case findCategory j t' s' of None \<Rightarrow> None | Some c \<Rightarrow> ca_parentId c)) = Some r"
    for walk s' t' i' current r
  proof (intro impI, rule ccontr)
    assume "s' = s" "t' = t" "i' = i" "\<not> (current \<noteq> Some a \<and> current \<noteq> Some b)"
    with body assms have "walk s t i (Some b) = Some r \<or> walk s t i (Some a) = Some r"
      by (auto simp: nonEmpty_def)
    then show False using ih by blast
  qed
  have "current \<noteq> Some a \<and> current \<noteq> Some b" if "wouldCreateCycle s t i current = Some r" for current r
  proof -
    have "?P s t i current r" by (rule wouldCreateCycle.raw_induct [of ?P, OF _ that]) (rule step)
    then show ?thesis by simp
  qed
  then show ?thesis
    by (cases "wouldCreateCycle s t i (Some a)"; cases "wouldCreateCycle s t i (Some b)") fastforce+
qed

text \<open>
  Two administrators turn two top-level categories into each other's child at the same moment: both checks read the old
  tree and pass, and both writes are made. Nothing refuses the cycle.
\<close>

definition setParent :: "string \<Rightarrow> category_update" where
  "setParent p = \<lparr>ct_name = None, ct_slug = None, ct_description = None, ct_parentId = Some (Some p), ct_sortOrder = None, ct_isActive = None\<rparr>"

definition concurrentMoves :: "env \<Rightarrow> string \<Rightarrow> string \<Rightarrow> string \<Rightarrow> db \<Rightarrow> db option" where
  "concurrentMoves env t a b s =
     (case (checkUpdate a t (setParent b) s, checkUpdate b t (setParent a) s) of
        (Some (Inr _), Some (Inr _)) \<Rightarrow>
          Some (snd (transaction (writeCategory env b (setParent a)) (snd (transaction (writeCategory env a (setParent b)) s))))
      | _ \<Rightarrow> None)"

lemma checkUpdate_setParent:
  assumes "findCategory i t s \<noteq> None" "findCategory p t s = Some c" "ca_parentId c = None" "p \<noteq> i" "p \<noteq> []"
  shows "checkUpdate i t (setParent p) s = Some (Inr ())"
proof -
  have "wouldCreateCycle s t i (Some p) = Some False"
    using assms by (simp add: wouldCreateCycle_up wouldCreateCycle_root nonEmpty_def)
  with assms show ?thesis by (auto simp: checkUpdate_def setParent_def nonEmpty_def)
qed

text \<open>C29: concurrent moves make a request hang forever. From any forest with two top-level categories, after the two
  concurrent moves an update that puts a third category under one of them never returns: its cycle check walks
  around the new cycle.\<close>

theorem concurrent_moves_hang:
  assumes "categoriesOk s" "findCategory a t s = Some x" "findCategory b t s = Some y" "findCategory i t s = Some z"
    and "ca_parentId x = None" "ca_parentId y = None" "distinct [a, b, i]"
    and "distinct (map (\<lambda>c. (ca_tenantId c, ca_slug c)) (categories s))"
  shows "\<exists>s'. concurrentMoves env t a b s = Some s' \<and> updateCategory env' i t (setParent a) s' = None"
proof -
  note iff = findCategory_iff [OF categoriesOk_ids [OF assms(1)]]
  have ne: "a \<noteq> []" "b \<noteq> []" using assms(1-3) by (auto simp: iff categoriesOk_def)
  let ?x = "patched env (setParent b) x" and ?y = "patched env (setParent a) y"
  have byId: "find (\<lambda>c. ca_id c = j) (categories s) = Some c" if "findCategory j t s = Some c" for j c
    using that find_by_key [of ca_id "categories s" c] categoriesOk_ids [OF assms(1)] by (auto simp: iff)
  have free: "\<not> slugTaken j t (ca_slug w) s" if "findCategory j t s = Some w" for j w
    using assms(8) that by (auto simp: iff slugTaken_def list_ex_iff distinct_map inj_on_def)
  let ?s1 = "s\<lparr>categories := updateMany (\<lambda>c. ca_id c = a) (\<lambda>_. ?x) (categories s)\<rparr>"
  let ?s2 = "?s1\<lparr>categories := updateMany (\<lambda>c. ca_id c = b) (\<lambda>_. ?y) (categories ?s1)\<rparr>"
  have ids: "ca_id ?x = a" "ca_tenantId ?x = t" "ca_id ?y = b" "ca_tenantId ?y = t" "ca_slug ?x = ca_slug x" "ca_slug ?y = ca_slug y"
    "ca_parentId ?x = Some b" "ca_parentId ?y = Some a"
    using assms(2,3) by (auto simp: iff patched_def setParent_def)
  have first: "transaction (writeCategory env a (setParent b)) s = (Inr ?x, ?s1)"
    using byId [OF assms(2)] free [OF assms(2)] assms(2,3)
    by (auto simp: writeCategory_def transaction_def monad_defs Let_def ids parentMissing_def list_ex_iff iff)
  have "find (\<lambda>c. ca_id c = b) (categories ?s1) = Some y"
    using byId [OF assms(3)] assms(3,7) ids(1) by (simp, subst find_updateMany) (auto simp: iff)
  moreover have "\<not> slugTaken b t (ca_slug y) ?s1"
    using free [OF assms(3)] assms(2) ids by (auto simp: slugTaken_def list_ex_iff set_updateMany iff)
  moreover have "ca_tenantId y = t" using assms(3) by (simp add: iff)
  moreover have "\<not> parentMissing (Some a) ?s1" using assms(2) ids by (auto simp: parentMissing_def list_ex_iff set_updateMany iff)
  ultimately have second: "transaction (writeCategory env b (setParent a)) ?s1 = (Inr ?y, ?s2)"
    by (simp add: writeCategory_def transaction_def monad_defs Let_def ids)
  have run: "concurrentMoves env t a b s = Some ?s2"
  proof -
    have "checkUpdate a t (setParent b) s = Some (Inr ())"
      by (rule checkUpdate_setParent [OF _ assms(3,6)]) (use assms(2,7) ne in auto)
    moreover have "checkUpdate b t (setParent a) s = Some (Inr ())"
      by (rule checkUpdate_setParent [OF _ assms(2,5)]) (use assms(3,7) ne in auto)
    ultimately show ?thesis using first second by (simp add: concurrentMoves_def)
  qed
  have row: "r = w" if "findCategory j t s = Some w" "r \<in> set (categories s)" "ca_id r = j" for r w j
    using that categoriesOk_ids [OF assms(1)] by (auto simp: iff distinct_map inj_on_def)
  have find1: "findCategory c t ?s1 = map_option (\<lambda>w. if ca_id w = a then ?x else w) (findCategory c t s)" for c
    unfolding findCategory_def using row [OF assms(2)] assms(2) ids(1,2)
    by (simp, subst find_updateMany) (auto simp: iff)
  have find2: "findCategory c t ?s2 = map_option (\<lambda>w. if ca_id w = b then ?y else w) (findCategory c t ?s1)" for c
  proof -
    have s2: "categories ?s2 = updateMany (\<lambda>w. ca_id w = b) (\<lambda>_. ?y) (categories ?s1)" by simp
    have same: "(ca_id ?y = c \<and> ca_tenantId ?y = t) = (ca_id r = c \<and> ca_tenantId r = t)" if "r \<in> set (categories ?s1)" "ca_id r = b" for r
    proof -
      have "r = ?x \<or> r \<in> set (categories s)" using that(1) by (auto simp: set_updateMany)
      then have "r = y" using that(2) ids(1) assms(7) row [OF assms(3)] by auto
      then show ?thesis using ids(3,4) assms(3) by (simp add: iff)
    qed
    show ?thesis unfolding findCategory_def s2 by (rule find_updateMany) (rule same)
  qed
  note find = find2 find1
  have "findCategory a t ?s2 = Some ?x" "findCategory b t ?s2 = Some ?y" "findCategory i t ?s2 = Some z"
  proof -
    have "ca_id x = a" "ca_id y = b" "ca_id z = i" using assms(2-4) by (simp_all add: iff)
    then show "findCategory a t ?s2 = Some ?x" "findCategory b t ?s2 = Some ?y" "findCategory i t ?s2 = Some z"
      unfolding find assms(2-4) using assms(7) ids(1) by auto
  qed
  moreover from this have "wouldCreateCycle ?s2 t i (Some a) = None"
    by (intro wouldCreateCycle_loops [THEN conjunct1, of a t ?s2 ?x b ?y i]) (use ids ne assms(7) in auto)
  ultimately have "updateCategory env' i t (setParent a) ?s2 = None"
    using assms(7) ne by (simp add: updateCategory_def checkUpdate_def setParent_def nonEmpty_def)
  with run show ?thesis by blast
qed

section \<open>The tree\<close>

lemma placeNode_fold:
  "tr_roots (foldl (\<lambda>t c. placeNode ids c t) t0 cs) = tr_roots t0 @
     map ca_id (filter (\<lambda>c. case nonEmpty (ca_parentId c) of None \<Rightarrow> True | Some p \<Rightarrow> p \<notin> ids) cs)"
  "tr_children (foldl (\<lambda>t c. placeNode ids c t) t0 cs) p = tr_children t0 p @
     map ca_id (filter (\<lambda>c. nonEmpty (ca_parentId c) = Some p \<and> p \<in> ids) cs)"
  by (induction cs arbitrary: t0) (auto simp: placeNode_def split: option.split)

inductive shownIn :: "category_tree \<Rightarrow> string \<Rightarrow> bool" for tree where
  Root: "i \<in> set (tr_roots tree) \<Longrightarrow> shownIn tree i"
| Child: "shownIn tree p \<Longrightarrow> i \<in> set (tr_children tree p) \<Longrightarrow> shownIn tree i"

lemma count_filtered:
  "distinct (map key xs) \<Longrightarrow> c \<in> set xs \<Longrightarrow> count_list (map key (filter P xs)) (key c) = (if P c then 1 else 0)"
  by (induction xs) (auto simp: image_iff count_list_0_iff)

text \<open>C30: the tree shows every active category in one place. In a forest each active category of the tenant is reached
  from a root of the tree, and it is listed exactly once: among the roots, or among the children of its
  parent when the parent is active too.\<close>

theorem tree_shows_every_category:
  assumes "categoriesOk s" and "c \<in> set (activeCategories t s)"
  shows "shownIn (getTree t s) (ca_id c)
    \<and> count_list (tr_roots (getTree t s)) (ca_id c)
      + (\<Sum>p \<in> ca_id ` set (activeCategories t s). count_list (tr_children (getTree t s) p) (ca_id c)) = 1"
proof
  let ?cs = "activeCategories t s" and ?T = "getTree t s"
  let ?ids = "ca_id ` set ?cs"
  have roots: "tr_roots ?T = map ca_id (filter (\<lambda>c. case nonEmpty (ca_parentId c) of None \<Rightarrow> True | Some p \<Rightarrow> p \<notin> ?ids) ?cs)"
    and kids: "tr_children ?T p = map ca_id (filter (\<lambda>c. nonEmpty (ca_parentId c) = Some p \<and> p \<in> ?ids) ?cs)" for p
    by (simp_all add: getTree_def placeNode_fold Let_def)
  have mem: "x \<in> set ?cs \<longleftrightarrow> x \<in> set (categories s) \<and> ca_tenantId x = t \<and> ca_isActive x" for x
    by (auto simp: activeCategories_def)
  have ids: "idsOk s" using assms(1) by (simp add: categoriesOk_def)
  then have "distinct (map ca_id (filter (\<lambda>c. ca_tenantId c = t \<and> ca_isActive c) (categories s)))" by (rule distinct_map_filter)
  then have dist: "distinct (map ca_id ?cs)" by (simp add: activeCategories_def distinct_map)
  have shown: "x \<in> set ?cs \<Longrightarrow> ca_id x = i \<Longrightarrow> shownIn ?T i" for x i
    using finite_acyclic_wf [OF finite_parentRel categoriesOk_acyclic [OF assms(1)], of t]
  proof (induction i arbitrary: x rule: wf_induct_rule)
    case (less i)
    show ?case
    proof (cases "\<exists>p \<in> ?ids. nonEmpty (ca_parentId x) = Some p")
      case False
      then have "i \<in> set (tr_roots ?T)" using less.prems by (force simp: roots split: option.split)
      then show ?thesis by (rule shownIn.Root)
    next
      case True
      then obtain y where y: "y \<in> set ?cs" "nonEmpty (ca_parentId x) = Some (ca_id y)" by blast
      have "(ca_id y, i) \<in> parentRel s t"
        using less.prems y(2) by (auto simp: parentRel_iff [OF ids] mem nonEmpty_Some)
      from less.IH [OF this y(1)] have "shownIn ?T (ca_id y)" by simp
      moreover have "i \<in> set (tr_children ?T (ca_id y))" using less.prems y by (auto simp: kids)
      ultimately show ?thesis by (rule shownIn.Child)
    qed
  qed
  then show "shownIn ?T (ca_id c)" using assms(2) by blast
  note one = count_filtered [OF dist assms(2)]
  show "count_list (tr_roots ?T) (ca_id c) + (\<Sum>p \<in> ?ids. count_list (tr_children ?T p) (ca_id c)) = 1"
  proof (cases "nonEmpty (ca_parentId c)")
    case None
    then show ?thesis by (simp add: roots kids one)
  next
    case (Some q)
    have "(\<Sum>p \<in> ?ids. count_list (tr_children ?T p) (ca_id c)) = (\<Sum>p \<in> ?ids. if p = q then 1 else 0)"
      by (intro sum.cong) (auto simp: kids one Some)
    then show ?thesis by (simp add: roots one Some)
  qed
qed

section \<open>The theorems on a small shop\<close>

definition demoCategory :: "string \<Rightarrow> string option \<Rightarrow> category_row" where
  "demoCategory i p = \<lparr>ca_id = i, ca_tenantId = ''t'', ca_parentId = p, ca_name = i, ca_slug = i, ca_description = None,
     ca_sortOrder = 0, ca_isActive = True, ca_createdAt = 0, ca_updatedAt = 0\<rparr>"

definition categoryDb :: db where
  "categoryDb = demoDb\<lparr>categories := [demoCategory ''tea'' None, demoCategory ''cups'' None, demoCategory ''green'' (Some ''tea'')]\<rparr>"

lemma categoryDb_ok: "categoriesOk categoryDb"
proof -
  have "parentRel categoryDb t \<subseteq> {(''tea'', ''green'')}" for t
    by (auto simp: parentRel_def findCategory_def categoryDb_def demoCategory_def nonEmpty_def split: if_splits)
  then have "acyclic (parentRel categoryDb t)" for t
    by (rule acyclic_subset [rotated]) (simp add: acyclic_insert wf_acyclic)
  then show ?thesis by (simp add: categoriesOk_def) (simp add: categoryDb_def demoCategory_def)
qed

lemma category_requests_return_witness:
  "\<exists>s'. serveCategories [(''t'', ReqUpdate demoEnv ''tea'' (setParent ''green'')), (''t'', ReqUpdate demoEnv ''tea'' (setParent ''cups'')),
      (''t'', ReqDelete ''cups'')] categoryDb = Some s' \<and> categoriesOk s'"
  by (rule category_requests_return [OF categoryDb_ok]) simp

lemma concurrent_moves_hang_witness:
  "\<exists>s'. concurrentMoves demoEnv ''t'' ''tea'' ''cups'' categoryDb = Some s'
     \<and> updateCategory demoEnv ''green'' ''t'' (setParent ''tea'') s' = None"
proof -
  have "findCategory ''tea'' ''t'' categoryDb = Some (demoCategory ''tea'' None)" "findCategory ''cups'' ''t'' categoryDb = Some (demoCategory ''cups'' None)"
    "findCategory ''green'' ''t'' categoryDb = Some (demoCategory ''green'' (Some ''tea''))"
    by (simp_all add: findCategory_def categoryDb_def demoCategory_def)
  from concurrent_moves_hang [OF categoryDb_ok this, of demoEnv demoEnv] show ?thesis
    by (simp add: demoCategory_def categoryDb_def)
qed

lemma tree_shows_every_category_witness:
  "shownIn (getTree ''t'' categoryDb) ''green''"
proof -
  have "demoCategory ''green'' (Some ''tea'') \<in> set (activeCategories ''t'' categoryDb)"
    by (simp add: activeCategories_def categoryDb_def demoCategory_def)
  from tree_shows_every_category [OF categoryDb_ok this] show ?thesis by (simp add: demoCategory_def)
qed

end
