(* ===== verification/Idempotency.thy ===== *)
theory Idempotency
  imports Schema AuditLog
begin

text \<open>
  Requests that must not run twice: the \<open>Idempotency-Key\<close> middleware
  (src/src/common/middleware/idempotency.js) and the nightly cleanup of its table
  (src/src/jobs/processors/cleanup.processor.js). The middleware of one request runs in several database
  operations, and requests interleave between them, so the system is a step relation: each step is one
  database operation of one request, the handler's answer, a crash of the process, the cleanup, or the clock.
  SHA-256 of the serialised body is a parameter.
\<close>

section \<open>Rows and requests\<close>

record idem_row =
  ik_scopeId :: string
  ik_key :: string
  ik_route :: string
  ik_requestHash :: string
  ik_statusCode :: "nat option"
  ik_response :: jsval
  ik_createdAt :: int

record idem_request =
  rq_key :: "string option"
  rq_scope :: "string option"
  rq_method :: string
  rq_baseUrl :: string
  rq_routePath :: "string option"
  rq_path :: string
  rq_body :: jsval

text \<open>What the middleware keeps of a request with a usable key.\<close>

record keyed =
  ky_scopeId :: string
  ky_key :: string
  ky_route :: string
  ky_requestHash :: string

definition idemKeyChar :: "char \<Rightarrow> bool" where
  "idemKeyChar c =
     (let n = of_char c :: nat in is_digit c \<or> (65 \<le> n \<and> n \<le> 90) \<or> (97 \<le> n \<and> n \<le> 122) \<or> c \<in> set ''_.:-'')"

definition keyPattern :: "string \<Rightarrow> bool" where
  "keyPattern key \<longleftrightarrow> 8 \<le> length key \<and> length key \<le> 255 \<and> list_all idemKeyChar key"

definition hashOf :: "(jsval \<Rightarrow> string) \<Rightarrow> idem_request \<Rightarrow> string" where
  "hashOf sha req = sha (jsNullish (rq_body req) (JObj []))"

definition routeOf :: "idem_request \<Rightarrow> string" where
  "routeOf req = rq_method req @ '' '' @ rq_baseUrl req
     @ (case rq_routePath req of Some p \<Rightarrow> p | None \<Rightarrow> rq_path req)"

text \<open>Before the database: no key (or no scope) runs the request unguarded.\<close>

datatype admission = Plain | Malformed error | Keyed keyed

definition admit :: "(jsval \<Rightarrow> string) \<Rightarrow> idem_request \<Rightarrow> admission" where
  "admit sha req = (case nonEmpty (rq_key req) of
      None \<Rightarrow> Plain
    | Some key \<Rightarrow>
        if \<not> keyPattern key then Malformed (AppError 400 ''INVALID_IDEMPOTENCY_KEY'')
        else (case nonEmpty (rq_scope req) of
            None \<Rightarrow> Plain
          | Some scope \<Rightarrow> Keyed \<lparr>ky_scopeId = scope, ky_key = key, ky_route = routeOf req, ky_requestHash = hashOf sha req\<rparr>))"

section \<open>The database operations\<close>

definition isKey :: "keyed \<Rightarrow> idem_row \<Rightarrow> bool" where
  "isKey k r \<longleftrightarrow> ik_scopeId r = ky_scopeId k \<and> ik_key r = ky_key k"

definition claimRow :: "int \<Rightarrow> keyed \<Rightarrow> idem_row" where
  "claimRow now k = \<lparr>ik_scopeId = ky_scopeId k, ik_key = ky_key k, ik_route = ky_route k,
     ik_requestHash = ky_requestHash k, ik_statusCode = None, ik_response = JNull, ik_createdAt = now\<rparr>"

text \<open>\<open>INSERT ... ON CONFLICT DO NOTHING\<close>: the number of rows inserted, and the table.\<close>

definition claimKey :: "int \<Rightarrow> keyed \<Rightarrow> idem_row list \<Rightarrow> nat \<times> idem_row list" where
  "claimKey now k rows = (if list_ex (isKey k) rows then (0, rows) else (1, rows @ [claimRow now k]))"

datatype reply = R_Error error | R_Replay nat jsval

definition answerRepeat :: "keyed \<Rightarrow> idem_row list \<Rightarrow> reply" where
  "answerRepeat k rows = (case find (isKey k) rows of
      None \<Rightarrow> R_Error (AppError 409 ''IDEMPOTENCY_RETRY'')
    | Some existing \<Rightarrow>
        if ik_route existing \<noteq> ky_route k \<or> ik_requestHash existing \<noteq> ky_requestHash k
        then R_Error (AppError 422 ''IDEMPOTENCY_KEY_REUSED'')
        else (case ik_statusCode existing of
            None \<Rightarrow> R_Error (AppError 409 ''IDEMPOTENCY_IN_PROGRESS'')
          | Some status \<Rightarrow> R_Replay status (ik_response existing)))"

definition is2xx :: "nat \<Rightarrow> bool" where
  "is2xx status \<longleftrightarrow> 200 \<le> status \<and> status < 300"

text \<open>The answer of the handler: a 2xx is kept for replay, anything else frees the key. The failure of the
  update or deletion of a row that is gone is only logged.\<close>

definition recordResult :: "keyed \<Rightarrow> nat \<Rightarrow> jsval \<Rightarrow> idem_row list \<Rightarrow> idem_row list" where
  "recordResult k status body rows =
     (if is2xx status then updateMany (isKey k) (\<lambda>r. r\<lparr>ik_statusCode := Some status, ik_response := body\<rparr>) rows
      else deleteMany (isKey k) rows)"

definition IDEMPOTENCY_RETENTION_HOURS :: int where
  "IDEMPOTENCY_RETENTION_HOURS = 24"

definition retention :: int where
  "retention = IDEMPOTENCY_RETENTION_HOURS * 60 * 60 * 1000"

definition forgetOld :: "int \<Rightarrow> string option \<Rightarrow> idem_row list \<Rightarrow> idem_row list" where
  "forgetOld now tenantId rows =
     deleteMany (\<lambda>r. ik_createdAt r < now - retention
       \<and> (case nonEmpty tenantId of None \<Rightarrow> True | Some t \<Rightarrow> ik_scopeId r = t)) rows"

section \<open>Requests interleave\<close>

text \<open>
  How far a request is: not arrived, running unguarded, refused, with its key before and after a lost claim,
  running with the key it claimed at a time, answered by its handler, answered for an earlier request, or dead
  with its process.
\<close>

datatype phase =
    P_New
  | P_Plain
  | P_Refused error
  | P_Keyed keyed
  | P_Repeat keyed
  | P_Running keyed int
  | P_Ran keyed int nat jsval
  | P_Answered keyed reply
  | P_Died keyed int

definition entered :: "admission \<Rightarrow> phase" where
  "entered a = (case a of Plain \<Rightarrow> P_Plain | Malformed e \<Rightarrow> P_Refused e | Keyed k \<Rightarrow> P_Keyed k)"

record idem_world =
  iw_rows :: "idem_row list"
  iw_now :: int
  iw_phase :: "nat \<Rightarrow> phase"

definition goTo :: "nat \<Rightarrow> phase \<Rightarrow> idem_world \<Rightarrow> idem_world" where
  "goTo n p w = w\<lparr>iw_phase := (iw_phase w)(n := p)\<rparr>"

text \<open>
  A handler that claimed a key answers within the retention or never: a day is far longer than a request.
  Recording the answer may fail, which leaves the table as it was.
\<close>

inductive idemStep :: "(jsval \<Rightarrow> string) \<Rightarrow> idem_world \<Rightarrow> idem_world \<Rightarrow> bool" for sha where
  Admit: "iw_phase w n = P_New \<Longrightarrow> idemStep sha w (goTo n (entered (admit sha req)) w)"
| Claim: "iw_phase w n = P_Keyed k \<Longrightarrow> claimKey (iw_now w) k (iw_rows w) = (claimed, rows) \<Longrightarrow>
    idemStep sha w (goTo n (if claimed = 0 then P_Repeat k else P_Running k (iw_now w)) (w\<lparr>iw_rows := rows\<rparr>))"
| Look: "iw_phase w n = P_Repeat k \<Longrightarrow> idemStep sha w (goTo n (P_Answered k (answerRepeat k (iw_rows w))) w)"
| Broken: "iw_phase w n = P_Keyed k \<or> iw_phase w n = P_Repeat k \<Longrightarrow> idemStep sha w (goTo n (P_Refused e) w)"
| Finish: "iw_phase w n = P_Running k c \<Longrightarrow> iw_now w - c \<le> retention \<Longrightarrow>
    idemStep sha w (goTo n (P_Ran k c status body) (w\<lparr>iw_rows := recordResult k status body (iw_rows w)\<rparr>))"
| Unrecorded: "iw_phase w n = P_Running k c \<Longrightarrow> idemStep sha w (goTo n (P_Ran k c status body) w)"
| Crash: "iw_phase w n = P_Running k c \<Longrightarrow> idemStep sha w (goTo n (P_Died k c) w)"
| Clock: "iw_now w \<le> t \<Longrightarrow> idemStep sha w (w\<lparr>iw_now := t\<rparr>)"
| Cleanup: "idemStep sha w (w\<lparr>iw_rows := forgetOld (iw_now w) tenantId (iw_rows w)\<rparr>)"

inductive idemReach :: "(jsval \<Rightarrow> string) \<Rightarrow> idem_world \<Rightarrow> bool" for sha where
  Start: "idemReach sha \<lparr>iw_rows = [], iw_now = t, iw_phase = (\<lambda>_. P_New)\<rparr>"
| Step: "idemReach sha w \<Longrightarrow> idemStep sha w w' \<Longrightarrow> idemReach sha w'"

section \<open>The invariant\<close>

text \<open>A request holds its key from the claim on, unless its handler answered with a failure.\<close>

fun holds :: "phase \<Rightarrow> (keyed \<times> int) option" where
  "holds (P_Running k c) = Some (k, c)"
| "holds (P_Died k c) = Some (k, c)"
| "holds (P_Ran k c status body) = (if is2xx status then Some (k, c) else None)"
| "holds _ = None"

definition sameKey :: "keyed \<Rightarrow> keyed \<Rightarrow> bool" where
  "sameKey k k' \<longleftrightarrow> ky_scopeId k = ky_scopeId k' \<and> ky_key k = ky_key k'"

definition keyedOf :: "idem_row \<Rightarrow> keyed" where
  "keyedOf r = \<lparr>ky_scopeId = ik_scopeId r, ky_key = ik_key r, ky_route = ik_route r, ky_requestHash = ik_requestHash r\<rparr>"

text \<open>The row of a holder: open while it runs, possibly with its answer afterwards.\<close>

fun rowAnswer :: "phase \<Rightarrow> idem_row \<Rightarrow> bool" where
  "rowAnswer (P_Ran k c status body) r \<longleftrightarrow> ik_statusCode r = None \<or> ik_statusCode r = Some status \<and> ik_response r = body"
| "rowAnswer _ r \<longleftrightarrow> ik_statusCode r = None"

definition holderOk :: "idem_world \<Rightarrow> phase \<Rightarrow> bool" where
  "holderOk w p \<longleftrightarrow> (\<forall>k c. holds p = Some (k, c) \<longrightarrow> c \<le> iw_now w
     \<and> (iw_now w - c \<le> retention \<longrightarrow> (\<exists>r \<in> set (iw_rows w). keyedOf r = k \<and> ik_createdAt r = c \<and> rowAnswer p r)))"

definition apart :: "idem_world \<Rightarrow> bool" where
  "apart w \<longleftrightarrow> (\<forall>n m k c k' c'. n \<noteq> m \<longrightarrow> holds (iw_phase w n) = Some (k, c) \<longrightarrow> holds (iw_phase w m) = Some (k', c')
     \<longrightarrow> sameKey k k' \<longrightarrow> retention < \<bar>c - c'\<bar>)"

definition ranWith :: "idem_world \<Rightarrow> keyed \<Rightarrow> nat \<Rightarrow> jsval \<Rightarrow> bool" where
  "ranWith w k status body \<longleftrightarrow> is2xx status \<and> (\<exists>n c. iw_phase w n = P_Ran k c status body)"

definition idemOk :: "idem_world \<Rightarrow> bool" where
  "idemOk w \<longleftrightarrow> distinct (map (\<lambda>r. (ik_scopeId r, ik_key r)) (iw_rows w))
     \<and> (\<forall>n. holderOk w (iw_phase w n))
     \<and> apart w
     \<and> (\<forall>r \<in> set (iw_rows w). \<forall>status. ik_statusCode r = Some status \<longrightarrow> ranWith w (keyedOf r) status (ik_response r))
     \<and> (\<forall>n k status body. iw_phase w n = P_Answered k (R_Replay status body) \<longrightarrow> ranWith w k status body)"

lemma goTo_simps [simp]:
  "iw_rows (goTo n p w) = iw_rows w" "iw_now (goTo n p w) = iw_now w"
  "iw_phase (goTo n p w) = (iw_phase w)(n := p)"
  by (simp_all add: goTo_def)

lemma keyedOf_simps [simp]:
  "ky_scopeId (keyedOf r) = ik_scopeId r" "ky_key (keyedOf r) = ik_key r" "keyedOf (claimRow c k) = k"
  "isKey k r \<longleftrightarrow> sameKey k (keyedOf r)"
  by (auto simp: keyedOf_def claimRow_def isKey_def sameKey_def)

lemma sameKey_simps [simp]: "sameKey k k" "sameKey k k' \<longleftrightarrow> sameKey k' k"
  by (auto simp: sameKey_def)

lemma ranWith_goTo:
  "ranWith w k status body \<Longrightarrow> (\<And>k c st b. iw_phase w n \<noteq> P_Ran k c st b) \<Longrightarrow>
     ranWith (goTo n p (w\<lparr>iw_rows := rows\<rparr>)) k status body"
  by (fastforce simp: ranWith_def)

lemma ranWith_frame [simp]:
  "ranWith (w\<lparr>iw_rows := rows\<rparr>) = ranWith w" "ranWith (w\<lparr>iw_now := t\<rparr>) = ranWith w"
  by (simp_all add: ranWith_def fun_eq_iff)

lemma same_row:
  "idemOk w \<Longrightarrow> r \<in> set (iw_rows w) \<Longrightarrow> r' \<in> set (iw_rows w) \<Longrightarrow> sameKey (keyedOf r) (keyedOf r') \<Longrightarrow> r = r'"
  by (auto simp: idemOk_def sameKey_def distinct_map inj_on_def)

lemma idemOk_I:
  assumes "distinct (map (\<lambda>r. (ik_scopeId r, ik_key r)) (iw_rows w))" "\<And>n. holderOk w (iw_phase w n)" "apart w"
    and "\<And>r status. r \<in> set (iw_rows w) \<Longrightarrow> ik_statusCode r = Some status \<Longrightarrow> ranWith w (keyedOf r) status (ik_response r)"
    and "\<And>n k status body. iw_phase w n = P_Answered k (R_Replay status body) \<Longrightarrow> ranWith w k status body"
  shows "idemOk w"
  using assms unfolding idemOk_def by blast

lemma idemOk_D:
  assumes "idemOk w"
  shows "distinct (map (\<lambda>r. (ik_scopeId r, ik_key r)) (iw_rows w))" "holderOk w (iw_phase w n)" "apart w"
    and "r \<in> set (iw_rows w) \<Longrightarrow> ik_statusCode r = Some status \<Longrightarrow> ranWith w (keyedOf r) status (ik_response r)"
    and "iw_phase w n = P_Answered k (R_Replay status body) \<Longrightarrow> ranWith w k status body"
  using assms unfolding idemOk_def by blast+

lemma apart_goTo:
  assumes "apart w"
    and "\<And>m k c k' c'. m \<noteq> n \<Longrightarrow> holds p = Some (k, c) \<Longrightarrow> holds (iw_phase w m) = Some (k', c') \<Longrightarrow> sameKey k k' \<Longrightarrow> retention < \<bar>c - c'\<bar>"
  shows "apart (goTo n p (w\<lparr>iw_rows := rows\<rparr>))"
  unfolding apart_def
proof (intro allI impI)
  fix i m k c k' c'
  assume *: "i \<noteq> m" "holds (iw_phase (goTo n p (w\<lparr>iw_rows := rows\<rparr>)) i) = Some (k, c)"
    "holds (iw_phase (goTo n p (w\<lparr>iw_rows := rows\<rparr>)) m) = Some (k', c')" "sameKey k k'"
  then consider "i = n" "m \<noteq> n" | "i \<noteq> n" "m = n" | "i \<noteq> n" "m \<noteq> n" by auto
  then show "retention < \<bar>c - c'\<bar>"
  proof cases
    case 1
    with * assms(2) [of m k c k' c'] show ?thesis by simp
  next
    case 2
    with * assms(2) [of i k' c' k c] show ?thesis by (simp add: abs_minus_commute)
  next
    case 3
    with * have "holds (iw_phase w i) = Some (k, c)" "holds (iw_phase w m) = Some (k', c')" by simp_all
    with *(1,4) assms(1) show ?thesis unfolding apart_def by blast
  qed
qed

lemma held_row:
  assumes "idemOk w" "holds (iw_phase w n) = Some (k, c)"
  shows "c \<le> iw_now w"
    and "iw_now w - c \<le> retention \<Longrightarrow> \<exists>r \<in> set (iw_rows w). keyedOf r = k \<and> ik_createdAt r = c \<and> rowAnswer (iw_phase w n) r"
  using idemOk_D(2) [OF assms(1), of n] assms(2) unfolding holderOk_def by blast+

lemma held_apart:
  "idemOk w \<Longrightarrow> n \<noteq> m \<Longrightarrow> holds (iw_phase w n) = Some (k, c) \<Longrightarrow> holds (iw_phase w m) = Some (k', c') \<Longrightarrow> sameKey k k'
     \<Longrightarrow> retention < \<bar>c - c'\<bar>"
  using idemOk_D(3) unfolding apart_def by blast

text \<open>A step of one request that leaves the table alone and keeps or gives up its claim.\<close>

lemma idemOk_goTo:
  assumes "idemOk w" "\<And>k c st b. iw_phase w n \<noteq> P_Ran k c st b"
    and "holds p = None \<or> holds p = holds (iw_phase w n) \<and> (\<forall>r. ik_statusCode r = None \<longrightarrow> rowAnswer p r)"
    and "\<And>k st b. p = P_Answered k (R_Replay st b) \<Longrightarrow> ranWith w k st b"
  shows "idemOk (goTo n p w)"
proof -
  have ran: "ranWith (goTo n p w) k st b" if "ranWith w k st b" for k st b
    using ranWith_goTo [of w k st b n p "iw_rows w"] that assms(2) by simp
  have unanswered: "rowAnswer (iw_phase w n) r \<Longrightarrow> ik_statusCode r = None" for r
    using assms(2) by (cases "iw_phase w n") auto
  show ?thesis
  proof (rule idemOk_I)
    show "distinct (map (\<lambda>r. (ik_scopeId r, ik_key r)) (iw_rows (goTo n p w)))" using idemOk_D(1) [OF assms(1)] by simp
    show "holderOk (goTo n p w) (iw_phase (goTo n p w) m)" for m
    proof (cases "m = n")
      case True
      have "holderOk w (iw_phase w n)" by (rule idemOk_D(2) [OF assms(1)])
      with assms(3) unanswered True show ?thesis unfolding holderOk_def by (auto, blast)
    next
      case False
      then show ?thesis using idemOk_D(2) [OF assms(1), of m] by (simp add: holderOk_def)
    qed
    have "apart (goTo n p (w\<lparr>iw_rows := iw_rows w\<rparr>))"
      by (rule apart_goTo [OF idemOk_D(3) [OF assms(1)]]) (metis assms(3) held_apart [OF assms(1), of n] option.distinct(1))
    then show "apart (goTo n p w)" by simp
    show "ranWith (goTo n p w) (keyedOf r) st (ik_response r)" if "r \<in> set (iw_rows (goTo n p w))" "ik_statusCode r = Some st" for r st
      using idemOk_D(4) [OF assms(1)] that ran by simp
    show "ranWith (goTo n p w) k st b" if "iw_phase (goTo n p w) m = P_Answered k (R_Replay st b)" for m k st b
      using idemOk_D(5) [OF assms(1), of m] assms(4) that ran by (cases "m = n") simp_all
  qed
qed

lemma idemOk_claim:
  assumes "idemOk w" "iw_phase w n = P_Keyed k" "\<not> list_ex (isKey k) (iw_rows w)"
  shows "idemOk (goTo n (P_Running k (iw_now w)) (w\<lparr>iw_rows := iw_rows w @ [claimRow (iw_now w) k]\<rparr>))" (is "idemOk ?w")
proof (rule idemOk_I)
  have new: "r \<in> set (iw_rows w) \<Longrightarrow> \<not> sameKey k (keyedOf r)" for r using assms(3) by (auto simp: list_ex_iff)
  have ran: "ranWith ?w j st b" if "ranWith w j st b" for j st b by (rule ranWith_goTo [OF that]) (simp add: assms(2))
  have far: "retention < \<bar>iw_now w - c\<bar>" if "holds (iw_phase w m) = Some (j, c)" "sameKey k j" for m j c
  proof (rule ccontr)
    assume "\<not> ?thesis"
    then have "iw_now w - c \<le> retention" by (simp add: not_less)
    with held_row(2) [OF assms(1) that(1)] new that(2) show False by auto
  qed
  show "distinct (map (\<lambda>r. (ik_scopeId r, ik_key r)) (iw_rows ?w))"
    using idemOk_D(1) [OF assms(1)] new by (force simp: sameKey_def claimRow_def)
  show "holderOk ?w (iw_phase ?w m)" for m
  proof (cases "m = n")
    case True
    then show ?thesis by (simp add: holderOk_def) (simp add: claimRow_def)
  next
    case False
    then show ?thesis using idemOk_D(2) [OF assms(1), of m] unfolding holderOk_def by auto
  qed
  show "apart ?w" by (rule apart_goTo [OF idemOk_D(3) [OF assms(1)]]) (use far in auto)
  show "ranWith ?w (keyedOf r) st (ik_response r)" if "r \<in> set (iw_rows ?w)" "ik_statusCode r = Some st" for r st
    using idemOk_D(4) [OF assms(1), of r st] that ran by (auto simp: claimRow_def)
  show "ranWith ?w j st b" if "iw_phase ?w m = P_Answered j (R_Replay st b)" for m j st b
    using idemOk_D(5) [OF assms(1), of m] that ran by (auto split: if_splits)
qed

lemma recordResult_mem:
  assumes "idemOk w" "r0 \<in> set (iw_rows w)" "keyedOf r0 = k"
  shows "set (recordResult k status body (iw_rows w)) = (set (iw_rows w) - {r0})
       \<union> (if is2xx status then {r0\<lparr>ik_statusCode := Some status, ik_response := body\<rparr>} else {})"
proof -
  have own: "isKey k r \<longleftrightarrow> r = r0" if "r \<in> set (iw_rows w)" for r
    using same_row [OF assms(1) that assms(2)] assms(3) by auto
  show ?thesis
  proof (cases "is2xx status")
    case True
    then have "set (recordResult k status body (iw_rows w))
        = (\<lambda>r. if r = r0 then r\<lparr>ik_statusCode := Some status, ik_response := body\<rparr> else r) ` set (iw_rows w)"
      unfolding recordResult_def set_updateMany using own by (simp only: True if_True set_updateMany) (rule image_cong, simp_all)
    with True assms(2) show ?thesis by auto
  next
    case False
    then have "set (recordResult k status body (iw_rows w)) = {r \<in> set (iw_rows w). \<not> isKey k r}"
      by (simp add: recordResult_def deleteMany_def del: keyedOf_simps)
    with False own show ?thesis by auto
  qed
qed

lemma recordResult_keys:
  "distinct (map (\<lambda>r. (ik_scopeId r, ik_key r)) rows) \<Longrightarrow> distinct (map (\<lambda>r. (ik_scopeId r, ik_key r)) (recordResult k status body rows))"
  unfolding recordResult_def deleteMany_def by (simp add: map_updateMany distinct_map_filter)

lemma idemOk_finish:
  assumes "idemOk w" "iw_phase w n = P_Running k c" "iw_now w - c \<le> retention"
  shows "idemOk (goTo n (P_Ran k c status body) (w\<lparr>iw_rows := recordResult k status body (iw_rows w)\<rparr>))" (is "idemOk ?w")
proof (rule idemOk_I)
  have held: "holds (iw_phase w n) = Some (k, c)" by (simp add: assms(2))
  obtain r0 where r0: "r0 \<in> set (iw_rows w)" "keyedOf r0 = k" "ik_createdAt r0 = c" "ik_statusCode r0 = None"
    using held_row(2) [OF assms(1) held assms(3)] assms(2) by auto
  note rows = recordResult_mem [OF assms(1) r0(1,2), of status body]
  have ran: "ranWith ?w j st b" if "ranWith w j st b" for j st b by (rule ranWith_goTo [OF that]) (simp add: assms(2))
  show "distinct (map (\<lambda>r. (ik_scopeId r, ik_key r)) (iw_rows ?w))"
    using recordResult_keys [OF idemOk_D(1) [OF assms(1)]] by simp
  show "holderOk ?w (iw_phase ?w m)" for m
  proof (cases "m = n")
    case True
    then show ?thesis using r0 held_row(1) [OF assms(1) held] rows by (simp add: holderOk_def) (simp add: keyedOf_def)
  next
    case False
    show ?thesis
      unfolding holderOk_def
    proof (intro allI impI conjI)
      fix k' c'
      assume "holds (iw_phase ?w m) = Some (k', c')"
      then have m: "holds (iw_phase w m) = Some (k', c')" using False by simp
      show "c' \<le> iw_now ?w" using held_row(1) [OF assms(1) m] by simp
      assume "iw_now ?w - c' \<le> retention"
      then obtain r where r: "r \<in> set (iw_rows w)" "keyedOf r = k'" "ik_createdAt r = c'" "rowAnswer (iw_phase w m) r"
        and near: "\<not> retention < \<bar>c - c'\<bar>"
        using held_row(2) [OF assms(1) m] held_row(1) [OF assms(1) m] held_row(1) [OF assms(1) held] assms(3) by auto
      have "r \<noteq> r0" using held_apart [OF assms(1) False m held] r(2) r0(2) near by (auto simp: abs_minus_commute)
      then show "\<exists>r \<in> set (iw_rows ?w). keyedOf r = k' \<and> ik_createdAt r = c' \<and> rowAnswer (iw_phase ?w m) r"
        using r False rows by (intro bexI [of _ r]) simp_all
    qed
  qed
  show "apart ?w"
    by (rule apart_goTo [OF idemOk_D(3) [OF assms(1)]]) (metis held_apart [OF assms(1) _ held] holds.simps(3) option.inject option.distinct(1) prod.inject)
  show "ranWith ?w (keyedOf r) st (ik_response r)" if "r \<in> set (iw_rows ?w)" "ik_statusCode r = Some st" for r st
  proof (cases "r \<in> set (iw_rows w)")
    case True
    then show ?thesis using idemOk_D(4) [OF assms(1) True that(2)] ran by simp
  next
    case False
    then have "is2xx status" "r = r0\<lparr>ik_statusCode := Some status, ik_response := body\<rparr>"
      using that(1) rows by (auto split: if_splits)
    with that(2) r0(2) show ?thesis by (auto simp: ranWith_def keyedOf_def)
  qed
  show "ranWith ?w j st b" if "iw_phase ?w m = P_Answered j (R_Replay st b)" for m j st b
    using idemOk_D(5) [OF assms(1), of m] that ran by (auto split: if_splits)
qed

lemma idemOk_clock:
  assumes "idemOk w" "iw_now w \<le> t"
  shows "idemOk (w\<lparr>iw_now := t\<rparr>)"
proof (rule idemOk_I)
  show "holderOk (w\<lparr>iw_now := t\<rparr>) (iw_phase (w\<lparr>iw_now := t\<rparr>) n)" for n
    using idemOk_D(2) [OF assms(1), of n] assms(2) unfolding holderOk_def by fastforce
qed (use idemOk_D [OF assms(1)] in \<open>simp_all add: apart_def\<close>)

lemma idemOk_cleanup:
  assumes "idemOk w"
  shows "idemOk (w\<lparr>iw_rows := forgetOld (iw_now w) tenantId (iw_rows w)\<rparr>)" (is "idemOk ?w")
proof (rule idemOk_I)
  have kept: "r \<in> set (iw_rows ?w)" if "r \<in> set (iw_rows w)" "iw_now w - ik_createdAt r \<le> retention" for r
    using that by (simp add: forgetOld_def deleteMany_def)
  show "holderOk ?w (iw_phase ?w n)" for n
    using idemOk_D(2) [OF assms(1), of n] kept unfolding holderOk_def by simp blast
  show "distinct (map (\<lambda>r. (ik_scopeId r, ik_key r)) (iw_rows ?w))"
    using idemOk_D(1) [OF assms(1)] by (simp add: forgetOld_def deleteMany_def distinct_map_filter)
  show "ranWith ?w (keyedOf r) st (ik_response r)" if "r \<in> set (iw_rows ?w)" "ik_statusCode r = Some st" for r st
    using idemOk_D(4) [OF assms(1), of r st] that by (simp add: forgetOld_def deleteMany_def)
qed (use idemOk_D [OF assms(1)] in \<open>simp_all add: apart_def\<close>)

lemma answerRepeat_replay:
  assumes "idemOk w" "answerRepeat k (iw_rows w) = R_Replay st b"
  shows "ranWith w k st b"
proof -
  obtain r where r: "find (isKey k) (iw_rows w) = Some r" "ik_route r = ky_route k" "ik_requestHash r = ky_requestHash k"
      "ik_statusCode r = Some st" "b = ik_response r"
    using assms(2) by (auto simp: answerRepeat_def split: option.splits if_splits)
  from find_SomeD [OF r(1)] have "r \<in> set (iw_rows w)" "keyedOf r = k"
    using r(2,3) by (auto simp: keyedOf_def sameKey_def)
  with idemOk_D(4) [OF assms(1)] r(4,5) show ?thesis by blast
qed

lemma idemStep_keeps:
  assumes "idemStep sha w w'" "idemOk w"
  shows "idemOk w'"
  using assms(1)
proof cases
  case (Admit n req)
  then show ?thesis using assms(2) by (auto intro!: idemOk_goTo simp: entered_def split: admission.splits)
next
  case (Claim n k claimed rows)
  show ?thesis
  proof (cases "list_ex (isKey k) (iw_rows w)")
    case True
    then show ?thesis using Claim assms(2) by (auto intro!: idemOk_goTo simp: claimKey_def)
  next
    case False
    then show ?thesis using Claim idemOk_claim [OF assms(2) _ False] by (simp add: claimKey_def split: if_splits)
  qed
next
  case (Look n k)
  then show ?thesis using assms(2) answerRepeat_replay by (auto intro!: idemOk_goTo)
next
  case (Broken n k e)
  then show ?thesis using assms(2) by (auto intro!: idemOk_goTo)
next
  case (Unrecorded n k c status body)
  then show ?thesis using assms(2) by (auto intro!: idemOk_goTo split: if_splits)
next
  case (Crash n k c)
  then show ?thesis using assms(2) by (auto intro!: idemOk_goTo)
qed (use assms(2) idemOk_finish idemOk_clock idemOk_cleanup in blast)+

lemma idemReach_ok:
  assumes "idemReach sha w"
  shows "idemOk w"
  using assms
proof induction
  case (Start t)
  show ?case by (rule idemOk_I) (simp_all add: holderOk_def apart_def)
next
  case (Step w w')
  then show ?case using idemStep_keeps by blast
qed

section \<open>Never twice\<close>

text \<open>C15: a key runs a request at most once a day. Whatever requests with one key arrive, in whatever order their
  steps interleave, and whatever crashes, recording failures and cleanups happen, two of them that were let
  through and are running, died or succeeded claimed the key more than the retention of 24 hours apart.\<close>

theorem key_runs_once:
  assumes "idemReach sha w" "n \<noteq> m"
    and "holds (iw_phase w n) = Some (k, c)" "holds (iw_phase w m) = Some (k', c')"
    and "ky_scopeId k = ky_scopeId k'" "ky_key k = ky_key k'"
  shows "24 * 60 * 60 * 1000 < \<bar>c - c'\<bar>"
  using held_apart [OF idemReach_ok [OF assms(1)] assms(2-4)] assms(5,6)
  by (simp add: sameKey_def retention_def IDEMPOTENCY_RETENTION_HOURS_def)

text \<open>C16: a repeat gets the first answer. A replayed answer is the successful answer of another request with the same
  key, scope, route and body hash, in every interleaving.\<close>

theorem replay_is_first_answer:
  assumes "idemReach sha w" "iw_phase w m = P_Answered k (R_Replay status body)"
  shows "is2xx status \<and> (\<exists>n c. n \<noteq> m \<and> iw_phase w n = P_Ran k c status body)"
proof -
  obtain n c where run: "is2xx status" "iw_phase w n = P_Ran k c status body"
    using idemOk_D(5) [OF idemReach_ok [OF assms(1)] assms(2)] by (auto simp: ranWith_def)
  with assms(2) have "n \<noteq> m" by auto
  with run show ?thesis by blast
qed

text \<open>A failed run frees the key: the next claim of the key is the first one again. A dead run keeps it: the
  same request is told for a day that it is still being processed.\<close>

lemma failed_run_frees_key:
  "\<not> is2xx status \<Longrightarrow> ky_scopeId k' = ky_scopeId k \<Longrightarrow> ky_key k' = ky_key k \<Longrightarrow>
     fst (claimKey now k' (recordResult k status body rows)) = 1"
  by (auto simp: claimKey_def recordResult_def deleteMany_def list_ex_iff isKey_def simp del: keyedOf_simps)

lemma dead_run_blocks_key:
  assumes "idemReach sha w" "iw_phase w n = P_Died k c" "iw_now w - c \<le> retention"
  shows "answerRepeat k (iw_rows w) = R_Error (AppError 409 ''IDEMPOTENCY_IN_PROGRESS'')"
proof -
  note ok = idemReach_ok [OF assms(1)]
  obtain r where r: "r \<in> set (iw_rows w)" "keyedOf r = k" "ik_statusCode r = None"
    using held_row(2) [OF ok, of n k c] assms(2,3) by auto
  obtain r' where f: "find (isKey k) (iw_rows w) = Some r'"
    using r(1,2) find_Some_ex [of r "iw_rows w" "isKey k"] by auto
  with find_SomeD [OF f] r same_row [OF ok] have "r' = r" by (auto simp: sameKey_def)
  with f r(2,3) show ?thesis by (auto simp: answerRepeat_def keyedOf_def)
qed

section \<open>A double click\<close>

definition demoIdem :: idem_request where
  "demoIdem = \<lparr>rq_key = Some ''checkout-1'', rq_scope = Some ''t'', rq_method = ''POST'', rq_baseUrl = ''/orders'',
     rq_routePath = Some ''/'', rq_path = ''/'', rq_body = JUndef\<rparr>"

definition demoKeyed :: keyed where
  "demoKeyed = \<lparr>ky_scopeId = ''t'', ky_key = ''checkout-1'', ky_route = ''POST /orders/'', ky_requestHash = ''h''\<rparr>"

definition demoRow :: idem_row where
  "demoRow = (claimRow 0 demoKeyed)\<lparr>ik_statusCode := Some 201, ik_response := JNull\<rparr>"

lemma demoIdem_admit: "entered (admit (\<lambda>_. ''h'') demoIdem) = P_Keyed demoKeyed"
  by code_simp

text \<open>Request 0 runs and is answered; request 1, the same one, gets the answer; request 2, the day after
  the cleanup, runs again.\<close>

definition clickedOnce :: idem_world where
  "clickedOnce = \<lparr>iw_rows = [demoRow], iw_now = 0, iw_phase = (\<lambda>_. P_New)(0 := P_Ran demoKeyed 0 201 JNull)\<rparr>"

definition clickedTwice :: idem_world where
  "clickedTwice = goTo 1 (P_Answered demoKeyed (R_Replay 201 JNull)) clickedOnce"

definition nextDay :: int where
  "nextDay = 24 * 60 * 60 * 1000 + 1"

definition clickedLater :: idem_world where
  "clickedLater = goTo 2 (P_Running demoKeyed nextDay) (clickedTwice\<lparr>iw_now := nextDay, iw_rows := [claimRow nextDay demoKeyed]\<rparr>)"

lemma reach_admit:
  "idemReach (\<lambda>_. ''h'') w \<Longrightarrow> iw_phase w n = P_New \<Longrightarrow> idemReach (\<lambda>_. ''h'') (goTo n (P_Keyed demoKeyed) w)"
  using idemReach.Step [OF _ Admit [of w n "\<lambda>_. ''h''" demoIdem]] demoIdem_admit by metis

lemma goTo_goTo [simp]: "goTo n p (goTo n q w) = goTo n p w"
  by (simp add: goTo_def)

lemma reach_once: "idemReach (\<lambda>_. ''h'') clickedOnce"
proof -
  let ?w = "\<lparr>iw_rows = [], iw_now = 0, iw_phase = (\<lambda>_. P_New)\<rparr>"
  have "idemReach (\<lambda>_. ''h'') (goTo 0 (P_Keyed demoKeyed) ?w)" by (rule reach_admit) (simp_all add: idemReach.Start)
  then have "idemReach (\<lambda>_. ''h'') (goTo 0 (P_Running demoKeyed 0) (?w\<lparr>iw_rows := [claimRow 0 demoKeyed]\<rparr>))"
    by (rule idemReach.Step) (use Claim [of "goTo 0 (P_Keyed demoKeyed) ?w" 0 demoKeyed 1 "[claimRow 0 demoKeyed]"] in
      \<open>simp add: claimKey_def goTo_def\<close>)
  then have "idemReach (\<lambda>_. ''h'') (goTo 0 (P_Ran demoKeyed 0 201 JNull) (?w\<lparr>iw_rows := [demoRow]\<rparr>))"
    by (rule idemReach.Step) (use Finish [of "goTo 0 (P_Running demoKeyed 0) (?w\<lparr>iw_rows := [claimRow 0 demoKeyed]\<rparr>)" 0 demoKeyed 0 _ 201 JNull] in
      \<open>simp add: recordResult_def is2xx_def goTo_def demoRow_def retention_def IDEMPOTENCY_RETENTION_HOURS_def\<close>)
  then show ?thesis by (simp add: clickedOnce_def goTo_def)
qed

lemma reach_twice: "idemReach (\<lambda>_. ''h'') clickedTwice"
proof -
  have hit: "list_ex (isKey demoKeyed) [demoRow]" "answerRepeat demoKeyed [demoRow] = R_Replay 201 JNull" by code_simp+
  have "idemReach (\<lambda>_. ''h'') (goTo 1 (P_Keyed demoKeyed) clickedOnce)"
    by (rule reach_admit [OF reach_once]) (simp add: clickedOnce_def)
  then have "idemReach (\<lambda>_. ''h'') (goTo 1 (P_Repeat demoKeyed) clickedOnce)"
    by (rule idemReach.Step) (use Claim [of "goTo 1 (P_Keyed demoKeyed) clickedOnce" 1 demoKeyed 0 "[demoRow]"] hit(1) in
      \<open>simp add: claimKey_def clickedOnce_def goTo_def del: keyedOf_simps\<close>)
  then show ?thesis
    unfolding clickedTwice_def
    by (rule idemReach.Step) (use Look [of "goTo 1 (P_Repeat demoKeyed) clickedOnce" 1 demoKeyed] hit(2) in
      \<open>simp add: clickedOnce_def goTo_def\<close>)
qed

lemma reach_later: "idemReach (\<lambda>_. ''h'') clickedLater"
proof -
  have gone: "forgetOld nextDay None [demoRow] = []" by code_simp
  have "idemReach (\<lambda>_. ''h'') (clickedTwice\<lparr>iw_now := nextDay\<rparr>)"
    by (rule idemReach.Step [OF reach_twice Clock]) (simp add: clickedTwice_def clickedOnce_def nextDay_def)
  then have "idemReach (\<lambda>_. ''h'') (clickedTwice\<lparr>iw_now := nextDay, iw_rows := []\<rparr>)"
    by (rule idemReach.Step) (use Cleanup [where w = "clickedTwice\<lparr>iw_now := nextDay\<rparr>" and tenantId = None] gone in
      \<open>simp add: clickedTwice_def clickedOnce_def\<close>)
  then have "idemReach (\<lambda>_. ''h'') (goTo 2 (P_Keyed demoKeyed) (clickedTwice\<lparr>iw_now := nextDay, iw_rows := []\<rparr>))"
    by (rule reach_admit) (simp add: clickedTwice_def clickedOnce_def)
  then show ?thesis
    by (rule idemReach.Step)
      (use Claim [of "goTo 2 (P_Keyed demoKeyed) (clickedTwice\<lparr>iw_now := nextDay, iw_rows := []\<rparr>)" 2 demoKeyed 1 "[claimRow nextDay demoKeyed]"] in
      \<open>simp add: claimKey_def clickedLater_def goTo_def\<close>)
qed

lemma key_runs_once_witness:
  "24 * 60 * 60 * 1000 < \<bar>nextDay - 0\<bar> \<and> holds (iw_phase clickedLater 2) = Some (demoKeyed, nextDay)
    \<and> holds (iw_phase clickedLater 0) = Some (demoKeyed, 0)"
proof -
  have "holds (iw_phase clickedLater 2) = Some (demoKeyed, nextDay)" "holds (iw_phase clickedLater 0) = Some (demoKeyed, 0)"
    by (simp_all add: clickedLater_def clickedTwice_def clickedOnce_def is2xx_def)
  with key_runs_once [OF reach_later, of 2 0 demoKeyed nextDay demoKeyed 0] show ?thesis by simp
qed

lemma replay_is_first_answer_witness:
  "is2xx 201 \<and> (\<exists>n c. n \<noteq> 1 \<and> iw_phase clickedTwice n = P_Ran demoKeyed c 201 JNull)"
  using replay_is_first_answer [OF reach_twice, of 1 demoKeyed 201 JNull] by (simp add: clickedTwice_def)

end
