(* ===== verification/CashRegister.thy ===== *)
theory CashRegister
  imports Inventory
begin

text \<open>
  The cash drawer of a shop counter (src/src/modules/pos/cash-register.service.js): counters, the shifts
  opened on them, the cash that goes in and out, and the count at the end. The tables are the \<open>registers\<close>,
  \<open>cashSessions\<close> and \<open>cashMovements\<close> of the database state; a movement is a row that is only ever added.
\<close>

section \<open>Reading a shift\<close>

definition DEFAULT_REGISTER :: string where
  "DEFAULT_REGISTER = ''Main counter''"

record session_totals =
  st_openingFloat :: string
  st_cashSales :: string
  st_cashRefunds :: string
  st_cashIn :: string
  st_cashOut :: string
  st_expectedCash :: string

text \<open>The loop over the movements, and the totals by type.\<close>

definition addByType :: "(cash_type \<Rightarrow> paise) \<Rightarrow> cash_movement_row \<Rightarrow> cash_type \<Rightarrow> paise" where
  "addByType acc m = acc(cm_type m := acc (cm_type m) + cents (decToString (cm_amount m)))"

definition sessionTotals :: "cash_session_row \<Rightarrow> cash_movement_row list \<Rightarrow> session_totals" where
  "sessionTotals session ms =
     (let total = foldl addByType (\<lambda>_. 0) ms;
          opening = cents (decToString (cs_openingFloat session));
          expected = opening + total C_SALE - total C_REFUND + total C_CASH_IN - total C_CASH_OUT
      in \<lparr>st_openingFloat = money opening, st_cashSales = money (total C_SALE), st_cashRefunds = money (total C_REFUND),
          st_cashIn = money (total C_CASH_IN), st_cashOut = money (total C_CASH_OUT), st_expectedCash = money expected\<rparr>)"

record shift_view =
  sv_session :: cash_session_row
  sv_registerName :: "string option"
  sv_totals :: session_totals
  sv_movements :: "cash_movement_row list"

definition toSession :: "cash_session_row \<Rightarrow> string option \<Rightarrow> cash_movement_row list \<Rightarrow> shift_view" where
  "toSession session registerName ms =
     \<lparr>sv_session = session, sv_registerName = registerName, sv_totals = sessionTotals session ms, sv_movements = ms\<rparr>"

text \<open>The relations \<open>include: { register: true, movements: true }\<close> of a shift.\<close>

definition registerName :: "string \<Rightarrow> db \<Rightarrow> string option" where
  "registerName i s = map_option rg_name (find (\<lambda>r. rg_id r = i) (registers s))"

definition movementsOf :: "string \<Rightarrow> db \<Rightarrow> cash_movement_row list" where
  "movementsOf sessionId s = filter (\<lambda>m. cm_sessionId m = sessionId) (cashMovements s)"

definition viewSession :: "cash_session_row \<Rightarrow> db \<Rightarrow> shift_view" where
  "viewSession session s = toSession session (registerName (cs_registerId session) s) (movementsOf (cs_id session) s)"

definition findRegister :: "string \<Rightarrow> string \<Rightarrow> bool \<Rightarrow> db \<Rightarrow> register_row option" where
  "findRegister i tenantId onlyActive s =
     find (\<lambda>r. rg_id r = i \<and> rg_tenantId r = tenantId \<and> (onlyActive \<longrightarrow> rg_isActive r)) (registers s)"

definition findSession :: "string \<Rightarrow> string \<Rightarrow> db \<Rightarrow> cash_session_row option" where
  "findSession i tenantId s = find (\<lambda>x. cs_id x = i \<and> cs_tenantId x = tenantId) (cashSessions s)"

definition openSessionFor :: "string \<Rightarrow> string \<Rightarrow> db \<Rightarrow> cash_session_row option" where
  "openSessionFor tenantId registerId s =
     find (\<lambda>x. cs_tenantId x = tenantId \<and> cs_registerId x = registerId \<and> cs_status x = S_OPEN) (cashSessions s)"

abbreviation registerNotFound :: error where
  "registerNotFound \<equiv> AppError 404 ''REGISTER_NOT_FOUND''"

abbreviation cashSessionNotFound :: error where
  "cashSessionNotFound \<equiv> AppError 404 ''CASH_SESSION_NOT_FOUND''"

section \<open>Writes\<close>

definition registerLog ::
  "env \<Rightarrow> audit_context \<Rightarrow> string \<Rightarrow> string \<Rightarrow> string \<Rightarrow> jsval \<Rightarrow> jsval \<Rightarrow> string \<Rightarrow> string \<Rightarrow> unit dbtx" where
  "registerLog env ctx tenantId action resourceId oldValue newValue activity description =
     thenT (logAudit env ctx tenantId action ''cash_register'' (Some resourceId) oldValue newValue)
       (logActivity env ctx tenantId activity description (JObj [(''resourceId'', JStr resourceId)]))"

definition insertRegister :: "env \<Rightarrow> string \<Rightarrow> string \<Rightarrow> register_row dbtx" where
  "insertRegister env tenantId name = bindT (freshId env) (\<lambda>i.
     bindT (readT (\<lambda>s. list_ex (\<lambda>r. rg_id r = i \<or> rg_tenantId r = tenantId \<and> rg_name r = name) (registers s))) (\<lambda>clash.
     thenT (throwIfT clash uniqueViolation)
    (let row = \<lparr>rg_id = i, rg_tenantId = tenantId, rg_name = name, rg_isActive = True, rg_createdAt = env_now env\<rparr>
     in thenT (writeT (\<lambda>s. s\<lparr>registers := registers s @ [row]\<rparr>)) (returnT row))))"

text \<open>A new shift; the partial unique index allows one open shift per register.\<close>

definition insertSession ::
  "env \<Rightarrow> string \<Rightarrow> string \<Rightarrow> paise \<Rightarrow> string option \<Rightarrow> string option \<Rightarrow> cash_session_row dbtx" where
  "insertSession env tenantId registerId openingFloat openedBy note = bindT (freshId env) (\<lambda>i.
     bindT (readT (\<lambda>s. list_ex (\<lambda>x. cs_id x = i \<or> cs_registerId x = registerId \<and> cs_status x = S_OPEN) (cashSessions s))) (\<lambda>clash.
     thenT (throwIfT clash uniqueViolation)
    (let row = \<lparr>cs_id = i, cs_tenantId = tenantId, cs_registerId = registerId, cs_status = S_OPEN,
          cs_openingFloat = openingFloat, cs_expectedCash = None, cs_countedCash = None, cs_variance = None,
          cs_openedBy = openedBy, cs_openedAt = env_now env, cs_closedBy = None, cs_closedAt = None, cs_note = note\<rparr>
     in thenT (writeT (\<lambda>s. s\<lparr>cashSessions := cashSessions s @ [row]\<rparr>)) (returnT row))))"

definition insertCashMovement :: "env \<Rightarrow> cash_movement_row \<Rightarrow> unit dbtx" where
  "insertCashMovement env m = bindT (freshId env) (\<lambda>i.
     bindT (readT (\<lambda>s. list_ex (\<lambda>x. cm_id x = i) (cashMovements s))) (\<lambda>clash.
     thenT (throwIfT clash uniqueViolation)
       (writeT (\<lambda>s. s\<lparr>cashMovements := cashMovements s @ [m\<lparr>cm_id := i\<rparr>]\<rparr>))))"

section \<open>Counters\<close>

text \<open>The oldest active counter, or a new one; after a clash of names the one of that name.\<close>

definition ensureDefaultRegister :: "env \<Rightarrow> string \<Rightarrow> register_row option dbio" where
  "ensureDefaultRegister env tenantId =
     bindH (readH (\<lambda>s. sort_key rg_createdAt (filter (\<lambda>r. rg_tenantId r = tenantId \<and> rg_isActive r) (registers s)))) (\<lambda>found.
     case found of
       existing # _ \<Rightarrow> returnH (Some existing)
     | [] \<Rightarrow>
         catchH (bindH (transaction (insertRegister env tenantId DEFAULT_REGISTER)) (\<lambda>r. returnH (Some r)))
           (\<lambda>err. if isUniqueViolation err
             then readH (\<lambda>s. find (\<lambda>r. rg_tenantId r = tenantId \<and> rg_name r = DEFAULT_REGISTER) (registers s))
             else throwH err))"

definition listRegisters :: "env \<Rightarrow> string \<Rightarrow> (register_row \<times> shift_view option) list dbio" where
  "listRegisters env tenantId =
     thenH (ensureDefaultRegister env tenantId)
       (readH (\<lambda>s. map (\<lambda>r. (r, map_option (\<lambda>x. toSession x None (movementsOf (cs_id x) s))
            (find (\<lambda>x. cs_registerId x = rg_id r \<and> cs_status x = S_OPEN) (cashSessions s))))
          (sort_key rg_createdAt (filter (\<lambda>r. rg_tenantId r = tenantId \<and> rg_isActive r) (registers s)))))"

definition createRegister :: "env \<Rightarrow> string \<Rightarrow> string \<Rightarrow> audit_context \<Rightarrow> register_row dbio" where
  "createRegister env tenantId name ctx =
     catchH (transaction (bindT (insertRegister env tenantId name) (\<lambda>r.
        thenT (registerLog env ctx tenantId ''CREATE'' (rg_id r) JNull (JObj [(''name'', JStr name)]) ''cash_register.create''
            (''Counter \"'' @ name @ ''\" added''))
          (returnT r))))
       (\<lambda>err. throwH (if isUniqueViolation err then AppError 409 ''REGISTER_NAME_EXISTS'' else err))"

section \<open>Shifts\<close>

text \<open>The rupee sign as its UTF-8 bytes, and an amount as the descriptions print it.\<close>

definition rupees :: "string \<Rightarrow> string" where
  "rupees amount = [CHR 0xE2, CHR 0x82, CHR 0xB9] @ money (cents amount)"

definition openRegister ::
  "env \<Rightarrow> string \<Rightarrow> string \<Rightarrow> string option \<Rightarrow> string option \<Rightarrow> audit_context \<Rightarrow> shift_view dbio" where
  "openRegister env tenantId registerId float note ctx =
     (let openingFloat = orEmpty (coalesce float (Some ''0'')) in
      bindH (readH (findRegister registerId tenantId True)) (\<lambda>found.
      bindH (orThrowH found registerNotFound) (\<lambda>register.
      catchH (transaction (bindT (insertSession env tenantId registerId (cents openingFloat) (cx_userId ctx) note) (\<lambda>session.
         thenT (registerLog env ctx tenantId ''CREATE'' (cs_id session) JNull
             (JObj [(''registerId'', JStr registerId), (''openingFloat'', JStr openingFloat)]) ''cash_register.open''
             (rg_name register @ '' opened with '' @ rupees openingFloat))
           (readT (viewSession session)))))
        (\<lambda>err. throwH (if isUniqueViolation err then AppError 409 ''REGISTER_ALREADY_OPEN'' else err)))))"

definition currentSession :: "string \<Rightarrow> string \<Rightarrow> shift_view option dbio" where
  "currentSession tenantId registerId =
     bindH (readH (findRegister registerId tenantId False)) (\<lambda>found.
     thenH (throwIfH (found = None) registerNotFound)
       (readH (\<lambda>s. map_option (\<lambda>x. viewSession x s) (openSessionFor tenantId registerId s))))"

definition getSession :: "string \<Rightarrow> string \<Rightarrow> shift_view dbio" where
  "getSession tenantId sessionId =
     bindH (readH (findSession sessionId tenantId)) (\<lambda>found.
     bindH (orThrowH found cashSessionNotFound) (\<lambda>x. readH (viewSession x)))"

definition listShifts :: "string \<Rightarrow> string option \<Rightarrow> nat \<Rightarrow> nat \<Rightarrow> db \<Rightarrow> shift_view list \<times> nat" where
  "listShifts tenantId registerId page limit s =
     (let rows = filter (\<lambda>x. cs_tenantId x = tenantId
            \<and> (case nonEmpty registerId of None \<Rightarrow> True | Some r \<Rightarrow> cs_registerId x = r)) (cashSessions s)
      in (map (\<lambda>x. viewSession x s)
            (take limit (drop ((page - 1) * limit) (sort_key (\<lambda>x. - cs_openedAt x) rows))), length rows))"

text \<open>An optional text as a property that is \<open>undefined\<close> when absent.\<close>

definition jsOptional :: "string option \<Rightarrow> jsval" where
  "jsOptional x = (case x of None \<Rightarrow> JUndef | Some v \<Rightarrow> JStr v)"

definition cash_type_str :: "cash_type \<Rightarrow> string" where
  "cash_type_str ty = (case ty of C_SALE \<Rightarrow> ''SALE'' | C_REFUND \<Rightarrow> ''REFUND'' | C_CASH_IN \<Rightarrow> ''CASH_IN'' | C_CASH_OUT \<Rightarrow> ''CASH_OUT'')"

text \<open>The shift as the transaction reads it under the row lock, and the two refusals.\<close>

definition lockOpenSession :: "string \<Rightarrow> string \<Rightarrow> cash_session_row dbtx" where
  "lockOpenSession tenantId sessionId =
     bindT (readT (findSession sessionId tenantId)) (\<lambda>found.
     bindT (orThrowT found cashSessionNotFound) (\<lambda>session.
     thenT (throwIfT (cs_status session \<noteq> S_OPEN) (AppError 409 ''CASH_SESSION_CLOSED'')) (returnT session)))"

definition expectedCents :: "cash_session_row \<Rightarrow> db \<Rightarrow> paise" where
  "expectedCents session s = cents (st_expectedCash (sessionTotals session (movementsOf (cs_id session) s)))"

text \<open>The shift read once more for the answer.\<close>

definition reread :: "string \<Rightarrow> shift_view dbtx" where
  "reread sessionId =
     bindT (readT (\<lambda>s. find (\<lambda>x. cs_id x = sessionId) (cashSessions s))) (\<lambda>found.
     bindT (orThrowT found (JsError ''Cannot destructure null'')) (\<lambda>x. readT (viewSession x)))"

definition addMovementTx ::
  "env \<Rightarrow> string \<Rightarrow> string \<Rightarrow> cash_type \<Rightarrow> string \<Rightarrow> string option \<Rightarrow> audit_context \<Rightarrow> shift_view dbtx" where
  "addMovementTx env tenantId sessionId ty amount reason ctx =
     bindT (lockOpenSession tenantId sessionId) (\<lambda>session.
     bindT (readT (expectedCents session)) (\<lambda>expected.
     thenT (throwIfT (ty = C_CASH_OUT \<and> expected < cents amount) (AppError 409 ''INSUFFICIENT_CASH''))
    (thenT (insertCashMovement env \<lparr>cm_id = [], cm_tenantId = tenantId, cm_sessionId = sessionId, cm_type = ty,
        cm_amount = cents amount, cm_reason = reason, cm_orderId = None, cm_paymentId = None, cm_createdBy = cx_userId ctx\<rparr>)
    (bindT (readT (registerName (cs_registerId session))) (\<lambda>name.
     thenT (registerLog env ctx tenantId ''UPDATE'' sessionId JNull
        (JObj [(''type'', JStr (cash_type_str ty)), (''amount'', JStr amount), (''reason'', jsOptional reason)])
        (if ty = C_CASH_IN then ''cash_register.cash_in'' else ''cash_register.cash_out'')
        ((if ty = C_CASH_IN then ''Cash in'' else ''Cash out'') @ '' '' @ rupees amount @ '' at '' @ orEmpty name
           @ (case nonEmpty reason of None \<Rightarrow> [] | Some r \<Rightarrow> '': '' @ r)))
      (reread sessionId))))))"

definition addMovement ::
  "env \<Rightarrow> string \<Rightarrow> string \<Rightarrow> cash_type \<Rightarrow> string \<Rightarrow> string option \<Rightarrow> audit_context \<Rightarrow> shift_view dbio" where
  "addMovement env tenantId sessionId ty amount reason ctx =
     transaction (addMovementTx env tenantId sessionId ty amount reason ctx)"

definition closedRow :: "env \<Rightarrow> audit_context \<Rightarrow> paise \<Rightarrow> string \<Rightarrow> string option \<Rightarrow> cash_session_row \<Rightarrow> cash_session_row" where
  "closedRow env ctx expected countedCash note x = x\<lparr>cs_status := S_CLOSED, cs_expectedCash := Some expected,
     cs_countedCash := Some (cents countedCash), cs_variance := Some (cents countedCash - expected),
     cs_closedBy := cx_userId ctx, cs_closedAt := Some (env_now env),
     cs_note := (case note of None \<Rightarrow> cs_note x | Some n \<Rightarrow> Some n)\<rparr>"

definition varianceText :: "paise \<Rightarrow> string" where
  "varianceText variance =
     (if variance = 0 then []
      else '' ('' @ (if 0 < variance then ''over'' else ''short'') @ '' '' @ rupees (money \<bar>variance\<bar>) @ '')'')"

definition closeSessionTx ::
  "env \<Rightarrow> string \<Rightarrow> string \<Rightarrow> string \<Rightarrow> string option \<Rightarrow> audit_context \<Rightarrow> shift_view dbtx" where
  "closeSessionTx env tenantId sessionId countedCash note ctx =
     bindT (lockOpenSession tenantId sessionId) (\<lambda>session.
     bindT (readT (expectedCents session)) (\<lambda>expected.
     let variance = cents countedCash - expected in
     thenT (writeT (\<lambda>s. s\<lparr>cashSessions := updateMany (\<lambda>x. cs_id x = sessionId) (closedRow env ctx expected countedCash note) (cashSessions s)\<rparr>))
    (bindT (readT (registerName (cs_registerId session))) (\<lambda>name.
     thenT (registerLog env ctx tenantId ''UPDATE'' sessionId (JObj [(''status'', JStr ''OPEN'')])
        (JObj [(''status'', JStr ''CLOSED''), (''expectedCash'', JStr (money expected)), (''countedCash'', JStr countedCash),
          (''variance'', JStr (money variance))]) ''cash_register.close''
        (orEmpty name @ '' closed: expected '' @ rupees (money expected) @ '', counted '' @ rupees countedCash
          @ varianceText variance))
      (reread sessionId)))))"

definition closeSession ::
  "env \<Rightarrow> string \<Rightarrow> string \<Rightarrow> string \<Rightarrow> string option \<Rightarrow> audit_context \<Rightarrow> shift_view dbio" where
  "closeSession env tenantId sessionId countedCash note ctx =
     transaction (closeSessionTx env tenantId sessionId countedCash note ctx)"

text \<open>A cash sale lands in the shift it is given, whatever the shift's status is by then.\<close>

definition recordSale ::
  "env \<Rightarrow> string \<Rightarrow> string \<Rightarrow> paise \<Rightarrow> string \<Rightarrow> string \<Rightarrow> string option \<Rightarrow> unit dbtx" where
  "recordSale env tenantId sessionId amount orderId paymentId userId =
     insertCashMovement env \<lparr>cm_id = [], cm_tenantId = tenantId, cm_sessionId = sessionId, cm_type = C_SALE,
       cm_amount = amount, cm_reason = None, cm_orderId = Some orderId, cm_paymentId = Some paymentId, cm_createdBy = userId\<rparr>"

section \<open>The drawer as a ledger\<close>

text \<open>
  A ledger: entries are posted to an account and never changed, and what an account holds is the sum of its
  signed entries. The movements of the shifts are one.
\<close>

locale posting_ledger =
  fixes entries :: "'k \<Rightarrow> 's \<Rightarrow> 'e list" and signed :: "'e \<Rightarrow> int" and accountOf :: "'e \<Rightarrow> 'k" and post :: "'e \<Rightarrow> 's \<Rightarrow> 's"
  assumes entries_post: "entries k (post e s) = (if accountOf e = k then entries k s @ [e] else entries k s)"
begin

definition posted :: "'k \<Rightarrow> 's \<Rightarrow> int" where
  "posted k s = sum_list (map signed (entries k s))"

lemma posted_post: "posted k (post e s) = posted k s + (if accountOf e = k then signed e else 0)"
  by (simp add: posted_def entries_post)

lemma posted_posts:
  "posted k (fold post es s) = posted k s + sum_list (map signed (filter (\<lambda>e. accountOf e = k) es))"
  by (induction es arbitrary: s) (simp_all add: posted_post)

end

definition signedAmount :: "cash_movement_row \<Rightarrow> paise" where
  "signedAmount m = (if cm_type m \<in> {C_SALE, C_CASH_IN} then cm_amount m else - cm_amount m)"

definition postMovement :: "cash_movement_row \<Rightarrow> db \<Rightarrow> db" where
  "postMovement m s = s\<lparr>cashMovements := cashMovements s @ [m]\<rparr>"

interpretation cash_ledger: posting_ledger movementsOf signedAmount cm_sessionId postMovement
  by unfold_locales (simp add: movementsOf_def postMovement_def)

lemma foldl_addByType:
  "foldl addByType acc ms ty = acc ty + sum_list (map cm_amount (filter (\<lambda>m. cm_type m = ty) ms))"
  by (induction ms arbitrary: acc) (auto simp: addByType_def cents_decToString_aux)

lemma totals_signed:
  "sum_list (map cm_amount (filter (\<lambda>m. cm_type m = C_SALE) ms)) - sum_list (map cm_amount (filter (\<lambda>m. cm_type m = C_REFUND) ms))
     + sum_list (map cm_amount (filter (\<lambda>m. cm_type m = C_CASH_IN) ms)) - sum_list (map cm_amount (filter (\<lambda>m. cm_type m = C_CASH_OUT) ms))
     = sum_list (map signedAmount ms)"
proof (induction ms)
  case (Cons m ms)
  then show ?case by (cases "cm_type m") (simp_all add: signedAmount_def)
qed simp

text \<open>What should be in the drawer of a shift.\<close>

definition balance :: "cash_session_row \<Rightarrow> db \<Rightarrow> paise" where
  "balance x s = cs_openingFloat x + cash_ledger.posted (cs_id x) s"

lemma expected_money: "st_expectedCash (sessionTotals x (movementsOf (cs_id x) s)) = money (balance x s)"
  unfolding balance_def cash_ledger.posted_def totals_signed [symmetric]
  by (simp add: sessionTotals_def Let_def foldl_addByType cents_decToString_aux algebra_simps)

lemma expectedCents_balance: "expectedCents x s = balance x s"
  by (simp add: expectedCents_def expected_money cents_money_aux)

section \<open>What the operations do\<close>

text \<open>The abstract drawer of a shift: absent, open with so much cash expected, or counted.\<close>

datatype drawer = NoDrawer | Drawer paise | Counted paise paise

definition drawerOf :: "string \<Rightarrow> string \<Rightarrow> db \<Rightarrow> drawer" where
  "drawerOf tenantId i s = (case findSession i tenantId s of
      None \<Rightarrow> NoDrawer
    | Some x \<Rightarrow> (if cs_status x = S_OPEN then Drawer (balance x s)
        else Counted (case cs_expectedCash x of None \<Rightarrow> 0 | Some e \<Rightarrow> e) (case cs_countedCash x of None \<Rightarrow> 0 | Some c \<Rightarrow> c)))"

definition specMove :: "cash_type \<Rightarrow> paise \<Rightarrow> drawer \<Rightarrow> error + drawer" where
  "specMove ty a d = (case d of
      NoDrawer \<Rightarrow> Inl cashSessionNotFound
    | Counted e c \<Rightarrow> Inl (AppError 409 ''CASH_SESSION_CLOSED'')
    | Drawer b \<Rightarrow> (if ty = C_CASH_OUT \<and> b < a then Inl (AppError 409 ''INSUFFICIENT_CASH'')
        else Inr (Drawer (if ty \<in> {C_SALE, C_CASH_IN} then b + a else b - a))))"

definition specClose :: "paise \<Rightarrow> drawer \<Rightarrow> error + drawer" where
  "specClose counted d = (case d of
      NoDrawer \<Rightarrow> Inl cashSessionNotFound
    | Counted e c \<Rightarrow> Inl (AppError 409 ''CASH_SESSION_CLOSED'')
    | Drawer b \<Rightarrow> Inr (Counted b counted))"

lemma findSession_SomeD: "findSession i t s = Some x \<Longrightarrow> x \<in> set (cashSessions s) \<and> cs_id x = i \<and> cs_tenantId x = t"
  by (auto simp: findSession_def dest: find_SomeD)

lemma registerLog_ok:
  "t \<noteq> [] \<Longrightarrow> a \<noteq> [] \<Longrightarrow> v \<noteq> [] \<Longrightarrow> \<exists>al ac. registerLog env ctx t a i ov nv v d s = Inr ((), s\<lparr>auditLogs := al, activityLogs := ac\<rparr>)"
  using logAudit_ok [of t a "''cash_register''" env ctx "Some i" ov nv s]
    logActivity_ok [of t v env ctx d "JObj [(''resourceId'', JStr i)]"]
  by (fastforce simp: registerLog_def outcome)

lemma insertCashMovement_eq:
  "insertCashMovement env m s =
     (let i = env_uuid env (drawn s) in
      if list_ex (\<lambda>x. cm_id x = i) (cashMovements s) then Inl uniqueViolation
      else Inr ((), postMovement (m\<lparr>cm_id := i\<rparr>) (s\<lparr>drawn := Suc (drawn s)\<rparr>)))"
  by (simp add: insertCashMovement_def freshId_def monad_defs postMovement_def Let_def)

lemma movementsOf_frame:
  "cashMovements s' = cashMovements s \<Longrightarrow> movementsOf i s' = movementsOf i s"
  by (simp add: movementsOf_def)

lemma balance_frame: "cashMovements s' = cashMovements s \<Longrightarrow> balance x s' = balance x s"
  by (simp add: balance_def cash_ledger.posted_def movementsOf_def)

lemma balance_post: "balance x (postMovement m s) = balance x s + (if cm_sessionId m = cs_id x then signedAmount m else 0)"
  by (simp add: balance_def cash_ledger.posted_post)

lemma drawerOf_frame:
  "cashSessions s' = cashSessions s \<Longrightarrow> cashMovements s' = cashMovements s \<Longrightarrow> drawerOf t i s' = drawerOf t i s"
  using balance_frame [of s' s] by (simp add: drawerOf_def findSession_def split: option.split cong: if_cong)

lemma drawerOf_post:
  "drawerOf t j (postMovement m s) =
     (case drawerOf t j s of Drawer b \<Rightarrow> Drawer (if cm_sessionId m = j then b + signedAmount m else b) | d \<Rightarrow> d)"
proof -
  have same: "findSession j t (postMovement m s) = findSession j t s" by (simp add: findSession_def postMovement_def)
  show ?thesis
    using findSession_SomeD [of j t s] by (cases "findSession j t s") (auto simp: drawerOf_def same balance_post)
qed

lemma fresh_movement:
  "\<forall>m \<in> set (cashMovements s). cm_id m \<noteq> env_uuid env (drawn s) \<Longrightarrow> insertCashMovement env m s
     = Inr ((), postMovement (m\<lparr>cm_id := env_uuid env (drawn s)\<rparr>) (s\<lparr>drawn := Suc (drawn s)\<rparr>))"
  by (auto simp: insertCashMovement_eq Let_def list_ex_iff)

definition movementRow :: "string \<Rightarrow> string \<Rightarrow> string \<Rightarrow> cash_type \<Rightarrow> paise \<Rightarrow> string option \<Rightarrow> audit_context \<Rightarrow> cash_movement_row" where
  "movementRow i t sid ty a reason ctx = \<lparr>cm_id = i, cm_tenantId = t, cm_sessionId = sid, cm_type = ty, cm_amount = a,
     cm_reason = reason, cm_orderId = None, cm_paymentId = None, cm_createdBy = cx_userId ctx\<rparr>"

lemma lockOpenSession_eq:
  "lockOpenSession t i s = (case findSession i t s of
      None \<Rightarrow> Inl cashSessionNotFound
    | Some x \<Rightarrow> (if cs_status x \<noteq> S_OPEN then Inl (AppError 409 ''CASH_SESSION_CLOSED'') else Inr (x, s)))"
  by (simp add: lockOpenSession_def monad_defs split: option.split)

lemma find_session_by_id:
  assumes "distinct (map cs_id xs)" "x \<in> set xs"
  shows "find (\<lambda>y. cs_id y = cs_id x) xs = Some x"
  using assms by (induction xs) auto

lemma throwIfT_False: "\<not> b \<Longrightarrow> throwIfT b e s = Inr ((), s)"
  by (simp add: monad_defs)

lemma addMovementTx_open:
  assumes "t \<noteq> []" "distinct (map cs_id (cashSessions s))" "\<forall>m \<in> set (cashMovements s). cm_id m \<noteq> env_uuid env (drawn s)"
    and "findSession i t s = Some x" "cs_status x = S_OPEN" "\<not> (ty = C_CASH_OUT \<and> balance x s < cents amount)"
  shows "\<exists>al ac s'. s' = (postMovement (movementRow (env_uuid env (drawn s)) t i ty (cents amount) reason ctx)
      (s\<lparr>drawn := Suc (drawn s)\<rparr>))\<lparr>auditLogs := al, activityLogs := ac\<rparr>
    \<and> addMovementTx env t i ty amount reason ctx s = Inr (viewSession x s', s')"
proof -
  let ?m = "movementRow (env_uuid env (drawn s)) t i ty (cents amount) reason ctx"
  let ?s1 = "postMovement ?m (s\<lparr>drawn := Suc (drawn s)\<rparr>)"
  let ?v = "if ty = C_CASH_IN then ''cash_register.cash_in'' else ''cash_register.cash_out''"
  have x: "x \<in> set (cashSessions s)" "cs_id x = i" using findSession_SomeD [OF assms(4)] by simp_all
  have f: "find (\<lambda>y. cs_id y = i) (cashSessions s) = Some x" using find_session_by_id [OF assms(2) x(1)] x(2) by simp
  obtain al ac where log: "registerLog env ctx t ''UPDATE'' i JNull
        (JObj [(''type'', JStr (cash_type_str ty)), (''amount'', JStr amount), (''reason'', jsOptional reason)]) ?v
        ((if ty = C_CASH_IN then ''Cash in'' else ''Cash out'') @ '' '' @ rupees amount @ '' at ''
           @ orEmpty (registerName (cs_registerId x) ?s1) @ (case nonEmpty reason of None \<Rightarrow> [] | Some r \<Rightarrow> '': '' @ r)) ?s1
      = Inr ((), ?s1\<lparr>auditLogs := al, activityLogs := ac\<rparr>)"
    using registerLog_ok [OF assms(1), of "''UPDATE''" ?v] by fastforce
  have ins: "insertCashMovement env \<lparr>cm_id = [], cm_tenantId = t, cm_sessionId = i, cm_type = ty, cm_amount = cents amount,
      cm_reason = reason, cm_orderId = None, cm_paymentId = None, cm_createdBy = cx_userId ctx\<rparr> s = Inr ((), ?s1)"
    using fresh_movement [OF assms(3)] by (simp add: movementRow_def)
  let ?s2 = "?s1\<lparr>auditLogs := al, activityLogs := ac\<rparr>"
  have "reread i ?s2 = Inr (viewSession x ?s2, ?s2)"
    using f by (simp add: reread_def postMovement_def monad_defs)
  then have "addMovementTx env t i ty amount reason ctx s = Inr (viewSession x ?s2, ?s2)"
    using assms(4,5) ins log
    by (simp add: addMovementTx_def bindT_def thenT_def readT_def throwIfT_False [OF assms(6)] lockOpenSession_eq expectedCents_balance)
  then show ?thesis by blast
qed

lemma addMovementTx_refused:
  assumes "specMove ty (cents amount) (drawerOf t i s) = Inl e"
  shows "addMovementTx env t i ty amount reason ctx s = Inl e"
proof (cases "findSession i t s")
  case None
  then show ?thesis using assms by (simp add: addMovementTx_def bindT_def lockOpenSession_eq drawerOf_def specMove_def)
next
  case (Some x)
  then show ?thesis using assms
    by (auto simp: addMovementTx_def bindT_def thenT_def readT_def throwIfT_def throwT_def lockOpenSession_eq drawerOf_def
        specMove_def expectedCents_balance split: if_splits)
qed

lemma specMove_Inr:
  assumes "specMove ty a (drawerOf t i s) = Inr d"
  obtains x where "findSession i t s = Some x" "cs_status x = S_OPEN" "\<not> (ty = C_CASH_OUT \<and> balance x s < a)"
    and "d = Drawer (if ty \<in> {C_SALE, C_CASH_IN} then balance x s + a else balance x s - a)"
  using assms by (cases "findSession i t s") (auto simp: drawerOf_def specMove_def split: if_splits)

text \<open>A movement, an open shift and a closing, told by the abstract drawer.\<close>

lemma addMovement_refines:
  assumes "t \<noteq> []" "distinct (map cs_id (cashSessions s))" "\<forall>m \<in> set (cashMovements s). cm_id m \<noteq> env_uuid env (drawn s)"
  shows "case addMovement env t i ty amount reason ctx s of
      (Inl e, s') \<Rightarrow> specMove ty (cents amount) (drawerOf t i s) = Inl e \<and> s' = s
    | (Inr v, s') \<Rightarrow> specMove ty (cents amount) (drawerOf t i s) = Inr (drawerOf t i s')
        \<and> drawerOf t i s' = Drawer (cents (st_expectedCash (sv_totals v)))
        \<and> (\<forall>j. j \<noteq> i \<longrightarrow> drawerOf t j s' = drawerOf t j s)"
proof (cases "specMove ty (cents amount) (drawerOf t i s)")
  case (Inl e)
  then show ?thesis using addMovementTx_refused [OF Inl] by (simp add: addMovement_def transaction_def)
next
  case (Inr d)
  then obtain x where x: "findSession i t s = Some x" "cs_status x = S_OPEN" "\<not> (ty = C_CASH_OUT \<and> balance x s < cents amount)"
    and d: "d = Drawer (if ty \<in> {C_SALE, C_CASH_IN} then balance x s + cents amount else balance x s - cents amount)"
    by (rule specMove_Inr)
  let ?m = "movementRow (env_uuid env (drawn s)) t i ty (cents amount) reason ctx"
  obtain al ac s' where s': "s' = (postMovement ?m (s\<lparr>drawn := Suc (drawn s)\<rparr>))\<lparr>auditLogs := al, activityLogs := ac\<rparr>"
    and run: "addMovementTx env t i ty amount reason ctx s = Inr (viewSession x s', s')"
    using addMovementTx_open [OF assms x] by blast
  have frame: "drawerOf t j s' = drawerOf t j (postMovement ?m s)" for j
    by (rule drawerOf_frame) (simp_all add: s' postMovement_def)
  have bal: "balance x s' = balance x (postMovement ?m s)"
    by (rule balance_frame) (simp add: s' postMovement_def)
  have "cs_id x = i" using findSession_SomeD [OF x(1)] by simp
  then have now: "balance x (postMovement ?m s) = balance x s + signedAmount ?m" by (simp add: balance_post movementRow_def)
  have "drawerOf t i s' = Drawer (balance x s')"
    using x(1,2) by (simp add: drawerOf_def s' findSession_def postMovement_def)
  moreover have "d = Drawer (balance x s')"
    unfolding bal now d by (simp add: signedAmount_def movementRow_def)
  moreover have "drawerOf t j s' = drawerOf t j s" if "j \<noteq> i" for j
    using that unfolding frame by (simp add: drawerOf_post movementRow_def split: drawer.split)
  moreover have "cents (st_expectedCash (sv_totals (viewSession x s'))) = balance x s'"
    by (simp add: viewSession_def toSession_def expected_money cents_money_aux)
  ultimately show ?thesis using Inr run by (simp add: addMovement_def transaction_def)
qed

lemma closeSessionTx_open:
  assumes "t \<noteq> []" "distinct (map cs_id (cashSessions s))" "findSession i t s = Some x" "cs_status x = S_OPEN"
  shows "\<exists>al ac s'. s' = s\<lparr>cashSessions := updateMany (\<lambda>y. cs_id y = i) (closedRow env ctx (balance x s) counted note) (cashSessions s),
        auditLogs := al, activityLogs := ac\<rparr>
    \<and> closeSessionTx env t i counted note ctx s = Inr (viewSession (closedRow env ctx (balance x s) counted note x) s', s')"
proof -
  let ?c = "closedRow env ctx (balance x s) counted note"
  let ?s1 = "s\<lparr>cashSessions := updateMany (\<lambda>y. cs_id y = i) ?c (cashSessions s)\<rparr>"
  let ?v = "cents counted - balance x s"
  have x: "x \<in> set (cashSessions s)" "cs_id x = i" using findSession_SomeD [OF assms(3)] by simp_all
  have "find (\<lambda>y. cs_id y = i) (updateMany (\<lambda>y. cs_id y = i) ?c (cashSessions s))
      = map_option (\<lambda>y. if cs_id y = i then ?c y else y) (find (\<lambda>y. cs_id y = i) (cashSessions s))"
    by (rule find_updateMany) (simp add: closedRow_def)
  then have f: "find (\<lambda>y. cs_id y = i) (cashSessions ?s1) = Some (?c x)"
    using find_session_by_id [OF assms(2) x(1)] x(2) by simp
  obtain al ac where log: "registerLog env ctx t ''UPDATE'' i (JObj [(''status'', JStr ''OPEN'')])
        (JObj [(''status'', JStr ''CLOSED''), (''expectedCash'', JStr (money (balance x s))), (''countedCash'', JStr counted),
          (''variance'', JStr (money ?v))]) ''cash_register.close''
        (orEmpty (registerName (cs_registerId x) ?s1) @ '' closed: expected '' @ rupees (money (balance x s)) @ '', counted '' @ rupees counted
          @ varianceText ?v) ?s1 = Inr ((), ?s1\<lparr>auditLogs := al, activityLogs := ac\<rparr>)"
    using registerLog_ok [OF assms(1), of "''UPDATE''" "''cash_register.close''"] by fastforce
  let ?s2 = "?s1\<lparr>auditLogs := al, activityLogs := ac\<rparr>"
  have "reread i ?s2 = Inr (viewSession (?c x) ?s2, ?s2)" using f by (simp add: reread_def monad_defs)
  then have "closeSessionTx env t i counted note ctx s = Inr (viewSession (?c x) ?s2, ?s2)"
    using assms(3,4) log
    by (simp add: closeSessionTx_def bindT_def thenT_def readT_def writeT_def lockOpenSession_eq expectedCents_balance Let_def)
  then show ?thesis by blast
qed

lemma specClose_Inr:
  assumes "specClose c (drawerOf t i s) = Inr d"
  obtains x where "findSession i t s = Some x" "cs_status x = S_OPEN" "d = Counted (balance x s) c"
  using assms by (cases "findSession i t s") (auto simp: drawerOf_def specClose_def split: if_splits)

lemma closeSessionTx_refused:
  assumes "specClose c (drawerOf t i s) = Inl e"
  shows "closeSessionTx env t i counted note ctx s = Inl e"
proof (cases "findSession i t s")
  case None
  then show ?thesis using assms by (simp add: closeSessionTx_def bindT_def lockOpenSession_eq drawerOf_def specClose_def)
next
  case (Some x)
  then show ?thesis using assms
    by (auto simp: closeSessionTx_def bindT_def lockOpenSession_eq drawerOf_def specClose_def split: if_splits)
qed

lemma closeSession_refines:
  assumes "t \<noteq> []" "distinct (map cs_id (cashSessions s))"
  shows "case closeSession env t i counted note ctx s of
      (Inl e, s') \<Rightarrow> specClose (cents counted) (drawerOf t i s) = Inl e \<and> s' = s
    | (Inr v, s') \<Rightarrow> specClose (cents counted) (drawerOf t i s) = Inr (drawerOf t i s')
        \<and> cs_variance (sv_session v) = Some (cents counted - cents (st_expectedCash (sv_totals v)))
        \<and> (\<forall>j. j \<noteq> i \<longrightarrow> drawerOf t j s' = drawerOf t j s)"
proof (cases "specClose (cents counted) (drawerOf t i s)")
  case (Inl e)
  have "closeSession env t i counted note ctx s = (Inl e, s)"
    by (simp add: closeSession_def transaction_def closeSessionTx_refused [OF Inl])
  with Inl show ?thesis by simp
next
  case (Inr d)
  then obtain x where x: "findSession i t s = Some x" "cs_status x = S_OPEN" and d: "d = Counted (balance x s) (cents counted)"
    by (rule specClose_Inr)
  let ?c = "closedRow env ctx (balance x s) counted note"
  from closeSessionTx_open [OF assms x, of env ctx counted "note"] obtain al ac s'
    where s': "s' = s\<lparr>cashSessions := updateMany (\<lambda>y. cs_id y = i) ?c (cashSessions s), auditLogs := al, activityLogs := ac\<rparr>"
    and run: "closeSessionTx env t i counted note ctx s = Inr (viewSession (?c x) s', s')" by (elim exE conjE)
  have found: "findSession j t s' = map_option (\<lambda>y. if cs_id y = i then ?c y else y) (findSession j t s)" for j
    unfolding findSession_def s' by (simp, rule find_updateMany, simp add: closedRow_def)
  have bal: "balance y s' = balance y s" for y by (rule balance_frame) (simp add: s')
  have id: "cs_id x = i" using findSession_SomeD [OF x(1)] by simp
  have closed: "drawerOf t i s' = d" using found [of i] x(1) id by (simp add: drawerOf_def d closedRow_def)
  have others: "drawerOf t j s' = drawerOf t j s" if "j \<noteq> i" for j
  proof (cases "findSession j t s")
    case None
    then show ?thesis using found [of j] by (simp add: drawerOf_def)
  next
    case (Some y)
    then have "cs_id y \<noteq> i" using findSession_SomeD [OF Some] that by simp
    then show ?thesis using found [of j] Some by (simp add: drawerOf_def bal)
  qed
  have "balance (?c x) s = balance x s" by (simp add: balance_def closedRow_def)
  then have expected: "cents (st_expectedCash (sv_totals (viewSession (?c x) s'))) = balance x s"
    by (simp add: viewSession_def toSession_def expected_money cents_money_aux bal)
  have variance: "cs_variance (sv_session (viewSession (?c x) s')) = Some (cents counted - balance x s)"
    by (simp add: viewSession_def toSession_def closedRow_def)
  have "closeSession env t i counted note ctx s = (Inr (viewSession (?c x) s'), s')"
    by (simp add: closeSession_def transaction_def run)
  then show ?thesis using Inr closed others variance expected by simp
qed

text \<open>C17: the shift tables implement an abstract drawer. For cash put in or taken out and for the count at the end,
  the service answers and changes exactly what the abstract drawer of the shift does (absent, closed or short drawers
  are refused with their error and nothing is written), no other shift is touched, the expected cash of the
  answer is the abstract balance, and the recorded variance is what was counted minus what was expected.\<close>

theorem shift_refines_drawer:
  assumes "t \<noteq> []" "distinct (map cs_id (cashSessions s))" "\<forall>m \<in> set (cashMovements s). cm_id m \<noteq> env_uuid env (drawn s)"
  shows "(case addMovement env t i ty amount reason ctx s of
      (Inl e, s') \<Rightarrow> specMove ty (cents amount) (drawerOf t i s) = Inl e \<and> s' = s
    | (Inr v, s') \<Rightarrow> specMove ty (cents amount) (drawerOf t i s) = Inr (drawerOf t i s')
        \<and> drawerOf t i s' = Drawer (cents (st_expectedCash (sv_totals v)))
        \<and> (\<forall>j. j \<noteq> i \<longrightarrow> drawerOf t j s' = drawerOf t j s))
  \<and> (case closeSession env t i counted memo ctx s of
      (Inl e, s') \<Rightarrow> specClose (cents counted) (drawerOf t i s) = Inl e \<and> s' = s
    | (Inr v, s') \<Rightarrow> specClose (cents counted) (drawerOf t i s) = Inr (drawerOf t i s')
        \<and> cs_variance (sv_session v) = Some (cents counted - cents (st_expectedCash (sv_totals v)))
        \<and> (\<forall>j. j \<noteq> i \<longrightarrow> drawerOf t j s' = drawerOf t j s))"
  by (intro conjI addMovement_refines closeSession_refines assms)

text \<open>A shift opened with 500.00 in which one sale of 100.00 was paid in cash.\<close>

definition shiftDb :: db where
  "shiftDb = demoDb\<lparr>registers := [\<lparr>rg_id = ''r'', rg_tenantId = ''t'', rg_name = DEFAULT_REGISTER, rg_isActive = True, rg_createdAt = 0\<rparr>],
     cashSessions := [\<lparr>cs_id = ''s1'', cs_tenantId = ''t'', cs_registerId = ''r'', cs_status = S_OPEN, cs_openingFloat = 50000,
       cs_expectedCash = None, cs_countedCash = None, cs_variance = None, cs_openedBy = None, cs_openedAt = 0,
       cs_closedBy = None, cs_closedAt = None, cs_note = None\<rparr>],
     cashMovements := [\<lparr>cm_id = ''m'', cm_tenantId = ''t'', cm_sessionId = ''s1'', cm_type = C_SALE, cm_amount = 10000,
       cm_reason = None, cm_orderId = None, cm_paymentId = None, cm_createdBy = None\<rparr>]\<rparr>"

definition clerkCtx :: audit_context where
  "clerkCtx = \<lparr>cx_userId = Some ''u'', cx_ipAddress = None, cx_userAgent = None\<rparr>"

lemma shiftDb_drawer: "drawerOf ''t'' ''s1'' shiftDb = Drawer 60000"
  by (simp add: drawerOf_def findSession_def shiftDb_def balance_def cash_ledger.posted_def movementsOf_def signedAmount_def)

lemma shift_refines_drawer_witness:
  "(case addMovement demoEnv ''t'' ''s1'' C_CASH_OUT ''200.00'' None clerkCtx shiftDb of
      (Inl e, s') \<Rightarrow> False | (Inr v, s') \<Rightarrow> drawerOf ''t'' ''s1'' s' = Drawer 40000)
  \<and> (case closeSession demoEnv ''t'' ''s1'' ''590.00'' None clerkCtx shiftDb of
      (Inl e, s') \<Rightarrow> False | (Inr v, s') \<Rightarrow> drawerOf ''t'' ''s1'' s' = Counted 60000 59000)"
proof -
  have c: "cents ''200.00'' = 20000" "cents ''590.00'' = 59000"
    by (simp_all add: cents_def unsigned_cents_def is_digit_def digits_val_def digit_val_def)
  have "env_uuid demoEnv (drawn shiftDb) = ''d''" "cashMovements shiftDb \<noteq> []"
    by (simp_all add: demoEnv_def shiftDb_def demoDb_def emptyDb_def)
  then have h: "distinct (map cs_id (cashSessions shiftDb))"
      "\<forall>m \<in> set (cashMovements shiftDb). cm_id m \<noteq> env_uuid demoEnv (drawn shiftDb)"
    by (simp_all add: shiftDb_def)
  have t: "''t'' \<noteq> []" by simp
  note r = shift_refines_drawer [where i = "''s1''" and ty = C_CASH_OUT and amount = "''200.00''" and reason = None
      and ctx = clerkCtx and counted = "''590.00''" and memo = None, OF t h]
  have spec: "specMove C_CASH_OUT 20000 (Drawer 60000) = Inr (Drawer 40000)" "specClose 59000 (Drawer 60000) = Inr (Counted 60000 59000)"
    by (simp_all add: specMove_def specClose_def)
  show ?thesis
  proof (intro conjI)
    show "case addMovement demoEnv ''t'' ''s1'' C_CASH_OUT ''200.00'' None clerkCtx shiftDb of
        (Inl e, s') \<Rightarrow> False | (Inr v, s') \<Rightarrow> drawerOf ''t'' ''s1'' s' = Drawer 40000"
      using r [THEN conjunct1] unfolding shiftDb_drawer c spec by (simp split: prod.splits sum.splits)
    show "case closeSession demoEnv ''t'' ''s1'' ''590.00'' None clerkCtx shiftDb of
        (Inl e, s') \<Rightarrow> False | (Inr v, s') \<Rightarrow> drawerOf ''t'' ''s1'' s' = Counted 60000 59000"
      using r [THEN conjunct2] unfolding shiftDb_drawer c spec by (simp split: prod.splits sum.splits)
  qed
qed

section \<open>What the tables keep\<close>

text \<open>
  Shifts and movements have ids of their own, every movement belongs to a shift, a register has at most one
  open shift, no drawer is expected to hold less than nothing, and a closed shift recorded what was expected.
\<close>

definition shiftOk :: "db \<Rightarrow> cash_session_row \<Rightarrow> bool" where
  "shiftOk s x \<longleftrightarrow> 0 \<le> balance x s
     \<and> (cs_status x = S_CLOSED \<longrightarrow> cs_expectedCash x = Some (balance x s)
         \<and> (\<exists>c. cs_countedCash x = Some c \<and> cs_variance x = Some (c - balance x s)))"

definition cashInv :: "db \<Rightarrow> bool" where
  "cashInv s \<longleftrightarrow> distinct (map cs_id (cashSessions s))
     \<and> distinct (map cs_registerId (filter (\<lambda>x. cs_status x = S_OPEN) (cashSessions s)))
     \<and> (\<forall>m \<in> set (cashMovements s). \<exists>x \<in> set (cashSessions s). cs_id x = cm_sessionId m)
     \<and> (\<forall>x \<in> set (cashSessions s). shiftOk s x)"

lemma shiftOk_frame: "cashMovements s' = cashMovements s \<Longrightarrow> shiftOk s' x = shiftOk s x"
  using balance_frame [of s' s] by (simp add: shiftOk_def)

lemma cashInv_frame: "cashSessions s' = cashSessions s \<Longrightarrow> cashMovements s' = cashMovements s \<Longrightarrow> cashInv s' = cashInv s"
  using shiftOk_frame [of s' s] by (simp add: cashInv_def)

lemma cashInv_post:
  assumes "cashInv s" "x \<in> set (cashSessions s)" "cs_id x = cm_sessionId m" "cs_status x = S_OPEN" "0 \<le> balance x s + signedAmount m"
  shows "cashInv (postMovement m s)"
proof -
  have only: "y = x" if "y \<in> set (cashSessions s)" "cs_id y = cm_sessionId m" for y
    using assms(1-3) that by (metis cashInv_def distinct_map inj_onD)
  have "shiftOk (postMovement m s) y" if "y \<in> set (cashSessions s)" for y
  proof (cases "cs_id y = cm_sessionId m")
    case True
    with only that assms(4,5) show ?thesis by (simp add: shiftOk_def balance_post)
  next
    case False
    then show ?thesis using assms(1) that by (simp add: cashInv_def shiftOk_def balance_post)
  qed
  then show ?thesis using assms(1-3) by (auto simp: cashInv_def postMovement_def)
qed

lemma registerLog_Inr: "registerLog env ctx t a i ov nv v d s = Inr (u, s') \<Longrightarrow> \<exists>al ac. s' = s\<lparr>auditLogs := al, activityLogs := ac\<rparr>"
  by (auto simp: registerLog_def outcome dest!: logAudit_Inr logActivity_Inr)

lemma insertCashMovement_Inr:
  "insertCashMovement env m s = Inr (u, s') \<Longrightarrow>
     s' = postMovement (m\<lparr>cm_id := env_uuid env (drawn s)\<rparr>) (s\<lparr>drawn := Suc (drawn s)\<rparr>)"
  by (simp add: insertCashMovement_eq Let_def split: if_splits)

lemma reread_Inr: "reread i s = Inr (v, s') \<Longrightarrow> s' = s"
  by (auto simp: reread_def outcome)

lemma lockOpenSession_Inr:
  "lockOpenSession t i s = Inr (x, s') \<Longrightarrow> findSession i t s = Some x \<and> cs_status x = S_OPEN \<and> s' = s"
  by (auto simp: lockOpenSession_eq split: option.splits if_splits)

lemma addMovement_keeps:
  assumes "cashInv s" "0 \<le> cents amount" "ty \<in> {C_CASH_IN, C_CASH_OUT}"
  shows "cashInv (snd (addMovement env t i ty amount reason ctx s))"
proof (cases "addMovementTx env t i ty amount reason ctx s")
  case (Inl e)
  then show ?thesis using assms(1) by (simp add: addMovement_def transaction_def)
next
  case (Inr y)
  obtain v s' where y: "y = (v, s')" by (cases y)
  let ?m = "movementRow (env_uuid env (drawn s)) t i ty (cents amount) reason ctx"
  from Inr [unfolded y addMovementTx_def] obtain x s1 s2 s3 u u' a nv w d where
      lock: "lockOpenSession t i s = Inr (x, s1)" and enough: "\<not> (ty = C_CASH_OUT \<and> expectedCents x s1 < cents amount)"
    and ins: "insertCashMovement env \<lparr>cm_id = [], cm_tenantId = t, cm_sessionId = i, cm_type = ty, cm_amount = cents amount,
        cm_reason = reason, cm_orderId = None, cm_paymentId = None, cm_createdBy = cx_userId ctx\<rparr> s1 = Inr (u, s2)"
    and log: "registerLog env ctx t a i JNull nv w d s2 = Inr (u', s3)" and re: "reread i s3 = Inr (v, s')"
    by (simp only: outcome) blast
  have x: "findSession i t s = Some x" "cs_status x = S_OPEN" and s1: "s1 = s" using lockOpenSession_Inr [OF lock] by simp_all
  obtain al ac where s': "s' = (postMovement ?m (s\<lparr>drawn := Suc (drawn s)\<rparr>))\<lparr>auditLogs := al, activityLogs := ac\<rparr>"
    using insertCashMovement_Inr [OF ins] registerLog_Inr [OF log] reread_Inr [OF re] by (auto simp: s1 movementRow_def)
  have mem: "x \<in> set (cashSessions s)" "cs_id x = i" using findSession_SomeD [OF x(1)] by simp_all
  have "0 \<le> balance x s" using assms(1) mem by (simp add: cashInv_def shiftOk_def)
  then have "0 \<le> balance x s + signedAmount ?m"
    using enough assms(2,3) by (auto simp: signedAmount_def movementRow_def s1 expectedCents_balance)
  then have "cashInv (postMovement ?m s)"
    using cashInv_post [OF assms(1) mem(1)] mem(2) x(2) by (simp add: movementRow_def)
  then have "cashInv s'" using cashInv_frame [of s' "postMovement ?m s"] by (simp add: s' postMovement_def)
  then show ?thesis using Inr y by (simp add: addMovement_def transaction_def)
qed

lemma with_id: "(\<exists>y \<in> set xs. cs_id y = k) \<longleftrightarrow> k \<in> set (map cs_id xs)"
  by auto

lemma cashInv_close:
  assumes "cashInv s" "x \<in> set (cashSessions s)" "cs_id x = i"
  shows "cashInv (s\<lparr>cashSessions := updateMany (\<lambda>y. cs_id y = i) (closedRow env ctx (balance x s) counted note) (cashSessions s)\<rparr>)"
    (is "cashInv ?s")
proof -
  let ?c = "closedRow env ctx (balance x s) counted note"
  have only: "y = x" if "y \<in> set (cashSessions s)" "cs_id y = i" for y
    using assms that by (metis cashInv_def distinct_map inj_onD)
  have bal: "balance y ?s = balance y s" for y by (rule balance_frame) simp
  have c: "balance (?c y) s = balance y s" for y by (simp add: balance_def closedRow_def)
  have opens: "map cs_registerId (filter (\<lambda>y. cs_status y = S_OPEN) (updateMany (\<lambda>y. cs_id y = i) ?c xs))
      = map cs_registerId (filter (\<lambda>y. cs_status y = S_OPEN \<and> cs_id y \<noteq> i) xs)" for xs
    by (induction xs) (auto simp: closedRow_def)
  have "distinct (map cs_registerId (filter (\<lambda>y. cs_id y \<noteq> i) (filter (\<lambda>y. cs_status y = S_OPEN) (cashSessions s))))"
    by (rule distinct_map_filter) (use assms(1) in \<open>simp add: cashInv_def\<close>)
  then have "distinct (map cs_registerId (filter (\<lambda>y. cs_status y = S_OPEN) (cashSessions ?s)))"
    by (simp add: opens filter_filter conj_commute)
  moreover have "shiftOk ?s y'" if y': "y' \<in> set (cashSessions ?s)" for y'
  proof -
    from y' obtain y where y: "y \<in> set (cashSessions s)" "y' = (if cs_id y = i then ?c y else y)"
      by (auto simp: set_updateMany)
    show ?thesis
    proof (cases "cs_id y = i")
      case True
      with only y have "y' = ?c x" by simp
      moreover have "0 \<le> balance x s" using assms by (simp add: cashInv_def shiftOk_def)
      ultimately show ?thesis by (simp add: shiftOk_def bal c) (simp add: closedRow_def)
    next
      case False
      then show ?thesis using assms(1) y by (simp add: cashInv_def shiftOk_def bal)
    qed
  qed
  moreover have ids: "map cs_id (cashSessions ?s) = map cs_id (cashSessions s)"
    by (simp add: map_updateMany closedRow_def)
  moreover have "\<exists>y \<in> set (cashSessions ?s). cs_id y = cm_sessionId m" if "m \<in> set (cashMovements s)" for m
    using assms(1) that unfolding with_id ids cashInv_def by blast
  moreover have "distinct (map cs_id (cashSessions s))" using assms(1) by (simp add: cashInv_def)
  ultimately show ?thesis unfolding cashInv_def by simp
qed

lemma closeSession_keeps:
  assumes "cashInv s"
  shows "cashInv (snd (closeSession env t i counted note ctx s))"
proof (cases "closeSessionTx env t i counted note ctx s")
  case (Inl e)
  then show ?thesis using assms(1) by (simp add: closeSession_def transaction_def)
next
  case (Inr y)
  obtain v s' where y: "y = (v, s')" by (cases y)
  from Inr y obtain x al ac where x: "findSession i t s = Some x"
    and s': "s' = s\<lparr>cashSessions := updateMany (\<lambda>y. cs_id y = i) (closedRow env ctx (balance x s) counted note) (cashSessions s),
        auditLogs := al, activityLogs := ac\<rparr>"
    by (auto simp: closeSessionTx_def outcome expectedCents_balance Let_def
        dest!: lockOpenSession_Inr registerLog_Inr reread_Inr)
  let ?s = "s\<lparr>cashSessions := updateMany (\<lambda>y. cs_id y = i) (closedRow env ctx (balance x s) counted note) (cashSessions s)\<rparr>"
  have "cashInv ?s" using cashInv_close [OF assms] findSession_SomeD [OF x] by blast
  then have "cashInv s'" using cashInv_frame [of s' ?s] by (simp add: s')
  then show ?thesis using Inr y by (simp add: closeSession_def transaction_def)
qed

definition newSession :: "env \<Rightarrow> string \<Rightarrow> string \<Rightarrow> paise \<Rightarrow> string option \<Rightarrow> string option \<Rightarrow> string \<Rightarrow> cash_session_row" where
  "newSession env t r f u n i = \<lparr>cs_id = i, cs_tenantId = t, cs_registerId = r, cs_status = S_OPEN,
     cs_openingFloat = f, cs_expectedCash = None, cs_countedCash = None, cs_variance = None,
     cs_openedBy = u, cs_openedAt = env_now env, cs_closedBy = None, cs_closedAt = None, cs_note = n\<rparr>"

lemma insertSession_Inr:
  "insertSession env t r f u n s = Inr (x, s') \<Longrightarrow>
     x = newSession env t r f u n (env_uuid env (drawn s)) \<and> s' = s\<lparr>drawn := Suc (drawn s), cashSessions := cashSessions s @ [x]\<rparr>
     \<and> (\<forall>y \<in> set (cashSessions s). cs_id y \<noteq> cs_id x \<and> \<not> (cs_registerId y = r \<and> cs_status y = S_OPEN))"
  by (auto simp: insertSession_def freshId_def outcome monad_defs Let_def newSession_def list_ex_iff split: if_splits)

lemma cashInv_open:
  assumes "cashInv s" "insertSession env t r f u n s = Inr (x, s')" "0 \<le> f"
  shows "cashInv s' \<and> balance x s' = f"
proof -
  from insertSession_Inr [OF assms(2)] have x: "x = newSession env t r f u n (env_uuid env (drawn s))"
    and s': "s' = s\<lparr>drawn := Suc (drawn s), cashSessions := cashSessions s @ [x]\<rparr>"
    and new: "\<And>y. y \<in> set (cashSessions s) \<Longrightarrow> cs_id y \<noteq> cs_id x \<and> \<not> (cs_registerId y = r \<and> cs_status y = S_OPEN)" by auto
  have fields: "cs_status x = S_OPEN" "cs_registerId x = r" "cs_openingFloat x = f" by (simp_all add: x newSession_def)
  have bal: "balance y s' = balance y s" for y by (rule balance_frame) (simp add: s')
  have "movementsOf (cs_id x) s = []"
    using assms(1) new unfolding movementsOf_def filter_empty_conv cashInv_def by metis
  then have b: "balance x s = f" by (simp add: balance_def cash_ledger.posted_def fields)
  have "shiftOk s' y" if "y \<in> set (cashSessions s')" for y
    using that assms(1,3) b fields by (auto simp: s' [THEN arg_cong [where f = cashSessions]] cashInv_def shiftOk_def bal)
  moreover have "\<exists>y \<in> set (cashSessions s'). cs_id y = cm_sessionId m" if "m \<in> set (cashMovements s')" for m
    using assms(1) that by (auto simp: cashInv_def s')
  moreover have "cs_id x \<notin> set (map cs_id (cashSessions s))" using new by (metis (mono_tags) image_iff list.set_map)
  then have "distinct (map cs_id (cashSessions s'))" using assms(1) by (simp add: cashInv_def s')
  moreover have "distinct (map cs_registerId (filter (\<lambda>y. cs_status y = S_OPEN) (cashSessions s')))"
    using assms(1) new fields by (auto simp: cashInv_def s')
  ultimately show ?thesis using b unfolding cashInv_def bal by blast
qed

lemma openRegister_keeps:
  assumes "cashInv s" "0 \<le> cents (orEmpty (coalesce float (Some ''0'')))"
  shows "cashInv (snd (openRegister env t r float n ctx s))"
proof (cases "openRegister env t r float n ctx s")
  case (Pair res s')
  show ?thesis
  proof (cases res)
    case (Inl e)
    then have "s' = s" using Pair by (auto simp: openRegister_def Let_def outcome)
    then show ?thesis using Pair assms(1) by simp
  next
    case (Inr v)
    then obtain x s1 al ac where "insertSession env t r (cents (orEmpty (coalesce float (Some ''0'')))) (cx_userId ctx) n s = Inr (x, s1)"
      and s': "s' = s1\<lparr>auditLogs := al, activityLogs := ac\<rparr>"
      using Pair by (auto simp: openRegister_def Let_def outcome dest!: registerLog_Inr)
    then show ?thesis using cashInv_open assms Pair cashInv_frame [of s' s1] by simp
  qed
qed

lemma insertRegister_Inr:
  "insertRegister env t n s = Inr (r, s') \<Longrightarrow> \<exists>d rs. s' = s\<lparr>drawn := d, registers := rs\<rparr>"
  by (auto simp: insertRegister_def freshId_def outcome monad_defs Let_def split: if_splits)

lemma ensureDefaultRegister_frame:
  assumes "ensureDefaultRegister env t s = (res, s')"
  shows "\<exists>d rs. s' = s\<lparr>drawn := d, registers := rs\<rparr>"
proof (cases "sort_key rg_createdAt (filter (\<lambda>r. rg_tenantId r = t \<and> rg_isActive r) (registers s))")
  case Nil
  show ?thesis
  proof (cases "insertRegister env t DEFAULT_REGISTER s")
    case (Inl e)
    then have "s' = s" using assms Nil
      by (auto simp: ensureDefaultRegister_def monad_defs split: if_splits)
    then show ?thesis by (intro exI [of _ "drawn s"] exI [of _ "registers s"]) simp
  next
    case (Inr y)
    then have "s' = snd y" using assms Nil
      by (cases y) (auto simp: ensureDefaultRegister_def monad_defs)
    then show ?thesis using insertRegister_Inr [of env t DEFAULT_REGISTER s "fst y" "snd y"] Inr by simp
  qed
next
  case (Cons r rs)
  then have "s' = s" using assms by (simp add: ensureDefaultRegister_def monad_defs)
  then show ?thesis by (intro exI [of _ "drawn s"] exI [of _ "registers s"]) simp
qed

lemma createRegister_frame:
  assumes "createRegister env t n ctx s = (res, s')"
  shows "cashSessions s' = cashSessions s \<and> cashMovements s' = cashMovements s"
proof (cases res)
  case (Inl e)
  then show ?thesis using assms by (auto simp: createRegister_def outcome)
next
  case (Inr v)
  then show ?thesis using assms by (auto simp: createRegister_def outcome dest!: insertRegister_Inr registerLog_Inr)
qed

end
