(* ===== verification/Pos.thy ===== *)
theory Pos
  imports Payments CashRegister
begin

text \<open>
  Selling at the shop counter (src/src/modules/pos/pos.service.js). A counter sale is an order whose
  payments, cash movement and delivery are written in the order's own transaction, through the hook of
  \<open>createOrder\<close>. The item search of the counter only reads and is left out.
\<close>

section \<open>Methods and money\<close>

datatype pay_method = CASH | UPI | CARD | BANK | CHEQUE

definition method_str :: "pay_method \<Rightarrow> string" where
  "method_str m = (case m of CASH \<Rightarrow> ''CASH'' | UPI \<Rightarrow> ''UPI'' | CARD \<Rightarrow> ''CARD'' | BANK \<Rightarrow> ''BANK'' | CHEQUE \<Rightarrow> ''CHEQUE'')"

definition PAYMENT_METHODS :: "pay_method list" where
  "PAYMENT_METHODS = [CASH, UPI, CARD, BANK, CHEQUE]"

definition QR_MINUTES :: int where
  "QR_MINUTES = 15"

record pos_payment =
  sp_method :: pay_method
  sp_amount :: string
  sp_tendered :: "string option"
  sp_reference :: "string option"
  sp_razorpayQrId :: "string option"

record pos_item =
  si_variantId :: string
  si_quantity :: int
  si_discount :: "string option"

record sale_body =
  sb_customerId :: "string option"
  sb_warehouseId :: "string option"
  sb_registerId :: "string option"
  sb_items :: "pos_item list"
  sb_payments :: "pos_payment list"
  sb_note :: "string option"

text \<open>A payment of the request with its amount in paise and, once confirmed, what Razorpay received.\<close>

record tender =
  td_payment :: pos_payment
  td_amountCents :: paise
  td_razorpayPaymentId :: "string option"
  td_vpa :: jsval

section \<open>Walk-in customer and warehouse\<close>

definition walkInEmail :: "string \<Rightarrow> string" where
  "walkInEmail tenantId = ''walk-in.'' @ take 8 tenantId @ ''@counter.pulseops.invalid''"

definition walkInCustomer :: "env \<Rightarrow> string \<Rightarrow> customer_row dbio" where
  "walkInCustomer env tenantId =
     (let email = walkInEmail tenantId in
      bindH (readH (findByEmail email tenantId)) (\<lambda>existing.
      case existing of
        Some c \<Rightarrow> returnH c
      | None \<Rightarrow>
          catchH (transaction (repoCreate env (JObj [(''email'', JStr email), (''firstName'', JStr ''Walk-in''),
              (''lastName'', JStr ''Customer''), (''metadata'', JObj [(''walkIn'', JBool True)])]) tenantId))
            (\<lambda>err. if isUniqueViolation err
              then bindH (readH (findByEmail email tenantId)) (\<lambda>c. orThrowH c (JsError ''Cannot read properties of null''))
              else throwH err)))"

definition defaultWarehouse :: "string \<Rightarrow> db \<Rightarrow> warehouse_row option" where
  "defaultWarehouse tenantId s =
     (let active = filter (\<lambda>w. wh_tenantId w = tenantId \<and> wh_isActive w) (warehouses s) in
      case sort_key wh_createdAt (filter wh_isDefault active) @ sort_key wh_createdAt (filter (\<lambda>w. \<not> wh_isDefault w) active) of
        [] \<Rightarrow> None | w # _ \<Rightarrow> Some w)"

record pos_context =
  pc_walkInCustomerId :: string
  pc_warehouse :: "(string \<times> string) option"
  pc_registers :: "(register_row \<times> shift_view option) list"
  pc_gstRatePercent :: rat
  pc_pricesIncludeTax :: bool
  pc_chargesGst :: bool
  pc_upi :: "string option"
  pc_paymentMethods :: "pay_method list"

definition posContext :: "env \<Rightarrow> remote \<Rightarrow> string \<Rightarrow> pos_context dbio" where
  "posContext env rm tenantId =
     bindH (walkInCustomer env tenantId) (\<lambda>walkIn.
     bindH (readH (defaultWarehouse tenantId)) (\<lambda>warehouse.
     bindH (listRegisters env tenantId) (\<lambda>registers.
     bindH (readH (resolveOrderDefaults env tenantId)) (\<lambda>defaults.
     bindH (readH (credentialsFor rm tenantId False)) (\<lambda>c.
     bindH (liftH c) (\<lambda>gateway.
     returnH \<lparr>pc_walkInCustomerId = cu_id walkIn, pc_warehouse = map_option (\<lambda>w. (wh_id w, wh_name w)) warehouse,
       pc_registers = registers, pc_gstRatePercent = od_gstRatePercent defaults,
       pc_pricesIncludeTax = truthy (jget ''pricesIncludeTax'' (od_taxProfile defaults)),
       pc_chargesGst = chargesGst (od_taxProfile defaults),
       pc_upi = (if gateway \<noteq> None then Some ''razorpay''
         else if truthy (jget ''upiId'' (od_taxProfile defaults)) then Some ''upi-id'' else None),
       pc_paymentMethods = PAYMENT_METHODS\<rparr>))))))"

section \<open>Confirming a UPI payment with Razorpay\<close>

definition qrPayments :: "env \<Rightarrow> remote \<Rightarrow> credentials \<Rightarrow> string \<Rightarrow> jsval dbtx" where
  "qrPayments env rm cred qrId =
     bindT (razorpayCall env rm cred ''GET'' (''/payments/qr_codes/'' @ qrId @ ''/payments'') JUndef) (\<lambda>answer.
     case answer of Inl e \<Rightarrow> throwT e | Inr payload \<Rightarrow> returnT payload)"

definition createUpiQr :: "env \<Rightarrow> remote \<Rightarrow> credentials \<Rightarrow> int \<Rightarrow> string \<Rightarrow> string \<Rightarrow> int \<Rightarrow> jsval \<Rightarrow> jsval dbtx" where
  "createUpiQr env rm cred amountMinor name description closeBy notes =
     bindT (razorpayCall env rm cred ''POST'' ''/payments/qr_codes''
       (JObj [(''type'', JStr ''upi_qr''), (''usage'', JStr ''single_use''), (''fixed_amount'', JBool True),
         (''payment_amount'', jsInt amountMinor), (''name'', jsOr (JStr (take 30 name)) JUndef),
         (''description'', JStr (take 100 description)), (''close_by'', jsInt closeBy), (''notes'', notes)])) (\<lambda>answer.
     case answer of Inl e \<Rightarrow> throwT e | Inr payload \<Rightarrow> returnT payload)"

text \<open>\<open>(received?.items ?? []).find(p => p.status === 'captured' && ...)\<close>.\<close>

definition qrItems :: "jsval \<Rightarrow> jsval list" where
  "qrItems received = (case jget ''items'' received of JArr xs \<Rightarrow> xs | _ \<Rightarrow> [])"

definition captured :: "jsval \<Rightarrow> bool" where
  "captured p \<longleftrightarrow> jget ''status'' p = JStr ''captured''"

definition verifyRazorpayUpi :: "env \<Rightarrow> remote \<Rightarrow> string \<Rightarrow> string \<Rightarrow> paise \<Rightarrow> (string \<times> jsval) dbio" where
  "verifyRazorpayUpi env rm tenantId qrId amountCents =
     bindH (readH (credentialsFor rm tenantId False)) (\<lambda>c.
     bindH (liftH c) (\<lambda>found.
     bindH (orThrowH found (AppError 409 ''PAYMENT_GATEWAY_NOT_CONFIGURED'')) (\<lambda>cred.
     bindH (transaction (qrPayments env rm cred qrId)) (\<lambda>received.
     bindH (orThrowH (find (\<lambda>p. captured p \<and> jget ''amount'' p = jsInt amountCents) (qrItems received))
       (AppError 409 ''UPI_PAYMENT_NOT_RECEIVED'')) (\<lambda>paid.
     let i = orEmpty (jsStr (jget ''id'' paid)) in
     bindH (readH (\<lambda>s. list_ex (\<lambda>p. py_tenantId p = tenantId \<and> py_provider p = RAZORPAY \<and> py_providerPaymentId p = Some i) (payments s))) (\<lambda>used.
     thenH (throwIfH used (AppError 409 ''UPI_PAYMENT_ALREADY_USED''))
       (returnH (i, jsNullish (jget ''vpa'' paid) JNull))))))))"

text \<open>The loop over the payments before anything is written.\<close>

fun confirmTenders :: "env \<Rightarrow> remote \<Rightarrow> string \<Rightarrow> tender list \<Rightarrow> tender list dbio" where
  "confirmTenders env rm tenantId [] = returnH []"
| "confirmTenders env rm tenantId (p # ps) =
     bindH (case (if sp_method (td_payment p) = UPI then nonEmpty (sp_razorpayQrId (td_payment p)) else None) of
         None \<Rightarrow> returnH p
       | Some qrId \<Rightarrow> bindH (verifyRazorpayUpi env rm tenantId qrId (td_amountCents p)) (\<lambda>paid.
           returnH (p\<lparr>td_razorpayPaymentId := Some (fst paid), td_vpa := snd paid\<rparr>))) (\<lambda>q.
     bindH (confirmTenders env rm tenantId ps) (\<lambda>qs. returnH (q # qs)))"

section \<open>The sale\<close>

definition toTender :: "pos_payment \<Rightarrow> tender" where
  "toTender p = \<lparr>td_payment = p, td_amountCents = cents (sp_amount p), td_razorpayPaymentId = None, td_vpa = JUndef\<rparr>"

definition cashCents :: "tender list \<Rightarrow> paise" where
  "cashCents ps = sum_list (map td_amountCents (filter (\<lambda>p. sp_method (td_payment p) = CASH) ps))"

definition razorpayPaid :: "tender \<Rightarrow> string option" where
  "razorpayPaid p = (if sp_method (td_payment p) = UPI then nonEmpty (td_razorpayPaymentId p) else None)"

definition tenderedCents :: "tender \<Rightarrow> paise option" where
  "tenderedCents p = (if sp_method (td_payment p) = CASH then map_option cents (nonEmpty (sp_tendered (td_payment p))) else None)"

definition tenderMetadata :: "tender \<Rightarrow> jsval" where
  "tenderMetadata p = JObj ([(''channel'', JStr ''POS''), (''method'', JStr (method_str (sp_method (td_payment p)))),
       (''reference'', jsOfOpt (sp_reference (td_payment p)))]
     @ (case tenderedCents p of None \<Rightarrow> []
        | Some t \<Rightarrow> [(''tendered'', JStr (money t)), (''change'', JStr (money (t - td_amountCents p)))])
     @ (case razorpayPaid p of None \<Rightarrow> []
        | Some i \<Rightarrow> [(''razorpayQrId'', jsOfOpt (sp_razorpayQrId (td_payment p))), (''vpa'', td_vpa p)]))"

text \<open>One payment of the sale: the payment, its charge and, for cash, the movement of the drawer.\<close>

definition recordTender ::
  "env \<Rightarrow> string \<Rightarrow> string option \<Rightarrow> cash_session_row option \<Rightarrow> order_row \<Rightarrow> tender \<Rightarrow> unit dbtx" where
  "recordTender env tenantId userId session order p =
     thenT (throwIfT (case tenderedCents p of None \<Rightarrow> False | Some t \<Rightarrow> t < td_amountCents p) (AppError 400 ''CASH_SHORT''))
    (bindT (case razorpayPaid p of Some i \<Rightarrow> returnT i | None \<Rightarrow> shortId env ''pos_'') (\<lambda>providerPaymentId.
     bindT (insertPayment env \<lparr>py_id = [], py_tenantId = tenantId, py_orderId = or_id order,
        py_amount = td_amountCents p, py_currency = or_currency order, py_status = P_COMPLETED,
        py_provider = (if razorpayPaid p \<noteq> None then RAZORPAY else toLowerCase (method_str (sp_method (td_payment p)))),
        py_providerPaymentId = Some providerPaymentId, py_metadata = tenderMetadata p, py_deletedAt = None\<rparr>) (\<lambda>payment.
     bindT (shortId env ''txn_'') (\<lambda>txn.
     thenT (insertPaymentTx \<lparr>pt_tenantId = tenantId, pt_paymentId = py_id payment, pt_type = X_CHARGE,
        pt_amount = py_amount payment, pt_currency = py_currency payment, pt_status = P_COMPLETED,
        pt_providerTransactionId = Some txn,
        pt_metadata = JObj [(''initiatedBy'', jsOfOpt userId), (''channel'', JStr ''POS'')]\<rparr>)
      (if sp_method (td_payment p) = CASH
       then bindT (orThrowT session (JsError ''Cannot read properties of null'')) (\<lambda>x.
          recordSale env tenantId (cs_id x) (py_amount payment) (or_id order) (py_id payment) userId)
       else returnT ())))))"

text \<open>The hook in the order's transaction: the payments must add up to the bill, and the order is delivered.\<close>

definition settleSale ::
  "env \<Rightarrow> string \<Rightarrow> string option \<Rightarrow> cash_session_row option \<Rightarrow> tender list \<Rightarrow> order_row \<Rightarrow> unit dbtx" where
  "settleSale env tenantId userId session ps order =
     (let totalCents = cents (decToString (or_total order));
          paidCents = sum_list (map td_amountCents ps)
      in thenT (throwIfT (paidCents \<noteq> totalCents) (AppError 400 ''PAYMENT_TOTAL_MISMATCH''))
        (thenT (forT ps (recordTender env tenantId userId session order))
        (thenT (setStatus env (or_id order) O_DELIVERED)
          (insertHistory \<lparr>hi_tenantId = tenantId, hi_orderId = or_id order, hi_from = Some O_PENDING, hi_to = O_DELIVERED,
             hi_reason = Some ''Counter sale'', hi_createdBy = userId\<rparr>))))"

definition saleOrder :: "string \<Rightarrow> string \<Rightarrow> cash_session_row option \<Rightarrow> sale_body \<Rightarrow> order_body" where
  "saleOrder customerId warehouseId session body = \<lparr>ob_customerId = customerId,
     ob_items = map (\<lambda>i. \<lparr>ib_productVariantId = Some (si_variantId i), ib_variantId = None, ib_warehouseId = warehouseId,
       ib_quantity = si_quantity i, ib_discount = si_discount i, ib_tax = None\<rparr>) (sb_items body),
     ob_shippingTotal = None, ob_currency = None,
     ob_metadata = JObj ((''pos'', JObj [(''registerId'', jsOfOpt (map_option cs_registerId session)),
         (''sessionId'', jsOfOpt (map_option cs_id session))])
       # (case nonEmpty (sb_note body) of None \<Rightarrow> [] | Some n \<Rightarrow> [(''note'', JStr n)])),
     ob_shippingAddressId = None, ob_billingAddressId = None, ob_channel = Some ''POS''\<rparr>"

record sale_result =
  sr_order :: order_row
  sr_payments :: "payment_row list"
  sr_change :: string

text \<open>The open shift cash goes into, looked up before the transaction.\<close>

definition saleSession :: "env \<Rightarrow> string \<Rightarrow> string option \<Rightarrow> tender list \<Rightarrow> cash_session_row option dbio" where
  "saleSession env tenantId registerId ps =
     (if 0 < cashCents ps
      then bindH (case registerId of
            Some r \<Rightarrow> returnH r
          | None \<Rightarrow> bindH (ensureDefaultRegister env tenantId) (\<lambda>r.
              bindH (orThrowH r (JsError ''Cannot read properties of null'')) (\<lambda>x. returnH (rg_id x)))) (\<lambda>r.
        bindH (readH (openSessionFor tenantId r)) (\<lambda>session.
        thenH (throwIfH (session = None) (AppError 409 ''REGISTER_CLOSED'')) (returnH session)))
      else returnH None)"

text \<open>
  The list \<open>created\<close> lives outside the transaction, so it also keeps what an attempt that the database
  rolled back and the service repeated had pushed: \<open>leftover\<close>. The payments of the attempt that committed are the
  payments of the new order.
\<close>

definition commitSale ::
  "env \<Rightarrow> (nat \<Rightarrow> error option) \<Rightarrow> payment_row list \<Rightarrow> string \<Rightarrow> audit_context \<Rightarrow> sale_body \<Rightarrow> string \<Rightarrow> string
     \<Rightarrow> cash_session_row option \<Rightarrow> tender list \<Rightarrow> sale_result dbio" where
  "commitSale env faults leftover tenantId ctx body customerId warehouseId session ps =
     bindH (createOrder env faults tenantId ctx (saleOrder customerId warehouseId session body)
       (settleSale env tenantId (cx_userId ctx) session ps)) (\<lambda>order.
     bindH (readH (\<lambda>s. leftover @ filter (\<lambda>p. py_tenantId p = tenantId \<and> py_orderId p = or_id order) (payments s))) (\<lambda>created.
     thenH (writeH (fold (\<lambda>p s. snd (emitPaymentCompleted env tenantId (paymentEvent tenantId p True) s)) created))
       (returnH \<lparr>sr_order = order, sr_payments = created,
          sr_change = money (sum_list (map (\<lambda>p. cents (orEmpty (jsStr (jget ''change'' (py_metadata p))))) created))\<rparr>)))"

definition sale ::
  "env \<Rightarrow> remote \<Rightarrow> (nat \<Rightarrow> error option) \<Rightarrow> payment_row list \<Rightarrow> string \<Rightarrow> audit_context \<Rightarrow> sale_body \<Rightarrow> sale_result dbio" where
  "sale env rm faults leftover tenantId ctx body =
     bindH (case sb_customerId body of Some i \<Rightarrow> returnH i
        | None \<Rightarrow> bindH (walkInCustomer env tenantId) (\<lambda>c. returnH (cu_id c))) (\<lambda>customerId.
     bindH (readH (\<lambda>s. nonEmpty (coalesce (sb_warehouseId body) (map_option wh_id (defaultWarehouse tenantId s))))) (\<lambda>w.
     bindH (orThrowH w (AppError 409 ''NO_WAREHOUSE'')) (\<lambda>warehouseId.
     let ps = map toTender (sb_payments body) in
     bindH (saleSession env tenantId (sb_registerId body) ps) (\<lambda>session.
     bindH (confirmTenders env rm tenantId ps) (\<lambda>qs.
     commitSale env faults leftover tenantId ctx body customerId warehouseId session qs)))))"

section \<open>UPI codes\<close>

text \<open>\<open>URLSearchParams\<close>: \<open>application/x-www-form-urlencoded\<close> over the UTF-8 bytes.\<close>

definition hexDigit :: "nat \<Rightarrow> char" where
  "hexDigit n = ''0123456789ABCDEF'' ! n"

definition formEncode :: "string \<Rightarrow> string" where
  "formEncode x = concat (map (\<lambda>c. let n = of_char c :: nat in
     if is_alnum_char c \<or> c \<in> set ''*-._'' then [c]
     else if c = CHR '' '' then ''+''
     else [CHR ''%'', hexDigit (n div 16), hexDigit (n mod 16)]) x)"

definition upiUri :: "string \<Rightarrow> string \<Rightarrow> string \<Rightarrow> string" where
  "upiUri upiId name amount = ''upi://pay?pa='' @ formEncode upiId @ ''&pn='' @ formEncode name
     @ ''&am='' @ formEncode amount @ ''&cu=INR&tn='' @ formEncode ''Counter sale''"

text \<open>\<open>a || b?.name\<close> as a string, empty when neither is there.\<close>

definition shopName :: "jsval \<Rightarrow> tenant_row option \<Rightarrow> string" where
  "shopName tradeName t = (case jsStr tradeName of
      Some n \<Rightarrow> (if n \<noteq> [] then n else (case t of None \<Rightarrow> [] | Some r \<Rightarrow> tn_name r))
    | None \<Rightarrow> (case t of None \<Rightarrow> [] | Some r \<Rightarrow> tn_name r))"

definition upiQr :: "env \<Rightarrow> remote \<Rightarrow> string \<Rightarrow> string \<Rightarrow> jsval dbio" where
  "upiQr env rm tenantId amount =
     (let amountMinor = cents amount in
      bindH (readH (credentialsFor rm tenantId False)) (\<lambda>c.
      bindH (liftH c) (\<lambda>credentials.
      bindH (readH (resolveOrderDefaults env tenantId)) (\<lambda>defaults.
      bindH (readH (\<lambda>s. find (\<lambda>t. tn_id t = tenantId) (tenants s))) (\<lambda>tenant.
      let name = shopName (jget ''tradeName'' (od_taxProfile defaults)) tenant in
      case credentials of
        Some cred \<Rightarrow>
          bindH (transaction (createUpiQr env rm cred amountMinor name (''Counter sale '' @ rupees (money amountMinor))
            (env_now env div 1000 + QR_MINUTES * 60) (JObj [(''tenantId'', JStr tenantId), (''channel'', JStr ''POS'')]))) (\<lambda>qr.
          returnH (JObj [(''provider'', JStr ''razorpay''), (''qrId'', jget ''id'' qr), (''imageUrl'', jget ''image_url'' qr),
            (''amount'', JStr (money amountMinor)), (''expiresInMinutes'', jsInt QR_MINUTES)]))
      | None \<Rightarrow>
          bindH (orThrowH (nonEmpty (jsStr (jget ''upiId'' (od_taxProfile defaults)))) (AppError 409 ''UPI_NOT_CONFIGURED'')) (\<lambda>upiId.
          returnH (JObj [(''provider'', JStr ''upi-id''), (''upiUri'', JStr (upiUri upiId name (money amountMinor))),
            (''amount'', JStr (money amountMinor))])))))))"

text \<open>Has the code been paid; the amount of the answer is Razorpay's own number of paise.\<close>

definition upiQrStatus :: "env \<Rightarrow> remote \<Rightarrow> string \<Rightarrow> string \<Rightarrow> jsval dbio" where
  "upiQrStatus env rm tenantId qrId =
     bindH (readH (credentialsFor rm tenantId False)) (\<lambda>c.
     bindH (liftH c) (\<lambda>found.
     bindH (orThrowH found (AppError 409 ''PAYMENT_GATEWAY_NOT_CONFIGURED'')) (\<lambda>cred.
     bindH (transaction (qrPayments env rm cred qrId)) (\<lambda>received.
     returnH (case find captured (qrItems received) of
         Some p \<Rightarrow> JObj [(''paid'', JBool True),
           (''amount'', case jget ''amount'' p of JNum n \<Rightarrow> JStr (money (js_round n)) | v \<Rightarrow> v), (''razorpayPaymentId'', jget ''id'' p)]
       | None \<Rightarrow> JObj [(''paid'', JBool False)])))))"

section \<open>Held sales\<close>

definition listHeld :: "string \<Rightarrow> db \<Rightarrow> held_row list" where
  "listHeld tenantId s = take 50 (rev (filter (\<lambda>h. hs_tenantId h = tenantId) (heldSales s)))"

definition holdSale :: "env \<Rightarrow> string \<Rightarrow> string \<Rightarrow> string option \<Rightarrow> jsval \<Rightarrow> held_row dbtx" where
  "holdSale env tenantId userId label cart = bindT (freshId env) (\<lambda>i.
     let row = \<lparr>hs_id = i, hs_tenantId = tenantId, hs_userId = userId, hs_label = label, hs_cart = cart\<rparr>
     in thenT (writeT (\<lambda>s. s\<lparr>heldSales := heldSales s @ [row]\<rparr>)) (returnT row))"

definition removeHeld :: "string \<Rightarrow> string \<Rightarrow> unit dbio" where
  "removeHeld tenantId i =
     bindH (readH (\<lambda>s. countWhere (\<lambda>h. hs_id h = i \<and> hs_tenantId h = tenantId) (heldSales s))) (\<lambda>count.
     thenH (writeH (\<lambda>s. s\<lparr>heldSales := deleteMany (\<lambda>h. hs_id h = i \<and> hs_tenantId h = tenantId) (heldSales s)\<rparr>))
       (throwIfH (count = 0) (AppError 404 ''HELD_SALE_NOT_FOUND'')))"

section \<open>What a sale writes\<close>

lemma insertCash_Inr:
  "recordSale env t i a oid pid u s = Inr (x, s') \<Longrightarrow> \<exists>m. cashMovements s' = cashMovements s @ [m] \<and> cm_sessionId m = i
     \<and> cm_type m = C_SALE \<and> cm_amount m = a \<and> payments s' = payments s \<and> orders s' = orders s \<and> cashSessions s' = cashSessions s"
  unfolding recordSale_def by (drule insertCashMovement_Inr) (simp add: postMovement_def)

text \<open>The payment row of a tender.\<close>

definition settles :: "string \<Rightarrow> string \<Rightarrow> tender \<Rightarrow> payment_row \<Rightarrow> bool" where
  "settles t oid p q \<longleftrightarrow> py_amount q = td_amountCents p \<and> py_status q = P_COMPLETED \<and> py_tenantId q = t \<and> py_orderId q = oid
     \<and> py_metadata q = tenderMetadata p
     \<and> (case razorpayPaid p of
          None \<Rightarrow> py_provider q = toLowerCase (method_str (sp_method (td_payment p)))
        | Some i \<Rightarrow> py_provider q = RAZORPAY \<and> py_providerPaymentId q = Some i)"

text \<open>The change noted on a payment row, and the change due on a payment of the request.\<close>

definition noted :: "payment_row \<Rightarrow> paise" where
  "noted q = cents (orEmpty (jsStr (jget ''change'' (py_metadata q))))"

definition changeDue :: "pos_payment \<Rightarrow> paise" where
  "changeDue p = (case (sp_method p, sp_tendered p) of
      (CASH, Some a) \<Rightarrow> if a = [] then 0 else cents a - cents (sp_amount p)
    | _ \<Rightarrow> 0)"

lemma cents_Nil: "cents [] = 0"
  by code_simp

lemma noted_tender: "py_metadata q = tenderMetadata p \<Longrightarrow>
    noted q = (case tenderedCents p of None \<Rightarrow> 0 | Some a \<Rightarrow> a - td_amountCents p)"
  by (simp add: noted_def tenderMetadata_def jsStr_def orEmpty_def cents_Nil cents_money_aux split: option.split)

text \<open>What the drawer of a shift gains by tenders.\<close>

definition drawerGain :: "cash_session_row option \<Rightarrow> paise \<Rightarrow> cash_session_row \<Rightarrow> paise" where
  "drawerGain session a x = (case session of None \<Rightarrow> 0 | Some y \<Rightarrow> if cs_id y = cs_id x then a else 0)"

definition tendersDone :: "string \<Rightarrow> order_row \<Rightarrow> cash_session_row option \<Rightarrow> tender list \<Rightarrow> db \<Rightarrow> db \<Rightarrow> bool" where
  "tendersDone t order session ps s s' \<longleftrightarrow> orders s' = orders s \<and> cashSessions s' = cashSessions s
     \<and> (\<exists>qs. payments s' = payments s @ qs \<and> list_all2 (settles t (or_id order)) ps qs)
     \<and> (\<forall>x. balance x s' = balance x s + drawerGain session (cashCents ps) x)
     \<and> list_all (\<lambda>p. case tenderedCents p of None \<Rightarrow> True | Some a \<Rightarrow> td_amountCents p \<le> a) ps"

lemma tendersDone_Nil: "tendersDone t order session [] s s"
  by (simp add: tendersDone_def cashCents_def drawerGain_def split: option.split)

lemma drawerGain_add: "drawerGain session (a + b) x = drawerGain session a x + drawerGain session b x"
  by (simp add: drawerGain_def split: option.split)

lemma tendersDone_Cons:
  assumes "tendersDone t order session [p] s s1" "tendersDone t order session ps s1 s2"
  shows "tendersDone t order session (p # ps) s s2"
proof -
  obtain q qs where "payments s1 = payments s @ [q]" "settles t (or_id order) p q"
    and "payments s2 = payments s1 @ qs" "list_all2 (settles t (or_id order)) ps qs"
    using assms by (auto simp: tendersDone_def list_all2_Cons1)
  then have rows: "payments s2 = payments s @ q # qs \<and> list_all2 (settles t (or_id order)) (p # ps) (q # qs)" by simp
  have "balance x s2 = balance x s + drawerGain session (cashCents (p # ps)) x" for x
  proof -
    have "balance x s1 = balance x s + drawerGain session (cashCents [p]) x"
      "balance x s2 = balance x s1 + drawerGain session (cashCents ps) x" using assms by (simp_all add: tendersDone_def)
    moreover have "cashCents (p # ps) = cashCents [p] + cashCents ps" by (simp add: cashCents_def)
    ultimately show ?thesis by (simp add: drawerGain_add)
  qed
  with rows show ?thesis using assms by (auto simp: tendersDone_def)
qed

lemma balance_append:
  "cashMovements s' = cashMovements s @ [m] \<Longrightarrow> balance x s' = balance x s + (if cm_sessionId m = cs_id x then signedAmount m else 0)"
  by (simp add: balance_def cash_ledger.posted_def movementsOf_def)

lemma recordTender_Inr:
  assumes "recordTender env t u session order p s = Inr (x, s')"
  shows "tendersDone t order session [p] s s'"
proof -
  from assms obtain i s1 q s2 tn s3 x1 s4 where short: "\<not> (case tenderedCents p of None \<Rightarrow> False | Some a \<Rightarrow> a < td_amountCents p)"
    and i: "(case razorpayPaid p of Some i \<Rightarrow> returnT i | None \<Rightarrow> shortId env ''pos_'') s = Inr (i, s1)"
    and q: "insertPayment env \<lparr>py_id = [], py_tenantId = t, py_orderId = or_id order,
        py_amount = td_amountCents p, py_currency = or_currency order, py_status = P_COMPLETED,
        py_provider = (if razorpayPaid p \<noteq> None then RAZORPAY else toLowerCase (method_str (sp_method (td_payment p)))),
        py_providerPaymentId = Some i, py_metadata = tenderMetadata p, py_deletedAt = None\<rparr> s1 = Inr (q, s2)"
    and tn: "shortId env ''txn_'' s2 = Inr (tn, s3)" and tx: "insertPaymentTx \<lparr>pt_tenantId = t, pt_paymentId = py_id q, pt_type = X_CHARGE,
        pt_amount = py_amount q, pt_currency = py_currency q, pt_status = P_COMPLETED,
        pt_providerTransactionId = Some tn,
        pt_metadata = JObj [(''initiatedBy'', jsOfOpt u), (''channel'', JStr ''POS'')]\<rparr> s3 = Inr (x1, s4)"
    and cash: "(if sp_method (td_payment p) = CASH
       then bindT (orThrowT session (JsError ''Cannot read properties of null'')) (\<lambda>x.
          recordSale env t (cs_id x) (py_amount q) (or_id order) (py_id q) u)
       else returnT ()) s4 = Inr (x, s')"
    unfolding recordTender_def by (simp only: outcome) blast
  have s1: "payments s1 = payments s \<and> orders s1 = orders s \<and> cashSessions s1 = cashSessions s \<and> cashMovements s1 = cashMovements s"
    using i by (auto simp: shortId_eq returnT_def split: option.splits)
  have "settles t (or_id order) p q"
  proof (cases "razorpayPaid p")
    case None
    then show ?thesis using q by (simp add: insertPayment_Inr settles_def)
  next
    case (Some j)
    then have "i = j" using i by (simp add: returnT_def)
    then show ?thesis using q Some by (simp add: insertPayment_Inr settles_def)
  qed
  moreover have "py_amount q = td_amountCents p" "payments s2 = payments s @ [q]"
      "orders s2 = orders s" "cashSessions s2 = cashSessions s" "cashMovements s2 = cashMovements s"
    using q s1 by (simp_all add: insertPayment_Inr)
  ultimately have q': "settles t (or_id order) p q" "py_amount q = td_amountCents p" "payments s2 = payments s @ [q]"
      "orders s2 = orders s" "cashSessions s2 = cashSessions s" "cashMovements s2 = cashMovements s" by blast+
  then have s4: "payments s4 = payments s @ [q]" "orders s4 = orders s" "cashSessions s4 = cashSessions s" "cashMovements s4 = cashMovements s"
    using tn tx by (auto simp: shortId_eq insertPaymentTx_Inr)
  have ok: "list_all (\<lambda>p. case tenderedCents p of None \<Rightarrow> True | Some a \<Rightarrow> td_amountCents p \<le> a) [p]"
    using short by (cases "tenderedCents p") simp_all
  show ?thesis
  proof (cases "sp_method (td_payment p) = CASH")
    case False
    then have "s' = s4" using cash by (simp add: returnT_def)
    then show ?thesis using s4 q' ok False balance_frame [of s4 s]
      by (simp add: tendersDone_def cashCents_def drawerGain_def split: option.split)
  next
    case True
    then obtain y where y: "session = Some y" and sale: "recordSale env t (cs_id y) (py_amount q) (or_id order) (py_id q) u s4 = Inr (x, s')"
      using cash by (auto simp: outcome)
    from insertCash_Inr [OF sale] obtain m where m: "cashMovements s' = cashMovements s @ [m]" "cm_sessionId m = cs_id y"
        "cm_type m = C_SALE" "cm_amount m = td_amountCents p"
      and rest: "payments s' = payments s @ [q]" "orders s' = orders s" "cashSessions s' = cashSessions s"
      using s4 q'(2) by auto
    have "balance z s' = balance z s + drawerGain session (cashCents [p]) z" for z
      unfolding balance_append [OF m(1)] using m True by (simp add: y drawerGain_def cashCents_def signedAmount_def)
    then show ?thesis using rest q'(1) ok by (simp add: tendersDone_def)
  qed
qed

lemma recordTenders_Inr:
  "forT ps (recordTender env t u session order) s = Inr (x, s') \<Longrightarrow> tendersDone t order session ps s s'"
proof (induction ps arbitrary: s)
  case Nil
  then show ?case by (simp add: returnT_def tendersDone_Nil)
next
  case (Cons p ps)
  from Cons.prems obtain y s1 where one: "recordTender env t u session order p s = Inr (y, s1)"
    and rest: "forT ps (recordTender env t u session order) s1 = Inr (x, s')" by (auto simp: outcome)
  show ?case by (rule tendersDone_Cons [OF recordTender_Inr [OF one] Cons.IH [OF rest]])
qed

lemma settleSale_Inr:
  assumes "settleSale env t u session ps order s = Inr (x, s')"
  shows "sum_list (map td_amountCents ps) = or_total order
    \<and> (\<exists>s1 h. tendersDone t order session ps s s1 \<and> s' = (statusPut env (or_id order) O_DELIVERED s1)\<lparr>orderHistory := h\<rparr>)"
proof -
  from assms obtain x1 s1 x2 s2 where sum: "\<not> sum_list (map td_amountCents ps) \<noteq> cents (decToString (or_total order))"
    and loop: "forT ps (recordTender env t u session order) s = Inr (x1, s1)"
    and set: "setStatus env (or_id order) O_DELIVERED s1 = Inr (x2, s2)"
    and h: "s' = s2\<lparr>orderHistory := orderHistory s2 @ [\<lparr>hi_tenantId = t, hi_orderId = or_id order, hi_from = Some O_PENDING, hi_to = O_DELIVERED,
             hi_reason = Some ''Counter sale'', hi_createdBy = u\<rparr>]\<rparr>"
    unfolding settleSale_def Let_def insertHistory_def by (simp only: outcome) blast
  have "s2 = statusPut env (or_id order) O_DELIVERED s1" using set by (simp add: setStatus_eq split: if_splits)
  with sum h recordTenders_Inr [OF loop] show ?thesis by auto
qed

section \<open>The sale as a whole\<close>

definition tillSame :: "db \<Rightarrow> db \<Rightarrow> bool" where
  "tillSame s s' \<longleftrightarrow> payments s' = payments s \<and> cashMovements s' = cashMovements s \<and> cashSessions s' = cashSessions s
     \<and> orders s' = orders s \<and> gateways s' = gateways s"

lemma tillSame_refl: "tillSame s s"
  by (simp add: tillSame_def)

lemma tillSame_trans: "tillSame s s1 \<Longrightarrow> tillSame s1 s2 \<Longrightarrow> tillSame s s2"
  by (simp add: tillSame_def)

lemma tillSame_balance: "tillSame s s' \<Longrightarrow> balance x s' = balance x s"
  by (rule balance_frame) (simp add: tillSame_def)

lemma repoCreate_till: "repoCreate env data t s = Inr (c, s') \<Longrightarrow> tillSame s s'"
  by (auto simp: repoCreate_def freshId_def saveCustomers_def outcome monad_defs tillSame_def split: if_splits)

lemma walkInCustomer_till: "walkInCustomer env t s = (Inr c, s') \<Longrightarrow> tillSame s s'"
proof (cases "findByEmail (walkInEmail t) t s")
  case (Some d)
  assume "walkInCustomer env t s = (Inr c, s')"
  then show ?thesis by (simp add: walkInCustomer_def Some Let_def monad_defs tillSame_refl)
next
  case None
  assume run: "walkInCustomer env t s = (Inr c, s')"
  let ?data = "JObj [(''email'', JStr (walkInEmail t)), (''firstName'', JStr ''Walk-in''),
              (''lastName'', JStr ''Customer''), (''metadata'', JObj [(''walkIn'', JBool True)])]"
  show ?thesis
  proof (cases "repoCreate env ?data t s")
    case (Inl e)
    then have "s' = s" using run None by (auto simp: walkInCustomer_def Let_def monad_defs split: if_splits option.splits)
    then show ?thesis by (simp add: tillSame_refl)
  next
    case (Inr y)
    then have "s' = snd y" using run None by (cases y) (simp add: walkInCustomer_def Let_def monad_defs)
    then show ?thesis using repoCreate_till [of env ?data t s "fst y" "snd y"] Inr by simp
  qed
qed

lemma openSessionFor_SomeD: "openSessionFor t r s = Some x \<Longrightarrow> x \<in> set (cashSessions s) \<and> cs_status x = S_OPEN \<and> cs_tenantId x = t"
  by (auto simp: openSessionFor_def dest: find_SomeD)

text \<open>The shift of a sale: none without cash, else an open one of the business.\<close>

lemma saleSession_Inr:
  assumes "saleSession env t rid ps s = (Inr session, s')"
  shows "tillSame s s' \<and> (if 0 < cashCents ps then \<exists>x \<in> set (cashSessions s'). session = Some x \<and> cs_status x = S_OPEN \<and> cs_tenantId x = t
    else session = None)"
proof (cases "0 < cashCents ps")
  case False
  then show ?thesis using assms by (simp add: saleSession_def returnH_def tillSame_refl)
next
  case True
  from assms True obtain r s1 where r: "(case rid of Some r \<Rightarrow> returnH r
          | None \<Rightarrow> bindH (ensureDefaultRegister env t) (\<lambda>r.
              bindH (orThrowH r (JsError ''Cannot read properties of null'')) (\<lambda>x. returnH (rg_id x)))) s = (Inr r, s1)"
    and found: "openSessionFor t r s1 = session" "session \<noteq> None" and s': "s' = s1"
    by (auto simp: saleSession_def outcome)
  have "tillSame s s1"
  proof (cases rid)
    case (Some q)
    then show ?thesis using r by (simp add: returnH_def tillSame_refl)
  next
    case None
    then obtain res where "ensureDefaultRegister env t s = (res, s1)" using r by (auto simp: outcome)
    then show ?thesis using ensureDefaultRegister_frame by (fastforce simp: tillSame_def)
  qed
  then show ?thesis using True found s' openSessionFor_SomeD by fastforce
qed

lemma qrPayments_till: "qrPayments env rm cred q s = Inr (v, s') \<Longrightarrow> tillSame s s'"
  by (auto simp: qrPayments_def outcome razorpayCall_eq tillSame_def split: sum.splits)

lemma verifyRazorpayUpi_till: "verifyRazorpayUpi env rm t q a s = (Inr v, s') \<Longrightarrow> tillSame s s'"
  by (auto simp: verifyRazorpayUpi_def outcome Let_def dest!: qrPayments_till)

text \<open>What Razorpay answers when asked for the payments of a code: the answer may change from one call to the
  next, so the call is named by the request.\<close>

definition qrAnswer :: "remote \<Rightarrow> string \<Rightarrow> credentials \<Rightarrow> string \<Rightarrow> error + jsval" where
  "qrAnswer rm request cred qrId = callResult (rm_fetch rm request (cr_keyId cred, cr_keySecret cred) ''GET''
     (''/payments/qr_codes/'' @ qrId @ ''/payments'') JUndef)"

text \<open>The money of a code was received: Razorpay, asked with the keys of the business, listed a captured payment of
  exactly this amount whose id no earlier payment of the business carries.\<close>

definition receivedUpi :: "env \<Rightarrow> remote \<Rightarrow> string \<Rightarrow> db \<Rightarrow> string \<Rightarrow> paise \<Rightarrow> string \<Rightarrow> bool" where
  "receivedUpi env rm t s qrId a i \<longleftrightarrow> (\<exists>cred n answer. credentialsFor rm t False s = Inr (Some cred)
     \<and> qrAnswer rm (env_uuid env n) cred qrId = Inr answer
     \<and> (\<exists>paid \<in> set (qrItems answer). captured paid \<and> jget ''amount'' paid = jsInt a \<and> i = orEmpty (jsStr (jget ''id'' paid)))
     \<and> \<not> list_ex (\<lambda>p. py_tenantId p = t \<and> py_provider p = RAZORPAY \<and> py_providerPaymentId p = Some i) (payments s))"

lemma qrPayments_answer: "qrPayments env rm cred q s = Inr (v, s') \<Longrightarrow> qrAnswer rm (env_uuid env (drawn s)) cred q = Inr v"
  by (auto simp: qrPayments_def qrAnswer_def outcome razorpayCall_eq split: sum.splits)

lemma verifyRazorpayUpi_received:
  assumes "verifyRazorpayUpi env rm t q a s = (Inr v, s')"
  shows "receivedUpi env rm t s q a (fst v)"
proof -
  from assms obtain cred answer s1 paid where c: "credentialsFor rm t False s = Inr (Some cred)"
    and call: "qrPayments env rm cred q s = Inr (answer, s1)"
    and paid: "find (\<lambda>p. captured p \<and> jget ''amount'' p = jsInt a) (qrItems answer) = Some paid"
    and v: "fst v = orEmpty (jsStr (jget ''id'' paid))"
    and fresh: "\<not> list_ex (\<lambda>p. py_tenantId p = t \<and> py_provider p = RAZORPAY \<and> py_providerPaymentId p = Some (fst v)) (payments s1)"
    by (auto simp: verifyRazorpayUpi_def outcome Let_def)
  have "payments s1 = payments s" using qrPayments_till [OF call] by (simp add: tillSame_def)
  with c qrPayments_answer [OF call] find_SomeD [OF paid] v fresh show ?thesis unfolding receivedUpi_def by auto
qed

lemma receivedUpi_till: "tillSame s s' \<Longrightarrow> receivedUpi env rm t s' = receivedUpi env rm t s"
  by (simp add: receivedUpi_def credentialsFor_def findGateway_def tillSame_def fun_eq_iff)

text \<open>The code of a payment of the request that was paid by scanning one.\<close>

definition scanned :: "pos_payment \<Rightarrow> string option" where
  "scanned p = (if sp_method p = UPI then nonEmpty (sp_razorpayQrId p) else None)"

definition confirmedTender :: "env \<Rightarrow> remote \<Rightarrow> string \<Rightarrow> db \<Rightarrow> tender \<Rightarrow> tender \<Rightarrow> bool" where
  "confirmedTender env rm t s p q \<longleftrightarrow> td_payment q = td_payment p \<and> td_amountCents q = td_amountCents p
     \<and> (case scanned (td_payment p) of
          None \<Rightarrow> td_razorpayPaymentId q = td_razorpayPaymentId p
        | Some qrId \<Rightarrow> \<exists>i. td_razorpayPaymentId q = Some i \<and> receivedUpi env rm t s qrId (td_amountCents p) i)"

lemma confirmedTender_till: "tillSame s s' \<Longrightarrow> confirmedTender env rm t s' = confirmedTender env rm t s"
  by (rule ext)+ (simp only: confirmedTender_def receivedUpi_till)

lemma confirmTenders_Inr:
  "confirmTenders env rm t ps s = (Inr qs, s') \<Longrightarrow> tillSame s s' \<and> list_all2 (confirmedTender env rm t s) ps qs"
proof (induction ps arbitrary: s qs)
  case Nil
  then show ?case by (simp add: returnH_def tillSame_refl)
next
  case (Cons p ps)
  from Cons.prems obtain q qs' s1 where one: "(case (if sp_method (td_payment p) = UPI then nonEmpty (sp_razorpayQrId (td_payment p)) else None) of
         None \<Rightarrow> returnH p
       | Some qrId \<Rightarrow> bindH (verifyRazorpayUpi env rm t qrId (td_amountCents p)) (\<lambda>paid.
           returnH (p\<lparr>td_razorpayPaymentId := Some (fst paid), td_vpa := snd paid\<rparr>))) s = (Inr q, s1)"
    and rest: "confirmTenders env rm t ps s1 = (Inr qs', s')" and qs: "qs = q # qs'"
    by (auto simp: outcome)
  have "tillSame s s1 \<and> confirmedTender env rm t s p q"
  proof (cases "scanned (td_payment p)")
    case None
    then have "q = p" "s1 = s" using one by (auto simp: scanned_def returnH_def)
    then show ?thesis using None by (simp add: confirmedTender_def tillSame_refl)
  next
    case (Some qrId)
    then obtain v where "verifyRazorpayUpi env rm t qrId (td_amountCents p) s = (Inr v, s1)"
      and "q = p\<lparr>td_razorpayPaymentId := Some (fst v), td_vpa := snd v\<rparr>"
      using one by (auto simp: scanned_def outcome)
    then show ?thesis using Some verifyRazorpayUpi_till verifyRazorpayUpi_received by (auto simp: confirmedTender_def)
  qed
  moreover from this have "confirmedTender env rm t s1 = confirmedTender env rm t s"
    by (simp only: confirmedTender_till)
  ultimately show ?case using Cons.IH [OF rest] qs tillSame_trans by auto
qed

lemma confirmed_amounts: "list_all2 (confirmedTender env rm t s) ps qs \<Longrightarrow> map td_amountCents qs = map td_amountCents ps \<and> cashCents qs = cashCents ps"
  by (induction rule: list_all2_induct) (simp_all add: confirmedTender_def cashCents_def)

lemma emitted_till:
  "\<exists>ms. fold (\<lambda>p s. snd (emitPaymentCompleted env t (f p) s)) ps s = s\<lparr>sent := sent s @ ms\<rparr>"
proof (induction ps arbitrary: s)
  case Nil
  show ?case by (rule exI [of _ "[]"]) simp
next
  case (Cons p ps)
  obtain ms where "snd (emitPaymentCompleted env t (f p) s) = s\<lparr>sent := sent s @ ms\<rparr>" using emitters_frame(4) by blast
  with Cons.IH [of "s\<lparr>sent := sent s @ ms\<rparr>"] show ?case by auto
qed

lemma orderCore_till:
  assumes "orderCore env t ctx p s = Inr (order, s')" "list_all calcOk (pp_items p)"
  shows "payments s' = payments s \<and> cashMovements s' = cashMovements s \<and> cashSessions s' = cashSessions s
    \<and> orders s' = orders s @ [order] \<and> \<not> list_ex (\<lambda>o'. or_id o' = or_id order) (orders s)"
proof (rule orderCore_Inr [OF assms refl], goal_cases)
  case (1 i iv wv ids d al ac)
  have "payments s' = payments s" "cashMovements s' = cashMovements s" "cashSessions s' = cashSessions s"
    "orders s' = orders s @ [order]" by (subst 1(7), simp)+
  moreover have "\<not> list_ex (\<lambda>o'. or_id o' = or_id order) (orders s)" using 1(2) by (auto simp: orderTaken_def list_ex_iff)
  ultimately show ?thesis by blast
qed

text \<open>Payments belong to orders the database has.\<close>

definition paymentsRefer :: "db \<Rightarrow> bool" where
  "paymentsRefer s \<longleftrightarrow> list_all (\<lambda>q. list_ex (\<lambda>r. or_id r = py_orderId q) (orders s)) (payments s)"

lemma fresh_order_payments:
  assumes "paymentsRefer s" "\<not> list_ex (\<lambda>r. or_id r = i) (orders s)" "list_all2 (settles t i) ps qs"
  shows "filter (\<lambda>p. py_tenantId p = t \<and> py_orderId p = i) (payments s @ qs) = qs"
proof -
  have "filter (\<lambda>p. py_tenantId p = t \<and> py_orderId p = i) (payments s) = []"
    using assms(1,2) by (auto simp: paymentsRefer_def list_all_iff list_ex_iff filter_empty_conv)
  moreover have "filter (\<lambda>p. py_tenantId p = t \<and> py_orderId p = i) qs = qs"
    using assms(3) by (auto simp: list_all2_conv_all_nth settles_def in_set_conv_nth intro!: filter_True)
  ultimately show ?thesis by simp
qed

lemma commitSale_Inr:
  assumes "commitSale env faults leftover t ctx body c w session ps s = (Inr r, s')" "paymentsRefer s"
  shows "(\<exists>qs. payments s' = payments s @ qs \<and> sr_payments r = leftover @ qs
      \<and> sr_change r = money (sum_list (map noted (leftover @ qs)))
      \<and> list_all2 (settles t (or_id (sr_order r))) ps qs)
    \<and> sum_list (map td_amountCents ps) = or_total (sr_order r)
    \<and> orders s' = orders s @ [sr_order r] \<and> or_tenantId (sr_order r) = t \<and> or_status (sr_order r) = O_DELIVERED
    \<and> (\<forall>x. balance x s' = balance x s + drawerGain session (cashCents ps) x) \<and> cashSessions s' = cashSessions s
    \<and> list_all (\<lambda>p. case tenderedCents p of None \<Rightarrow> True | Some a \<Rightarrow> td_amountCents p \<le> a) ps"
proof -
  define created where "created s1 y = leftover @ filter (\<lambda>p. py_tenantId p = t \<and> py_orderId p = or_id y) (payments s1)"
    for s1 :: db and y :: order_row
  from assms obtain y s1 where run: "createOrder env faults t ctx (saleOrder c w session body)
      (settleSale env t (cx_userId ctx) session ps) s = (Inr y, s1)"
    and emit: "s' = fold (\<lambda>p s. snd (emitPaymentCompleted env t (paymentEvent t p True) s)) (created s1 y) s1"
    and r: "r = \<lparr>sr_order = y, sr_payments = created s1 y, sr_change = money (sum_list (map noted (created s1 y)))\<rparr>"
    unfolding created_def noted_def by (simp only: commitSale_def outcome) blast
  have y: "sr_order r = y" by (simp add: r)
  obtain ms where s': "s' = s1\<lparr>sent := sent s1 @ ms\<rparr>"
    using emitted_till [of env t "\<lambda>p. paymentEvent t p True" "created s1 y" s1] emit by auto
  from createOrder_Inr [OF run] obtain p order s2 s3 ms' js where p: "preparedOk p"
    and core: "orderCore env t ctx p s = Inr (order, s2)" and hook: "settleSale env t (cx_userId ctx) session ps order s2 = Inr ((), s3)"
    and found: "findOrder (or_id order) t s3 = Some y" and s1: "s1 = s3\<lparr>sent := sent s3 @ ms', jobs := jobs s3 @ js\<rparr>"
    by metis
  have ok: "list_all calcOk (pp_items p)" using p by (simp add: preparedOk_def)
  note till = orderCore_till [OF core ok]
  from settleSale_Inr [OF hook] obtain s4 h where sum: "sum_list (map td_amountCents ps) = or_total order"
    and did: "tendersDone t order session ps s2 s4" and s3: "s3 = (statusPut env (or_id order) O_DELIVERED s4)\<lparr>orderHistory := h\<rparr>" by blast
  have "findOrder (or_id order) t s4 = findOrder (or_id order) t s2" using did by (simp add: tendersDone_def findOrder_def)
  then have "findOrder (or_id order) t s4 = Some order" using orderCore_order [OF core ok] by simp
  then have "findOrder (or_id order) t (statusPut env (or_id order) O_DELIVERED s4) = Some (withStatus env O_DELIVERED order)"
    by (simp add: findOrder_statusPut)
  then have yr: "y = withStatus env O_DELIVERED order" using found s3 by (simp add: findOrder_def)
  have same: "payments s' = payments s4" "cashMovements s' = cashMovements s4" "cashSessions s' = cashSessions s4"
      "orders s' = orders (statusPut env (or_id order) O_DELIVERED s4)" "payments s1 = payments s4"
    by (simp_all add: s' s1 s3 statusPut_def)
  have none: "updateMany (\<lambda>r. or_id r = or_id order) (withStatus env O_DELIVERED) (orders s) = orders s"
    using till by (intro updateMany_none) (auto simp: list_ex_iff)
  have orders: "orders s' = orders s @ [y]"
    using did till by (simp add: same(4) statusPut_def tendersDone_def yr none)
  obtain qs where qs: "payments s4 = payments s @ qs" "list_all2 (settles t (or_id order)) ps qs"
    using did till by (auto simp: tendersDone_def)
  have "created s1 y = leftover @ qs"
    using fresh_order_payments [OF assms(2) _ qs(2)] till by (simp add: created_def same(5) qs(1) yr)
  then have "\<exists>qs. payments s' = payments s @ qs \<and> sr_payments r = leftover @ qs
      \<and> sr_change r = money (sum_list (map noted (leftover @ qs))) \<and> list_all2 (settles t (or_id y)) ps qs"
    using qs by (intro exI [of _ qs]) (simp add: r same(1) yr)
  moreover have "balance x s' = balance x s + drawerGain session (cashCents ps) x" for x
    using balance_frame [OF same(2)] did balance_frame [of s2 s x] till by (simp add: tendersDone_def)
  moreover have "cashSessions s' = cashSessions s" using did till same(3) by (simp add: tendersDone_def)
  moreover have "or_tenantId y = t" using found by (auto simp: findOrder_def dest: find_SomeD)
  ultimately show ?thesis using sum did orders unfolding y yr by (simp add: tendersDone_def withStatus_def)
qed

text \<open>What a payment row of the sale says of a payment of the request: its amount, the new order, and where its money
  came from. A scanned code was confirmed with Razorpay, and the row carries the id of that payment.\<close>

definition salePayment :: "env \<Rightarrow> remote \<Rightarrow> string \<Rightarrow> db \<Rightarrow> string \<Rightarrow> pos_payment \<Rightarrow> payment_row \<Rightarrow> bool" where
  "salePayment env rm t s oid p q \<longleftrightarrow>
     py_amount q = cents (sp_amount p) \<and> py_status q = P_COMPLETED \<and> py_tenantId q = t \<and> py_orderId q = oid
   \<and> (case scanned p of
        None \<Rightarrow> py_provider q = toLowerCase (method_str (sp_method p))
      | Some qrId \<Rightarrow> \<exists>i. receivedUpi env rm t s qrId (cents (sp_amount p)) i
          \<and> (i = [] \<or> py_provider q = RAZORPAY \<and> py_providerPaymentId q = Some i))"

text \<open>A cash payment is covered by what was handed over, when the request says what that was.\<close>

definition coversCash :: "pos_payment \<Rightarrow> bool" where
  "coversCash p \<longleftrightarrow> (case (sp_method p, sp_tendered p) of
      (CASH, Some a) \<Rightarrow> a = [] \<or> cents (sp_amount p) \<le> cents a
    | _ \<Rightarrow> True)"

lemma tender_payment:
  assumes "confirmedTender env rm t s (toTender p) x" "settles t oid x q"
    and "case tenderedCents x of None \<Rightarrow> True | Some a \<Rightarrow> td_amountCents x \<le> a"
  shows "salePayment env rm t s oid p q" "noted q = changeDue p" "coversCash p"
proof -
  from assms(1) have x: "td_payment x = p" "td_amountCents x = cents (sp_amount p)"
    by (simp_all add: confirmedTender_def toTender_def)
  have noted: "noted q = (case tenderedCents x of None \<Rightarrow> 0 | Some a \<Rightarrow> a - td_amountCents x)"
    using assms(2) by (intro noted_tender) (simp add: settles_def)
  show "noted q = changeDue p" "coversCash p"
    using noted assms(3) by (simp_all add: tenderedCents_def changeDue_def coversCash_def x nonEmpty_def split: option.splits pay_method.splits if_splits)
  show "salePayment env rm t s oid p q"
  proof (cases "scanned p")
    case None
    then have "razorpayPaid x = None"
      using assms(1) by (simp add: confirmedTender_def toTender_def razorpayPaid_def scanned_def nonEmpty_def)
    then show ?thesis using None assms(2) x by (simp add: salePayment_def settles_def)
  next
    case (Some qrId)
    then obtain i where i: "td_razorpayPaymentId x = Some i" "receivedUpi env rm t s qrId (cents (sp_amount p)) i"
      using assms(1) by (auto simp: confirmedTender_def toTender_def)
    have "sp_method p = UPI" using Some by (simp add: scanned_def split: if_splits)
    then have "razorpayPaid x = (if i = [] then None else Some i)" using i x by (simp add: razorpayPaid_def nonEmpty_def)
    then show ?thesis using Some i assms(2) x by (auto simp: salePayment_def settles_def)
  qed
qed

lemma tender_payments:
  assumes "list_all2 (confirmedTender env rm t s) (map toTender ps) xs" "list_all2 (settles t oid) xs qs"
    and "list_all (\<lambda>p. case tenderedCents p of None \<Rightarrow> True | Some a \<Rightarrow> td_amountCents p \<le> a) xs"
  shows "list_all2 (salePayment env rm t s oid) ps qs \<and> map noted qs = map changeDue ps \<and> list_all coversCash ps"
  using assms
proof (induction ps arbitrary: xs qs)
  case Nil
  then show ?case by simp
next
  case (Cons p ps)
  then show ?case using tender_payment by (fastforce simp: list_all2_Cons1)
qed

text \<open>C31: a counter sale settles its bill. When a sale returns, exactly one order was added, already delivered. For
  each payment of the request one completed payment of that amount was added to it, and the amounts add up to the
  order's total. A payment by a scanned code was confirmed: Razorpay listed a captured payment of exactly that amount
  that no earlier payment of the business had used, and the new payment carries its id. No cash payment took less over
  the counter than its amount. The answer lists these payments, and its change is what was handed over beyond the
  cash amounts. The drawer of one shift of the business that was open grew by exactly the cash taken; every other
  drawer is as it was. Should the database have made the service repeat the transaction, the answer also lists the
  payments an undone attempt had created, and counts their change (\<open>leftover\<close>).\<close>

theorem counter_sale_settles_bill:
  assumes run: "sale env rm faults leftover t ctx body s = (Inr r, s')" and refer: "paymentsRefer s"
  shows "\<exists>qs session. orders s' = orders s @ [sr_order r] \<and> or_tenantId (sr_order r) = t \<and> or_status (sr_order r) = O_DELIVERED
    \<and> payments s' = payments s @ qs
    \<and> list_all2 (salePayment env rm t s (or_id (sr_order r))) (sb_payments body) qs
    \<and> sum_list (map (\<lambda>p. cents (sp_amount p)) (sb_payments body)) = or_total (sr_order r)
    \<and> list_all coversCash (sb_payments body)
    \<and> sr_payments r = leftover @ qs
    \<and> sr_change r = money (sum_list (map noted leftover) + sum_list (map changeDue (sb_payments body)))
    \<and> (if 0 < cashCents (map toTender (sb_payments body))
       then \<exists>x \<in> set (cashSessions s). session = Some x \<and> cs_status x = S_OPEN \<and> cs_tenantId x = t else session = None)
    \<and> (\<forall>x. balance x s' = balance x s + drawerGain session (cashCents (map toTender (sb_payments body))) x)"
proof -
  let ?ps = "map toTender (sb_payments body)"
  from run obtain c s1 w session s2 xs s3 where
      cust: "(case sb_customerId body of Some i \<Rightarrow> returnH i
        | None \<Rightarrow> bindH (walkInCustomer env t) (\<lambda>c. returnH (cu_id c))) s = (Inr c, s1)"
    and sess: "saleSession env t (sb_registerId body) ?ps s1 = (Inr session, s2)"
    and conf: "confirmTenders env rm t ?ps s2 = (Inr xs, s3)"
    and commit: "commitSale env faults leftover t ctx body c w session xs s3 = (Inr r, s')"
    by (auto simp: sale_def outcome Let_def)
  have "tillSame s s1" using cust by (auto simp: outcome tillSame_refl split: option.splits dest!: walkInCustomer_till)
  then have till: "tillSame s s3" "tillSame s s2"
    using saleSession_Inr [OF sess] confirmTenders_Inr [OF conf] tillSame_trans by blast+
  have "confirmedTender env rm t s2 = confirmedTender env rm t s"
    by (rule confirmedTender_till [OF till(2)])
  then have same: "list_all2 (confirmedTender env rm t s) ?ps xs" using confirmTenders_Inr [OF conf] by simp
  note amounts = confirmed_amounts [OF same]
  have refer3: "paymentsRefer s3" using refer till(1) by (simp add: paymentsRefer_def tillSame_def)
  from commitSale_Inr [OF commit refer3] obtain qs where qs: "payments s' = payments s3 @ qs" "sr_payments r = leftover @ qs"
      "sr_change r = money (sum_list (map noted (leftover @ qs)))" "list_all2 (settles t (or_id (sr_order r))) xs qs"
    and sum: "sum_list (map td_amountCents xs) = or_total (sr_order r)"
    and order: "orders s' = orders s3 @ [sr_order r]" "or_tenantId (sr_order r) = t" "or_status (sr_order r) = O_DELIVERED"
    and bal: "\<forall>x. balance x s' = balance x s3 + drawerGain session (cashCents xs) x"
    and short: "list_all (\<lambda>p. case tenderedCents p of None \<Rightarrow> True | Some a \<Rightarrow> td_amountCents p \<le> a) xs" by blast
  note rows = tender_payments [OF same qs(4) short]
  have "map td_amountCents xs = map (\<lambda>p. cents (sp_amount p)) (sb_payments body)"
    using amounts by (simp add: toTender_def comp_def)
  with sum have total: "sum_list (map (\<lambda>p. cents (sp_amount p)) (sb_payments body)) = or_total (sr_order r)" by simp
  have change: "sr_change r = money (sum_list (map noted leftover) + sum_list (map changeDue (sb_payments body)))"
    using qs(3) rows by simp
  have "cashSessions s2 = cashSessions s" using till(2) by (simp add: tillSame_def)
  then have shift: "if 0 < cashCents ?ps then \<exists>x \<in> set (cashSessions s). session = Some x \<and> cs_status x = S_OPEN \<and> cs_tenantId x = t
      else session = None"
    using saleSession_Inr [OF sess] by (auto split: if_splits)
  have gain: "\<forall>x. balance x s' = balance x s + drawerGain session (cashCents ?ps) x"
    using bal amounts tillSame_balance [OF till(1)] by simp
  have "payments s' = payments s @ qs" "orders s' = orders s @ [sr_order r]" using qs(1) order(1) till(1) by (simp_all add: tillSame_def)
  with rows total change shift gain qs(2) order(2,3) show ?thesis by blast
qed

section \<open>A sale at the counter\<close>

definition tillDb :: db where
  "tillDb = shiftDb\<lparr>variants := [demoVariant ''v'' 10],
     gateways := [\<lparr>gw_tenantId = ''t'', gw_provider = ''razorpay'', gw_keyId = ''key'',
       gw_keySecretEncrypted = ''v1:00:74:73'', gw_webhookSecretEncrypted = None, gw_enabled = True, gw_updatedAt = 0\<rparr>]\<rparr>"

text \<open>A provider that answers every call with one captured payment of four paise.\<close>

definition qrPaid :: jsval where
  "qrPaid = JObj [(''id'', JStr ''pay9''), (''status'', JStr ''captured''), (''amount'', JNum 4)]"

definition qrRemote :: remote where
  "qrRemote = demoRemote\<lparr>rm_fetch := \<lambda>r c m p b. Response 200 (JObj [(''items'', JArr [qrPaid])])\<rparr>"

definition cashSale :: sale_body where
  "cashSale = \<lparr>sb_customerId = Some ''c'', sb_warehouseId = Some ''w1'', sb_registerId = Some ''r'',
     sb_items = [\<lparr>si_variantId = ''v'', si_quantity = 2, si_discount = None\<rparr>],
     sb_payments = [\<lparr>sp_method = CASH, sp_amount = ''0.20'', sp_tendered = Some ''0.50'', sp_reference = None, sp_razorpayQrId = None\<rparr>,
       \<lparr>sp_method = UPI, sp_amount = ''0.04'', sp_tendered = None, sp_reference = None, sp_razorpayQrId = Some ''qr1''\<rparr>],
     sb_note = None\<rparr>"

lemma cashSale_runs: "succeeded (sale demoEnv qrRemote (\<lambda>_. None) [] ''t'' clerkCtx cashSale tillDb)"
  by code_simp

lemma counter_sale_settles_bill_witness:
  "\<exists>r s'. sale demoEnv qrRemote (\<lambda>_. None) [] ''t'' clerkCtx cashSale tillDb = (Inr r, s')
     \<and> orders s' = [sr_order r] \<and> map py_amount (payments s') = [20, 4] \<and> or_total (sr_order r) = 24
     \<and> or_status (sr_order r) = O_DELIVERED \<and> sr_payments r = payments s' \<and> sr_change r = ''0.30''
     \<and> py_providerPaymentId (payments s' ! 1) = Some ''pay9''"
proof -
  obtain r s' where run: "sale demoEnv qrRemote (\<lambda>_. None) [] ''t'' clerkCtx cashSale tillDb = (Inr r, s')"
    using cashSale_runs by (rule succeededE)
  have c: "cents ''0.20'' = 20" "cents ''0.04'' = 4" "cents ''0.50'' = 50" "money 30 = ''0.30''" by code_simp+
  have none: "payments tillDb = []" "orders tillDb = []" by (simp_all add: tillDb_def shiftDb_def demoDb_def emptyDb_def)
  have refer: "paymentsRefer tillDb" by (simp add: paymentsRefer_def none)
  from counter_sale_settles_bill [OF run refer] obtain qs where qs: "orders s' = orders tillDb @ [sr_order r]"
    "or_status (sr_order r) = O_DELIVERED" "payments s' = payments tillDb @ qs"
    "list_all2 (salePayment demoEnv qrRemote ''t'' tillDb (or_id (sr_order r))) (sb_payments cashSale) qs"
    "sum_list (map (\<lambda>p. cents (sp_amount p)) (sb_payments cashSale)) = or_total (sr_order r)"
    "sr_payments r = [] @ qs"
    "sr_change r = money (sum_list (map noted []) + sum_list (map changeDue (sb_payments cashSale)))"
    by (elim exE conjE) blast
  have "map py_amount qs = map (\<lambda>p. cents (sp_amount p)) (sb_payments cashSale)"
    using qs(4) by (auto simp: list_all2_conv_all_nth salePayment_def intro!: nth_equalityI)
  then have "map py_amount (payments s') = [20, 4]" "or_total (sr_order r) = 24"
    using qs(3,5) by (simp_all add: none cashSale_def c)
  moreover have "sr_change r = ''0.30''" using qs(7) by (simp add: cashSale_def changeDue_def c)
  moreover have "py_providerPaymentId (payments s' ! 1) = Some ''pay9''"
    using qs(3,4) by (auto simp: none cashSale_def list_all2_Cons1 salePayment_def scanned_def nonEmpty_def receivedUpi_def
      qrAnswer_def callResult_def qrRemote_def qrItems_def qrPaid_def jsStr_def orEmpty_def)
  ultimately show ?thesis using run qs(1,2,3,6) by (intro exI [of _ r] exI [of _ s'] conjI) (simp_all add: none)
qed

end
