(* ===== verification/Shopper.thy ===== *)
theory Shopper
  imports Access
begin

text \<open>
  Shoppers of a public store: their sign-in (src/src/modules/storefront/storefront.auth.js) and the check of their
  token (authenticateCustomer of src/src/modules/storefront/storefront.middleware.js). The state is the customer
  rows with the columns sign-in uses, their sessions and one-time tokens. Random identifiers and secrets come from the
  stream of \<open>env\<close>; SHA-256, argon2 and the signing of tokens are the record \<open>auth_world\<close> of theory Auth.
\<close>

section \<open>Rows\<close>

record shopper_row =
  hp_id :: string
  hp_tenantId :: string
  hp_email :: string
  hp_firstName :: string
  hp_lastName :: string
  hp_phone :: "string option"
  hp_passwordHash :: "string option"
  hp_emailVerifiedAt :: "int option"
  hp_lastLoginAt :: "int option"
  hp_deletedAt :: "int option"
  hp_createdAt :: int

record shopper_session =
  ss_id :: string
  ss_tenantId :: string
  ss_customerId :: string
  ss_refreshTokenHash :: string
  ss_expiresAt :: int
  ss_revokedAt :: "int option"
  ss_lastUsedAt :: "int option"
  ss_userAgent :: "string option"
  ss_ipAddress :: "string option"

record shopper_token =
  sk_id :: string
  sk_tenantId :: string
  sk_customerId :: string
  sk_tokenHash :: string
  sk_expiresAt :: int
  sk_usedAt :: "int option"

record mall =
  ml_shoppers :: "shopper_row list"
  ml_sessions :: "shopper_session list"
  ml_tokens :: "shopper_token list"
  ml_jobs :: "jsval list"
  ml_drawn :: nat

type_synonym 'a malltx = "(mall, 'a) tx"
type_synonym 'a mallio = "(mall, 'a) io"

text \<open>The store of a request, as the middleware puts it there.\<close>

record open_store =
  os_id :: string
  os_slug :: string
  os_name :: string
  os_settings :: jsval
  os_currency :: string
  os_gstRatePercent :: rat

definition SESSION_DAYS :: int where
  "SESSION_DAYS = 30"

definition TOKEN_HOURS :: int where
  "TOKEN_HOURS = 24"

abbreviation badLink :: error where
  "badLink \<equiv> AppError 400 ''INVALID_TOKEN''"

abbreviation invalidRefresh :: error where
  "invalidRefresh \<equiv> AppError 401 ''INVALID_REFRESH_TOKEN''"

definition drawM :: "env \<Rightarrow> string malltx" where
  "drawM env = bindT (readT (\<lambda>m. env_uuid env (ml_drawn m)))
     (\<lambda>x. thenT (writeT (\<lambda>m. m\<lparr>ml_drawn := Suc (ml_drawn m)\<rparr>)) (returnT x))"

definition findShopper :: "string \<Rightarrow> mall \<Rightarrow> shopper_row option" where
  "findShopper i m = find (\<lambda>c. hp_id c = i) (ml_shoppers m)"

definition shopperByEmail :: "string \<Rightarrow> string \<Rightarrow> mall \<Rightarrow> shopper_row option" where
  "shopperByEmail tenantId email m =
     find (\<lambda>c. hp_tenantId c = tenantId \<and> hp_email c = email \<and> hp_deletedAt c = None) (ml_shoppers m)"

section \<open>Sessions\<close>

record profile =
  pf_id :: string
  pf_email :: string
  pf_firstName :: string
  pf_lastName :: string
  pf_phone :: "string option"
  pf_emailVerified :: bool
  pf_createdAt :: int

definition toProfile :: "shopper_row \<Rightarrow> profile" where
  "toProfile c = \<lparr>pf_id = hp_id c, pf_email = hp_email c, pf_firstName = hp_firstName c, pf_lastName = hp_lastName c,
     pf_phone = hp_phone c, pf_emailVerified = (hp_emailVerifiedAt c \<noteq> None), pf_createdAt = hp_createdAt c\<rparr>"

record shop_tokens =
  tk_accessToken :: string
  tk_refreshToken :: string
  tk_sessionId :: string
  tk_customer :: profile

definition tokensFor :: "env \<Rightarrow> auth_world \<Rightarrow> open_store \<Rightarrow> shopper_row \<Rightarrow> string \<Rightarrow> string \<Rightarrow> shop_tokens" where
  "tokensFor env aw store customer sessionId refreshToken =
     \<lparr>tk_accessToken = aw_sign aw (env_now env) \<lparr>cl_sub = hp_id customer, cl_tenantId = os_id store,
        cl_sessionId = sessionId, cl_email = [], cl_scope = ''customer''\<rparr>,
      tk_refreshToken = refreshToken, tk_sessionId = sessionId, tk_customer = toProfile customer\<rparr>"

definition insertSessionRow :: "env \<Rightarrow> shopper_session \<Rightarrow> string malltx" where
  "insertSessionRow env row = bindT (drawM env) (\<lambda>i.
     bindT (readT (\<lambda>m. list_ex (\<lambda>r. ss_id r = i) (ml_sessions m))) (\<lambda>clash.
     thenT (throwIfT clash uniqueViolation)
    (thenT (writeT (\<lambda>m. m\<lparr>ml_sessions := ml_sessions m @ [row\<lparr>ss_id := i\<rparr>]\<rparr>)) (returnT i))))"

definition issueSession :: "env \<Rightarrow> auth_world \<Rightarrow> open_store \<Rightarrow> shopper_row \<Rightarrow> client \<Rightarrow> shop_tokens malltx" where
  "issueSession env aw store customer client =
     bindT (drawM env) (\<lambda>secret.
     bindT (insertSessionRow env \<lparr>ss_id = [], ss_tenantId = os_id store, ss_customerId = hp_id customer,
        ss_refreshTokenHash = ''pending'', ss_expiresAt = env_now env + SESSION_DAYS * 86400000, ss_revokedAt = None,
        ss_lastUsedAt = None, ss_userAgent = map_option (take 512) (ci_userAgent client),
        ss_ipAddress = map_option (take 64) (ci_ipAddress client)\<rparr>) (\<lambda>sessionId.
     let refreshToken = sessionId @ ''.'' @ secret in
     thenT (writeT (\<lambda>m. m\<lparr>ml_sessions := updateMany (\<lambda>r. ss_id r = sessionId)
        (\<lambda>r. r\<lparr>ss_refreshTokenHash := aw_sha256 aw refreshToken\<rparr>) (ml_sessions m)\<rparr>))
       (returnT (tokensFor env aw store customer sessionId refreshToken))))"

section \<open>The link that sets a password\<close>

definition insertToken :: "env \<Rightarrow> shopper_token \<Rightarrow> unit malltx" where
  "insertToken env row = bindT (drawM env) (\<lambda>i.
     bindT (readT (\<lambda>m. list_ex (\<lambda>r. sk_id r = i \<or> sk_tokenHash r = sk_tokenHash row) (ml_tokens m))) (\<lambda>clash.
     thenT (throwIfT clash uniqueViolation)
       (writeT (\<lambda>m. m\<lparr>ml_tokens := ml_tokens m @ [row\<lparr>sk_id := i\<rparr>]\<rparr>))))"

definition linkEmail :: "open_store \<Rightarrow> shopper_row \<Rightarrow> string \<Rightarrow> string \<Rightarrow> email_job" where
  "linkEmail store customer purpose raw =
     \<lparr>ej_tenantId = os_id store, ej_to = hp_email customer,
      ej_subject = (if purpose = ''reset'' then ''Reset your '' @ os_name store @ '' password''
        else ''Finish creating your '' @ os_name store @ '' account''),
      ej_text = Some (''Use this code to '' @ (if purpose = ''reset'' then ''reset your password'' else ''set your password'')
        @ '' at '' @ os_name store @ '': '' @ raw @ NL @ ''It expires in '' @ show_int TOKEN_HOURS
        @ '' hours. If you didn'' @ APOS @ ''t ask for this, ignore this email.''),
      ej_template = Some ''customer.set_password'',
      ej_variables = JObj [(''storeName'', JStr (os_name store)), (''code'', JStr raw), (''purpose'', JStr purpose)]\<rparr>"

definition enqueueMallEmail :: "env \<Rightarrow> email_job \<Rightarrow> unit mallio" where
  "enqueueMallEmail env j =
     thenH (throwIfH (ej_tenantId j = []) (JsError ''tenantId is required''))
    (thenH (throwIfH (ej_to j = []) (JsError ''to is required''))
       (writeH (\<lambda>m. m\<lparr>ml_jobs := ml_jobs m @ [JObj [(''id'', JUndef), (''data'', emailPayload env j)]]\<rparr>)))"

definition newLinkTx :: "env \<Rightarrow> auth_world \<Rightarrow> open_store \<Rightarrow> shopper_row \<Rightarrow> string \<Rightarrow> unit malltx" where
  "newLinkTx env aw store customer raw =
     thenT (writeT (\<lambda>m. m\<lparr>ml_tokens := updateMany (\<lambda>t. sk_customerId t = hp_id customer \<and> sk_usedAt t = None)
        (\<lambda>t. t\<lparr>sk_usedAt := Some (env_now env)\<rparr>) (ml_tokens m)\<rparr>))
       (insertToken env \<lparr>sk_id = [], sk_tenantId = os_id store, sk_customerId = hp_id customer,
          sk_tokenHash = aw_sha256 aw raw, sk_expiresAt = env_now env + TOKEN_HOURS * 3600000, sk_usedAt = None\<rparr>)"

definition sendSetPasswordLink :: "env \<Rightarrow> auth_world \<Rightarrow> open_store \<Rightarrow> shopper_row \<Rightarrow> string \<Rightarrow> string mallio" where
  "sendSetPasswordLink env aw store customer purpose =
     bindH (transaction (drawM env)) (\<lambda>raw.
     thenH (transaction (newLinkTx env aw store customer raw))
    (thenH (catchH (enqueueMallEmail env (linkEmail store customer purpose raw)) (\<lambda>_. returnH ()))
       (returnH raw)))"

text \<open>The answer, the same for every e-mail address; outside production it carries the code.\<close>

definition accepted :: "auth_world \<Rightarrow> string option \<Rightarrow> string option" where
  "accepted aw devToken = (if aw_exposeDevTokens aw then nonEmpty devToken else None)"

record signup =
  su_email :: string
  su_firstName :: string
  su_lastName :: string
  su_phone :: "string option"

text \<open>\<open>customer.create\<close>; the e-mail of an active customer is unique in a business.\<close>

definition insertShopper :: "env \<Rightarrow> open_store \<Rightarrow> signup \<Rightarrow> shopper_row malltx" where
  "insertShopper env store d = bindT (drawM env) (\<lambda>i.
     bindT (readT (\<lambda>m. list_ex (\<lambda>c. hp_id c = i
         \<or> hp_tenantId c = os_id store \<and> hp_email c = su_email d \<and> hp_deletedAt c = None) (ml_shoppers m))) (\<lambda>clash.
     thenT (throwIfT clash uniqueViolation)
    (let row = \<lparr>hp_id = i, hp_tenantId = os_id store, hp_email = su_email d, hp_firstName = su_firstName d,
         hp_lastName = su_lastName d, hp_phone = su_phone d, hp_passwordHash = None, hp_emailVerifiedAt = None,
         hp_lastLoginAt = None, hp_deletedAt = None, hp_createdAt = env_now env\<rparr>
     in thenT (writeT (\<lambda>m. m\<lparr>ml_shoppers := ml_shoppers m @ [row]\<rparr>)) (returnT row))))"

definition shopperSignup :: "env \<Rightarrow> auth_world \<Rightarrow> open_store \<Rightarrow> signup \<Rightarrow> string option mallio" where
  "shopperSignup env aw store d =
     bindH (readH (shopperByEmail (os_id store) (su_email d))) (\<lambda>found.
     case found of
       Some customer \<Rightarrow>
         (if nonEmpty (hp_passwordHash customer) \<noteq> None then returnH (accepted aw None)
          else bindH (sendSetPasswordLink env aw store customer ''signup'') (\<lambda>raw. returnH (accepted aw (Some raw))))
     | None \<Rightarrow>
         bindH (catchH (bindH (transaction (insertShopper env store d)) (\<lambda>c. returnH (Some c)))
            (\<lambda>err. if isUniqueViolation err then returnH None else throwH err)) (\<lambda>created.
         case created of
           None \<Rightarrow> returnH (accepted aw None)
         | Some customer \<Rightarrow>
             bindH (sendSetPasswordLink env aw store customer ''signup'') (\<lambda>raw. returnH (accepted aw (Some raw)))))"

definition shopperForgotPassword :: "env \<Rightarrow> auth_world \<Rightarrow> open_store \<Rightarrow> string \<Rightarrow> string option mallio" where
  "shopperForgotPassword env aw store email =
     bindH (readH (shopperByEmail (os_id store) email)) (\<lambda>found.
     case found of
       None \<Rightarrow> returnH (accepted aw None)
     | Some customer \<Rightarrow>
         bindH (sendSetPasswordLink env aw store customer
             (if nonEmpty (hp_passwordHash customer) \<noteq> None then ''reset'' else ''signup'')) (\<lambda>raw.
         returnH (accepted aw (Some raw))))"

text \<open>The transaction that redeems a code: it claims the token that was read before it began.\<close>

definition setPasswordTx ::
  "env \<Rightarrow> auth_world \<Rightarrow> open_store \<Rightarrow> shopper_token \<Rightarrow> shopper_row \<Rightarrow> string \<Rightarrow> client \<Rightarrow> shop_tokens malltx" where
  "setPasswordTx env aw store rec holder passwordHash client =
     bindT (readT (\<lambda>m. countWhere (\<lambda>t. sk_id t = sk_id rec \<and> sk_usedAt t = None) (ml_tokens m))) (\<lambda>claimed.
     thenT (writeT (\<lambda>m. m\<lparr>ml_tokens := updateMany (\<lambda>t. sk_id t = sk_id rec \<and> sk_usedAt t = None)
        (\<lambda>t. t\<lparr>sk_usedAt := Some (env_now env)\<rparr>) (ml_tokens m)\<rparr>))
    (thenT (throwIfT (claimed = 0) badLink)
    (bindT (readT (findShopper (sk_customerId rec))) (\<lambda>found.
     thenT (throwIfT (found = None) recordNotFound)
    (thenT (writeT (\<lambda>m. m\<lparr>ml_shoppers := updateMany (\<lambda>c. hp_id c = sk_customerId rec)
        (\<lambda>c. c\<lparr>hp_passwordHash := Some passwordHash,
           hp_emailVerifiedAt := coalesce (hp_emailVerifiedAt holder) (Some (env_now env)),
           hp_lastLoginAt := Some (env_now env)\<rparr>) (ml_shoppers m)\<rparr>))
    (bindT (readT (findShopper (sk_customerId rec))) (\<lambda>updated.
     bindT (orThrowT updated recordNotFound) (\<lambda>customer.
     thenT (writeT (\<lambda>m. m\<lparr>ml_sessions := updateMany (\<lambda>r. ss_customerId r = hp_id customer \<and> ss_revokedAt r = None)
        (\<lambda>r. r\<lparr>ss_revokedAt := Some (env_now env)\<rparr>) (ml_sessions m)\<rparr>))
       (issueSession env aw store customer client)))))))))"

definition redeemable :: "env \<Rightarrow> open_store \<Rightarrow> shopper_token \<Rightarrow> shopper_row \<Rightarrow> bool" where
  "redeemable env store rec holder \<longleftrightarrow> sk_tenantId rec = os_id store \<and> sk_usedAt rec = None
     \<and> \<not> sk_expiresAt rec < env_now env \<and> hp_deletedAt holder = None"

definition shopperSetPassword ::
  "env \<Rightarrow> auth_world \<Rightarrow> open_store \<Rightarrow> string \<Rightarrow> string \<Rightarrow> client \<Rightarrow> shop_tokens mallio" where
  "shopperSetPassword env aw store token password client =
     bindH (readH (\<lambda>m. find (\<lambda>t. sk_tokenHash t = aw_sha256 aw token) (ml_tokens m))) (\<lambda>found.
     bindH (orThrowH found badLink) (\<lambda>rec.
     bindH (readH (findShopper (sk_customerId rec))) (\<lambda>h.
     bindH (orThrowH h (JsError ''Cannot read properties of null'')) (\<lambda>holder.
     thenH (throwIfH (\<not> redeemable env store rec holder) badLink)
    (bindH (transaction (drawM env)) (\<lambda>salt.
     transaction (setPasswordTx env aw store rec holder (aw_hash aw salt password) client)))))))"

section \<open>Sign-in, refresh, sign-out\<close>

definition shopperLogin :: "env \<Rightarrow> auth_world \<Rightarrow> open_store \<Rightarrow> string \<Rightarrow> string \<Rightarrow> client \<Rightarrow> shop_tokens mallio" where
  "shopperLogin env aw store email password client =
     bindH (readH (shopperByEmail (os_id store) email)) (\<lambda>found.
     bindH (orThrowH found invalidCredentials) (\<lambda>customer.
     bindH (orThrowH (nonEmpty (hp_passwordHash customer)) invalidCredentials) (\<lambda>hash.
     thenH (throwIfH (hp_emailVerifiedAt customer = None \<or> \<not> aw_verify aw hash password) invalidCredentials)
       (transaction (
          bindT (readT (findShopper (hp_id customer))) (\<lambda>row.
          thenT (throwIfT (row = None) recordNotFound)
         (thenT (writeT (\<lambda>m. m\<lparr>ml_shoppers := updateMany (\<lambda>c. hp_id c = hp_id customer)
             (\<lambda>c. c\<lparr>hp_lastLoginAt := Some (env_now env)\<rparr>) (ml_shoppers m)\<rparr>))
         (bindT (readT (findShopper (hp_id customer))) (\<lambda>updated.
          bindT (orThrowT updated recordNotFound) (\<lambda>c. issueSession env aw store c client))))))))))"

definition revokeSessionRow :: "env \<Rightarrow> string \<Rightarrow> mall \<Rightarrow> mall" where
  "revokeSessionRow env i m = m\<lparr>ml_sessions := updateMany (\<lambda>r. ss_id r = i) (\<lambda>r. r\<lparr>ss_revokedAt := Some (env_now env)\<rparr>) (ml_sessions m)\<rparr>"

text \<open>The exchange of the token of the session row that was read before: a compare-and-set on its hash.\<close>

definition rotateSession :: "env \<Rightarrow> auth_world \<Rightarrow> open_store \<Rightarrow> shopper_session \<Rightarrow> shopper_row \<Rightarrow> shop_tokens mallio" where
  "rotateSession env aw store session customer =
     bindH (transaction (drawM env)) (\<lambda>secret.
     let nextToken = ss_id session @ ''.'' @ secret in
     bindH (readH (\<lambda>m. countWhere (\<lambda>r. ss_id r = ss_id session \<and> ss_refreshTokenHash r = ss_refreshTokenHash session
        \<and> ss_revokedAt r = None) (ml_sessions m))) (\<lambda>rotated.
     thenH (writeH (\<lambda>m. m\<lparr>ml_sessions := updateMany (\<lambda>r. ss_id r = ss_id session
          \<and> ss_refreshTokenHash r = ss_refreshTokenHash session \<and> ss_revokedAt r = None)
        (\<lambda>r. r\<lparr>ss_refreshTokenHash := aw_sha256 aw nextToken, ss_lastUsedAt := Some (env_now env)\<rparr>) (ml_sessions m)\<rparr>))
    (thenH (throwIfH (rotated = 0) invalidRefresh)
       (returnH (tokensFor env aw store customer (ss_id session) nextToken)))))"

definition sessionIdOf :: "string \<Rightarrow> string" where
  "sessionIdOf refreshToken = hd (splitOn (CHR ''.'') refreshToken)"

definition sessionUsable :: "env \<Rightarrow> shopper_session \<Rightarrow> shopper_row \<Rightarrow> bool" where
  "sessionUsable env session customer \<longleftrightarrow> ss_revokedAt session = None \<and> \<not> ss_expiresAt session < env_now env \<and> hp_deletedAt customer = None"

definition shopperRefresh :: "env \<Rightarrow> auth_world \<Rightarrow> open_store \<Rightarrow> string \<Rightarrow> shop_tokens mallio" where
  "shopperRefresh env aw store refreshToken =
     bindH (readH (\<lambda>m. find (\<lambda>r. ss_id r = sessionIdOf refreshToken \<and> ss_tenantId r = os_id store) (ml_sessions m))) (\<lambda>found.
     bindH (orThrowH found invalidRefresh) (\<lambda>session.
     bindH (readH (findShopper (ss_customerId session))) (\<lambda>c.
     bindH (orThrowH c (JsError ''Cannot read properties of null'')) (\<lambda>customer.
     thenH (throwIfH (\<not> sessionUsable env session customer) invalidRefresh)
       (if ss_refreshTokenHash session \<noteq> aw_sha256 aw refreshToken
        then thenH (writeH (revokeSessionRow env (ss_id session))) (throwH invalidRefresh)
        else rotateSession env aw store session customer)))))"

definition shopperLogout :: "env \<Rightarrow> auth_world \<Rightarrow> open_store \<Rightarrow> string \<Rightarrow> unit mallio" where
  "shopperLogout env aw store refreshToken =
     writeH (\<lambda>m. m\<lparr>ml_sessions := updateMany (\<lambda>r. ss_id r = sessionIdOf refreshToken \<and> ss_tenantId r = os_id store
         \<and> ss_refreshTokenHash r = aw_sha256 aw refreshToken \<and> ss_revokedAt r = None)
       (\<lambda>r. r\<lparr>ss_revokedAt := Some (env_now env)\<rparr>) (ml_sessions m)\<rparr>)"

section \<open>The profile\<close>

definition getProfile :: "open_store \<Rightarrow> string \<Rightarrow> profile mallio" where
  "getProfile store customerId =
     bindH (readH (\<lambda>m. find (\<lambda>c. hp_id c = customerId \<and> hp_tenantId c = os_id store) (ml_shoppers m))) (\<lambda>found.
     bindH (orThrowH found (JsError ''Cannot read properties of null'')) (\<lambda>c. returnH (toProfile c)))"

text \<open>An absent field keeps its column; the phone may be set to \<open>null\<close>.\<close>

definition updateProfile :: "string \<Rightarrow> string option \<Rightarrow> string option \<Rightarrow> string option option \<Rightarrow> profile mallio" where
  "updateProfile customerId firstName lastName phone =
     bindH (transaction (
       bindT (readT (findShopper customerId)) (\<lambda>row.
       thenT (throwIfT (row = None) recordNotFound)
      (thenT (writeT (\<lambda>m. m\<lparr>ml_shoppers := updateMany (\<lambda>c. hp_id c = customerId)
          (\<lambda>c. c\<lparr>hp_firstName := (case firstName of Some x \<Rightarrow> x | None \<Rightarrow> hp_firstName c),
                 hp_lastName := (case lastName of Some x \<Rightarrow> x | None \<Rightarrow> hp_lastName c),
                 hp_phone := (case phone of Some x \<Rightarrow> x | None \<Rightarrow> hp_phone c)\<rparr>) (ml_shoppers m)\<rparr>))
      (bindT (readT (findShopper customerId)) (\<lambda>updated. orThrowT updated recordNotFound)))))) (\<lambda>c. returnH (toProfile c))"

section \<open>Checking a shopper's token\<close>

definition authenticateCustomer ::
  "env \<Rightarrow> verifier \<Rightarrow> open_store \<Rightarrow> string option \<Rightarrow> mall \<Rightarrow> error + (string \<times> string)" where
  "authenticateCustomer env verify store header m =
     (case bearer header of
        None \<Rightarrow> Inl unauthorized
      | Some token \<Rightarrow>
          (case verify token of
             Inl err \<Rightarrow> Inl (if err = JsError ''TokenExpiredError'' then AppError 401 ''TOKEN_EXPIRED'' else AppError 401 ''INVALID_TOKEN'')
           | Inr decoded \<Rightarrow>
               if cl_scope decoded \<noteq> ''customer'' then Inl (AppError 403 ''CUSTOMER_AUTH_REQUIRED'')
               else if cl_tenantId decoded \<noteq> os_id store then Inl (AppError 401 ''WRONG_STORE'')
               else if \<not> isUuid (cl_sessionId decoded) then Inl invalidClaims
               else (case find (\<lambda>r. ss_id r = cl_sessionId decoded \<and> ss_customerId r = cl_sub decoded
                     \<and> ss_tenantId r = os_id store \<and> ss_revokedAt r = None \<and> env_now env < ss_expiresAt r) (ml_sessions m) of
                   None \<Rightarrow> Inl sessionRevoked
                 | Some session \<Rightarrow>
                     (case findShopper (ss_customerId session) m of
                        None \<Rightarrow> Inl (JsError ''Cannot read properties of null'')
                      | Some c \<Rightarrow> (if hp_deletedAt c \<noteq> None then Inl sessionRevoked
                          else Inr (cl_sub decoded, cl_sessionId decoded))))))"

section \<open>Histories\<close>

text \<open>
  What can happen to a store between two requests of interest: whole requests of other shoppers, the commits of
  requests whose reads are arbitrarily old, and staff editing customers (a customer is never removed, only marked
  deleted). Each step has its own clock; identifiers and secrets come from one stream.
\<close>

inductive shopStep :: "(nat \<Rightarrow> string) \<Rightarrow> auth_world \<Rightarrow> mall \<Rightarrow> mall \<Rightarrow> bool" for uuid aw where
  signup: "env_uuid env = uuid \<Longrightarrow> shopStep uuid aw m (snd (shopperSignup env aw store d m))"
| forgot: "env_uuid env = uuid \<Longrightarrow> shopStep uuid aw m (snd (shopperForgotPassword env aw store email m))"
| setPassword: "env_uuid env = uuid \<Longrightarrow> shopStep uuid aw m (snd (shopperSetPassword env aw store token pw c m))"
| commitPassword: "env_uuid env = uuid \<Longrightarrow> shopStep uuid aw m (snd (transaction (setPasswordTx env aw store rec holder pw c) m))"
| signin: "env_uuid env = uuid \<Longrightarrow> shopStep uuid aw m (snd (shopperLogin env aw store email pw c m))"
| refresh: "env_uuid env = uuid \<Longrightarrow> shopStep uuid aw m (snd (shopperRefresh env aw store raw m))"
| rotate: "env_uuid env = uuid \<Longrightarrow> shopStep uuid aw m (snd (rotateSession env aw store session customer m))"
| logout: "shopStep uuid aw m (snd (shopperLogout env aw store raw m))"
| profile: "shopStep uuid aw m (snd (updateProfile customerId firstName lastName phone m))"
| newCustomer: "shopStep uuid aw m (m\<lparr>ml_shoppers := ml_shoppers m @ [row]\<rparr>)"
| staffEdit: "(\<And>row. hp_id (f row) = hp_id row) \<Longrightarrow> shopStep uuid aw m (m\<lparr>ml_shoppers := map f (ml_shoppers m)\<rparr>)"

section \<open>What every operation of a store keeps\<close>

text \<open>
  The interface between the operations and a property of the state: a property \<open>I\<close> that survives each kind of write
  survives every operation. \<open>J\<close> is what is known of a secret that is drawn now.
\<close>

locale shop_property =
  fixes uuid :: "nat \<Rightarrow> string" and aw :: auth_world and I :: "mall \<Rightarrow> bool" and J :: "string \<Rightarrow> bool"
  assumes drawn: "I m \<Longrightarrow> I (m\<lparr>ml_drawn := Suc (ml_drawn m)\<rparr>)"
    and secret: "I m \<Longrightarrow> J (uuid (ml_drawn m))"
    and jobs: "I m \<Longrightarrow> I (m\<lparr>ml_jobs := js\<rparr>)"
    and new_shopper: "I m \<Longrightarrow> I (m\<lparr>ml_shoppers := ml_shoppers m @ [c]\<rparr>)"
    and edit_shoppers: "I m \<Longrightarrow> (\<And>c. hp_id (f c) = hp_id c) \<Longrightarrow> I (m\<lparr>ml_shoppers := map f (ml_shoppers m)\<rparr>)"
    and new_code: "I m \<Longrightarrow> \<not> list_ex (\<lambda>r. sk_id r = sk_id t \<or> sk_tokenHash r = sk_tokenHash t) (ml_tokens m)
        \<Longrightarrow> I (m\<lparr>ml_tokens := ml_tokens m @ [t]\<rparr>)"
    and use_codes: "I m \<Longrightarrow> I (m\<lparr>ml_tokens := updateMany p (\<lambda>t. t\<lparr>sk_usedAt := Some x\<rparr>) (ml_tokens m)\<rparr>)"
    and new_session: "I m \<Longrightarrow> \<not> list_ex (\<lambda>r. ss_id r = ss_id row) (ml_sessions m)
        \<Longrightarrow> I (m\<lparr>ml_sessions := ml_sessions m @ [row]\<rparr>)"
    and revoke: "I m \<Longrightarrow> I (m\<lparr>ml_sessions := updateMany q (\<lambda>r. r\<lparr>ss_revokedAt := Some x\<rparr>) (ml_sessions m)\<rparr>)"
    and hash: "I m \<Longrightarrow> J sec \<Longrightarrow> (\<And>r. q r \<Longrightarrow> ss_id r = i) \<Longrightarrow>
        (\<And>r. ss_id (g r) = ss_id r \<and> ss_customerId (g r) = ss_customerId r
           \<and> ss_refreshTokenHash (g r) = aw_sha256 aw (i @ ''.'' @ sec)) \<Longrightarrow>
        I (m\<lparr>ml_sessions := updateMany q g (ml_sessions m)\<rparr>)"
begin

lemma drawM_wp: "env_uuid env = uuid \<Longrightarrow> I m \<Longrightarrow> (\<And>x m'. J x \<Longrightarrow> I m' \<Longrightarrow> Q x m') \<Longrightarrow> wpT (drawM env) Q m"
  by (simp add: drawM_def wp drawn secret)

lemma edit_where: "I m \<Longrightarrow> (\<And>c. hp_id (f c) = hp_id c) \<Longrightarrow> I (m\<lparr>ml_shoppers := updateMany p f (ml_shoppers m)\<rparr>)"
  unfolding updateMany_def by (rule edit_shoppers) auto

lemma insertToken_keeps: "env_uuid env = uuid \<Longrightarrow> I m \<Longrightarrow> wpT (insertToken env row) (\<lambda>_. I) m"
  unfolding insertToken_def wpT_bindT by (rule drawM_wp) (auto simp: wp intro!: new_code)

lemma insertShopper_keeps: "env_uuid env = uuid \<Longrightarrow> I m \<Longrightarrow> wpT (insertShopper env store d) (\<lambda>_. I) m"
  unfolding insertShopper_def wpT_bindT by (rule drawM_wp) (auto simp: wp Let_def intro!: new_shopper)

lemma insertSessionRow_wp:
  "env_uuid env = uuid \<Longrightarrow> I m \<Longrightarrow> (\<And>x m'. I m' \<Longrightarrow> Q x m') \<Longrightarrow> wpT (insertSessionRow env row) Q m"
  unfolding insertSessionRow_def wpT_bindT by (rule drawM_wp) (simp_all add: wp new_session)

lemma issueSession_keeps: "env_uuid env = uuid \<Longrightarrow> I m \<Longrightarrow> wpT (issueSession env aw store customer c) (\<lambda>_. I) m"
  unfolding issueSession_def wpT_bindT
  by (rule drawM_wp, simp, simp, rule insertSessionRow_wp) (auto simp: wp Let_def intro!: hash)

lemma newLinkTx_keeps: "env_uuid env = uuid \<Longrightarrow> I m \<Longrightarrow> wpT (newLinkTx env aw store customer raw) (\<lambda>_. I) m"
  by (simp add: newLinkTx_def wp insertToken_keeps use_codes)

text \<open>Redeeming a code: once the code is marked used, the rest keeps \<open>I\<close>.\<close>

lemma setPasswordTx_claims:
  assumes "env_uuid env = uuid" and "I (m\<lparr>ml_tokens := updateMany (\<lambda>t. sk_id t = sk_id rec \<and> sk_usedAt t = None)
        (\<lambda>t. t\<lparr>sk_usedAt := Some (env_now env)\<rparr>) (ml_tokens m)\<rparr>)"
  shows "wpT (setPasswordTx env aw store rec holder pw c) (\<lambda>_. I) m"
  using assms
  by (unfold setPasswordTx_def wp) (intro allI impI issueSession_keeps revoke edit_where; simp)

lemma setPasswordTx_keeps:
  "env_uuid env = uuid \<Longrightarrow> I m \<Longrightarrow> wpT (setPasswordTx env aw store rec holder pw c) (\<lambda>_. I) m"
  by (intro setPasswordTx_claims use_codes)

lemma draw_keeps: "env_uuid env = uuid \<Longrightarrow> keepsH I (transaction (drawM env))"
  by (rule keepsH_transaction) (rule drawM_wp)

lemma enqueue_keeps: "keepsH I (enqueueMallEmail env j)"
  unfolding enqueueMallEmail_def by (intro keeps keepsH_writeH jobs)

lemma sendSetPasswordLink_keeps:
  "env_uuid env = uuid \<Longrightarrow> keepsH I (sendSetPasswordLink env aw store customer purpose)"
  unfolding sendSetPasswordLink_def
  by (intro keeps draw_keeps enqueue_keeps keepsH_transaction newLinkTx_keeps)

lemma shopperSignup_keeps: "env_uuid env = uuid \<Longrightarrow> keepsH I (shopperSignup env aw store d)"
  unfolding shopperSignup_def
  by (intro keeps sendSetPasswordLink_keeps keepsH_transaction insertShopper_keeps)

lemma shopperForgotPassword_keeps: "env_uuid env = uuid \<Longrightarrow> keepsH I (shopperForgotPassword env aw store email)"
  unfolding shopperForgotPassword_def
  by (intro keeps sendSetPasswordLink_keeps)

lemma shopperSetPassword_keeps: "env_uuid env = uuid \<Longrightarrow> keepsH I (shopperSetPassword env aw store token pw c)"
  unfolding shopperSetPassword_def by (intro keeps draw_keeps keepsH_transaction setPasswordTx_keeps)

lemma shopperLogin_keeps: "env_uuid env = uuid \<Longrightarrow> keepsH I (shopperLogin env aw store email pw c)"
  unfolding shopperLogin_def
  by (intro keeps keepsH_transaction) (auto simp: wp intro!: issueSession_keeps edit_where)

lemma rotateSession_keeps:
  assumes "env_uuid env = uuid" shows "keepsH I (rotateSession env aw store session customer)"
proof (rule keepsH_wp)
  fix m assume "I m"
  then show "wpH (rotateSession env aw store session customer) (\<lambda>_. I) (\<lambda>_. I) m"
    unfolding rotateSession_def wpH_bindH
    by (intro wpH_transaction drawM_wp [OF assms]) (auto simp: wp Let_def intro!: hash)
qed

lemma shopperRefresh_keeps: "env_uuid env = uuid \<Longrightarrow> keepsH I (shopperRefresh env aw store raw)"
  unfolding shopperRefresh_def revokeSessionRow_def
  by (intro keeps keepsH_writeH rotateSession_keeps revoke)

lemma shopperLogout_keeps: "keepsH I (shopperLogout env aw store raw)"
  unfolding shopperLogout_def by (intro keepsH_writeH revoke)

lemma updateProfile_keeps: "keepsH I (updateProfile customerId firstName lastName phone)"
  unfolding updateProfile_def by (intro keeps keepsH_transaction) (auto simp: wp intro!: edit_where)

lemmas request_keeps = updateProfile_keeps shopperSignup_keeps shopperForgotPassword_keeps shopperSetPassword_keeps shopperLogin_keeps
  shopperRefresh_keeps rotateSession_keeps shopperLogout_keeps keepsH_transaction [OF setPasswordTx_keeps]

lemma step_keeps: "shopStep uuid aw m m' \<Longrightarrow> I m \<Longrightarrow> I m'"
  by (induction rule: shopStep.induct)
    (auto intro: new_shopper edit_shoppers request_keeps [unfolded keepsH_def, rule_format])

lemma steps_keep: "(shopStep uuid aw)\<^sup>*\<^sup>* m m' \<Longrightarrow> I m \<Longrightarrow> I m'"
  by (induction rule: rtranclp_induct) (auto intro: step_keeps)

end

section \<open>A sample store\<close>

definition demoStore :: open_store where
  "demoStore = \<lparr>os_id = ''t'', os_slug = ''shop'', os_name = ''Shop'', os_settings = JUndef, os_currency = ''INR'',
     os_gstRatePercent = 18\<rparr>"

definition demoShopper :: shopper_row where
  "demoShopper = \<lparr>hp_id = ''c'', hp_tenantId = ''t'', hp_email = ''e'', hp_firstName = ''F'', hp_lastName = ''L'', hp_phone = None,
     hp_passwordHash = None, hp_emailVerifiedAt = None, hp_lastLoginAt = None, hp_deletedAt = None, hp_createdAt = 0\<rparr>"

definition demoCode :: shopper_token where
  "demoCode = \<lparr>sk_id = ''k'', sk_tenantId = ''t'', sk_customerId = ''c'', sk_tokenHash = ''hA'', sk_expiresAt = 9000, sk_usedAt = None\<rparr>"

definition demoSession :: shopper_session where
  "demoSession = \<lparr>ss_id = ''s'', ss_tenantId = ''t'', ss_customerId = ''c'', ss_refreshTokenHash = ''hs.x'', ss_expiresAt = 9000,
     ss_revokedAt = None, ss_lastUsedAt = None, ss_userAgent = None, ss_ipAddress = None\<rparr>"

definition demoMall :: mall where
  "demoMall = \<lparr>ml_shoppers = [demoShopper], ml_sessions = [demoSession], ml_tokens = [demoCode], ml_jobs = [], ml_drawn = 0\<rparr>"

section \<open>A code sets one password\<close>

text \<open>The code with id \<open>i\<close> and hash \<open>h\<close> is used up.\<close>

definition spentCode :: "string \<Rightarrow> string \<Rightarrow> mall \<Rightarrow> bool" where
  "spentCode i h m \<longleftrightarrow> (i, h) \<in> set (map (\<lambda>t. (sk_id t, sk_tokenHash t)) (ml_tokens m))
     \<and> (\<forall>t\<in>set (ml_tokens m). (sk_id t = i \<or> sk_tokenHash t = h \<longrightarrow> sk_usedAt t \<noteq> None)
         \<and> (sk_tokenHash t = h \<longrightarrow> list_ex (\<lambda>c. hp_id c = sk_customerId t) (ml_shoppers m)))"

lemma spentCode_use: "spentCode i h m \<Longrightarrow> spentCode i h (m\<lparr>ml_tokens := updateMany p (\<lambda>t. t\<lparr>sk_usedAt := Some x\<rparr>) (ml_tokens m)\<rparr>)"
  unfolding spentCode_def by (simp add: map_updateMany del: set_map) (auto simp: updateMany_def)

interpretation spent: shop_property uuid aw "spentCode i h" "\<lambda>_. True" for uuid aw i h
proof (unfold_locales, goal_cases)
  case (7 m p x)
  then show ?case by (rule spentCode_use)
qed (auto simp: spentCode_def list_ex_iff)

lemma findByHash:
  assumes "distinct (map sk_tokenHash ts)" "t \<in> set ts"
  shows "find (\<lambda>x. sk_tokenHash x = sk_tokenHash t) ts = Some t"
  using assms by (induction ts) auto

lemma setPassword_spends:
  assumes "distinct (map sk_tokenHash (ml_tokens m))" and "t \<in> set (ml_tokens m)" "sk_tokenHash t = aw_sha256 aw token"
    and run: "shopperSetPassword env aw store token pw c m = (Inr r, m')"
  shows "spentCode (sk_id t) (sk_tokenHash t) m'"
proof -
  have u: "find (\<lambda>x. sk_tokenHash x = aw_sha256 aw token) (ml_tokens m) = Some t"
    using findByHash [OF assms(1,2)] assms(3) by simp
  let ?m1 = "m\<lparr>ml_drawn := Suc (ml_drawn m)\<rparr>"
  obtain holder salt where h: "findShopper (sk_customerId t) m = Some holder"
    and tx: "setPasswordTx env aw store t holder (aw_hash aw salt pw) c ?m1 = Inr (r, m')"
    using run u by (auto simp: shopperSetPassword_def drawM_def outcome)
  have "list_ex (\<lambda>c. hp_id c = sk_customerId t) (ml_shoppers m)"
    using h by (auto simp: findShopper_def list_ex_iff dest: find_SomeD)
  then have same: "list_ex (\<lambda>c. hp_id c = sk_customerId x) (ml_shoppers m) \<and> sk_id x = sk_id t"
    if "x \<in> set (ml_tokens m)" "sk_tokenHash x = sk_tokenHash t" for x
    using assms(1,2) that by (auto simp: distinct_map inj_on_def)
  let ?P = "\<lambda>x. sk_id x = sk_id t \<and> sk_usedAt x = None" and ?f = "\<lambda>x. x\<lparr>sk_usedAt := Some (env_now env)\<rparr>"
  have "(sk_id (if ?P x then ?f x else x) = sk_id t \<or> sk_tokenHash (if ?P x then ?f x else x) = sk_tokenHash t
        \<longrightarrow> sk_usedAt (if ?P x then ?f x else x) \<noteq> None)
      \<and> (sk_tokenHash (if ?P x then ?f x else x) = sk_tokenHash t
        \<longrightarrow> list_ex (\<lambda>c. hp_id c = sk_customerId (if ?P x then ?f x else x)) (ml_shoppers m))"
    if "x \<in> set (ml_tokens m)" for x
    using same [OF that] by (cases "?P x") auto
  then have "\<forall>x\<in>set (updateMany ?P ?f (ml_tokens m)). (sk_id x = sk_id t \<or> sk_tokenHash x = sk_tokenHash t
        \<longrightarrow> sk_usedAt x \<noteq> None) \<and> (sk_tokenHash x = sk_tokenHash t \<longrightarrow> list_ex (\<lambda>c. hp_id c = sk_customerId x) (ml_shoppers m))"
    unfolding set_updateMany by blast
  moreover have "(sk_id t, sk_tokenHash t) \<in> set (map (\<lambda>x. (sk_id x, sk_tokenHash x)) (updateMany ?P ?f (ml_tokens m)))"
    using assms(2) by (simp add: map_updateMany del: set_map) auto
  ultimately have "spentCode (sk_id t) (sk_tokenHash t) (?m1\<lparr>ml_tokens := updateMany ?P ?f (ml_tokens ?m1)\<rparr>)"
    by (simp add: spentCode_def del: set_map)
  from wpT_D [OF spent.setPasswordTx_claims [OF refl this] tx] show ?thesis .
qed

lemma spent_refused:
  assumes "spentCode i (aw_sha256 aw token) m"
  shows "shopperSetPassword env aw store token pw c m = (Inl badLink, m)"
    and "sk_id t = i \<Longrightarrow> transaction (setPasswordTx env aw store t holder pw c) m = (Inl badLink, m)"
proof -
  obtain u where u: "find (\<lambda>t. sk_tokenHash t = aw_sha256 aw token) (ml_tokens m) = Some u"
    using assms by (cases "find (\<lambda>t. sk_tokenHash t = aw_sha256 aw token) (ml_tokens m)") (auto simp: spentCode_def find_None_iff)
  then have mem: "u \<in> set (ml_tokens m)" "sk_tokenHash u = aw_sha256 aw token" by (auto dest: find_SomeD)
  then have "list_ex (\<lambda>c. hp_id c = sk_customerId u) (ml_shoppers m)" "sk_usedAt u \<noteq> None"
    using assms by (auto simp: spentCode_def)
  moreover from this obtain h where "findShopper (sk_customerId u) m = Some h"
    by (cases "findShopper (sk_customerId u) m") (auto simp: findShopper_def find_None_iff list_ex_iff)
  ultimately show "shopperSetPassword env aw store token pw c m = (Inl badLink, m)"
    using u by (simp add: shopperSetPassword_def outcome redeemable_def)
  show "transaction (setPasswordTx env aw store t holder pw c) m = (Inl badLink, m)" if "sk_id t = i"
    using assms that by (auto simp: setPasswordTx_def outcome spentCode_def countWhere_def filter_empty_conv)
qed

text \<open>C34: the code of a set-password link works once. After a request that set a password with it, and whatever else
  happens to the store since (other requests, stale commits, staff edits, new links), both a new request with that code and the late commit
  of a request that had read the code while it was unused are refused and change nothing.\<close>

theorem set_password_code_works_once:
  assumes "distinct (map sk_tokenHash (ml_tokens m0))" and "t \<in> set (ml_tokens m0)" "sk_tokenHash t = aw_sha256 aw token"
    and "shopperSetPassword env aw store token pw c m0 = (Inr r, m1)"
    and "(shopStep uuid aw)\<^sup>*\<^sup>* m1 m2"
  shows "shopperSetPassword env' aw store' token pw' c' m2 = (Inl badLink, m2)
    \<and> transaction (setPasswordTx env' aw store' t holder pw'' c') m2 = (Inl badLink, m2)"
proof -
  have "spentCode (sk_id t) (aw_sha256 aw token) m2"
    using spent.steps_keep [OF assms(5) setPassword_spends [OF assms(1-4)]] assms(3) by simp
  then show ?thesis by (simp add: spent_refused)
qed

lemma set_password_code_works_once_witness:
  "\<exists>r m1. shopperSetPassword demoEnv demoAuth demoStore ''A'' ''pw'' noClient demoMall = (Inr r, m1)
     \<and> fst (shopperSetPassword demoEnv demoAuth demoStore ''A'' ''other'' noClient
         (snd (shopperForgotPassword demoEnv demoAuth demoStore ''e'' m1))) = Inl badLink"
proof -
  have "succeeded (shopperSetPassword demoEnv demoAuth demoStore ''A'' ''pw'' noClient demoMall)" by code_simp
  then obtain r m1 where run: "shopperSetPassword demoEnv demoAuth demoStore ''A'' ''pw'' noClient demoMall = (Inr r, m1)"
    by (rule succeededE)
  have step: "(shopStep (env_uuid demoEnv) demoAuth)\<^sup>*\<^sup>* m1 (snd (shopperForgotPassword demoEnv demoAuth demoStore ''e'' m1))"
    by (intro r_into_rtranclp shopStep.forgot refl)
  have "distinct (map sk_tokenHash (ml_tokens demoMall))" "demoCode \<in> set (ml_tokens demoMall)"
    "sk_tokenHash demoCode = aw_sha256 demoAuth ''A''"
    by (simp_all add: demoMall_def demoCode_def demoAuth_def)
  from set_password_code_works_once [OF this run step, of demoEnv demoStore "''other''" noClient] run show ?thesis by auto
qed

section \<open>A refresh token is exchanged once\<close>

text \<open>
  The session \<open>sid\<close> exists, its hash is not \<open>h\<close>, and no secret drawn from the \<open>n0\<close>-th on gives a token of the session with
  that hash.
\<close>

definition exchanged :: "(nat \<Rightarrow> string) \<Rightarrow> auth_world \<Rightarrow> string \<Rightarrow> string \<Rightarrow> nat \<Rightarrow> mall \<Rightarrow> bool" where
  "exchanged uuid aw sid h n0 m \<longleftrightarrow> n0 \<le> ml_drawn m \<and> distinct (map ss_id (ml_sessions m)) \<and> sid \<in> set (map ss_id (ml_sessions m))
     \<and> (\<forall>n\<ge>n0. aw_sha256 aw (sid @ ''.'' @ uuid n) \<noteq> h)
     \<and> (\<forall>r\<in>set (ml_sessions m). ss_id r = sid \<longrightarrow> ss_refreshTokenHash r \<noteq> h
          \<and> list_ex (\<lambda>c. hp_id c = ss_customerId r) (ml_shoppers m))"

lemma exchanged_update:
  assumes "exchanged uuid aw sid h n0 m" and "\<And>r. ss_id (g r) = ss_id r \<and> ss_customerId (g r) = ss_customerId r"
    and "\<And>r. q r \<Longrightarrow> ss_id r = sid \<Longrightarrow> ss_refreshTokenHash r \<noteq> h \<Longrightarrow> ss_refreshTokenHash (g r) \<noteq> h"
  shows "exchanged uuid aw sid h n0 (m\<lparr>ml_sessions := updateMany q g (ml_sessions m)\<rparr>)"
proof -
  have step: "ss_refreshTokenHash (if q r then g r else r) \<noteq> h \<and> list_ex (\<lambda>c. hp_id c = ss_customerId (if q r then g r else r)) (ml_shoppers m)"
    if "r \<in> set (ml_sessions m)" "ss_id (if q r then g r else r) = sid" for r
    using assms(1) that assms(2) [of r] assms(3) [of r] by (auto simp: exchanged_def split: if_splits)
  have "map ss_id (updateMany q g (ml_sessions m)) = map ss_id (ml_sessions m)"
    using assms(2) by (simp add: map_updateMany)
  moreover from step have "\<forall>r\<in>set (updateMany q g (ml_sessions m)). ss_id r = sid \<longrightarrow> ss_refreshTokenHash r \<noteq> h
      \<and> list_ex (\<lambda>c. hp_id c = ss_customerId r) (ml_shoppers m)"
    unfolding set_updateMany by blast
  ultimately show ?thesis using assms(1) by (simp add: exchanged_def del: set_map)
qed

interpretation exch: shop_property uuid aw "exchanged uuid aw sid h n0" "\<lambda>x. \<exists>n\<ge>n0. x = uuid n" for uuid aw sid h n0
proof (unfold_locales, goal_cases)
  case (9 m q x)
  then show ?case by (rule exchanged_update) auto
next
  case (10 m sec q i g)
  have fresh: "\<forall>n\<ge>n0. aw_sha256 aw (sid @ ''.'' @ uuid n) \<noteq> h" using 10(1) by (simp add: exchanged_def)
  show ?case by (rule exchanged_update [OF 10(1)]) (use 10 fresh in auto)
qed (auto simp: exchanged_def list_ex_iff)

lemma findSession:
  assumes "distinct (map ss_id ss)" "r \<in> set ss" "ss_id r = i" "P r"
  shows "find (\<lambda>r. ss_id r = i \<and> P r) ss = Some r"
  using assms by (induction ss) auto

lemma shopperRefresh_Inr:
  assumes "shopperRefresh env aw store raw m = (Inr r, m')"
  obtains s c where "find (\<lambda>r. ss_id r = sessionIdOf raw \<and> ss_tenantId r = os_id store) (ml_sessions m) = Some s"
    "findShopper (ss_customerId s) m = Some c" "ss_refreshTokenHash s = aw_sha256 aw raw"
    "rotateSession env aw store s c m = (Inr r, m')"
proof -
  obtain s c where "find (\<lambda>r. ss_id r = sessionIdOf raw \<and> ss_tenantId r = os_id store) (ml_sessions m) = Some s"
    "findShopper (ss_customerId s) m = Some c"
    "(if ss_refreshTokenHash s \<noteq> aw_sha256 aw raw
        then thenH (writeH (revokeSessionRow env (ss_id s))) (throwH invalidRefresh)
        else rotateSession env aw store s c) m = (Inr r, m')"
    using assms by (simp only: shopperRefresh_def outcome) blast
  then show thesis by (intro that) (auto simp: outcome split: if_splits)
qed

lemma refresh_exchanges:
  assumes ids: "distinct (map ss_id (ml_sessions m))" and "env_uuid env = uuid"
    and fresh: "\<forall>n\<ge>ml_drawn m. aw_sha256 aw (sessionIdOf raw @ ''.'' @ uuid n) \<noteq> aw_sha256 aw raw"
    and run: "shopperRefresh env aw store raw m = (Inr r, m')"
  shows "exchanged uuid aw (sessionIdOf raw) (aw_sha256 aw raw) (ml_drawn m) m'"
proof -
  let ?h = "aw_sha256 aw (sessionIdOf raw @ ''.'' @ uuid (ml_drawn m))"
  let ?m1 = "m\<lparr>ml_drawn := Suc (ml_drawn m)\<rparr>"
  from run obtain s c where s: "find (\<lambda>r. ss_id r = sessionIdOf raw \<and> ss_tenantId r = os_id store) (ml_sessions m) = Some s"
    and c: "findShopper (ss_customerId s) m = Some c" and hash: "ss_refreshTokenHash s = aw_sha256 aw raw"
    and rot: "rotateSession env aw store s c m = (Inr r, m')" by (rule shopperRefresh_Inr)
  have mem: "s \<in> set (ml_sessions m)" "ss_id s = sessionIdOf raw" using s by (auto dest: find_SomeD)
  let ?hit = "\<lambda>x. ss_id x = ss_id s \<and> ss_refreshTokenHash x = ss_refreshTokenHash s \<and> ss_revokedAt x = None"
  let ?new = "\<lambda>x. x\<lparr>ss_refreshTokenHash := ?h, ss_lastUsedAt := Some (env_now env)\<rparr>"
  have m': "m' = ?m1\<lparr>ml_sessions := updateMany ?hit ?new (ml_sessions m)\<rparr>"
    and cnt: "countWhere ?hit (ml_sessions m) \<noteq> 0"
    using rot assms(2) mem(2) by (auto simp: rotateSession_def drawM_def outcome Let_def)
  have one: "x = s" if "x \<in> set (ml_sessions m)" "ss_id x = sessionIdOf raw" for x
    using ids mem that by (auto simp: distinct_map inj_on_def)
  obtain x where "x \<in> set (ml_sessions m)" "ss_id x = ss_id s" "ss_revokedAt x = None"
    using cnt by (auto simp: countWhere_def filter_empty_conv)
  then have rev: "ss_revokedAt s = None" using one [of x] mem(2) by simp
  have cust: "list_ex (\<lambda>c. hp_id c = ss_customerId s) (ml_shoppers m)"
    using c by (auto simp: findShopper_def list_ex_iff dest: find_SomeD)
  have "ss_refreshTokenHash (if ?hit x then ?new x else x) \<noteq> aw_sha256 aw raw
      \<and> list_ex (\<lambda>c. hp_id c = ss_customerId (if ?hit x then ?new x else x)) (ml_shoppers m)"
    if "x \<in> set (ml_sessions m)" "ss_id (if ?hit x then ?new x else x) = sessionIdOf raw" for x
  proof -
    have "x = s" using that by (intro one) (simp_all split: if_splits)
    then show ?thesis using rev cust fresh by simp
  qed
  then have "\<forall>x\<in>set (updateMany ?hit ?new (ml_sessions m)). ss_id x = sessionIdOf raw \<longrightarrow>
      ss_refreshTokenHash x \<noteq> aw_sha256 aw raw \<and> list_ex (\<lambda>c. hp_id c = ss_customerId x) (ml_shoppers m)"
    unfolding set_updateMany by blast
  moreover have "map ss_id (updateMany ?hit ?new (ml_sessions m)) = map ss_id (ml_sessions m)" by (simp add: map_updateMany)
  moreover have "sessionIdOf raw \<in> set (map ss_id (ml_sessions m))" using mem by (metis imageI set_map)
  ultimately show ?thesis using ids fresh by (simp add: m' exchanged_def del: set_map)
qed

lemma exchanged_found:
  assumes ex: "exchanged uuid aw sid h n0 m" and f: "find (\<lambda>r. ss_id r = sid \<and> P r) (ml_sessions m) = Some s"
  obtains c where "findShopper (ss_customerId s) m = Some c" "ss_refreshTokenHash s \<noteq> h"
    "s \<in> set (ml_sessions m)" "ss_id s = sid" "P s" "\<And>x. x \<in> set (ml_sessions m) \<Longrightarrow> ss_id x = sid \<Longrightarrow> x = s"
proof -
  have mem: "s \<in> set (ml_sessions m)" "ss_id s = sid" "P s" using f by (auto dest: find_SomeD)
  then have "list_ex (\<lambda>c. hp_id c = ss_customerId s) (ml_shoppers m)" "ss_refreshTokenHash s \<noteq> h"
    using ex by (auto simp: exchanged_def)
  moreover from this obtain c where "findShopper (ss_customerId s) m = Some c"
    by (cases "findShopper (ss_customerId s) m") (auto simp: findShopper_def find_None_iff list_ex_iff)
  moreover have "x = s" if "x \<in> set (ml_sessions m)" "ss_id x = sid" for x
    using ex mem that by (auto simp: exchanged_def distinct_map inj_on_def)
  ultimately show thesis using mem by (intro that)
qed

lemma authenticateCustomer_Inr:
  assumes "authenticateCustomer env verify store header m = Inr (u, sid)"
  obtains s c where "find (\<lambda>r. ss_id r = sid \<and> ss_customerId r = u \<and> ss_tenantId r = os_id store \<and> ss_revokedAt r = None
      \<and> env_now env < ss_expiresAt r) (ml_sessions m) = Some s" "findShopper (ss_customerId s) m = Some c" "hp_deletedAt c = None"
  using assms by (auto simp: authenticateCustomer_def split: option.splits sum.splits if_splits)

lemma exchanged_refused:
  assumes ex: "exchanged uuid aw (sessionIdOf raw) (aw_sha256 aw raw) n0 m" and "env_now env \<le> env_now env'"
  shows "\<exists>m'. shopperRefresh env aw store raw m = (Inl invalidRefresh, m')
    \<and> authenticateCustomer env' verify store header m' \<noteq> Inr (u, sessionIdOf raw)"
proof -
  let ?sid = "sessionIdOf raw"
  let ?find = "\<lambda>m. find (\<lambda>r. ss_id r = ?sid \<and> ss_tenantId r = os_id store) (ml_sessions m)"
  show ?thesis
  proof (cases "?find m")
    case None
    then have "shopperRefresh env aw store raw m = (Inl invalidRefresh, m)" by (simp add: shopperRefresh_def monad_defs)
    moreover have "authenticateCustomer env' verify store header m \<noteq> Inr (u, ?sid)"
      using None by (auto elim!: authenticateCustomer_Inr dest!: find_SomeD simp: find_None_iff)
    ultimately show ?thesis by blast
  next
    case (Some s)
    from exchanged_found [OF ex this] obtain c where c: "findShopper (ss_customerId s) m = Some c"
      and ne: "ss_refreshTokenHash s \<noteq> aw_sha256 aw raw" and mem: "ss_id s = ?sid"
      and one: "\<And>x. x \<in> set (ml_sessions m) \<Longrightarrow> ss_id x = ?sid \<Longrightarrow> x = s" by blast
    show ?thesis
    proof (cases "sessionUsable env s c")
      case True
      let ?m' = "revokeSessionRow env (ss_id s) m"
      have "shopperRefresh env aw store raw m = (Inl invalidRefresh, ?m')"
        using Some c ne True by (simp add: shopperRefresh_def monad_defs)
      moreover have "authenticateCustomer env' verify store header ?m' \<noteq> Inr (u, ?sid)"
        using mem by (auto simp: revokeSessionRow_def set_updateMany elim!: authenticateCustomer_Inr dest!: find_SomeD split: if_splits)
      ultimately show ?thesis by blast
    next
      case False
      then have "shopperRefresh env aw store raw m = (Inl invalidRefresh, m)"
        using Some c by (simp add: shopperRefresh_def monad_defs)
      moreover have "authenticateCustomer env' verify store header m \<noteq> Inr (u, ?sid)"
      proof
        assume "authenticateCustomer env' verify store header m = Inr (u, ?sid)"
        then obtain x d where x: "find (\<lambda>r. ss_id r = ?sid \<and> ss_customerId r = u \<and> ss_tenantId r = os_id store
            \<and> ss_revokedAt r = None \<and> env_now env' < ss_expiresAt r) (ml_sessions m) = Some x"
          and d: "findShopper (ss_customerId x) m = Some d" "hp_deletedAt d = None" by (rule authenticateCustomer_Inr)
        have "x = s" using x by (intro one) (auto dest: find_SomeD)
        then show False using False x c d assms(2) by (auto simp: sessionUsable_def dest!: find_SomeD)
      qed
      ultimately show ?thesis by blast
    qed
  qed
qed

text \<open>C35: a refresh token is exchanged once. After a request that exchanged it, and whatever else happens to the store since, the late
  commit of a request that had read the session before the exchange is refused, and so is a new request with the token; that replay
  ends the session, so that the access tokens of whoever holds it are refused from then on. The
  hypothesis on SHA-256 says that no token of the session drawn later has the hash of this one.\<close>

theorem refresh_token_exchanged_once:
  assumes "distinct (map ss_id (ml_sessions m0))" and "env_uuid env = uuid"
    and "\<forall>n\<ge>ml_drawn m0. aw_sha256 aw (sessionIdOf raw @ ''.'' @ uuid n) \<noteq> aw_sha256 aw raw"
    and "shopperRefresh env aw store raw m0 = (Inr r, m1)"
    and "(shopStep uuid aw)\<^sup>*\<^sup>* m1 m2"
    and "ss_id stale = sessionIdOf raw" "ss_refreshTokenHash stale = aw_sha256 aw raw"
    and "env_now env' \<le> env_now env''"
  shows "fst (rotateSession env' aw store stale c m2) = Inl invalidRefresh
    \<and> fst (shopperRefresh env' aw store raw m2) = Inl invalidRefresh
    \<and> authenticateCustomer env'' verify store header (snd (shopperRefresh env' aw store raw m2)) \<noteq> Inr (u, sessionIdOf raw)"
proof -
  have ex: "exchanged uuid aw (sessionIdOf raw) (aw_sha256 aw raw) (ml_drawn m0) m2"
    by (rule exch.steps_keep [OF assms(5) refresh_exchanges [OF assms(1-4)]])
  then have "\<not> (ss_id x = ss_id stale \<and> ss_refreshTokenHash x = ss_refreshTokenHash stale \<and> ss_revokedAt x = None)"
    if "x \<in> set (ml_sessions m2)" for x
    using that assms(6,7) by (auto simp: exchanged_def)
  then have "fst (rotateSession env' aw store stale c m2) = Inl invalidRefresh"
    by (simp add: rotateSession_def drawM_def monad_defs Let_def countWhere_def filter_False)
  moreover obtain m' where "shopperRefresh env' aw store raw m2 = (Inl invalidRefresh, m')"
    "authenticateCustomer env'' verify store header m' \<noteq> Inr (u, sessionIdOf raw)"
    using exchanged_refused [OF ex assms(8)] by blast
  ultimately show ?thesis by simp
qed

lemma refresh_token_exchanged_once_witness:
  "\<exists>r m1. shopperRefresh demoEnv demoAuth demoStore ''s.x'' demoMall = (Inr r, m1)
     \<and> fst (shopperRefresh demoEnv demoAuth demoStore ''s.x'' (snd (shopperForgotPassword demoEnv demoAuth demoStore ''e'' m1)))
         = Inl invalidRefresh"
proof -
  have "succeeded (shopperRefresh demoEnv demoAuth demoStore ''s.x'' demoMall)" by code_simp
  then obtain r m1 where run: "shopperRefresh demoEnv demoAuth demoStore ''s.x'' demoMall = (Inr r, m1)" by (rule succeededE)
  have step: "(shopStep (env_uuid demoEnv) demoAuth)\<^sup>*\<^sup>* m1 (snd (shopperForgotPassword demoEnv demoAuth demoStore ''e'' m1))"
    by (intro r_into_rtranclp shopStep.forgot refl)
  have sid: "sessionIdOf ''s.x'' = ''s''" by code_simp
  have "env_uuid demoEnv n \<noteq> ''x''" for n by (cases n) (simp_all add: demoEnv_def)
  then have "\<forall>n\<ge>ml_drawn demoMall. aw_sha256 demoAuth (sessionIdOf ''s.x'' @ ''.'' @ env_uuid demoEnv n) \<noteq> aw_sha256 demoAuth ''s.x''"
    by (simp add: sid demoAuth_def)
  moreover have "distinct (map ss_id (ml_sessions demoMall))" "ss_id demoSession = sessionIdOf ''s.x''"
    "ss_refreshTokenHash demoSession = aw_sha256 demoAuth ''s.x''"
    by (simp_all add: demoMall_def demoSession_def demoAuth_def sid)
  ultimately show ?thesis
    using refresh_token_exchanged_once [OF _ refl _ run step, where stale = demoSession and env' = demoEnv and env'' = demoEnv
      and c = demoShopper and verify = "\<lambda>_. Inl badLink" and header = None and u = "[]"] run
    by auto
qed

end
