(* ===== verification/Shop.thy ===== *)
theory Shop
  imports Razorpay Shopper "HOL-Library.Product_Lexorder" "HOL-Library.Multiset"
begin

text \<open>
  The cart, the checkout and the orders of a shopper: src/src/modules/storefront/storefront.shop.js with \<open>stockOf\<close> and
  \<open>attributesOf\<close> of storefront.catalog.js. The checkout is a client of the order service (theory Orders) and of the payment services
  (theories Payments and Razorpay). Carts are a table beside the database state. Image ids and the times of histories and payments are left
  out of the answers.
\<close>

section \<open>The cart\<close>

record cart_row =
  ct_tenantId :: string
  ct_customerId :: string
  ct_variantId :: string
  ct_quantity :: int
  ct_createdAt :: int

record shop_db =
  sh_db :: db
  sh_carts :: "cart_row list"

type_synonym 'a shopio = "(shop_db, 'a) io"

definition onDb :: "'a dbio \<Rightarrow> 'a shopio" where
  "onDb m = (\<lambda>w. case m (sh_db w) of (r, s) \<Rightarrow> (r, w\<lparr>sh_db := s\<rparr>))"

definition isSellable :: "variant_row \<Rightarrow> product_row \<Rightarrow> bool" where
  "isSellable v p \<longleftrightarrow> va_status v = V_ACTIVE \<and> va_deletedAt v = None \<and> pr_status p = PR_ACTIVE \<and> pr_deletedAt p = None"

definition stockOf :: "string \<Rightarrow> db \<Rightarrow> int" where
  "stockOf variantId s = sum_list (map iv_quantity (filter (\<lambda>i. iv_variantId i = variantId) (inventory s)))"

definition attributesOf :: "variant_row \<Rightarrow> jsval" where
  "attributesOf v = JObj (foldl (\<lambda>ps (code, name, x). setProp code (JStr x) ps) [] (va_attributes v))"

text \<open>The variant of a cart row; the foreign key keeps it from being absent.\<close>

definition cartVariant :: "cart_row \<Rightarrow> db \<Rightarrow> variant_row option" where
  "cartVariant item s = find (\<lambda>v. va_id v = ct_variantId item) (variants s)"

definition issueOf :: "cart_row \<Rightarrow> variant_row \<Rightarrow> db \<Rightarrow> string option" where
  "issueOf item v s =
     (if \<not> isSellable v (productOf v s) then Some ''UNAVAILABLE''
      else if stockOf (va_id v) s < ct_quantity item then Some ''INSUFFICIENT_STOCK'' else None)"

record cart_line =
  kl_variantId :: string
  kl_productId :: string
  kl_productName :: string
  kl_sku :: string
  kl_attributes :: jsval
  kl_unitPrice :: string
  kl_quantity :: int
  kl_lineTotal :: string
  kl_available :: bool
  kl_issue :: "string option"

record cart_view =
  kv_items :: "cart_line list"
  kv_itemCount :: int
  kv_subtotal :: string
  kv_currency :: string
  kv_readyForCheckout :: bool

text \<open>\<open>Math.round(Number(v.price) * 100)\<close> is the paise of the price column.\<close>

definition cartLine :: "cart_row \<Rightarrow> variant_row \<Rightarrow> db \<Rightarrow> cart_line" where
  "cartLine item v s =
     (let issue = issueOf item v s; unitCents = va_price v; p = productOf v s in
      \<lparr>kl_variantId = va_id v, kl_productId = pr_id p, kl_productName = pr_name p, kl_sku = va_sku v,
       kl_attributes = attributesOf v, kl_unitPrice = money unitCents, kl_quantity = ct_quantity item,
       kl_lineTotal = money (unitCents * ct_quantity item), kl_available = (issue = None), kl_issue = issue\<rparr>)"

fun cartLoop :: "db \<Rightarrow> cart_row list \<Rightarrow> paise \<Rightarrow> error + cart_line list \<times> paise" where
  "cartLoop s [] subtotalCents = Inr ([], subtotalCents)"
| "cartLoop s (item # items) subtotalCents =
     (case cartVariant item s of
        None \<Rightarrow> Inl (JsError ''Cannot read properties of null'')
      | Some v \<Rightarrow>
          (case cartLoop s items (if issueOf item v s = None then subtotalCents + va_price v * ct_quantity item else subtotalCents) of
             Inl e \<Rightarrow> Inl e
           | Inr (ls, t) \<Rightarrow> Inr (cartLine item v s # ls, t)))"

definition ownCart :: "open_store \<Rightarrow> string \<Rightarrow> cart_row \<Rightarrow> bool" where
  "ownCart store customerId c \<longleftrightarrow> ct_tenantId c = os_id store \<and> ct_customerId c = customerId"

definition getCart :: "open_store \<Rightarrow> string \<Rightarrow> cart_view shopio" where
  "getCart store customerId =
     bindH (readH (\<lambda>w. cartLoop (sh_db w) (sort_key ct_createdAt (filter (ownCart store customerId) (sh_carts w))) 0)) (\<lambda>r.
     bindH (liftH r) (\<lambda>(ls, subtotalCents).
     returnH \<lparr>kv_items = ls, kv_itemCount = foldl (\<lambda>n l. n + kl_quantity l) 0 ls, kv_subtotal = money subtotalCents,
       kv_currency = os_currency store, kv_readyForCheckout = (ls \<noteq> [] \<and> list_all kl_available ls)\<rparr>))"

definition dropItems :: "(cart_row \<Rightarrow> bool) \<Rightarrow> unit shopio" where
  "dropItems P = writeH (\<lambda>w. w\<lparr>sh_carts := deleteMany P (sh_carts w)\<rparr>)"

text \<open>\<open>cartItem.upsert\<close> on the unique pair of customer and variant.\<close>

definition upsertItem :: "env \<Rightarrow> open_store \<Rightarrow> string \<Rightarrow> string \<Rightarrow> int \<Rightarrow> shop_db \<Rightarrow> shop_db" where
  "upsertItem env store customerId variantId quantity w =
     (let key = (\<lambda>c. ct_customerId c = customerId \<and> ct_variantId c = variantId) in
      w\<lparr>sh_carts := (if list_ex key (sh_carts w) then updateMany key (\<lambda>c. c\<lparr>ct_quantity := quantity\<rparr>) (sh_carts w)
        else sh_carts w @ [\<lparr>ct_tenantId = os_id store, ct_customerId = customerId, ct_variantId = variantId,
          ct_quantity = quantity, ct_createdAt = env_now env\<rparr>])\<rparr>)"

definition setCartItem :: "env \<Rightarrow> open_store \<Rightarrow> string \<Rightarrow> string \<Rightarrow> int \<Rightarrow> cart_view shopio" where
  "setCartItem env store customerId variantId quantity =
     (if quantity = 0
      then thenH (dropItems (\<lambda>c. ownCart store customerId c \<and> ct_variantId c = variantId)) (getCart store customerId)
      else bindH (readH (\<lambda>w. find (\<lambda>v. va_id v = variantId \<and> va_tenantId v = os_id store \<and> isSellable v (productOf v (sh_db w)))
             (variants (sh_db w)))) (\<lambda>found.
           bindH (orThrowH found (AppError 404 ''PRODUCT_NOT_AVAILABLE'')) (\<lambda>v.
           bindH (readH (\<lambda>w. stockOf variantId (sh_db w))) (\<lambda>stock.
           thenH (throwIfH (stock < quantity) (AppError 409 ''INSUFFICIENT_STOCK''))
          (thenH (writeH (upsertItem env store customerId variantId quantity)) (getCart store customerId))))))"

definition clearCart :: "open_store \<Rightarrow> string \<Rightarrow> cart_view shopio" where
  "clearCart store customerId = thenH (dropItems (ownCart store customerId)) (getCart store customerId)"

section \<open>What a shopper sees of an order\<close>

record order_line_view =
  ol_productName :: string
  ol_variantName :: string
  ol_sku :: string
  ol_unitPrice :: string
  ol_quantity :: int
  ol_lineTotal :: string
  ol_hsnCode :: "string option"
  ol_gstRatePercent :: rat

record customer_order =
  od_id :: string
  od_number :: string
  od_status :: order_status
  od_createdAt :: int
  od_currency :: string
  od_subtotal :: string
  od_discountTotal :: string
  od_taxTotal :: string
  od_shippingTotal :: string
  od_total :: string
  od_invoiceNumber :: "string option"
  od_supplyType :: "string option"
  od_cgstTotal :: string
  od_sgstTotal :: string
  od_igstTotal :: string
  od_items :: "order_line_view list"
  od_shippingAddress :: jsval
  od_billingAddress :: jsval
  od_timeline :: "order_status list"
  od_payments :: "(string \<times> payment_status \<times> string \<times> string) list"

definition lineView :: "order_item_row \<Rightarrow> order_line_view" where
  "lineView i = \<lparr>ol_productName = oi_productName i, ol_variantName = oi_variantName i, ol_sku = oi_sku i,
     ol_unitPrice = money (oi_unitPrice i), ol_quantity = oi_quantity i, ol_lineTotal = money (oi_lineTotal i),
     ol_hsnCode = oi_hsnCode i, ol_gstRatePercent = oi_gstRatePercent i\<rparr>"

definition toCustomerOrder :: "db \<Rightarrow> order_row \<Rightarrow> customer_order" where
  "toCustomerOrder s r =
     \<lparr>od_id = or_id r, od_number = toUpperCase (take 8 (or_id r)), od_status = or_status r, od_createdAt = or_createdAt r,
      od_currency = or_currency r, od_subtotal = money (or_subtotal r), od_discountTotal = money (or_discountTotal r),
      od_taxTotal = money (or_taxTotal r), od_shippingTotal = money (or_shippingTotal r), od_total = money (or_total r),
      od_invoiceNumber = or_invoiceNumber r, od_supplyType = or_supplyType r, od_cgstTotal = money (or_cgstTotal r),
      od_sgstTotal = money (or_sgstTotal r), od_igstTotal = money (or_igstTotal r),
      od_items = map lineView (filter (\<lambda>i. oi_orderId i = or_id r) (orderItems s)),
      od_shippingAddress = or_shippingAddress r, od_billingAddress = or_billingAddress r,
      od_timeline = map hi_to (filter (\<lambda>h. hi_orderId h = or_id r) (orderHistory s)),
      od_payments = map (\<lambda>p. (py_id p, py_status p, money (py_amount p), py_currency p))
        (filter (\<lambda>p. py_orderId p = or_id r \<and> py_deletedAt p = None) (payments s))\<rparr>"

definition listOwnOrders :: "open_store \<Rightarrow> string \<Rightarrow> nat \<Rightarrow> nat \<Rightarrow> order_status option \<Rightarrow> shop_db \<Rightarrow> customer_order list \<times> nat" where
  "listOwnOrders store customerId page limit status w =
     (let rows = filter (\<lambda>r. or_tenantId r = os_id store \<and> or_customerId r = customerId
            \<and> (case status of None \<Rightarrow> True | Some st \<Rightarrow> or_status r = st)) (orders (sh_db w))
      in (map (toCustomerOrder (sh_db w))
            (take limit (drop ((page - 1) * limit) (sort_key (\<lambda>r. (- or_createdAt r, or_id r)) rows))), length rows))"

definition findOwnOrder :: "open_store \<Rightarrow> string \<Rightarrow> string \<Rightarrow> order_row shopio" where
  "findOwnOrder store customerId orderId =
     bindH (readH (\<lambda>w. find (\<lambda>r. or_id r = orderId \<and> or_tenantId r = os_id store \<and> or_customerId r = customerId) (orders (sh_db w)))) (\<lambda>found.
     orThrowH found (AppError 404 ''ORDER_NOT_FOUND''))"

definition getOwnOrder :: "open_store \<Rightarrow> string \<Rightarrow> string \<Rightarrow> customer_order shopio" where
  "getOwnOrder store customerId orderId =
     bindH (findOwnOrder store customerId orderId) (\<lambda>r. readH (\<lambda>w. toCustomerOrder (sh_db w) r))"

section \<open>Paying\<close>

record shop_payment =
  yp_id :: string
  yp_status :: payment_status
  yp_amount :: string
  yp_currency :: string
  yp_provider :: string
  yp_providerPaymentId :: "string option"
  yp_checkout :: "(checkout \<times> string) option"    \<comment> \<open>what Razorpay's checkout needs, and the store's name\<close>

definition toPayment :: "payment_row \<Rightarrow> (checkout \<times> string) option \<Rightarrow> shop_payment" where
  "toPayment p c = \<lparr>yp_id = py_id p, yp_status = py_status p, yp_amount = money (py_amount p), yp_currency = py_currency p,
     yp_provider = py_provider p, yp_providerPaymentId = py_providerPaymentId p, yp_checkout = c\<rparr>"

abbreviation ofNull :: error where
  "ofNull \<equiv> JsError ''Cannot read properties of null''"

text \<open>\<open>x || undefined\<close> for a string column.\<close>

definition orUndef :: "string option \<Rightarrow> jsval" where
  "orUndef x = (case nonEmpty x of None \<Rightarrow> JUndef | Some v \<Rightarrow> JStr v)"

definition prefillOf :: "customer_row option \<Rightarrow> jsval" where
  "prefillOf c = JObj
     [(''name'', orUndef (Some (joinWith '' '' (filter (\<lambda>x. x \<noteq> []) (case c of None \<Rightarrow> [] | Some r \<Rightarrow> [cu_firstName r, cu_lastName r]))))),
      (''email'', orUndef (map_option cu_email c)),
      (''contact'', orUndef (Option.bind c cu_phone))]"

definition startShopPayment :: "env \<Rightarrow> remote \<Rightarrow> provider \<Rightarrow> open_store \<Rightarrow> string \<Rightarrow> string \<Rightarrow> shop_payment dbio" where
  "startShopPayment env rm pv store customerId orderId =
     bindH (readH (enabledFor rm (os_id store))) (\<lambda>e.
     bindH (liftH e) (\<lambda>enabled.
     if \<not> enabled
     then bindH (createPayment env pv (os_id store) None
            \<lparr>cp_orderId = orderId, cp_provider = None, cp_currency = None, cp_metadata = JUndef\<rparr>) (\<lambda>created.
          bindH (orThrowH created ofNull) (\<lambda>p. returnH (toPayment p None)))
     else bindH (readH (\<lambda>s. find (\<lambda>c. cu_id c = customerId \<and> cu_tenantId c = os_id store) (customers s))) (\<lambda>customer.
          bindH (startPayment env rm (os_id store) orderId None
            (JObj [(''description'', JStr (os_name store @ '' order'')), (''prefill'', prefillOf customer)])) (\<lambda>(payment, checkout).
          returnH (toPayment payment (Some (checkout, os_name store)))))))"

definition payOrder :: "env \<Rightarrow> remote \<Rightarrow> provider \<Rightarrow> open_store \<Rightarrow> string \<Rightarrow> string \<Rightarrow> shop_payment shopio" where
  "payOrder env rm pv store customerId orderId =
     thenH (findOwnOrder store customerId orderId) (onDb (startShopPayment env rm pv store customerId orderId))"

definition verifyShopPayment :: "env \<Rightarrow> remote \<Rightarrow> open_store \<Rightarrow> string \<Rightarrow> string \<Rightarrow> checkout_answer \<Rightarrow> shop_payment shopio" where
  "verifyShopPayment env rm store customerId paymentId body =
     onDb (bindH (verifyPayment env rm (os_id store) paymentId body None
         (\<lambda>p s. list_ex (\<lambda>r. or_id r = py_orderId p \<and> or_customerId r = customerId) (orders s))) (\<lambda>p.
       bindH (orThrowH p ofNull) (\<lambda>q. returnH (toPayment q None))))"

definition onlinePaymentInfo :: "remote \<Rightarrow> open_store \<Rightarrow> bool shopio" where
  "onlinePaymentInfo rm store = onDb (bindH (readH (enabledFor rm (os_id store))) liftH)"

section \<open>Checkout\<close>

definition activeIn :: "db \<Rightarrow> inventory_row \<Rightarrow> bool" where
  "activeIn s i \<longleftrightarrow> list_ex (\<lambda>w. wh_id w = iv_warehouseId i \<and> wh_isActive w) (warehouses s)"

definition defaultIn :: "db \<Rightarrow> inventory_row \<Rightarrow> bool" where
  "defaultIn s i \<longleftrightarrow> list_ex (\<lambda>w. wh_id w = iv_warehouseId i \<and> wh_isDefault w) (warehouses s)"

definition pickWarehouse :: "string \<Rightarrow> int \<Rightarrow> db \<Rightarrow> string option" where
  "pickWarehouse variantId quantity s =
     (let candidates = filter (\<lambda>i. iv_variantId i = variantId \<and> activeIn s i \<and> quantity \<le> iv_quantity i) (inventory s) in
      case sort_key (\<lambda>i. (\<not> defaultIn s i, - iv_quantity i)) candidates of [] \<Rightarrow> None | i # _ \<Rightarrow> Some (iv_warehouseId i))"

abbreviation cartNotReady :: error where
  "cartNotReady \<equiv> AppError 409 ''CART_NOT_READY''"

fun checkoutLines :: "db \<Rightarrow> cart_row list \<Rightarrow> error + item_body list" where
  "checkoutLines s [] = Inr []"
| "checkoutLines s (item # items) =
     (case cartVariant item s of
        None \<Rightarrow> Inl ofNull
      | Some v \<Rightarrow>
          (case nonEmpty (if isSellable v (productOf v s) then pickWarehouse (va_id v) (ct_quantity item) s else None) of
             None \<Rightarrow> Inl cartNotReady
           | Some wh \<Rightarrow>
               (case checkoutLines s items of
                  Inl e \<Rightarrow> Inl e
                | Inr ls \<Rightarrow> Inr (\<lparr>ib_productVariantId = Some (va_id v), ib_variantId = None, ib_warehouseId = wh,
                    ib_quantity = ct_quantity item, ib_discount = None, ib_tax = None\<rparr> # ls))))"

definition checkoutOrder :: "open_store \<Rightarrow> string \<Rightarrow> item_body list \<Rightarrow> string option \<Rightarrow> string option \<Rightarrow> order_body" where
  "checkoutOrder store customerId ls shippingAddressId billingAddressId =
     \<lparr>ob_customerId = customerId, ob_items = ls, ob_shippingTotal = None, ob_currency = Some (os_currency store),
      ob_metadata = JObj [(''source'', JStr ''storefront'')], ob_shippingAddressId = shippingAddressId,
      ob_billingAddressId = billingAddressId, ob_channel = Some ''STOREFRONT''\<rparr>"

definition shopperCtx :: "client \<Rightarrow> audit_context" where
  "shopperCtx c = \<lparr>cx_userId = None, cx_ipAddress = ci_ipAddress c, cx_userAgent = ci_userAgent c\<rparr>"

text \<open>After the items are read: the order, the empty cart, and an attempt to start its payment.\<close>

definition placeCart ::
  "env \<Rightarrow> (nat \<Rightarrow> error option) \<Rightarrow> remote \<Rightarrow> provider \<Rightarrow> open_store \<Rightarrow> string \<Rightarrow> string option \<Rightarrow> string option \<Rightarrow> client
     \<Rightarrow> cart_row list \<Rightarrow> (customer_order \<times> shop_payment option) shopio" where
  "placeCart env faults rm pv store customerId shippingAddressId billingAddressId c items =
     bindH (readH (\<lambda>w. checkoutLines (sh_db w) items)) (\<lambda>r.
     bindH (liftH r) (\<lambda>ls.
     bindH (onDb (createOrder env faults (os_id store) (shopperCtx c)
        (checkoutOrder store customerId ls shippingAddressId billingAddressId) noHook)) (\<lambda>created.
     thenH (dropItems (ownCart store customerId))
    (bindH (catchH (bindH (onDb (startShopPayment env rm pv store customerId (or_id created))) (\<lambda>p. returnH (Some p)))
        (\<lambda>_. returnH None)) (\<lambda>payment.
     bindH (getOwnOrder store customerId (or_id created)) (\<lambda>order. returnH (order, payment)))))))"

definition checkoutCart ::
  "env \<Rightarrow> (nat \<Rightarrow> error option) \<Rightarrow> remote \<Rightarrow> provider \<Rightarrow> open_store \<Rightarrow> string \<Rightarrow> string option \<Rightarrow> string option \<Rightarrow> client
     \<Rightarrow> (customer_order \<times> shop_payment option) shopio" where
  "checkoutCart env faults rm pv store customerId shippingAddressId billingAddressId c =
     bindH (readH (\<lambda>w. filter (ownCart store customerId) (sh_carts w))) (\<lambda>items.
     thenH (throwIfH (items = []) (AppError 409 ''CART_EMPTY''))
       (placeCart env faults rm pv store customerId shippingAddressId billingAddressId c items))"

section \<open>The warehouse of a line\<close>

lemma hd_sort_key_mem: "sort_key f xs = x # ys \<Longrightarrow> x \<in> set xs"
  by (metis list.set_intros(1) set_sort)

lemma hd_sort_key_least:
  assumes "sort_key f xs = x # ys" and "y \<in> set xs"
  shows "f x \<le> f y"
proof -
  have "y \<in> set (x # ys)" using assms(2) set_sort [of f xs] unfolding assms(1) by simp
  moreover have "sorted (map f (x # ys))" using sorted_sort_key [of f xs] unfolding assms(1) .
  ultimately show ?thesis by auto
qed

text \<open>The warehouse that is picked is active and covers the line; it is the default one if that covers it, else none covers it with more.\<close>

lemma pickWarehouse_None:
  "pickWarehouse v q s = None \<longleftrightarrow> \<not> list_ex (\<lambda>i. iv_variantId i = v \<and> activeIn s i \<and> q \<le> iv_quantity i) (inventory s)"
proof -
  let ?cs = "filter (\<lambda>i. iv_variantId i = v \<and> activeIn s i \<and> q \<le> iv_quantity i) (inventory s)"
  let ?srt = "sort_key (\<lambda>i. (\<not> defaultIn s i, - iv_quantity i)) ?cs"
  have "pickWarehouse v q s = None \<longleftrightarrow> ?srt = []"
    unfolding pickWarehouse_def Let_def by (rule list.exhaust [of ?srt]) (simp_all only: list.case option.distinct list.distinct simp_thms)
  also have "\<dots> \<longleftrightarrow> ?cs = []" unfolding length_0_conv [symmetric] length_sort ..
  also have "\<dots> \<longleftrightarrow> \<not> list_ex (\<lambda>i. iv_variantId i = v \<and> activeIn s i \<and> q \<le> iv_quantity i) (inventory s)"
    unfolding filter_empty_conv list_ex_iff by blast
  finally show ?thesis .
qed

lemma pickWarehouse_Some:
  assumes "pickWarehouse v q s = Some w"
  obtains i where "i \<in> set (inventory s)" "iv_variantId i = v" "iv_warehouseId i = w" "activeIn s i" "q \<le> iv_quantity i"
    "\<And>j. j \<in> set (inventory s) \<Longrightarrow> iv_variantId j = v \<Longrightarrow> activeIn s j \<Longrightarrow> q \<le> iv_quantity j \<Longrightarrow>
       defaultIn s i \<or> (\<not> defaultIn s j \<and> iv_quantity j \<le> iv_quantity i)"
proof -
  let ?cs = "filter (\<lambda>i. iv_variantId i = v \<and> activeIn s i \<and> q \<le> iv_quantity i) (inventory s)"
  obtain i js where srt: "sort_key (\<lambda>i. (\<not> defaultIn s i, - iv_quantity i)) ?cs = i # js" and w: "w = iv_warehouseId i"
    using assms by (auto simp: pickWarehouse_def Let_def split: list.splits)
  show thesis
  proof (rule that)
    fix j assume "j \<in> set (inventory s)" "iv_variantId j = v" "activeIn s j" "q \<le> iv_quantity j"
    then have "(\<not> defaultIn s i, - iv_quantity i) \<le> (\<not> defaultIn s j, - iv_quantity j)"
      by (intro hd_sort_key_least [OF srt]) simp
    then show "defaultIn s i \<or> (\<not> defaultIn s j \<and> iv_quantity j \<le> iv_quantity i)" by (auto simp: less_eq_prod_def)
  qed (use hd_sort_key_mem [OF srt] w in auto)
qed

section \<open>The price of a cart\<close>

definition itemCents :: "db \<Rightarrow> cart_row \<Rightarrow> paise" where
  "itemCents s item = (case cartVariant item s of None \<Rightarrow> 0 | Some v \<Rightarrow> va_price v * ct_quantity item)"

definition itemReady :: "db \<Rightarrow> cart_row \<Rightarrow> bool" where
  "itemReady s item = (case cartVariant item s of None \<Rightarrow> False | Some v \<Rightarrow> issueOf item v s = None)"

lemma cartLoop_Inr:
  "cartLoop s items acc = Inr (ls, t) \<Longrightarrow>
     length ls = length items \<and> (list_all kl_available ls \<longleftrightarrow> list_all (itemReady s) items)
     \<and> t = acc + sum_list (map (itemCents s) (filter (itemReady s) items))"
proof (induction items arbitrary: acc ls t)
  case (Cons item items)
  from Cons.prems obtain v ls' where v: "cartVariant item s = Some v"
    and rest: "cartLoop s items (if issueOf item v s = None then acc + va_price v * ct_quantity item else acc) = Inr (ls', t)"
    and ls: "ls = cartLine item v s # ls'"
    by (auto split: option.splits sum.splits)
  show ?case using Cons.IH [OF rest] v ls by (auto simp: itemCents_def itemReady_def cartLine_def Let_def)
qed simp

lemma sum_list_sort_key: "sum_list (map f (sort_key g xs)) = sum_list (map (f :: _ \<Rightarrow> int) xs)"
  by (metis mset_map mset_sort sum_mset_sum_list)

lemma getCart_Inr:
  assumes "getCart store cust w = (Inr cart, w')"
  defines "items \<equiv> filter (ownCart store cust) (sh_carts w)"
  shows "w' = w \<and> (kv_readyForCheckout cart \<longleftrightarrow> items \<noteq> [] \<and> list_all (itemReady (sh_db w)) items)
    \<and> cents (kv_subtotal cart) = sum_list (map (itemCents (sh_db w)) (filter (itemReady (sh_db w)) items))"
proof -
  let ?sorted = "sort_key ct_createdAt items"
  obtain ls t where loop: "cartLoop (sh_db w) ?sorted 0 = Inr (ls, t)" and w: "w' = w"
    and c: "kv_subtotal cart = money t" "kv_readyForCheckout cart = (ls \<noteq> [] \<and> list_all kl_available ls)"
    using assms(1) by (auto simp: getCart_def outcome items_def)
  have "filter (itemReady (sh_db w)) ?sorted = sort_key ct_createdAt (filter (itemReady (sh_db w)) items)"
    by (simp add: filter_sort)
  then have "t = sum_list (map (itemCents (sh_db w)) (filter (itemReady (sh_db w)) items))"
    using cartLoop_Inr [OF loop] by (simp add: sum_list_sort_key)
  moreover have "ls = [] \<longleftrightarrow> items = []" using cartLoop_Inr [OF loop] by (metis length_0_conv length_sort)
  moreover have "list_all (itemReady (sh_db w)) ?sorted = list_all (itemReady (sh_db w)) items" by (simp add: list_all_iff)
  ultimately show ?thesis using cartLoop_Inr [OF loop] c w by simp
qed

section \<open>The order of a cart\<close>

definition lineOf :: "db \<Rightarrow> cart_row \<Rightarrow> item_body \<Rightarrow> bool" where
  "lineOf s item l \<longleftrightarrow> (\<exists>v wh. cartVariant item s = Some v \<and> isSellable v (productOf v s)
     \<and> pickWarehouse (va_id v) (ct_quantity item) s = Some wh
     \<and> l = \<lparr>ib_productVariantId = Some (ct_variantId item), ib_variantId = None, ib_warehouseId = wh,
         ib_quantity = ct_quantity item, ib_discount = None, ib_tax = None\<rparr>)"

lemma cartVariant_SomeD: "cartVariant item s = Some v \<Longrightarrow> v \<in> set (variants s) \<and> va_id v = ct_variantId item"
  by (auto simp: cartVariant_def dest: find_SomeD)

lemma nonEmpty_SomeD: "nonEmpty x = Some y \<Longrightarrow> x = Some y"
  by (auto simp: nonEmpty_def split: option.splits if_splits)

lemma checkoutLines_Inr: "checkoutLines s items = Inr ls \<Longrightarrow> list_all2 (lineOf s) items ls"
proof (induction items arbitrary: ls)
  case (Cons item items)
  from Cons.prems obtain v wh ls' where v: "cartVariant item s = Some v"
    and wh: "nonEmpty (if isSellable v (productOf v s) then pickWarehouse (va_id v) (ct_quantity item) s else None) = Some wh"
    and rest: "checkoutLines s items = Inr ls'"
    and ls: "ls = \<lparr>ib_productVariantId = Some (va_id v), ib_variantId = None, ib_warehouseId = wh,
       ib_quantity = ct_quantity item, ib_discount = None, ib_tax = None\<rparr> # ls'"
    by (auto split: option.splits sum.splits)
  have "lineOf s item (hd ls)"
    using v ls nonEmpty_SomeD [OF wh] cartVariant_SomeD [OF v] by (simp add: lineOf_def split: if_splits)
  then show ?case using Cons.IH [OF rest] ls by simp
qed simp

lemma member_le_sum_list: "x \<in> set xs \<Longrightarrow> (\<And>y. y \<in> set xs \<Longrightarrow> 0 \<le> f y) \<Longrightarrow> f x \<le> sum_list (map (f :: _ \<Rightarrow> int) xs)"
proof (induction xs)
  case (Cons a xs)
  have "0 \<le> sum_list (map f xs)" using Cons.prems(2) by (intro sum_list_nonneg) auto
  then show ?case using Cons by (cases "x = a") (auto simp: add_increasing)
qed simp

lemma line_ready:
  assumes "lineOf s item l" and "list_all (\<lambda>r. 0 \<le> iv_quantity r) (inventory s)"
  shows "itemReady s item"
proof -
  from assms(1) obtain v wh where v: "cartVariant item s = Some v" "isSellable v (productOf v s)"
    and p: "pickWarehouse (va_id v) (ct_quantity item) s = Some wh" by (auto simp: lineOf_def)
  from p obtain i where i: "i \<in> set (inventory s)" "iv_variantId i = va_id v" "ct_quantity item \<le> iv_quantity i"
    by (rule pickWarehouse_Some)
  have "iv_quantity i \<le> stockOf (va_id v) s"
    unfolding stockOf_def using i assms(2) by (intro member_le_sum_list) (auto simp: list_all_iff)
  then show ?thesis using v i by (simp add: itemReady_def issueOf_def)
qed

lemma calcItem_plain:
  assumes "calcItem pg v p it acc = Inr (c, acc')" and "ni_discount it = ''0''" "ni_tax it = None"
  shows "to_discount acc' = to_discount acc"
    and "pg_inclusive pg \<Longrightarrow> to_subtotal acc' + to_tax acc' = to_subtotal acc + to_tax acc + va_price v * ni_quantity it"
    and "\<not> pg_inclusive pg \<Longrightarrow> to_subtotal acc' = to_subtotal acc + va_price v * ni_quantity it"
proof -
  have z: "cents ''0'' = 0" by code_simp
  let ?gross = "va_price v * ni_quantity it"
  let ?rate = "if pg_chargesGst pg then lineRate (Some (gstProduct p)) (pg_gstRatePercent pg) else 0"
  let ?lt = "lineTax ?gross ?rate (pg_inclusive pg) None"
  have pos: "0 \<le> ?gross" and d: "to_discount acc' = to_discount acc" and s: "to_subtotal acc' = to_subtotal acc + lt_taxableCents ?lt"
    and t: "to_tax acc' = to_tax acc + lt_taxCents ?lt"
    using assms by (auto simp: calcItem_def Let_def z split: if_splits)
  show "to_discount acc' = to_discount acc" by (rule d)
  show "to_subtotal acc' + to_tax acc' = to_subtotal acc + to_tax acc + ?gross" if "pg_inclusive pg"
    using lineTax_total_aux [OF pos, of ?rate "pg_inclusive pg"] that s t by simp
  show "to_subtotal acc' = to_subtotal acc + ?gross" if "\<not> pg_inclusive pg"
    using lineTax_total_aux [OF pos, of ?rate "pg_inclusive pg"] that s by simp
qed

definition bodyCents :: "string \<Rightarrow> db \<Rightarrow> norm_item \<Rightarrow> paise" where
  "bodyCents t s it = (case findVariant (ni_productVariantId it) t s of None \<Rightarrow> 0 | Some v \<Rightarrow> va_price v * ni_quantity it)"

lemma calcItems_plain:
  assumes "calcItems pg t s its acc = Inr (cs, acc')" and "\<forall>it\<in>set its. ni_discount it = ''0'' \<and> ni_tax it = None"
  shows "to_discount acc' = to_discount acc
    \<and> (pg_inclusive pg \<longrightarrow> to_subtotal acc' + to_tax acc' = to_subtotal acc + to_tax acc + sum_list (map (bodyCents t s) its))
    \<and> (\<not> pg_inclusive pg \<longrightarrow> to_subtotal acc' = to_subtotal acc + sum_list (map (bodyCents t s) its))
    \<and> (\<forall>it\<in>set its. findVariant (ni_productVariantId it) t s \<noteq> None)"
  using assms
proof (induction its arbitrary: acc cs)
  case (Cons it its)
  from Cons.prems(1) obtain v c acc1 cs1 where v: "findVariant (ni_productVariantId it) t s = Some v"
    and c: "calcItem pg v (productOf v s) it acc = Inr (c, acc1)"
    and rest: "calcItems pg t s its acc1 = Inr (cs1, acc')"
    by (auto split: option.splits sum.splits)
  have plain: "ni_discount it = ''0''" "ni_tax it = None" using Cons.prems(2) by simp_all
  have "bodyCents t s it = va_price v * ni_quantity it" using v by (simp add: bodyCents_def)
  then show ?case using Cons.IH [OF rest] Cons.prems(2) calcItem_plain [OF c plain] v by simp
qed simp

lemma prepareOrder_calc:
  assumes "prepareOrder env t body s = (Inr p, s')"
  obtains pg tot where "calcItems pg t s (map normalizeItem (ob_items body)) noTotals = Inr (pp_items p, tot)"
    "pg_inclusive pg = truthy (jget ''pricesIncludeTax'' (od_taxProfile (resolveOrderDefaults env t s)))"
    "cents (pp_subtotalStr p) = to_subtotal tot"
    "cents (pp_totalStr p) = to_subtotal tot - to_discount tot + to_tax tot
       + cents (orEmpty (orElse (ob_shippingTotal body) (Some ''0'')))"
    "cu_id (pp_customer p) = ob_customerId body"
  using assms
  by (auto simp: prepareOrder_def Let_def outcome case_prod_beta finishOrder_def findCustomer_def
        dest!: resolveOrderAddress_Inr assertWithinPlan_state find_SomeD)

text \<open>What the lines take of a variant at a warehouse.\<close>

definition linesTake :: "item_body list \<Rightarrow> string \<Rightarrow> string \<Rightarrow> int" where
  "linesTake ls v wh = sum_list (map ib_quantity (filter (\<lambda>l. ib_productVariantId l = Some v \<and> ib_warehouseId l = wh) ls))"

lemma reserved_linesTake:
  assumes "map ic_productVariantId cs = map ni_productVariantId (map normalizeItem ls)"
    and "map ic_warehouseId cs = map ni_warehouseId (map normalizeItem ls)"
    and "map ic_quantity cs = map ni_quantity (map normalizeItem ls)"
    and "\<forall>l\<in>set ls. \<exists>x. ib_productVariantId l = Some x \<and> x \<noteq> []" and "v \<noteq> []"
  shows "reserved t cs (t, v, wh) = linesTake ls v wh"
  using assms
proof (induction cs arbitrary: ls)
  case Nil
  then show ?case by (simp add: linesTake_def)
next
  case (Cons c cs)
  from Cons.prems(1) obtain l ls' where ls: "ls = l # ls'" by (cases ls) auto
  obtain x where x: "ib_productVariantId l = Some x" "x \<noteq> []" using Cons.prems(4) ls by auto
  have "ni_productVariantId (normalizeItem l) = x" using x by (simp add: normalizeItem_def orElse_def orEmpty_def)
  then show ?case using Cons.IH [of ls'] Cons.prems ls x
    by (auto simp: linesTake_def calcKey_def normalizeItem_def)
qed

lemma lineOf_item: "lineOf s item l \<Longrightarrow> ct_variantId item \<noteq> [] \<Longrightarrow>
    ni_productVariantId (normalizeItem l) = ct_variantId item \<and> ni_quantity (normalizeItem l) = ct_quantity item
    \<and> ni_discount (normalizeItem l) = ''0'' \<and> ni_tax (normalizeItem l) = None
    \<and> ib_productVariantId l = Some (ct_variantId item)"
  by (auto simp: lineOf_def normalizeItem_def orElse_def orEmpty_def)

lemma lineOf_cents:
  assumes "lineOf s item l" and "ct_variantId item \<noteq> []" and "distinct (map va_id (variants s))"
    and "findVariant (ni_productVariantId (normalizeItem l)) t s \<noteq> None"
  shows "bodyCents t s (normalizeItem l) = itemCents s item"
proof -
  obtain v where v: "cartVariant item s = Some v" using assms(1) by (auto simp: lineOf_def)
  obtain u where u: "findVariant (ct_variantId item) t s = Some u" using assms(4) lineOf_item [OF assms(1,2)] by auto
  have "u = v" using u cartVariant_SomeD [OF v] assms(3)
    by (auto simp: findVariant_def distinct_map inj_on_def dest!: find_SomeD)
  then show ?thesis using u v lineOf_item [OF assms(1,2)] by (simp add: bodyCents_def itemCents_def)
qed

lemma createOrder_cart:
  assumes run: "createOrder env faults t ctx (checkoutOrder store cust ls sa ba) noHook s = (Inr r, s1)"
    and items: "list_all2 (lineOf s) items ls" and ids: "distinct (map va_id (variants s))" and ne: "[] \<notin> ct_variantId ` set items"
  shows "orders s1 = orders s @ [r] \<and> or_tenantId r = t \<and> or_customerId r = cust \<and> (\<forall>q\<in>set (orders s). or_id q \<noteq> or_id r)"
    and "\<exists>rows. orderItems s1 = orderItems s @ rows
       \<and> map (\<lambda>i. (oi_variantId i, oi_quantity i)) rows = map (\<lambda>i. (ct_variantId i, ct_quantity i)) items"
    and "v \<noteq> [] \<Longrightarrow> onHand s1 (t, v, wh) = onHand s (t, v, wh) - linesTake ls v wh"
    and "(if truthy (jget ''pricesIncludeTax'' (od_taxProfile (resolveOrderDefaults env t s))) then or_total r else or_subtotal r)
       = sum_list (map (itemCents s) items)"
proof -
  let ?body = "checkoutOrder store cust ls sa ba"
  obtain p s2 ms js where p: "prepareOrder env t ?body s = (Inr p, s)" and ok: "preparedOk p"
    and core: "orderCore env t ctx p s = Inr (r, s2)" and s1: "s1 = s2\<lparr>sent := sent s2 @ ms, jobs := jobs s2 @ js\<rparr>"
    by (rule createOrder_plain_Inr [OF run])
  have cok: "list_all calcOk (pp_items p)" using ok by (simp add: preparedOk_def)
  have body: "ob_items ?body = ls" "ob_shippingTotal ?body = None" "ob_customerId ?body = cust" by (simp_all add: checkoutOrder_def)
  obtain pg tot where calc: "calcItems pg t s (map normalizeItem ls) noTotals = Inr (pp_items p, tot)"
    and pg: "pg_inclusive pg = truthy (jget ''pricesIncludeTax'' (od_taxProfile (resolveOrderDefaults env t s)))"
    and sub: "cents (pp_subtotalStr p) = to_subtotal tot"
    and total: "cents (pp_totalStr p) = to_subtotal tot - to_discount tot + to_tax tot + cents (orEmpty (orElse None (Some ''0'')))"
    and cust: "cu_id (pp_customer p) = cust"
    using prepareOrder_calc [OF p] unfolding body by blast
  have triple: "map ic_productVariantId (pp_items p) = map ni_productVariantId (map normalizeItem ls)"
    "map ic_warehouseId (pp_items p) = map ni_warehouseId (map normalizeItem ls)"
    "map ic_quantity (pp_items p) = map ni_quantity (map normalizeItem ls)"
    using prepareOrder_items [OF p] unfolding body by simp_all
  have len: "length items = length ls" using items by (simp add: list_all2_lengthD)
  have line: "lineOf s (items ! n) (ls ! n)" "ct_variantId (items ! n) \<noteq> []" if "n < length ls" for n
  proof -
    show "lineOf s (items ! n) (ls ! n)" by (rule list_all2_nthD2 [OF items that])
    have "items ! n \<in> set items" using that len by simp
    then show "ct_variantId (items ! n) \<noteq> []" using ne by (metis imageI)
  qed
  have item: "ni_productVariantId (normalizeItem (ls ! n)) = ct_variantId (items ! n)" "ni_quantity (normalizeItem (ls ! n)) = ct_quantity (items ! n)"
    "ni_discount (normalizeItem (ls ! n)) = ''0''" "ni_tax (normalizeItem (ls ! n)) = None"
    "ib_productVariantId (ls ! n) = Some (ct_variantId (items ! n))" if "n < length ls" for n
    using lineOf_item [OF line [OF that]] by simp_all
  have plain: "\<forall>it\<in>set (map normalizeItem ls). ni_discount it = ''0'' \<and> ni_tax it = None"
    using item by (auto simp: in_set_conv_nth)
  note did = calcItems_plain [OF calc plain]
  have "bodyCents t s (normalizeItem (ls ! n)) = itemCents s (items ! n)" if "n < length ls" for n
    using did that by (intro lineOf_cents [OF line [OF that] ids]) auto
  then have "map (bodyCents t s) (map normalizeItem ls) = map (itemCents s) items"
    using len by (intro nth_equalityI) auto
  then have due: "sum_list (map (bodyCents t s) (map normalizeItem ls)) = sum_list (map (itemCents s) items)" by (rule arg_cong)
  have z: "cents (orEmpty (orElse None (Some ''0''))) = 0" by code_simp
  have vars: "map ni_productVariantId (map normalizeItem ls) = map ct_variantId items"
    "map ni_quantity (map normalizeItem ls) = map ct_quantity items"
    using item len by (auto intro!: nth_equalityI)
  have pids: "\<forall>l\<in>set ls. \<exists>x. ib_productVariantId l = Some x \<and> x \<noteq> []"
    using item line(2) by (fastforce simp: in_set_conv_nth)
  obtain i n fy iv wv ids' d al ac where r: "r = orderRowOf env t p fy n i" and new: "\<not> orderTaken s t r"
    and oh: "onHand s2 = (\<lambda>k. onHand s k - reserved t (pp_items p) k)"
    and s2: "s2 = s\<lparr>inventory := iv, warehouseInventory := wv,
        movements := movements s @ map2 (reservationRow t (cx_userId ctx) i (onHand s2)) (pp_items p) ids',
        orders := orders s @ [r], orderItems := orderItems s @ map (itemRowOf t i) (pp_items p),
        orderHistory := orderHistory s @ [createdHistory t i (cx_userId ctx)],
        invoiceSeqs := setSequence (t, financialYear (env_now env)) (nextNumber s (t, financialYear (env_now env))) (invoiceSeqs s),
        auditLogs := al, activityLogs := ac, drawn := d\<rparr>"
    by (rule orderCore_Inr [OF core cok refl]) blast
  show "(if truthy (jget ''pricesIncludeTax'' (od_taxProfile (resolveOrderDefaults env t s))) then or_total r else or_subtotal r)
       = sum_list (map (itemCents s) items)"
    using did due pg sub total z by (auto simp: r orderRowOf_def noTotals_def)
  have os: "orders s2 = orders s @ [r]" and its: "orderItems s2 = orderItems s @ map (itemRowOf t i) (pp_items p)" by (subst s2, simp)+
  show "orders s1 = orders s @ [r] \<and> or_tenantId r = t \<and> or_customerId r = cust \<and> (\<forall>q\<in>set (orders s). or_id q \<noteq> or_id r)"
    using os new cust by (auto simp: s1 r orderRowOf_def orderTaken_def list_ex_iff)
  have "map (\<lambda>i. (oi_variantId i, oi_quantity i)) (map (itemRowOf t i) cs) = zip (map ic_productVariantId cs) (map ic_quantity cs)"
    for cs by (induction cs) (simp_all add: itemRowOf_def)
  then have "map (\<lambda>i. (oi_variantId i, oi_quantity i)) (map (itemRowOf t i) (pp_items p)) = zip (map ct_variantId items) (map ct_quantity items)"
    using triple vars by (simp only:)
  also have "\<dots> = map (\<lambda>i. (ct_variantId i, ct_quantity i)) items" by (induction items) simp_all
  finally show "\<exists>rows. orderItems s1 = orderItems s @ rows
       \<and> map (\<lambda>i. (oi_variantId i, oi_quantity i)) rows = map (\<lambda>i. (ct_variantId i, ct_quantity i)) items"
    using its by (intro exI [of _ "map (itemRowOf t i) (pp_items p)"]) (simp only: s1, simp)
  show "onHand s1 (t, v, wh) = onHand s (t, v, wh) - linesTake ls v wh" if "v \<noteq> []"
    using oh reserved_linesTake [OF triple pids that, of t wh] by (simp add: s1 onHand_def fun_eq_iff)
qed

section \<open>The whole checkout\<close>

lemma createPayment_frame:
  assumes "createPayment env pv t u body s = (r, s')"
  shows "orders s' = orders s \<and> orderItems s' = orderItems s \<and> inventory s' = inventory s"
proof (cases r)
  case (Inl e)
  then show ?thesis using assms createPayment_Inl by blast
next
  case (Inr x)
  from createPayment_Inr [OF assms [unfolded Inr]] obtain c where
    "createPaymentCommit env t u (cp_metadata body) c s = (Inr x, s')" by blast
  then show ?thesis
    by (auto simp: createPaymentCommit_def createPaymentTx_def outcome shortId_eq insertPayment_Inr insertPaymentTx_Inr
        split: option.splits)
qed

lemma newAttempt_frame:
  "newAttempt env rm cred t order u cur am s = Inr (p, s') \<Longrightarrow>
     orders s' = orders s \<and> orderItems s' = orderItems s \<and> inventory s' = inventory s"
  by (auto simp: newAttempt_def outcome insertPayment_Inr insertPaymentTx_Inr dest!: razorpayOrder_Inr)

lemma startPayment_frame:
  assumes "startPayment env rm t x u d s = (r, s')"
  shows "orders s' = orders s \<and> orderItems s' = orderItems s \<and> inventory s' = inventory s"
proof (cases r)
  case (Inl e)
  then show ?thesis using assms by (auto simp: startPayment_def outcome dest: credentialsOrThrow_state)
next
  case (Inr y)
  then obtain cred p where "startTx env rm cred t x u s = Inr (p, s')"
    using assms by (auto simp: startPayment_def outcome dest!: credentialsOrThrow_state)
  then show ?thesis
    by (auto simp: startTx_def Let_def outcome updatePayment_Inr dest!: newAttempt_frame split: option.splits if_splits)
qed

lemma startShopPayment_frame:
  assumes "startShopPayment env rm pv store cust x s = (r, s')"
  shows "orders s' = orders s \<and> orderItems s' = orderItems s \<and> inventory s' = inventory s"
  using assms
  by (cases r) (auto simp: startShopPayment_def outcome split: if_splits prod.splits dest!: createPayment_frame startPayment_frame)

lemma onDb_outcome [outcome]:
  "onDb m w = (r, w') \<longleftrightarrow> (\<exists>s. m (sh_db w) = (r, s) \<and> w' = w\<lparr>sh_db := s\<rparr>)"
  by (auto simp: onDb_def split: prod.splits)

lemma placeCart_Inr:
  assumes "placeCart env faults rm pv store cust sa ba c items w = (Inr (view, pay), w')"
  obtains ls r s1 where "checkoutLines (sh_db w) items = Inr ls"
    "createOrder env faults (os_id store) (shopperCtx c) (checkoutOrder store cust ls sa ba) noHook (sh_db w) = (Inr r, s1)"
    "orders (sh_db w') = orders s1" "orderItems (sh_db w') = orderItems s1" "inventory (sh_db w') = inventory s1"
    "sh_carts w' = deleteMany (ownCart store cust) (sh_carts w)"
    "getOwnOrder store cust (or_id r) w' = (Inr view, w')"
proof -
  let ?after = "\<lambda>s2. w\<lparr>sh_carts := deleteMany (ownCart store cust) (sh_carts w), sh_db := s2\<rparr>"
  obtain ls r s1 q s2 where ls: "checkoutLines (sh_db w) items = Inr ls"
    and run: "createOrder env faults (os_id store) (shopperCtx c) (checkoutOrder store cust ls sa ba) noHook (sh_db w) = (Inr r, s1)"
    and pay: "startShopPayment env rm pv store cust (or_id r) s1 = (q, s2)"
    and view: "getOwnOrder store cust (or_id r) (?after s2) = (Inr view, w')"
    using assms by (auto simp: placeCart_def dropItems_def outcome)
  have "w' = ?after s2" using view by (auto simp: getOwnOrder_def findOwnOrder_def outcome)
  then show thesis using that [OF ls run] startShopPayment_frame [OF pay] view by simp
qed

text \<open>C36: a checkout buys what the cart shows. When it succeeds the cart was ready; one order of the shopper is added, with a line
  for every item of the cart taken from the warehouse pickWarehouse chooses; the stock drops by exactly these lines; the order
  charges the amount the cart showed (before tax, or with it when prices include tax); the shopper's cart is empty and other carts are
  as they were; the answer is that order. Whether its payment could be started changes none of this.\<close>

theorem checkout_buys_the_cart:
  assumes items_def: "items = filter (ownCart store cust) (sh_carts w)"
    and "checkoutCart env faults rm pv store cust sa ba c w = (Inr (view, pay), w')"
    and "getCart store cust w = (Inr cart, w)"
    and "distinct (map va_id (variants (sh_db w)))" and "[] \<notin> ct_variantId ` set items"
    and "list_all (\<lambda>i. 0 \<le> iv_quantity i) (inventory (sh_db w))"
  shows "kv_readyForCheckout cart
    \<and> (\<exists>r ls rows. orders (sh_db w') = orders (sh_db w) @ [r] \<and> or_tenantId r = os_id store \<and> or_customerId r = cust
       \<and> orderItems (sh_db w') = orderItems (sh_db w) @ rows
       \<and> map (\<lambda>i. (oi_variantId i, oi_quantity i)) rows = map (\<lambda>i. (ct_variantId i, ct_quantity i)) items
       \<and> list_all2 (lineOf (sh_db w)) items ls
       \<and> (\<forall>v wh. v = [] \<or> onHand (sh_db w') (os_id store, v, wh) = onHand (sh_db w) (os_id store, v, wh) - linesTake ls v wh)
       \<and> cents (kv_subtotal cart) =
           (if truthy (jget ''pricesIncludeTax'' (od_taxProfile (resolveOrderDefaults env (os_id store) (sh_db w))))
            then or_total r else or_subtotal r)
       \<and> view = toCustomerOrder (sh_db w') r)
    \<and> sh_carts w' = filter (\<lambda>i. \<not> ownCart store cust i) (sh_carts w)"
proof -
  have ne: "items \<noteq> []" and place: "placeCart env faults rm pv store cust sa ba c items w = (Inr (view, pay), w')"
    using assms(2) by (auto simp: checkoutCart_def items_def outcome)
  from place obtain ls r s1 where ls: "checkoutLines (sh_db w) items = Inr ls"
    and run: "createOrder env faults (os_id store) (shopperCtx c) (checkoutOrder store cust ls sa ba) noHook (sh_db w) = (Inr r, s1)"
    and same: "orders (sh_db w') = orders s1" "orderItems (sh_db w') = orderItems s1" "inventory (sh_db w') = inventory s1"
    and carts: "sh_carts w' = deleteMany (ownCart store cust) (sh_carts w)"
    and view: "getOwnOrder store cust (or_id r) w' = (Inr view, w')" by (rule placeCart_Inr)
  have lines: "list_all2 (lineOf (sh_db w)) items ls" by (rule checkoutLines_Inr [OF ls])
  note order = createOrder_cart [OF run lines assms(4,5)]
  have ready: "list_all (itemReady (sh_db w)) items"
    using lines line_ready [OF _ assms(6)] by (auto simp only: list_all_length list_all2_conv_all_nth)
  then have "filter (itemReady (sh_db w)) items = items" by (simp add: list_all_iff)
  then have cart: "kv_readyForCheckout cart" "cents (kv_subtotal cart) = sum_list (map (itemCents (sh_db w)) items)"
    using getCart_Inr [OF assms(3)] ready ne by (simp_all add: items_def)
  obtain rows where rows: "orderItems s1 = orderItems (sh_db w) @ rows"
    "map (\<lambda>i. (oi_variantId i, oi_quantity i)) rows = map (\<lambda>i. (ct_variantId i, ct_quantity i)) items" using order(2) by blast
  have "onHand (sh_db w') = onHand s1" by (simp add: onHand_def same fun_eq_iff)
  moreover have "view = toCustomerOrder (sh_db w') r"
    using view order(1) same(1) by (auto simp: getOwnOrder_def findOwnOrder_def outcome find_append find_None_iff split: option.splits dest: find_SomeD)
  ultimately show ?thesis
    using cart order rows lines carts same by (auto simp: deleteMany_def)
qed

definition shopWorld :: "int \<Rightarrow> shop_db" where
  "shopWorld q = \<lparr>sh_db = demoDb\<lparr>variants := [demoVariant ''v'' 150]\<rparr>,
     sh_carts = [\<lparr>ct_tenantId = ''t'', ct_customerId = ''c'', ct_variantId = ''v'', ct_quantity = q, ct_createdAt = 0\<rparr>]\<rparr>"

lemma checkout_buys_the_cart_witness:
  "\<exists>view pay w'. checkoutCart demoEnv (\<lambda>_. None) demoRemote mockProvider demoStore ''c'' None None noClient (shopWorld 2) = (Inr (view, pay), w')
     \<and> sh_carts w' = [] \<and> length (orders (sh_db w')) = 1"
proof -
  let ?run = "checkoutCart demoEnv (\<lambda>_. None) demoRemote mockProvider demoStore ''c'' None None noClient (shopWorld 2)"
  have "succeeded ?run" by code_simp
  then obtain r w' where "?run = (Inr r, w')" by (rule succeededE)
  then obtain view pay where run: "?run = (Inr (view, pay), w')" by (cases r) auto
  have "succeeded (getCart demoStore ''c'' (shopWorld 2))" by code_simp
  then obtain cart w2 where "getCart demoStore ''c'' (shopWorld 2) = (Inr cart, w2)" by (rule succeededE)
  then have cart: "getCart demoStore ''c'' (shopWorld 2) = (Inr cart, shopWorld 2)" using getCart_Inr by fastforce
  have known: "distinct (map va_id (variants (sh_db (shopWorld 2))))" "[] \<notin> ct_variantId ` set (sh_carts (shopWorld 2))"
    "list_all (\<lambda>i. 0 \<le> iv_quantity i) (inventory (sh_db (shopWorld 2)))" by code_simp+
  have items: "sh_carts (shopWorld 2) = filter (ownCart demoStore ''c'') (sh_carts (shopWorld 2))" by code_simp
  have "filter (\<lambda>i. \<not> ownCart demoStore ''c'' i) (sh_carts (shopWorld 2)) = []" "orders (sh_db (shopWorld 2)) = []" by code_simp+
  then show ?thesis using checkout_buys_the_cart [OF items run cart known] run by auto
qed

lemma checkoutLines_refuses:
  assumes "list_all (itemReady s) items" and "item \<in> set items" "pickWarehouse (ct_variantId item) (ct_quantity item) s = None"
  shows "checkoutLines s items = Inl cartNotReady"
  using assms
proof (induction items)
  case (Cons x items)
  obtain v where v: "cartVariant x s = Some v" using Cons.prems(1) by (auto simp: itemReady_def split: option.splits)
  show ?case using Cons v cartVariant_SomeD [OF v] by (auto simp: nonEmpty_def split: option.splits if_splits)
qed simp

text \<open>C37: a cart that is shown as ready can be refused at the checkout. The cart adds up the stock of every warehouse, but the
  checkout takes a line from one active warehouse: when no active warehouse alone covers some line, the checkout fails and changes nothing,
  as long as the cart still says it is ready.\<close>

theorem ready_cart_can_be_refused:
  assumes "getCart store cust w = (Inr cart, w)" and "kv_readyForCheckout cart"
    and "item \<in> set (sh_carts w)" "ownCart store cust item"
    and "pickWarehouse (ct_variantId item) (ct_quantity item) (sh_db w) = None"
  shows "checkoutCart env faults rm pv store cust sa ba c w = (Inl cartNotReady, w)"
proof -
  let ?items = "filter (ownCart store cust) (sh_carts w)"
  have "list_all (itemReady (sh_db w)) ?items" "?items \<noteq> []" using getCart_Inr [OF assms(1)] assms(2) by simp_all
  then have "checkoutLines (sh_db w) ?items = Inl cartNotReady" "?items \<noteq> []"
    using checkoutLines_refuses [OF _ _ assms(5)] assms(3,4) by auto
  then show ?thesis by (simp add: checkoutCart_def placeCart_def monad_defs)
qed

lemma ready_cart_can_be_refused_witness:
  "(\<exists>cart. getCart demoStore ''c'' (shopWorld 22) = (Inr cart, shopWorld 22) \<and> kv_readyForCheckout cart)
   \<and> checkoutCart demoEnv (\<lambda>_. None) demoRemote mockProvider demoStore ''c'' None None noClient (shopWorld 22) = (Inl cartNotReady, shopWorld 22)"
proof -
  have "succeeded (getCart demoStore ''c'' (shopWorld 22))" by code_simp
  then obtain cart w2 where c: "getCart demoStore ''c'' (shopWorld 22) = (Inr cart, w2)" by (rule succeededE)
  then have cart: "getCart demoStore ''c'' (shopWorld 22) = (Inr cart, shopWorld 22)" using getCart_Inr by fastforce
  have "list_all (itemReady (sh_db (shopWorld 22))) (sh_carts (shopWorld 22))
     \<and> filter (ownCart demoStore ''c'') (sh_carts (shopWorld 22)) = sh_carts (shopWorld 22) \<and> sh_carts (shopWorld 22) \<noteq> []" by code_simp
  then have ready: "kv_readyForCheckout cart" using getCart_Inr [OF cart] by simp
  have none: "list_all (\<lambda>i. pickWarehouse (ct_variantId i) (ct_quantity i) (sh_db (shopWorld 22)) = None \<and> ownCart demoStore ''c'' i)
     (sh_carts (shopWorld 22))" by code_simp
  have "hd (sh_carts (shopWorld 22)) \<in> set (sh_carts (shopWorld 22))" by (simp add: shopWorld_def)
  with none show ?thesis
    using ready_cart_can_be_refused [OF cart ready, of "hd (sh_carts (shopWorld 22))"] cart ready by (auto simp: list_all_iff)
qed

end
