(* ===== verification/Storage.thy ===== *)
theory Storage
  imports Gateway "HOL-Library.Word"
begin

text \<open>
  Files: the storage service (src/src/common/storage/storage.service.js) over the provider that keeps them on
  disk (src/src/common/storage/local-storage.provider.js), and the two endpoints that hand them out
  (src/src/modules/storage/storage.controller.js). The disk is a list of files by absolute path; a directory is
  there when a file is below it. HMAC-SHA256 is the parameter \<open>sc_hmac\<close>; metrics are left out.
\<close>

type_synonym bytes = "8 word list"
type_synonym disk = "(string \<times> bytes) list"

record storage_conf =
  sc_cwd :: string
  sc_basePath :: string
  sc_baseUrl :: string
  sc_signingSecret :: "string option"
  sc_jwtSecret :: "string option"
  sc_production :: bool
  sc_hmac :: "string \<Rightarrow> string \<Rightarrow> string"

section \<open>File names\<close>

definition ALLOWED_MIME_TYPES :: "string list" where
  "ALLOWED_MIME_TYPES = [''image/jpeg'', ''image/png'', ''image/webp'', ''image/gif'']"

definition ALLOWED_EXTENSIONS :: "string list" where
  "ALLOWED_EXTENSIONS = [''.jpg'', ''.jpeg'', ''.png'', ''.webp'', ''.gif'']"

definition MAX_FILE_SIZE :: nat where
  "MAX_FILE_SIZE = 10 * 1024 * 1024"

text \<open>\<open>s.lastIndexOf('.')\<close>.\<close>

definition lastDot :: "string \<Rightarrow> nat option" where
  "lastDot s = (if CHR ''.'' \<in> set s then Some (length s - 1 - length (takeWhile (\<lambda>c. c \<noteq> CHR ''.'') (rev s))) else None)"

definition nameChar :: "char \<Rightarrow> bool" where
  "nameChar c \<longleftrightarrow> is_alnum_char c \<or> c = CHR ''_'' \<or> c = CHR ''-''"

text \<open>\<open>.replace(/_{2,}/g, '_')\<close> and \<open>.replace(/\.{2,}/g, '_')\<close>.\<close>

fun squeeze :: "string \<Rightarrow> string" where
  "squeeze (c # d # s) = (if c = CHR ''_'' \<and> d = CHR ''_'' then squeeze (d # s) else c # squeeze (d # s))"
| "squeeze s = s"

fun dotRuns :: "nat \<Rightarrow> string \<Rightarrow> string" where
  "dotRuns n [] = (if n = 0 then [] else if n = 1 then ''.'' else ''_'')"
| "dotRuns n (c # s) =
     (if c = CHR ''.'' then dotRuns (Suc n) s
      else (if n = 0 then [] else if n = 1 then ''.'' else ''_'') @ c # dotRuns 0 s)"

definition sanitizeFilename :: "string option \<Rightarrow> string" where
  "sanitizeFilename filename = (case nonEmpty filename of
      None \<Rightarrow> ''file.jpg''
    | Some name \<Rightarrow>
        let basename = last (splitOn (CHR 0x5C) (last (splitOn (CHR ''/'') name)));
            (base, ext) = (case lastDot basename of
                None \<Rightarrow> (basename, [])
              | Some i \<Rightarrow> (if 0 < i then (take i basename, map lower_char (drop i basename)) else (drop 1 basename, [])));
            cleaned = take 100 (dropWhile (\<lambda>c. c = CHR ''_'') (dropWhile (\<lambda>c. c = CHR ''.'')
              (squeeze (map (\<lambda>c. if nameChar c then c else CHR ''_'') base))));
            sanitizedBase = (if cleaned = [] then ''file'' else cleaned);
            safeExt = (if ext \<in> set ALLOWED_EXTENSIONS then ext else ''.jpg'');
            final = take 255 (dotRuns 0 (sanitizedBase @ safeExt))
        in if strIncludes final ''..'' then ''file.jpg'' else final)"

text \<open>\<open>unique\<close> is \<open>crypto.randomUUID().slice(0, 8)\<close>.\<close>

definition generateProductImageKey :: "string \<Rightarrow> string \<Rightarrow> string \<Rightarrow> string option \<Rightarrow> string" where
  "generateProductImageKey unique tenantId productId filename =
     ''tenants/'' @ tenantId @ ''/products/'' @ productId @ ''/'' @ unique @ ''_'' @ sanitizeFilename filename"

definition generateVariantImageKey :: "string \<Rightarrow> string \<Rightarrow> string \<Rightarrow> string \<Rightarrow> string option \<Rightarrow> string" where
  "generateVariantImageKey unique tenantId productId variantId filename =
     ''tenants/'' @ tenantId @ ''/products/'' @ productId @ ''/variants/'' @ variantId @ ''/'' @ unique @ ''_'' @ sanitizeFilename filename"

section \<open>Keys and paths\<close>

abbreviation invalidKey :: error where
  "invalidKey \<equiv> AppError 400 ''INVALID_STORAGE_KEY''"

abbreviation invalidPath :: error where
  "invalidPath \<equiv> AppError 400 ''INVALID_STORAGE_PATH''"

text \<open>\<open>/^[a-f0-9-]{36}$/i\<close>.\<close>

definition uuidLike :: "string \<Rightarrow> bool" where
  "uuidLike s \<longleftrightarrow> length s = 36
     \<and> list_all (\<lambda>c. is_digit c \<or> lower_char c \<in> set ''abcdef'' \<or> c = CHR ''-'') s"

definition assertTenantScopedKey :: "string option \<Rightarrow> error + string" where
  "assertTenantScopedKey storageKey = (case nonEmpty storageKey of
      None \<Rightarrow> Inl invalidKey
    | Some k \<Rightarrow>
        if strIncludes k ''..'' \<or> startsWith k ''/'' \<or> CHR 0x5C \<in> set k \<or> CHR 0x00 \<in> set k
           \<or> CHR '':'' \<in> set k \<or> strIncludes k ''//'' then Inl invalidPath
        else if \<not> startsWith k ''tenants/'' then Inl invalidKey
        else let segments = splitOn (CHR ''/'') k in
          if (length segments < 3 \<or> \<not> uuidLike (segments ! 1)) \<and> length (segments ! 1) < 3 then Inl invalidKey
          else Inr k)"

text \<open>\<open>path.resolve\<close> of Node on POSIX.\<close>

fun normSegs :: "string list \<Rightarrow> string list \<Rightarrow> string list" where
  "normSegs acc [] = rev acc"
| "normSegs acc (s # ss) =
     (if s = [] \<or> s = ''.'' then normSegs acc ss
      else if s = ''..'' then normSegs (tl acc) ss
      else normSegs (s # acc) ss)"

definition pathOf :: "string list \<Rightarrow> string" where
  "pathOf segs = (if segs = [] then ''/'' else concat (map (\<lambda>s. CHR ''/'' # s) segs))"

definition resolveSegs :: "string \<Rightarrow> string list \<Rightarrow> string list" where
  "resolveSegs cwd parts = normSegs [] (splitOn (CHR ''/'')
     (foldl (\<lambda>acc p. if p = [] then acc else if startsWith p ''/'' then p else acc @ ''/'' @ p) cwd parts))"

definition resolvePath :: "string \<Rightarrow> string list \<Rightarrow> string" where
  "resolvePath cwd parts = pathOf (resolveSegs cwd parts)"

definition getFullPath :: "storage_conf \<Rightarrow> string \<Rightarrow> error + string" where
  "getFullPath conf storageKey =
     (let normalizedKey = dropWhile (\<lambda>c. c = CHR ''/'') storageKey;
          fullPath = resolvePath (sc_cwd conf) [sc_basePath conf, normalizedKey];
          resolvedBase = resolvePath (sc_cwd conf) [sc_basePath conf]
      in if \<not> startsWith fullPath resolvedBase then Inl invalidPath else Inr fullPath)"

section \<open>The disk\<close>

definition isFile :: "disk \<Rightarrow> string \<Rightarrow> bool" where
  "isFile d p \<longleftrightarrow> list_ex (\<lambda>f. fst f = p) d"

definition isDirectory :: "disk \<Rightarrow> string \<Rightarrow> bool" where
  "isDirectory d p \<longleftrightarrow> list_ex (\<lambda>f. startsWith (fst f) (p @ ''/'')) d"

definition belowFile :: "disk \<Rightarrow> string \<Rightarrow> bool" where
  "belowFile d p \<longleftrightarrow> list_ex (\<lambda>f. startsWith p (fst f @ ''/'')) d"

definition writeFile :: "string \<Rightarrow> bytes \<Rightarrow> disk \<Rightarrow> disk" where
  "writeFile p b d = (p, b) # deleteMany (\<lambda>f. fst f = p) d"

definition removeFile :: "string \<Rightarrow> disk \<Rightarrow> disk" where
  "removeFile p d = deleteMany (\<lambda>f. fst f = p) d"

text \<open>Opening a directory for reading works; the stream fails when it is read.\<close>

datatype stream = Content bytes | BrokenStream

definition openStream :: "disk \<Rightarrow> string \<Rightarrow> stream" where
  "openStream d p = (case map_of d p of Some b \<Rightarrow> Content b | None \<Rightarrow> BrokenStream)"

section \<open>The provider on disk\<close>

record uploaded =
  up_url :: string
  up_size :: nat
  up_mimeType :: string

definition localUpload :: "storage_conf \<Rightarrow> string \<Rightarrow> bytes \<Rightarrow> string \<Rightarrow> (disk, uploaded) io" where
  "localUpload conf storageKey buffer mimeType =
     bindH (liftH (getFullPath conf storageKey)) (\<lambda>fullPath.
     bindH (readH (\<lambda>d. belowFile d fullPath)) (\<lambda>notDir.
     thenH (throwIfH notDir (JsError ''ENOTDIR''))
    (bindH (readH (\<lambda>d. isDirectory d fullPath)) (\<lambda>dir.
     thenH (throwIfH dir (JsError ''EISDIR''))
    (thenH (writeH (writeFile fullPath buffer))
       (returnH \<lparr>up_url = sc_baseUrl conf @ ''/'' @ storageKey, up_size = length buffer, up_mimeType = mimeType\<rparr>))))))"

text \<open>Directories that became empty are removed with their last file.\<close>

definition localDelete :: "storage_conf \<Rightarrow> string \<Rightarrow> (disk, bool) io" where
  "localDelete conf storageKey =
     bindH (liftH (getFullPath conf storageKey)) (\<lambda>fullPath.
     bindH (readH (\<lambda>d. isFile d fullPath)) (\<lambda>there.
     if there then thenH (writeH (removeFile fullPath)) (returnH True)
     else bindH (readH (\<lambda>d. isDirectory d fullPath \<or> belowFile d fullPath)) (\<lambda>wrong.
       thenH (throwIfH wrong (JsError ''EISDIR'')) (returnH False))))"

definition accessible :: "disk \<Rightarrow> string \<Rightarrow> bool" where
  "accessible d p \<longleftrightarrow> isFile d p \<or> isDirectory d p"

definition localGetUrl :: "storage_conf \<Rightarrow> string \<Rightarrow> (disk, string option) io" where
  "localGetUrl conf storageKey =
     bindH (liftH (getFullPath conf storageKey)) (\<lambda>p.
     readH (\<lambda>d. if accessible d p then Some (sc_baseUrl conf @ ''/'' @ storageKey) else None))"

definition localGetStream :: "storage_conf \<Rightarrow> string \<Rightarrow> (disk, stream option) io" where
  "localGetStream conf storageKey =
     bindH (liftH (getFullPath conf storageKey)) (\<lambda>p.
     readH (\<lambda>d. if accessible d p then Some (openStream d p) else None))"

definition localExists :: "storage_conf \<Rightarrow> string \<Rightarrow> (disk, bool) io" where
  "localExists conf storageKey =
     bindH (liftH (getFullPath conf storageKey)) (\<lambda>p. readH (\<lambda>d. accessible d p))"

section \<open>Signed addresses\<close>

definition storageSigningSecret :: "storage_conf \<Rightarrow> string" where
  "storageSigningSecret conf = (case nonEmpty (sc_signingSecret conf) of
      Some k \<Rightarrow> k
    | None \<Rightarrow> sc_hmac conf (case nonEmpty (sc_jwtSecret conf) of Some b \<Rightarrow> b
          | None \<Rightarrow> ''test-storage-secret-min-32-chars-long-for-testing'') ''pulseops:storage-signing'')"

definition signatureOf :: "storage_conf \<Rightarrow> string \<Rightarrow> string \<Rightarrow> string" where
  "signatureOf conf storageKey expires = sc_hmac conf (storageSigningSecret conf) (storageKey @ '':'' @ expires)"

definition uriHex :: "nat \<Rightarrow> char" where
  "uriHex n = ''0123456789ABCDEF'' ! n"

definition encodeURIComponent :: "string \<Rightarrow> string" where
  "encodeURIComponent s = concat (map (\<lambda>c. let n = of_char c :: nat in
     if is_alnum_char c \<or> c \<in> set ''-_.!~*'' \<or> c = CHR 0x27 \<or> c = CHR ''('' \<or> c = CHR '')'' then [c]
     else [CHR ''%'', uriHex (n div 16), uriHex (n mod 16)]) s)"

definition expiryAt :: "int \<Rightarrow> int \<Rightarrow> int" where
  "expiryAt now expiresInSec = now div 1000 + expiresInSec"

definition localSignedUrl :: "storage_conf \<Rightarrow> int \<Rightarrow> string \<Rightarrow> int \<Rightarrow> (disk, string) io" where
  "localSignedUrl conf now storageKey expiresInSec =
     bindH (liftH (getFullPath conf storageKey)) (\<lambda>_.
     let expires = show_int (expiryAt now expiresInSec) in
     returnH (''/api/v1/storage/signed?key='' @ encodeURIComponent storageKey @ ''&expires='' @ expires
       @ ''&signature='' @ signatureOf conf storageKey expires))"

text \<open>\<open>Number(text)\<close> of a decimal number; any other text is not a number here and compares false.\<close>

definition numberOf :: "string \<Rightarrow> rat option" where
  "numberOf x = (let t = trim x;
       (sign, u) = (if startsWith t ''-'' then (-1, drop 1 t) else if startsWith t ''+'' then (1, drop 1 t) else (1, t));
       whole = takeWhile is_digit u; rest = dropWhile is_digit u;
       frac = drop 1 rest
     in if t = [] then Some 0
        else if rest = [] \<and> whole \<noteq> [] then Some (sign * of_nat (digits_val whole))
        else if startsWith rest ''.'' \<and> list_all is_digit frac \<and> (whole \<noteq> [] \<or> frac \<noteq> [])
          then Some (sign * of_nat (digits_val (whole @ frac)) / 10 ^ length frac)
        else None)"

definition verifySignedUrl :: "storage_conf \<Rightarrow> int \<Rightarrow> string \<Rightarrow> string option \<Rightarrow> string option \<Rightarrow> bool" where
  "verifySignedUrl conf now storageKey expires signature = (case (nonEmpty expires, nonEmpty signature) of
      (Some e, Some sig) \<Rightarrow>
        (case numberOf e of Some n \<Rightarrow> \<not> n < of_int (now div 1000) | None \<Rightarrow> True)
        \<and> hexBytes (signatureOf conf storageKey e) = hexBytes sig
    | _ \<Rightarrow> False)"

section \<open>The service\<close>

definition checkedKey :: "string \<Rightarrow> (disk, string) io" where
  "checkedKey storageKey = liftH (assertTenantScopedKey (Some storageKey))"

record upload_file =
  uf_originalname :: "string option"
  uf_mimetype :: string
  uf_size :: nat
  uf_buffer :: bytes

definition uploadProductImage :: "storage_conf \<Rightarrow> string \<Rightarrow> string \<Rightarrow> string \<Rightarrow> upload_file \<Rightarrow> (disk, string \<times> uploaded) io" where
  "uploadProductImage conf unique tenantId productId file =
     (let storageKey = generateProductImageKey unique tenantId productId (uf_originalname file) in
      bindH (localUpload conf storageKey (uf_buffer file) (uf_mimetype file)) (\<lambda>r. returnH (storageKey, r)))"

definition uploadVariantImage ::
  "storage_conf \<Rightarrow> string \<Rightarrow> string \<Rightarrow> string \<Rightarrow> string \<Rightarrow> upload_file \<Rightarrow> (disk, string \<times> uploaded) io" where
  "uploadVariantImage conf unique tenantId productId variantId file =
     (let storageKey = generateVariantImageKey unique tenantId productId variantId (uf_originalname file) in
      bindH (localUpload conf storageKey (uf_buffer file) (uf_mimetype file)) (\<lambda>r. returnH (storageKey, r)))"

definition storageUpload :: "storage_conf \<Rightarrow> string \<Rightarrow> bytes \<Rightarrow> string \<Rightarrow> (disk, uploaded) io" where
  "storageUpload conf storageKey buffer mimeType =
     thenH (checkedKey storageKey) (localUpload conf storageKey buffer mimeType)"

definition deleteFile :: "storage_conf \<Rightarrow> string \<Rightarrow> (disk, bool) io" where
  "deleteFile conf storageKey = thenH (checkedKey storageKey) (localDelete conf storageKey)"

definition getFileUrl :: "storage_conf \<Rightarrow> string \<Rightarrow> (disk, string option) io" where
  "getFileUrl conf storageKey = thenH (checkedKey storageKey) (localGetUrl conf storageKey)"

definition getFileStream :: "storage_conf \<Rightarrow> string \<Rightarrow> (disk, stream option) io" where
  "getFileStream conf storageKey = thenH (checkedKey storageKey) (localGetStream conf storageKey)"

definition fileExists :: "storage_conf \<Rightarrow> string \<Rightarrow> (disk, bool) io" where
  "fileExists conf storageKey = thenH (checkedKey storageKey) (localExists conf storageKey)"

definition getSignedUrl :: "storage_conf \<Rightarrow> int \<Rightarrow> string \<Rightarrow> int \<Rightarrow> (disk, string) io" where
  "getSignedUrl conf now storageKey expiresInSec =
     thenH (checkedKey storageKey) (localSignedUrl conf now storageKey expiresInSec)"

section \<open>Image files\<close>

text \<open>\<open>header[i]\<close> of the first twelve bytes, undefined past the end.\<close>

definition byteAt :: "bytes \<Rightarrow> nat \<Rightarrow> 8 word option" where
  "byteAt b i = (if i < min 12 (length b) then Some (b ! i) else None)"

definition bytesAt :: "bytes \<Rightarrow> nat \<Rightarrow> 8 word list \<Rightarrow> bool" where
  "bytesAt b i expected \<longleftrightarrow> list_all (\<lambda>(k, x). byteAt b (i + k) = Some x) (zip [0..<length expected] expected)"

definition validateImageMagicBytes :: "bytes \<Rightarrow> string \<Rightarrow> bool" where
  "validateImageMagicBytes buffer mimetype =
     (if length buffer < 4 then False
      else if mimetype = ''image/jpeg'' then bytesAt buffer 0 [0xFF, 0xD8, 0xFF]
      else if mimetype = ''image/png'' then bytesAt buffer 0 [0x89, 0x50, 0x4E, 0x47]
      else if mimetype = ''image/gif'' then bytesAt buffer 0 [0x47, 0x49, 0x46, 0x38]
      else if mimetype = ''image/webp'' then bytesAt buffer 0 [0x52, 0x49, 0x46, 0x46] \<and> bytesAt buffer 8 [0x57, 0x45, 0x42, 0x50]
      else False)"

definition executable :: "bytes \<Rightarrow> bool" where
  "executable b \<longleftrightarrow> bytesAt b 0 [0x4D, 0x5A] \<or> bytesAt b 0 [0x50, 0x4B] \<or> bytesAt b 0 [0x7F, 0x45, 0x4C, 0x46]"

definition validateImageFile :: "storage_conf \<Rightarrow> upload_file \<Rightarrow> error + bool" where
  "validateImageFile conf file =
     (if uf_mimetype file \<notin> set ALLOWED_MIME_TYPES then Inl (AppError 400 ''INVALID_FILE_TYPE'')
      else if MAX_FILE_SIZE < uf_size file \<or> MAX_FILE_SIZE < length (uf_buffer file) then Inl (AppError 400 ''FILE_TOO_LARGE'')
      else if 4 \<le> length (uf_buffer file) \<and> sc_production conf then
        (if \<not> validateImageMagicBytes (uf_buffer file) (uf_mimetype file) \<and> 12 \<le> length (uf_buffer file)
         then Inl (AppError 400 ''INVALID_FILE_CONTENT'') else Inr True)
      else if 12 \<le> length (uf_buffer file) \<and> \<not> sc_production conf \<and> executable (uf_buffer file)
        then Inl (AppError 400 ''INVALID_FILE_CONTENT'')
      else Inr True)"

section \<open>Handing files out\<close>

definition CONTENT_TYPES :: "(string \<times> string) list" where
  "CONTENT_TYPES = [(''.csv'', ''text/csv; charset=utf-8''), (''.jpg'', ''image/jpeg''), (''.jpeg'', ''image/jpeg''),
     (''.png'', ''image/png''), (''.gif'', ''image/gif''), (''.webp'', ''image/webp'')]"

text \<open>\<open>key.slice(key.lastIndexOf('.'))\<close>; without a dot this is the last character.\<close>

definition extensionOf :: "string \<Rightarrow> string" where
  "extensionOf k = map lower_char (case lastDot k of Some i \<Rightarrow> drop i k | None \<Rightarrow> drop (length k - 1) k)"

record file_answer =
  fa_contentType :: string
  fa_disposition :: "string option"
  fa_stream :: stream

definition fileAnswer :: "string \<Rightarrow> stream \<Rightarrow> file_answer" where
  "fileAnswer storageKey st = (let ext = extensionOf storageKey in
     \<lparr>fa_contentType = (case map_of CONTENT_TYPES ext of Some t \<Rightarrow> t | None \<Rightarrow> ''application/octet-stream''),
      fa_disposition = (if ext = ''.csv'' then Some (''attachment; filename=\"'' @ last (splitOn (CHR ''/'') storageKey) @ ''\"'') else None),
      fa_stream = st\<rparr>)"

definition getSignedFile ::
  "storage_conf \<Rightarrow> int \<Rightarrow> string option \<Rightarrow> string option \<Rightarrow> string option \<Rightarrow> (disk, file_answer) io" where
  "getSignedFile conf now key expires signature =
     (case (nonEmpty key, nonEmpty expires, nonEmpty signature) of
        (Some storageKey, Some e, Some sig) \<Rightarrow>
          thenH (throwIfH (\<not> verifySignedUrl conf now storageKey (Some e) (Some sig)) (AppError 403 ''INVALID_SIGNED_URL''))
         (thenH (checkedKey storageKey)
         (bindH (getFileStream conf storageKey) (\<lambda>found.
          bindH (orThrowH found (AppError 404 ''FILE_NOT_FOUND'')) (\<lambda>st.
          returnH (fileAnswer storageKey st)))))
      | _ \<Rightarrow> throwH (AppError 400 ''INVALID_SIGNED_URL''))"

definition getAuthenticatedFile ::
  "storage_conf \<Rightarrow> string option \<Rightarrow> string option \<Rightarrow> (disk, file_answer) io" where
  "getAuthenticatedFile conf tenantId key =
     (case nonEmpty key of
        None \<Rightarrow> throwH invalidKey
      | Some storageKey \<Rightarrow>
          thenH (checkedKey storageKey)
         (thenH (throwIfH (Some (splitOn (CHR ''/'') storageKey ! 1) \<noteq> tenantId) (AppError 403 ''FORBIDDEN''))
         (bindH (getFileStream conf storageKey) (\<lambda>found.
          bindH (orThrowH found (AppError 404 ''FILE_NOT_FOUND'')) (\<lambda>st.
          returnH (fileAnswer storageKey st))))))"

section \<open>Strings and paths\<close>

lemma startsWith_iff: "startsWith s t \<longleftrightarrow> (\<exists>r. s = t @ r)"
  by (induction s t rule: startsWith.induct) auto

lemma strIncludes_iff: "strIncludes s t \<longleftrightarrow> (\<exists>a b. s = a @ t @ b)"
proof (induction s)
  case (Cons c s)
  have "(\<exists>a b. c # s = a @ t @ b) \<longleftrightarrow> (\<exists>r. c # s = t @ r) \<or> (\<exists>a b. s = a @ t @ b)"
    by (metis append_Cons append_Nil list.exhaust list.inject)
  then show ?case using Cons by (simp add: startsWith_iff)
qed simp

lemma splitOn_ne [simp]: "splitOn d s \<noteq> []"
  by (induction s) (auto split: list.splits)

lemma splitOn_append: "splitOn d (x @ d # y) = splitOn d x @ splitOn d y"
proof (induction x)
  case (Cons c x)
  have "splitOn d x \<noteq> []" by simp
  then show ?case using Cons by (auto split: list.splits)
qed simp

lemma splitOn_piece: "s \<in> set (splitOn d k) \<Longrightarrow> d \<notin> set s \<and> (\<exists>a b. k = a @ s @ b)"
proof (induction k arbitrary: s)
  case (Cons c k)
  obtain w ws where w: "splitOn d k = w # ws" by (meson neq_Nil_conv splitOn_ne)
  show ?case
  proof (cases "c = d")
    case True
    then show ?thesis using Cons by simp (metis append_Cons append_Nil empty_iff empty_set)
  next
    case False
    then have "s = c # w \<or> s \<in> set ws" using Cons.prems w by simp
    then show ?thesis
    proof
      assume s: "s = c # w"
      have "\<exists>b. k = w @ b" using w
      proof (induction k arbitrary: w ws)
        case (Cons e k)
        then show ?case by (cases "splitOn d k") (auto split: if_splits)
      qed simp
      then show ?thesis using s False Cons.IH [of w] w by auto
    next
      assume "s \<in> set ws"
      then show ?thesis using Cons.IH [of s] w by (metis append_Cons list.set_intros(2))
    qed
  qed
qed simp

lemma normSegs_append: "normSegs acc (xs @ ys) = normSegs (rev (normSegs acc xs)) ys"
  by (induction acc xs rule: normSegs.induct) auto

lemma normSegs_down: "''..'' \<notin> set ys \<Longrightarrow> normSegs acc ys = rev acc @ filter (\<lambda>s. s \<noteq> [] \<and> s \<noteq> ''.'') ys"
  by (induction acc ys rule: normSegs.induct) auto

lemma pathOf_append: "pathOf (xs @ ys) = pathOf xs @ r \<or> xs = []" if "r = concat (map (\<lambda>s. CHR ''/'' # s) ys)"
  using that by (simp add: pathOf_def)

lemma startsWith_pathOf: "startsWith (pathOf (xs @ ys)) (pathOf xs)"
  by (cases ys) (auto simp: startsWith_iff pathOf_def)

definition baseSegs :: "storage_conf \<Rightarrow> string list" where
  "baseSegs conf = resolveSegs (sc_cwd conf) [sc_basePath conf]"

lemma assert_Inr:
  "assertTenantScopedKey k = Inr key \<longleftrightarrow> k = Some key \<and> key \<noteq> [] \<and> \<not> strIncludes key ''..'' \<and> \<not> startsWith key ''/''
     \<and> CHR 0x5C \<notin> set key \<and> CHR 0x00 \<notin> set key \<and> CHR '':'' \<notin> set key \<and> \<not> strIncludes key ''//'' \<and> startsWith key ''tenants/''
     \<and> \<not> ((length (splitOn (CHR ''/'') key) < 3 \<or> \<not> uuidLike (splitOn (CHR ''/'') key ! 1)) \<and> length (splitOn (CHR ''/'') key ! 1) < 3)"
  by (cases k) (auto simp: assertTenantScopedKey_def nonEmpty_def Let_def)

text \<open>A key the service accepts stays below the base directory.\<close>

lemma getFullPath_key:
  assumes "assertTenantScopedKey k = Inr key"
  shows "getFullPath conf key = Inr (pathOf (baseSegs conf @ filter (\<lambda>s. s \<noteq> [] \<and> s \<noteq> ''.'') (splitOn (CHR ''/'') key)))"
proof -
  have k: "key \<noteq> []" "\<not> strIncludes key ''..''" "\<not> startsWith key ''/''" using assms by (auto simp: assert_Inr)
  then have n: "dropWhile (\<lambda>c. c = CHR ''/'') key = key" by (cases key) auto
  have "''..'' \<notin> set (splitOn (CHR ''/'') key)" using splitOn_piece k(2) unfolding strIncludes_iff by blast
  then have "resolveSegs (sc_cwd conf) [sc_basePath conf, key]
      = baseSegs conf @ filter (\<lambda>s. s \<noteq> [] \<and> s \<noteq> ''.'') (splitOn (CHR ''/'') key)"
    using k by (simp add: resolveSegs_def baseSegs_def splitOn_append normSegs_append normSegs_down)
  then show ?thesis
    using startsWith_pathOf by (simp add: getFullPath_def n Let_def resolvePath_def flip: baseSegs_def)
qed

text \<open>The second segment of an accepted key names the tenant.\<close>

lemma key_segments:
  assumes "assertTenantScopedKey k = Inr key"
  shows "\<exists>rest. splitOn (CHR ''/'') key = ''tenants'' # splitOn (CHR ''/'') key ! 1 # rest
    \<and> splitOn (CHR ''/'') key ! 1 \<noteq> [] \<and> splitOn (CHR ''/'') key ! 1 \<noteq> ''.''"
proof -
  obtain r where r: "key = ''tenants'' @ CHR ''/'' # r" using assms by (auto simp: assert_Inr startsWith_iff)
  then have s: "splitOn (CHR ''/'') key = ''tenants'' # splitOn (CHR ''/'') r" by (simp add: splitOn_append)
  obtain w ws where w: "splitOn (CHR ''/'') r = w # ws" by (meson neq_Nil_conv splitOn_ne)
  have "\<not> length (splitOn (CHR ''/'') key ! 1) < 3"
    using assms by (auto simp: assert_Inr uuidLike_def)
  then show ?thesis using s w by (cases w) auto
qed

section \<open>Tenants keep apart\<close>

definition tenantRoot :: "storage_conf \<Rightarrow> string \<Rightarrow> string" where
  "tenantRoot conf t = pathOf (baseSegs conf @ [''tenants'', t])"

definition ownFile :: "storage_conf \<Rightarrow> string \<Rightarrow> string \<times> bytes \<Rightarrow> bool" where
  "ownFile conf t f \<longleftrightarrow> fst f = tenantRoot conf t \<or> startsWith (fst f) (tenantRoot conf t @ ''/'')"

definition inTenant :: "storage_conf \<Rightarrow> string \<Rightarrow> string \<Rightarrow> bool" where
  "inTenant conf t p \<longleftrightarrow> p = tenantRoot conf t \<or> startsWith p (tenantRoot conf t @ ''/'')"

lemma ownFile_in: "ownFile conf t f \<longleftrightarrow> inTenant conf t (fst f)"
  by (simp add: ownFile_def inTenant_def)

lemma key_path:
  assumes "assertTenantScopedKey k = Inr key"
  shows "\<exists>p. getFullPath conf key = Inr p \<and> inTenant conf (splitOn (CHR ''/'') key ! 1) p"
proof -
  obtain t rest where s: "splitOn (CHR ''/'') key = ''tenants'' # t # rest" and t: "t \<noteq> []" "t \<noteq> ''.''"
    using key_segments [OF assms] by metis
  let ?g = "filter (\<lambda>s. s \<noteq> [] \<and> s \<noteq> ''.'') rest"
  have p: "getFullPath conf key = Inr (pathOf (baseSegs conf @ ''tenants'' # t # ?g))"
    using getFullPath_key [OF assms] by (simp add: s t)
  have "inTenant conf t (pathOf (baseSegs conf @ ''tenants'' # t # ?g))"
    by (cases ?g) (auto simp: inTenant_def tenantRoot_def pathOf_def startsWith_iff)
  then show ?thesis by (simp add: p s)
qed

lemma tenant_word:
  assumes "d \<notin> set x" "d \<notin> set y" "x @ d # r = y @ d # q"
  shows "x = y"
proof -
  have w: "takeWhile (\<lambda>c. c \<noteq> d) (z @ d # s) = z" if "d \<notin> set z" for z s
    using that by (induction z) auto
  show ?thesis using arg_cong [OF assms(3), of "takeWhile (\<lambda>c. c \<noteq> d)"] w assms(1,2) by simp
qed

lemma inTenant_one:
  assumes "inTenant conf t p" "inTenant conf t' p" "CHR ''/'' \<notin> set t" "CHR ''/'' \<notin> set t'"
  shows "t = t'"
proof -
  let ?c = "concat (map (\<lambda>s. CHR ''/'' # s) (baseSegs conf @ [''tenants'']))"
  have root: "tenantRoot conf x = ?c @ CHR ''/'' # x" for x by (simp add: tenantRoot_def pathOf_def)
  have form: "\<exists>r. p @ ''/'' = (?c @ ''/'') @ x @ CHR ''/'' # r" if "inTenant conf x p" for x
    using that by (auto simp: inTenant_def root startsWith_iff)
  obtain r q where "(?c @ ''/'') @ t @ CHR ''/'' # r = (?c @ ''/'') @ t' @ CHR ''/'' # q"
    using form [OF assms(1)] form [OF assms(2)] by metis
  then have "t @ CHR ''/'' # r = t' @ CHR ''/'' # q" unfolding same_append_eq .
  then show ?thesis by (rule tenant_word [OF assms(3,4)])
qed

text \<open>What the disk holds at a tenant's path depends on the tenant's own files only.\<close>

lemma inTenant_below: "inTenant conf t p \<Longrightarrow> startsWith q (p @ ''/'') \<Longrightarrow> inTenant conf t q"
  by (auto simp: inTenant_def startsWith_iff)

lemma list_ex_filter: "(\<And>x. P x \<Longrightarrow> Q x) \<Longrightarrow> list_ex P (filter Q xs) = list_ex P xs"
  by (induction xs) auto

lemma map_of_filter: "(\<And>b. Q (p, b)) \<Longrightarrow> map_of (filter Q d) p = map_of d p"
  by (induction d) auto

lemma own_disk:
  assumes "inTenant conf t p" "filter (ownFile conf t) d = filter (ownFile conf t) d'"
  shows "accessible d p = accessible d' p" "openStream d p = openStream d' p" "isFile d p = isFile d' p"
proof -
  have f: "isFile x p = isFile (filter (ownFile conf t) x) p" "isDirectory x p = isDirectory (filter (ownFile conf t) x) p"
      "map_of x p = map_of (filter (ownFile conf t) x) p" for x
  proof -
    show "isFile x p = isFile (filter (ownFile conf t) x) p"
      unfolding isFile_def by (rule list_ex_filter [symmetric]) (use assms(1) in \<open>simp add: ownFile_in\<close>)
    show "isDirectory x p = isDirectory (filter (ownFile conf t) x) p"
      unfolding isDirectory_def by (rule list_ex_filter [symmetric]) (simp add: ownFile_in inTenant_below [OF assms(1)])
    show "map_of x p = map_of (filter (ownFile conf t) x) p"
      by (rule map_of_filter [symmetric]) (use assms(1) in \<open>simp add: ownFile_in\<close>)
  qed
  show "isFile d p = isFile d' p" "accessible d p = accessible d' p"
    using f(1,2) assms(2) unfolding accessible_def by metis+
  show "openStream d p = openStream d' p"
    using f(3) assms(2) unfolding openStream_def by metis
qed

section \<open>Generated keys\<close>

definition plainId :: "string \<Rightarrow> bool" where
  "plainId i \<longleftrightarrow> 3 \<le> length i \<and> list_all nameChar i"

lemma nameChar_facts:
  "nameChar c \<Longrightarrow> c \<noteq> CHR ''.'' \<and> c \<noteq> CHR ''/'' \<and> c \<noteq> CHR '':'' \<and> c \<noteq> CHR 0x5C \<and> c \<noteq> CHR 0x00"
  by (auto simp: nameChar_def is_alnum_char_def is_digit_def Let_def)

lemma plainId_facts: "plainId i \<Longrightarrow> c \<in> {CHR ''.'', CHR ''/'', CHR '':'', CHR 0x5C, CHR 0x00} \<Longrightarrow> c \<notin> set i"
  using nameChar_facts by (auto simp: plainId_def list_all_iff)

lemma plainId_ne: "plainId i \<Longrightarrow> i \<noteq> []"
  by (auto simp: plainId_def)

lemma dotRuns_plain: "CHR ''.'' \<notin> set b \<Longrightarrow> dotRuns 0 (b @ r) = b @ dotRuns 0 r"
  by (induction b) auto

lemma dotRuns_ext: "e \<in> set ALLOWED_EXTENSIONS \<Longrightarrow> dotRuns 0 e = e"
  by (auto simp: ALLOWED_EXTENSIONS_def)

lemma two_dots: "strIncludes s ''..'' \<Longrightarrow> 2 \<le> length (filter (\<lambda>c. c = CHR ''.'') s)"
  by (auto simp: strIncludes_iff)

lemma set_squeeze: "set (squeeze s) \<subseteq> set s"
  by (induction s rule: squeeze.induct) auto

lemma ext_form: "e \<in> set ALLOWED_EXTENSIONS \<Longrightarrow> \<exists>x. e = CHR ''.'' # x \<and> x \<noteq> [] \<and> length x \<le> 4 \<and> list_all nameChar x"
  by (auto simp: ALLOWED_EXTENSIONS_def nameChar_def is_alnum_char_def Let_def)

text \<open>A name is at most a hundred plain characters and one of the image extensions.\<close>

lemma sanitizeFilename_form:
  "\<exists>b e. sanitizeFilename filename = b @ e \<and> e \<in> set ALLOWED_EXTENSIONS \<and> b \<noteq> [] \<and> list_all nameChar b \<and> length b \<le> 100"
proof (cases "nonEmpty filename")
  case None
  have "sanitizeFilename filename = ''file'' @ ''.jpg''" by (simp add: sanitizeFilename_def None)
  moreover have "list_all nameChar ''file''" by (simp add: nameChar_def is_alnum_char_def Let_def)
  moreover have "''.jpg'' \<in> set ALLOWED_EXTENSIONS" by (simp add: ALLOWED_EXTENSIONS_def)
  ultimately show ?thesis by (intro exI [of _ "''file''"] exI [of _ "''.jpg''"]) simp
next
  case (Some name)
  define basename where "basename = last (splitOn (CHR 0x5C) (last (splitOn (CHR ''/'') name)))"
  define be where "be = (case lastDot basename of None \<Rightarrow> (basename, [])
    | Some i \<Rightarrow> (if 0 < i then (take i basename, map lower_char (drop i basename)) else (drop 1 basename, [])))"
  define cleaned where "cleaned = take 100 (dropWhile (\<lambda>c. c = CHR ''_'') (dropWhile (\<lambda>c. c = CHR ''.'')
              (squeeze (map (\<lambda>c. if nameChar c then c else CHR ''_'') (fst be)))))"
  define b where "b = (if cleaned = [] then ''file'' else cleaned)"
  define e where "e = (if snd be \<in> set ALLOWED_EXTENSIONS then snd be else ''.jpg'')"
  have us: "nameChar (CHR ''_'')" by (simp add: nameChar_def)
  have "set cleaned \<subseteq> set (map (\<lambda>c. if nameChar c then c else CHR ''_'') (fst be))"
    unfolding cleaned_def by (meson set_dropWhileD set_squeeze set_take_subset subset_iff)
  then have "list_all nameChar cleaned" using us by (auto simp: list_all_iff)
  then have b: "list_all nameChar b" "b \<noteq> []" "length b \<le> 100"
    by (auto simp: b_def nameChar_def is_alnum_char_def Let_def cleaned_def)
  have e: "e \<in> set ALLOWED_EXTENSIONS" by (simp add: e_def ALLOWED_EXTENSIONS_def)
  then obtain x where x: "e = CHR ''.'' # x" "length x \<le> 4" "list_all nameChar x" using ext_form by blast
  have plain: "CHR ''.'' \<notin> set b" "CHR ''.'' \<notin> set x" using b(1) x(3) nameChar_facts by (auto simp: list_all_iff)
  have "length (filter (\<lambda>c. c = CHR ''.'') (b @ e)) = 1"
    using plain by (auto simp: x(1) filter_empty_conv)
  then have "\<not> strIncludes (b @ e) ''..''" using two_dots [of "b @ e"] by linarith
  moreover have "dotRuns 0 (b @ e) = b @ e" by (simp only: dotRuns_plain [OF plain(1)] dotRuns_ext [OF e])
  then have "take 255 (dotRuns 0 (b @ e)) = b @ e" using b(3) x(1,2) by simp
  moreover have "sanitizeFilename filename = (if strIncludes (take 255 (dotRuns 0 (b @ e))) ''..'' then ''file.jpg''
      else take 255 (dotRuns 0 (b @ e)))"
    unfolding b_def e_def cleaned_def be_def basename_def
    by (simp only: sanitizeFilename_def Some option.case Let_def case_prod_beta)
  ultimately have "sanitizeFilename filename = b @ e" by simp
  then show ?thesis using b e by blast
qed

text \<open>The keys the service generates pass its own check and name the tenant.\<close>

lemma piece_ok:
  assumes "splitOn (CHR ''/'') k = ''tenants'' # t # ss" "list_all (\<lambda>s. s \<noteq> []) ss" "plainId t"
    and "length (filter (\<lambda>c. c = CHR ''.'') k) \<le> 1" "CHR 0x5C \<notin> set k" "CHR 0x00 \<notin> set k" "CHR '':'' \<notin> set k" "startsWith k ''tenants/''"
  shows "assertTenantScopedKey (Some k) = Inr k"
proof -
  have "k \<noteq> []" using assms(8) by auto
  moreover have "\<not> strIncludes k ''..''" using two_dots assms(4) by fastforce
  moreover have "\<not> startsWith k ''/''" using assms(8) by (cases k) auto
  moreover have "\<not> strIncludes k ''//''"
  proof
    assume "strIncludes k ''//''"
    then obtain a b where "k = a @ CHR ''/'' # CHR ''/'' # b" by (auto simp: strIncludes_iff)
    then have s: "splitOn (CHR ''/'') k = splitOn (CHR ''/'') a @ [] # splitOn (CHR ''/'') b" by (simp add: splitOn_append)
    have "a \<noteq> []" using \<open>k = _\<close> \<open>\<not> startsWith k ''/''\<close> by auto
    have "[] \<in> set (splitOn (CHR ''/'') k)" by (simp add: s)
    then show False using assms(1-3) by (auto simp: list_all_iff plainId_def)
  qed
  moreover have "splitOn (CHR ''/'') k ! 1 = t" "3 \<le> length t" using assms(1,3) by (simp_all add: plainId_def)
  ultimately show ?thesis using assms by (simp add: assert_Inr)
qed

lemma fileName_ok:
  assumes "list_all nameChar unique"
  shows "CHR ''/'' \<notin> set (unique @ ''_'' @ sanitizeFilename f)" "CHR 0x5C \<notin> set (unique @ ''_'' @ sanitizeFilename f)"
    "CHR 0x00 \<notin> set (unique @ ''_'' @ sanitizeFilename f)" "CHR '':'' \<notin> set (unique @ ''_'' @ sanitizeFilename f)"
    "length (filter (\<lambda>c. c = CHR ''.'') (unique @ ''_'' @ sanitizeFilename f)) \<le> 1"
proof -
  obtain b e where be: "sanitizeFilename f = b @ e" "e \<in> set ALLOWED_EXTENSIONS" "list_all nameChar b"
    using sanitizeFilename_form by blast
  then obtain x where x: "e = CHR ''.'' # x" "list_all nameChar x" using ext_form by blast
  have n: "c \<notin> set unique \<and> c \<notin> set b \<and> c \<notin> set x" if "c \<in> {CHR ''.'', CHR ''/'', CHR '':'', CHR 0x5C, CHR 0x00}" for c
    using that assms be(3) x(2) nameChar_facts by (auto simp: list_all_iff)
  show "CHR ''/'' \<notin> set (unique @ ''_'' @ sanitizeFilename f)" "CHR 0x5C \<notin> set (unique @ ''_'' @ sanitizeFilename f)"
    "CHR 0x00 \<notin> set (unique @ ''_'' @ sanitizeFilename f)" "CHR '':'' \<notin> set (unique @ ''_'' @ sanitizeFilename f)"
    using n [of "CHR ''/''"] n [of "CHR 0x5C"] n [of "CHR 0x00"] n [of "CHR '':''"] by (simp_all add: be(1) x(1))
  have "filter (\<lambda>c. c = CHR ''.'') unique = []" "filter (\<lambda>c. c = CHR ''.'') b = []" "filter (\<lambda>c. c = CHR ''.'') x = []"
    using n [of "CHR ''.''"] by (auto simp: filter_empty_conv)
  then show "length (filter (\<lambda>c. c = CHR ''.'') (unique @ ''_'' @ sanitizeFilename f)) \<le> 1" by (simp add: be(1) x(1))
qed

lemma no_dots: "plainId i \<Longrightarrow> filter (\<lambda>c. c = CHR ''.'') i = []"
  using plainId_facts by (auto simp: filter_empty_conv)

lemma generatedKey_ok:
  assumes "plainId t" "plainId p" "list_all nameChar unique"
  shows "assertTenantScopedKey (Some (generateProductImageKey unique t p f)) = Inr (generateProductImageKey unique t p f)"
    and "splitOn (CHR ''/'') (generateProductImageKey unique t p f) ! 1 = t"
    and "plainId v \<Longrightarrow> assertTenantScopedKey (Some (generateVariantImageKey unique t p v f)) = Inr (generateVariantImageKey unique t p v f)"
    and "plainId v \<Longrightarrow> splitOn (CHR ''/'') (generateVariantImageKey unique t p v f) ! 1 = t"
proof -
  let ?n = "unique @ ''_'' @ sanitizeFilename f"
  note n = fileName_ok [OF assms(3), of f]
  have w: "CHR ''/'' \<notin> set t" "CHR ''/'' \<notin> set p" using plainId_facts assms(1,2) by blast+
  have k: "generateProductImageKey unique t p f = ''tenants'' @ CHR ''/'' # t @ CHR ''/'' # ''products'' @ CHR ''/'' # p @ CHR ''/'' # ?n"
    by (simp add: generateProductImageKey_def)
  have s: "splitOn (CHR ''/'') (generateProductImageKey unique t p f) = [''tenants'', t, ''products'', p, ?n]"
    unfolding k using w n(1) by (simp only: splitOn_append splitOn_last) (simp add: splitOn_last)
  show "assertTenantScopedKey (Some (generateProductImageKey unique t p f)) = Inr (generateProductImageKey unique t p f)"
    by (rule piece_ok [OF s]) (use assms(1,2) plainId_ne plainId_facts n no_dots in \<open>simp_all add: k\<close>)
  show "splitOn (CHR ''/'') (generateProductImageKey unique t p f) ! 1 = t" by (simp add: s)
  assume v: "plainId v"
  have w': "CHR ''/'' \<notin> set v" using plainId_facts v by blast
  have k': "generateVariantImageKey unique t p v f
      = ''tenants'' @ CHR ''/'' # t @ CHR ''/'' # ''products'' @ CHR ''/'' # p @ CHR ''/'' # ''variants'' @ CHR ''/'' # v @ CHR ''/'' # ?n"
    by (simp add: generateVariantImageKey_def)
  have s': "splitOn (CHR ''/'') (generateVariantImageKey unique t p v f) = [''tenants'', t, ''products'', p, ''variants'', v, ?n]"
    unfolding k' using w w' n(1) by (simp only: splitOn_append splitOn_last) (simp add: splitOn_last)
  show "assertTenantScopedKey (Some (generateVariantImageKey unique t p v f)) = Inr (generateVariantImageKey unique t p v f)"
    by (rule piece_ok [OF s']) (use assms(1,2) v plainId_ne plainId_facts n no_dots in \<open>simp_all add: k'\<close>)
  show "splitOn (CHR ''/'') (generateVariantImageKey unique t p v f) ! 1 = t" by (simp add: s')
qed

section \<open>Whatever other tenants store\<close>

datatype storage_op =
    SO_ProductImage string string string upload_file
  | SO_VariantImage string string string string upload_file
  | SO_Upload string bytes string
  | SO_Delete string
  | SO_Read string

fun performStorage :: "storage_conf \<Rightarrow> storage_op \<Rightarrow> disk \<Rightarrow> disk" where
  "performStorage conf (SO_ProductImage unique t p file) d = snd (uploadProductImage conf unique t p file d)"
| "performStorage conf (SO_VariantImage unique t p v file) d = snd (uploadVariantImage conf unique t p v file d)"
| "performStorage conf (SO_Upload key b mimeType) d = snd (storageUpload conf key b mimeType d)"
| "performStorage conf (SO_Delete key) d = snd (deleteFile conf key d)"
| "performStorage conf (SO_Read key) d = snd (getFileStream conf key d)"

text \<open>An operation is another tenant's when its key is: a generated key carries the tenant it is generated for.\<close>

fun elsewhere :: "string \<Rightarrow> storage_op \<Rightarrow> bool" where
  "elsewhere t (SO_ProductImage unique t' p file) \<longleftrightarrow> t' \<noteq> t \<and> plainId t' \<and> plainId p \<and> list_all nameChar unique"
| "elsewhere t (SO_VariantImage unique t' p v file) \<longleftrightarrow> t' \<noteq> t \<and> plainId t' \<and> plainId p \<and> plainId v \<and> list_all nameChar unique"
| "elsewhere t (SO_Upload key b mimeType) \<longleftrightarrow> splitOn (CHR ''/'') key ! 1 \<noteq> t"
| "elsewhere t (SO_Delete key) \<longleftrightarrow> splitOn (CHR ''/'') key ! 1 \<noteq> t"
| "elsewhere t (SO_Read key) \<longleftrightarrow> True"

lemma own_other_path:
  assumes "assertTenantScopedKey k = Inr key" "splitOn (CHR ''/'') key ! 1 \<noteq> t" "CHR ''/'' \<notin> set t" "getFullPath conf key = Inr p"
  shows "\<not> inTenant conf t p"
proof
  assume t: "inTenant conf t p"
  obtain rest where "splitOn (CHR ''/'') key = ''tenants'' # splitOn (CHR ''/'') key ! 1 # rest"
    using key_segments [OF assms(1)] by blast
  then have "splitOn (CHR ''/'') key ! 1 \<in> set (splitOn (CHR ''/'') key)" by (metis list.set_intros(1) list.set_intros(2))
  then have "CHR ''/'' \<notin> set (splitOn (CHR ''/'') key ! 1)" using splitOn_piece by blast
  moreover obtain q where "getFullPath conf key = Inr q" "inTenant conf (splitOn (CHR ''/'') key ! 1) q"
    using key_path [OF assms(1)] by blast
  then have "inTenant conf (splitOn (CHR ''/'') key ! 1) p" using assms(4) by simp
  ultimately show False using inTenant_one [OF t] assms(2,3) by metis
qed

lemma filter_writeFile: "\<not> inTenant conf t p \<Longrightarrow> filter (ownFile conf t) (writeFile p b d) = filter (ownFile conf t) d"
  unfolding writeFile_def deleteMany_def by (auto simp: ownFile_in filter_filter intro!: filter_cong)

lemma filter_removeFile: "\<not> inTenant conf t p \<Longrightarrow> filter (ownFile conf t) (removeFile p d) = filter (ownFile conf t) d"
  unfolding removeFile_def deleteMany_def by (auto simp: ownFile_in filter_filter intro!: filter_cong)

lemma localUpload_state:
  "snd (localUpload conf key b m d) = d \<or> (\<exists>p. getFullPath conf key = Inr p \<and> snd (localUpload conf key b m d) = writeFile p b d)"
  by (cases "getFullPath conf key") (simp_all add: localUpload_def liftH_def monad_defs)

lemma localDelete_state:
  "snd (localDelete conf key d) = d \<or> (\<exists>p. getFullPath conf key = Inr p \<and> snd (localDelete conf key d) = removeFile p d)"
  by (cases "getFullPath conf key") (simp_all add: localDelete_def liftH_def monad_defs)

lemma checked_state:
  "snd (thenH (checkedKey key) m d) = (case assertTenantScopedKey (Some key) of Inl e \<Rightarrow> d | Inr k \<Rightarrow> snd (m d))"
  by (simp add: checkedKey_def liftH_def monad_defs split: sum.splits)

lemma getFileStream_state: "snd (getFileStream conf key d) = d"
  unfolding getFileStream_def checked_state
  by (cases "getFullPath conf key") (simp_all add: localGetStream_def liftH_def monad_defs split: sum.split)

lemma bind_return_state: "snd (bindH m (\<lambda>r. returnH (f r)) d) = snd (m d)"
  by (simp add: monad_defs split: prod.split sum.split)

lemma upload_elsewhere:
  assumes "assertTenantScopedKey (Some key) = Inr key" "splitOn (CHR ''/'') key ! 1 \<noteq> t" "CHR ''/'' \<notin> set t"
  shows "filter (ownFile conf t) (snd (localUpload conf key b m d)) = filter (ownFile conf t) d"
  using localUpload_state [of conf key b m d] own_other_path [OF assms] filter_writeFile by metis

lemma performStorage_elsewhere:
  assumes "elsewhere t op" "CHR ''/'' \<notin> set t"
  shows "filter (ownFile conf t) (performStorage conf op d) = filter (ownFile conf t) d"
proof (cases op)
  case (SO_ProductImage unique t' p upl)
  have "snd (uploadProductImage conf unique t' p upl d)
      = snd (localUpload conf (generateProductImageKey unique t' p (uf_originalname upl)) (uf_buffer upl) (uf_mimetype upl) d)"
    by (simp add: uploadProductImage_def Let_def bind_return_state)
  then show ?thesis using SO_ProductImage assms upload_elsewhere generatedKey_ok(1,2) by simp
next
  case (SO_VariantImage unique t' p v upl)
  have "snd (uploadVariantImage conf unique t' p v upl d)
      = snd (localUpload conf (generateVariantImageKey unique t' p v (uf_originalname upl)) (uf_buffer upl) (uf_mimetype upl) d)"
    by (simp add: uploadVariantImage_def Let_def bind_return_state)
  then show ?thesis using SO_VariantImage assms upload_elsewhere generatedKey_ok(3,4) by simp
next
  case (SO_Upload key b m)
  show ?thesis
  proof (cases "assertTenantScopedKey (Some key)")
    case (Inl e)
    then show ?thesis by (simp add: SO_Upload storageUpload_def checked_state)
  next
    case (Inr k)
    then have "k = key" by (auto simp: assert_Inr)
    then show ?thesis using Inr assms SO_Upload upload_elsewhere by (simp add: storageUpload_def checked_state)
  qed
next
  case (SO_Delete key)
  show ?thesis
  proof (cases "assertTenantScopedKey (Some key)")
    case (Inl e)
    then show ?thesis by (simp add: SO_Delete deleteFile_def checked_state)
  next
    case (Inr k)
    then have "k = key" by (auto simp: assert_Inr)
    then show ?thesis
      using Inr assms SO_Delete localDelete_state [of conf key d] own_other_path [of "Some key" key t conf] filter_removeFile
      by (simp add: deleteFile_def checked_state) metis
  qed
next
  case (SO_Read key)
  then show ?thesis by (simp add: getFileStream_state)
qed

lemma performAll_elsewhere:
  "list_all (elsewhere t) ops \<Longrightarrow> CHR ''/'' \<notin> set t \<Longrightarrow>
     filter (ownFile conf t) (fold (performStorage conf) ops d) = filter (ownFile conf t) d"
  by (induction ops arbitrary: d) (simp_all add: performStorage_elsewhere)

lemma getFileStream_own:
  assumes "assertTenantScopedKey (Some key) = Inr key" "splitOn (CHR ''/'') key ! 1 = t"
    and "filter (ownFile conf t) d = filter (ownFile conf t) d'"
  shows "fst (getFileStream conf key d) = fst (getFileStream conf key d')"
proof -
  obtain p where p: "getFullPath conf key = Inr p" "inTenant conf t p" using key_path [OF assms(1)] assms(2) by blast
  show ?thesis
    using own_disk [OF p(2) assms(3)]
    by (simp add: getFileStream_def checkedKey_def assms(1) localGetStream_def p(1) liftH_def monad_defs)
qed

text \<open>C32: stored files stay in their tenant. Whatever files other tenants upload, replace, delete or read, with any keys
  and names they choose, the file endpoint answers a tenant exactly as before: the same file, or the same refusal.\<close>

theorem storage_keeps_tenants_apart:
  assumes "list_all (elsewhere t) ops" "CHR ''/'' \<notin> set t"
  shows "fst (getAuthenticatedFile conf (Some t) key (fold (performStorage conf) ops d))
       = fst (getAuthenticatedFile conf (Some t) key d)"
proof (cases "nonEmpty key")
  case None
  then show ?thesis by (simp add: getAuthenticatedFile_def monad_defs)
next
  case (Some k)
  show ?thesis
  proof (cases "assertTenantScopedKey (Some k)")
    case (Inl e)
    then show ?thesis by (simp add: getAuthenticatedFile_def Some checkedKey_def liftH_def monad_defs)
  next
    case (Inr k')
    then have k: "assertTenantScopedKey (Some k) = Inr k" by (auto simp: assert_Inr)
    show ?thesis
    proof (cases "splitOn (CHR ''/'') k ! 1 = t")
      case False
      then show ?thesis by (simp add: getAuthenticatedFile_def Some checkedKey_def k liftH_def monad_defs)
    next
      case True
      have "fst (getFileStream conf k (fold (performStorage conf) ops d)) = fst (getFileStream conf k d)"
        by (rule getFileStream_own [OF k True performAll_elsewhere [OF assms]])
      then obtain r where "getFileStream conf k (fold (performStorage conf) ops d) = (r, fold (performStorage conf) ops d)"
        and "getFileStream conf k d = (r, d)"
        using getFileStream_state by (metis prod.collapse)
      then show ?thesis
        by (simp add: getAuthenticatedFile_def Some checkedKey_def k True liftH_def monad_defs split: sum.split option.split)
    qed
  qed
qed

section \<open>Signed addresses open one file for a while\<close>

lemma digit_plain: "is_digit c \<Longrightarrow> \<not> is_space c \<and> c \<noteq> CHR ''-'' \<and> c \<noteq> CHR ''+''"
  by (auto simp: is_digit_def is_space_def)

lemma trim_digits: "\<forall>c \<in> set x. is_digit c \<Longrightarrow> trim x = x"
proof -
  assume x: "\<forall>c \<in> set x. is_digit c"
  have "dropWhile is_space y = y" if "\<forall>c \<in> set y. is_digit c" for y
    using that digit_plain by (cases y) auto
  then show ?thesis using x by (simp add: trim_def)
qed

lemma numberOf_show_nat: "numberOf (show_nat n) = Some (of_nat n)"
proof -
  have d: "\<forall>c \<in> set (show_nat n). is_digit c" using show_nat_digits [of n] by auto
  then have tr: "trim (show_nat n) = show_nat n" and tw: "takeWhile is_digit (show_nat n) = show_nat n"
    and dw: "dropWhile is_digit (show_nat n) = []"
    by (simp_all add: trim_digits takeWhile_eq_all_conv dropWhile_eq_Nil_conv)
  have "\<not> startsWith (show_nat n) ''-''" "\<not> startsWith (show_nat n) ''+''" "show_nat n \<noteq> []"
    using d digit_plain show_nat_nonempty [of n] by (cases "show_nat n"; auto)+
  then show ?thesis by (simp only: numberOf_def Let_def tr tw dw if_False prod.case) simp
qed

lemma colon_split:
  "d \<notin> set x \<Longrightarrow> d \<notin> set y \<Longrightarrow> x @ d # r = y @ d # q \<Longrightarrow> x = y \<and> r = q"
  by (frule (2) tenant_word) simp

lemma nonEmpty_Some_iff: "nonEmpty x = Some y \<longleftrightarrow> x = Some y \<and> y \<noteq> []"
  by (cases x) (auto simp: nonEmpty_def)

lemma fileExists_key:
  assumes "assertTenantScopedKey (Some k) = Inr k" "getFullPath conf k = Inr p"
  shows "fst (fileExists conf k d) = Inr (accessible d p)" "getFileStream conf k d = (Inr (if accessible d p then Some (openStream d p) else None), d)"
  by (simp_all add: fileExists_def localExists_def getFileStream_def localGetStream_def checkedKey_def assms liftH_def monad_defs)

lemma getSignedFile_iff:
  assumes "signature \<noteq> []"
  shows "succeeded (getSignedFile conf now (Some key) (Some e) (Some signature) d) \<longleftrightarrow>
     verifySignedUrl conf now key (Some e) (Some signature) \<and> assertTenantScopedKey (Some key) = Inr key
       \<and> fst (fileExists conf key d) = Inr True"
proof (cases "key \<noteq> [] \<and> e \<noteq> [] \<and> verifySignedUrl conf now key (Some e) (Some signature)")
  case False
  then show ?thesis
    using assms by (auto simp: getSignedFile_def succeeded_def nonEmpty_def verifySignedUrl_def assert_Inr monad_defs
        split: option.splits if_splits)
next
  case True
  show ?thesis
  proof (cases "assertTenantScopedKey (Some key)")
    case (Inl x)
    then show ?thesis using True assms
      by (simp add: getSignedFile_def succeeded_def nonEmpty_def checkedKey_def liftH_def monad_defs)
  next
    case (Inr k)
    then have k: "assertTenantScopedKey (Some key) = Inr key" by (auto simp: assert_Inr)
    obtain p where p: "getFullPath conf key = Inr p" using key_path [OF k] by blast
    show ?thesis using True assms
      by (simp add: getSignedFile_def succeeded_def nonEmpty_def checkedKey_def k fileExists_key [OF k p] liftH_def monad_defs)
  qed
qed


section \<open>A store of objects\<close>

text \<open>
  What a client of the disk relies on: an object written under a name is read back until it is removed or
  replaced, and other names are not touched. Then a set of references to stored objects stays good.
\<close>

locale object_store =
  fixes fetch :: "'k \<Rightarrow> 's \<Rightarrow> 'v option" and put :: "'k \<Rightarrow> 'v \<Rightarrow> 's \<Rightarrow> 's" and discard :: "'k \<Rightarrow> 's \<Rightarrow> 's"
  assumes fetch_put: "fetch k (put k' v s) = (if k = k' then Some v else fetch k s)"
    and fetch_discard: "fetch k (discard k' s) = (if k = k' then None else fetch k s)"
begin

definition stored :: "'k list \<Rightarrow> 's \<Rightarrow> bool" where
  "stored ks s \<longleftrightarrow> (\<forall>k \<in> set ks. fetch k s \<noteq> None)"

lemma stored_put: "stored ks s \<Longrightarrow> stored (ks @ [k]) (put k v s)"
  by (auto simp: stored_def fetch_put)

lemma stored_discard: "stored ks s \<Longrightarrow> k \<notin> set ks' \<Longrightarrow> set ks' \<subseteq> set ks \<Longrightarrow> stored ks' (discard k s)"
  by (auto simp: stored_def fetch_discard)

lemma stored_subset: "stored ks s \<Longrightarrow> set ks' \<subseteq> set ks \<Longrightarrow> stored ks' s"
  by (auto simp: stored_def)

end

lemma map_of_deleteMany: "map_of (deleteMany (\<lambda>f. fst f = p) d) q = (if q = p then None else map_of d q)"
  by (induction d) (auto simp: deleteMany_def)

interpretation disk_store: object_store "\<lambda>p d. map_of d p" writeFile removeFile
  by unfold_locales (auto simp: writeFile_def removeFile_def map_of_deleteMany)

lemma map_of_isFile: "map_of d p \<noteq> None \<longleftrightarrow> isFile d p"
  by (induction d) (auto simp: isFile_def)

section \<open>A small disk\<close>

definition demoStorage :: storage_conf where
  "demoStorage = \<lparr>sc_cwd = ''/srv'', sc_basePath = ''./storage'', sc_baseUrl = ''/storage'', sc_signingSecret = Some ''key'',
     sc_jwtSecret = None, sc_production = True, sc_hmac = (\<lambda>k p. hexEnc (k @ p))\<rparr>"

definition demoKey :: string where
  "demoKey = ''tenants/shop-1/products/tea-1/u1_tea.png''"

definition demoDisk :: disk where
  "demoDisk = [(''/srv/storage/tenants/shop-1/products/tea-1/u1_tea.png'', [0x89, 0x50])]"

definition demoUpload :: upload_file where
  "demoUpload = \<lparr>uf_originalname = Some ''../../shop-1/tea.png'', uf_mimetype = ''image/png'', uf_size = 2, uf_buffer = [1, 2]\<rparr>"

lemma storage_keeps_tenants_apart_witness:
  "fst (getAuthenticatedFile demoStorage (Some ''shop-1'') (Some demoKey)
     (fold (performStorage demoStorage) [SO_ProductImage ''u1'' ''shop-2'' ''tea-1'' demoUpload, SO_Delete ''tenants/shop-2/products/x''] demoDisk))
   = Inr \<lparr>fa_contentType = ''image/png'', fa_disposition = None, fa_stream = Content [0x89, 0x50]\<rparr>"
proof -
  have o: "list_all (elsewhere ''shop-1'') [SO_ProductImage ''u1'' ''shop-2'' ''tea-1'' demoUpload, SO_Delete ''tenants/shop-2/products/x'']"
    and s: "CHR ''/'' \<notin> set ''shop-1''" by code_simp+
  have "fst (getAuthenticatedFile demoStorage (Some ''shop-1'') (Some demoKey) demoDisk)
      = Inr \<lparr>fa_contentType = ''image/png'', fa_disposition = None, fa_stream = Content [0x89, 0x50]\<rparr>" by code_simp
  then show ?thesis unfolding storage_keeps_tenants_apart [OF o s] .
qed


end
