(* ===== verification/Reports.thy ===== *)
theory Reports
  imports Storage Access
begin

text \<open>
  Reports: the CSV files a business exports (src/src/modules/reports/reports.service.js, reports.builders.js, reports.csv.js),
  their queue (src/src/jobs/queues/report.queue.js, src/src/jobs/processors/report.processor.js) and the
  schedules that request them (report-schedules.service.js). Reports and schedules are tables beside the database, the files lie on
  the disk of theory Storage. A tick of the schedules and the requests of the users are steps that overlap.
\<close>

section \<open>CSV\<close>

datatype csv_value = CsvNull | CsvText string | CsvDate int | CsvInt int

definition CR :: char where
  "CR = CHR 0x0D"

definition LF :: char where
  "LF = CHR 0x0A"

definition QUOTE :: char where
  "QUOTE = CHR 0x22"

definition formulaStart :: "string \<Rightarrow> bool" where
  "formulaStart t \<longleftrightarrow> (case t of [] \<Rightarrow> False | c # _ \<Rightarrow> c \<in> set [CHR ''='', CHR ''+'', CHR ''-'', CHR ''@'', CHR 0x09, CR])"

definition csvText :: "env \<Rightarrow> csv_value \<Rightarrow> string" where
  "csvText env v = (case v of CsvNull \<Rightarrow> [] | CsvText t \<Rightarrow> t | CsvDate d \<Rightarrow> env_iso env d | CsvInt n \<Rightarrow> show_int n)"

definition guardText :: "string \<Rightarrow> string" where
  "guardText t = (if formulaStart t then CHR 0x27 # t else t)"

definition quoteText :: "string \<Rightarrow> string" where
  "quoteText t =
     (if list_ex (\<lambda>c. c \<in> set [QUOTE, CHR '','', CR, LF]) t
      then QUOTE # concat (map (\<lambda>c. if c = QUOTE then [QUOTE, QUOTE] else [c]) t) @ [QUOTE] else t)"

definition csvCell :: "env \<Rightarrow> csv_value \<Rightarrow> string" where
  "csvCell env v = (if v = CsvNull then [] else quoteText (guardText (csvText env v)))"

text \<open>\<open>cells.join(',')\<close>.\<close>

fun joinComma :: "string list \<Rightarrow> string" where
  "joinComma [] = []"
| "joinComma [c] = c"
| "joinComma (c # cs) = c @ CHR '','' # joinComma cs"

definition csvLine :: "env \<Rightarrow> csv_value list \<Rightarrow> string" where
  "csvLine env values = joinComma (map (csvCell env) values) @ [CR, LF]"

text \<open>\<open>Buffer.from(text, 'utf8')\<close>; the characters of the model are the code units below 256. The file starts with U+FEFF.\<close>

definition utf8 :: "string \<Rightarrow> bytes" where
  "utf8 s = concat (map (\<lambda>c. let n = of_char c :: nat in
     if n < 128 then [word_of_nat n] else [word_of_nat (192 + n div 64), word_of_nat (128 + n mod 64)]) s)"

definition BOM :: bytes where
  "BOM = [0xEF, 0xBB, 0xBF]"

text \<open>
  The specification: how a spreadsheet reads such a file. \<open>utf8Decode\<close> gives the characters back, \<open>readCsv\<close> is RFC 4180, where a
  cell is bare or in quotes, with quotes doubled inside.
\<close>

fun utf8Decode :: "bytes \<Rightarrow> string" where
  "utf8Decode [] = []"
| "utf8Decode (b # bs) =
     (if unat b < 128 then char_of (unat b) # utf8Decode bs
      else (case bs of [] \<Rightarrow> [] | c # cs \<Rightarrow> char_of ((unat b - 192) * 64 + (unat c - 128)) # utf8Decode cs))"

datatype csv_mode = Fresh | Bare | Inside | Closing

fun scanCsv :: "csv_mode \<Rightarrow> string \<Rightarrow> string list \<Rightarrow> string \<Rightarrow> string list list" where
  "scanCsv m cell cells [] = (if m = Fresh \<and> cells = [] then [] else [cells @ [cell]])"
| "scanCsv m cell cells (c # s) =
     (if m = Inside then (if c = QUOTE then scanCsv Closing cell cells s else scanCsv Inside (cell @ [c]) cells s)
      else if m = Closing \<and> c = QUOTE then scanCsv Inside (cell @ [c]) cells s
      else if m = Fresh \<and> c = QUOTE then scanCsv Inside [] cells s
      else if c = CHR '','' then scanCsv Fresh [] (cells @ [cell]) s
      else if c = CR then scanCsv m cell cells s
      else if c = LF then (cells @ [cell]) # scanCsv Fresh [] [] s
      else scanCsv Bare (cell @ [c]) cells s)"

definition readCsv :: "string \<Rightarrow> string list list" where
  "readCsv s = scanCsv Fresh [] [] s"

lemma byte_nat: "n < 256 \<Longrightarrow> unat (word_of_nat n :: 8 word) = n"
  by (simp add: unat_of_nat take_bit_eq_mod)

lemma utf8_decode [simp]: "utf8Decode (utf8 s) = s"
proof (induction s)
  case (Cons c s)
  define n where "n = (of_char c :: nat)"
  have n: "n < 256" and c: "char_of n = c" by (simp_all add: n_def)
  have step: "utf8 (c # s) = (if n < 128 then [word_of_nat n] else [word_of_nat (192 + n div 64), word_of_nat (128 + n mod 64)]) @ utf8 s"
    by (simp add: utf8_def n_def Let_def)
  show ?case
  proof (cases "n < 128")
    case True
    then show ?thesis using Cons c by (simp add: step unat_of_nat take_bit_eq_mod)
  next
    case False
    have "n div 64 < 4" using n by (simp add: less_mult_imp_div_less)
    then have "unat (word_of_nat (192 + n div 64) :: 8 word) = 192 + n div 64" "unat (word_of_nat (128 + n mod 64) :: 8 word) = 128 + n mod 64"
      by (simp_all only: byte_nat)
    then show ?thesis using Cons c False by (simp add: step del: of_nat_add)
  qed
qed (simp add: utf8_def)

lemmas csv_chars = CR_def LF_def QUOTE_def

lemma scan_inside:
  "scanCsv Inside cell cells (concat (map (\<lambda>c. if c = QUOTE then [QUOTE, QUOTE] else [c]) t) @ QUOTE # s)
     = scanCsv Closing (cell @ t) cells s"
  by (induction t arbitrary: cell) (simp_all add: csv_chars)

lemma scan_bare:
  "list_all (\<lambda>c. c \<notin> set [QUOTE, CHR '','', CR, LF]) t \<Longrightarrow> m \<noteq> Inside \<Longrightarrow>
     scanCsv m cell cells (t @ s) = scanCsv (if t = [] then m else Bare) (cell @ t) cells s"
  by (induction t arbitrary: cell m) auto

lemma scan_cell:
  "\<exists>m. m \<noteq> Inside \<and> (\<forall>cells s. hd s \<noteq> QUOTE \<longrightarrow> scanCsv Fresh [] cells (quoteText t @ s) = scanCsv m t cells s)"
proof (cases "list_ex (\<lambda>c. c \<in> set [QUOTE, CHR '','', CR, LF]) t")
  case True
  then show ?thesis using scan_inside [of "[]" _ t] by (intro exI [of _ Closing]) (simp add: quoteText_def)
next
  case False
  then have t: "list_all (\<lambda>c. c \<notin> set [QUOTE, CHR '','', CR, LF]) t" by (auto simp: list_ex_iff list_all_iff)
  then show ?thesis using scan_bare [OF t, of Fresh "[]"] False
    by (intro exI [of _ "if t = [] then Fresh else Bare"]) (auto simp: quoteText_def)
qed

lemma scan_line:
  assumes "vs \<noteq> []"
  shows "scanCsv Fresh [] cells (joinComma (map quoteText vs) @ CR # LF # s) = (cells @ vs) # scanCsv Fresh [] [] s"
  using assms
proof (induction vs arbitrary: cells rule: joinComma.induct)
  case (2 t)
  from scan_cell [of t] show ?case by (auto simp: csv_chars)
next
  case (3 t u us)
  have "scanCsv Fresh [] cells (quoteText t @ CHR '','' # joinComma (map quoteText (u # us)) @ CR # LF # s)
      = scanCsv Fresh [] (cells @ [t]) (joinComma (map quoteText (u # us)) @ CR # LF # s)"
    using scan_cell [of t] by (auto simp: csv_chars)
  then show ?case using 3(1) [of "cells @ [t]"] by simp
qed simp

definition cellText :: "env \<Rightarrow> csv_value \<Rightarrow> string" where
  "cellText env v = guardText (csvText env v)"

lemma csvCell_quoted: "csvCell env v = quoteText (cellText env v)"
  by (auto simp: csvCell_def cellText_def csvText_def guardText_def formulaStart_def quoteText_def)

lemma csvLine_quoted: "csvLine env r = joinComma (map quoteText (map (cellText env) r)) @ [CR, LF]"
  by (simp add: csvLine_def csvCell_quoted [abs_def] comp_def)

lemma read_csv_lines:
  "list_all (\<lambda>r. r \<noteq> []) rows \<Longrightarrow> readCsv (concat (map (csvLine env) rows)) = map (map (cellText env)) rows"
  by (induction rows) (simp_all add: readCsv_def csvLine_quoted scan_line del: map_map)

lemma cellText_safe: "\<not> formulaStart (cellText env v)"
  by (auto simp: cellText_def guardText_def formulaStart_def csv_chars)

section \<open>The rows of a report\<close>

datatype report_type = R_ORDERS | R_INVENTORY | R_CUSTOMERS

definition report_type_str :: "report_type \<Rightarrow> string" where
  "report_type_str t = (case t of R_ORDERS \<Rightarrow> ''ORDERS'' | R_INVENTORY \<Rightarrow> ''INVENTORY'' | R_CUSTOMERS \<Rightarrow> ''CUSTOMERS'')"

text \<open>
  The world of the reports: the file store, whether Redis is connected and what adding a job throws, the settings, \<open>Date.parse\<close>,
  the columns that the rows of theory Schema leave out, and the errors of the file system on removing a file.
\<close>

record report_world =
  rw_storage :: storage_conf
  rw_queue :: bool
  rw_addError :: "error option"
  rw_cacheUp :: bool
  rw_retentionDays :: int
  rw_appUrl :: string
  rw_parseDate :: "string \<Rightarrow> int"
  rw_customerCreatedAt :: "customer_row \<Rightarrow> int"
  rw_inventoryId :: "inventory_row \<Rightarrow> string"
  rw_unlink :: "string \<Rightarrow> error option"

definition BATCH :: nat where
  "BATCH = 1000"

definition MAX_ROWS :: int where
  "MAX_ROWS = 100000"

definition dateRange :: "report_world \<Rightarrow> jsval \<Rightarrow> int \<Rightarrow> bool" where
  "dateRange w filters ms \<longleftrightarrow>
     (case nonEmpty (jsStr (jget ''from'' filters)) of None \<Rightarrow> True | Some d \<Rightarrow> rw_parseDate w (d @ ''T00:00:00.000Z'') \<le> ms)
   \<and> (case nonEmpty (jsStr (jget ''to'' filters)) of None \<Rightarrow> True | Some d \<Rightarrow> ms \<le> rw_parseDate w (d @ ''T23:59:59.999Z''))"

text \<open>
  The loop of \<open>batches\<close>, each page after the row the cursor names. The rows are those of the query in the order of their id, and no
  other request changes them between two pages. The fuel is one more than the number of rows.
\<close>

definition findPage :: "('r \<Rightarrow> string) \<Rightarrow> 'r list \<Rightarrow> string option \<Rightarrow> 'r list" where
  "findPage idOf rows cursor = take BATCH (case nonEmpty cursor of
      None \<Rightarrow> rows | Some c \<Rightarrow> drop 1 (dropWhile (\<lambda>r. idOf r \<noteq> c) rows))"

fun batches :: "nat \<Rightarrow> ('r \<Rightarrow> string) \<Rightarrow> 'r list \<Rightarrow> string option \<Rightarrow> 'r list list" where
  "batches 0 idOf rows cursor = []"
| "batches (Suc n) idOf rows cursor =
     (let page = findPage idOf rows cursor in
      if page = [] then [] else page # (if length page < BATCH then [] else batches n idOf rows (Some (idOf (last page)))))"

definition allPages :: "('r \<Rightarrow> string) \<Rightarrow> 'r list \<Rightarrow> 'r list" where
  "allPages idOf rows = concat (batches (Suc (length rows)) idOf (sort_key idOf rows) None)"

definition moneyCell :: "paise \<Rightarrow> csv_value" where
  "moneyCell d = CsvText (decToString d)"

definition customerCells :: "db \<Rightarrow> string \<Rightarrow> csv_value list" where
  "customerCells s i = (case find (\<lambda>c. cu_id c = i) (customers s) of
      Some c \<Rightarrow> [CsvText (cu_email c), CsvText (cu_firstName c @ '' '' @ cu_lastName c)]
    | None \<Rightarrow> [CsvNull, CsvNull])"

definition orderReportRows :: "report_world \<Rightarrow> string \<Rightarrow> jsval \<Rightarrow> db \<Rightarrow> csv_value list list" where
  "orderReportRows w tenantId filters s =
     map (\<lambda>o1. [CsvText (or_id o1), CsvDate (or_createdAt o1), CsvText (order_status_str (or_status o1))]
         @ customerCells s (or_customerId o1)
         @ [CsvInt (int (countWhere (\<lambda>i. oi_orderId i = or_id o1) (orderItems s))), moneyCell (or_subtotal o1),
            moneyCell (or_discountTotal o1), moneyCell (or_taxTotal o1), moneyCell (or_shippingTotal o1),
            moneyCell (or_total o1), CsvText (or_currency o1)])
       (allPages or_id (filter (\<lambda>o1. or_tenantId o1 = tenantId \<and> dateRange w filters (or_createdAt o1)
           \<and> (case nonEmpty (jsStr (jget ''status'' filters)) of None \<Rightarrow> True | Some st \<Rightarrow> order_status_str (or_status o1) = st))
         (orders s)))"

definition variant_status_str :: "variant_status \<Rightarrow> string" where
  "variant_status_str st = (case st of V_ACTIVE \<Rightarrow> ''ACTIVE'' | V_INACTIVE \<Rightarrow> ''INACTIVE'' | V_DRAFT \<Rightarrow> ''DRAFT'')"

definition variantCells :: "db \<Rightarrow> string \<Rightarrow> csv_value list" where
  "variantCells s i = (case find (\<lambda>v. va_id v = i) (variants s) of
      Some v \<Rightarrow> [CsvText (va_sku v), (case find (\<lambda>p. pr_id p = va_productId v) (products s) of
          Some p \<Rightarrow> CsvText (pr_name p) | None \<Rightarrow> CsvNull), CsvText (variant_status_str (va_status v))]
    | None \<Rightarrow> [CsvNull, CsvNull, CsvNull])"

definition warehouseCells :: "db \<Rightarrow> string \<Rightarrow> csv_value list" where
  "warehouseCells s i = (case find (\<lambda>h. wh_id h = i) (warehouses s) of
      Some h \<Rightarrow> [CsvText (wh_code h), CsvText (wh_name h)] | None \<Rightarrow> [CsvNull, CsvNull])"

definition inventoryReportRows :: "report_world \<Rightarrow> string \<Rightarrow> jsval \<Rightarrow> db \<Rightarrow> csv_value list list" where
  "inventoryReportRows w tenantId filters s =
     map (\<lambda>i. variantCells s (iv_variantId i) @ warehouseCells s (iv_warehouseId i)
         @ [CsvInt (iv_quantity i), CsvDate (iv_updatedAt i)])
       (allPages (rw_inventoryId w) (filter (\<lambda>i. iv_tenantId i = tenantId
           \<and> (case nonEmpty (jsStr (jget ''warehouseId'' filters)) of None \<Rightarrow> True | Some h \<Rightarrow> iv_warehouseId i = h))
         (inventory s)))"

definition customerReportRows :: "report_world \<Rightarrow> string \<Rightarrow> jsval \<Rightarrow> db \<Rightarrow> csv_value list list" where
  "customerReportRows w tenantId filters s =
     map (\<lambda>c. let os = filter (\<lambda>o1. or_tenantId o1 = tenantId \<and> or_customerId o1 = cu_id c
                \<and> or_status o1 \<notin> {O_CANCELLED, O_REFUNDED}) (orders s) in
         [CsvText (cu_id c), CsvText (cu_email c), CsvText (cu_firstName c), CsvText (cu_lastName c),
          (case cu_phone c of None \<Rightarrow> CsvNull | Some p \<Rightarrow> CsvText p), CsvDate (rw_customerCreatedAt w c),
          CsvInt (int (length os)), if os = [] then CsvText ''0.00'' else moneyCell (sum_list (map or_total os))])
       (allPages cu_id (filter (\<lambda>c. cu_tenantId c = tenantId \<and> cu_deletedAt c = None
           \<and> dateRange w filters (rw_customerCreatedAt w c)) (customers s)))"

text \<open>\<open>REPORT_DEFINITIONS\<close>.\<close>

definition reportPermission :: "report_type \<Rightarrow> string" where
  "reportPermission t = (case t of R_ORDERS \<Rightarrow> ''order:read'' | R_INVENTORY \<Rightarrow> ''inventory:read'' | R_CUSTOMERS \<Rightarrow> ''customer:read'')"

definition reportFilters :: "report_type \<Rightarrow> string list" where
  "reportFilters t = (case t of R_ORDERS \<Rightarrow> [''from'', ''to'', ''status''] | R_INVENTORY \<Rightarrow> [''warehouseId'']
     | R_CUSTOMERS \<Rightarrow> [''from'', ''to''])"

definition reportHeader :: "report_type \<Rightarrow> string list" where
  "reportHeader t = (case t of
      R_ORDERS \<Rightarrow> [''orderId'', ''createdAt'', ''status'', ''customerEmail'', ''customerName'', ''itemCount'', ''subtotal'',
        ''discountTotal'', ''taxTotal'', ''shippingTotal'', ''total'', ''currency'']
    | R_INVENTORY \<Rightarrow> [''sku'', ''productName'', ''variantStatus'', ''warehouseCode'', ''warehouseName'', ''quantity'', ''updatedAt'']
    | R_CUSTOMERS \<Rightarrow> [''customerId'', ''email'', ''firstName'', ''lastName'', ''phone'', ''createdAt'', ''orderCount'', ''totalSpent''])"

definition reportRows :: "report_world \<Rightarrow> report_type \<Rightarrow> string \<Rightarrow> jsval \<Rightarrow> db \<Rightarrow> csv_value list list" where
  "reportRows w t = (case t of R_ORDERS \<Rightarrow> orderReportRows w | R_INVENTORY \<Rightarrow> inventoryReportRows w
     | R_CUSTOMERS \<Rightarrow> customerReportRows w)"

section \<open>Tables\<close>

datatype report_status = R_PENDING | R_PROCESSING | R_COMPLETED | R_FAILED

datatype report_frequency = F_DAILY | F_WEEKLY | F_MONTHLY

record report_row =
  re_id :: string
  re_tenantId :: string
  re_requestedBy :: "string option"
  re_scheduleId :: "string option"
  re_type :: report_type
  re_status :: report_status
  re_filters :: jsval
  re_storageKey :: "string option"
  re_rowCount :: "int option"
  re_sizeBytes :: "nat option"
  re_error :: "string option"
  re_startedAt :: "int option"
  re_completedAt :: "int option"
  re_createdAt :: int

record schedule_row =
  sd_id :: string
  sd_tenantId :: string
  sd_createdBy :: "string option"
  sd_name :: string
  sd_type :: report_type
  sd_frequency :: report_frequency
  sd_filters :: jsval
  sd_recipientUserIds :: "string list"
  sd_enabled :: bool
  sd_lastPeriod :: "string option"
  sd_lastRunAt :: "int option"
  sd_lastReportId :: "string option"
  sd_lastError :: "string option"
  sd_createdAt :: int

record report_db =
  rd_db :: db
  rd_disk :: disk
  rd_reports :: "report_row list"
  rd_schedules :: "schedule_row list"
  rd_jobs :: "(string \<times> string \<times> string) list" \<comment> \<open>job id, tenant, report\<close>

type_synonym 'a reportio = "(report_db, 'a) io"

definition inDb :: "'a dbio \<Rightarrow> 'a reportio" where
  "inDb m = (\<lambda>w. case m (rd_db w) of (r, s) \<Rightarrow> (r, w\<lparr>rd_db := s\<rparr>))"

definition inDbT :: "'a dbtx \<Rightarrow> (report_db, 'a) tx" where
  "inDbT m = (\<lambda>w. case m (rd_db w) of Inl e \<Rightarrow> Inl e | Inr (x, s) \<Rightarrow> Inr (x, w\<lparr>rd_db := s\<rparr>))"

definition onDisk :: "(disk, 'a) io \<Rightarrow> 'a reportio" where
  "onDisk m = (\<lambda>w. case m (rd_disk w) of (r, d) \<Rightarrow> (r, w\<lparr>rd_disk := d\<rparr>))"

definition updateReport :: "string \<Rightarrow> (report_row \<Rightarrow> report_row) \<Rightarrow> report_db \<Rightarrow> report_db" where
  "updateReport i f w = w\<lparr>rd_reports := updateMany (\<lambda>r. re_id r = i) f (rd_reports w)\<rparr>"

definition updateSchedule :: "string \<Rightarrow> (schedule_row \<Rightarrow> schedule_row) \<Rightarrow> report_db \<Rightarrow> report_db" where
  "updateSchedule i f w = w\<lparr>rd_schedules := updateMany (\<lambda>r. sd_id r = i) f (rd_schedules w)\<rparr>"

lemma inDb_outcome [outcome]: "inDb m w = (r, w') \<longleftrightarrow> (\<exists>s. m (rd_db w) = (r, s) \<and> w' = w\<lparr>rd_db := s\<rparr>)"
  by (auto simp: inDb_def split: prod.splits)

lemma inDbT_outcome [outcome]: "inDbT m w = Inr (x, w') \<longleftrightarrow> (\<exists>s. m (rd_db w) = Inr (x, s) \<and> w' = w\<lparr>rd_db := s\<rparr>)"
  by (auto simp: inDbT_def split: sum.splits)

lemma onDisk_outcome [outcome]: "onDisk m w = (r, w') \<longleftrightarrow> (\<exists>d. m (rd_disk w) = (r, d) \<and> w' = w\<lparr>rd_disk := d\<rparr>)"
  by (auto simp: onDisk_def split: prod.splits)

section \<open>Paging returns every row once\<close>

lemma drop_while_last:
  assumes "distinct (map idOf (pre @ x # post))"
  shows "dropWhile (\<lambda>r. idOf r \<noteq> idOf x) (pre @ x # post) = x # post"
  using assms by (induction pre) auto

lemma batches_after:
  assumes "distinct (map idOf rows)" and "[] \<notin> idOf ` set rows" and "rows = pre @ post" and "length post < n"
    and "cursor = (if pre = [] then None else Some (idOf (last pre)))"
  shows "concat (batches n idOf rows cursor) = post"
  using assms(3-)
proof (induction n arbitrary: pre post cursor)
  case (Suc n)
  have page: "findPage idOf rows cursor = take BATCH post"
  proof (cases pre rule: rev_cases)
    case (snoc p x)
    moreover have "idOf x \<noteq> []" using Suc.prems(1) snoc assms(2) by auto
    ultimately show ?thesis
      using Suc.prems(1,3) drop_while_last [of idOf p x post] assms(1) by (simp add: findPage_def nonEmpty_def)
  qed (use Suc.prems in \<open>simp add: findPage_def nonEmpty_def\<close>)
  show ?case
  proof (cases "length post < BATCH")
    case True
    then show ?thesis using page by (simp add: Let_def)
  next
    case False
    then have ne: "take BATCH post \<noteq> []" "length (take BATCH post) = BATCH" by (auto simp: BATCH_def)
    have "concat (batches n idOf rows (Some (idOf (last (take BATCH post))))) = drop BATCH post"
      using Suc.prems ne False by (intro Suc.IH [of "pre @ take BATCH post"]) (auto simp: BATCH_def)
    then show ?thesis using page ne by (simp add: Let_def)
  qed
qed simp

lemma allPages_sorted:
  assumes "distinct (map idOf rows)" "[] \<notin> idOf ` set rows"
  shows "allPages idOf rows = sort_key idOf rows"
proof -
  have "distinct (map idOf (sort_key idOf rows))"
    using assms(1) by (metis distinct_map distinct_sort set_sort)
  then show ?thesis unfolding allPages_def using assms(2) by (intro batches_after [where pre = "[]"]) simp_all
qed

section \<open>The service\<close>

definition DAY_MS :: int where
  "DAY_MS = 24 * 60 * 60 * 1000"

definition DOWNLOAD_URL_TTL_SECONDS :: int where
  "DOWNLOAD_URL_TTL_SECONDS = 300"

definition PRUNE_BATCH :: nat where
  "PRUNE_BATCH = 200"

abbreviation reportNotFound :: error where
  "reportNotFound \<equiv> AppError 404 ''REPORT_NOT_FOUND''"

text \<open>What \<open>toReport\<close> shows besides the row: when retention deletes the report, never when the setting is 0.\<close>

definition expiresAt :: "report_world \<Rightarrow> report_row \<Rightarrow> int option" where
  "expiresAt w r = (if rw_retentionDays w = 0 then None else Some (re_createdAt r + rw_retentionDays w * DAY_MS))"

definition toReport :: "report_world \<Rightarrow> report_row \<Rightarrow> report_row \<times> int option" where
  "toReport w r = (r\<lparr>re_storageKey := None\<rparr>, expiresAt w r)"

definition assertCanRead :: "report_world \<Rightarrow> report_type \<Rightarrow> req_context \<Rightarrow> unit reportio" where
  "assertCanRead w t c =
     (if rc_scope c = ''support'' then returnH ()
      else bindH (inDb (getUserPermissions (rw_cacheUp w) (rc_userId c) (rc_tenantId c))) (\<lambda>granted.
        throwIfH (\<not> list_ex (grants (reportPermission t)) granted) (AppError 403 ''FORBIDDEN'')))"

definition findReport :: "string \<Rightarrow> string \<Rightarrow> report_db \<Rightarrow> report_row option" where
  "findReport tenantId i w = find (\<lambda>r. re_id r = i \<and> re_tenantId r = tenantId) (rd_reports w)"

definition getReport :: "string \<Rightarrow> string \<Rightarrow> report_row reportio" where
  "getReport tenantId i = bindH (readH (findReport tenantId i)) (\<lambda>r. orThrowH r reportNotFound)"

text \<open>The recipients of a schedule: active users with an active membership of the tenant.\<close>

definition activeStaff :: "string \<Rightarrow> string list \<Rightarrow> db \<Rightarrow> user_row list" where
  "activeStaff tenantId userIds s =
     filter (\<lambda>u. us_id u \<in> set userIds \<and> us_status u = U_ACTIVE \<and> isMember s tenantId (us_id u)) (users (accounts s))"

definition frequency_str :: "report_frequency \<Rightarrow> string" where
  "frequency_str f = (case f of F_DAILY \<Rightarrow> ''DAILY'' | F_WEEKLY \<Rightarrow> ''WEEKLY'' | F_MONTHLY \<Rightarrow> ''MONTHLY'')"

definition periodText :: "jsval \<Rightarrow> string" where
  "periodText filters = (case nonEmpty (jsStr (jget ''from'' filters)) of
      None \<Rightarrow> []
    | Some startDay \<Rightarrow> let endDay = (case jsStr (jget ''to'' filters) of Some t \<Rightarrow> t | None \<Rightarrow> ''undefined'') in
        '' for '' @ (if startDay = endDay then startDay else startDay @ '' to '' @ endDay))"

definition readyMail :: "report_world \<Rightarrow> report_row \<Rightarrow> schedule_row \<Rightarrow> user_row \<Rightarrow> email_job" where
  "readyMail w r sd u =
     (let link = rw_appUrl w @ ''/reports/'' @ re_id r; period = periodText (re_filters r);
          count = show_int (case re_rowCount r of Some n \<Rightarrow> n | None \<Rightarrow> 0)
      in \<lparr>ej_tenantId = re_tenantId r, ej_to = us_email u, ej_subject = sd_name sd @ '': report ready'' @ period,
          ej_text = Some ((if us_firstName u = [] then ''Hi,'' else ''Hi '' @ us_firstName u @ '','') @ NL @ NL @ ''Your ''
            @ toLowerCase (frequency_str (sd_frequency sd)) @ '' '' @ toLowerCase (report_type_str (re_type r)) @ '' report'' @ period
            @ '' is ready ('' @ count @ '' rows). Sign in to download it:'' @ NL @ link @ NL @ NL @ ''Files are kept for ''
            @ (if rw_retentionDays w = 0 then ''an unlimited number of'' else show_int (rw_retentionDays w)) @ '' days.''),
          ej_template = Some ''report.scheduled_ready'',
          ej_variables = JObj [(''scheduleName'', JStr (sd_name sd)), (''link'', JStr link), (''period'', JStr (trim period)),
            (''rowCount'', JStr count)]\<rparr>)"

fun forH :: "'x list \<Rightarrow> ('x \<Rightarrow> ('s, unit) io) \<Rightarrow> ('s, unit) io" where
  "forH [] f = returnH ()"
| "forH (x # xs) f = thenH (f x) (forH xs f)"

definition notifyRecipients :: "env \<Rightarrow> report_world \<Rightarrow> report_row \<Rightarrow> unit reportio" where
  "notifyRecipients env w r =
     bindH (readH (\<lambda>x. case re_scheduleId r of None \<Rightarrow> None | Some i \<Rightarrow> find (\<lambda>sd. sd_id sd = i) (rd_schedules x))) (\<lambda>schedule.
     case schedule of
       None \<Rightarrow> returnH ()
     | Some sd \<Rightarrow>
         bindH (readH (\<lambda>x. activeStaff (re_tenantId r) (sd_recipientUserIds sd) (rd_db x))) (\<lambda>recipients.
         forH recipients (\<lambda>u. catchH (inDb (enqueueEmail env (readyMail w r sd u))) (\<lambda>_. returnH ()))))"

text \<open>
  \<open>generate\<close>: the worker's side of a report. The message of an \<open>AppError\<close> is its code here. \<open>Skipped\<close> is the answer
  \<open>{ skipped: true }\<close>.
\<close>

datatype generated = Skipped string | Generated int

definition reportFile :: "env \<Rightarrow> report_world \<Rightarrow> report_type \<Rightarrow> csv_value list list \<Rightarrow> error + int \<times> bytes" where
  "reportFile env w t rows =
     (if MAX_ROWS < int (length rows) then Inl (AppError 422 ''REPORT_TOO_LARGE'')
      else Inr (int (length rows), BOM @ utf8 (concat (map (csvLine env) (map CsvText (reportHeader t) # rows)))))"

definition reportKey :: "string \<Rightarrow> string \<Rightarrow> string" where
  "reportKey tenantId i = ''tenants/'' @ tenantId @ ''/reports/'' @ i @ ''.csv''"

definition buildReport :: "env \<Rightarrow> report_world \<Rightarrow> report_row \<Rightarrow> generated reportio" where
  "buildReport env w r =
     bindH (readH (\<lambda>x. reportRows w (re_type r) (re_tenantId r) (re_filters r) (rd_db x))) (\<lambda>rows.
     bindH (liftH (reportFile env w (re_type r) rows)) (\<lambda>(rowCount, buffer).
     let storageKey = reportKey (re_tenantId r) (re_id r) in
     thenH (onDisk (storageUpload (rw_storage w) storageKey buffer ''text/csv''))
    (thenH (writeH (updateReport (re_id r) (\<lambda>y. y\<lparr>re_status := R_COMPLETED, re_storageKey := Some storageKey,
        re_rowCount := Some rowCount, re_sizeBytes := Some (length buffer), re_completedAt := Some (env_now env)\<rparr>)))
    (thenH (if nonEmpty (re_scheduleId r) = None then returnH ()
        else catchH (notifyRecipients env w (r\<lparr>re_rowCount := Some rowCount\<rparr>)) (\<lambda>_. returnH ()))
      (returnH (Generated rowCount))))))"

definition errorText :: "error \<Rightarrow> string" where
  "errorText e = (case e of AppError _ c \<Rightarrow> c | IntegrationError _ c \<Rightarrow> c | _ \<Rightarrow> ''Report generation failed'')"

definition generate :: "env \<Rightarrow> report_world \<Rightarrow> string \<Rightarrow> string \<Rightarrow> generated reportio" where
  "generate env w tenantId reportId =
     bindH (readH (findReport tenantId reportId)) (\<lambda>report.
     case report of
       None \<Rightarrow> returnH (Skipped ''report not found'')
     | Some r \<Rightarrow>
         if re_status r = R_COMPLETED then returnH (Skipped ''already completed'')
         else thenH (writeH (updateReport reportId (\<lambda>y. y\<lparr>re_status := R_PROCESSING, re_startedAt := Some (env_now env), re_error := None\<rparr>)))
           (catchH (buildReport env w r) (\<lambda>e.
              thenH (writeH (updateReport reportId (\<lambda>y. y\<lparr>re_status := R_FAILED, re_error := Some (errorText e),
                re_completedAt := Some (env_now env)\<rparr>)))
              (throwH e))))"

definition processGenerateReport :: "env \<Rightarrow> report_world \<Rightarrow> string \<Rightarrow> string \<Rightarrow> generated reportio" where
  "processGenerateReport env w tenantId reportId =
     thenH (throwIfH (tenantId = [] \<or> reportId = []) (JsError ''tenantId and reportId are required'')) (generate env w tenantId reportId)"

text \<open>One job for a report: adding a job whose id exists changes nothing. Without Redis the report is generated at once, and its failure is
  not an error of the request.\<close>

definition duplicateJob :: "error \<Rightarrow> bool" where
  "duplicateJob e = (case e of JsError m \<Rightarrow> strIncludes (toLowerCase m) ''already exists'' \<or> strIncludes m ''JobId'' | _ \<Rightarrow> False)"

definition enqueueReport :: "env \<Rightarrow> report_world \<Rightarrow> string \<Rightarrow> string \<Rightarrow> unit reportio" where
  "enqueueReport env w tenantId reportId =
     thenH (throwIfH (tenantId = []) (JsError ''tenantId is required''))
    (thenH (throwIfH (reportId = []) (JsError ''reportId is required''))
    (if \<not> rw_queue w then catchH (thenH (processGenerateReport env w tenantId reportId) (returnH ())) (\<lambda>_. returnH ())
     else (case rw_addError w of
         Some e \<Rightarrow> throwIfH (\<not> duplicateJob e) e
       | None \<Rightarrow> let jobId = ''report-'' @ reportId in
           writeH (\<lambda>x. if list_ex (\<lambda>j. fst j = jobId) (rd_jobs x) then x
             else x\<lparr>rd_jobs := rd_jobs x @ [(jobId, tenantId, reportId)]\<rparr>))))"

definition newReport :: "env \<Rightarrow> string \<Rightarrow> req_context \<Rightarrow> report_type \<Rightarrow> jsval \<Rightarrow> string option \<Rightarrow> report_row" where
  "newReport env i c t filters scheduleId = \<lparr>re_id = i, re_tenantId = rc_tenantId c, re_requestedBy = Some (rc_userId c),
     re_scheduleId = scheduleId, re_type = t, re_status = R_PENDING, re_filters = filters, re_storageKey = None, re_rowCount = None,
     re_sizeBytes = None, re_error = None, re_startedAt = None, re_completedAt = None, re_createdAt = env_now env\<rparr>"

definition createReport :: "env \<Rightarrow> req_context \<Rightarrow> audit_context \<Rightarrow> report_type \<Rightarrow> jsval \<Rightarrow> string option \<Rightarrow> (report_db, string) tx" where
  "createReport env c client t filters scheduleId =
     bindT (inDbT (freshId env)) (\<lambda>i.
     bindT (readT (\<lambda>w. case scheduleId of None \<Rightarrow> True | Some sid \<Rightarrow> list_ex (\<lambda>sd. sd_id sd = sid) (rd_schedules w))) (\<lambda>known.
     thenT (throwIfT (\<not> known) (DbError ''P2003'' [] ''Foreign key constraint failed''))
    (thenT (writeT (\<lambda>w. w\<lparr>rd_reports := rd_reports w @ [newReport env i c t filters scheduleId]\<rparr>))
    (thenT (inDbT (logAudit env (client\<lparr>cx_userId := Some (rc_userId c)\<rparr>) (rc_tenantId c) ''EXPORT'' ''report'' (Some i) JNull
        (JObj [(''type'', JStr (report_type_str t)), (''filters'', filters)])))
      (returnT i)))))"

definition requestReport ::
  "env \<Rightarrow> report_world \<Rightarrow> req_context \<Rightarrow> audit_context \<Rightarrow> report_type \<Rightarrow> jsval \<Rightarrow> string option \<Rightarrow> (report_row \<times> int option) reportio" where
  "requestReport env w c client t filters scheduleId =
     thenH (assertCanRead w t c)
    (bindH (transaction (createReport env c client t filters scheduleId)) (\<lambda>i.
     thenH (enqueueReport env w (rc_tenantId c) i)
    (bindH (readH (\<lambda>x. find (\<lambda>r. re_id r = i) (rd_reports x))) (\<lambda>report.
     bindH (orThrowH report (JsError ''TypeError'')) (\<lambda>r. returnH (toReport w r))))))"

definition getReportById :: "report_world \<Rightarrow> string \<Rightarrow> string \<Rightarrow> (report_row \<times> int option) reportio" where
  "getReportById w tenantId i = bindH (getReport tenantId i) (\<lambda>r. returnH (toReport w r))"

record download_link =
  dl_url :: string
  dl_fileName :: string
  dl_expiresAt :: int

definition downloadReport :: "env \<Rightarrow> report_world \<Rightarrow> req_context \<Rightarrow> string \<Rightarrow> download_link reportio" where
  "downloadReport env w c i =
     bindH (getReport (rc_tenantId c) i) (\<lambda>r.
     thenH (assertCanRead w (re_type r) c)
    (thenH (throwIfH (re_status r \<noteq> R_COMPLETED) (AppError 409 ''REPORT_NOT_READY''))
    (bindH (orThrowH (re_storageKey r) (AppError 400 ''INVALID_STORAGE_KEY'')) (\<lambda>key.
     bindH (onDisk (getSignedUrl (rw_storage w) (env_now env) key DOWNLOAD_URL_TTL_SECONDS)) (\<lambda>url.
     returnH \<lparr>dl_url = url, dl_fileName = toLowerCase (report_type_str (re_type r)) @ ''-''
         @ take 10 (env_iso env (re_createdAt r)) @ ''-'' @ take 8 (re_id r) @ ''.csv'',
       dl_expiresAt = env_now env + DOWNLOAD_URL_TTL_SECONDS * 1000\<rparr>)))))"

section \<open>Retention\<close>

definition removeReportFile :: "report_world \<Rightarrow> string \<Rightarrow> (disk, bool) io" where
  "removeReportFile w key = (case rw_unlink w key of Some e \<Rightarrow> throwH e | None \<Rightarrow> deleteFile (rw_storage w) key)"

text \<open>The inner loop: the rows whose file is gone, and the number of files that could not be deleted.\<close>

fun removeFiles :: "report_world \<Rightarrow> report_row list \<Rightarrow> disk \<Rightarrow> string list \<times> nat \<times> disk" where
  "removeFiles w [] d = ([], 0, d)"
| "removeFiles w (r # rs) d =
     (case (case nonEmpty (re_storageKey r) of None \<Rightarrow> (Inr True, d) | Some key \<Rightarrow> removeReportFile w key d) of
        (Inr _, d') \<Rightarrow> (case removeFiles w rs d' of (ids, bad, d'') \<Rightarrow> (re_id r # ids, bad, d''))
      | (Inl _, d') \<Rightarrow> (case removeFiles w rs d' of (ids, bad, d'') \<Rightarrow> (ids, Suc bad, d'')))"

definition pastRetention :: "int \<Rightarrow> string option \<Rightarrow> report_row \<Rightarrow> bool" where
  "pastRetention cutoff tenantId r \<longleftrightarrow>
     re_createdAt r < cutoff \<and> (case nonEmpty tenantId of None \<Rightarrow> True | Some t \<Rightarrow> re_tenantId r = t)"

definition pruneBatch :: "int \<Rightarrow> string option \<Rightarrow> nat \<Rightarrow> report_row list \<Rightarrow> report_row list" where
  "pruneBatch cutoff tenantId failed rs = take PRUNE_BATCH (drop failed (sort_key re_createdAt (filter (pastRetention cutoff tenantId) rs)))"

lemma removeFiles_count: "removeFiles w rs d = (ids, bad, d') \<Longrightarrow> length ids + bad = length rs \<and> set ids \<subseteq> re_id ` set rs"
  by (induction w rs d arbitrary: ids bad d' rule: removeFiles.induct) (fastforce split: prod.splits sum.splits)+

lemma pruneBatch_subset: "set (pruneBatch cutoff tenantId failed rs) \<subseteq> {r \<in> set rs. pastRetention cutoff tenantId r}"
  unfolding pruneBatch_def by (auto dest!: in_set_takeD in_set_dropD)

lemma removable_count: "removeFiles w rs d = (ids, bad, d') \<Longrightarrow> length ids \<le> length (filter (\<lambda>r. re_id r \<in> set ids) rs)"
proof (induction w rs d arbitrary: ids bad d' rule: removeFiles.induct)
  case (2 w r rs d)
  obtain ids1 bad1 d1 where "ids = re_id r # ids1 \<or> ids = ids1" and ids1: "length ids1 \<le> length (filter (\<lambda>r. re_id r \<in> set ids1) rs)"
    using 2 by (fastforce split: prod.splits sum.splits)
  moreover have "length (filter (\<lambda>r. re_id r \<in> set ids1) rs) \<le> length (filter (\<lambda>r. re_id r \<in> set ids) rs)"
    if "set ids1 \<subseteq> set ids" using that by (induction rs) auto
  ultimately show ?case by fastforce
qed simp

lemma pruneLoop_progress:
  assumes "pruneBatch cutoff tenantId failed rs \<noteq> []" and "removeFiles w (pruneBatch cutoff tenantId failed rs) d = (ids, bad, d')"
  shows "length (filter (pastRetention cutoff tenantId) (deleteMany (\<lambda>r. re_id r \<in> set ids) rs)) - (failed + bad)
    < length (filter (pastRetention cutoff tenantId) rs) - failed"
proof -
  let ?P = "pastRetention cutoff tenantId" and ?Q = "\<lambda>r. re_id r \<in> set ids" and ?batch = "pruneBatch cutoff tenantId failed rs"
  let ?L = "sort_key re_createdAt (filter ?P rs)"
  have n: "length ids + bad = length ?batch" and "length ids \<le> length (filter ?Q ?batch)"
    using removeFiles_count [OF assms(2)] removable_count [OF assms(2)] by simp_all
  moreover have "?L = take failed ?L @ ?batch @ drop PRUNE_BATCH (drop failed ?L)"
    by (simp only: pruneBatch_def append_take_drop_id)
  then have "length (filter ?Q ?batch) \<le> length (filter ?Q ?L)"
    by (metis (no_types, lifting) filter_append le_add1 le_add2 le_trans length_append)
  moreover have "length (filter ?Q ?L) = length (filter ?Q (filter ?P rs))"
    by (metis filter_sort length_sort)
  moreover have "length (filter ?Q (filter ?P rs)) + length (filter ?P (deleteMany ?Q rs)) = length (filter ?P rs)"
    using sum_length_filter_compl [of ?Q "filter ?P rs"] by (simp add: deleteMany_def conj_commute)
  moreover have "0 < length ?batch" "failed + length ?batch \<le> length (filter ?P rs)"
    using assms(1) by (auto simp: pruneBatch_def)
  ultimately show ?thesis by linarith
qed

lemma pruneLoop_measure:
  assumes "pruneBatch cutoff tenantId failed rs \<noteq> []"
  shows "length (filter (pastRetention cutoff tenantId)
        (deleteMany (\<lambda>r. re_id r \<in> set (fst (removeFiles w (pruneBatch cutoff tenantId failed rs) d))) rs))
      - (failed + fst (snd (removeFiles w (pruneBatch cutoff tenantId failed rs) d)))
    < length (filter (pastRetention cutoff tenantId) rs) - failed"
  using pruneLoop_progress [OF assms, of w d "fst R" "fst (snd R)" "snd (snd R)" for R] by simp

text \<open>\<open>for (;;)\<close>: it ends because every turn removes or counts the rows of its batch.\<close>

function pruneLoop :: "report_world \<Rightarrow> int \<Rightarrow> string option \<Rightarrow> nat \<Rightarrow> nat \<Rightarrow> report_db \<Rightarrow> nat \<times> nat \<times> report_db" where
  "pruneLoop w cutoff tenantId deleted failed x =
     (let batch = pruneBatch cutoff tenantId failed (rd_reports x) in
      if batch = [] then (deleted, failed, x)
      else let removed = removeFiles w batch (rd_disk x);
               removable = fst removed;
               bad = fst (snd removed);
               x' = x\<lparr>rd_disk := snd (snd removed), rd_reports := deleteMany (\<lambda>r. re_id r \<in> set removable) (rd_reports x)\<rparr>;
               deleted' = deleted + countWhere (\<lambda>r. re_id r \<in> set removable) (rd_reports x)
           in if length batch < PRUNE_BATCH then (deleted', failed + bad, x')
              else pruneLoop w cutoff tenantId deleted' (failed + bad) x')"
  by pat_completeness auto

termination
proof (relation "measure (\<lambda>(w, cutoff, tenantId, deleted, failed, x). length (filter (pastRetention cutoff tenantId) (rd_reports x)) - failed)")
qed (auto simp: pruneLoop_measure)

declare pruneLoop.simps [simp del]

record pruned =
  pn_deleted :: nat
  pn_failed :: nat
  pn_retentionDays :: int
  pn_cutoff :: "int option"

definition pruneReports :: "report_world \<Rightarrow> int \<Rightarrow> string option \<Rightarrow> pruned reportio" where
  "pruneReports w now tenantId = (\<lambda>x.
     if rw_retentionDays w = 0 then (Inr \<lparr>pn_deleted = 0, pn_failed = 0, pn_retentionDays = 0, pn_cutoff = None\<rparr>, x)
     else let cutoff = now - rw_retentionDays w * DAY_MS in
       case pruneLoop w cutoff tenantId 0 0 x of (deleted, failed, x') \<Rightarrow>
         (Inr \<lparr>pn_deleted = deleted, pn_failed = failed, pn_retentionDays = rw_retentionDays w, pn_cutoff = Some cutoff\<rparr>, x'))"

section \<open>What retention deletes\<close>

definition reportPath :: "report_world \<Rightarrow> report_row \<Rightarrow> string option" where
  "reportPath w r = (case nonEmpty (re_storageKey r) of None \<Rightarrow> None
     | Some key \<Rightarrow> (case getFullPath (rw_storage w) key of Inl e \<Rightarrow> None | Inr p \<Rightarrow> Some p))"

text \<open>A report whose file the file system refuses to remove.\<close>

definition stuckFile :: "report_world \<Rightarrow> report_row \<Rightarrow> bool" where
  "stuckFile w r \<longleftrightarrow> (case nonEmpty (re_storageKey r) of None \<Rightarrow> False | Some key \<Rightarrow> rw_unlink w key \<noteq> None)"

text \<open>The key of a report is a key of the store and names a file, not a directory.\<close>

definition keyNamesFile :: "report_world \<Rightarrow> disk \<Rightarrow> report_row \<Rightarrow> bool" where
  "keyNamesFile w d r \<longleftrightarrow> (case nonEmpty (re_storageKey r) of None \<Rightarrow> True
     | Some key \<Rightarrow> (case (assertTenantScopedKey (Some key), getFullPath (rw_storage w) key) of
          (Inr _, Inr p) \<Rightarrow> \<not> isDirectory d p \<and> \<not> belowFile d p
        | _ \<Rightarrow> False))"

definition withoutFiles :: "report_world \<Rightarrow> report_row list \<Rightarrow> disk \<Rightarrow> disk" where
  "withoutFiles w rs d = filter (\<lambda>f. Some (fst f) \<notin> reportPath w ` set rs) d"

lemma keyNamesFile_shrink: "keyNamesFile w d r \<Longrightarrow> keyNamesFile w (filter P d) r"
  by (auto simp: keyNamesFile_def isDirectory_def belowFile_def list_ex_iff split: option.splits sum.splits)

lemma removeFiles_run:
  "list_all (keyNamesFile w d) rs \<Longrightarrow> removeFiles w rs d =
     (map re_id (filter (\<lambda>r. \<not> stuckFile w r) rs), length (filter (stuckFile w) rs), withoutFiles w (filter (\<lambda>r. \<not> stuckFile w r) rs) d)"
proof (induction rs arbitrary: d)
  case Nil
  then show ?case by (simp add: withoutFiles_def)
next
  case (Cons r rs)
  have rest: "list_all (keyNamesFile w (filter P d)) rs" for P
    using Cons.prems keyNamesFile_shrink by (auto simp: list_all_iff)
  show ?case
  proof (cases "nonEmpty (re_storageKey r)")
    case None
    then show ?thesis using Cons.IH [of d] Cons.prems by (auto simp: stuckFile_def withoutFiles_def reportPath_def intro!: filter_cong)
  next
    case (Some key)
    show ?thesis
    proof (cases "rw_unlink w key")
      case None
      obtain p where p: "getFullPath (rw_storage w) key = Inr p" "assertTenantScopedKey (Some key) = Inr key"
        and wrong: "\<not> isDirectory (rd) p \<and> \<not> belowFile rd p" if "rd = d" for rd
        using Cons.prems Some by (auto simp: keyNamesFile_def assert_Inr split: sum.splits)
      have "snd (removeReportFile w key d) = removeFile p d" "\<exists>b. fst (removeReportFile w key d) = Inr b"
        using wrong [OF refl] None
        by (auto simp: removeReportFile_def deleteFile_def checkedKey_def p localDelete_def removeFile_def deleteMany_def isFile_def
            list_ex_iff filter_id_conv monad_defs intro: sym)
      then obtain b where b: "removeReportFile w key d = (Inr b, removeFile p d)" by (metis prod.collapse)
      have "removeFiles w rs (removeFile p d) = (map re_id (filter (\<lambda>r. \<not> stuckFile w r) rs), length (filter (stuckFile w) rs),
          withoutFiles w (filter (\<lambda>r. \<not> stuckFile w r) rs) (removeFile p d))"
        unfolding removeFile_def deleteMany_def by (rule Cons.IH [OF rest])
      moreover have "\<not> stuckFile w r" "reportPath w r = Some p" using Some None p by (simp_all add: stuckFile_def reportPath_def)
      ultimately show ?thesis using Some b
        by (auto simp: withoutFiles_def removeFile_def deleteMany_def intro!: filter_cong)
    next
      case (Some e)
      then show ?thesis using \<open>nonEmpty (re_storageKey r) = Some key\<close> Cons.IH [of d] Cons.prems
        by (simp add: removeReportFile_def stuckFile_def throwH_def)
    qed
  qed
qed

definition doomed :: "report_world \<Rightarrow> int \<Rightarrow> string option \<Rightarrow> report_row \<Rightarrow> bool" where
  "doomed w cutoff tenantId r \<longleftrightarrow> pastRetention cutoff tenantId r \<and> \<not> stuckFile w r"

text \<open>One turn of the loop, on the sorted rows past their retention: those before \<open>failed\<close> are stuck.\<close>

lemma prune_turn:
  fixes w cutoff tenantId failed rs
  defines "L \<equiv> sort_key re_createdAt (filter (pastRetention cutoff tenantId) rs)" and "B \<equiv> pruneBatch cutoff tenantId failed rs"
  defines "rs' \<equiv> deleteMany (\<lambda>r. re_id r \<in> set (map re_id (filter (\<lambda>r. \<not> stuckFile w r) B))) rs"
  assumes "distinct (map re_id rs)" and "list_all (stuckFile w) (take failed L)" "failed \<le> length L"
  shows "rs' = filter (\<lambda>r. \<not> (r \<in> set B \<and> \<not> stuckFile w r)) rs"
    and "sort_key re_createdAt (filter (pastRetention cutoff tenantId) rs')
      = take failed L @ filter (stuckFile w) B @ drop (failed + PRUNE_BATCH) L"
    and "L = take failed L @ B @ drop (failed + PRUNE_BATCH) L"
proof -
  have split: "L = take failed L @ B @ drop (failed + PRUNE_BATCH) L"
    by (simp add: B_def pruneBatch_def L_def add.commute flip: drop_drop)
  then show "L = take failed L @ B @ drop (failed + PRUNE_BATCH) L" .
  have inj: "inj_on re_id (set rs)" and d: "distinct rs" using assms(4) by (simp_all add: distinct_map)
  have B: "set B \<subseteq> set rs" unfolding B_def using pruneBatch_subset by blast
  show rs': "rs' = filter (\<lambda>r. \<not> (r \<in> set B \<and> \<not> stuckFile w r)) rs"
    unfolding rs'_def deleteMany_def using inj B by (intro filter_cong) (auto dest: inj_onD)
  have "sort_key re_createdAt (filter (pastRetention cutoff tenantId) rs') = filter (\<lambda>r. \<not> (r \<in> set B \<and> \<not> stuckFile w r)) L"
    unfolding rs' L_def filter_sort [symmetric] by (simp add: conj_commute)
  also have "\<dots> = take failed L @ filter (stuckFile w) B @ drop (failed + PRUNE_BATCH) L"
  proof -
    have "distinct L" using d by (simp add: L_def)
    then have "set B \<inter> set (drop (failed + PRUNE_BATCH) L) = {}" by (subst (asm) split) auto
    then have "filter (\<lambda>r. \<not> (r \<in> set B \<and> \<not> stuckFile w r)) (drop (failed + PRUNE_BATCH) L) = drop (failed + PRUNE_BATCH) L"
      by (auto simp: filter_id_conv)
    moreover have "filter (\<lambda>r. \<not> (r \<in> set B \<and> \<not> stuckFile w r)) (take failed L) = take failed L"
      using assms(5) by (auto simp: filter_id_conv list_all_iff)
    moreover have "filter (\<lambda>r. \<not> (r \<in> set B \<and> \<not> stuckFile w r)) B = filter (stuckFile w) B" by (rule filter_cong) auto
    ultimately show ?thesis by (subst split) (simp del: append_take_drop_id)
  qed
  finally show "sort_key re_createdAt (filter (pastRetention cutoff tenantId) rs')
      = take failed L @ filter (stuckFile w) B @ drop (failed + PRUNE_BATCH) L" .
qed

lemma withoutFiles_append: "withoutFiles w rs (withoutFiles w rs' d) = filter (\<lambda>f. Some (fst f) \<notin> reportPath w ` (set rs \<union> set rs')) d"
  by (auto simp: withoutFiles_def intro: filter_cong)

lemma keyNamesFile_without: "keyNamesFile w d r \<Longrightarrow> keyNamesFile w (withoutFiles w rs d) r"
  unfolding withoutFiles_def by (rule keyNamesFile_shrink)

lemma withoutFiles_set: "set rs = set rs' \<Longrightarrow> withoutFiles w rs d = withoutFiles w rs' d"
  by (simp add: withoutFiles_def)

lemma count_split: "(\<And>r. r \<in> set rs \<Longrightarrow> Q r \<Longrightarrow> P r) \<Longrightarrow> countWhere P rs = countWhere Q rs + countWhere P (filter (\<lambda>r. \<not> Q r) rs)"
  by (induction rs) (auto simp: countWhere_def)

lemma count_rest: "countWhere Q rs = length rs - length (filter (\<lambda>r. \<not> Q r) rs)"
  using sum_length_filter_compl [of Q rs] by (simp add: countWhere_def)

lemma removeFiles_batch:
  assumes "list_all (\<lambda>r. pastRetention cutoff tenantId r \<longrightarrow> keyNamesFile w d r) rs"
  shows "removeFiles w (pruneBatch cutoff tenantId failed rs) d =
    (map re_id (filter (\<lambda>r. \<not> stuckFile w r) (pruneBatch cutoff tenantId failed rs)),
     length (filter (stuckFile w) (pruneBatch cutoff tenantId failed rs)),
     withoutFiles w (filter (\<lambda>r. \<not> stuckFile w r) (pruneBatch cutoff tenantId failed rs)) d)"
  by (rule removeFiles_run) (use assms pruneBatch_subset in \<open>fastforce simp: list_all_iff\<close>)

lemma pruneLoop_turn:
  fixes w cutoff tenantId deleted failed x
  defines "B \<equiv> pruneBatch cutoff tenantId failed (rd_reports x)"
  defines "rs' \<equiv> deleteMany (\<lambda>r. re_id r \<in> set (map re_id (filter (\<lambda>r. \<not> stuckFile w r) B))) (rd_reports x)"
  defines "x' \<equiv> x\<lparr>rd_disk := withoutFiles w (filter (\<lambda>r. \<not> stuckFile w r) B) (rd_disk x), rd_reports := rs'\<rparr>"
    and "deleted' \<equiv> deleted + (length (rd_reports x) - length rs')"
  assumes "list_all (\<lambda>r. pastRetention cutoff tenantId r \<longrightarrow> keyNamesFile w (rd_disk x) r) (rd_reports x)"
  shows "pruneLoop w cutoff tenantId deleted failed x =
    (if length B < PRUNE_BATCH then (deleted', failed + length (filter (stuckFile w) B), x')
     else pruneLoop w cutoff tenantId deleted' (failed + length (filter (stuckFile w) B)) x')"
proof -
  note run = removeFiles_batch [OF assms(5), of failed, folded B_def]
  have count: "countWhere (\<lambda>r. re_id r \<in> set (map re_id (filter (\<lambda>r. \<not> stuckFile w r) B))) (rd_reports x) = length (rd_reports x) - length rs'"
    unfolding rs'_def deleteMany_def by (rule count_rest)
  show ?thesis
  proof (cases "B = []")
    case True
    then show ?thesis unfolding pruneLoop.simps [of w cutoff tenantId deleted failed x] Let_def B_def [symmetric]
      by (simp add: x'_def deleted'_def rs'_def deleteMany_def withoutFiles_def PRUNE_BATCH_def)
  next
    case False
    then show ?thesis unfolding pruneLoop.simps [of w cutoff tenantId deleted failed x] Let_def B_def [symmetric] run fst_conv snd_conv count
      by (simp add: x'_def deleted'_def rs'_def)
  qed
qed

lemma pruneLoop_run:
  assumes "distinct (map re_id (rd_reports x))"
    and "list_all (\<lambda>r. pastRetention cutoff tenantId r \<longrightarrow> keyNamesFile w (rd_disk x) r) (rd_reports x)"
    and "list_all (stuckFile w) (take failed (sort_key re_createdAt (filter (pastRetention cutoff tenantId) (rd_reports x))))"
    and "failed \<le> length (filter (pastRetention cutoff tenantId) (rd_reports x))"
  shows "pruneLoop w cutoff tenantId deleted failed x =
    (deleted + countWhere (doomed w cutoff tenantId) (rd_reports x),
     countWhere (\<lambda>r. pastRetention cutoff tenantId r \<and> stuckFile w r) (rd_reports x),
     x\<lparr>rd_disk := withoutFiles w (filter (doomed w cutoff tenantId) (rd_reports x)) (rd_disk x),
       rd_reports := deleteMany (doomed w cutoff tenantId) (rd_reports x)\<rparr>)"
  using assms
proof (induction w cutoff tenantId deleted failed x rule: pruneLoop.induct)
  case (1 w cutoff tenantId deleted failed x)
  let ?P = "pastRetention cutoff tenantId" and ?S = "stuckFile w" and ?D = "doomed w cutoff tenantId" and ?rs = "rd_reports x"
  define L where "L = sort_key re_createdAt (filter ?P ?rs)"
  define B where "B = pruneBatch cutoff tenantId failed ?rs"
  define rs' where "rs' = deleteMany (\<lambda>r. re_id r \<in> set (map re_id (filter (\<lambda>r. \<not> ?S r) B))) ?rs"
  have set_L: "set L = {r \<in> set ?rs. ?P r}" by (simp add: L_def)
  note turn = prune_turn [of ?rs w failed cutoff tenantId, folded L_def B_def, folded rs'_def]
  have rs': "rs' = filter (\<lambda>r. \<not> (r \<in> set B \<and> \<not> ?S r)) ?rs"
    and L': "sort_key re_createdAt (filter ?P rs') = take failed L @ filter ?S B @ drop (failed + PRUNE_BATCH) L"
    and split: "L = take failed L @ B @ drop (failed + PRUNE_BATCH) L"
    using turn "1.prems" by (simp_all add: L_def)
  have B: "set B \<subseteq> {r \<in> set ?rs. ?P r}" using pruneBatch_subset by (simp add: B_def)
  have stuck: "\<forall>r \<in> set (take failed L). ?S r" using "1.prems"(3) by (simp add: L_def list_all_iff)
  have stuck_count: "countWhere (\<lambda>r. ?P r \<and> ?S r) ?rs = length (filter ?S L)"
    by (simp add: countWhere_def L_def filter_sort conj_commute)
  have later: "?D r \<longleftrightarrow> r \<in> set B \<and> \<not> ?S r \<or> r \<in> set (drop (failed + PRUNE_BATCH) L) \<and> ?D r" if "r \<in> set ?rs" for r
  proof -
    have "set L = set (take failed L) \<union> set B \<union> set (drop (failed + PRUNE_BATCH) L)" by (subst split) (simp only: set_append Un_assoc)
    then show ?thesis using that set_L stuck B by (auto simp: doomed_def)
  qed
  have fresh: "distinct (map re_id rs')" using "1.prems"(1) by (simp add: rs' distinct_map_filter)
  define x' where "x' = x\<lparr>rd_disk := withoutFiles w (filter (\<lambda>r. \<not> ?S r) B) (rd_disk x), rd_reports := rs'\<rparr>"
  note step = pruneLoop_turn [OF "1.prems"(2), of deleted failed, folded B_def, folded rs'_def, folded x'_def]
  have deleted: "length ?rs - length rs' = countWhere (\<lambda>r. r \<in> set B \<and> \<not> ?S r) ?rs" unfolding rs' count_rest ..
  show ?case
  proof (cases "length B < PRUNE_BATCH")
    case True
    have "length B = min (length L - failed) PRUNE_BATCH" by (simp add: B_def pruneBatch_def L_def)
    then have last_: "drop (failed + PRUNE_BATCH) L = []" using True by simp
    then have D: "?D r \<longleftrightarrow> r \<in> set B \<and> \<not> ?S r" if "r \<in> set ?rs" for r using later [OF that] by simp
    have "filter ?S L = take failed L @ filter ?S B"
      using stuck by (subst split) (simp add: last_ filter_id_conv del: append_take_drop_id)
    moreover have "countWhere ?D ?rs = countWhere (\<lambda>r. r \<in> set B \<and> \<not> ?S r) ?rs" using D by (simp add: countWhere_def cong: filter_cong)
    moreover have "deleteMany ?D ?rs = rs'" using D by (simp add: rs' deleteMany_def cong: filter_cong)
    moreover have "set (filter (\<lambda>r. \<not> ?S r) B) = set (filter ?D ?rs)" using D B by auto
    ultimately show ?thesis using True "1.prems"(4)
      by (simp add: step deleted stuck_count x'_def L_def withoutFiles_def)
  next
    case False
    let ?failed = "failed + length (filter ?S B)"
    have "B \<noteq> []" using False by (auto simp: PRUNE_BATCH_def)
    note run = removeFiles_batch [OF "1.prems"(2), of failed, folded B_def]
    have count: "countWhere (\<lambda>r. re_id r \<in> set (map re_id (filter (\<lambda>r. \<not> ?S r) B))) ?rs = length ?rs - length rs'"
      unfolding rs'_def deleteMany_def by (rule count_rest)
    have L'': "sort_key re_createdAt (filter ?P (rd_reports x')) = take failed L @ filter ?S B @ drop (failed + PRUNE_BATCH) L"
      using L' by (simp add: x'_def)
    have failed: "length (take failed L) = failed" using "1.prems"(4) by (simp add: L_def)
    have more: "?failed \<le> length (filter ?P (rd_reports x'))"
      using arg_cong [OF L'', of length] failed by simp
    have IH: "pruneLoop w cutoff tenantId (deleted + (length ?rs - length rs')) ?failed x' =
      (deleted + (length ?rs - length rs') + countWhere ?D rs', countWhere (\<lambda>r. ?P r \<and> ?S r) rs',
       x'\<lparr>rd_disk := withoutFiles w (filter ?D rs') (rd_disk x'), rd_reports := deleteMany ?D rs'\<rparr>)"
    proof -
      have "distinct (map re_id (rd_reports x'))" using fresh by (simp add: x'_def)
      moreover have "list_all (\<lambda>r. ?P r \<longrightarrow> keyNamesFile w (rd_disk x') r) (rd_reports x')"
        using "1.prems"(2) keyNamesFile_without by (auto simp: x'_def rs' list_all_iff)
      moreover have "list_all ?S (take ?failed (sort_key re_createdAt (filter ?P (rd_reports x'))))"
        unfolding L'' using stuck failed by (auto simp: list_all_iff)
      ultimately show ?thesis
        using "1.IH" [OF refl _ refl refl refl refl refl, folded B_def, unfolded run fst_conv snd_conv, folded rs'_def x'_def, unfolded count]
          \<open>B \<noteq> []\<close> False more by (simp add: x'_def)
    qed
    have "countWhere ?D ?rs = (length ?rs - length rs') + countWhere ?D rs'"
      unfolding deleted unfolding rs' using B by (intro count_split) (auto simp: doomed_def)
    moreover have "countWhere (\<lambda>r. ?P r \<and> ?S r) rs' = countWhere (\<lambda>r. ?P r \<and> ?S r) ?rs"
      by (auto simp: rs' countWhere_def intro!: arg_cong [of _ _ length] filter_cong)
    moreover have "deleteMany ?D rs' = deleteMany ?D ?rs"
      using B by (auto simp: rs' deleteMany_def doomed_def intro!: filter_cong)
    moreover have "withoutFiles w (filter ?D rs') (rd_disk x') = withoutFiles w (filter ?D ?rs) (rd_disk x)"
    proof -
      have "set (filter ?D rs') \<union> set (filter (\<lambda>r. \<not> ?S r) B) = set (filter ?D ?rs)" using B by (auto simp: rs' doomed_def)
      then show ?thesis by (simp add: x'_def withoutFiles_append) (simp add: withoutFiles_def)
    qed
    ultimately show ?thesis using False IH by (simp add: step x'_def)
  qed
qed

lemma deleteMany_count: "countWhere P rs + length (deleteMany P rs) = length rs"
  using sum_length_filter_compl [of P rs] by (simp add: countWhere_def deleteMany_def)

text \<open>C39: retention deletes exactly the reports past it. The loop of batches ends; afterwards a report is gone when it is older than the
  limit (and of the tenant asked for) and its file could be removed, together with that file; reports whose file the file system
  refuses to remove are kept and counted, however many batches they fill; every other report and file is as it was.\<close>

theorem prune_deletes_expired:
  assumes "rw_retentionDays w \<noteq> 0" and "cutoff = now - rw_retentionDays w * DAY_MS"
    and "distinct (map re_id (rd_reports x))"
    and "list_all (\<lambda>r. pastRetention cutoff tenantId r \<longrightarrow> keyNamesFile w (rd_disk x) r) (rd_reports x)"
  shows "\<exists>result x'. pruneReports w now tenantId x = (Inr result, x')
    \<and> rd_reports x' = filter (\<lambda>r. \<not> (pastRetention cutoff tenantId r \<and> \<not> stuckFile w r)) (rd_reports x)
    \<and> rd_disk x' = filter (\<lambda>f. \<not> (\<exists>r \<in> set (rd_reports x). pastRetention cutoff tenantId r \<and> \<not> stuckFile w r
        \<and> reportPath w r = Some (fst f))) (rd_disk x)
    \<and> pn_deleted result + length (rd_reports x') = length (rd_reports x)
    \<and> pn_failed result = countWhere (\<lambda>r. pastRetention cutoff tenantId r \<and> stuckFile w r) (rd_reports x)
    \<and> rd_db x' = rd_db x \<and> rd_schedules x' = rd_schedules x \<and> rd_jobs x' = rd_jobs x"
proof -
  let ?D = "doomed w cutoff tenantId"
  have "pruneLoop w cutoff tenantId 0 0 x = (countWhere ?D (rd_reports x),
      countWhere (\<lambda>r. pastRetention cutoff tenantId r \<and> stuckFile w r) (rd_reports x),
      x\<lparr>rd_disk := withoutFiles w (filter ?D (rd_reports x)) (rd_disk x), rd_reports := deleteMany ?D (rd_reports x)\<rparr>)"
    using pruneLoop_run [OF assms(3,4), of 0 0] by simp
  moreover have "withoutFiles w (filter ?D (rd_reports x)) (rd_disk x) = filter (\<lambda>f. \<not> (\<exists>r \<in> set (rd_reports x).
      pastRetention cutoff tenantId r \<and> \<not> stuckFile w r \<and> reportPath w r = Some (fst f))) (rd_disk x)"
    unfolding withoutFiles_def by (rule filter_cong) (auto simp: doomed_def image_iff eq_commute)
  moreover have "deleteMany ?D (rd_reports x) = filter (\<lambda>r. \<not> (pastRetention cutoff tenantId r \<and> \<not> stuckFile w r)) (rd_reports x)"
    by (simp add: deleteMany_def doomed_def)
  ultimately show ?thesis using assms(1,2) deleteMany_count [of ?D "rd_reports x"] by (simp add: pruneReports_def Let_def)
qed

section \<open>What a generated report holds\<close>

lemma reportRows_filled: "list_all (\<lambda>row. row \<noteq> []) (reportRows w t tenantId filters s)"
  by (cases t) (auto simp: reportRows_def orderReportRows_def inventoryReportRows_def customerReportRows_def list_all_iff Let_def)

lemma header_text: "map (cellText env) (map CsvText (reportHeader t)) = reportHeader t"
  by (cases t) (simp_all add: reportHeader_def cellText_def csvText_def guardText_def formulaStart_def csv_chars)

lemma upload_then_stream:
  assumes "storageUpload conf key b mime d = (Inr u, d')"
  shows "getFileStream conf key d' = (Inr (Some (Content b)), d')"
proof -
  obtain p where "assertTenantScopedKey (Some key) = Inr key" "getFullPath conf key = Inr p" "d' = writeFile p b d"
    using assms by (auto simp: storageUpload_def localUpload_def checkedKey_def outcome assert_Inr)
  then show ?thesis
    by (simp add: getFileStream_def localGetStream_def checkedKey_def accessible_def isFile_def openStream_def writeFile_def monad_defs)
qed

lemma notify_frame: "notifyRecipients env w r x = (q, x') \<Longrightarrow> rd_reports x' = rd_reports x \<and> rd_disk x' = rd_disk x"
proof -
  have loop: "forH us (\<lambda>u. catchH (inDb (m u)) (\<lambda>_. returnH ())) x = (q, x') \<Longrightarrow> rd_reports x' = rd_reports x \<and> rd_disk x' = rd_disk x"
    for us :: "user_row list" and m x q x'
    by (induction us arbitrary: x q) (auto simp: monad_defs inDb_def split: prod.splits sum.splits)
  assume "notifyRecipients env w r x = (q, x')"
  then show ?thesis
    by (cases q) (auto simp: notifyRecipients_def outcome dest: loop split: option.splits)
qed

lemma buildReport_Inr:
  assumes "buildReport env w r x = (Inr g, x')"
  obtains rows content u d where "rows = reportRows w (re_type r) (re_tenantId r) (re_filters r) (rd_db x)" "int (length rows) \<le> MAX_ROWS"
    "content = concat (map (csvLine env) (map CsvText (reportHeader (re_type r)) # rows))" "g = Generated (int (length rows))"
    "storageUpload (rw_storage w) (reportKey (re_tenantId r) (re_id r)) (BOM @ utf8 content) ''text/csv'' (rd_disk x) = (Inr u, d)"
    "rd_disk x' = d"
    "rd_reports x' = rd_reports (updateReport (re_id r) (\<lambda>y. y\<lparr>re_status := R_COMPLETED, re_storageKey := Some (reportKey (re_tenantId r) (re_id r)),
        re_rowCount := Some (int (length rows)), re_sizeBytes := Some (length (BOM @ utf8 content)), re_completedAt := Some (env_now env)\<rparr>) x)"
proof -
  let ?rows = "reportRows w (re_type r) (re_tenantId r) (re_filters r) (rd_db x)"
  show thesis
    using assms that [of ?rows "concat (map (csvLine env) (map CsvText (reportHeader (re_type r)) # ?rows))"]
    by (auto simp: buildReport_def reportFile_def Let_def outcome liftH_def catchH_def updateReport_def
        split: if_splits prod.splits sum.splits dest!: notify_frame)
qed

text \<open>C38: a generated report is a complete and harmless table. When the worker reports success, the report is completed and its stored file
  is the text a spreadsheet reads as the header followed by one line per row of the query, cell by cell, commas, quotes and
  line breaks in the data included; the row count and size are those of the file; and no cell starts a formula.\<close>

theorem generated_report_reads_back:
  assumes "generate env w tenantId reportId x = (Inr (Generated n), x')"
  shows "\<exists>r rows content key. findReport tenantId reportId x = Some r
    \<and> rows = reportRows w (re_type r) tenantId (re_filters r) (rd_db x) \<and> n = int (length rows) \<and> length rows \<le> 100000
    \<and> getFileStream (rw_storage w) key (rd_disk x') = (Inr (Some (Content (BOM @ utf8 content))), rd_disk x')
    \<and> utf8Decode (utf8 content) = content
    \<and> readCsv content = reportHeader (re_type r) # map (map (\<lambda>v. guardText (csvText env v))) rows
    \<and> list_all (list_all (\<lambda>cell. \<not> formulaStart cell)) (readCsv content)
    \<and> findReport tenantId reportId x' = Some (r\<lparr>re_status := R_COMPLETED, re_startedAt := Some (env_now env), re_error := None,
        re_storageKey := Some key, re_rowCount := Some n, re_sizeBytes := Some (length (BOM @ utf8 content)), re_completedAt := Some (env_now env)\<rparr>)"
proof -
  obtain r where r: "findReport tenantId reportId x = Some r" and run: "buildReport env w r
      (updateReport reportId (\<lambda>y. y\<lparr>re_status := R_PROCESSING, re_startedAt := Some (env_now env), re_error := None\<rparr>) x)
      = (Inr (Generated n), x')"
    using assms by (auto simp: generate_def outcome catchH_def split: option.splits if_splits prod.splits sum.splits)
  have ids: "re_id r = reportId" "re_tenantId r = tenantId" using r by (auto simp: findReport_def dest: find_SomeD)
  from run obtain rows content u d where rows: "rows = reportRows w (re_type r) tenantId (re_filters r) (rd_db x)" "int (length rows) \<le> MAX_ROWS"
    and content: "content = concat (map (csvLine env) (map CsvText (reportHeader (re_type r)) # rows))" and n: "n = int (length rows)"
    and upload: "storageUpload (rw_storage w) (reportKey tenantId reportId) (BOM @ utf8 content) ''text/csv'' (rd_disk x) = (Inr u, rd_disk x')"
    and reports: "rd_reports x' = rd_reports (updateReport reportId (\<lambda>y. y\<lparr>re_status := R_COMPLETED, re_storageKey := Some (reportKey tenantId reportId),
        re_rowCount := Some (int (length rows)), re_sizeBytes := Some (length (BOM @ utf8 content)), re_completedAt := Some (env_now env)\<rparr>)
        (updateReport reportId (\<lambda>y. y\<lparr>re_status := R_PROCESSING, re_startedAt := Some (env_now env), re_error := None\<rparr>) x))"
    by (rule buildReport_Inr) (auto simp: ids updateReport_def)
  have cells: "readCsv content = map (map (cellText env)) (map CsvText (reportHeader (re_type r)) # rows)"
    unfolding content using reportRows_filled by (intro read_csv_lines) (auto simp: rows reportHeader_def split: report_type.splits)
  then have "readCsv content = reportHeader (re_type r) # map (map (\<lambda>v. guardText (csvText env v))) rows"
    using header_text [of env "re_type r"] by (simp add: cellText_def [abs_def])
  moreover have "list_all (list_all (\<lambda>cell. \<not> formulaStart cell)) (readCsv content)"
    unfolding cells using cellText_safe by (auto simp: list_all_iff)
  moreover have "findReport tenantId reportId x' = Some (r\<lparr>re_status := R_COMPLETED, re_startedAt := Some (env_now env), re_error := None,
        re_storageKey := Some (reportKey tenantId reportId), re_rowCount := Some n, re_sizeBytes := Some (length (BOM @ utf8 content)),
        re_completedAt := Some (env_now env)\<rparr>)"
    using r ids by (simp add: findReport_def reports updateReport_def find_updateMany n)
  ultimately show ?thesis using r rows n upload_then_stream [OF upload]
    by (intro exI [of _ r] exI [of _ rows] exI [of _ content] exI [of _ "reportKey tenantId reportId"]) (simp add: MAX_ROWS_def)
qed

section \<open>A small business with reports\<close>

definition demoReports :: report_world where
  "demoReports = \<lparr>rw_storage = demoStorage, rw_queue = True, rw_addError = None, rw_cacheUp = False, rw_retentionDays = 30,
     rw_appUrl = ''https://app'', rw_parseDate = (\<lambda>_. 0), rw_customerCreatedAt = (\<lambda>_. 5), rw_inventoryId = iv_warehouseId,
     rw_unlink = (\<lambda>key. if key = ''tenants/t-1/reports/b.csv'' then Some (JsError ''EPERM'') else None)\<rparr>"

definition demoReport :: "string \<Rightarrow> int \<Rightarrow> report_row" where
  "demoReport i created = \<lparr>re_id = i, re_tenantId = ''t-1'', re_requestedBy = None, re_scheduleId = None, re_type = R_CUSTOMERS,
     re_status = R_COMPLETED, re_filters = JObj [], re_storageKey = Some (reportKey ''t-1'' i), re_rowCount = Some 0, re_sizeBytes = Some 3,
     re_error = None, re_startedAt = None, re_completedAt = None, re_createdAt = created\<rparr>"

definition reportShop :: report_db where
  "reportShop = \<lparr>rd_db = emptyDb\<lparr>customers := [demoCustomer\<lparr>cu_tenantId := ''t-1'', cu_firstName := ''=A,'', cu_phone := Some ''+91''\<rparr>]\<rparr>,
     rd_disk = [(''/srv/storage/tenants/t-1/reports/a.csv'', BOM), (''/srv/storage/tenants/t-1/reports/b.csv'', BOM),
       (''/srv/storage/tenants/t-1/reports/c.csv'', BOM)],
     rd_reports = [demoReport ''c'' (40 * DAY_MS), demoReport ''b'' 7, demoReport ''a'' 9,
       (demoReport ''d'' (40 * DAY_MS))\<lparr>re_status := R_PENDING, re_storageKey := None\<rparr>],
     rd_schedules = [], rd_jobs = []\<rparr>"

lemma prune_deletes_expired_witness:
  "\<exists>result x'. pruneReports demoReports (41 * DAY_MS) None reportShop = (Inr result, x')
     \<and> map re_id (rd_reports x') = [''c'', ''b'', ''d'']
     \<and> map fst (rd_disk x') = [''/srv/storage/tenants/t-1/reports/b.csv'', ''/srv/storage/tenants/t-1/reports/c.csv'']
     \<and> pn_deleted result = 1 \<and> pn_failed result = 1"
proof -
  let ?cutoff = "41 * DAY_MS - rw_retentionDays demoReports * DAY_MS"
  have kept: "rw_retentionDays demoReports \<noteq> 0" and ids: "distinct (map re_id (rd_reports reportShop))"
    and files: "list_all (\<lambda>r. pastRetention ?cutoff None r \<longrightarrow> keyNamesFile demoReports (rd_disk reportShop) r) (rd_reports reportShop)"
    by code_simp+
  have old: "map re_id (filter (\<lambda>r. \<not> (pastRetention ?cutoff None r \<and> \<not> stuckFile demoReports r)) (rd_reports reportShop)) = [''c'', ''b'', ''d'']"
    "map fst (filter (\<lambda>f. \<not> (\<exists>r \<in> set (rd_reports reportShop). pastRetention ?cutoff None r \<and> \<not> stuckFile demoReports r
        \<and> reportPath demoReports r = Some (fst f))) (rd_disk reportShop))
      = [''/srv/storage/tenants/t-1/reports/b.csv'', ''/srv/storage/tenants/t-1/reports/c.csv'']"
    "countWhere (\<lambda>r. pastRetention ?cutoff None r \<and> stuckFile demoReports r) (rd_reports reportShop) = 1"
    "length (rd_reports reportShop) = 4"
    by code_simp+
  from prune_deletes_expired [OF kept refl ids files] obtain result x' where
    run: "pruneReports demoReports (41 * DAY_MS) None reportShop = (Inr result, x')"
    and rest: "map re_id (rd_reports x') = [''c'', ''b'', ''d'']"
      "map fst (rd_disk x') = [''/srv/storage/tenants/t-1/reports/b.csv'', ''/srv/storage/tenants/t-1/reports/c.csv'']"
      "pn_deleted result + length (rd_reports x') = 4" "pn_failed result = 1" using old by auto
  from rest(1) have "length (rd_reports x') = 3" by (metis length_map list.size(3,4) One_nat_def add_Suc_right add_0_right numeral_3_eq_3)
  with run rest show ?thesis by auto
qed

lemma generated_report_reads_back_witness:
  "\<exists>x' content. generate demoEnv demoReports ''t-1'' ''d'' reportShop = (Inr (Generated 1), x')
     \<and> (\<exists>key. getFileStream demoStorage key (rd_disk x') = (Inr (Some (Content (BOM @ utf8 content))), rd_disk x'))
     \<and> readCsv content = [reportHeader R_CUSTOMERS,
         [''c'', ''a@b.in'', CHR 0x27 # ''=A,'', ''B'', CHR 0x27 # ''+91'', ''now'', ''0'', ''0.00'']]"
proof -
  let ?run = "generate demoEnv demoReports ''t-1'' ''d'' reportShop"
  have "fst ?run = Inr (Generated 1)" by code_simp
  then obtain x' where run: "?run = (Inr (Generated 1), x')" by (metis prod.collapse)
  define d where "d = (demoReport ''d'' (40 * DAY_MS))\<lparr>re_status := R_PENDING, re_storageKey := None\<rparr>"
  have found: "findReport ''t-1'' ''d'' reportShop = Some d" unfolding d_def by code_simp
  have rows: "map (map (\<lambda>v. guardText (csvText demoEnv v))) (reportRows demoReports R_CUSTOMERS ''t-1'' (JObj []) (rd_db reportShop))
      = [[''c'', ''a@b.in'', CHR 0x27 # ''=A,'', ''B'', CHR 0x27 # ''+91'', ''now'', ''0'', ''0.00'']]" by code_simp
  from generated_report_reads_back [OF run] obtain content key where
    stream: "getFileStream demoStorage key (rd_disk x') = (Inr (Some (Content (BOM @ utf8 content))), rd_disk x')"
    and cells: "readCsv content = reportHeader (re_type d) #
        map (map (\<lambda>v. guardText (csvText demoEnv v))) (reportRows demoReports (re_type d) ''t-1'' (re_filters d) (rd_db reportShop))"
    using found by (auto simp: demoReports_def)
  have "re_type d = R_CUSTOMERS" "re_filters d = JObj []" by (simp_all add: d_def demoReport_def)
  with run stream cells rows show ?thesis by (metis)
qed

end
