(* ===== verification/ReportSchedules.thy ===== *)
theory ReportSchedules
  imports Reports
begin

text \<open>
  Schedules of reports (src/src/modules/reports/report-schedules.service.js): a schedule requests its report again for every day,
  week or month that has ended. The hourly ticks of several workers and the edits of the users are steps that overlap
  (\<open>tickStep\<close>): a tick reads the schedules once and then claims their periods one after the other.
\<close>

section \<open>Periods\<close>

text \<open>UTC days are counted from 1 January 1970, a Thursday; \<open>day\<close> is \<open>toISOString().slice(0, 10)\<close>.\<close>

record period =
  pd_key :: string
  pd_from :: string
  pd_to :: string

definition isoDay :: "env \<Rightarrow> int \<Rightarrow> string" where
  "isoDay env d = take 10 (env_iso env (d * DAY_MS))"

definition latestCompletedPeriod :: "env \<Rightarrow> report_frequency \<Rightarrow> int \<Rightarrow> period" where
  "latestCompletedPeriod env frequency now =
     (let today = now div DAY_MS in
      case frequency of
        F_DAILY \<Rightarrow> let d = isoDay env (today - 1) in \<lparr>pd_key = d, pd_from = d, pd_to = d\<rparr>
      | F_WEEKLY \<Rightarrow>
          let weekday = (today + 4) mod 7; sinceMonday = (weekday + 6) mod 7; monday = today - sinceMonday - 7
          in \<lparr>pd_key = ''week-of-'' @ isoDay env monday, pd_from = isoDay env monday, pd_to = isoDay env (monday + 6)\<rparr>
      | F_MONTHLY \<Rightarrow>
          let lastDay = today - dayOfMonth0 today - 1; firstDay = lastDay - dayOfMonth0 lastDay
          in \<lparr>pd_key = take 7 (isoDay env firstDay), pd_from = isoDay env firstDay, pd_to = isoDay env lastDay\<rparr>)"

definition periodKey :: "env \<Rightarrow> report_frequency \<Rightarrow> string" where
  "periodKey env frequency = pd_key (latestCompletedPeriod env frequency (env_now env))"

section \<open>Editing schedules\<close>

abbreviation scheduleNotFound :: error where
  "scheduleNotFound \<equiv> AppError 404 ''REPORT_SCHEDULE_NOT_FOUND''"

definition jsMs :: "int option \<Rightarrow> jsval" where
  "jsMs t = (case t of None \<Rightarrow> JNull | Some d \<Rightarrow> JDate d)"

definition toSchedule :: "schedule_row \<Rightarrow> jsval" where
  "toSchedule sd = JObj
     [(''id'', JStr (sd_id sd)), (''name'', JStr (sd_name sd)), (''type'', JStr (report_type_str (sd_type sd))),
      (''frequency'', JStr (frequency_str (sd_frequency sd))), (''filters'', sd_filters sd),
      (''recipientUserIds'', JArr (map JStr (sd_recipientUserIds sd))), (''enabled'', JBool (sd_enabled sd)),
      (''createdBy'', jsOfOpt (sd_createdBy sd)), (''lastPeriod'', jsOfOpt (sd_lastPeriod sd)), (''lastRunAt'', jsMs (sd_lastRunAt sd)),
      (''lastReportId'', jsOfOpt (sd_lastReportId sd)), (''lastError'', jsOfOpt (sd_lastError sd)), (''createdAt'', JDate (sd_createdAt sd))]"

definition assertRecipients :: "string \<Rightarrow> string list \<Rightarrow> unit reportio" where
  "assertRecipients tenantId userIds =
     bindH (readH (\<lambda>w. activeStaff tenantId userIds (rd_db w))) (\<lambda>found.
     throwIfH (list_ex (\<lambda>i. i \<notin> us_id ` set found) userIds) (AppError 400 ''INVALID_RECIPIENTS''))"

definition logSchedule :: "env \<Rightarrow> audit_context \<Rightarrow> req_context \<Rightarrow> string \<Rightarrow> string \<Rightarrow> jsval \<Rightarrow> jsval \<Rightarrow> unit reportio" where
  "logSchedule env client c action i before after =
     inDb (transaction (logAudit env (client\<lparr>cx_userId := Some (rc_userId c)\<rparr>) (rc_tenantId c) action ''report_schedule'' (Some i) before after))"

text \<open>\<open>prisma.reportSchedule.update({ where: { id } })\<close>.\<close>

definition updateScheduleRow :: "string \<Rightarrow> (schedule_row \<Rightarrow> schedule_row) \<Rightarrow> schedule_row reportio" where
  "updateScheduleRow i f =
     thenH (writeH (updateSchedule i f))
    (bindH (readH (\<lambda>w. find (\<lambda>sd. sd_id sd = i) (rd_schedules w))) (\<lambda>row. orThrowH row recordNotFound))"

record new_schedule =
  ns_name :: string
  ns_type :: report_type
  ns_frequency :: report_frequency
  ns_filters :: jsval
  ns_recipientUserIds :: "string list option"
  ns_enabled :: bool

text \<open>\<open>[...new Set(ids)]\<close> keeps the first of equal ids.\<close>

definition uniqueIds :: "string list \<Rightarrow> string list" where
  "uniqueIds ids = rev (remdups (rev ids))"

definition createSchedule :: "env \<Rightarrow> report_world \<Rightarrow> req_context \<Rightarrow> audit_context \<Rightarrow> new_schedule \<Rightarrow> schedule_row reportio" where
  "createSchedule env rw c client x =
     thenH (assertCanRead rw (ns_type x) c)
    (let recipients = uniqueIds (case ns_recipientUserIds x of Some (i # ids) \<Rightarrow> i # ids | _ \<Rightarrow> [rc_userId c]) in
     thenH (assertRecipients (rc_tenantId c) recipients)
    (bindH (inDb (transaction (freshId env))) (\<lambda>i.
     let sd = \<lparr>sd_id = i, sd_tenantId = rc_tenantId c, sd_createdBy = Some (rc_userId c), sd_name = ns_name x, sd_type = ns_type x,
          sd_frequency = ns_frequency x, sd_filters = ns_filters x, sd_recipientUserIds = recipients, sd_enabled = ns_enabled x,
          sd_lastPeriod = Some (periodKey env (ns_frequency x)), sd_lastRunAt = None, sd_lastReportId = None, sd_lastError = None,
          sd_createdAt = env_now env\<rparr>
     in thenH (writeH (\<lambda>w. w\<lparr>rd_schedules := rd_schedules w @ [sd]\<rparr>))
       (thenH (logSchedule env client c ''CREATE'' i JNull (toSchedule sd)) (returnH sd)))))"

definition findSchedule :: "string \<Rightarrow> string \<Rightarrow> report_db \<Rightarrow> schedule_row option" where
  "findSchedule tenantId i w = find (\<lambda>sd. sd_id sd = i \<and> sd_tenantId sd = tenantId) (rd_schedules w)"

definition getSchedule :: "string \<Rightarrow> string \<Rightarrow> schedule_row reportio" where
  "getSchedule tenantId i = bindH (readH (findSchedule tenantId i)) (\<lambda>sd. orThrowH sd scheduleNotFound)"

record schedule_changes =
  sg_name :: "string option"
  sg_frequency :: "report_frequency option"
  sg_filters :: "jsval option"
  sg_recipientUserIds :: "string list option"
  sg_enabled :: "bool option"

text \<open>The columns an update writes: a new frequency and switching back on both resume from the latest completed period.\<close>

definition applyChanges :: "env \<Rightarrow> schedule_changes \<Rightarrow> schedule_row \<Rightarrow> schedule_row \<Rightarrow> schedule_row" where
  "applyChanges env g before sd =
     (let sd1 = (case sg_name g of None \<Rightarrow> sd | Some n \<Rightarrow> sd\<lparr>sd_name := n\<rparr>);
          sd2 = (case sg_filters g of None \<Rightarrow> sd1 | Some fs \<Rightarrow> sd1\<lparr>sd_filters := fs\<rparr>);
          sd3 = (case sg_recipientUserIds g of None \<Rightarrow> sd2 | Some ids \<Rightarrow> sd2\<lparr>sd_recipientUserIds := uniqueIds ids\<rparr>);
          sd4 = (case sg_enabled g of None \<Rightarrow> sd3 | Some b \<Rightarrow>
             let y = sd3\<lparr>sd_enabled := b\<rparr> in if b then y\<lparr>sd_lastError := None\<rparr> else y);
          sd5 = (case sg_frequency g of None \<Rightarrow> sd4 | Some f \<Rightarrow>
             if f = sd_frequency before then sd4 else sd4\<lparr>sd_frequency := f, sd_lastPeriod := Some (periodKey env f)\<rparr>);
          frequency = (case sg_frequency g of None \<Rightarrow> sd_frequency before | Some f \<Rightarrow> f)
      in if sg_enabled g = Some True \<and> \<not> sd_enabled before then sd5\<lparr>sd_lastPeriod := Some (periodKey env frequency)\<rparr> else sd5)"

definition objectKeys :: "jsval \<Rightarrow> string list" where
  "objectKeys v = (case v of JObj kvs \<Rightarrow> map fst kvs | _ \<Rightarrow> [])"

definition updateScheduleById ::
  "env \<Rightarrow> report_world \<Rightarrow> req_context \<Rightarrow> audit_context \<Rightarrow> string \<Rightarrow> schedule_changes \<Rightarrow> schedule_row reportio" where
  "updateScheduleById env rw c client i g =
     bindH (getSchedule (rc_tenantId c) i) (\<lambda>before.
     thenH (assertCanRead rw (sd_type before) c)
    (thenH (case sg_recipientUserIds g of None \<Rightarrow> returnH () | Some ids \<Rightarrow> assertRecipients (rc_tenantId c) ids)
    (thenH (case sg_filters g of None \<Rightarrow> returnH () | Some fs \<Rightarrow>
        throwIfH (list_ex (\<lambda>k. k \<notin> set (reportFilters (sd_type before))) (objectKeys fs)) (AppError 400 ''VALIDATION_ERROR''))
    (bindH (updateScheduleRow i (applyChanges env g before)) (\<lambda>updated.
     thenH (logSchedule env client c ''UPDATE'' i (toSchedule before) (toSchedule updated)) (returnH updated))))))"

definition removeSchedule :: "env \<Rightarrow> req_context \<Rightarrow> audit_context \<Rightarrow> string \<Rightarrow> unit reportio" where
  "removeSchedule env c client i =
     bindH (getSchedule (rc_tenantId c) i) (\<lambda>before.
     thenH (writeH (\<lambda>w. w\<lparr>rd_schedules := deleteMany (\<lambda>sd. sd_id sd = i) (rd_schedules w),
        rd_reports := updateMany (\<lambda>r. re_scheduleId r = Some i) (\<lambda>r. r\<lparr>re_scheduleId := None\<rparr>) (rd_reports w)\<rparr>))
       (logSchedule env client c ''DELETE'' i (toSchedule before) JNull))"

section \<open>The tick\<close>

datatype run_result = Paused string | Ran string string string

definition pauseSchedule :: "string \<Rightarrow> string \<Rightarrow> run_result reportio" where
  "pauseSchedule i reason =
     thenH (updateScheduleRow i (\<lambda>sd. sd\<lparr>sd_enabled := False, sd_lastError := Some reason\<rparr>)) (returnH (Paused i))"

definition runFilters :: "report_type \<Rightarrow> period \<Rightarrow> jsval \<Rightarrow> jsval" where
  "runFilters t p filters =
     JObj (filter (\<lambda>(k, _). k \<in> set (reportFilters t) \<and> k \<noteq> ''from'' \<and> k \<noteq> ''to'') (case filters of JObj kvs \<Rightarrow> kvs | _ \<Rightarrow> [])
       @ (if ''from'' \<in> set (reportFilters t) then [(''from'', JStr (pd_from p)), (''to'', JStr (pd_to p))] else []))"

definition creatorContext :: "schedule_row \<Rightarrow> string \<Rightarrow> req_context" where
  "creatorContext sd userId = \<lparr>rc_userId = userId, rc_tenantId = sd_tenantId sd, rc_sessionId = [], rc_email = [],
     rc_scope = ''tenant'', rc_support = None\<rparr>"

definition noAudit :: audit_context where
  "noAudit = \<lparr>cx_userId = None, cx_ipAddress = None, cx_userAgent = None\<rparr>"

text \<open>\<open>err.message?.slice(0, 500) || 'Report request failed'\<close>; a code stands for the message of an \<open>AppError\<close>.\<close>

definition failureText :: "error \<Rightarrow> string" where
  "failureText e = (let m = take 500 (case e of AppError _ c \<Rightarrow> c | IntegrationError _ c \<Rightarrow> c | DbError _ _ t \<Rightarrow> t | JsError t \<Rightarrow> t)
     in if m = [] then ''Report request failed'' else m)"

definition requestScheduled :: "env \<Rightarrow> report_world \<Rightarrow> schedule_row \<Rightarrow> period \<Rightarrow> string \<Rightarrow> run_result reportio" where
  "requestScheduled env rw sd p userId =
     catchH
      (bindH (requestReport env rw (creatorContext sd userId) noAudit (sd_type sd) (runFilters (sd_type sd) p (sd_filters sd)) (Some (sd_id sd))) (\<lambda>(report, _).
       thenH (updateScheduleRow (sd_id sd) (\<lambda>y. y\<lparr>sd_lastReportId := Some (re_id report), sd_lastError := None\<rparr>))
         (returnH (Ran (sd_id sd) (re_id report) (pd_key p)))))
      (\<lambda>e. case e of
          AppError code _ \<Rightarrow>
            if code = 403 then pauseSchedule (sd_id sd) (''The creator can no longer read '' @ report_type_str (sd_type sd) @ '' data'')
            else thenH (updateScheduleRow (sd_id sd) (\<lambda>y. y\<lparr>sd_lastError := Some (failureText e)\<rparr>)) (throwH e)
        | _ \<Rightarrow> thenH (updateScheduleRow (sd_id sd) (\<lambda>y. y\<lparr>sd_lastError := Some (failureText e)\<rparr>)) (throwH e))"

definition runOne :: "env \<Rightarrow> report_world \<Rightarrow> schedule_row \<Rightarrow> period \<Rightarrow> run_result reportio" where
  "runOne env rw sd p =
     (let gone = pauseSchedule (sd_id sd) ''The user who created this schedule is no longer active; edit and re-enable it to continue'' in
      case nonEmpty (sd_createdBy sd) of
        None \<Rightarrow> gone
      | Some userId \<Rightarrow>
          bindH (readH (\<lambda>w. activeStaff (sd_tenantId sd) [userId] (rd_db w))) (\<lambda>staff.
          if staff = [] then gone else requestScheduled env rw sd p userId))"

text \<open>The conditional update of one period, and whether it counted one row; \<open>sd\<close> is the row as the tick read it.\<close>

definition claimPeriod :: "int \<Rightarrow> string \<Rightarrow> schedule_row \<Rightarrow> schedule_row list \<Rightarrow> bool \<times> schedule_row list" where
  "claimPeriod now key sd rows =
     (let P = (\<lambda>y. sd_id y = sd_id sd \<and> sd_enabled y \<and> sd_lastPeriod y = sd_lastPeriod sd)
      in (countWhere P rows = 1, updateMany P (\<lambda>y. y\<lparr>sd_lastPeriod := Some key, sd_lastRunAt := Some now\<rparr>) rows))"

definition dueSchedules :: "report_db \<Rightarrow> schedule_row list" where
  "dueSchedules w = sort_key sd_id (filter (\<lambda>sd. sd_enabled sd
     \<and> list_ex (\<lambda>t. tn_id t = sd_tenantId sd \<and> tn_status t \<in> {T_ACTIVE, T_TRIAL}) (tenants (rd_db w))) (rd_schedules w))"

fun runSchedules :: "env \<Rightarrow> report_world \<Rightarrow> schedule_row list \<Rightarrow> run_result list reportio" where
  "runSchedules env rw [] = returnH []"
| "runSchedules env rw (sd # rest) =
     (let p = latestCompletedPeriod env (sd_frequency sd) (env_now env) in
      if sd_lastPeriod sd = Some (pd_key p) then runSchedules env rw rest
      else bindH (readH (\<lambda>w. claimPeriod (env_now env) (pd_key p) sd (rd_schedules w))) (\<lambda>(claimed, rows).
        thenH (writeH (\<lambda>w. w\<lparr>rd_schedules := rows\<rparr>))
       (if \<not> claimed then runSchedules env rw rest
        else bindH (runOne env rw sd p) (\<lambda>r. bindH (runSchedules env rw rest) (\<lambda>rs. returnH (r # rs))))))"

definition runDue :: "env \<Rightarrow> report_world \<Rightarrow> (nat \<times> run_result list) reportio" where
  "runDue env rw =
     bindH (readH dueSchedules) (\<lambda>due. bindH (runSchedules env rw due) (\<lambda>rs. returnH (length due, rs)))"

section \<open>Frames\<close>

text \<open>What the claims look at: the id, the frequency and the last period of each schedule, and the schedule of each report.\<close>

type_synonym stamp_of = "string \<times> report_frequency \<times> string option"

definition stamp :: "schedule_row \<Rightarrow> stamp_of" where
  "stamp sd = (sd_id sd, sd_frequency sd, sd_lastPeriod sd)"

definition stamped :: "stamp_of list \<Rightarrow> string option list \<Rightarrow> report_db \<Rightarrow> bool" where
  "stamped S R w \<longleftrightarrow> map stamp (rd_schedules w) = S \<and> map re_scheduleId (rd_reports w) = R"

lemma keeps_run: "keepsH I m \<Longrightarrow> m s = (r, s') \<Longrightarrow> I s \<Longrightarrow> I s'"
  by (force simp: keepsH_def)

lemma keeps_inDb [keeps]: "(\<And>w s. I w \<Longrightarrow> I (w\<lparr>rd_db := s\<rparr>)) \<Longrightarrow> keepsH I (inDb m)"
  by (auto simp: keepsH_def inDb_def split: prod.splits)

lemma keeps_onDisk [keeps]: "(\<And>w d. I w \<Longrightarrow> I (w\<lparr>rd_disk := d\<rparr>)) \<Longrightarrow> keepsH I (onDisk m)"
  by (auto simp: keepsH_def onDisk_def split: prod.splits)

lemma keeps_forH [keeps]: "(\<And>x. keepsH I (f x)) \<Longrightarrow> keepsH I (forH xs f)"
  by (induction xs) (simp_all add: keeps)

lemma stamped_simps [simp]:
  "stamped S R (w\<lparr>rd_db := s\<rparr>) = stamped S R w" "stamped S R (w\<lparr>rd_disk := d\<rparr>) = stamped S R w"
  "stamped S R (w\<lparr>rd_jobs := j\<rparr>) = stamped S R w"
  by (simp_all add: stamped_def)

lemma stamped_updateReport [simp]:
  "(\<And>r. re_scheduleId (f r) = re_scheduleId r) \<Longrightarrow> stamped S R (updateReport i f w) = stamped S R w"
  by (simp add: stamped_def updateReport_def map_updateMany)

lemma stamped_updateSchedule [simp]:
  "(\<And>sd. stamp (f sd) = stamp sd) \<Longrightarrow> stamped S R (updateSchedule i f w) = stamped S R w"
  by (simp add: stamped_def updateSchedule_def map_updateMany)

lemma updateScheduleRow_keeps [keeps]: "(\<And>sd. stamp (f sd) = stamp sd) \<Longrightarrow> keepsH (stamped S R) (updateScheduleRow i f)"
  unfolding updateScheduleRow_def by (intro keeps keepsH_writeH) simp

lemma notifyRecipients_keeps [keeps]: "keepsH (stamped S R) (notifyRecipients env rw r)"
proof -
  have "keepsH (stamped S R) (case x of None \<Rightarrow> returnH () | Some sd \<Rightarrow> m sd)"
    if "\<And>sd. keepsH (stamped S R) (m sd)" for x :: "schedule_row option" and m
    using that by (cases x) (simp_all add: keeps)
  then show ?thesis unfolding notifyRecipients_def by (intro keeps) simp_all
qed

lemma buildReport_keeps [keeps]: "keepsH (stamped S R) (buildReport env rw r)"
  unfolding buildReport_def Let_def case_prod_beta
  by (intro keeps keepsH_writeH) simp_all

lemma generate_keeps [keeps]: "keepsH (stamped S R) (generate env rw tenantId i)"
proof -
  have "keepsH (stamped S R) (case x of None \<Rightarrow> returnH (Skipped a) | Some r \<Rightarrow> m r)"
    if "\<And>r. keepsH (stamped S R) (m r)" for x :: "report_row option" and m a
    using that by (cases x) (simp_all add: keeps)
  then show ?thesis unfolding generate_def by (intro keeps keepsH_writeH) simp_all
qed

lemma enqueueReport_keeps [keeps]: "keepsH (stamped S R) (enqueueReport env rw tenantId i)"
proof -
  have "keepsH (stamped S R) (case rw_addError rw of Some e \<Rightarrow> throwIfH (\<not> duplicateJob e) e | None \<Rightarrow> m)"
    if "keepsH (stamped S R) m" for m using that by (cases "rw_addError rw") (simp_all add: keeps)
  then show ?thesis unfolding enqueueReport_def processGenerateReport_def Let_def by (intro keeps keepsH_writeH) simp_all
qed

lemma assertCanRead_keeps [keeps]: "keepsH (stamped S R) (assertCanRead rw t c)"
  unfolding assertCanRead_def by (intro keeps) simp_all

lemma createReport_stamped:
  "createReport env c client t filters sid w = Inr (i, w') \<Longrightarrow> stamped S R w \<Longrightarrow> stamped S (R @ [sid]) w'"
  by (auto simp: createReport_def outcome stamped_def newReport_def)

text \<open>A request adds one report of its schedule, or none.\<close>

lemma requestReport_stamped:
  assumes "requestReport env rw c client t filters sid w = (q, w')" and "stamped S R w"
  shows "stamped S R w' \<or> stamped S (R @ [sid]) w'"
proof -
  have "stamped S R w1" if "assertCanRead rw t c w = (p, w1)" for p w1 using assertCanRead_keeps that assms(2) by (rule keeps_run)
  moreover have "stamped S (R @ [sid]) w2" if "enqueueReport env rw tn i w1 = (p, w2)" "stamped S (R @ [sid]) w1" for tn i w1 w2 p
    using enqueueReport_keeps that by (rule keeps_run)
  ultimately show ?thesis using assms
    by (cases q) (auto simp: requestReport_def outcome transaction_Inl transaction_Inr dest!: createReport_stamped)
qed

lemma runOne_stamped:
  assumes "runOne env rw sd p w = (q, w')" and "stamped S R w"
  shows "stamped S R w' \<or> stamped S (R @ [Some (sd_id sd)]) w'"
proof -
  have pause: "keepsH (stamped S R) (pauseSchedule i reason)" for i reason S R
    unfolding pauseSchedule_def by (intro keeps) (simp_all add: stamp_def)
  have failed: "keepsH (stamped S R) (thenH (updateScheduleRow i (\<lambda>y. y\<lparr>sd_lastError := e\<rparr>)) (throwH x :: run_result reportio))" for i e x S R
    by (intro keeps) (simp_all add: stamp_def)
  have handler: "keepsH (stamped S R) (case e of
          AppError code _ \<Rightarrow>
            if code = 403 then pauseSchedule (sd_id sd) (''The creator can no longer read '' @ report_type_str (sd_type sd) @ '' data'')
            else thenH (updateScheduleRow (sd_id sd) (\<lambda>y. y\<lparr>sd_lastError := Some (failureText e)\<rparr>)) (throwH e)
        | _ \<Rightarrow> thenH (updateScheduleRow (sd_id sd) (\<lambda>y. y\<lparr>sd_lastError := Some (failureText e)\<rparr>)) (throwH e))" for e S R
    by (cases e) (simp_all add: pause failed)
  have stored: "keepsH (stamped S R) (thenH (updateScheduleRow (sd_id sd) (\<lambda>y. y\<lparr>sd_lastReportId := a, sd_lastError := b\<rparr>)) (returnH z))" for a b S R
    and z :: run_result by (intro keeps) (simp_all add: stamp_def)
  have ran: "stamped S R w' \<or> stamped S (R @ [Some (sd_id sd)]) w'" if "requestScheduled env rw sd p u w = (q, w')" for u
  proof -
    let ?request = "requestReport env rw (creatorContext sd u) noAudit (sd_type sd) (runFilters (sd_type sd) p (sd_filters sd)) (Some (sd_id sd))"
    obtain v w1 where req: "?request w = (v, w1)" by (cases "?request w")
    from requestReport_stamped [OF this assms(2)] obtain R' where R': "R' = R \<or> R' = R @ [Some (sd_id sd)]" "stamped S R' w1" by blast
    let ?handler = "\<lambda>e. case e of
          AppError code _ \<Rightarrow>
            if code = 403 then pauseSchedule (sd_id sd) (''The creator can no longer read '' @ report_type_str (sd_type sd) @ '' data'')
            else thenH (updateScheduleRow (sd_id sd) (\<lambda>y. y\<lparr>sd_lastError := Some (failureText e)\<rparr>)) (throwH e)
        | _ \<Rightarrow> thenH (updateScheduleRow (sd_id sd) (\<lambda>y. y\<lparr>sd_lastError := Some (failureText e)\<rparr>)) (throwH e)"
      and ?store = "\<lambda>report. thenH (updateScheduleRow (sd_id sd) (\<lambda>y. y\<lparr>sd_lastReportId := Some (re_id report), sd_lastError := None\<rparr>))
         (returnH (Ran (sd_id sd) (re_id report) (pd_key p)))"
    have "(q, w') = (case v of Inl e \<Rightarrow> ?handler e w1 | Inr z \<Rightarrow> catchH (?store (fst z)) ?handler w1)"
      unfolding that [symmetric] requestScheduled_def catchH_def bindH_def req by (cases v) (simp_all add: case_prod_beta)
    then have "stamped S R' w'"
    proof (cases v)
      case (Inl e)
      with \<open>(q, w') = _\<close> have "?handler e w1 = (q, w')" by simp
      then show ?thesis by (rule keeps_run [OF handler _ R'(2)])
    next
      case (Inr z)
      have "keepsH (stamped S R') (catchH (?store (fst z)) ?handler)" by (intro keepsH_catchH stored handler)
      moreover from Inr \<open>(q, w') = _\<close> have "catchH (?store (fst z)) ?handler w1 = (q, w')" by simp
      ultimately show ?thesis using R'(2) by (rule keeps_run)
    qed
    then show ?thesis using R'(1) by blast
  qed
  show ?thesis
    using assms keeps_run [OF pause] ran
    by (auto simp: runOne_def Let_def bindH_def readH_def split: option.splits if_splits)
qed

lemma split_row:
  assumes "distinct (map sd_id rows)" "y \<in> set rows" "P y" "\<And>r. P r \<Longrightarrow> sd_id r = sd_id y"
  obtains r1 r2 where "rows = r1 @ y # r2" "updateMany P f rows = r1 @ f y # r2" "countWhere P rows = 1"
proof -
  obtain r1 r2 where rows: "rows = r1 @ y # r2" using assms(2) by (auto simp: in_set_conv_decomp)
  have "\<not> P r" if "r \<in> set (r1 @ r2)" for r
  proof -
    have "sd_id r \<in> sd_id ` (set r1 \<union> set r2)" using that by auto
    moreover have "sd_id y \<notin> sd_id ` (set r1 \<union> set r2)" using assms(1) unfolding rows by auto
    ultimately have "sd_id r \<noteq> sd_id y" by metis
    then show ?thesis using assms(4) by blast
  qed
  then have "updateMany P f r1 = r1" "updateMany P f r2 = r2" "filter P r1 = []" "filter P r2 = []"
    by (auto intro: updateMany_none simp: filter_empty_conv)
  then show thesis using that rows assms(3) by (simp add: countWhere_def)
qed

section \<open>A period is requested once\<close>

text \<open>
  The steps of the ticks and of the users, all within one period of every frequency (\<open>K\<close> gives the keys). \<open>held\<close> are the rows
  some tick has read; a row stays there, so that a slow tick may claim with it at any later time. \<open>owed\<close> are the periods that a
  tick has claimed and not run yet.
\<close>

type_synonym owing = "(schedule_row \<times> period) list"
type_synonym tick_state = "report_db \<times> schedule_row list \<times> owing"

inductive tickStep :: "(report_frequency \<Rightarrow> string) \<Rightarrow> report_world \<Rightarrow> tick_state \<Rightarrow> tick_state \<Rightarrow> bool"
  for K rw where
  tick_reads: "tickStep K rw (w, held, owed) (w, held @ dueSchedules w, owed)"
| tick_claims: "sd \<in> set held \<Longrightarrow> periodKey env = K \<Longrightarrow> p = latestCompletedPeriod env (sd_frequency sd) (env_now env) \<Longrightarrow>
     sd_lastPeriod sd \<noteq> Some (pd_key p) \<Longrightarrow> claimPeriod (env_now env) (pd_key p) sd (rd_schedules w) = (True, rows) \<Longrightarrow>
     tickStep K rw (w, held, owed) (w\<lparr>rd_schedules := rows\<rparr>, held, owed @ [(sd, p)])"
| tick_loses: "sd \<in> set held \<Longrightarrow> periodKey env = K \<Longrightarrow> p = latestCompletedPeriod env (sd_frequency sd) (env_now env) \<Longrightarrow>
     sd_lastPeriod sd \<noteq> Some (pd_key p) \<Longrightarrow> claimPeriod (env_now env) (pd_key p) sd (rd_schedules w) = (False, rows) \<Longrightarrow>
     tickStep K rw (w, held, owed) (w\<lparr>rd_schedules := rows\<rparr>, held, owed)"
| tick_runs: "runOne env rw sd p w = (q, w') \<Longrightarrow> tickStep K rw (w, held, o1 @ (sd, p) # o2) (w', held, o1 @ o2)"
| user_creates: "periodKey env = K \<Longrightarrow> env_uuid env (drawn (rd_db w)) \<notin> sd_id ` (set (rd_schedules w) \<union> set held) \<Longrightarrow>
     createSchedule env rw c client x w = (r, w') \<Longrightarrow> tickStep K rw (w, held, owed) (w', held, owed)"
| user_updates: "periodKey env = K \<Longrightarrow> updateScheduleById env rw c client i g w = (r, w') \<Longrightarrow> tickStep K rw (w, held, owed) (w', held, owed)"
| user_removes: "removeSchedule env c client i w = (u, w') \<Longrightarrow> tickStep K rw (w, held, owed) (w', held, owed)"
| user_requests: "requestReport env rw c client t filters None w = (v, w') \<Longrightarrow> tickStep K rw (w, held, owed) (w', held, owed)"
| worker_generates: "generate env rw tenantId reportId w = (g, w') \<Longrightarrow> tickStep K rw (w, held, owed) (w', held, owed)"

abbreviation inPeriod :: "(report_frequency \<Rightarrow> string) \<Rightarrow> string option \<Rightarrow> bool" where
  "inPeriod K l \<equiv> \<exists>g. l = Some (K g)"

text \<open>The invariant, for a schedule \<open>i\<close> with \<open>n\<close> reports at the start.\<close>

definition ownPeriods :: "(report_frequency \<Rightarrow> string) \<Rightarrow> stamp_of set \<Rightarrow> bool" where
  "ownPeriods K X \<longleftrightarrow> (\<forall>(j, f, l) \<in> X. \<forall>g. l = Some (K g) \<longrightarrow> g = f)"

definition sameFrequency :: "(report_frequency \<Rightarrow> string) \<Rightarrow> stamp_of set \<Rightarrow> stamp_of set \<Rightarrow> bool" where
  "sameFrequency K S H \<longleftrightarrow>
     (\<forall>(j, f, l) \<in> S. \<forall>(j', f', l') \<in> H. j' = j \<longrightarrow> inPeriod K l \<or> inPeriod K l' \<or> f' = f)"

definition counted :: "(report_frequency \<Rightarrow> string) \<Rightarrow> string \<Rightarrow> nat \<Rightarrow> stamp_of set \<Rightarrow> string option list \<Rightarrow> bool" where
  "counted K i n S R \<longleftrightarrow> count_list R (Some i) \<le> Suc n
     \<and> (\<forall>(j, f, l) \<in> S. j = i \<longrightarrow> inPeriod K l \<or> count_list R (Some i) \<le> n)"

definition stampInv :: "(report_frequency \<Rightarrow> string) \<Rightarrow> string \<Rightarrow> nat \<Rightarrow> stamp_of list \<Rightarrow> stamp_of set \<Rightarrow> string option list \<Rightarrow> bool" where
  "stampInv K i n S H R \<longleftrightarrow> distinct (map fst S) \<and> ownPeriods K (set S) \<and> ownPeriods K H \<and> sameFrequency K (set S) H \<and> counted K i n (set S) R"

lemma stampInv_read:
  assumes "stampInv K i n S H R" "A \<subseteq> set S"
  shows "stampInv K i n S (H \<union> A) R"
proof -
  have key: "v = v'" if "(j, v) \<in> set S" "(j, v') \<in> set S" for j v v'
    using assms(1) that by (auto simp: stampInv_def dest: eq_key_imp_eq_value)
  have "f' = f" if "(j, f, l) \<in> set S" "(j, f', l') \<in> A" for j f l f' l' using key that assms(2) by blast
  then have "sameFrequency K (set S) A" by (auto simp: sameFrequency_def)
  moreover have "ownPeriods K A" using assms unfolding stampInv_def ownPeriods_def by (meson subset_iff)
  ultimately show ?thesis using assms(1) by (auto simp: stampInv_def ownPeriods_def sameFrequency_def)
qed

lemma stampInv_fewer:
  assumes "stampInv K i n S H R" "set S' \<subseteq> set S" "distinct (map fst S')" "count_list R' (Some i) \<le> count_list R (Some i)"
  shows "stampInv K i n S' H R'"
proof -
  have "counted K i n (set S) R'" using assms(1,4) by (auto simp: stampInv_def counted_def)
  then have "counted K i n (set S') R'" using assms(2) unfolding counted_def by (meson subset_iff)
  moreover have "ownPeriods K (set S')" using assms(1,2) unfolding stampInv_def ownPeriods_def by (meson subset_iff)
  moreover have "sameFrequency K (set S') H" using assms(1,2) unfolding stampInv_def sameFrequency_def by (meson subset_iff)
  ultimately show ?thesis using assms(1,3) by (simp add: stampInv_def)
qed

lemma stampInv_settle:
  assumes "stampInv K i n (S1 @ (j, f, l) # S2) H R" "inj K"
  shows "stampInv K i n (S1 @ (j, f', Some (K f')) # S2) H R"
    and "\<not> inPeriod K l \<Longrightarrow> stampInv K i n (S1 @ (j, f', Some (K f')) # S2) H (R @ [Some j])"
proof -
  let ?S = "S1 @ (j, f, l) # S2" and ?S' = "S1 @ (j, f', Some (K f')) # S2"
  have set_S': "set ?S' = insert (j, f', Some (K f')) (set S1 \<union> set S2)" and set_S: "set ?S = insert (j, f, l) (set S1 \<union> set S2)" by auto
  have d: "distinct (map fst ?S')" and only: "j \<notin> fst ` (set S1 \<union> set S2)" using assms(1) by (auto simp: stampInv_def)
  have own: "ownPeriods K (set ?S')" using assms unfolding stampInv_def ownPeriods_def set_S set_S' by (auto dest: injD)
  have freq: "sameFrequency K (set ?S') H" using assms(1) unfolding stampInv_def sameFrequency_def set_S set_S' by auto
  have old: "counted K i n (set ?S) R" using assms(1) by (simp add: stampInv_def)
  have "counted K i n (set ?S') R" using old unfolding counted_def set_S set_S' by auto
  then show "stampInv K i n ?S' H R" using assms(1) d own freq by (simp add: stampInv_def)
  assume l: "\<not> inPeriod K l"
  have "counted K i n (set ?S') (R @ [Some j])"
  proof (cases "j = i")
    case True
    then have "count_list R (Some i) \<le> n" using old l unfolding counted_def set_S by auto
    then show ?thesis using True only unfolding counted_def set_S' by force
  next
    case False
    then show ?thesis using old unfolding counted_def set_S set_S' by auto
  qed
  then show "stampInv K i n ?S' H (R @ [Some j])" using assms(1) d own freq by (simp add: stampInv_def)
qed

lemma stampInv_new:
  assumes "stampInv K i n S H R" "inj K" "j \<notin> fst ` (set S \<union> H)"
  shows "stampInv K i n (S @ [(j, f, Some (K f))]) H R"
proof -
  have "set (S @ [(j, f, Some (K f))]) = insert (j, f, Some (K f)) (set S)" by auto
  moreover have "ownPeriods K (insert (j, f, Some (K f)) (set S))"
    using assms(1,2) unfolding stampInv_def ownPeriods_def by (auto dest: injD)
  moreover have "sameFrequency K (insert (j, f, Some (K f)) (set S)) H" using assms(1) unfolding stampInv_def sameFrequency_def by auto
  moreover have "counted K i n (insert (j, f, Some (K f)) (set S)) R" using assms(1) unfolding stampInv_def counted_def by auto
  moreover have "distinct (map fst (S @ [(j, f, Some (K f))]))" using assms(1,3) by (auto simp: stampInv_def)
  ultimately show ?thesis using assms(1) unfolding stampInv_def by metis
qed

definition owes :: "owing \<Rightarrow> string option list" where
  "owes owed = map (\<lambda>x. Some (sd_id (fst x))) owed"

definition tickInv :: "(report_frequency \<Rightarrow> string) \<Rightarrow> string \<Rightarrow> nat \<Rightarrow> tick_state \<Rightarrow> bool" where
  "tickInv K i n x \<longleftrightarrow> (case x of (w, held, owed) \<Rightarrow>
     stampInv K i n (map stamp (rd_schedules w)) (set (map stamp held)) (map re_scheduleId (rd_reports w) @ owes owed))"

lemma stamped_refl: "stamped (map stamp (rd_schedules w)) (map re_scheduleId (rd_reports w)) w"
  by (simp add: stamped_def)

lemma tickI: "stamped S R w \<Longrightarrow> stampInv K i n S (set (map stamp held)) (R @ owes owed) \<Longrightarrow> tickInv K i n (w, held, owed)"
  by (simp add: tickInv_def stamped_def)

lemma tickD: "tickInv K i n (w, held, owed) \<Longrightarrow>
    stampInv K i n (map stamp (rd_schedules w)) (set (map stamp held)) (map re_scheduleId (rd_reports w) @ owes owed)"
  by (simp add: tickInv_def)

lemma stamp_ids: "map fst (map stamp rows) = map sd_id rows"
  by (simp add: stamp_def comp_def)

lemma tickInv_ids: "tickInv K i n (w, held, owed) \<Longrightarrow> distinct (map sd_id (rd_schedules w))"
  by (drule tickD) (simp add: stampInv_def stamp_ids del: map_map)

lemma count_list_snoc: "count_list (R @ [x]) y = count_list R y + (if x = y then 1 else 0)"
  by simp

lemma reads_inv:
  assumes "tickInv K i n (w, held, owed)"
  shows "tickInv K i n (w, held @ dueSchedules w, owed)"
proof -
  have "set (map stamp (dueSchedules w)) \<subseteq> set (map stamp (rd_schedules w))" by (auto simp: dueSchedules_def)
  then show ?thesis using assms stampInv_read unfolding tickInv_def by (simp add: image_Un)
qed

lemma claim_lost:
  assumes "distinct (map sd_id rows)" "claimPeriod now key sd rows = (False, rows')"
  shows "rows' = rows"
proof -
  let ?P = "\<lambda>y. sd_id y = sd_id sd \<and> sd_enabled y \<and> sd_lastPeriod y = sd_lastPeriod sd"
  have "\<not> ?P y" if "y \<in> set rows" for y
  proof
    assume "?P y"
    then have "countWhere ?P rows = 1" using split_row [OF assms(1) that, of ?P] by auto
    then show False using assms(2) by (simp add: claimPeriod_def Let_def)
  qed
  then show ?thesis using assms(2) by (simp add: claimPeriod_def Let_def updateMany_none)
qed

lemma claim_won:
  assumes "distinct (map sd_id rows)" "claimPeriod now key sd rows = (True, rows')"
  shows "\<exists>r1 r2 y. map stamp rows = map stamp r1 @ (sd_id sd, sd_frequency (y :: schedule_row), sd_lastPeriod sd) # map stamp r2
    \<and> map stamp rows' = map stamp r1 @ (sd_id sd, sd_frequency y, Some key) # map stamp r2"
proof -
  let ?P = "\<lambda>y. sd_id y = sd_id sd \<and> sd_enabled y \<and> sd_lastPeriod y = sd_lastPeriod sd"
  have one: "countWhere ?P rows = 1" and rows': "rows' = updateMany ?P (\<lambda>y. y\<lparr>sd_lastPeriod := Some key, sd_lastRunAt := Some now\<rparr>) rows"
    using assms(2) by (simp_all add: claimPeriod_def Let_def)
  have "filter ?P rows \<noteq> []" using one by (auto simp: countWhere_def)
  then obtain y where y: "y \<in> set rows" "?P y" by (auto simp: filter_empty_conv)
  let ?f = "\<lambda>y :: schedule_row. y\<lparr>sd_lastPeriod := Some key, sd_lastRunAt := Some now\<rparr>"
  obtain r1 r2 where "rows = r1 @ y # r2" "updateMany ?P ?f rows = r1 @ ?f y # r2"
    by (rule split_row [where P = ?P and f = ?f, OF assms(1) y]) (use y(2) in simp_all)
  then have "rows = r1 @ y # r2" "rows' = r1 @ ?f y # r2" by (simp_all add: rows')
  then show ?thesis using y(2) by (intro exI [of _ r1] exI [of _ r2] exI [of _ y]) (simp add: stamp_def)
qed

lemma ownPeriodsD: "ownPeriods K X \<Longrightarrow> (j, f, Some (K g)) \<in> X \<Longrightarrow> g = f"
  by (auto simp: ownPeriods_def)

lemma sameFrequencyD:
  "sameFrequency K S H \<Longrightarrow> (j, f, l) \<in> S \<Longrightarrow> (j, f', l) \<in> H \<Longrightarrow> \<not> inPeriod K l \<Longrightarrow> f' = f"
  unfolding sameFrequency_def by fastforce

lemma claims_inv:
  assumes "tickInv K i n (w, held, owed)" "inj K" "sd \<in> set held" "periodKey env = K"
    and "sd_lastPeriod sd \<noteq> Some (K (sd_frequency sd))"
    and "claimPeriod now (K (sd_frequency sd)) sd (rd_schedules w) = (True, rows)"
  shows "tickInv K i n (w\<lparr>rd_schedules := rows\<rparr>, held, owed @ [(sd, p)])"
proof -
  let ?H = "set (map stamp held)" and ?R = "map re_scheduleId (rd_reports w) @ owes owed"
  obtain r1 r2 and y :: schedule_row where old: "map stamp (rd_schedules w) = map stamp r1 @ (sd_id sd, sd_frequency y, sd_lastPeriod sd) # map stamp r2"
    and new: "map stamp rows = map stamp r1 @ (sd_id sd, sd_frequency y, Some (K (sd_frequency sd))) # map stamp r2"
    using claim_won [OF tickInv_ids [OF assms(1)] assms(6)] by (elim exE conjE) (rule that)
  have inv: "stampInv K i n (map stamp r1 @ (sd_id sd, sd_frequency y, sd_lastPeriod sd) # map stamp r2) ?H ?R"
    using assms(1) by (simp add: tickInv_def old)
  have held: "(sd_id sd, sd_frequency sd, sd_lastPeriod sd) \<in> ?H" using imageI [OF assms(3), of stamp] by (simp add: stamp_def [of sd])
  have open_: "\<not> inPeriod K (sd_lastPeriod sd)"
  proof
    assume "inPeriod K (sd_lastPeriod sd)"
    then obtain g where g: "sd_lastPeriod sd = Some (K g)" by (rule exE)
    have "ownPeriods K ?H" using inv by (simp add: stampInv_def)
    then have "g = sd_frequency sd" using ownPeriodsD [of K ?H "sd_id sd" "sd_frequency sd" g] held [unfolded g] by blast
    then show False using g assms(5) by simp
  qed
  have "sameFrequency K (set (map stamp r1 @ (sd_id sd, sd_frequency y, sd_lastPeriod sd) # map stamp r2)) ?H"
    using inv by (simp only: stampInv_def)
  then have "sd_frequency sd = sd_frequency y" by (rule sameFrequencyD [OF _ _ held open_]) simp
  then have new': "map stamp rows = map stamp r1 @ (sd_id sd, sd_frequency y, Some (K (sd_frequency y))) # map stamp r2" using new by simp
  have "stamped (map stamp rows) (map re_scheduleId (rd_reports w)) (w\<lparr>rd_schedules := rows\<rparr>)" by (simp add: stamped_def)
  then show ?thesis
    by (rule tickI) (use stampInv_settle(2) [OF inv assms(2) open_] in \<open>simp add: new' owes_def\<close>)
qed

lemma runs_inv:
  assumes "tickInv K i n (w, held, o1 @ (sd, p) # o2)" "runOne env rw sd p w = (q, w')"
  shows "tickInv K i n (w', held, o1 @ o2)"
proof -
  let ?S = "map stamp (rd_schedules w)" and ?R = "map re_scheduleId (rd_reports w)"
  note inv = tickD [OF assms(1)]
  have d: "distinct (map fst ?S)" using inv by (simp only: stampInv_def)
  have "count_list (R @ owes (o1 @ o2)) (Some i) \<le> count_list (?R @ owes (o1 @ (sd, p) # o2)) (Some i)"
    if "R = ?R \<or> R = ?R @ [Some (sd_id sd)]" for R
    using that by (elim disjE) (simp_all add: owes_def)
  then have later: "stampInv K i n ?S (set (map stamp held)) (R @ owes (o1 @ o2))" if "R = ?R \<or> R = ?R @ [Some (sd_id sd)]" for R
    using stampInv_fewer [OF inv order_refl d] that by simp
  show ?thesis
    by (rule disjE [OF runOne_stamped [OF assms(2) stamped_refl]]) (erule tickI, rule later, simp)+
qed

lemma applyChanges_stamp:
  "stamp (applyChanges env g b b) = stamp b \<or> (\<exists>f. stamp (applyChanges env g b b) = (sd_id b, f, Some (periodKey env f)))"
  by (cases "sg_name g"; cases "sg_filters g"; cases "sg_recipientUserIds g"; cases "sg_enabled g"; cases "sg_frequency g")
    (simp_all add: applyChanges_def stamp_def Let_def)

lemma logSchedule_keeps [keeps]: "keepsH (stamped S R) (logSchedule env client c action i before after)"
  unfolding logSchedule_def by (intro keeps) simp

lemma assertRecipients_keeps [keeps]: "keepsH (stamped S R) (assertRecipients tenantId ids)"
  unfolding assertRecipients_def by (intro keeps)

definition sameTables :: "report_db \<Rightarrow> report_db \<Rightarrow> bool" where
  "sameTables w x \<longleftrightarrow> rd_schedules x = rd_schedules w \<and> rd_reports x = rd_reports w \<and> drawn (rd_db x) = drawn (rd_db w)"

lemma getUserPermissions_drawn: "drawn (snd (getUserPermissions up u t s)) = drawn s"
  by (simp add: getUserPermissions_def cacheStore_def liftH_def monad_defs split: sum.split option.split)

lemma sameTables_inDb: "(\<And>s. drawn (snd (m s)) = drawn s) \<Longrightarrow> keepsH (sameTables w) (inDb m)"
  unfolding keepsH_def inDb_def sameTables_def by (auto split: prod.split) (metis snd_conv)

lemma checks_same:
  "keepsH (sameTables w) (assertCanRead rw t c)" "keepsH (sameTables w) (assertRecipients tenantId ids)"
  "keepsH (sameTables w) (case ro of None \<Rightarrow> returnH () | Some ids \<Rightarrow> assertRecipients tenantId ids)"
  "keepsH (sameTables w) (case fo of None \<Rightarrow> returnH () | Some fs \<Rightarrow> throwIfH (P fs) e)"
proof -
  show r: "keepsH (sameTables w) (assertRecipients tenantId ids)" for tenantId ids unfolding assertRecipients_def by (intro keeps)
  show "keepsH (sameTables w) (assertCanRead rw t c)"
    unfolding assertCanRead_def by (intro keeps sameTables_inDb getUserPermissions_drawn)
  show "keepsH (sameTables w) (case ro of None \<Rightarrow> returnH () | Some ids \<Rightarrow> assertRecipients tenantId ids)"
    by (cases ro) (simp_all add: keeps r)
  show "keepsH (sameTables w) (case fo of None \<Rightarrow> returnH () | Some fs \<Rightarrow> throwIfH (P fs) e)" by (cases fo) (simp_all add: keeps)
qed

lemma bindH_run: "bindH m k w = (r, w') \<Longrightarrow> \<exists>x w1. m w = (x, w1) \<and> (w' = w1 \<or> (\<exists>y. x = Inr y \<and> k y w1 = (r, w')))"
  by (auto simp: bindH_def split: prod.splits sum.splits)

lemma check_run:
  assumes "keepsH (sameTables w0) m" "sameTables w0 w" "w' = w \<or> thenH m n w = (r, w')"
  obtains w1 where "sameTables w0 w1" "w' = w1 \<or> n w1 = (r, w')"
proof (cases "thenH m n w = (r, w')")
  case True
  from bindH_run [OF True [unfolded thenH_def]] obtain x w1 where m: "m w = (x, w1)" and rest: "w' = w1 \<or> n w1 = (r, w')" by auto
  show thesis by (rule that [OF keeps_run [OF assms(1) m assms(2)] rest])
next
  case False
  then show thesis using that [OF assms(2)] assms(3) by simp
qed

lemma sameTables_stamped: "sameTables w x \<Longrightarrow> stamped (map stamp (rd_schedules w)) (map re_scheduleId (rd_reports w)) x"
  by (simp add: sameTables_def stamped_def)

lemma sameTables_refl: "sameTables w w"
  by (simp add: sameTables_def)

lemma updateSchedule_outcome:
  assumes "updateScheduleById env rw c client j g w = (r, w')" and "findSchedule (rc_tenantId c) j w = Some b"
  shows "stamped (map stamp (rd_schedules w)) (map re_scheduleId (rd_reports w)) w'
    \<or> stamped (map stamp (updateMany (\<lambda>sd. sd_id sd = j) (applyChanges env g b) (rd_schedules w))) (map re_scheduleId (rd_reports w)) w'"
proof -
  let ?A = "assertCanRead rw (sd_type b) c"
    and ?B = "case sg_recipientUserIds g of None \<Rightarrow> returnH () | Some ids \<Rightarrow> assertRecipients (rc_tenantId c) ids"
    and ?C = "case sg_filters g of None \<Rightarrow> returnH () | Some fs \<Rightarrow>
        throwIfH (list_ex (\<lambda>k. k \<notin> set (reportFilters (sd_type b))) (objectKeys fs)) (AppError 400 ''VALIDATION_ERROR'')"
    and ?U = "bindH (updateScheduleRow j (applyChanges env g b)) (\<lambda>updated.
       thenH (logSchedule env client c ''UPDATE'' j (toSchedule b) (toSchedule updated)) (returnH updated))"
  have run: "thenH ?A (thenH ?B (thenH ?C ?U)) w = (r, w')"
    using assms by (simp add: updateScheduleById_def getSchedule_def bindH_def readH_def orThrowH_def returnH_def)
  have log: "keepsH (stamped S R) (thenH (logSchedule env client c ''UPDATE'' j x y) (returnH (z :: schedule_row)))" for S R x y z by (intro keeps)
  have "stamped (map stamp (updateMany (\<lambda>sd. sd_id sd = j) (applyChanges env g b) (rd_schedules w))) (map re_scheduleId (rd_reports w)) w'"
    if "?U w3 = (r, w')" "sameTables w w3" for w3
  proof -
    let ?S = "map stamp (updateMany (\<lambda>sd. sd_id sd = j) (applyChanges env g b) (rd_schedules w))"
    have row: "snd (updateScheduleRow j (applyChanges env g b) w3) = updateSchedule j (applyChanges env g b) w3"
      by (simp add: updateScheduleRow_def monad_defs split: option.split)
    have "stamped ?S (map re_scheduleId (rd_reports w)) (updateSchedule j (applyChanges env g b) w3)"
      using that(2) by (simp add: stamped_def updateSchedule_def sameTables_def)
    then show ?thesis using bindH_run [OF that(1)] row keeps_run [OF log] by (metis snd_conv)
  qed
  moreover obtain w1 where w1: "sameTables w w1" "w' = w1 \<or> thenH ?B (thenH ?C ?U) w1 = (r, w')"
    by (rule check_run [OF checks_same(1) sameTables_refl disjI2 [OF run]])
  moreover obtain w2 where w2: "sameTables w w2" "w' = w2 \<or> thenH ?C ?U w2 = (r, w')"
    by (rule check_run [OF checks_same(3) w1])
  moreover obtain w3 where "sameTables w w3" "w' = w3 \<or> ?U w3 = (r, w')"
    by (rule check_run [OF checks_same(4) w2])
  ultimately show ?thesis using sameTables_stamped by blast
qed

lemma updates_inv:
  assumes "tickInv K i n (w, held, owed)" "inj K" "periodKey env = K" "updateScheduleById env rw c client j g w = (r, w')"
  shows "tickInv K i n (w', held, owed)"
proof (cases "findSchedule (rc_tenantId c) j w")
  case None
  then have "w' = w" using assms(4) by (auto simp: updateScheduleById_def getSchedule_def bindH_def readH_def orThrowH_def throwH_def)
  then show ?thesis using assms(1) by simp
next
  case (Some b)
  let ?R = "map re_scheduleId (rd_reports w) @ owes owed" and ?H = "set (map stamp held)"
  have b: "b \<in> set (rd_schedules w)" "sd_id b = j" using Some by (auto simp: findSchedule_def dest: find_SomeD)
  obtain r1 r2 where rows: "rd_schedules w = r1 @ b # r2"
    and new: "updateMany (\<lambda>sd. sd_id sd = j) (applyChanges env g b) (rd_schedules w) = r1 @ applyChanges env g b b # r2"
    by (rule split_row [OF tickInv_ids [OF assms(1)] b(1), where P = "\<lambda>sd. sd_id sd = j" and f = "applyChanges env g b"]) (use b(2) in auto)
  let ?new = "map stamp r1 @ stamp (applyChanges env g b b) # map stamp r2"
  have inv: "stampInv K i n (map stamp r1 @ (sd_id b, sd_frequency b, sd_lastPeriod b) # map stamp r2) ?H ?R"
    using assms(1) by (simp add: tickInv_def rows) (simp add: stamp_def)
  have "stampInv K i n ?new ?H ?R"
    using applyChanges_stamp [of env g b] stampInv_settle(1) [OF inv assms(2)] inv assms(3) by (auto simp: stamp_def [of b])
  then show ?thesis
    using updateSchedule_outcome [OF assms(4) Some] tickD [OF assms(1)] tickI unfolding new list.map map_append by blast
qed

lemma creates_inv:
  assumes "tickInv K i n (w, held, owed)" "inj K" "periodKey env = K" "createSchedule env rw c client x w = (r, w')"
    and "env_uuid env (drawn (rd_db w)) \<notin> sd_id ` (set (rd_schedules w) \<union> set held)"
  shows "tickInv K i n (w', held, owed)"
proof -
  let ?S = "map stamp (rd_schedules w)" and ?R = "map re_scheduleId (rd_reports w)" and ?H = "set (map stamp held)"
    and ?new = "(env_uuid env (drawn (rd_db w)), ns_frequency x, Some (periodKey env (ns_frequency x)))"
  define recipients where "recipients = uniqueIds (case ns_recipientUserIds x of Some (i # ids) \<Rightarrow> i # ids | _ \<Rightarrow> [rc_userId c])"
  define row where "row i = \<lparr>sd_id = i, sd_tenantId = rc_tenantId c, sd_createdBy = Some (rc_userId c), sd_name = ns_name x, sd_type = ns_type x,
          sd_frequency = ns_frequency x, sd_filters = ns_filters x, sd_recipientUserIds = recipients, sd_enabled = ns_enabled x,
          sd_lastPeriod = Some (periodKey env (ns_frequency x)), sd_lastRunAt = None, sd_lastReportId = None, sd_lastError = None,
          sd_createdAt = env_now env\<rparr>" for i
  define L where "L i = thenH (logSchedule env client c ''CREATE'' i JNull (toSchedule (row i))) (returnH (row i))" for i
  let ?U = "bindH (inDb (transaction (freshId env))) (\<lambda>i. thenH (writeH (\<lambda>w. w\<lparr>rd_schedules := rd_schedules w @ [row i]\<rparr>)) (L i))"
  have run: "thenH (assertCanRead rw (ns_type x) c) (thenH (assertRecipients (rc_tenantId c) recipients) ?U) w = (r, w')"
    using assms(4) by (simp add: createSchedule_def L_def row_def recipients_def Let_def)
  have "stamped (?S @ [?new]) ?R w'" if "?U w2 = (r, w')" "sameTables w w2" for w2
  proof -
    have run2: "L (env_uuid env (drawn (rd_db w2))) (w2\<lparr>rd_db := (rd_db w2)\<lparr>drawn := Suc (drawn (rd_db w2))\<rparr>,
        rd_schedules := rd_schedules w2 @ [row (env_uuid env (drawn (rd_db w2)))]\<rparr>) = (r, w')"
      using that(1) by (simp add: inDb_def freshId_def monad_defs)
    have L: "keepsH (stamped S R) (L i)" for S R i unfolding L_def by (intro keeps)
    have "stamped (?S @ [?new]) ?R (w2\<lparr>rd_db := (rd_db w2)\<lparr>drawn := Suc (drawn (rd_db w2))\<rparr>,
        rd_schedules := rd_schedules w2 @ [row (env_uuid env (drawn (rd_db w2)))]\<rparr>)"
      using that(2) by (simp add: stamped_def sameTables_def row_def stamp_def)
    then show ?thesis by (rule keeps_run [OF L run2])
  qed
  moreover obtain w1 where w1: "sameTables w w1" "w' = w1 \<or> thenH (assertRecipients (rc_tenantId c) recipients) ?U w1 = (r, w')"
    by (rule check_run [OF checks_same(1) sameTables_refl disjI2 [OF run]])
  moreover obtain w2 where "sameTables w w2" "w' = w2 \<or> ?U w2 = (r, w')"
    by (rule check_run [OF checks_same(2) w1])
  ultimately have "stamped ?S ?R w' \<or> stamped (?S @ [?new]) ?R w'" using sameTables_stamped by blast
  moreover have "stampInv K i n (?S @ [?new]) ?H (?R @ owes owed)"
    unfolding assms(3) by (rule stampInv_new [OF tickD [OF assms(1)] assms(2)]) (use assms(5) in \<open>auto simp: stamp_def\<close>)
  ultimately show ?thesis using tickD [OF assms(1)] tickI by blast
qed

lemma unlink_count: "count_list (map re_scheduleId (updateMany (\<lambda>r. re_scheduleId r = Some j) (\<lambda>r. r\<lparr>re_scheduleId := None\<rparr>) rs)) (Some i)
    \<le> count_list (map re_scheduleId rs) (Some i)"
  by (induction rs) auto

lemma removes_inv:
  assumes "tickInv K i n (w, held, owed)" "removeSchedule env c client j w = (u, w')"
  shows "tickInv K i n (w', held, owed)"
proof (cases "findSchedule (rc_tenantId c) j w")
  case None
  then have "w' = w" using assms(2) by (auto simp: removeSchedule_def getSchedule_def bindH_def readH_def orThrowH_def throwH_def)
  then show ?thesis using assms(1) by simp
next
  case (Some b)
  let ?S = "map stamp (deleteMany (\<lambda>sd. sd_id sd = j) (rd_schedules w))"
    and ?R = "map re_scheduleId (updateMany (\<lambda>r. re_scheduleId r = Some j) (\<lambda>r. r\<lparr>re_scheduleId := None\<rparr>) (rd_reports w))"
  have "stamped ?S ?R w'"
    using assms(2) Some keeps_run [OF logSchedule_keeps, of env client c "''DELETE''" j "toSchedule b" JNull]
    by (auto simp: removeSchedule_def getSchedule_def bindH_def readH_def orThrowH_def returnH_def thenH_def writeH_def stamped_def)
  moreover have "stampInv K i n ?S (set (map stamp held)) (?R @ owes owed)"
  proof (rule stampInv_fewer)
    show "stampInv K i n (map stamp (rd_schedules w)) (set (map stamp held)) (map re_scheduleId (rd_reports w) @ owes owed)"
      by (rule tickD [OF assms(1)])
    show "set ?S \<subseteq> set (map stamp (rd_schedules w))" by (auto simp: deleteMany_def)
    show "distinct (map fst ?S)" unfolding stamp_ids using tickInv_ids [OF assms(1)] by (simp add: deleteMany_def distinct_map_filter)
    show "count_list (?R @ owes owed) (Some i) \<le> count_list (map re_scheduleId (rd_reports w) @ owes owed) (Some i)"
      using unlink_count by simp
  qed
  ultimately show ?thesis by (rule tickI)
qed

lemma tickStep_inv:
  assumes "tickStep K rw a b" "tickInv K i n a" "inj K"
  shows "tickInv K i n b"
  using assms
proof (induction rule: tickStep.induct)
  case (tick_reads w held owed)
  then show ?case by (intro reads_inv)
next
  case (tick_claims sd held env p w rows owed)
  have key: "pd_key p = K (sd_frequency sd)" unfolding tick_claims(3) tick_claims(2) [symmetric] periodKey_def ..
  show ?case using claims_inv [OF tick_claims(6,7,1,2)] tick_claims(4,5) unfolding key by blast
next
  case (tick_loses sd held env p w rows owed)
  have "rows = rd_schedules w" by (rule claim_lost [OF tickInv_ids [OF tick_loses(6)] tick_loses(5)])
  then show ?case using tick_loses(6) by simp
next
  case (tick_runs env sd p w q w' held o1 o2)
  show ?case by (rule runs_inv [OF tick_runs(2,1)])
next
  case (user_creates env w held c client x r w' owed)
  show ?case by (rule creates_inv [OF user_creates(4,5,1,3,2)])
next
  case (user_updates env c client j g w r w' held owed)
  show ?case by (rule updates_inv [OF user_updates(3,4,1,2)])
next
  case (user_removes env c client j w u w' held owed)
  show ?case by (rule removes_inv [OF user_removes(2,1)])
next
  case (user_requests env c client t filters w v w' held owed)
  note inv = tickD [OF user_requests(2)]
  have "stampInv K i n (map stamp (rd_schedules w)) (set (map stamp held)) ((map re_scheduleId (rd_reports w) @ [None]) @ owes owed)"
    using inv by (rule stampInv_fewer) (use inv in \<open>simp_all add: stampInv_def\<close>)
  then show ?case using requestReport_stamped [OF user_requests(1) stamped_refl] inv tickI by blast
next
  case (worker_generates env tenantId reportId w g w' held owed)
  have "stamped (map stamp (rd_schedules w)) (map re_scheduleId (rd_reports w)) w'"
    using generate_keeps worker_generates(1) stamped_refl by (rule keeps_run)
  then show ?case using tickD [OF worker_generates(2)] by (rule tickI)
qed

lemma tickSteps_inv:
  "(tickStep K rw)\<^sup>*\<^sup>* a b \<Longrightarrow> tickInv K i n a \<Longrightarrow> inj K \<Longrightarrow> tickInv K i n b"
  by (induction rule: rtranclp_induct) (simp_all add: tickStep_inv)

lemma runSchedules_steps:
  "runSchedules env rw due w = (q, w') \<Longrightarrow> set due \<subseteq> set held \<Longrightarrow> (tickStep (periodKey env) rw)\<^sup>*\<^sup>* (w, held, owed) (w', held, owed)"
proof (induction due arbitrary: w q)
  case (Cons sd rest)
  let ?p = "latestCompletedPeriod env (sd_frequency sd) (env_now env)"
  show ?case
  proof (cases "sd_lastPeriod sd = Some (pd_key ?p)")
    case True
    then show ?thesis using Cons by (simp add: Let_def)
  next
    case False
    obtain claimed rows where claim: "claimPeriod (env_now env) (pd_key ?p) sd (rd_schedules w) = (claimed, rows)" by (cases "claimPeriod (env_now env) (pd_key ?p) sd (rd_schedules w)")
    show ?thesis
    proof (cases claimed)
      case True
      obtain a w1 where one: "runOne env rw sd ?p (w\<lparr>rd_schedules := rows\<rparr>) = (a, w1)" by (cases "runOne env rw sd ?p (w\<lparr>rd_schedules := rows\<rparr>)")
      have "tickStep (periodKey env) rw (w, held, owed) (w\<lparr>rd_schedules := rows\<rparr>, held, owed @ [(sd, ?p)])"
        using tick_claims [OF _ refl refl False] Cons.prems(2) claim True by simp
      moreover have "tickStep (periodKey env) rw (w\<lparr>rd_schedules := rows\<rparr>, held, owed @ [(sd, ?p)]) (w1, held, owed)"
        using tick_runs [OF one, of "periodKey env" held owed "[]"] by simp
      ultimately have "(tickStep (periodKey env) rw)\<^sup>*\<^sup>* (w, held, owed) (w1, held, owed)"
        by (meson rtranclp.simps converse_rtranclp_into_rtranclp)
      moreover have "w' = w1 \<or> (\<exists>q2. runSchedules env rw rest w1 = (q2, w'))"
        using Cons.prems(1) False claim True one
        by (cases a) (auto simp: Let_def bindH_def thenH_def readH_def writeH_def returnH_def split: prod.splits sum.splits)
      ultimately show ?thesis using Cons.IH Cons.prems(2) by (metis (no_types, lifting) rtranclp_trans insert_subset list.simps(15))
    next
      case lost: False
      have "tickStep (periodKey env) rw (w, held, owed) (w\<lparr>rd_schedules := rows\<rparr>, held, owed)"
        using tick_loses [OF _ refl refl False] Cons.prems(2) claim lost by simp
      moreover have "runSchedules env rw rest (w\<lparr>rd_schedules := rows\<rparr>) = (q, w')"
        using Cons.prems(1) False claim lost by (simp add: Let_def bindH_def thenH_def readH_def writeH_def)
      ultimately show ?thesis using Cons.IH Cons.prems(2) by (metis (no_types, lifting) converse_rtranclp_into_rtranclp insert_subset list.simps(15))
    qed
  qed
qed (simp add: returnH_def)

lemma runDue_steps:
  assumes "runDue env rw w = (q, w')"
  shows "(tickStep (periodKey env) rw)\<^sup>*\<^sup>* (w, held, owed) (w', held @ dueSchedules w, owed)"
proof -
  obtain q1 where "runSchedules env rw (dueSchedules w) w = (q1, w')"
    using assms by (auto simp: runDue_def bindH_def readH_def returnH_def split: prod.splits sum.splits)
  then have "(tickStep (periodKey env) rw)\<^sup>*\<^sup>* (w, held @ dueSchedules w, owed) (w', held @ dueSchedules w, owed)"
    by (rule runSchedules_steps) auto
  then show ?thesis by (rule converse_rtranclp_into_rtranclp [where r = "tickStep (periodKey env) rw", OF tick_reads])
qed

lemma periodKey_inj:
  assumes "\<And>d. 10 \<le> length (env_iso env d)"
  shows "inj (periodKey env)"
proof -
  have "7 \<le> length (env_iso env d)" for d using assms [of d] by linarith
  then have size: "length (periodKey env f) = (case f of F_DAILY \<Rightarrow> 10 | F_WEEKLY \<Rightarrow> 18 | F_MONTHLY \<Rightarrow> 7)" for f
    using assms by (cases f) (simp_all add: periodKey_def latestCompletedPeriod_def isoDay_def Let_def min_absorb2)
  show ?thesis
  proof (rule injI)
    fix f g
    assume "periodKey env f = periodKey env g"
    then have "length (periodKey env f) = length (periodKey env g)" by (rule arg_cong)
    then show "f = g" unfolding size by (cases f; cases g) simp_all
  qed
qed


section \<open>Two workers and a failing queue\<close>

definition tickEnv :: env where
  "tickEnv = demoEnv\<lparr>env_iso := (\<lambda>_. ''2026-01-31T00:00'')\<rparr>"

definition demoSchedule :: "string \<Rightarrow> schedule_row" where
  "demoSchedule i = \<lparr>sd_id = i, sd_tenantId = ''t'', sd_createdBy = Some ''u'', sd_name = i, sd_type = R_CUSTOMERS,
     sd_frequency = F_DAILY, sd_filters = JObj [], sd_recipientUserIds = [''u''], sd_enabled = True, sd_lastPeriod = Some ''x'',
     sd_lastRunAt = None, sd_lastReportId = None, sd_lastError = None, sd_createdAt = 0\<rparr>"

definition tickShop :: report_db where
  "tickShop = \<lparr>rd_db = accessDb\<lparr>accounts := (accounts accessDb)\<lparr>permissions := map (\<lambda>p. p\<lparr>pe_resource := ''customer''\<rparr>) (permissions (accounts accessDb))\<rparr>\<rparr>,
     rd_disk = [], rd_reports = [], rd_schedules = [demoSchedule ''s1'', demoSchedule ''s2''], rd_jobs = []\<rparr>"


text \<open>A request that fails loses its period: the tick moves the schedule on before it asks for the report. Here the queue refuses
  the job of the first schedule: the tick stops before the second schedule, and the next tick, with the queue back, requests the second
  only. The report of the first stays pending without a job.\<close>

lemma failed_request_loses_period:
  "let w1 = snd (runDue tickEnv (demoReports\<lparr>rw_addError := Some (JsError ''ECONNREFUSED'')\<rparr>) tickShop);
       (q, w2) = runDue tickEnv demoReports w1
   in map (\<lambda>sd. sd_lastPeriod sd) (rd_schedules w1) = [Some ''2026-01-31'', Some ''x'']
     \<and> map (\<lambda>r. (re_scheduleId r, re_status r)) (rd_reports w2) = [(Some ''s1'', R_PENDING), (Some ''s2'', R_PENDING)]
     \<and> map (\<lambda>j. snd (snd j)) (rd_jobs w2) = [re_id (rd_reports w2 ! 1)]"
  by code_simp

end
