(* ===== verification/Spec2Isabelle.thy ===== *)
theory Spec2Isabelle
  imports Razorpay RoleAccess Categories Idempotency Pos Shop ReportSchedules
begin

text \<open>
  A model of the backend of a multi-tenant commerce platform (src/src, Node.js with Express, Prisma on PostgreSQL,
  Redis and BullMQ), translated operation by operation, with the theorems that make its services correct.

  \<^bold>\<open>The program.\<close> A request passes middleware (authentication, permissions, idempotency keys), reaches a controller that
  calls one method of a service, and the service works on the tables of one PostgreSQL database, mostly inside a
  Prisma transaction; it then writes an audit row, emits socket messages and queues jobs. Businesses (tenants) share the
  tables, every query carries the tenant's id.

  \<^bold>\<open>How the model follows it.\<close> A table is the list of its rows in insertion order and a row is a record with the columns
  the modelled code reads or writes (theories Schema and AccountSchema; the database is the record \<open>db\<close>). Unique indexes and foreign keys
  are checks of the inserting operation that throw the code Prisma throws (P2002, P2003, P2025). A service method is
  a function of the state in one of two types of theory Prelude: \<open>tx\<close> is the body of a \<open>$transaction\<close>, which commits or is rolled
  back by a throw; \<open>io\<close> is a handler, whose earlier writes stay when it throws. Errors are values of \<open>error\<close>. The world is an
  argument: \<open>env\<close> is the clock, the stream of random identifiers and the configuration. Amounts are integers of paise, tax rates exact
  rationals, bytes are words of 8 bits. Requests that overlap are step relations: of single database operations for idempotency keys
  (\<open>idemStep\<close>), of whole requests and of commits whose reads are arbitrarily old for shoppers (\<open>shopStep\<close>), of
  reads, claims and runs for report schedules (\<open>tickStep\<close>), of whole requests elsewhere.

  \<^bold>\<open>Theories.\<close>
  \<^item> Prelude: errors, the two computation types, their weakest preconditions (collection \<open>wp\<close>), outcome equations (\<open>outcome\<close>) and
    invariant rules (\<open>keeps\<close>), table queries, JavaScript numbers and strings. JsValue: JSON values with \<open>undefined\<close>.
  \<^item> Schema, AccountSchema: rows of prisma/schema.prisma, the database, the world, sample data for the witnesses.
  \<^item> Stores: the interfaces \<open>key_store\<close>, \<open>amount_store\<close> (stock tables, invoice counters) and \<open>status_machine\<close> (orders, payments).
  \<^item> AuditLog: modules/audit and realtime/realtime.service.js, the redaction of secrets. Jobs: jobs/queues/notification.queue.js.
  \<^item> Gst: modules/gst/india.js and modules/orders/gst.js. Plans: modules/plans/plans.service.js.
  \<^item> Inventory: modules/inventory/inventory.service.js. Customers: modules/customers. Orders: modules/orders/orders.service.js.
  \<^item> Gateway: common/crypto/secret-box.js, integrations/payment/razorpay.client.js, modules/payments/payment-gateway.service.js and
    webhook.util.js. Payments and Razorpay: modules/payments/payments.service.js and razorpay-payments.service.js.
  \<^item> Auth and Sessions: modules/auth/auth.service.js with its repository. Access: auth.middleware.js, authorization.middleware.js,
    modules/support/support.service.js, the permission cache. Roles and RoleAccess: modules/roles and modules/users.
  \<^item> Categories: modules/categories. Idempotency: common/middleware/idempotency.js and the deletion of its rows in
    jobs/processors/cleanup.processor.js.
  \<^item> CashRegister: modules/pos/cash-register.service.js. Pos: modules/pos/pos.service.js.
  \<^item> Storage: common/storage (service and local provider) and modules/storage/storage.controller.js.
  \<^item> Reports: modules/reports/reports.service.js with its builders and CSV, and their queue; ReportSchedules:
    modules/reports/report-schedules.service.js. Reports, schedules and files lie beside the database (record \<open>report_db\<close>).
  \<^item> Shopper: modules/storefront/storefront.auth.js and authenticateCustomer of storefront.middleware.js.
  \<^item> Shop: the cart, checkout, payment and orders of a shopper, modules/storefront/storefront.shop.js, with stockOf and attributesOf of
    storefront.catalog.js; carts are a table beside the database (record \<open>shop_db\<close>).

  \<^bold>\<open>What the theorems show.\<close>
  \<^item> Orders: the order book stays consistent; a created order takes exactly its lines from stock, its amounts add up, its
    invoice number is the next; what is well formed and in stock is accepted; cancelling gives the stock back. A checkout buys
    what the cart shows, and a cart that is shown as ready can be refused at it. Stock operations keep stock
    non-negative, mirrored and explained by its ledger, and take effect once or not at all whatever the database reports.
  \<^item> Money: tax is the exact rate rounded to the nearest paisa and its split is complete; refunds never exceed the charge, payments only
    move forward, redelivered webhooks are idle, the browser and the webhook complete a payment once; secrets are sealed and recovered;
    a counter sale is settled to the paisa; a shift of a drawer refines an abstract drawer.
  \<^item> Access: sessions of people and of shoppers have one usable token, replays end them, password links work once; the permission
    middleware is equivalent to the definition of a granted permission and its cache cannot be noticed; tenants do not affect each
    other's roles or files; system roles are immutable; support sessions only read.
  \<^item> Requests: a keyed request runs once in every interleaving; category requests return on a forest.
  \<^item> Reports: a generated file reads back as the rows of the query and starts no formula; retention ends and deletes what is past its
    age; a schedule is requested once in a period, however ticks and edits interleave.

  \<^bold>\<open>Interfaces.\<close> Each locale is interpreted on the model's own tables: \<open>key_store\<close> and \<open>amount_store\<close> (Inventory, Orders),
  \<open>status_machine\<close> (Orders, Payments), \<open>posting_ledger\<close> (CashRegister), \<open>read_through\<close> (Access), \<open>object_store\<close> (Storage) and
  \<open>shop_property\<close> (Shopper, twice).

  \<^bold>\<open>Bounds.\<close> A retried transaction runs at most three times, as in the code (\<open>retryFrom\<close>). The walk to the root of the category tree has
  no bound in the code: it is a partial function whose value \<open>None\<close> is a request that never returns. The pages of a report have fuel of one
  more than the rows (\<open>allPages_sorted\<close>: it is enough); retention loops until no row is left, with a proof that it ends. Every other
  loop is over a list. A handler of a keyed request is assumed to end within the 24 hours its key is kept. The lifetime of a permission cache entry is not modelled:
  an entry may stay for ever, which only makes the theorems about the cache stronger.

  \<^bold>\<open>Parameters.\<close> What is not code of the repository is an argument: SHA-256, HMAC, argon2 and token signing (\<open>auth_world\<close>), AES-GCM and the
  answers of the Razorpay server (\<open>remote\<close>), the provider that charges a card (\<open>provider\<close>), the check of a token (\<open>verifier\<close>),
  \<open>JSON.parse\<close>, the errors PostgreSQL reports (\<open>faults\<close>). Hypotheses about them (that a cipher decrypts what it encrypted, that
  secrets drawn later do not collide) are premises of the theorems, and the witnesses instantiate them.

  \<^bold>\<open>Not modelled.\<close> Row locks and isolation: a transaction is one step, which is what the locks and the serializable level of the code
  ask of PostgreSQL; where the code reads before its transaction the model lets other requests run between. Pages and filters of
  listings and analytics; the searches of the storefront's catalogue; products, variants, warehouses and product images
  (records other services read; their rows are in Schema); notifications; platform administration; the S3 provider and the mail, SMS, maps and shipping
  clients; BullMQ workers; the socket server; request validation by zod; controllers, configuration, metrics, health probes and the
  OpenAPI description.
\<close>

end
